(* ===== verification/Acdp_Prelude.thy ===== *)
theory Acdp_Prelude
  imports Main "HOL-Library.Word"
begin

text \<open>
  Shared vocabulary of the development: machine integers and byte strings, results of
  fallible code, and the generic lemmas on lists, powers of two and words that the
  component theories use.

  \<^item> \<open>u8\<close>, \<open>u32\<close>, \<open>u64\<close>: the Rust integers of that width; \<open>bytes\<close> is \<open>Vec<u8>\<close>
    or \<open>&[u8]\<close>.
  \<^item> \<open>('e, 'a) result\<close>: Rust's \<open>Result<'a, 'e>\<close>, with \<open>Inl\<close> for \<open>Err\<close> and
    \<open>Inr\<close> for \<open>Ok\<close>; \<open>rbind\<close> is the \<open>?\<close> operator.
\<close>

type_synonym u8 = "8 word"
type_synonym u16 = "16 word"
type_synonym u32 = "32 word"
type_synonym u64 = "64 word"
type_synonym bytes = "u8 list"
type_synonym ('e, 'a) result = "'e + 'a"

named_theorems result_simps "rewriting of results and their sequencing"

definition rbind :: "('e, 'a) result \<Rightarrow> ('a \<Rightarrow> ('e, 'b) result) \<Rightarrow> ('e, 'b) result" where
  "rbind m f = (case m of Inl e \<Rightarrow> Inl e | Inr x \<Rightarrow> f x)"

text \<open>\<open>require c e\<close> is the early return \<open>if !c { return Err(e) }\<close>.\<close>

definition require :: "bool \<Rightarrow> 'e \<Rightarrow> ('e, unit) result" where
  "require c e = (if c then Inr () else Inl e)"

definition is_ok :: "('e, 'a) result \<Rightarrow> bool" where
  "is_ok r = (case r of Inl _ \<Rightarrow> False | Inr _ \<Rightarrow> True)"

text \<open>\<open>ok_or m e\<close> is \<open>m.ok_or(e)\<close>.\<close>

definition ok_or :: "'a option \<Rightarrow> 'e \<Rightarrow> ('e, 'a) result" where
  "ok_or m e = (case m of None \<Rightarrow> Inl e | Some x \<Rightarrow> Inr x)"

text \<open>
  Sequences of checks: \<open>checks\<close> runs them in order up to the first error, \<open>each\<close> is
  \<open>for x in xs { f(x)?; }\<close>, \<open>opt_check\<close> is \<open>if let Some(x) = m { f(x)?; }\<close> and \<open>void\<close> drops a value.
\<close>

definition void :: "('e, 'a) result \<Rightarrow> ('e, unit) result" where
  "void r = rbind r (\<lambda>_. Inr ())"

primrec checks :: "('e, unit) result list \<Rightarrow> ('e, unit) result" where
  "checks [] = Inr ()"
| "checks (r # rs) = rbind r (\<lambda>_. checks rs)"

definition each :: "('a \<Rightarrow> ('e, unit) result) \<Rightarrow> 'a list \<Rightarrow> ('e, unit) result" where
  "each f xs = checks (map f xs)"

definition opt_check :: "'a option \<Rightarrow> ('a \<Rightarrow> ('e, unit) result) \<Rightarrow> ('e, unit) result" where
  "opt_check m f = (case m of None \<Rightarrow> Inr () | Some x \<Rightarrow> f x)"

lemma rbind_simps [simp, result_simps]:
  "rbind (Inl e) f = Inl e"
  "rbind (Inr x) f = f x"
  by (simp_all add: rbind_def)

lemma rbind_eq_Inr [result_simps]:
  "rbind m f = Inr y \<longleftrightarrow> (\<exists>x. m = Inr x \<and> f x = Inr y)"
  by (cases m) auto

lemma rbind_eq_Inl [result_simps]:
  "rbind m f = Inl e \<longleftrightarrow> m = Inl e \<or> (\<exists>x. m = Inr x \<and> f x = Inl e)"
  by (cases m) auto

lemma require_eq_Inr [simp, result_simps]: "require c e = Inr u \<longleftrightarrow> c"
  by (simp add: require_def)

lemma require_eq_Inl [simp, result_simps]: "require c e = Inl e' \<longleftrightarrow> \<not> c \<and> e' = e"
  by (auto simp add: require_def)

lemma require_simps [simp, result_simps]: "require True e = Inr ()" "require False e = Inl e"
  by (simp_all add: require_def)

lemma is_ok_simps [simp, result_simps]:
  "is_ok (Inl e) = False"
  "is_ok (Inr x) = True"
  by (simp_all add: is_ok_def)

lemma is_ok_iff [result_simps]: "is_ok r \<longleftrightarrow> (\<exists>x. r = Inr x)"
  by (cases r) auto

lemma ok_or_simps [simp, result_simps]:
  "ok_or None e = Inl e"
  "ok_or (Some x) e = Inr x"
  by (simp_all add: ok_or_def)

lemma ok_or_eq_Inr [result_simps]: "ok_or m e = Inr x \<longleftrightarrow> m = Some x"
  by (cases m) auto

lemma void_eq_Inr [result_simps]: "void r = Inr () \<longleftrightarrow> is_ok r"
  by (cases r) (auto simp: void_def is_ok_def)

lemma checks_ok [result_simps]: "checks rs = Inr () \<longleftrightarrow> (\<forall>r\<in>set rs. r = Inr ())"
  by (induction rs) (auto simp: rbind_eq_Inr)

lemma checks_append: "checks (rs @ ss) = rbind (checks rs) (\<lambda>_. checks ss)"
proof (induction rs)
  case (Cons r rs)
  then show ?case by (cases r) simp_all
qed simp

lemma each_ok [result_simps]: "each f xs = Inr () \<longleftrightarrow> (\<forall>x\<in>set xs. f x = Inr ())"
  by (simp add: each_def checks_ok)

lemma each_simps [simp]: "each f [] = Inr ()" "each f (x # xs) = rbind (f x) (\<lambda>_. each f xs)"
  by (simp_all add: each_def)

lemma opt_check_ok [result_simps]: "opt_check m f = Inr () \<longleftrightarrow> (\<forall>x. m = Some x \<longrightarrow> f x = Inr ())"
  by (cases m) (auto simp: opt_check_def)

lemma opt_check_simps [simp]: "opt_check None f = Inr ()" "opt_check (Some x) f = f x"
  by (simp_all add: opt_check_def)

section \<open>Words\<close>

text \<open>\<open>shr1 w\<close> is \<open>w >> 1\<close> on an unsigned integer.\<close>

definition shr1 :: "'a::len word \<Rightarrow> 'a word" where
  "shr1 w = drop_bit 1 w"

lemma unat_less: "unat w < 2 ^ LENGTH('a)" for w :: "'a::len word"
  by (rule unsigned_less)

lemma unat_shr1 [simp]: "unat (shr1 w) = unat w div 2"
  unfolding shr1_def unat_drop_bit_eq by (simp add: drop_bit_eq_div)

lemma word_mod2_eq_1 [simp]: "w mod 2 = 1 \<longleftrightarrow> odd (unat w)" if "1 < LENGTH('a)" for w :: "'a::len word"
proof -
  have "unat (w mod 2) = unat w mod 2"
    using that by (simp add: unat_mod_distrib)
  moreover have "unat (1 :: 'a word) = 1" by simp
  ultimately show ?thesis by (metis odd_iff_mod_2_eq_one word_unat_eq_iff)
qed

lemma word_mod2_eq_0 [simp]: "w mod 2 = 0 \<longleftrightarrow> even (unat w)" if "1 < LENGTH('a)" for w :: "'a::len word"
proof -
  have "unat (w mod 2) = unat w mod 2"
    using that by (simp add: unat_mod_distrib)
  then show ?thesis by (metis even_iff_mod_2_eq_zero unat_0 unat_eq_zero)
qed

lemma unat_minus_1 [simp]: "w \<noteq> 0 \<Longrightarrow> unat (w - 1) = unat w - 1"
  by (simp add: unat_minus_one)

section \<open>Systems of atomic steps\<close>

text \<open>
  The contract of a component whose operations are atomic steps on a state: every step keeps an
  invariant, and, for append-only components, every step only grows the state. The lemmas lift both
  to any number of steps.
\<close>

locale transition_system =
  fixes step :: "'s \<Rightarrow> 's \<Rightarrow> bool"
    and inv :: "'s \<Rightarrow> bool"
  assumes step_inv: "inv s \<Longrightarrow> step s s' \<Longrightarrow> inv s'"
begin

lemma steps_inv: "step\<^sup>*\<^sup>* s s' \<Longrightarrow> inv s \<Longrightarrow> inv s'"
  by (induction rule: rtranclp_induct) (auto intro: step_inv)

end

locale growing_system = transition_system step inv
  for step :: "'s \<Rightarrow> 's \<Rightarrow> bool" and inv :: "'s \<Rightarrow> bool" +
  fixes grows :: "'s \<Rightarrow> 's \<Rightarrow> bool"
  assumes grows_refl: "grows s s"
    and grows_trans: "grows s t \<Longrightarrow> grows t u \<Longrightarrow> grows s u"
    and step_grows: "inv s \<Longrightarrow> step s s' \<Longrightarrow> grows s s'"
begin

lemma steps_grow: "step\<^sup>*\<^sup>* s s' \<Longrightarrow> inv s \<Longrightarrow> grows s s'"
proof (induction rule: rtranclp_induct)
  case (step t u)
  then have "inv t" by (auto intro: steps_inv)
  then show ?case using step grows_trans step_grows by blast
qed (rule grows_refl)

end

text \<open>Forward simulation: every step is a step of an abstract system, or leaves its state alone.\<close>

locale simulation = transition_system step inv
  for step :: "'s \<Rightarrow> 's \<Rightarrow> bool" and inv :: "'s \<Rightarrow> bool" +
  fixes astep :: "'a \<Rightarrow> 'a \<Rightarrow> bool"
    and abstr :: "'s \<Rightarrow> 'a"
  assumes step_simulated: "inv s \<Longrightarrow> step s s' \<Longrightarrow> astep (abstr s) (abstr s') \<or> abstr s' = abstr s"
begin

lemma steps_simulated: "step\<^sup>*\<^sup>* s s' \<Longrightarrow> inv s \<Longrightarrow> astep\<^sup>*\<^sup>* (abstr s) (abstr s')"
proof (induction rule: rtranclp_induct)
  case (step t u)
  then have "inv t" by (auto intro: steps_inv)
  with step step_simulated show ?case by (metis rtranclp.rtrancl_into_rtrancl)
qed simp

end

end
