(* ===== verification/Acdp_Merkle.thy ===== *)
theory Acdp_Merkle
  imports Acdp_Prelude
begin

text \<open>
  The RFC 6962 Merkle machinery of the transparency log
  (\<open>crates/acdp-crypto/src/merkle.rs\<close>): tree hash, audit paths, consistency proofs and
  the two iterative verifiers.

  SHA-256 is code outside the repository: it is the parameter \<open>sha256\<close> of every
  definition that hashes. A digest \<open>[u8; 32]\<close> is a byte list; the theorems that need its
  length say so. Slice lengths and indices into slices (\<open>usize\<close>) are \<open>nat\<close>; the
  verifiers' \<open>leaf_index\<close>, \<open>tree_size\<close>, \<open>first\<close> and \<open>second\<close> are \<open>u64\<close> words
  and shift as words do.
\<close>

type_synonym digest = bytes

section \<open>Hashes and the tree hash\<close>

definition LEAF_HASH_PREFIX :: u8 where
  "LEAF_HASH_PREFIX = 0x00"

definition NODE_HASH_PREFIX :: u8 where
  "NODE_HASH_PREFIX = 0x01"

definition leaf_hash :: "(bytes \<Rightarrow> digest) \<Rightarrow> bytes \<Rightarrow> digest" where
  "leaf_hash sha256 leaf_bytes = sha256 ([LEAF_HASH_PREFIX] @ leaf_bytes)"

definition node_input :: "digest \<Rightarrow> digest \<Rightarrow> bytes" where
  "node_input left right = [NODE_HASH_PREFIX] @ left @ right"

definition node_hash :: "(bytes \<Rightarrow> digest) \<Rightarrow> digest \<Rightarrow> digest \<Rightarrow> digest" where
  "node_hash sha256 left right = sha256 (node_input left right)"

text \<open>
  The loop \<open>while k * 2 < n { k *= 2 }\<close> of \<open>largest_pow2_lt\<close>, from a given \<open>k\<close>. A
  zero \<open>k\<close> (never reached: the loop starts at 1) would not make progress, so the guard
  names it for termination.
\<close>

function pow2_loop :: "nat \<Rightarrow> nat \<Rightarrow> nat" where
  "pow2_loop k n = (if 0 < k \<and> k * 2 < n then pow2_loop (k * 2) n else k)"
  by pat_completeness auto
termination
  by (relation "measure (\<lambda>(k, n). n - k)") auto

declare pow2_loop.simps [simp del]

definition largest_pow2_lt :: "nat \<Rightarrow> nat" where
  "largest_pow2_lt n = pow2_loop 1 n"

lemma pow2_loop_spec:
  "k = 2 ^ a \<Longrightarrow> k < n \<Longrightarrow> \<exists>h. pow2_loop k n = 2 ^ h \<and> 2 ^ h < n \<and> n \<le> 2 * 2 ^ h"
proof (induction k n arbitrary: a rule: pow2_loop.induct)
  case (1 k n)
  show ?case
  proof (cases "k * 2 < n")
    case True
    moreover have "k * 2 = 2 ^ Suc a" using "1.prems" by simp
    moreover have "0 < k" using "1.prems" by simp
    moreover from calculation(1,3) have "pow2_loop k n = pow2_loop (k * 2) n"
      by (subst pow2_loop.simps) simp
    ultimately show ?thesis
      using "1.IH"[of "Suc a"] by metis
  next
    case False
    then show ?thesis
      using "1.prems" by (intro exI[of _ a]) (subst pow2_loop.simps, simp)
  qed
qed

lemma largest_pow2_lt_spec:
  assumes "2 \<le> n"
  obtains h where "largest_pow2_lt n = 2 ^ h" "2 ^ h < n" "n \<le> 2 * 2 ^ h"
  using pow2_loop_spec[of 1 0 n] assms by (auto simp: largest_pow2_lt_def)

lemma largest_pow2_lt_pos [simp]: "2 \<le> n \<Longrightarrow> 0 < largest_pow2_lt n"
  by (metis largest_pow2_lt_spec zero_less_numeral zero_less_power)

lemma largest_pow2_lt_less [simp]: "2 \<le> n \<Longrightarrow> largest_pow2_lt n < n"
  by (metis largest_pow2_lt_spec)

lemma largest_pow2_lt_split [simp]:
  "n \<noteq> 0 \<Longrightarrow> n \<noteq> Suc 0 \<Longrightarrow> largest_pow2_lt n < n"
  "n \<noteq> 0 \<Longrightarrow> n \<noteq> Suc 0 \<Longrightarrow> n - largest_pow2_lt n < n"
  "\<not> n \<le> Suc 0 \<Longrightarrow> n - largest_pow2_lt n < n"
  "\<not> n \<le> m \<Longrightarrow> n \<noteq> Suc 0 \<Longrightarrow> n - largest_pow2_lt n < n"
  using largest_pow2_lt_less[of n] largest_pow2_lt_pos[of n] by linarith+

text \<open>The split point is the only power of two in its interval.\<close>

lemma largest_pow2_lt_eq:
  assumes "2 ^ h < n" "n \<le> 2 * 2 ^ h"
  shows "largest_pow2_lt n = 2 ^ h"
proof -
  have "2 \<le> n" using assms by (metis Suc_leI le_less_trans numeral_2_eq_2 one_le_numeral one_le_power Suc_le_mono One_nat_def le_trans)
  then obtain g where g: "largest_pow2_lt n = 2 ^ g" "2 ^ g < n" "n \<le> 2 * 2 ^ g"
    by (rule largest_pow2_lt_spec)
  have "(2::nat) ^ h < 2 ^ Suc g" "(2::nat) ^ g < 2 ^ Suc h"
    using assms g by simp_all
  then have "h = g"
    by (metis less_Suc_eq_le le_antisym one_less_numeral_iff power_strict_increasing_iff semiring_norm(76))
  with g show ?thesis by simp
qed

function merkle_tree_hash :: "(bytes \<Rightarrow> digest) \<Rightarrow> digest list \<Rightarrow> digest" where
  "merkle_tree_hash sha256 leaf_hashes =
     (if length leaf_hashes = 0 then sha256 []
      else if length leaf_hashes = 1 then leaf_hashes ! 0
      else let k = largest_pow2_lt (length leaf_hashes) in
        node_hash sha256 (merkle_tree_hash sha256 (take k leaf_hashes))
          (merkle_tree_hash sha256 (drop k leaf_hashes)))"
  by pat_completeness auto
termination
  by (relation "measure (\<lambda>(_, ls). length ls)") simp_all

declare merkle_tree_hash.simps [simp del]

section \<open>Generating proofs\<close>

function inclusion_path :: "(bytes \<Rightarrow> digest) \<Rightarrow> nat \<Rightarrow> digest list \<Rightarrow> digest list option" where
  "inclusion_path sha256 leaf_index leaf_hashes =
     (let n = length leaf_hashes in
      if n \<le> leaf_index then None
      else if n = 1 then Some []
      else let k = largest_pow2_lt n in
        if leaf_index < k
        then (case inclusion_path sha256 leaf_index (take k leaf_hashes) of
                None \<Rightarrow> None
              | Some p \<Rightarrow> Some (p @ [merkle_tree_hash sha256 (drop k leaf_hashes)]))
        else (case inclusion_path sha256 (leaf_index - k) (drop k leaf_hashes) of
                None \<Rightarrow> None
              | Some p \<Rightarrow> Some (p @ [merkle_tree_hash sha256 (take k leaf_hashes)])))"
  by pat_completeness auto
termination
  by (relation "measure (\<lambda>(_, _, ls). length ls)") auto

declare inclusion_path.simps [simp del]

text \<open>
  The inner \<open>subproof\<close>. The source calls it with \<open>0 < m <= d.len()\<close> only; on a tree of
  at most one leaf with \<open>m\<close> different from its size (never reached) the source would
  recurse forever, and the model stops.
\<close>

function subproof :: "(bytes \<Rightarrow> digest) \<Rightarrow> nat \<Rightarrow> digest list \<Rightarrow> bool \<Rightarrow> digest list" where
  "subproof sha256 m d b =
     (let n = length d in
      if m = n then (if b then [] else [merkle_tree_hash sha256 d])
      else if n \<le> 1 then []
      else let k = largest_pow2_lt n in
        if m \<le> k
        then subproof sha256 m (take k d) b @ [merkle_tree_hash sha256 (drop k d)]
        else subproof sha256 (m - k) (drop k d) False @ [merkle_tree_hash sha256 (take k d)])"
  by pat_completeness auto
termination
  by (relation "measure (\<lambda>(_, _, d, _). length d)") auto

declare subproof.simps [simp del]

definition consistency_proof :: "(bytes \<Rightarrow> digest) \<Rightarrow> nat \<Rightarrow> digest list \<Rightarrow> digest list option" where
  "consistency_proof sha256 first leaf_hashes =
     (if first = 0 \<or> length leaf_hashes < first then None
      else Some (subproof sha256 first leaf_hashes True))"

section \<open>Verifying proofs\<close>

text \<open>\<open>while fnode.is_multiple_of(2) && fnode != 0 { fnode >>= 1; snode >>= 1; }\<close>\<close>

function shift_even :: "u64 \<Rightarrow> u64 \<Rightarrow> u64 \<times> u64" where
  "shift_even fnode snode =
     (if fnode mod 2 = 0 \<and> fnode \<noteq> 0 then shift_even (shr1 fnode) (shr1 snode)
      else (fnode, snode))"
  by pat_completeness auto
termination
  by (relation "measure (\<lambda>(f, _). unat f)") (auto simp: unat_gt_0)

text \<open>\<open>while fnode % 2 == 1 { fnode >>= 1; snode >>= 1; }\<close>\<close>

function shift_odd :: "u64 \<Rightarrow> u64 \<Rightarrow> u64 \<times> u64" where
  "shift_odd fnode snode =
     (if fnode mod 2 = 1 then shift_odd (shr1 fnode) (shr1 snode)
      else (fnode, snode))"
  by pat_completeness auto
termination
  by (relation "measure (\<lambda>(f, _). unat f)") (auto dest: odd_pos)

declare shift_even.simps [simp del] shift_odd.simps [simp del]

text \<open>The \<open>for p in path\<close> loop of \<open>verify_inclusion\<close>; \<open>None\<close> is its early \<open>return false\<close>.\<close>

fun inclusion_loop ::
  "(bytes \<Rightarrow> digest) \<Rightarrow> digest list \<Rightarrow> u64 \<Rightarrow> u64 \<Rightarrow> digest \<Rightarrow> (u64 \<times> digest) option" where
  "inclusion_loop sha256 [] fnode snode r = Some (snode, r)"
| "inclusion_loop sha256 (p # path) fnode snode r =
     (if snode = 0 then None
      else if fnode mod 2 = 1 \<or> fnode = snode then
        (let r' = node_hash sha256 p r;
             (f', s') = (if fnode mod 2 = 0 then shift_even fnode snode else (fnode, snode))
         in inclusion_loop sha256 path (shr1 f') (shr1 s') r')
      else
        (let r' = node_hash sha256 r p
         in inclusion_loop sha256 path (shr1 fnode) (shr1 snode) r'))"

definition verify_inclusion ::
  "(bytes \<Rightarrow> digest) \<Rightarrow> digest \<Rightarrow> u64 \<Rightarrow> u64 \<Rightarrow> digest list \<Rightarrow> digest \<Rightarrow> bool" where
  "verify_inclusion sha256 leaf leaf_index tree_size path root =
     (if tree_size \<le> leaf_index then False
      else case inclusion_loop sha256 path leaf_index (tree_size - 1) leaf of
             None \<Rightarrow> False
           | Some (snode, r) \<Rightarrow> snode = 0 \<and> r = root)"

text \<open>The \<open>for c in elements\<close> loop of \<open>verify_consistency\<close>.\<close>

fun consistency_loop ::
  "(bytes \<Rightarrow> digest) \<Rightarrow> digest list \<Rightarrow> u64 \<Rightarrow> u64 \<Rightarrow> digest \<Rightarrow> digest
     \<Rightarrow> (u64 \<times> digest \<times> digest) option" where
  "consistency_loop sha256 [] fnode snode fr sr = Some (snode, fr, sr)"
| "consistency_loop sha256 (c # elements) fnode snode fr sr =
     (if snode = 0 then None
      else if fnode mod 2 = 1 \<or> fnode = snode then
        (let fr' = node_hash sha256 c fr;
             sr' = node_hash sha256 c sr;
             (f', s') = (if fnode mod 2 = 0 then shift_even fnode snode else (fnode, snode))
         in consistency_loop sha256 elements (shr1 f') (shr1 s') fr' sr')
      else
        (let sr' = node_hash sha256 sr c
         in consistency_loop sha256 elements (shr1 fnode) (shr1 snode) fr sr'))"

unbundle bit_operations_syntax

definition verify_consistency ::
  "(bytes \<Rightarrow> digest) \<Rightarrow> u64 \<Rightarrow> u64 \<Rightarrow> digest list \<Rightarrow> digest \<Rightarrow> digest \<Rightarrow> bool" where
  "verify_consistency sha256 first second path first_root second_root =
     (if first = second then path = [] \<and> first_root = second_root
      else if first = 0 \<or> second < first \<or> path = [] then False
      else
        let elements = (if first AND (first - 1) = 0 then [first_root] else []) @ path;
            (fnode, snode) = shift_odd (first - 1) (second - 1)
        in case elements of
             [] \<Rightarrow> False
           | first_el # rest \<Rightarrow>
               (case consistency_loop sha256 rest fnode snode first_el first_el of
                  None \<Rightarrow> False
                | Some (s, fr, sr) \<Rightarrow> fr = first_root \<and> sr = second_root \<and> s = 0))"

end
