(* ===== verification/Acdp_Merkle_Correct.thy ===== *)
theory Acdp_Merkle_Correct
  imports Acdp_Merkle
begin

text \<open>
  Correctness of the Merkle verifiers. Both verifier loops climb from a subtree to the
  root of the tree, one sibling hash per step, and decide from two counters on which side
  the sibling stands. \<open>walk\<close> is that climb over natural numbers with the two ways of
  combining a sibling as parameters; the locale \<open>merkle_walk\<close> states what a combination
  must keep and proves once that a climb over the siblings of a position ends at the root.
  It is interpreted for the inclusion verifier and for the consistency verifier.
\<close>

section \<open>The climb\<close>

function nshift_even :: "nat \<Rightarrow> nat \<Rightarrow> nat \<times> nat" where
  "nshift_even f s = (if even f \<and> f \<noteq> 0 then nshift_even (f div 2) (s div 2) else (f, s))"
  by pat_completeness auto
termination
  by (relation "measure (\<lambda>(f, _). f)") auto

function nshift_odd :: "nat \<Rightarrow> nat \<Rightarrow> nat \<times> nat" where
  "nshift_odd f s = (if odd f then nshift_odd (f div 2) (s div 2) else (f, s))"
  by pat_completeness auto
termination
  by (relation "measure (\<lambda>(f, _). f)") (auto dest: odd_pos)

declare nshift_even.simps [simp del] nshift_odd.simps [simp del]

fun walk :: "('p \<Rightarrow> 's \<Rightarrow> 's) \<Rightarrow> ('p \<Rightarrow> 's \<Rightarrow> 's) \<Rightarrow> 'p list \<Rightarrow> nat \<Rightarrow> nat \<Rightarrow> 's
    \<Rightarrow> (nat \<times> nat \<times> 's) option" where
  "walk stepL stepR [] f s x = Some (f, s, x)"
| "walk stepL stepR (p # ps) f s x =
     (if s = 0 then None
      else if odd f \<or> f = s then
        (case nshift_even f s of (f', s') \<Rightarrow>
           walk stepL stepR ps (f' div 2) (s' div 2) (stepL p x))
      else walk stepL stepR ps (f div 2) (s div 2) (stepR p x))"

lemma walk_append:
  "walk L R (ps @ qs) f s x =
     (case walk L R ps f s x of None \<Rightarrow> None | Some (f', s', x') \<Rightarrow> walk L R qs f' s' x')"
  by (induction ps arbitrary: f s x) (auto split: prod.splits)

lemma nshift_even_odd [simp]: "odd f \<Longrightarrow> nshift_even f s = (f, s)"
  by (simp add: nshift_even.simps)

lemma nshift_even_pow2: "odd a \<Longrightarrow> nshift_even (a * 2 ^ j) (b * 2 ^ j) = (a, b)"
proof (induction j)
  case (Suc j)
  have "a * 2 ^ Suc j \<noteq> 0" using Suc.prems by (simp add: odd_pos)
  then show ?case
    using Suc by (subst nshift_even.simps) simp
qed simp

lemma double_minus_1_rem: "0 < (N::nat) \<Longrightarrow> 2 * N - 1 = 2 * q + r \<Longrightarrow> r < 2 \<Longrightarrow> r = 1"
  by arith

lemma nshift_odd_spec:
  "t mod 2 ^ Suc j = 2 ^ j - 1 \<Longrightarrow> nshift_odd t s = (t div 2 ^ j, s div 2 ^ j)"
proof (induction j arbitrary: t s)
  case 0
  then show ?case by (subst nshift_odd.simps) (simp add: mod_2_eq_odd)
next
  case (Suc j)
  have t: "t mod (2 * 2 ^ Suc j) = 2 ^ Suc j - 1" using Suc.prems by simp
  have split: "t mod (2 * 2 ^ Suc j) = 2 * (t div 2 mod 2 ^ Suc j) + t mod 2"
    by (rule mod_mult2_eq)
  have pos: "0 < (2::nat) ^ j" by simp
  have odd: "odd t"
    using double_minus_1_rem[OF pos, of "t div 2 mod 2 ^ Suc j" "t mod 2"] t split
    by (simp add: odd_iff_mod_2_eq_one)
  moreover have "t div 2 mod 2 ^ Suc j = 2 ^ j - 1"
    using t split odd pos by (simp add: odd_iff_mod_2_eq_one)
  ultimately show ?case
    using Suc.IH[of "t div 2" "s div 2"]
    by (subst nshift_odd.simps) (simp add: div_mult2_eq)
qed

section \<open>Siblings of a position\<close>

text \<open>
  \<open>base_of base t d\<close> descends from the tree over \<open>d\<close> to the first subtree on the way to
  leaf \<open>t\<close> for which \<open>base\<close> holds, and \<open>siblings\<close> collects the tree hashes beside
  that way, lowest first. Audit paths stop at a single leaf, consistency proofs at the
  subtree that ends at the old size.
\<close>

function base_of :: "(nat \<Rightarrow> nat \<Rightarrow> bool) \<Rightarrow> nat \<Rightarrow> 'd list \<Rightarrow> nat \<times> 'd list" where
  "base_of base t d =
     (if base t (length d) \<or> length d \<le> 1 then (t, d)
      else let k = largest_pow2_lt (length d) in
        if t < k then base_of base t (take k d) else base_of base (t - k) (drop k d))"
  by pat_completeness auto
termination
  by (relation "measure (\<lambda>(_, _, d). length d)") auto

function siblings :: "('d list \<Rightarrow> 'd) \<Rightarrow> (nat \<Rightarrow> nat \<Rightarrow> bool) \<Rightarrow> nat \<Rightarrow> 'd list \<Rightarrow> 'd list" where
  "siblings mth base t d =
     (if base t (length d) \<or> length d \<le> 1 then []
      else let k = largest_pow2_lt (length d) in
        if t < k then siblings mth base t (take k d) @ [mth (drop k d)]
        else siblings mth base (t - k) (drop k d) @ [mth (take k d)])"
  by pat_completeness auto
termination
  by (relation "measure (\<lambda>(_, _, _, d). length d)") auto

declare base_of.simps [simp del] siblings.simps [simp del]

lemma base_of_stop: "base t (length d) \<or> length d \<le> 1 \<Longrightarrow> base_of base t d = (t, d)"
  by (simp add: base_of.simps)

lemma siblings_stop: "base t (length d) \<or> length d \<le> 1 \<Longrightarrow> siblings mth base t d = []"
  by (simp add: siblings.simps)

text \<open>A tree of more than one leaf as its two halves.\<close>

lemma tree_split:
  assumes "2 ^ h < length d" "length d \<le> 2 * 2 ^ h"
  obtains l r where "d = l @ r" "length l = 2 ^ h" "0 < length r" "length r \<le> 2 ^ h"
    "largest_pow2_lt (length d) = 2 ^ h" "take (2 ^ h) d = l" "drop (2 ^ h) d = r"
proof
  show "d = take (2 ^ h) d @ drop (2 ^ h) d" by simp
  show "largest_pow2_lt (length d) = 2 ^ h" using assms by (rule largest_pow2_lt_eq)
qed (use assms in auto)

lemma two_halves: "r \<noteq> [] \<Longrightarrow> (2 ^ h + length r \<le> Suc 0) = False"
  using one_le_power[of "2::nat" h] by (cases r) auto

lemma base_of_split:
  assumes "length l = 2 ^ h" "0 < length r" "length r \<le> 2 ^ h" "\<not> base t (length (l @ r))"
  shows "base_of base t (l @ r) =
    (if t < 2 ^ h then base_of base t l else base_of base (t - 2 ^ h) r)"
proof -
  have "largest_pow2_lt (length (l @ r)) = 2 ^ h"
    using assms by (intro largest_pow2_lt_eq) auto
  then show ?thesis
    using assms by (subst base_of.simps) (simp add: Let_def two_halves)
qed

lemma siblings_split:
  assumes "length l = 2 ^ h" "0 < length r" "length r \<le> 2 ^ h" "\<not> base t (length (l @ r))"
  shows "siblings mth base t (l @ r) =
    (if t < 2 ^ h then siblings mth base t l @ [mth r]
     else siblings mth base (t - 2 ^ h) r @ [mth l])"
proof -
  have "largest_pow2_lt (length (l @ r)) = 2 ^ h"
    using assms by (intro largest_pow2_lt_eq) auto
  then show ?thesis
    using assms by (subst siblings.simps) (simp add: Let_def two_halves)
qed

section \<open>Climbing to the root\<close>

text \<open>Arithmetic of levels: the two children of a perfect subtree, and the level of a size.\<close>

lemma div_pow2_Suc: "(s::nat) div 2 ^ Suc h = s div 2 ^ h div 2"
  by (simp only: power_Suc2 div_mult2_eq)

lemma div_mult_add_less: "(r::nat) < N \<Longrightarrow> (q * N + r) div N = q"
  by simp

lemma perfect_children:
  fixes s :: nat
  assumes "a < s div 2 ^ Suc h \<or> s = a * 2 ^ Suc h + 2 ^ Suc h - 1"
  shows "2 * a < s div 2 ^ h"
    and "2 * a + 1 < s div 2 ^ h \<or> s = (2 * a + 1) * 2 ^ h + 2 ^ h - 1"
proof -
  define N :: nat where "N = 2 ^ h"
  have N: "0 < N" by (simp add: N_def)
  have div2: "s div 2 ^ Suc h = s div N div 2"
    unfolding N_def by (rule div_pow2_Suc)
  show "2 * a + 1 < s div 2 ^ h \<or> s = (2 * a + 1) * 2 ^ h + 2 ^ h - 1"
    using assms div2 by (auto simp: N_def[symmetric] algebra_simps)
  have "((2 * a + 1) * N + (N - 1)) div N = 2 * a + 1"
    using N by (intro div_mult_add_less) simp
  moreover have "(2 * a + 1) * N + (N - 1) = a * 2 ^ Suc h + 2 ^ Suc h - 1"
    using N by (simp add: N_def[symmetric] algebra_simps)
  ultimately show "2 * a < s div 2 ^ h"
    using assms div2 by (auto simp: N_def[symmetric])
qed

lemma ceil_log2:
  assumes "0 < (n::nat)"
  obtains M where "n \<le> 2 ^ M" "M = 0 \<or> 2 ^ (M - 1) < n"
proof -
  define M where "M = (LEAST M. n \<le> 2 ^ M)"
  have "n \<le> 2 ^ n" using less_exp[of n] by simp
  then have "n \<le> 2 ^ M" unfolding M_def by (rule LeastI)
  moreover have "M = 0 \<or> 2 ^ (M - 1) < n"
  proof (cases "M = 0")
    case False
    then have "M - 1 < (LEAST M. n \<le> 2 ^ M)" by (simp add: M_def)
    then have "\<not> n \<le> 2 ^ (M - 1)" by (rule not_less_Least)
    then show ?thesis by simp
  qed simp
  ultimately show ?thesis using that by blast
qed

lemma ceil_log2_le: "M = 0 \<or> 2 ^ (M - 1) < (n::nat) \<Longrightarrow> n \<le> 2 ^ h \<Longrightarrow> M \<le> h"
proof (rule ccontr)
  assume a: "M = 0 \<or> 2 ^ (M - 1) < n" "n \<le> 2 ^ h" "\<not> M \<le> h"
  then have "(2::nat) ^ h \<le> 2 ^ (M - 1)" by (intro power_increasing) auto
  also have "\<dots> < n" using a(1,3) by auto
  finally show False using a(2) by simp
qed

locale merkle_walk =
  fixes mth :: "'d list \<Rightarrow> 'd"
    and stepL :: "'d \<Rightarrow> 's \<Rightarrow> 's"
    and stepR :: "'d \<Rightarrow> 's \<Rightarrow> 's"
    and base :: "nat \<Rightarrow> nat \<Rightarrow> bool"
    and good :: "nat \<Rightarrow> 'd list \<Rightarrow> 's \<Rightarrow> bool"
  assumes good_right: "length l = 2 ^ h \<Longrightarrow> 0 < length r \<Longrightarrow> length r \<le> 2 ^ h \<Longrightarrow> t < 2 ^ h \<Longrightarrow>
      good t l x \<Longrightarrow> good t (l @ r) (stepR (mth r) x)"
    and good_left: "length l = 2 ^ h \<Longrightarrow> 0 < length r \<Longrightarrow> length r \<le> 2 ^ h \<Longrightarrow> t < length r \<Longrightarrow>
      good t r x \<Longrightarrow> good (2 ^ h + t) (l @ r) (stepL (mth l) x)"
    and base_right: "\<not> base (k + t) (k + n) \<Longrightarrow> n = 1 \<or> \<not> base t n"
begin

text \<open>
  The climb inside a perfect subtree of \<open>2 ^ h\<close> leaves at index \<open>a\<close> of its level, in a
  tree whose last leaf is \<open>s\<close>: either the subtree is not the last of its level or it ends
  at \<open>s\<close>. \<open>climbs\<close> is the statement for one subtree; \<open>j\<close> is the level it starts from.
\<close>

definition climbs :: "nat \<Rightarrow> 'd list \<Rightarrow> nat \<Rightarrow> nat \<Rightarrow> nat \<Rightarrow> nat \<Rightarrow> nat \<Rightarrow> bool" where
  "climbs t d f s a b j \<longleftrightarrow>
     length (snd (base_of base t d)) = 2 ^ j \<and>
     (\<forall>x. good (fst (base_of base t d)) (snd (base_of base t d)) x \<longrightarrow>
        (\<exists>y. walk stepL stepR (siblings mth base t d) (f div 2 ^ j) (s div 2 ^ j) x = Some (a, b, y)
           \<and> good t d y))"

lemma climbs_stop:
  assumes "base t (length d) \<or> length d \<le> 1" "length d = 2 ^ j"
    "f div 2 ^ j = a" "s div 2 ^ j = b"
  shows "climbs t d f s a b j"
  using assms by (simp add: climbs_def base_of_stop siblings_stop)

lemma climbs_right:
  assumes sizes: "length l = 2 ^ h" "0 < length r" "length r \<le> 2 ^ h"
    and "\<not> base t (length (l @ r))" "t < 2 ^ h" "climbs t l f s a b j" "even a" "a < b"
  shows "climbs t (l @ r) f s (a div 2) (b div 2) j"
  using assms good_right[OF sizes \<open>t < 2 ^ h\<close>]
  by (fastforce simp: climbs_def base_of_split siblings_split walk_append)

lemma climbs_left:
  assumes sizes: "length l = 2 ^ h" "0 < length r" "length r \<le> 2 ^ h"
    and "\<not> base (2 ^ h + t) (length (l @ r))" "t < length r" "climbs t r f s a b j"
    and "odd a \<or> a = b" "0 < b" "nshift_even a b = (a', b')"
  shows "climbs (2 ^ h + t) (l @ r) f s (a' div 2) (b' div 2) j"
  using assms good_left[OF sizes \<open>t < length r\<close>]
  by (fastforce simp: climbs_def base_of_split siblings_split walk_append)

lemma climbs_perfect:
  assumes "length d = 2 ^ h" "t < 2 ^ h" "a < s div 2 ^ h \<or> s = a * 2 ^ h + 2 ^ h - 1"
  shows "\<exists>j. climbs t d (a * 2 ^ h + t) s a (s div 2 ^ h) j"
  using assms
proof (induction h arbitrary: d t a)
  case 0
  then show ?case by (intro exI[of _ 0] climbs_stop) auto
next
  case (Suc h)
  have pos: "0 < (2::nat) ^ h" by simp
  have sdiv: "s div 2 ^ Suc h = s div 2 ^ h div 2"
    by (rule div_pow2_Suc)
  have s_left: "2 * a < s div 2 ^ h"
    and s_right: "2 * a + 1 < s div 2 ^ h \<or> s = (2 * a + 1) * 2 ^ h + 2 ^ h - 1"
    using perfect_children[OF Suc.prems(3)] by auto
  show ?case
  proof (cases "base t (length d)")
    case True
    then show ?thesis
      using Suc.prems by (intro exI[of _ "Suc h"] climbs_stop) auto
  next
    case nb: False
    obtain l r where d: "d = l @ r" and l: "length l = 2 ^ h" and r: "length r = 2 ^ h"
      using Suc.prems(1) by (metis add_diff_cancel_left' append_take_drop_id length_append
          length_take min.absorb2 mult_2 power_Suc le_add1)
    show ?thesis
    proof (cases "t < 2 ^ h")
      case True
      obtain j where "climbs t l (2 * a * 2 ^ h + t) s (2 * a) (s div 2 ^ h) j"
        using Suc.IH[OF l True, of "2 * a"] s_left by blast
      then have "climbs t (l @ r) (2 * a * 2 ^ h + t) s (2 * a div 2) (s div 2 ^ h div 2) j"
        using nb True s_left l r d by (intro climbs_right[where h = h]) auto
      then show ?thesis unfolding d sdiv by (auto simp: mult.assoc mult.left_commute)
    next
      case False
      define u where "u = t - 2 ^ h"
      have t: "t = 2 ^ h + u" and u: "u < 2 ^ h"
        using False Suc.prems(2) by (auto simp: u_def)
      obtain j where "climbs u r ((2 * a + 1) * 2 ^ h + u) s (2 * a + 1) (s div 2 ^ h) j"
        using Suc.IH[OF r u, of "2 * a + 1"] s_right by blast
      then have "climbs (2 ^ h + u) (l @ r) ((2 * a + 1) * 2 ^ h + u) s
          ((2 * a + 1) div 2) (s div 2 ^ h div 2) j"
        using nb u s_left l r d t by (intro climbs_left[where h = h]) auto
      then show ?thesis unfolding d sdiv t by (auto simp: algebra_simps)
    qed
  qed
qed

text \<open>
  The climb inside the last, ragged subtree of \<open>n\<close> leaves at level \<open>L\<close> (the least
  level with \<open>n \<le> 2 ^ L\<close>) that starts at leaf \<open>c * 2 ^ L\<close>.
\<close>

lemma climbs_ragged:
  assumes "0 < length d" "length d \<le> 2 ^ L" "L = 0 \<or> 2 ^ (L - 1) < length d" "t < length d"
    "length d = 1 \<or> \<not> base t (length d)"
  shows "\<exists>j. climbs t d (c * 2 ^ L + t) (c * 2 ^ L + length d - 1) c c j"
  using assms
proof (induction d arbitrary: L c t rule: length_induct)
  case (1 d)
  show ?case
  proof (cases "length d = 1")
    case True
    then have "L = 0" using "1.prems" by (cases L) auto
    then show ?thesis using True "1.prems" by (intro exI[of _ 0] climbs_stop) auto
  next
    case False
    then obtain h where L: "L = Suc h" using "1.prems" by (cases L) auto
    have nb: "\<not> base t (length d)" and n: "2 ^ h < length d" "length d \<le> 2 * 2 ^ h"
      using False "1.prems" L by auto
    obtain l r where d: "d = l @ r" and l: "length l = 2 ^ h" and r: "0 < length r" "length r \<le> 2 ^ h"
      using n by (rule tree_split)
    define s where "s = c * 2 ^ L + length d - 1"
    have s: "s = (2 * c + 1) * 2 ^ h + (length r - 1)"
      using d l r L by (cases "length r") (simp_all add: s_def algebra_simps)
    have sdiv: "s div 2 ^ h = 2 * c + 1"
      unfolding s by (rule div_mult_add_less) (use r in linarith)
    show ?thesis
    proof (cases "t < 2 ^ h")
      case True
      obtain j where "climbs t l (2 * c * 2 ^ h + t) s (2 * c) (2 * c + 1) j"
        using climbs_perfect[OF l True, of "2 * c" s] sdiv by auto
      then have "climbs t (l @ r) (2 * c * 2 ^ h + t) s (2 * c div 2) ((2 * c + 1) div 2) j"
        using nb True l r d by (intro climbs_right[where h = h]) auto
      then show ?thesis unfolding d L s_def by (auto simp: algebra_simps)
    next
      case False
      define u where "u = t - 2 ^ h"
      have t: "t = 2 ^ h + u" and u: "u < length r"
        using False "1.prems"(4) d l by (auto simp: u_def)
      have nbr: "length r = 1 \<or> \<not> base u (length r)"
        using base_right[of "2 ^ h" u "length r"] nb d l t by simp
      obtain M where M: "length r \<le> 2 ^ M" "M = 0 \<or> 2 ^ (M - 1) < length r"
        using r(1) by (rule ceil_log2)
      have "M \<le> h" using M(2) r(2) by (rule ceil_log2_le)
      then obtain g where g: "h = M + g" using le_iff_add by blast
      define c' where "c' = (2 * c + 1) * 2 ^ g"
      have "length r < length d" using d l by simp
      then obtain j where "climbs u r (c' * 2 ^ M + u) (c' * 2 ^ M + length r - 1) c' c' j"
        using "1.IH" M u nbr r(1) by blast
      moreover have "c' * 2 ^ M = (2 * c + 1) * 2 ^ h"
        by (simp add: c'_def g power_add algebra_simps)
      ultimately have "climbs u r ((2 * c + 1) * 2 ^ h + u) s c' c' j"
        using s r(1) by simp
      moreover have "nshift_even c' c' = (2 * c + 1, 2 * c + 1)"
        unfolding c'_def by (rule nshift_even_pow2) simp
      moreover have "0 < c'" by (simp add: c'_def)
      ultimately have "climbs (2 ^ h + u) (l @ r) ((2 * c + 1) * 2 ^ h + u) s
          ((2 * c + 1) div 2) ((2 * c + 1) div 2) j"
        using nb l r d t u by (intro climbs_left[where h = h]) auto
      then show ?thesis unfolding d L t s_def by (auto simp: algebra_simps)
    qed
  qed
qed

end

section \<open>The verifiers climb\<close>

lemma shift_even_nat:
  "(case shift_even f s of (f', s') \<Rightarrow> (unat f', unat s')) = nshift_even (unat f) (unat s)"
proof (induction f s rule: shift_even.induct)
  case (1 f s)
  then show ?case
    by (subst shift_even.simps, subst nshift_even.simps) (auto simp: unat_eq_zero)
qed

lemma shift_odd_nat:
  "(case shift_odd f s of (f', s') \<Rightarrow> (unat f', unat s')) = nshift_odd (unat f) (unat s)"
proof (induction f s rule: shift_odd.induct)
  case (1 f s)
  then show ?case
    by (subst shift_odd.simps, subst nshift_odd.simps) auto
qed

lemma inclusion_loop_walk:
  "map_option (\<lambda>(w, x). (unat w, x)) (inclusion_loop sha256 path f s r) =
   map_option (\<lambda>(_, s', x). (s', x))
     (walk (node_hash sha256) (\<lambda>p r. node_hash sha256 r p) path (unat f) (unat s) r)"
proof (induction path arbitrary: f s r)
  case (Cons p path)
  then show ?case
    using shift_even_nat[of f s] unat_eq_zero[of s] word_unat_eq_iff[of f s]
    by (auto split: prod.splits)
qed simp

lemma consistency_loop_walk:
  "map_option (\<lambda>(w, x). (unat w, x)) (consistency_loop sha256 path f s fr sr) =
   map_option (\<lambda>(_, s', x). (s', x))
     (walk (\<lambda>c (fr, sr). (node_hash sha256 c fr, node_hash sha256 c sr))
        (\<lambda>c (fr, sr). (fr, node_hash sha256 sr c)) path (unat f) (unat s) (fr, sr))"
proof (induction path arbitrary: f s fr sr)
  case (Cons p path)
  then show ?case
    using shift_even_nat[of f s] unat_eq_zero[of s] word_unat_eq_iff[of f s]
    by (auto split: prod.splits)
qed simp

section \<open>Inclusion\<close>

lemma merkle_tree_hash_single [simp]: "length d = 1 \<Longrightarrow> merkle_tree_hash sha256 d = d ! 0"
  by (simp add: merkle_tree_hash.simps)

lemma merkle_tree_hash_split:
  assumes "length l = 2 ^ h" "0 < length r" "length r \<le> 2 ^ h"
  shows "merkle_tree_hash sha256 (l @ r) =
    node_hash sha256 (merkle_tree_hash sha256 l) (merkle_tree_hash sha256 r)"
proof -
  have "largest_pow2_lt (length (l @ r)) = 2 ^ h"
    using assms by (intro largest_pow2_lt_eq) auto
  then show ?thesis
    using assms two_halves[of r h] by (subst merkle_tree_hash.simps) (auto simp: Let_def)
qed

text \<open>An audit path starts at a single leaf.\<close>

definition single_leaf :: "nat \<Rightarrow> nat \<Rightarrow> bool" where
  "single_leaf t n \<longleftrightarrow> n = 1"

interpretation incl: merkle_walk "merkle_tree_hash sha256" "node_hash sha256"
  "\<lambda>p r. node_hash sha256 r p" single_leaf "\<lambda>_ d r. r = merkle_tree_hash sha256 d"
  for sha256
  by unfold_locales (auto simp: merkle_tree_hash_split single_leaf_def)

lemma inclusion_path_siblings:
  "i < length ls \<Longrightarrow> inclusion_path sha256 i ls =
     Some (siblings (merkle_tree_hash sha256) single_leaf i ls)"
proof (induction sha256 i ls rule: inclusion_path.induct)
  case (1 sha256 i ls)
  show ?case
  proof (cases "length ls = 1")
    case True
    then show ?thesis
      using "1.prems" by (simp add: inclusion_path.simps siblings.simps single_leaf_def)
  next
    case False
    define k where "k = largest_pow2_lt (length ls)"
    have k: "k < length ls" using False "1.prems" by (simp add: k_def)
    have "\<not> length ls \<le> i" "length ls \<noteq> 1" "\<not> length ls \<le> 1" "\<not> single_leaf i (length ls)"
      using False "1.prems" by (auto simp: single_leaf_def)
    then show ?thesis
      using "1.IH"[OF refl _ _ k_def] k
      by (subst inclusion_path.simps, subst siblings.simps) (auto simp: Let_def k_def[symmetric])
  qed
qed

lemma base_of_leaf: "i < length ls \<Longrightarrow> base_of single_leaf i ls = (0, [ls ! i])"
proof (induction single_leaf i ls rule: base_of.induct)
  case (1 i ls)
  show ?case
  proof (cases "length ls \<le> 1")
    case True
    then obtain x where "ls = [x]" using "1.prems" by (cases ls) auto
    then show ?thesis using "1.prems" by (simp add: base_of_stop)
  next
    case False
    define k where "k = largest_pow2_lt (length ls)"
    have k: "k < length ls" using False by (simp add: k_def)
    then show ?thesis
      using "1.hyps"[OF _ k_def] "1.prems" False unfolding single_leaf_def
      by (subst base_of.simps) (auto simp: Let_def k_def[symmetric] single_leaf_def)
  qed
qed

lemma unat_of_nat_u64: "n < 2 ^ 64 \<Longrightarrow> unat (of_nat n :: u64) = n"
  by (simp add: unat_of_nat take_bit_nat_eq_self)

text \<open>Every audit path the log generates for an existing leaf is accepted.\<close>

lemma inclusion_path_walk:
  assumes "i < length ls"
  shows "walk (node_hash sha256) (\<lambda>p r. node_hash sha256 r p)
      (siblings (merkle_tree_hash sha256) single_leaf i ls) i (length ls - 1) (ls ! i)
    = Some (0, 0, merkle_tree_hash sha256 ls)"
proof -
  have pos: "0 < length ls" using assms by linarith
  obtain L where "length ls \<le> 2 ^ L" "L = 0 \<or> 2 ^ (L - 1) < length ls"
    using pos by (rule ceil_log2)
  then obtain j where "incl.climbs sha256 i ls (0 * 2 ^ L + i) (0 * 2 ^ L + length ls - 1) 0 0 j"
    using incl.climbs_ragged[where d = ls and L = L and t = i and c = 0] assms pos by (auto simp: single_leaf_def)
  moreover from this have "j = 0"
    using assms by (cases j) (auto simp: incl.climbs_def base_of_leaf)
  ultimately show ?thesis
    using assms by (simp add: incl.climbs_def base_of_leaf)
qed

section \<open>Consistency\<close>

text \<open>The subtree at which a consistency proof starts ends at the old size.\<close>

definition ends_at :: "nat \<Rightarrow> nat \<Rightarrow> bool" where
  "ends_at t n \<longleftrightarrow> Suc t = n"

lemma merkle_tree_hash_take:
  assumes "length l = 2 ^ h" "length r \<le> 2 ^ h" "t < length r"
  shows "merkle_tree_hash sha256 (take (Suc (2 ^ h + t)) (l @ r)) =
    node_hash sha256 (merkle_tree_hash sha256 l) (merkle_tree_hash sha256 (take (Suc t) r))"
  using merkle_tree_hash_split[of l h "take (Suc t) r" sha256] assms
  by (simp add: take_Suc_conv_app_nth)

interpretation cons: merkle_walk "merkle_tree_hash sha256"
  "\<lambda>c (fr, sr). (node_hash sha256 c fr, node_hash sha256 c sr)"
  "\<lambda>c (fr, sr). (fr, node_hash sha256 sr c)" ends_at
  "\<lambda>t d (fr, sr). fr = merkle_tree_hash sha256 (take (Suc t) d) \<and> sr = merkle_tree_hash sha256 d"
  for sha256
proof unfold_locales
  fix l r :: "digest list" and h t x
  assume "length l = 2 ^ h" "0 < length r" "length r \<le> 2 ^ h" "t < length r"
  moreover assume "case x of (fr, sr) \<Rightarrow> fr = merkle_tree_hash sha256 (take (Suc t) r) \<and>
      sr = merkle_tree_hash sha256 r"
  ultimately show "case case x of (fr, sr) \<Rightarrow>
        (node_hash sha256 (merkle_tree_hash sha256 l) fr, node_hash sha256 (merkle_tree_hash sha256 l) sr) of
      (fr, sr) \<Rightarrow> fr = merkle_tree_hash sha256 (take (Suc (2 ^ h + t)) (l @ r)) \<and>
        sr = merkle_tree_hash sha256 (l @ r)"
    by (auto simp: merkle_tree_hash_take merkle_tree_hash_split simp del: take_append)
qed (auto simp: merkle_tree_hash_split ends_at_def)

lemma base_of_end:
  "t < length d \<Longrightarrow> Suc (fst (base_of ends_at t d)) = length (snd (base_of ends_at t d))"
proof (induction "ends_at" t d rule: base_of.induct)
  case (1 t d)
  show ?case
  proof (cases "ends_at t (length d) \<or> length d \<le> 1")
    case True
    then show ?thesis using "1.prems" by (auto simp: base_of_stop ends_at_def)
  next
    case False
    define k where "k = largest_pow2_lt (length d)"
    have k: "k < length d" using False by (simp add: k_def)
    then show ?thesis
      using "1.hyps"[OF False k_def] "1.prems" False
      by (subst (1 2) base_of.simps) (auto simp: Let_def k_def[symmetric] single_leaf_def)
  qed
qed

text \<open>The start of the climb is found by shifting out the trailing ones of \<open>first - 1\<close>.\<close>

lemma base_of_aligned:
  "Suc t < length d \<Longrightarrow> length (snd (base_of ends_at t d)) = 2 ^ j \<Longrightarrow>
     2 ^ j < length d \<and> t mod 2 ^ Suc j = 2 ^ j - 1"
proof (induction d arbitrary: t rule: length_induct)
  case (1 d)
  have "2 \<le> length d" using "1.prems"(1) by simp
  then obtain h where "2 ^ h < length d" "length d \<le> 2 * 2 ^ h"
    by (rule largest_pow2_lt_spec)
  then obtain l r where d: "d = l @ r" and l: "length l = 2 ^ h"
    and r: "0 < length r" "length r \<le> 2 ^ h"
    by (rule tree_split)
  have "\<not> ends_at t (length (l @ r))" using "1.prems" d by (simp add: ends_at_def)
  note split = base_of_split[where base = ends_at, OF l r this]
  consider "Suc t = 2 ^ h" | "Suc t < 2 ^ h" | "2 ^ h \<le> t" by linarith
  then show ?case
  proof cases
    case 1
    then have "base_of ends_at t d = (t, l)"
      using split d l by (simp add: base_of_stop ends_at_def)
    then have "j = h" using "1.prems"(2) l by simp
    then show ?thesis using 1 d l r by (simp add: mod_less)
  next
    case 2
    then have "2 ^ j < length l \<and> t mod 2 ^ Suc j = 2 ^ j - 1"
      using "1.IH"[rule_format, of l t] "1.prems"(2) split d l r by simp
    then show ?thesis using d by (simp add: trans_less_add1)
  next
    case 3
    define u where "u = t - 2 ^ h"
    have u: "t = 2 ^ h + u" "Suc u < length r" using 3 "1.prems"(1) d l by (auto simp: u_def)
    then have "2 ^ j < length r \<and> u mod 2 ^ Suc j = 2 ^ j - 1"
      using "1.IH"[rule_format, of r u] "1.prems"(2) split d l by simp
    moreover from this r(2) have "(2::nat) ^ j < 2 ^ h" by linarith
    then have "Suc j \<le> h" by (simp add: Suc_le_eq)
    then have "(2::nat) ^ Suc j dvd 2 ^ h" by (rule le_imp_power_dvd)
    ultimately show ?thesis
      using u d l by (auto simp: mod_add_left_eq elim: dvdE)
  qed
qed

lemma subproof_siblings:
  "0 < m \<Longrightarrow> m \<le> length d \<Longrightarrow> subproof sha256 m d False =
     merkle_tree_hash sha256 (snd (base_of ends_at (m - 1) d))
       # siblings (merkle_tree_hash sha256) ends_at (m - 1) d"
proof (induction d arbitrary: m rule: length_induct)
  case (1 d)
  show ?case
  proof (cases "m = length d")
    case True
    then show ?thesis
      using "1.prems" by (subst subproof.simps) (simp add: base_of_stop siblings_stop ends_at_def)
  next
    case False
    then have "2 \<le> length d" using "1.prems" by linarith
    then obtain h where h: "2 ^ h < length d" "length d \<le> 2 * 2 ^ h"
      by (rule largest_pow2_lt_spec)
    then obtain l r where d: "d = l @ r" and l: "length l = 2 ^ h"
      and r: "0 < length r" "length r \<le> 2 ^ h"
      by (rule tree_split)
    have k: "largest_pow2_lt (length d) = 2 ^ h" using h by (rule largest_pow2_lt_eq)
    have "\<not> ends_at (m - 1) (length (l @ r))" using False "1.prems" d by (simp add: ends_at_def)
    note split = base_of_split[where base = ends_at, OF l r this]
      siblings_split[where base = ends_at, OF l r this]
    have sub: "subproof sha256 m d False =
        (if m \<le> 2 ^ h then subproof sha256 m l False @ [merkle_tree_hash sha256 r]
         else subproof sha256 (m - 2 ^ h) r False @ [merkle_tree_hash sha256 l])"
      using False \<open>2 \<le> length d\<close> d l k by (subst subproof.simps) (simp add: Let_def)
    show ?thesis
    proof (cases "m \<le> 2 ^ h")
      case True
      then show ?thesis
        using "1.IH"[rule_format, of l m] "1.prems" sub split d l r by auto
    next
      case False
      then have "m - 1 - 2 ^ h = m - 2 ^ h - 1" "\<not> m - 1 < 2 ^ h" by auto
      then show ?thesis
        using "1.IH"[rule_format, of r "m - 2 ^ h"] "1.prems" False sub split d l by auto
    qed
  qed
qed

text \<open>
  The verifier puts \<open>first_root\<close> in front of the proof exactly when the generator left
  the starting subtree out: when the old size is a power of two.
\<close>

lemma pow2_le_split:
  fixes n :: nat
  assumes "2 ^ j < n" "n \<le> 2 * 2 ^ h"
  shows "(2::nat) ^ j \<le> 2 ^ h"
proof -
  from assms have "(2::nat) ^ j < 2 ^ Suc h" by simp
  then have "j < Suc h" by (rule power_less_imp_less_exp[rotated]) simp
  then show ?thesis by (intro power_increasing) auto
qed

lemma subproof_True_False:
  "0 < m \<Longrightarrow> m < length d \<or> (\<exists>j. m = 2 ^ j) \<and> m \<le> length d \<Longrightarrow>
   subproof sha256 m d False =
     (if \<exists>j. m = 2 ^ j then [merkle_tree_hash sha256 (take m d)] else []) @ subproof sha256 m d True"
proof (induction d arbitrary: m rule: length_induct)
  case (1 d)
  show ?case
  proof (cases "m = length d")
    case True
    then show ?thesis
      using "1.prems" by (subst (1 2) subproof.simps) auto
  next
    case False
    then have "2 \<le> length d" using "1.prems" by linarith
    then obtain h where h: "2 ^ h < length d" "length d \<le> 2 * 2 ^ h"
      by (rule largest_pow2_lt_spec)
    then obtain l r where d: "d = l @ r" and l: "length l = 2 ^ h" by (rule tree_split)
    have k: "largest_pow2_lt (length d) = 2 ^ h" using h by (rule largest_pow2_lt_eq)
    have sub: "subproof sha256 m d b =
        (if m \<le> 2 ^ h then subproof sha256 m l b @ [merkle_tree_hash sha256 r]
         else subproof sha256 (m - 2 ^ h) r False @ [merkle_tree_hash sha256 l])" for b
      using False \<open>2 \<le> length d\<close> d l k by (subst subproof.simps) (simp add: Let_def)
    have lt: "m < length d" using False "1.prems" by auto
    show ?thesis
    proof (cases "m \<le> 2 ^ h")
      case True
      then show ?thesis
        using "1.IH"[rule_format, of l m] "1.prems"(1) sub h l d by (cases "m = 2 ^ h") auto
    next
      case big: False
      then have "\<not> (\<exists>j. m = 2 ^ j)"
        using pow2_le_split[of _ "length d" h] lt h by metis
      then show ?thesis using big sub by simp
    qed
  qed
qed

lemma and_pred_pow2: "0 < n \<Longrightarrow> n AND (n - 1) = 0 \<longleftrightarrow> (\<exists>j. n = 2 ^ j)" for n :: nat
proof (induction n rule: less_induct)
  case (less n)
  show ?case
  proof (cases "even n")
    case True
    then obtain m where m: "n = 2 * m" "0 < m" using less.prems by (auto elim: evenE)
    have "(2 * m - 1) div 2 = m - 1" by linarith
    then have "n AND (n - 1) = 2 * (m AND (m - 1))"
      using m by (subst and_rec) simp
    moreover have "(\<exists>j. n = 2 ^ j) \<longleftrightarrow> (\<exists>j. m = 2 ^ j)"
    proof
      assume "\<exists>j. n = 2 ^ j"
      then obtain j where "n = 2 ^ j" ..
      then show "\<exists>j. m = 2 ^ j" using m True by (cases j) auto
    next
      assume "\<exists>j. m = 2 ^ j"
      then show "\<exists>j. n = 2 ^ j" using m(1) by (metis power_Suc)
    qed
    ultimately show ?thesis using less.IH[of m] m by simp
  next
    case False
    then obtain m where m: "n = Suc (2 * m)" by (auto elim: oddE)
    have "n AND (n - 1) = 2 * m"
      using m by (subst and_rec) simp
    moreover have "(\<exists>j. n = 2 ^ j) \<longleftrightarrow> n = 1"
    proof
      assume "\<exists>j. n = 2 ^ j"
      then obtain j where "n = 2 ^ j" ..
      then show "n = 1" using False by (cases j) auto
    next
      assume "n = 1"
      then show "\<exists>j. n = 2 ^ j" by (intro exI[of _ 0]) simp
    qed
    ultimately show ?thesis using m by simp
  qed
qed

lemma word_and_pred_pow2:
  "w \<noteq> 0 \<Longrightarrow> w AND (w - 1) = 0 \<longleftrightarrow> (\<exists>j. unat w = 2 ^ j)" for w :: u64
  using and_pred_pow2[of "unat w"] unat_eq_zero[of "w AND (w - 1)"]
  by (simp add: unsigned_and_eq unat_gt_0)

lemma consistency_walk:
  assumes "0 < m" "m < length d"
  shows "walk (\<lambda>c (fr, sr). (node_hash sha256 c fr, node_hash sha256 c sr))
      (\<lambda>c (fr, sr). (fr, node_hash sha256 sr c))
      (siblings (merkle_tree_hash sha256) ends_at (m - 1) d)
      (fst (nshift_odd (m - 1) (length d - 1))) (snd (nshift_odd (m - 1) (length d - 1)))
      (merkle_tree_hash sha256 (snd (base_of ends_at (m - 1) d)),
       merkle_tree_hash sha256 (snd (base_of ends_at (m - 1) d)))
    = Some (0, 0, merkle_tree_hash sha256 (take m d), merkle_tree_hash sha256 d)"
proof -
  have pos: "0 < length d" "Suc (m - 1) < length d" "m - 1 < length d" using assms by linarith+
  obtain L where L: "length d \<le> 2 ^ L" "L = 0 \<or> 2 ^ (L - 1) < length d"
    using pos(1) by (rule ceil_log2)
  then obtain j where climb:
      "cons.climbs sha256 (m - 1) d (0 * 2 ^ L + (m - 1)) (0 * 2 ^ L + length d - 1) 0 0 j"
    using cons.climbs_ragged[where d = d and L = L and t = "m - 1" and c = 0] pos
    by (auto simp: ends_at_def)
  then have len: "length (snd (base_of ends_at (m - 1) d)) = 2 ^ j"
    by (simp add: cons.climbs_def)
  then have "nshift_odd (m - 1) (length d - 1) = ((m - 1) div 2 ^ j, (length d - 1) div 2 ^ j)"
    using base_of_aligned[OF pos(2)] by (intro nshift_odd_spec) simp
  moreover have "take (Suc (fst (base_of ends_at (m - 1) d))) (snd (base_of ends_at (m - 1) d))
      = snd (base_of ends_at (m - 1) d)"
    using base_of_end[OF pos(3)] by simp
  ultimately show ?thesis
    using climb assms by (auto simp: cons.climbs_def)
qed

section \<open>Accepted proofs and collisions\<close>

text \<open>
  The byte strings a run of each verifier passes to SHA-256. A cheating proof is turned
  into two different strings with the same digest, one from each of two runs: the bare
  existence of a collision would say nothing, since a function into 32 bytes always has
  one.
\<close>

definition goes_left :: "u64 \<Rightarrow> u64 \<Rightarrow> bool" where
  "goes_left fnode snode \<longleftrightarrow> fnode mod 2 = 1 \<or> fnode = snode"

definition next_nodes :: "u64 \<Rightarrow> u64 \<Rightarrow> u64 \<times> u64" where
  "next_nodes fnode snode =
     (if goes_left fnode snode \<and> fnode mod 2 = 0
      then map_prod shr1 shr1 (shift_even fnode snode) else (shr1 fnode, shr1 snode))"

lemma inclusion_loop_Cons:
  "inclusion_loop sha256 (p # path) f s r =
     (if s = 0 then None
      else inclusion_loop sha256 path (fst (next_nodes f s)) (snd (next_nodes f s))
             (if goes_left f s then node_hash sha256 p r else node_hash sha256 r p))"
  by (auto simp: goes_left_def next_nodes_def split: prod.splits)

lemma consistency_loop_Cons:
  "consistency_loop sha256 (c # cs) f s fr sr =
     (if s = 0 then None
      else consistency_loop sha256 cs (fst (next_nodes f s)) (snd (next_nodes f s))
             (if goes_left f s then node_hash sha256 c fr else fr)
             (if goes_left f s then node_hash sha256 c sr else node_hash sha256 sr c))"
  by (auto simp: goes_left_def next_nodes_def split: prod.splits)

declare inclusion_loop.simps(2) [simp del] consistency_loop.simps(2) [simp del]

fun inclusion_inputs ::
  "(bytes \<Rightarrow> digest) \<Rightarrow> digest list \<Rightarrow> u64 \<Rightarrow> u64 \<Rightarrow> digest \<Rightarrow> bytes list" where
  "inclusion_inputs sha256 [] fnode snode r = []"
| "inclusion_inputs sha256 (p # path) fnode snode r =
     (let input = (if goes_left fnode snode then node_input p r else node_input r p)
      in input # inclusion_inputs sha256 path (fst (next_nodes fnode snode))
           (snd (next_nodes fnode snode)) (sha256 input))"

fun consistency_loop_inputs ::
  "(bytes \<Rightarrow> digest) \<Rightarrow> digest list \<Rightarrow> u64 \<Rightarrow> u64 \<Rightarrow> digest \<Rightarrow> digest \<Rightarrow> bytes list" where
  "consistency_loop_inputs sha256 [] fnode snode fr sr = []"
| "consistency_loop_inputs sha256 (c # cs) fnode snode fr sr =
     (let input = (if goes_left fnode snode then node_input c sr else node_input sr c);
          (inputs, fr') = (if goes_left fnode snode
             then ([node_input c fr, input], node_hash sha256 c fr) else ([input], fr))
      in inputs @ consistency_loop_inputs sha256 cs (fst (next_nodes fnode snode))
           (snd (next_nodes fnode snode)) fr' (sha256 input))"

definition consistency_inputs ::
  "(bytes \<Rightarrow> digest) \<Rightarrow> u64 \<Rightarrow> u64 \<Rightarrow> digest list \<Rightarrow> digest \<Rightarrow> bytes list" where
  "consistency_inputs sha256 first second path first_root =
     (let elements = (if first AND (first - 1) = 0 then [first_root] else []) @ path;
          (fnode, snode) = shift_odd (first - 1) (second - 1)
      in case elements of
           [] \<Rightarrow> []
         | first_el # rest \<Rightarrow> consistency_loop_inputs sha256 rest fnode snode first_el first_el)"

definition collides :: "(bytes \<Rightarrow> digest) \<Rightarrow> bytes list \<Rightarrow> bytes list \<Rightarrow> bool" where
  "collides sha256 xs ys \<longleftrightarrow> (\<exists>x\<in>set xs. \<exists>y\<in>set ys. x \<noteq> y \<and> sha256 x = sha256 y)"

definition digests :: "digest list \<Rightarrow> bool" where
  "digests ds \<longleftrightarrow> (\<forall>d\<in>set ds. length d = 32)"

lemma digests_simps [simp]: "digests []" "digests (d # ds) \<longleftrightarrow> length d = 32 \<and> digests ds"
  by (auto simp: digests_def)

lemma collides_mono:
  "collides sha256 xs ys \<Longrightarrow> set xs \<subseteq> set xs' \<Longrightarrow> set ys \<subseteq> set ys' \<Longrightarrow> collides sha256 xs' ys'"
  by (fastforce simp: collides_def)

text \<open>One step of two runs: either this step already collides or the rest does.\<close>

lemma collides_step:
  assumes "x \<in> set xs" "y \<in> set ys" "set xs' \<subseteq> set xs" "set ys' \<subseteq> set ys"
    and "x \<noteq> y" "sha256 x \<noteq> sha256 y \<Longrightarrow> collides sha256 xs' ys'"
  shows "collides sha256 xs ys"
  using assms collides_mono[of sha256 xs' ys' xs ys] unfolding collides_def by blast

lemma node_input_inj:
  "length l = 32 \<Longrightarrow> length l' = 32 \<Longrightarrow> node_input l r = node_input l' r' \<longleftrightarrow> l = l' \<and> r = r'"
  by (simp add: node_input_def)

lemma inclusion_loop_binding:
  assumes "\<And>x. length (sha256 x) = 32"
    and "inclusion_loop sha256 p f s r = Some (0, root)"
    and "inclusion_loop sha256 p' f s r' = Some (0, root)"
    and "digests (r # p)" "digests (r' # p')" "r \<noteq> r'"
  shows "collides sha256 (inclusion_inputs sha256 p f s r) (inclusion_inputs sha256 p' f s r')"
  using assms(2-)
proof (induction p arbitrary: p' f s r r')
  case Nil
  then show ?case by (cases p') (auto simp: inclusion_loop_Cons)
next
  case (Cons c cs)
  from Cons.prems obtain c' cs' where p': "p' = c' # cs'"
    by (cases p') (auto simp: inclusion_loop_Cons split: if_splits)
  define x where "x = (if goes_left f s then node_input c r else node_input r c)"
  define y where "y = (if goes_left f s then node_input c' r' else node_input r' c')"
  have "s \<noteq> 0" using Cons.prems by (auto simp: inclusion_loop_Cons)
  then have runs:
    "inclusion_loop sha256 cs (fst (next_nodes f s)) (snd (next_nodes f s)) (sha256 x) = Some (0, root)"
    "inclusion_loop sha256 cs' (fst (next_nodes f s)) (snd (next_nodes f s)) (sha256 y) = Some (0, root)"
    using Cons.prems p' by (simp_all add: inclusion_loop_Cons x_def y_def node_hash_def if_distrib cong: if_cong)
  have "x \<noteq> y" using Cons.prems p' by (auto simp: x_def y_def node_input_inj)
  have inputs: "inclusion_inputs sha256 (c # cs) f s r =
      x # inclusion_inputs sha256 cs (fst (next_nodes f s)) (snd (next_nodes f s)) (sha256 x)"
    "inclusion_inputs sha256 p' f s r' =
      y # inclusion_inputs sha256 cs' (fst (next_nodes f s)) (snd (next_nodes f s)) (sha256 y)"
    by (simp_all add: p' x_def y_def Let_def)
  note IH = Cons.IH[OF runs]
  show ?case
    unfolding inputs
    by (rule collides_step[of x _ y]) (use \<open>x \<noteq> y\<close> IH Cons.prems p' assms(1) in auto)
qed

text \<open>
  In a consistency run the two running roots start equal, so equal second roots keep the
  first roots equal unless a step collides.
\<close>

lemma consistency_loop_binding:
  assumes "\<And>x. length (sha256 x) = 32"
    and "consistency_loop sha256 p f s fr sr = Some (0, r1, root)"
    and "consistency_loop sha256 p' f s fr' sr' = Some (0, r1', root)"
    and "digests (sr # p)" "digests (sr' # p')" "sr = sr' \<Longrightarrow> fr = fr'" "r1 \<noteq> r1'"
  shows "collides sha256 (consistency_loop_inputs sha256 p f s fr sr)
    (consistency_loop_inputs sha256 p' f s fr' sr')"
  using assms(2-)
proof (induction p arbitrary: p' f s fr sr fr' sr')
  case Nil
  then show ?case by (cases p') (auto simp: consistency_loop_Cons)
next
  case (Cons c cs)
  from Cons.prems obtain c' cs' where p': "p' = c' # cs'"
    by (cases p') (auto simp: consistency_loop_Cons split: if_splits)
  define x where "x = (if goes_left f s then node_input c sr else node_input sr c)"
  define y where "y = (if goes_left f s then node_input c' sr' else node_input sr' c')"
  define gr where "gr = (if goes_left f s then node_hash sha256 c fr else fr)"
  define gr' where "gr' = (if goes_left f s then node_hash sha256 c' fr' else fr')"
  have "s \<noteq> 0" using Cons.prems by (auto simp: consistency_loop_Cons)
  then have runs:
    "consistency_loop sha256 cs (fst (next_nodes f s)) (snd (next_nodes f s)) gr (sha256 x)
       = Some (0, r1, root)"
    "consistency_loop sha256 cs' (fst (next_nodes f s)) (snd (next_nodes f s)) gr' (sha256 y)
       = Some (0, r1', root)"
    using Cons.prems p'
    by (simp_all add: consistency_loop_Cons x_def y_def gr_def gr'_def node_hash_def if_distrib cong: if_cong)
  note IH = Cons.IH[OF runs]
  have inputs: "consistency_loop_inputs sha256 (c # cs) f s fr sr =
      (if goes_left f s then [node_input c fr, x] else [x])
        @ consistency_loop_inputs sha256 cs (fst (next_nodes f s)) (snd (next_nodes f s)) gr (sha256 x)"
    "consistency_loop_inputs sha256 p' f s fr' sr' =
      (if goes_left f s then [node_input c' fr', y] else [y])
        @ consistency_loop_inputs sha256 cs' (fst (next_nodes f s)) (snd (next_nodes f s)) gr' (sha256 y)"
    by (auto simp: p' x_def y_def gr_def gr'_def Let_def)
  show ?case
  proof (cases "x = y")
    case True
    then have "gr = gr'"
      using Cons.prems p' by (auto simp: x_def y_def gr_def gr'_def node_input_inj split: if_splits)
    then have "collides sha256
        (consistency_loop_inputs sha256 cs (fst (next_nodes f s)) (snd (next_nodes f s)) gr (sha256 x))
        (consistency_loop_inputs sha256 cs' (fst (next_nodes f s)) (snd (next_nodes f s)) gr' (sha256 y))"
      using IH Cons.prems p' assms(1) by simp
    then show ?thesis unfolding inputs by (rule collides_mono) auto
  next
    case False
    show ?thesis
      unfolding inputs
      by (rule collides_step[of x _ y]) (use IH Cons.prems p' assms(1) False in auto)
  qed
qed

section \<open>Properties of the verifiers\<close>

lemma verify_inclusion_iff:
  "verify_inclusion sha256 leaf i n path root \<longleftrightarrow>
     i < n \<and> inclusion_loop sha256 path i (n - 1) leaf = Some (0, root)"
  by (auto simp: verify_inclusion_def split: option.splits)

lemma map_option_unat_Some:
  "map_option (\<lambda>(w, x). (unat w, x)) m = Some (0, y) \<longleftrightarrow> m = Some (0, y)"
  by (cases m) (auto simp: unat_eq_zero)

lemma inclusion_path_accepted:
  assumes "i < length ls" "length ls < 2 ^ 64"
    and p: "inclusion_path sha256 i ls = Some p"
  shows "verify_inclusion sha256 (ls ! i) (of_nat i) (of_nat (length ls)) p
    (merkle_tree_hash sha256 ls)"
proof -
  have unats: "unat (of_nat i :: u64) = i" "unat (of_nat (length ls) :: u64) = length ls"
    using assms by (intro unat_of_nat_u64; linarith)+
  then have nz: "(of_nat (length ls) :: u64) \<noteq> 0"
    using assms(1) by (metis not_less0 unat_0)
  have "p = siblings (merkle_tree_hash sha256) single_leaf i ls"
    using inclusion_path_siblings[OF assms(1)] p by simp
  then have "map_option (\<lambda>(w, x). (unat w, x))
      (inclusion_loop sha256 p (of_nat i) (of_nat (length ls) - 1) (ls ! i)) =
      Some (0, merkle_tree_hash sha256 ls)"
    using inclusion_loop_walk inclusion_path_walk[OF assms(1)] nz unats by simp
  moreover have "(of_nat i :: u64) < of_nat (length ls)"
    using unats assms(1) by (simp add: word_less_nat_alt)
  ultimately show ?thesis by (simp only: verify_inclusion_iff map_option_unat_Some simp_thms)
qed

lemma length_merkle_tree_hash:
  assumes "\<And>x. length (sha256 x) = 32" "digests d"
  shows "length (merkle_tree_hash sha256 d) = 32"
proof (cases d)
  case Nil
  then show ?thesis using assms by (simp add: merkle_tree_hash.simps)
next
  case (Cons a list)
  then show ?thesis
    using assms by (subst merkle_tree_hash.simps) (auto simp: node_hash_def Let_def)
qed

lemma digests_take [simp]: "digests d \<Longrightarrow> digests (take k d)"
  and digests_drop [simp]: "digests d \<Longrightarrow> digests (drop k d)"
  by (auto simp: digests_def dest: in_set_takeD in_set_dropD)

lemma digests_append [simp]: "digests (a @ b) \<longleftrightarrow> digests a \<and> digests b"
  by (auto simp: digests_def)

lemma digests_siblings:
  assumes "\<And>x. length (sha256 x) = 32" "digests d"
  shows "digests (siblings (merkle_tree_hash sha256) base t d)"
  using assms(2)
proof (induction "merkle_tree_hash sha256" base t d rule: siblings.induct)
  case (1 base t d)
  then show ?case
    using length_merkle_tree_hash[OF assms(1)]
    by (subst siblings.simps) (auto simp: Let_def)
qed

lemma digests_base_of: "digests d \<Longrightarrow> digests (snd (base_of base t d))"
proof (induction base t d rule: base_of.induct)
  case (1 base t d)
  then show ?case by (subst base_of.simps) (auto simp: Let_def)
qed

text \<open>
  Completeness of inclusion proofs: for every leaf of a log of fewer than \<open>2^64\<close>
  leaves, \<open>inclusion_path\<close> produces an audit path, and \<open>verify_inclusion\<close> accepts it for
  that leaf hash, that index, that size and the root \<open>merkle_tree_hash\<close> computes, for any
  hash function.
\<close>

theorem inclusion_complete:
  assumes "i < length ls" "length ls < 2 ^ 64"
  shows "\<exists>p. inclusion_path sha256 i ls = Some p \<and>
    verify_inclusion sha256 (ls ! i) (of_nat i) (of_nat (length ls)) p (merkle_tree_hash sha256 ls)"
  using inclusion_path_accepted[OF assms] inclusion_path_siblings[OF assms(1)] by blast

text \<open>A concrete stand-in for SHA-256 to evaluate with: 32 bytes, the last one a checksum.\<close>

definition demo_sha256 :: "bytes \<Rightarrow> digest" where
  "demo_sha256 bs = replicate 31 0 @ [fold (\<lambda>b acc. 31 * acc + b + 1) bs 0]"

theorem inclusion_complete_witness:
  "(2::nat) < length [[1], [2], [3 :: u8]] \<and> length [[1], [2], [3 :: u8]] < 2 ^ 64 \<and>
   (\<exists>p. inclusion_path demo_sha256 2 [[1], [2], [3]] = Some p \<and>
      verify_inclusion demo_sha256 ([[1], [2], [3]] ! 2) (of_nat 2) (of_nat (length [[1], [2], [3 :: u8]]))
        p (merkle_tree_hash demo_sha256 [[1], [2], [3]]))"
  using inclusion_complete[of 2 "[[1], [2], [3]]" demo_sha256] by simp

lemma forged_inclusion:
  assumes sha: "\<And>x. length (sha256 x) = 32"
    and ls: "digests ls" "length ls < 2 ^ 64"
    and acc: "verify_inclusion sha256 leaf i (of_nat (length ls)) path (merkle_tree_hash sha256 ls)"
    and "digests (leaf # path)" "leaf \<noteq> ls ! unat i"
  shows "\<exists>honest. inclusion_path sha256 (unat i) ls = Some honest \<and>
    collides sha256
      (inclusion_inputs sha256 path i (of_nat (length ls) - 1) leaf)
      (inclusion_inputs sha256 honest i (of_nat (length ls) - 1) (ls ! unat i))"
proof -
  have i: "unat i < length ls"
    using acc ls(2) by (simp add: verify_inclusion_iff word_less_nat_alt unat_of_nat_u64)
  let ?honest = "siblings (merkle_tree_hash sha256) single_leaf (unat i) ls"
  have honest: "inclusion_path sha256 (unat i) ls = Some ?honest"
    using i by (rule inclusion_path_siblings)
  have "digests (ls ! unat i # ?honest)"
    using ls(1) i sha digests_siblings[of sha256 ls] by (simp add: digests_def)
  moreover have "inclusion_loop sha256 ?honest i (of_nat (length ls) - 1) (ls ! unat i)
      = Some (0, merkle_tree_hash sha256 ls)"
    using inclusion_path_accepted[OF i ls(2) honest] by (simp add: verify_inclusion_iff)
  ultimately show ?thesis
    using honest inclusion_loop_binding[OF sha] acc assms(5,6) by (auto simp: verify_inclusion_iff)
qed

text \<open>
  C7. Soundness of inclusion proofs: when \<open>verify_inclusion\<close> accepts a leaf hash against
  the root of a log but the log holds another leaf hash at that index, then the run of the
  verifier on the forged path and its run on the honest path contain two different byte
  strings with the same SHA-256 digest. Hypotheses: SHA-256 yields 32 bytes, and the
  digests in the log, the path and the leaf are 32 bytes long, as their type says.
\<close>

theorem inclusion_sound:
  assumes sha: "\<And>x. length (sha256 x) = 32"
    and ls: "digests ls" "length ls < 2 ^ 64"
    and acc: "verify_inclusion sha256 leaf i (of_nat (length ls)) path (merkle_tree_hash sha256 ls)"
    and "digests (leaf # path)" "leaf \<noteq> ls ! unat i"
  shows "\<exists>honest. inclusion_path sha256 (unat i) ls = Some honest \<and>
    collides sha256
      (inclusion_inputs sha256 path i (of_nat (length ls) - 1) leaf)
      (inclusion_inputs sha256 honest i (of_nat (length ls) - 1) (ls ! unat i))"
  using assms by (rule forged_inclusion)

text \<open>A hash that collides on every input, and two leaves of a log under it.\<close>

definition const_sha256 :: "bytes \<Rightarrow> digest" where
  "const_sha256 bs = replicate 32 0"

definition two_leaves :: "digest list" where
  "two_leaves = [replicate 32 1, replicate 32 2]"

lemma two_leaves_facts:
  "digests two_leaves" "length two_leaves = 2" "two_leaves ! 0 = replicate 32 1"
  "length (const_sha256 x) = 32" "merkle_tree_hash const_sha256 two_leaves = replicate 32 0"
  by (simp_all add: two_leaves_def const_sha256_def merkle_tree_hash.simps node_hash_def Let_def)

theorem inclusion_sound_witness:
  "\<exists>honest. inclusion_path const_sha256 (unat (0::u64)) two_leaves = Some honest \<and>
    collides const_sha256
      (inclusion_inputs const_sha256 [replicate 32 4] 0 (of_nat (length two_leaves) - 1) (replicate 32 3))
      (inclusion_inputs const_sha256 honest 0 (of_nat (length two_leaves) - 1) (two_leaves ! unat (0::u64)))"
proof (rule inclusion_sound)
  show "verify_inclusion const_sha256 (replicate 32 3) 0 (of_nat (length two_leaves))
      [replicate 32 4] (merkle_tree_hash const_sha256 two_leaves)"
    by (simp add: two_leaves_facts verify_inclusion_iff inclusion_loop_Cons next_nodes_def
        goes_left_def node_hash_def shr1_def const_sha256_def)
  show "replicate 32 3 \<noteq> two_leaves ! unat (0::u64)"
    by (simp add: two_leaves_facts replicate_eq_replicate)
qed (simp_all add: two_leaves_facts)

lemma consistency_elements:
  assumes "0 < m" "m < length d"
  shows "(if \<exists>j. m = 2 ^ j then [merkle_tree_hash sha256 (take m d)] else []) @ subproof sha256 m d True
    = merkle_tree_hash sha256 (snd (base_of ends_at (m - 1) d))
        # siblings (merkle_tree_hash sha256) ends_at (m - 1) d"
  using subproof_siblings[of m d sha256] subproof_True_False[of m d sha256] assms by simp

lemma subproof_nonempty:
  assumes "0 < m" "m < length d"
  shows "subproof sha256 m d True \<noteq> []"
proof
  assume empty: "subproof sha256 m d True = []"
  have "\<not> length d \<le> 1" "m \<noteq> length d" using assms by auto
  then show False using empty by (subst (asm) subproof.simps) (auto simp: Let_def split: if_splits)
qed

text \<open>\<open>verify_consistency\<close> on two different sizes, with its elements and start named.\<close>

lemma verify_consistency_less:
  assumes "m < n" "m \<noteq> 0"
  shows "verify_consistency sha256 m n path r1 r2 \<longleftrightarrow>
    path \<noteq> [] \<and> (\<exists>el rest. (if \<exists>j. unat m = 2 ^ j then [r1] else []) @ path = el # rest \<and>
      consistency_loop sha256 rest (fst (shift_odd (m - 1) (n - 1))) (snd (shift_odd (m - 1) (n - 1))) el el
        = Some (0, r1, r2))"
  using assms word_and_pred_pow2[of m]
  by (auto simp: verify_consistency_def Let_def split: prod.splits list.splits option.splits)

lemma consistency_proof_accepted:
  assumes "0 < m" "m \<le> length d" "length d < 2 ^ 64"
  shows "verify_consistency sha256 (of_nat m) (of_nat (length d)) (subproof sha256 m d True)
    (merkle_tree_hash sha256 (take m d)) (merkle_tree_hash sha256 d)"
proof (cases "m = length d")
  case True
  then show ?thesis by (simp add: verify_consistency_def subproof.simps)
next
  case False
  define M N :: u64 where "M = of_nat m" and "N = of_nat (length d)"
  have unats: "unat M = m" "unat N = length d"
    using assms by (auto simp: M_def N_def intro!: unat_of_nat_u64)
  then have nz: "M \<noteq> 0" "N \<noteq> 0" using assms by auto
  have lt: "M < N" "m < length d" using False assms unats by (auto simp: word_less_nat_alt)
  have "map_prod unat unat (shift_odd (M - 1) (N - 1)) = nshift_odd (m - 1) (length d - 1)"
    using shift_odd_nat[of "M - 1" "N - 1"] nz unats by (simp add: map_prod_def)
  then have "unat (fst (shift_odd (M - 1) (N - 1))) = fst (nshift_odd (m - 1) (length d - 1))"
    "unat (snd (shift_odd (M - 1) (N - 1))) = snd (nshift_odd (m - 1) (length d - 1))"
    by (metis fst_map_prod, metis snd_map_prod)
  then have "consistency_loop sha256 (siblings (merkle_tree_hash sha256) ends_at (m - 1) d)
      (fst (shift_odd (M - 1) (N - 1))) (snd (shift_odd (M - 1) (N - 1)))
      (merkle_tree_hash sha256 (snd (base_of ends_at (m - 1) d)))
      (merkle_tree_hash sha256 (snd (base_of ends_at (m - 1) d)))
    = Some (0, merkle_tree_hash sha256 (take m d), merkle_tree_hash sha256 d)"
    by (intro map_option_unat_Some[THEN iffD1])
      (simp only: consistency_loop_walk consistency_walk[OF assms(1) lt(2)] option.map prod.case)
  then show ?thesis
    using consistency_elements[OF assms(1) lt(2), of sha256]
      subproof_nonempty[OF assms(1) lt(2), of sha256]
    unfolding M_def[symmetric] N_def[symmetric]
    by (simp add: verify_consistency_less[OF lt(1) nz(1)] unats(1))
qed

text \<open>
  Completeness of consistency proofs: for any two sizes \<open>0 < m <= n\<close> of a log,
  \<open>consistency_proof\<close> produces a proof and \<open>verify_consistency\<close> accepts it for the roots
  of the first \<open>m\<close> leaves and of all \<open>n\<close> leaves, for any hash function.
\<close>

theorem consistency_complete:
  assumes "0 < m" "m \<le> length ls" "length ls < 2 ^ 64"
  shows "\<exists>p. consistency_proof sha256 m ls = Some p \<and>
    verify_consistency sha256 (of_nat m) (of_nat (length ls)) p
      (merkle_tree_hash sha256 (take m ls)) (merkle_tree_hash sha256 ls)"
  using consistency_proof_accepted[OF assms] assms by (simp add: consistency_proof_def)

theorem consistency_complete_witness:
  "(0::nat) < 3 \<and> 3 \<le> length [[1], [2], [3], [4], [5 :: u8]] \<and>
   (\<exists>p. consistency_proof demo_sha256 3 [[1], [2], [3], [4], [5]] = Some p \<and>
      verify_consistency demo_sha256 (of_nat 3) (of_nat (length [[1], [2], [3], [4], [5 :: u8]])) p
        (merkle_tree_hash demo_sha256 (take 3 [[1], [2], [3], [4], [5]]))
        (merkle_tree_hash demo_sha256 [[1], [2], [3], [4], [5]]))"
  using consistency_complete[of 3 "[[1], [2], [3], [4], [5]]" demo_sha256] by simp

lemma forged_consistency:
  assumes sha: "\<And>x. length (sha256 x) = 32"
    and ls: "digests ls" "length ls < 2 ^ 64"
    and acc: "verify_consistency sha256 m (of_nat (length ls)) path old_root (merkle_tree_hash sha256 ls)"
    and dig: "digests (old_root # path)"
    and forged: "old_root \<noteq> merkle_tree_hash sha256 (take (unat m) ls)"
  shows "\<exists>honest. consistency_proof sha256 (unat m) ls = Some honest \<and>
    collides sha256
      (consistency_inputs sha256 m (of_nat (length ls)) path old_root)
      (consistency_inputs sha256 m (of_nat (length ls)) honest
         (merkle_tree_hash sha256 (take (unat m) ls)))"
proof -
  define N :: u64 where "N = of_nat (length ls)"
  define first where "first = merkle_tree_hash sha256 (take (unat m) ls)"
  define honest where "honest = subproof sha256 (unat m) ls True"
  have N: "unat N = length ls" using ls(2) by (simp add: N_def unat_of_nat_u64)
  have "m \<noteq> N" using acc forged N by (auto simp: verify_consistency_def N_def[symmetric])
  then have m: "m \<noteq> 0" "m < N"
    using acc by (auto simp: verify_consistency_def N_def[symmetric] split: if_splits)
  then have lt: "0 < unat m" "unat m < length ls"
    using N by (auto simp: word_less_nat_alt unat_gt_0)
  define fs where "fs = shift_odd (m - 1) (N - 1)"
  define pre where "pre r = (if \<exists>j. unat m = 2 ^ j then [r] else [])" for r :: digest
  obtain e es where e: "pre old_root @ path = e # es"
      "consistency_loop sha256 es (fst fs) (snd fs) e e = Some (0, old_root, merkle_tree_hash sha256 ls)"
    using acc verify_consistency_less[OF m(2,1), of sha256] by (auto simp: N_def[symmetric] fs_def pre_def)
  have "verify_consistency sha256 m N honest first (merkle_tree_hash sha256 ls)"
    using consistency_proof_accepted[OF lt(1) less_imp_le[OF lt(2)] ls(2), of sha256]
    by (simp add: N_def honest_def first_def)
  then obtain g gs where g: "pre first @ honest = g # gs"
      "consistency_loop sha256 gs (fst fs) (snd fs) g g = Some (0, first, merkle_tree_hash sha256 ls)"
    using verify_consistency_less[OF m(2,1), of sha256] by (auto simp: fs_def pre_def)
  have "g = merkle_tree_hash sha256 (snd (base_of ends_at (unat m - 1) ls))"
      "gs = siblings (merkle_tree_hash sha256) ends_at (unat m - 1) ls"
    using g(1) consistency_elements[OF lt, of sha256] by (auto simp: pre_def first_def honest_def)
  then have "digests (g # gs)"
    using sha ls(1) digests_siblings[of sha256 ls] length_merkle_tree_hash[of sha256] digests_base_of
    by auto
  moreover have "digests (e # es)"
    using dig e(1) by (metis (no_types, lifting) digests_append digests_simps(1,2) pre_def)
  ultimately have "collides sha256 (consistency_loop_inputs sha256 es (fst fs) (snd fs) e e)
      (consistency_loop_inputs sha256 gs (fst fs) (snd fs) g g)"
    using consistency_loop_binding[OF sha e(2) g(2)] forged by (simp add: first_def)
  moreover have "consistency_inputs sha256 m N path old_root
      = consistency_loop_inputs sha256 es (fst fs) (snd fs) e e"
    "consistency_inputs sha256 m N honest first = consistency_loop_inputs sha256 gs (fst fs) (snd fs) g g"
    using e(1) g(1) word_and_pred_pow2[OF m(1)]
    by (auto simp: consistency_inputs_def fs_def pre_def Let_def split: prod.splits)
  moreover have "consistency_proof sha256 (unat m) ls = Some honest"
    using lt by (simp add: consistency_proof_def honest_def)
  ultimately show ?thesis by (auto simp: N_def first_def)
qed

text \<open>
  Soundness of consistency proofs, the append-only guarantee: when
  \<open>verify_consistency\<close> accepts an old root for size \<open>m\<close> against the root of a log, and
  that old root is not the root of the first \<open>m\<close> leaves of the log, then the verifier's
  run on the forged proof and its run on the honest proof contain two different byte
  strings with the same SHA-256 digest.
\<close>

theorem consistency_sound:
  assumes sha: "\<And>x. length (sha256 x) = 32"
    and ls: "digests ls" "length ls < 2 ^ 64"
    and acc: "verify_consistency sha256 m (of_nat (length ls)) path old_root (merkle_tree_hash sha256 ls)"
    and dig: "digests (old_root # path)"
    and forged: "old_root \<noteq> merkle_tree_hash sha256 (take (unat m) ls)"
  shows "\<exists>honest. consistency_proof sha256 (unat m) ls = Some honest \<and>
    collides sha256
      (consistency_inputs sha256 m (of_nat (length ls)) path old_root)
      (consistency_inputs sha256 m (of_nat (length ls)) honest
         (merkle_tree_hash sha256 (take (unat m) ls)))"
  using assms by (rule forged_consistency)

theorem consistency_sound_witness:
  "\<exists>honest. consistency_proof const_sha256 (unat (1::u64)) two_leaves = Some honest \<and>
    collides const_sha256
      (consistency_inputs const_sha256 1 (of_nat (length two_leaves)) [replicate 32 4] (replicate 32 3))
      (consistency_inputs const_sha256 1 (of_nat (length two_leaves)) honest
         (merkle_tree_hash const_sha256 (take (unat (1::u64)) two_leaves)))"
proof (rule consistency_sound)
  show "verify_consistency const_sha256 1 (of_nat (length two_leaves)) [replicate 32 4] (replicate 32 3)
      (merkle_tree_hash const_sha256 two_leaves)"
    by (simp add: two_leaves_facts verify_consistency_def shift_odd.simps consistency_loop_Cons
        next_nodes_def goes_left_def shr1_def node_hash_def const_sha256_def)
  show "replicate 32 3 \<noteq> merkle_tree_hash const_sha256 (take (unat (1::u64)) two_leaves)"
    by (simp add: two_leaves_def replicate_eq_replicate)
qed (simp_all add: two_leaves_facts)

lemma shift_even_le: "unat (snd (shift_even f s)) \<le> unat s"
proof (induction f s rule: shift_even.induct)
  case (1 f s)
  then show ?case by (subst shift_even.simps) (auto intro: order_trans)
qed

lemma next_nodes_le: "unat (snd (next_nodes f s)) \<le> unat s div 2"
  using shift_even_le[of f s] by (auto simp: next_nodes_def div_le_mono)

lemma inclusion_loop_length:
  "inclusion_loop sha256 path f s r = Some res \<Longrightarrow> unat s < 2 ^ k \<Longrightarrow> length path \<le> k"
proof (induction path arbitrary: f s r k)
  case (Cons p path)
  from Cons.prems have "s \<noteq> 0" by (auto simp: inclusion_loop_Cons)
  with Cons.prems(2) obtain k' where k: "k = Suc k'" by (cases k) (auto simp: unat_eq_zero)
  have "unat (snd (next_nodes f s)) < 2 ^ k'"
    using next_nodes_le[of f s] Cons.prems(2) k by auto
  then show ?case
    using Cons.IH[of "fst (next_nodes f s)" "snd (next_nodes f s)"] Cons.prems(1) k
    by (auto simp: inclusion_loop_Cons split: if_splits)
qed simp

text \<open>
  The verifier's work is bounded by the claimed size: an audit path accepted for a
  tree of at most \<open>2^k\<close> leaves has at most \<open>k\<close> elements.
\<close>

theorem inclusion_path_length:
  assumes "verify_inclusion sha256 leaf i n path root" "unat n \<le> 2 ^ k"
  shows "length path \<le> k"
proof -
  have "i < n" "inclusion_loop sha256 path i (n - 1) leaf = Some (0, root)"
    using assms(1) by (simp_all add: verify_inclusion_iff)
  moreover from this have "n \<noteq> 0" by auto
  then have "unat (n - 1) < 2 ^ k"
    using assms(2) unat_gt_0[of n] by (simp add: unat_minus_1)
  ultimately show ?thesis using inclusion_loop_length by blast
qed

theorem inclusion_path_length_witness:
  "verify_inclusion const_sha256 (replicate 32 3) 0 2 [replicate 32 4] (replicate 32 0) \<and>
   unat (2::u64) \<le> 2 ^ 1 \<and> length [replicate 32 (4::u8)] \<le> 1"
proof -
  have "verify_inclusion const_sha256 (replicate 32 3) 0 2 [replicate 32 4] (replicate 32 0)"
    by (simp add: verify_inclusion_iff inclusion_loop_Cons next_nodes_def
        goes_left_def node_hash_def shr1_def const_sha256_def)
  then show ?thesis using inclusion_path_length[of const_sha256 _ _ 2 _ _ 1] by auto
qed

end
