(* ===== verification/Acdp_Strings.thy ===== *)
theory Acdp_Strings
  imports Acdp_Prelude "HOL-Library.Char_ord" "HOL-Library.List_Lexorder"
begin

text \<open>
  Rust strings. A \<open>String\<close> is its UTF-8 encoding, a list of bytes (\<open>char\<close> in HOL is an
  8-bit character), so \<open>length\<close> is \<open>str::len\<close> and the lexicographic order of
  HOL-Library.List_Lexorder is the order of \<open>str\<close>. The character classes below are ASCII
  classes: no byte of a multi-byte UTF-8 sequence is in them, so testing every byte is
  testing every \<open>char\<close>.
\<close>

definition in_range :: "char \<Rightarrow> char \<Rightarrow> char \<Rightarrow> bool" where
  "in_range lo hi c \<longleftrightarrow> lo \<le> c \<and> c \<le> hi"

definition is_ascii_digit :: "char \<Rightarrow> bool" where
  "is_ascii_digit = in_range CHR ''0'' CHR ''9''"

definition is_ascii_lowercase :: "char \<Rightarrow> bool" where
  "is_ascii_lowercase = in_range CHR ''a'' CHR ''z''"

definition is_ascii_uppercase :: "char \<Rightarrow> bool" where
  "is_ascii_uppercase = in_range CHR ''A'' CHR ''Z''"

definition is_ascii_alphanumeric :: "char \<Rightarrow> bool" where
  "is_ascii_alphanumeric c \<longleftrightarrow> is_ascii_digit c \<or> is_ascii_lowercase c \<or> is_ascii_uppercase c"

lemmas char_class_defs = in_range_def is_ascii_digit_def is_ascii_lowercase_def
  is_ascii_uppercase_def is_ascii_alphanumeric_def

definition strip_prefix :: "'a list \<Rightarrow> 'a list \<Rightarrow> 'a list option" where
  "strip_prefix p s = (if take (length p) s = p then Some (drop (length p) s) else None)"

definition starts_with :: "'a list \<Rightarrow> 'a list \<Rightarrow> bool" where
  "starts_with p s \<longleftrightarrow> strip_prefix p s \<noteq> None"

text \<open>\<open>s.split_once(c)\<close>: the parts before and after the first \<open>c\<close>.\<close>

fun split_once :: "'a \<Rightarrow> 'a list \<Rightarrow> ('a list \<times> 'a list) option" where
  "split_once c [] = None"
| "split_once c (x # xs) =
     (if x = c then Some ([], xs)
      else case split_once c xs of None \<Rightarrow> None | Some (a, b) \<Rightarrow> Some (x # a, b))"

text \<open>\<open>s.split(c)\<close>: the maximal parts without \<open>c\<close>; the empty string has one empty part.\<close>

fun split_on :: "'a \<Rightarrow> 'a list \<Rightarrow> 'a list list" where
  "split_on c [] = [[]]"
| "split_on c (x # xs) =
     (if x = c then [] # split_on c xs
      else case split_on c xs of [] \<Rightarrow> [[x]] | p # ps \<Rightarrow> (x # p) # ps)"

lemma strip_prefix_Some: "strip_prefix p s = Some r \<longleftrightarrow> s = p @ r"
  by (auto simp: strip_prefix_def) (metis append_take_drop_id)

lemma strip_prefix_append [simp]: "strip_prefix p (p @ r) = Some r"
  by (simp add: strip_prefix_Some)

lemma starts_with_iff: "starts_with p s \<longleftrightarrow> (\<exists>r. s = p @ r)"
  by (simp add: starts_with_def strip_prefix_Some)

lemma split_once_append [simp]: "c \<notin> set a \<Longrightarrow> split_once c (a @ c # b) = Some (a, b)"
  by (induction a) auto

lemma split_once_SomeD: "split_once c s = Some (a, b) \<Longrightarrow> s = a @ c # b \<and> c \<notin> set a"
  by (induction s arbitrary: a) (auto split: option.splits if_splits)

lemma split_once_Some:
  "split_once c s = Some (a, b) \<longleftrightarrow> s = a @ c # b \<and> c \<notin> set a"
  using split_once_SomeD[of c s a b] by auto

lemma split_once_None: "split_once c s = None \<longleftrightarrow> c \<notin> set s"
  by (induction s) (auto split: option.splits)

lemma split_on_nonempty [simp]: "split_on c s \<noteq> []"
  by (induction s) (auto split: list.splits)

lemma hd_split_on: "hd (split_on c s) = takeWhile (\<lambda>x. x \<noteq> c) s"
proof (induction s)
  case (Cons x xs)
  then show ?case by (cases "split_on c xs") auto
qed simp

lemma set_split_on: "p \<in> set (split_on c s) \<Longrightarrow> set p \<subseteq> set s - {c}"
proof (induction s arbitrary: p)
  case (Cons x xs)
  then show ?case by (cases "split_on c xs") (fastforce split: if_splits)+
qed simp

lemma set_split_on_cover: "set s \<subseteq> {c} \<union> (\<Union>p\<in>set (split_on c s). set p)"
proof (induction s)
  case (Cons x xs)
  then show ?case by (cases "split_on c xs") auto
qed simp

lemma char_class_not_slash [simp]:
  "\<not> is_ascii_digit CHR ''/''" "\<not> is_ascii_lowercase CHR ''/''" "\<not> is_ascii_uppercase CHR ''/''"
  "\<not> is_ascii_digit CHR '':''" "\<not> is_ascii_lowercase CHR '':''" "\<not> is_ascii_uppercase CHR '':''"
  "\<not> is_ascii_digit CHR ''-''" "\<not> is_ascii_lowercase CHR ''-''"
  by (simp_all add: char_class_defs less_eq_char_def)

section \<open>UTF-8\<close>

text \<open>\<open>String::from_utf8\<close>: which byte sequences are well-formed UTF-8 (no overlong forms, no surrogates).\<close>

definition byte_in :: "nat \<Rightarrow> nat \<Rightarrow> char \<Rightarrow> bool" where
  "byte_in lo hi c \<longleftrightarrow> lo \<le> of_char c \<and> of_char c \<le> hi"

fun utf8_valid :: "string \<Rightarrow> bool" where
  "utf8_valid [] = True"
| "utf8_valid (a # s) =
     (if byte_in 0 0x7F a then utf8_valid s
      else case s of
        b # s1 \<Rightarrow>
          (if byte_in 0xC2 0xDF a \<and> byte_in 0x80 0xBF b then utf8_valid s1
           else case s1 of
             c # s2 \<Rightarrow>
               (if byte_in 0x80 0xBF c \<and>
                   (byte_in 0xE0 0xE0 a \<and> byte_in 0xA0 0xBF b \<or>
                    byte_in 0xE1 0xEC a \<and> byte_in 0x80 0xBF b \<or>
                    byte_in 0xED 0xED a \<and> byte_in 0x80 0x9F b \<or>
                    byte_in 0xEE 0xEF a \<and> byte_in 0x80 0xBF b) then utf8_valid s2
                else case s2 of
                  d # s3 \<Rightarrow>
                    byte_in 0x80 0xBF c \<and> byte_in 0x80 0xBF d \<and>
                    (byte_in 0xF0 0xF0 a \<and> byte_in 0x90 0xBF b \<or>
                     byte_in 0xF1 0xF3 a \<and> byte_in 0x80 0xBF b \<or>
                     byte_in 0xF4 0xF4 a \<and> byte_in 0x80 0x8F b) \<and> utf8_valid s3
                | [] \<Rightarrow> False)
           | [] \<Rightarrow> False)
      | [] \<Rightarrow> False)"

declare utf8_valid.simps(2) [simp del]

lemma utf8_valid_ascii_append:
  "list_all (byte_in 0 0x7F) s \<Longrightarrow> utf8_valid (s @ t) \<longleftrightarrow> utf8_valid t"
  by (induction s) (simp_all add: utf8_valid.simps(2))

text \<open>\<open>hay.contains(needle)\<close>.\<close>

fun contains :: "string \<Rightarrow> string \<Rightarrow> bool" where
  "contains needle [] = starts_with needle []"
| "contains needle (c # s) = (starts_with needle (c # s) \<or> contains needle s)"

end
