(* ===== verification/Acdp_Errors.thy ===== *)
theory Acdp_Errors
  imports Acdp_Strings
begin

text \<open>
  The error vocabulary (\<open>crates/acdp-primitives/src/error.rs\<close>, \<open>wire_error.rs\<close> and the
  verdict types of \<open>revocation.rs\<close> that errors carry).

  An error keeps its variant and its machine-readable payload (identifiers, reasons,
  delays, the wire envelope of an unknown code). The human-readable \<open>String\<close> detail that
  most variants carry is left out: the models below never compute with it.
\<close>

section \<open>Verdict types carried by errors\<close>

datatype unknown_reason = Truncated | Unanswerable | Transient | UnverifiableCandidate

fun unknown_reason_as_str :: "unknown_reason \<Rightarrow> string" where
  "unknown_reason_as_str Truncated = ''truncated''"
| "unknown_reason_as_str Unanswerable = ''unanswerable''"
| "unknown_reason_as_str Transient = ''transient''"
| "unknown_reason_as_str UnverifiableCandidate = ''unverifiable_candidate''"

datatype revocation_trust_class = ProducerSigned | RegistryAttested

datatype revocation_source = Known | Discovered string | Cached string

text \<open>Instants are nanoseconds since the Unix epoch (\<open>chrono::DateTime<Utc>\<close>).\<close>

type_synonym instant = int

record sourced_revocation =
  sr_revoked_key_fingerprint :: string
  sr_compromised_since :: instant
  sr_ctx_id :: "string option"
  sr_issuer :: string
  sr_revoked_key_controller :: string
  sr_trust_class :: revocation_trust_class
  sr_source :: revocation_source

definition speaks_for :: "sourced_revocation \<Rightarrow> string \<Rightarrow> bool" where
  "speaks_for r producer =
     (case sr_trust_class r of
        ProducerSigned \<Rightarrow> sr_issuer r = producer
      | RegistryAttested \<Rightarrow> sr_revoked_key_controller r = producer)"

datatype revocation_effect = PreCompromise | Revoked | Unplaceable

record revocation_refusal =
  rr_effect :: revocation_effect
  rr_signing_key_fingerprint :: string
  rr_boundary :: instant
  rr_revocation :: sourced_revocation
  rr_placement :: "instant option"

section \<open>The wire envelope\<close>

text \<open>
  \<open>details\<close> is a JSON object or absent; every reader takes a member of it by name and
  uses it only when it is a string, so the model keeps the object's string members.
\<close>

record wire_error =
  we_code :: string
  we_message :: string
  we_details :: "(string \<rightharpoonup> string) option"

definition wire_detail :: "wire_error \<Rightarrow> string \<Rightarrow> string option" where
  "wire_detail w k = Option.bind (we_details w) (\<lambda>d. d k)"

section \<open>Errors\<close>

datatype supersession_reason =
    SR_NotFound | LineageMismatch | VersionMismatch | AlreadySuperseded
  | CrossRegistrySupersessionUnsupported | LineageWalkFailed | RevocationTypeMismatch | SR_Other

text \<open>The serde \<open>snake_case\<close> names; \<open>#[serde(other)]\<close> catches every other string.\<close>

fun supersession_reason_name :: "supersession_reason \<Rightarrow> string" where
  "supersession_reason_name SR_NotFound = ''not_found''"
| "supersession_reason_name LineageMismatch = ''lineage_mismatch''"
| "supersession_reason_name VersionMismatch = ''version_mismatch''"
| "supersession_reason_name AlreadySuperseded = ''already_superseded''"
| "supersession_reason_name CrossRegistrySupersessionUnsupported =
     ''cross_registry_supersession_unsupported''"
| "supersession_reason_name LineageWalkFailed = ''lineage_walk_failed''"
| "supersession_reason_name RevocationTypeMismatch = ''revocation_type_mismatch''"
| "supersession_reason_name SR_Other = ''other''"

definition supersession_reason_of :: "string \<Rightarrow> supersession_reason" where
  "supersession_reason_of s =
     (if s = ''not_found'' then SR_NotFound
      else if s = ''lineage_mismatch'' then LineageMismatch
      else if s = ''version_mismatch'' then VersionMismatch
      else if s = ''already_superseded'' then AlreadySuperseded
      else if s = ''cross_registry_supersession_unsupported'' then CrossRegistrySupersessionUnsupported
      else if s = ''lineage_walk_failed'' then LineageWalkFailed
      else if s = ''revocation_type_mismatch'' then RevocationTypeMismatch
      else SR_Other)"

datatype acdp_error =
    Canonicalization
  | HashMismatch string string
  | ContextIdMismatch string string
  | DeadlineExceeded
  | IncompleteLineage string "string option"
  | SearchTruncated
  | RevocationDiscoveryBudgetExceeded
  | RevocationCandidateUnverifiable
  | RevocationUnknown unknown_reason acdp_error
  | KeyRevoked revocation_refusal
  | RemoteHashMismatch
  | DataRefHashMismatch
  | InvalidSignature
  | KeyResolution
  | KeyResolutionUnreachable
  | KeyNotAuthorized
  | InvalidBody
  | MissingField string
  | SchemaViolation
  | PayloadTooLarge
  | EmbeddedTooLarge
  | UnsupportedAlgorithm
  | UnsupportedMediaType
  | NotImplemented
  | NotFound
  | NotAuthorized
  | RateLimited "nat option"
  | CursorExpired
  | InvalidCursor
  | SupersededTarget supersession_reason
  | DuplicatePublish
  | CrossRegistryResolutionFailed
  | InvalidReceipt
  | InvalidLogProof
  | InvalidWitnessCosignature
  | ImmutableField
  | InvalidLifecycleTransition
  | RegistryInternal
  | Registry wire_error
  | Serialization
  | Http

type_synonym 'a acdp_result = "(acdp_error, 'a) result"

fun retry_after :: "acdp_error \<Rightarrow> nat option" where
  "retry_after (RateLimited d) = d"
| "retry_after _ = None"

fun is_transient :: "acdp_error \<Rightarrow> bool" where
  "is_transient (RevocationUnknown reason _) = (reason = Transient)"
| "is_transient KeyResolutionUnreachable = True"
| "is_transient (RateLimited _) = True"
| "is_transient CrossRegistryResolutionFailed = True"
| "is_transient RegistryInternal = True"
| "is_transient Http = True"
| "is_transient DeadlineExceeded = True"
| "is_transient _ = False"

definition error_unknown_reason :: "acdp_error \<Rightarrow> unknown_reason" where
  "error_unknown_reason e =
     (case e of
        RevocationUnknown reason _ \<Rightarrow> reason
      | SearchTruncated \<Rightarrow> Truncated
      | RevocationDiscoveryBudgetExceeded \<Rightarrow> Truncated
      | IncompleteLineage _ _ \<Rightarrow> Truncated
      | RevocationCandidateUnverifiable \<Rightarrow> UnverifiableCandidate
      | _ \<Rightarrow> (if is_transient e then Transient else Unanswerable))"

fun is_key_not_authorized :: "acdp_error \<Rightarrow> bool" where
  "is_key_not_authorized KeyNotAuthorized = True"
| "is_key_not_authorized (KeyRevoked _) = True"
| "is_key_not_authorized _ = False"

fun error_revocation_refusal :: "acdp_error \<Rightarrow> revocation_refusal option" where
  "error_revocation_refusal (KeyRevoked r) = Some r"
| "error_revocation_refusal _ = None"

text \<open>
  The payload-free arms of \<open>from_wire_error\<close>, in the order of the match; the
  \<open>rate_limited\<close> arm always sets \<open>retry_after\<close> to \<open>None\<close>. Its keyless tagging changes
  the detail text only.
\<close>

definition wire_codes :: "(string \<times> acdp_error) list" where
  "wire_codes =
     [(''invalid_signature'', InvalidSignature),
      (''hash_mismatch'', RemoteHashMismatch),
      (''data_ref_hash_mismatch'', DataRefHashMismatch),
      (''schema_violation'', SchemaViolation),
      (''not_authorized'', NotAuthorized),
      (''not_found'', NotFound),
      (''rate_limited'', RateLimited None),
      (''payload_too_large'', PayloadTooLarge),
      (''embedded_too_large'', EmbeddedTooLarge),
      (''key_resolution_failed'', KeyResolution),
      (''key_resolution_unreachable'', KeyResolutionUnreachable),
      (''key_not_authorized'', KeyNotAuthorized),
      (''unsupported_algorithm'', UnsupportedAlgorithm),
      (''unsupported_media_type'', UnsupportedMediaType),
      (''not_implemented'', NotImplemented),
      (''cursor_expired'', CursorExpired),
      (''invalid_cursor'', InvalidCursor),
      (''duplicate_publish'', DuplicatePublish),
      (''cross_registry_resolution_failed'', CrossRegistryResolutionFailed),
      (''invalid_receipt'', InvalidReceipt),
      (''invalid_log_proof'', InvalidLogProof),
      (''invalid_witness_cosignature'', InvalidWitnessCosignature),
      (''immutable_field'', ImmutableField),
      (''invalid_lifecycle_transition'', InvalidLifecycleTransition),
      (''internal_error'', RegistryInternal)]"

definition from_wire_error :: "wire_error \<Rightarrow> acdp_error" where
  "from_wire_error wire =
     (case map_of wire_codes (we_code wire) of
        Some e \<Rightarrow> e
      | None \<Rightarrow>
          (if we_code wire = ''superseded_target'' then
             SupersededTarget
               (case wire_detail wire ''reason'' of
                  Some r \<Rightarrow> supersession_reason_of r
                | None \<Rightarrow> SR_Other)
           else Registry wire))"

section \<open>Classification\<close>

text \<open>
  Retry classification and discovery outcome agree: an error is transient exactly when
  its unknown reason is \<open>Transient\<close>.
\<close>

theorem transient_iff_unknown_reason:
  "is_transient e \<longleftrightarrow> error_unknown_reason e = Transient"
  by (cases e) (simp_all add: error_unknown_reason_def)

text \<open>
  Decoding of wire errors loses no supersession reason and keeps unknown codes: for
  every reason the registry can send under \<open>superseded_target\<close> the consumer sees that
  reason, and a code outside the vocabulary is handed on as the whole envelope.
\<close>

theorem from_wire_error_faithful:
  "from_wire_error \<lparr>we_code = ''superseded_target'', we_message = msg,
      we_details = Some [''reason'' \<mapsto> supersession_reason_name r]\<rparr> = SupersededTarget r
   \<and> (we_code w \<notin> set (map fst wire_codes) \<and> we_code w \<noteq> ''superseded_target''
        \<longleftrightarrow> from_wire_error w = Registry w)"
proof
  have none: "map_of wire_codes ''superseded_target'' = None"
    by (simp add: wire_codes_def)
  show "from_wire_error \<lparr>we_code = ''superseded_target'', we_message = msg,
      we_details = Some [''reason'' \<mapsto> supersession_reason_name r]\<rparr> = SupersededTarget r"
    by (cases r) (simp_all add: from_wire_error_def none wire_detail_def supersession_reason_of_def)
  have "map_of wire_codes c = Some e \<Longrightarrow> e \<noteq> Registry w" for c e
    by (drule map_of_SomeD) (auto simp: wire_codes_def)
  moreover have "map_of wire_codes (we_code w) = None \<longleftrightarrow> we_code w \<notin> set (map fst wire_codes)"
    by (simp add: map_of_eq_None_iff)
  ultimately show "we_code w \<notin> set (map fst wire_codes) \<and> we_code w \<noteq> ''superseded_target''
        \<longleftrightarrow> from_wire_error w = Registry w"
    by (auto simp: from_wire_error_def split: option.splits)
qed

end
