(* ===== verification/Acdp_Jcs.thy ===== *)
theory Acdp_Jcs
  imports Acdp_Errors "HOL-Library.Log_Nat" "HOL-Library.Multiset"
begin

text \<open>
  JSON canonicalization, RFC 8785 (\<open>crates/acdp-jcs/src/lib.rs\<close>).

  \<open>serde_json::Value\<close> is the datatype \<open>json\<close>: an object is the list of its members, in any
  order, with distinct keys (\<open>wf_json\<close>); a number is one of serde's three forms, with an
  \<open>f64\<close> as its bit pattern. Output is UTF-8 text, so the model writes a \<open>string\<close>.

  The parameter \<open>sci\<close> stands for Rust's \<open>format!("{:e}", x)\<close> of a positive finite
  \<open>f64\<close>, split at its \<open>e\<close>: the mantissa text and the decimal exponent.
\<close>

type_synonym u128 = "128 word"

datatype json_number = PosInt u64 | NegInt int | Float u64

datatype json =
    JNull
  | JBool bool
  | JNumber json_number
  | JString string
  | JArray "json list"
  | JObject "(string \<times> json) list"

definition MAX_JCS_DEPTH :: nat where
  "MAX_JCS_DEPTH = 256"

section \<open>Strings\<close>

definition hex_digit :: "nat \<Rightarrow> char" where
  "hex_digit n = ''0123456789abcdef'' ! n"

text \<open>One iteration of the loop of \<open>write_string\<close>; \<open>0x5C\<close> is the backslash.\<close>

definition escape_char :: "char \<Rightarrow> string" where
  "escape_char c =
     (if c = CHR 0x22 then [CHR 0x5C, CHR 0x22]
      else if c = CHR 0x5C then [CHR 0x5C, CHR 0x5C]
      else if c = CHR 0x0A then [CHR 0x5C, CHR ''n'']
      else if c = CHR 0x0D then [CHR 0x5C, CHR ''r'']
      else if c = CHR 0x09 then [CHR 0x5C, CHR ''t'']
      else if (of_char c :: nat) < 0x20 then
        [CHR 0x5C, CHR ''u'', CHR ''0'', CHR ''0'',
         hex_digit (of_char c div 16), hex_digit (of_char c mod 16)]
      else [c])"

definition write_string :: "string \<Rightarrow> string" where
  "write_string s = [CHR 0x22] @ concat (map escape_char s) @ [CHR 0x22]"

section \<open>Numbers\<close>

fun show_nat :: "nat \<Rightarrow> string" where
  "show_nat n = (if n < 10 then [''0123456789'' ! n] else show_nat (n div 10) @ [''0123456789'' ! (n mod 10)])"

declare show_nat.simps [simp del]

definition show_int :: "int \<Rightarrow> string" where
  "show_int i = (if i < 0 then CHR ''-'' # show_nat (nat (- i)) else show_nat (nat i))"

definition digit_value :: "char \<Rightarrow> nat" where
  "digit_value c = of_char c - of_char CHR ''0''"

text \<open>\<open>digits.parse::<u128>()\<close> on a string of at most 17 digits; \<open>None\<close> on any other character.\<close>

definition parse_digits :: "string \<Rightarrow> nat option" where
  "parse_digits s =
     (if s \<noteq> [] \<and> (\<forall>c\<in>set s. is_ascii_digit c)
      then Some (foldl (\<lambda>acc c. 10 * acc + digit_value c) 0 s) else None)"

text \<open>\<open>u128\<close> arithmetic: leading zeros, a guarded left shift and checked multiplication.\<close>

definition leading_zeros :: "u128 \<Rightarrow> nat" where
  "leading_zeros v = 128 - floorlog 2 (unat v)"

definition checked_mul :: "u128 \<Rightarrow> u128 \<Rightarrow> u128 option" where
  "checked_mul a b = (if unat a * unat b < 2 ^ 128 then Some (a * b) else None)"

fun mul_pow5 :: "nat \<Rightarrow> u128 \<Rightarrow> u128 option" where
  "mul_pow5 0 acc = Some acc"
| "mul_pow5 (Suc n) acc = (case checked_mul acc 5 of None \<Rightarrow> None | Some acc' \<Rightarrow> mul_pow5 n acc')"

definition checked_scale :: "u128 \<Rightarrow> nat \<Rightarrow> nat \<Rightarrow> u128 option" where
  "checked_scale v p2 p5 =
     (if 128 \<le> p2 \<or> leading_zeros v < p2 then None else mul_pow5 p5 (push_bit p2 v))"

unbundle bit_operations_syntax

text \<open>The significand and binary exponent of an \<open>f64\<close> bit pattern: \<open>abs = m * 2^q\<close>.\<close>

definition f64_parts :: "u64 \<Rightarrow> nat \<times> int" where
  "f64_parts bits =
     (let frac = bits AND (push_bit 52 1 - 1);
          biased = (drop_bit 52 bits) AND 0x7ff
      in if biased = 0 then (unat frac, - 1074)
         else (unat (frac OR push_bit 52 1), int (unat biased) - 1075))"

definition is_exact_decimal_midpoint :: "u64 \<Rightarrow> u128 \<Rightarrow> int \<Rightarrow> bool" where
  "is_exact_decimal_midpoint bits t e =
     (let (m, q) = f64_parts bits in
      if m = 0 then False
      else
        let two = q + 1 - e;
            lhs = checked_scale (of_nat m) (nat (max two 0)) (nat (max (- e) 0));
            rhs = checked_scale t (nat (max (- two) 0)) (nat (max e 0))
        in case (lhs, rhs) of (Some a, Some b) \<Rightarrow> a = b | _ \<Rightarrow> False)"

definition round_half_even_correction :: "u64 \<Rightarrow> string \<Rightarrow> int \<Rightarrow> string option" where
  "round_half_even_correction bits digits e10 =
     (if 17 < length digits then None
      else case parse_digits digits of
        None \<Rightarrow> None
      | Some s \<Rightarrow>
          (if even s then None
           else
             let e_last = e10 - (int (length digits) - 1)
             in if is_exact_decimal_midpoint bits (of_nat (2 * s - 1)) e_last
                then Some (show_nat (s - 1))
                else if is_exact_decimal_midpoint bits (of_nat (2 * s + 1)) e_last
                then Some (show_nat (s + 1))
                else None))"

definition trim_end_zeros :: "string \<Rightarrow> string" where
  "trim_end_zeros s = rev (dropWhile (\<lambda>c. c = CHR ''0'') (rev s))"

definition exp_sign :: "int \<Rightarrow> char" where
  "exp_sign e = (if 0 \<le> e then CHR ''+'' else CHR ''-'')"

definition f64_abs :: "u64 \<Rightarrow> u64" where
  "f64_abs bits = bits AND (push_bit 63 1 - 1)"

definition f64_is_sign_negative :: "u64 \<Rightarrow> bool" where
  "f64_is_sign_negative bits = bit bits 63"

text \<open>The five output bands of ECMAScript \<open>Number::toString\<close>, for digits \<open>ds\<close> and \<open>n\<close>.\<close>

definition ecma_band :: "string \<Rightarrow> int \<Rightarrow> string" where
  "ecma_band ds n =
     (let k = int (length ds) in
      if k \<le> n \<and> n \<le> 21 then ds @ replicate (nat (n - k)) CHR ''0''
      else if 1 \<le> n \<and> n \<le> 21 then take (nat n) ds @ ''.'' @ drop (nat n) ds
      else if - 5 \<le> n \<and> n \<le> 0 then ''0.'' @ replicate (nat (- n)) CHR ''0'' @ ds
      else if k = 1 then ds @ ''e'' @ [exp_sign (n - 1)] @ show_nat (nat (abs (n - 1)))
      else take 1 ds @ ''.'' @ drop 1 ds @ ''e'' @ [exp_sign (n - 1)] @ show_nat (nat (abs (n - 1))))"

definition ecma_number_string :: "(u64 \<Rightarrow> string \<times> int) \<Rightarrow> u64 \<Rightarrow> string" where
  "ecma_number_string sci bits =
     (let (mantissa, e10) = sci (f64_abs bits);
          digits = trim_end_zeros (filter (\<lambda>c. c \<noteq> CHR ''.'') mantissa);
          digits = (if digits = [] then ''0'' else digits);
          digits = (case round_half_even_correction (f64_abs bits) digits e10 of
                      Some d \<Rightarrow> d | None \<Rightarrow> digits);
          body = ecma_band digits (e10 + 1)
      in if f64_is_sign_negative bits then CHR ''-'' # body else body)"

definition f64_is_zero :: "u64 \<Rightarrow> bool" where
  "f64_is_zero bits \<longleftrightarrow> f64_abs bits = 0"

definition f64_is_finite :: "u64 \<Rightarrow> bool" where
  "f64_is_finite bits \<longleftrightarrow> (drop_bit 52 bits) AND 0x7ff \<noteq> 0x7ff"

fun write_number :: "(u64 \<Rightarrow> string \<times> int) \<Rightarrow> json_number \<Rightarrow> string" where
  "write_number sci (PosInt n) = show_nat (unat n)"
| "write_number sci (NegInt i) = show_int i"
| "write_number sci (Float f) =
     (if f64_is_zero f then ''0''
      else if \<not> f64_is_finite f then ''null''
      else ecma_number_string sci f)"

section \<open>Values\<close>

lemma size_sort_key [simp]: "size_list f (sort_key k xs) = size_list f xs"
  by (simp add: size_list_conv_sum_list mset_map flip: sum_mset_sum_list)

function (sequential) write_value :: "(u64 \<Rightarrow> string \<times> int) \<Rightarrow> json \<Rightarrow> nat \<Rightarrow> string acdp_result"
  and write_elems :: "(u64 \<Rightarrow> string \<times> int) \<Rightarrow> json list \<Rightarrow> nat \<Rightarrow> string acdp_result"
  and write_members :: "(u64 \<Rightarrow> string \<times> int) \<Rightarrow> (string \<times> json) list \<Rightarrow> nat \<Rightarrow> string acdp_result"
where
  "write_value sci v depth =
     (if MAX_JCS_DEPTH < depth then Inl Canonicalization
      else case v of
        JNull \<Rightarrow> Inr ''null''
      | JBool True \<Rightarrow> Inr ''true''
      | JBool False \<Rightarrow> Inr ''false''
      | JNumber n \<Rightarrow> Inr (write_number sci n)
      | JString s \<Rightarrow> Inr (write_string s)
      | JArray arr \<Rightarrow> rbind (write_elems sci arr (depth + 1)) (\<lambda>out. Inr (''['' @ out @ '']''))
      | JObject mp \<Rightarrow>
          rbind (write_members sci (sort_key fst mp) (depth + 1)) (\<lambda>out. Inr (''{'' @ out @ ''}'')))"
| "write_elems sci [] depth = Inr []"
| "write_elems sci [v] depth = write_value sci v depth"
| "write_elems sci (v # vs) depth =
     rbind (write_value sci v depth) (\<lambda>out. rbind (write_elems sci vs depth) (\<lambda>rest.
       Inr (out @ '','' @ rest)))"
| "write_members sci [] depth = Inr []"
| "write_members sci [(k, v)] depth =
     rbind (write_value sci v depth) (\<lambda>out. Inr (write_string k @ '':'' @ out))"
| "write_members sci ((k, v) # ms) depth =
     rbind (write_value sci v depth) (\<lambda>out. rbind (write_members sci ms depth) (\<lambda>rest.
       Inr (write_string k @ '':'' @ out @ '','' @ rest)))"
  by pat_completeness auto
termination
  by (relation "measure (\<lambda>x. case x of
        Inl (_, v, _) \<Rightarrow> 2 * size v
      | Inr (Inl (_, vs, _)) \<Rightarrow> 2 * size_list size vs + 1
      | Inr (Inr (_, ms, _)) \<Rightarrow> 2 * size_list (size_prod (\<lambda>_. 0) size) ms + 1)") auto

declare write_value.simps [simp del]

definition try_canonicalize_value :: "(u64 \<Rightarrow> string \<times> int) \<Rightarrow> json \<Rightarrow> string acdp_result" where
  "try_canonicalize_value sci v = write_value sci v 0"

end
