(* ===== verification/Acdp_Jcs_Correct.thy ===== *)
theory Acdp_Jcs_Correct
  imports Acdp_Jcs
begin

text \<open>
  Correctness of the canonicalizer. \<open>canon\<close> is the abstract value a JSON text denotes
  (numbers by their rendering, objects as key-sorted members) and \<open>render\<close> its text; the
  writer is \<open>render\<close> after \<open>canon\<close> up to the depth limit, and \<open>render\<close> is injective.
\<close>

section \<open>Canonical values and their text\<close>

datatype cjson =
    CNull
  | CBool bool
  | CNumber string
  | CString string
  | CArray "cjson list"
  | CObject "(string \<times> cjson) list"

fun canon :: "(u64 \<Rightarrow> string \<times> int) \<Rightarrow> json \<Rightarrow> cjson" where
  "canon sci JNull = CNull"
| "canon sci (JBool b) = CBool b"
| "canon sci (JNumber n) = CNumber (write_number sci n)"
| "canon sci (JString s) = CString s"
| "canon sci (JArray vs) = CArray (map (canon sci) vs)"
| "canon sci (JObject ms) = CObject (map (\<lambda>(k, v). (k, canon sci v)) (sort_key fst ms))"

text \<open>Nesting depth: the number of arrays and objects around the deepest value.\<close>

fun depth :: "json \<Rightarrow> nat" where
  "depth (JArray vs) = fold max (map (\<lambda>v. Suc (depth v)) vs) 0"
| "depth (JObject ms) = fold max (map (\<lambda>(k, v). Suc (depth v)) ms) 0"
| "depth _ = 0"

fun join :: "string list \<Rightarrow> string" where
  "join [] = []"
| "join [s] = s"
| "join (s # ss) = s @ '','' @ join ss"

fun render :: "cjson \<Rightarrow> string" where
  "render CNull = ''null''"
| "render (CBool b) = (if b then ''true'' else ''false'')"
| "render (CNumber s) = s"
| "render (CString s) = write_string s"
| "render (CArray vs) = ''['' @ join (map render vs) @ '']''"
| "render (CObject ms) = ''{'' @ join (map (\<lambda>(k, v). write_string k @ '':'' @ render v) ms) @ ''}''"

lemma fold_max_le: "fold max xs a \<le> b \<longleftrightarrow> a \<le> b \<and> (\<forall>x\<in>set xs. x \<le> b)" for b :: nat
  by (induction xs arbitrary: a) auto

lemma add_fold_max_le:
  "d + fold max xs 0 \<le> M \<longleftrightarrow> d \<le> M \<and> (\<forall>x\<in>set xs. d + x \<le> M)" for d M :: nat
  using fold_max_le[of xs 0 "M - d"] by (cases "d \<le> M") (auto simp: le_diff_conv2 add.commute)

lemma write_elems_render:
  assumes "\<And>v. v \<in> set vs \<Longrightarrow> write_value sci v d =
      (if d + depth v \<le> MAX_JCS_DEPTH then Inr (render (canon sci v)) else Inl Canonicalization)"
  shows "write_elems sci vs d =
    (if \<forall>v\<in>set vs. d + depth v \<le> MAX_JCS_DEPTH then Inr (join (map (\<lambda>v. render (canon sci v)) vs))
     else Inl Canonicalization)"
  using assms
proof (induction vs)
  case (Cons v vs)
  then show ?case by (cases vs) auto
qed simp

lemma write_members_render:
  assumes "\<And>k v. (k, v) \<in> set ms \<Longrightarrow> write_value sci v d =
      (if d + depth v \<le> MAX_JCS_DEPTH then Inr (render (canon sci v)) else Inl Canonicalization)"
  shows "write_members sci ms d =
    (if \<forall>(k, v)\<in>set ms. d + depth v \<le> MAX_JCS_DEPTH
     then Inr (join (map (\<lambda>(k, v). write_string k @ '':'' @ render (canon sci v)) ms))
     else Inl Canonicalization)"
  using assms
proof (induction ms)
  case (Cons m ms)
  obtain k v where m: "m = (k, v)" by (cases m)
  have v: "write_value sci v d =
      (if d + depth v \<le> MAX_JCS_DEPTH then Inr (render (canon sci v)) else Inl Canonicalization)"
    using Cons.prems[of k v] m by simp
  have ms: "write_members sci ms d =
      (if \<forall>(k, v)\<in>set ms. d + depth v \<le> MAX_JCS_DEPTH
       then Inr (join (map (\<lambda>(k, v). write_string k @ '':'' @ render (canon sci v)) ms))
       else Inl Canonicalization)"
    using Cons.IH Cons.prems by (meson list.set_intros(2))
  show ?case using v ms m by (cases ms) auto
qed simp

lemma write_value_render:
  "write_value sci v d =
     (if d + depth v \<le> MAX_JCS_DEPTH then Inr (render (canon sci v)) else Inl Canonicalization)"
proof (induction v arbitrary: d)
  case (JArray vs)
  then show ?case
    using write_elems_render[of vs sci "d + 1"]
    by (subst write_value.simps) (auto simp: add_fold_max_le comp_def)
next
  case (JObject ms)
  have IH: "write_value sci v (d + 1) =
      (if d + 1 + depth v \<le> MAX_JCS_DEPTH then Inr (render (canon sci v)) else Inl Canonicalization)"
    if "(k, v) \<in> set (sort_key fst ms)" for k v
    using JObject that by (metis set_sort snds.intros snd_conv)
  have "write_members sci (sort_key fst ms) (d + 1) =
      (if \<forall>(k, v)\<in>set ms. d + 1 + depth v \<le> MAX_JCS_DEPTH
       then Inr (join (map (\<lambda>(k, v). write_string k @ '':'' @ render (canon sci v)) (sort_key fst ms)))
       else Inl Canonicalization)"
    using write_members_render[where ms = "sort_key fst ms", OF IH] by simp
  moreover have "d + depth (JObject ms) \<le> MAX_JCS_DEPTH \<longleftrightarrow>
      d \<le> MAX_JCS_DEPTH \<and> (\<forall>(k, v)\<in>set ms. d + 1 + depth v \<le> MAX_JCS_DEPTH)"
    by (auto simp: add_fold_max_le)
  ultimately show ?case
    by (subst write_value.simps) (simp add: comp_def case_prod_unfold)
qed (subst write_value.simps, simp split: bool.split)+

section \<open>The text determines the value\<close>

text \<open>Escaping is a prefix code: what follows an escaped character can be read off.\<close>

lemma hex_digit_inj: "m < 16 \<Longrightarrow> n < 16 \<Longrightarrow> hex_digit m = hex_digit n \<longleftrightarrow> m = n"
proof -
  assume "m < 16" "n < 16"
  moreover have "distinct ''0123456789abcdef''" by simp
  ultimately show ?thesis
    unfolding hex_digit_def by (intro nth_eq_iff_index_eq) auto
qed

lemma escape_char_inj:
  assumes "escape_char c @ x = escape_char d @ y"
  shows "c = d \<and> x = y"
proof -
  have ctrl: "c = d" if "(of_char c :: nat) < 32" "(of_char d :: nat) < 32"
    "hex_digit (of_char c div 16) = hex_digit (of_char d div 16)"
    "hex_digit (of_char c mod 16) = hex_digit (of_char d mod 16)"
  proof -
    have "(of_char c :: nat) div 16 = of_char d div 16" "(of_char c :: nat) mod 16 = of_char d mod 16"
      using that by (simp_all add: hex_digit_inj)
    then have "(of_char c :: nat) = of_char d" by (metis div_mult_mod_eq)
    then show ?thesis by simp
  qed
  show ?thesis
    using assms ctrl unfolding escape_char_def by (auto split: if_splits)
qed

lemma escape_char_head: "\<exists>h t. escape_char c = h # t \<and> h \<noteq> CHR 0x22"
  by (auto simp: escape_char_def)

lemma escaped_head:
  "concat (map escape_char (c # s)) @ x = CHR 0x22 # y \<Longrightarrow> False"
proof -
  assume eq: "concat (map escape_char (c # s)) @ x = CHR 0x22 # y"
  obtain h t where "escape_char c = h # t" "h \<noteq> CHR 0x22" using escape_char_head by blast
  with eq show False by simp
qed

lemma escaped_inj:
  "concat (map escape_char s) @ CHR 0x22 # x = concat (map escape_char t) @ CHR 0x22 # y
     \<Longrightarrow> s = t \<and> x = y"
proof (induction s arbitrary: t)
  case Nil
  then show ?case
    using escaped_head[OF sym] by (cases t) (simp, metis append_Nil concat.simps(1) list.simps(8))
next
  case (Cons c s)
  show ?case
  proof (cases t)
    case Nil
    then show ?thesis using Cons.prems escaped_head[of c s "CHR 0x22 # x" y] by simp
  next
    case t: (Cons d t')
    then have eq: "escape_char c @ (concat (map escape_char s) @ CHR 0x22 # x) =
        escape_char d @ (concat (map escape_char t') @ CHR 0x22 # y)"
      using Cons.prems by simp
    from escape_char_inj[OF eq] Cons.IH t show ?thesis by blast
  qed
qed

lemma write_string_inj: "write_string s @ x = write_string t @ y \<Longrightarrow> s = t \<and> x = y"
  using escaped_inj[of s x t y] by (simp add: write_string_def)

text \<open>Number tokens and what may follow a value inside a text.\<close>

definition num_token :: "string \<Rightarrow> bool" where
  "num_token s \<longleftrightarrow> s \<noteq> [] \<and> (hd s = CHR ''-'' \<or> is_ascii_digit (hd s)) \<and>
     (\<forall>c\<in>set s. is_ascii_digit c \<or> c \<in> set ''-+.e'')"

definition delim :: "string \<Rightarrow> bool" where
  "delim r \<longleftrightarrow> r = [] \<or> hd r \<in> set '',]}''"

lemma num_token_delim:
  assumes "num_token s" "num_token t" "delim x" "delim y" "s @ x = t @ y"
  shows "s = t \<and> x = y"
proof -
  let ?num = "\<lambda>c. is_ascii_digit c \<or> c \<in> set ''-+.e''"
  have stop: "takeWhile ?num (s @ x) = s" if "num_token s" "delim x" for s x
  proof -
    have "takeWhile ?num x = []"
      using that(2) by (cases x) (auto simp: delim_def char_class_defs less_eq_char_def)
    then show ?thesis using that(1) by (auto simp: num_token_def)
  qed
  have "s = t" using stop[of s x] stop[of t y] assms by simp
  with assms show ?thesis by simp
qed

text \<open>Comma-separated sequences of self-delimiting items, up to a closing bracket.\<close>

lemma join_inj:
  assumes items: "\<And>a b x y. a \<in> set as \<Longrightarrow> b \<in> set bs \<Longrightarrow> delim x \<Longrightarrow> delim y \<Longrightarrow>
      enc a @ x = enc b @ y \<Longrightarrow> a = b \<and> x = y"
    and heads: "\<And>a. a \<in> set as \<union> set bs \<Longrightarrow> enc a \<noteq> [] \<and> hd (enc a) \<notin> set '',]}''"
    and eq: "join (map enc as) @ cl # x = join (map enc bs) @ cl # y" and cl: "cl = CHR '']'' \<or> cl = CHR ''}''"
  shows "as = bs \<and> x = y"
  using items heads eq
proof (induction as arbitrary: bs)
  case Nil
  have "bs = []"
  proof (rule ccontr)
    assume "bs \<noteq> []"
    then obtain b bs' where bs: "bs = b # bs'" by (cases bs) auto
    then have "enc b \<noteq> []" "hd (enc b) \<notin> set '',]}''" using Nil.prems(2) by auto
    moreover have "hd (join (map enc bs) @ cl # y) = hd (enc b)"
      using \<open>enc b \<noteq> []\<close> bs by (cases bs') auto
    ultimately show False using Nil.prems(3) cl by (metis append_Nil join.simps(1) list.map(1) list.sel(1)
        list.set_intros(1,2))
  qed
  then show ?case using Nil by simp
next
  case (Cons a as)
  have a: "enc a \<noteq> []" "hd (enc a) \<notin> set '',]}''" using Cons.prems(2) by auto
  obtain b bs' where bs: "bs = b # bs'"
  proof (cases bs)
    case Nil
    moreover have "hd (join (map enc (a # as)) @ cl # x) = hd (enc a)" using a(1) by (cases as) auto
    ultimately show ?thesis using Cons.prems(3) a(2) cl by auto
  qed
  define u where "u = (if as = [] then cl # x else CHR '','' # join (map enc as) @ cl # x)"
  define w where "w = (if bs' = [] then cl # y else CHR '','' # join (map enc bs') @ cl # y)"
  have "enc a @ u = enc b @ w"
    using Cons.prems(3) bs by (cases as; cases bs') (auto simp: u_def w_def)
  moreover have "delim u" "delim w" using cl by (auto simp: u_def w_def delim_def)
  ultimately have ab: "a = b" "u = w" using Cons.prems(1)[of a b u w] bs by auto
  show ?case
  proof (cases "as = []")
    case True
    then show ?thesis using ab bs cl by (cases "bs' = []") (auto simp: u_def w_def)
  next
    case False
    then have "bs' \<noteq> []" "join (map enc as) @ cl # x = join (map enc bs') @ cl # y"
      using ab cl by (auto simp: u_def w_def split: if_splits)
    then have "as = bs' \<and> x = y"
      using Cons.IH[of bs'] Cons.prems(1,2) bs by (metis UnCI UnE list.set_intros(2))
    then show ?thesis using ab bs by simp
  qed
qed

fun wf_cjson :: "cjson \<Rightarrow> bool" where
  "wf_cjson (CNumber s) = num_token s"
| "wf_cjson (CArray vs) = (\<forall>v\<in>set vs. wf_cjson v)"
| "wf_cjson (CObject ms) = (\<forall>(k, v)\<in>set ms. wf_cjson v)"
| "wf_cjson _ = True"

lemma write_string_head: "write_string s = CHR 0x22 # concat (map escape_char s) @ [CHR 0x22]"
  by (simp add: write_string_def)

lemma num_token_head:
  "num_token s \<Longrightarrow> \<exists>h t. s = h # t \<and> h \<notin> set ''nft[{,]}'' \<and> h \<noteq> CHR 0x22"
  by (cases s) (auto simp: num_token_def char_class_defs less_eq_char_def)

text \<open>The first character tells the six kinds of value apart.\<close>

definition lead :: "cjson \<Rightarrow> char" where
  "lead v = (case v of CNull \<Rightarrow> CHR ''n'' | CBool b \<Rightarrow> (if b then CHR ''t'' else CHR ''f'')
     | CNumber s \<Rightarrow> hd s | CString _ \<Rightarrow> CHR 0x22 | CArray _ \<Rightarrow> CHR ''['' | CObject _ \<Rightarrow> CHR ''{'')"

lemma render_head: "wf_cjson v \<Longrightarrow> \<exists>t. render v = lead v # t"
  by (cases v) (auto simp: lead_def write_string_head num_token_def neq_Nil_conv)

lemma render_not_delim: "wf_cjson v \<Longrightarrow> render v \<noteq> [] \<and> hd (render v) \<notin> set '',]}''"
  by (cases v) (auto simp: write_string_head dest: num_token_head)

lemma render_lead: "wf_cjson v \<Longrightarrow> wf_cjson w \<Longrightarrow> render v @ x = render w @ y \<Longrightarrow> lead v = lead w"
  using render_head[of v] render_head[of w] by auto

lemma lead_number: "wf_cjson (CNumber s) \<Longrightarrow> hd s \<notin> set ''nft[{'' \<and> hd s \<noteq> CHR 0x22"
  by (auto dest!: num_token_head)

lemma render_inj:
  "wf_cjson v \<Longrightarrow> wf_cjson w \<Longrightarrow> delim x \<Longrightarrow> delim y \<Longrightarrow> render v @ x = render w @ y \<Longrightarrow>
     v = w \<and> x = y"
proof (induction v arbitrary: w x y)
  case (CNumber s)
  note lead = render_lead[OF CNumber.prems(1,2,5)]
  show ?case
  proof (cases w)
    case (CNumber t)
    then show ?thesis using CNumber.prems num_token_delim[of s t x y] by simp
  qed (use lead lead_number[OF CNumber.prems(1)] in \<open>auto simp: lead_def split: if_splits\<close>)
next
  case (CString s)
  note lead = render_lead[OF CString.prems(1,2,5)]
  show ?case
  proof (cases w)
    case (CString t)
    then show ?thesis using CString.prems write_string_inj[of s x t y] by simp
  next
    case (CNumber t)
    then show ?thesis using lead lead_number[of t] CString.prems by (auto simp: lead_def)
  qed (use lead in \<open>auto simp: lead_def split: if_splits\<close>)
next
  case (CArray vs)
  note lead = render_lead[OF CArray.prems(1,2,5)]
  show ?case
  proof (cases w)
    case (CArray ws)
    have "vs = ws \<and> x = y"
    proof (rule join_inj[of vs ws render "CHR '']''"])
      show "join (map render vs) @ CHR '']'' # x = join (map render ws) @ CHR '']'' # y"
        using CArray.prems(5) CArray by simp
      show "a = b \<and> x' = y'" if "a \<in> set vs" "b \<in> set ws" "delim x'" "delim y'"
        "render a @ x' = render b @ y'" for a b x' y'
        using CArray.IH[OF that(1) _ _ that(3,4,5)] CArray.prems CArray that by auto
      show "render a \<noteq> [] \<and> hd (render a) \<notin> set '',]}''" if "a \<in> set vs \<union> set ws" for a
        using render_not_delim CArray.prems CArray that by auto
    qed simp
    then show ?thesis using CArray by simp
  next
    case (CNumber t)
    then show ?thesis using lead lead_number[of t] CArray.prems by (auto simp: lead_def)
  qed (use lead in \<open>auto simp: lead_def split: if_splits\<close>)
next
  case (CObject ms)
  note lead = render_lead[OF CObject.prems(1,2,5)]
  let ?enc = "\<lambda>(k, v). write_string k @ '':'' @ render v"
  show ?case
  proof (cases w)
    case (CObject ns)
    have "ms = ns \<and> x = y"
    proof (rule join_inj[of ms ns ?enc "CHR ''}''"])
      show "join (map ?enc ms) @ CHR ''}'' # x = join (map ?enc ns) @ CHR ''}'' # y"
        using CObject.prems(5) CObject by simp
      show "a = b \<and> x' = y'" if "a \<in> set ms" "b \<in> set ns" "delim x'" "delim y'"
        "?enc a @ x' = ?enc b @ y'" for a b x' y'
      proof -
        obtain k v l u where ab: "a = (k, v)" "b = (l, u)" by (cases a; cases b) auto
        then have "k = l" "render v @ x' = render u @ y'"
          using that(5) write_string_inj[of k "CHR '':'' # render v @ x'" l "CHR '':'' # render u @ y'"]
          by auto
        moreover have "wf_cjson v" "wf_cjson u" using CObject.prems CObject that(1,2) ab by auto
        ultimately show ?thesis
          using CObject.IH[of a v u x' y'] that ab by auto
      qed
      show "?enc a \<noteq> [] \<and> hd (?enc a) \<notin> set '',]}''" if "a \<in> set ms \<union> set ns" for a
        by (cases a) (simp add: write_string_head)
    qed simp
    then show ?thesis using CObject by simp
  next
    case (CNumber t)
    then show ?thesis using lead lead_number[of t] CObject.prems by (auto simp: lead_def)
  qed (use lead in \<open>auto simp: lead_def split: if_splits\<close>)
next
  case CNull
  note lead = render_lead[OF CNull.prems(1,2,5)]
  show ?case
  proof (cases w)
    case (CNumber t)
    then show ?thesis using lead lead_number[of t] CNull.prems by (auto simp: lead_def)
  qed (use lead CNull.prems in \<open>auto simp: lead_def split: if_splits\<close>)
next
  case (CBool b)
  note lead = render_lead[OF CBool.prems(1,2,5)]
  show ?case
  proof (cases w)
    case (CNumber t)
    then show ?thesis using lead lead_number[of t] CBool.prems by (auto simp: lead_def split: if_splits)
  qed (use lead CBool.prems in \<open>auto simp: lead_def split: if_splits\<close>)
qed

section \<open>Number tokens\<close>

definition all_digits :: "string \<Rightarrow> bool" where
  "all_digits s \<longleftrightarrow> s \<noteq> [] \<and> (\<forall>c\<in>set s. is_ascii_digit c)"

lemma digit_chars: "n < 10 \<Longrightarrow> is_ascii_digit (''0123456789'' ! n)"
proof -
  assume "n < 10"
  then have "n \<in> {0, 1, 2, 3, 4, 5, 6, 7, 8, 9}" by auto
  then show ?thesis by (auto simp: char_class_defs less_eq_char_def)
qed

lemma all_digits_show_nat [simp]: "all_digits (show_nat n)"
proof (induction n rule: show_nat.induct)
  case (1 n)
  then show ?case by (subst show_nat.simps) (auto simp: all_digits_def digit_chars)
qed

lemma num_token_digits: "all_digits s \<Longrightarrow> num_token s"
  by (auto simp: all_digits_def num_token_def)

lemma num_token_minus: "num_token s \<Longrightarrow> num_token (CHR ''-'' # s)"
  by (auto simp: num_token_def)

lemma num_token_append:
  "all_digits s \<Longrightarrow> \<forall>c\<in>set t. is_ascii_digit c \<or> c \<in> set ''-+.e'' \<Longrightarrow> num_token (s @ t)"
  by (cases s) (auto simp: all_digits_def num_token_def)

lemma is_ascii_digit_0 [simp]: "is_ascii_digit CHR ''0''"
  by (simp add: char_class_defs)

lemma num_token_band:
  assumes ds: "all_digits ds"
  shows "num_token (ecma_band ds n)"
proof -
  define E where "E = [exp_sign (n - 1)] @ show_nat (nat \<bar>n - 1\<bar>)"
  have E: "\<forall>c\<in>set E. is_ascii_digit c \<or> c \<in> set ''-+.e''"
    using all_digits_show_nat by (auto simp: E_def exp_sign_def all_digits_def)
  have tail: "\<forall>c\<in>set (drop m ds). is_ascii_digit c" for m
    using ds by (auto simp: all_digits_def dest: in_set_dropD)
  have head: "all_digits (take m ds)" if "0 < m" for m
    using ds that by (cases ds; cases m) (auto simp: all_digits_def dest: in_set_takeD)
  have "num_token (ds @ replicate (nat (n - int (length ds))) CHR ''0'')"
    by (rule num_token_append[OF ds]) auto
  moreover have "num_token (take (nat n) ds @ ''.'' @ drop (nat n) ds)" if "1 \<le> n"
    using that tail by (intro num_token_append head) auto
  moreover have "num_token (''0'' @ ''.'' @ replicate (nat (- n)) CHR ''0'' @ ds)"
    using ds by (intro num_token_append) (auto simp: all_digits_def)
  moreover have "num_token (ds @ ''e'' @ E)"
    using E by (intro num_token_append[OF ds]) auto
  moreover have "num_token (take 1 ds @ ''.'' @ drop 1 ds @ ''e'' @ E)"
    using E tail[of 1] by (intro num_token_append head) auto
  ultimately show ?thesis
    unfolding ecma_band_def Let_def E_def[symmetric] by simp
qed

text \<open>What the canonicalizer relies on of \<open>{:e}\<close>: the mantissa text has digits and a point only.\<close>

definition sci_ok :: "(u64 \<Rightarrow> string \<times> int) \<Rightarrow> bool" where
  "sci_ok sci \<longleftrightarrow> (\<forall>b. \<forall>c\<in>set (fst (sci b)). is_ascii_digit c \<or> c = CHR ''.'')"

lemma num_token_ecma: "sci_ok sci \<Longrightarrow> num_token (ecma_number_string sci f)"
proof -
  assume sci: "sci_ok sci"
  obtain man e where sf: "sci (f64_abs f) = (man, e)" by (cases "sci (f64_abs f)")
  define d where "d = trim_end_zeros (filter (\<lambda>c. c \<noteq> CHR ''.'') man)"
  define d' where "d' = (if d = [] then ''0'' else d)"
  have man: "\<forall>c\<in>set man. is_ascii_digit c \<or> c = CHR ''.''"
    using sci sf unfolding sci_ok_def by (metis fst_conv)
  have "c \<in> set d \<Longrightarrow> is_ascii_digit c" for c
    using man unfolding d_def trim_end_zeros_def by (auto dest!: set_dropWhileD)
  then have "all_digits d'" by (auto simp: all_digits_def d'_def)
  then have "all_digits (case round_half_even_correction (f64_abs f) d' e of Some x \<Rightarrow> x | None \<Rightarrow> d')"
    by (auto simp: round_half_even_correction_def Let_def split: option.splits if_splits)
  then have "num_token (ecma_band (case round_half_even_correction (f64_abs f) d' e of Some x \<Rightarrow> x | None \<Rightarrow> d') (e + 1))"
    by (rule num_token_band)
  then show ?thesis
    using num_token_minus unfolding ecma_number_string_def sf Let_def prod.case d_def d'_def by presburger
qed

fun wf_number :: "json_number \<Rightarrow> bool" where
  "wf_number (Float f) = f64_is_finite f"
| "wf_number (NegInt i) = (- (2 ^ 63) \<le> i \<and> i < 0)"
| "wf_number (PosInt n) = True"

lemma num_token_number: "sci_ok sci \<Longrightarrow> wf_number n \<Longrightarrow> num_token (write_number sci n)"
proof -
  assume sci: "sci_ok sci" and n: "wf_number n"
  have zero: "num_token ''0''" by (simp add: num_token_def)
  note nat = num_token_digits[OF all_digits_show_nat]
  show ?thesis
    using n by (cases n) (simp_all add: show_int_def nat num_token_minus num_token_ecma sci zero)
qed

section \<open>Equal texts and equal values\<close>

text \<open>What \<open>serde_json::Value\<close> guarantees: finite floats and one member per key.\<close>

fun wf_json :: "json \<Rightarrow> bool" where
  "wf_json (JNumber n) = wf_number n"
| "wf_json (JArray vs) = (\<forall>v\<in>set vs. wf_json v)"
| "wf_json (JObject ms) = (distinct (map fst ms) \<and> (\<forall>(k, v)\<in>set ms. wf_json v))"
| "wf_json _ = True"

text \<open>
  An auxiliary relation: values whose texts agree part by part, numbers by their printed numeral,
  arrays element by element, objects as finite maps. \<open>Acdp_Jcs_Numbers\<close> shows that it is equality
  of documents, with numbers compared as numbers.
\<close>

inductive written_alike :: "(u64 \<Rightarrow> string \<times> int) \<Rightarrow> json \<Rightarrow> json \<Rightarrow> bool" for sci where
  "written_alike sci JNull JNull"
| "written_alike sci (JBool b) (JBool b)"
| "write_number sci m = write_number sci n \<Longrightarrow> written_alike sci (JNumber m) (JNumber n)"
| "written_alike sci (JString s) (JString s)"
| "list_all2 (written_alike sci) vs ws \<Longrightarrow> written_alike sci (JArray vs) (JArray ws)"
| "\<forall>k. rel_option (written_alike sci) (map_of ms k) (map_of ns k) \<Longrightarrow>
     written_alike sci (JObject ms) (JObject ns)"

inductive_simps written_alike_simps [simp]:
  "written_alike sci JNull w"
  "written_alike sci (JBool b) w"
  "written_alike sci (JNumber n) w"
  "written_alike sci (JString s) w"
  "written_alike sci (JArray vs) w"
  "written_alike sci (JObject ms) w"

lemma distinct_fst_sort [simp]: "distinct (map fst (sort_key f ms)) \<longleftrightarrow> distinct (map fst ms)"
  by (metis mset_map mset_sort mset_eq_imp_distinct_iff)

lemma map_of_sort_key: "distinct (map fst ms) \<Longrightarrow> map_of (sort_key fst ms) = map_of ms"
  by (rule map_of_inject_set[THEN iffD2]) simp_all

lemma sorted_assoc_unique:
  assumes "sorted (map fst xs)" "distinct (map fst xs)" "sorted (map fst ys)" "distinct (map fst ys)"
    and "map_of xs = map_of ys"
  shows "xs = ys"
proof -
  have set: "set xs = set ys" using assms map_of_inject_set by blast
  show ?thesis
  proof (rule map_sorted_distinct_set_unique[of fst])
    show "inj_on fst (set xs \<union> set ys)" using assms set by (simp add: distinct_map)
  qed (use assms set in auto)
qed

lemma map_of_map_values: "map_of (map (\<lambda>(k, v). (k, f v)) ms) k = map_option f (map_of ms k)"
  by (induction ms) auto

lemma canon_object_eq:
  assumes "distinct (map fst ms)" "distinct (map fst ns)"
  shows "canon sci (JObject ms) = canon sci (JObject ns) \<longleftrightarrow>
    (\<forall>k. map_option (canon sci) (map_of ms k) = map_option (canon sci) (map_of ns k))"
proof -
  let ?h = "map (\<lambda>(k, v). (k, canon sci v))"
  have keys: "map fst (?h xs) = map fst xs" for xs :: "(string \<times> json) list" by (induction xs) auto
  have "?h (sort_key fst ms) = ?h (sort_key fst ns) \<longleftrightarrow>
      map_of (?h (sort_key fst ms)) = map_of (?h (sort_key fst ns))"
    using assms by (auto intro!: sorted_assoc_unique simp: keys simp del: map_map)
  then show ?thesis
    using assms by (simp add: fun_eq_iff map_of_map_values map_of_sort_key)
qed

lemma canon_eq_iff: "wf_json v \<Longrightarrow> wf_json w \<Longrightarrow> canon sci v = canon sci w \<longleftrightarrow> written_alike sci v w"
proof (induction v arbitrary: w)
  case (JArray vs)
  have IH: "canon sci v = canon sci w \<longleftrightarrow> written_alike sci v w" if "v \<in> set vs" "wf_json w" for v w
    using JArray that by auto
  show ?case
  proof (cases w)
    case (JArray ws)
    have "map (canon sci) vs = map (canon sci) ws \<longleftrightarrow> list_all2 (\<lambda>v w. canon sci v = canon sci w) vs ws"
      by (simp add: list_all2_eq list.rel_map)
    also have "\<dots> \<longleftrightarrow> list_all2 (written_alike sci) vs ws"
      using IH JArray.prems JArray by (intro list.rel_cong) auto
    finally show ?thesis using JArray by simp
  qed simp_all
next
  case (JObject ms)
  show ?case
  proof (cases w)
    case (JObject ns)
    have "map_option (canon sci) (map_of ms k) = map_option (canon sci) (map_of ns k) \<longleftrightarrow>
        rel_option (written_alike sci) (map_of ms k) (map_of ns k)" for k
    proof (cases "map_of ms k"; cases "map_of ns k")
      fix v u assume mv: "map_of ms k = Some v" "map_of ns k = Some u"
      then have "(k, v) \<in> set ms" "wf_json v" "wf_json u"
        using JObject.prems JObject by (auto dest!: map_of_SomeD)
      then have "canon sci v = canon sci u \<longleftrightarrow> written_alike sci v u"
        using JObject.IH[of "(k, v)" v u] by (simp add: snds.simps)
      then show ?thesis using mv by simp
    qed simp_all
    then show ?thesis
      using JObject JObject.prems by (simp only: canon_object_eq wf_json.simps) simp
  qed simp_all
qed (case_tac w; auto)+

lemma wf_canon: "sci_ok sci \<Longrightarrow> wf_json v \<Longrightarrow> wf_cjson (canon sci v)"
  by (induction v) (fastforce simp: num_token_number)+

section \<open>The tie test on 128-bit words\<close>

lemma unat_u128: "unat v < 2 ^ 128" for v :: u128
  using unsigned_less[of v] by simp

lemma mul_pow5_exact:
  "acc \<noteq> 0 \<Longrightarrow> mul_pow5 n acc =
     (if unat acc * 5 ^ n < 2 ^ 128 then Some (of_nat (unat acc * 5 ^ n)) else None)"
proof (induction n arbitrary: acc)
  case (Suc n)
  show ?case
  proof (cases "unat acc * 5 < 2 ^ 128")
    case True
    then have u: "unat (acc * 5) = unat acc * 5" by (simp add: unat_word_ariths)
    have "acc * 5 \<noteq> 0" using Suc.prems u by (metis unat_0 unat_eq_zero mult_eq_0_iff zero_neq_numeral)
    then show ?thesis
      using Suc.IH[of "acc * 5"] True u by (simp add: checked_mul_def mult.assoc)
  next
    case False
    have "unat acc * 5 * 1 \<le> unat acc * 5 * 5 ^ n" by (intro mult_le_mono2) simp
    also have "\<dots> = unat acc * 5 ^ Suc n" by simp
    finally have "\<not> unat acc * 5 ^ Suc n < 2 ^ 128" using False by linarith
    then show ?thesis using False by (simp add: checked_mul_def)
  qed
qed (use unat_u128 in auto)

lemma leading_zeros_shift:
  "v \<noteq> 0 \<Longrightarrow> p2 \<le> leading_zeros v \<longleftrightarrow> unat v * 2 ^ p2 < 2 ^ 128" for v :: u128
proof -
  assume v: "v \<noteq> 0"
  have lt: "unat v < 2 ^ 128" by (rule unat_u128)
  have le: "floorlog 2 (unat v) \<le> 128" using lt by (simp add: floorlog_leI)
  have "unat v * 2 ^ p2 < 2 ^ 128 \<longleftrightarrow> floorlog 2 (unat v * 2 ^ p2) \<le> 128"
    by (simp add: floorlog_le_iff)
  also have "floorlog 2 (unat v * 2 ^ p2) = floorlog 2 (unat v) + p2"
    by (rule floorlog_power) (use v in \<open>simp_all add: unat_gt_0\<close>)
  finally show ?thesis using le by (simp add: leading_zeros_def) linarith
qed

lemma checked_scale_exact:
  assumes "v \<noteq> 0"
  shows "checked_scale v p2 p5 =
    (if unat v * 2 ^ p2 * 5 ^ p5 < 2 ^ 128 then Some (of_nat (unat v * 2 ^ p2 * 5 ^ p5)) else None)"
proof (cases "unat v * 2 ^ p2 < 2 ^ 128")
  case True
  have "unat v \<ge> 1" using assms by (simp add: unat_gt_0 Suc_leI)
  then have "1 * 2 ^ p2 \<le> unat v * 2 ^ p2" by (intro mult_le_mono1) simp
  then have "(2::nat) ^ p2 < 2 ^ 128" using True by linarith
  then have p2: "p2 < 128" using power_less_imp_less_exp[of "2::nat" p2 128] by simp
  have u: "unat (push_bit p2 v) = unat v * 2 ^ p2"
    using True by (subst unsigned_push_bit_eq) (simp add: take_bit_eq_mod push_bit_eq_mult)
  then have nz: "push_bit p2 v \<noteq> 0" using \<open>unat v \<ge> 1\<close> by (metis mult_eq_0_iff not_one_le_zero power_not_zero unat_0 zero_neq_numeral)
  show ?thesis
    using True p2 leading_zeros_shift[OF assms, of p2] mul_pow5_exact[OF nz, of p5]
    by (simp add: checked_scale_def u)
next
  case False
  have "unat v * 2 ^ p2 * 1 \<le> unat v * 2 ^ p2 * 5 ^ p5" by (intro mult_le_mono2) simp
  then have "\<not> unat v * 2 ^ p2 * 5 ^ p5 < 2 ^ 128" using False by linarith
  then show ?thesis
    using False leading_zeros_shift[OF assms, of p2] by (simp add: checked_scale_def)
qed

text \<open>The value of an \<open>f64\<close> magnitude, as a real.\<close>

definition f64_value :: "u64 \<Rightarrow> real" where
  "f64_value bits = (let (m, q) = f64_parts bits in real m * 2 powi q)"

lemma f64_parts_bound: "fst (f64_parts bits) < 2 ^ 53"
proof -
  let ?f = "bits AND (push_bit 52 1 - 1)"
  have m: "push_bit 52 1 - 1 = (mask 52 :: u64)" by (simp add: mask_eq_decr_exp)
  have eq: "?f = take_bit 52 bits" unfolding m by (simp add: take_bit_eq_mask)
  have bound: "unat w < 2 ^ 53" if "take_bit 53 w = w" for w :: u64
    by (metis that take_bit_nat_less_exp unsigned_take_bit_eq)
  have "take_bit 53 (take_bit 52 bits) = take_bit 52 bits" by simp
  moreover have "take_bit 53 (take_bit 52 bits OR push_bit 52 1) = take_bit 52 bits OR push_bit 52 1"
    by (simp add: take_bit_or take_bit_push_bit)
  ultimately have "unat (take_bit 52 bits) < 2 ^ 53" "unat (take_bit 52 bits OR push_bit 52 1) < 2 ^ 53"
    by (blast intro: bound)+
  then show ?thesis unfolding f64_parts_def Let_def eq by (simp del: push_bit_of_1)
qed

text \<open>An exact tie keeps both sides of the integer test far below \<open>2^128\<close>.\<close>

lemma tie_bound:
  fixes m t a b c d :: nat
  assumes eq: "m * 2 ^ a * 5 ^ b = t * 2 ^ c * 5 ^ d" and m: "0 < m" "m < 2 ^ 53"
    and t: "odd t" "t < 2 ^ 58" and ac: "a = 0 \<or> c = 0" and bd: "b = 0 \<or> d = 0"
  shows "m * 2 ^ a * 5 ^ b < 2 ^ 128"
proof -
  have a: "a = 0"
  proof (rule ccontr)
    assume "a \<noteq> 0"
    then have "c = 0" "even (m * 2 ^ a * 5 ^ b)" using ac by auto
    with eq t show False by simp
  qed
  show ?thesis
  proof (cases "b = 0")
    case True
    have "(2::nat) ^ 53 < 2 ^ 128" by simp
    then show ?thesis using a m True by simp
  next
    case False
    then have "d = 0" using bd by simp
    then have "5 ^ b dvd t * 2 ^ c" using eq a by (metis dvd_triv_right mult.right_neutral power_0)
    moreover have "coprime ((5::nat) ^ b) (2 ^ c)" by simp
    ultimately have "5 ^ b dvd t" by (simp add: coprime_dvd_mult_left_iff)
    then have "5 ^ b \<le> t" using t by (intro dvd_imp_le) (auto elim: oddE)
    then have "m * 5 ^ b \<le> 2 ^ 53 * 2 ^ 58" using m t by (intro mult_le_mono) auto
    also have "\<dots> < (2::nat) ^ 128" by simp
    finally show ?thesis using a by simp
  qed
qed

lemma powi_split: "x \<noteq> 0 \<Longrightarrow> x powi i = x ^ nat (max i 0) / x ^ nat (max (- i) 0)" for x :: real
  by (simp add: power_int_def field_simps power_inverse)

lemma tie_equation:
  fixes m t :: nat and q e :: int
  defines "two \<equiv> q + 1 - e"
  shows "real m * 2 powi q = real t * 10 powi e / 2 \<longleftrightarrow>
    m * 2 ^ nat (max two 0) * 5 ^ nat (max (- e) 0) = t * 2 ^ nat (max (- two) 0) * 5 ^ nat (max e 0)"
proof -
  have two: "(2::real) powi two = 2 * 2 powi q / 2 powi e"
    by (simp add: two_def power_int_diff power_int_add)
  have ten: "(10::real) powi e = 2 powi e * 5 powi e"
    using power_int_mult_distrib[of "2::real" 5 e] by simp
  have nz: "(2::real) powi e \<noteq> 0" by simp
  have "real m * 2 powi q = real t * 10 powi e / 2 \<longleftrightarrow> real m * 2 powi two = real t * 5 powi e"
    unfolding two ten using nz by (simp add: field_simps)
  also have "\<dots> \<longleftrightarrow> real (m * 2 ^ nat (max two 0) * 5 ^ nat (max (- e) 0)) =
      real (t * 2 ^ nat (max (- two) 0) * 5 ^ nat (max e 0))"
    by (simp add: powi_split[of 2 two] powi_split[of 5 e] field_simps)
  finally show ?thesis by (simp only: of_nat_eq_iff)
qed

lemma unat_u128_of_nat: "x < 2 ^ 128 \<Longrightarrow> unat (of_nat x :: u128) = x"
  by (simp add: unat_of_nat)

lemma of_nat_u128_inj: "x < 2 ^ 128 \<Longrightarrow> y < 2 ^ 128 \<Longrightarrow> (of_nat x :: u128) = of_nat y \<longleftrightarrow> x = y"
  by (metis unat_u128_of_nat)

text \<open>
  The tie test of the number printer is exact: for the odd numerators the caller passes
  (below \<open>2^58\<close>), \<open>is_exact_decimal_midpoint\<close> answers true exactly when the \<open>f64\<close> equals
  \<open>t * 10^e / 2\<close> as a real number; the checked 128-bit arithmetic never loses a tie to overflow.
\<close>

theorem midpoint_test_exact:
  assumes "odd (unat t)" "unat t < 2 ^ 58"
  shows "is_exact_decimal_midpoint bits t e \<longleftrightarrow> f64_value bits = real (unat t) * 10 powi e / 2"
proof -
  obtain m q where mq: "f64_parts bits = (m, q)" by (cases "f64_parts bits")
  have m: "m < 2 ^ 53" using f64_parts_bound[of bits] mq by simp
  have t0: "t \<noteq> 0" using assms by auto
  define L where "L = m * 2 ^ nat (max (q + 1 - e) 0) * 5 ^ nat (max (- e) 0)"
  define R where "R = unat t * 2 ^ nat (max (- (q + 1 - e)) 0) * 5 ^ nat (max e 0)"
  have val: "f64_value bits = real (unat t) * 10 powi e / 2 \<longleftrightarrow> L = R"
    unfolding L_def R_def f64_value_def mq Let_def prod.case by (rule tie_equation)
  show ?thesis
  proof (cases "m = 0")
    case True
    then have "L \<noteq> R" using t0 by (simp add: L_def R_def unat_eq_0)
    then show ?thesis using True val mq by (simp add: is_exact_decimal_midpoint_def)
  next
    case False
    have um: "unat (of_nat m :: u128) = m" using m by (simp add: unat_of_nat)
    then have m0: "(of_nat m :: u128) \<noteq> 0" using False by (metis unat_0)
    have fits: "L < 2 ^ 128" if "L = R"
    proof -
      have "nat (max (q + 1 - e) 0) = 0 \<or> nat (max (- (q + 1 - e)) 0) = 0" by auto
      moreover have "nat (max (- e) 0) = 0 \<or> nat (max e 0) = 0" by auto
      ultimately show ?thesis
        using tie_bound[OF that[unfolded L_def R_def]] assms m False unfolding L_def by simp
    qed
    have "is_exact_decimal_midpoint bits t e \<longleftrightarrow>
        (case (if L < 2 ^ 128 then Some (of_nat L :: u128) else None,
               if R < 2 ^ 128 then Some (of_nat R) else None) of
           (Some a, Some b) \<Rightarrow> a = b | _ \<Rightarrow> False)"
      unfolding is_exact_decimal_midpoint_def mq prod.case Let_def
        checked_scale_exact[OF m0] checked_scale_exact[OF t0] um L_def R_def
      using False by (simp only: if_False)
    also have "\<dots> \<longleftrightarrow> L = R"
      using fits of_nat_u128_inj[of L R] by (cases "L < 2 ^ 128"; cases "R < 2 ^ 128") (simp_all, metis)
    finally show ?thesis using val by simp
  qed
qed

lemma midpoint_test_exact_witness:
  "odd (unat (5 :: u128)) \<and> unat (5 :: u128) < 2 ^ 58 \<and>
   (is_exact_decimal_midpoint 0x4004000000000000 5 0 \<longleftrightarrow>
      f64_value 0x4004000000000000 = real (unat (5 :: u128)) * 10 powi 0 / 2)"
  using midpoint_test_exact[of 5 "0x4004000000000000" 0] by simp

lemma canonical_text_eq_alike:
  assumes "sci_ok sci" "wf_json v" "wf_json w" "depth v \<le> MAX_JCS_DEPTH" "depth w \<le> MAX_JCS_DEPTH"
  shows "try_canonicalize_value sci v = try_canonicalize_value sci w \<longleftrightarrow> written_alike sci v w"
proof -
  have "render (canon sci v) = render (canon sci w) \<longleftrightarrow> canon sci v = canon sci w"
    using render_inj[of "canon sci v" "canon sci w" "[]" "[]"] wf_canon assms by (auto simp: delim_def)
  then show ?thesis
    using assms canon_eq_iff by (simp add: try_canonicalize_value_def write_value_render)
qed

text \<open>
  Canonicalization succeeds exactly on values nested at most \<open>MAX_JCS_DEPTH\<close> deep, and then
  writes the reference rendering: no whitespace, members in byte order of their keys, numbers in
  the ECMAScript form; a deeper value is a \<open>Canonicalization\<close> error.
\<close>

theorem canonicalize_renders:
  "try_canonicalize_value sci v =
     (if depth v \<le> MAX_JCS_DEPTH then Inr (render (canon sci v)) else Inl Canonicalization)"
  by (simp add: try_canonicalize_value_def write_value_render)

text \<open>The string escapes of RFC 8785 section 3.2.2.2, which are ECMAScript's.\<close>

definition rfc8785_escape :: "char \<Rightarrow> string" where
  "rfc8785_escape c =
     (if c = CHR 0x08 then [CHR 0x5C, CHR ''b'']
      else if c = CHR 0x09 then [CHR 0x5C, CHR ''t'']
      else if c = CHR 0x0A then [CHR 0x5C, CHR ''n'']
      else if c = CHR 0x0C then [CHR 0x5C, CHR ''f'']
      else if c = CHR 0x0D then [CHR 0x5C, CHR ''r'']
      else if c = CHR 0x22 \<or> c = CHR 0x5C then [CHR 0x5C, c]
      else if (of_char c :: nat) < 0x20 then
        [CHR 0x5C, CHR ''u'', CHR ''0'', CHR ''0'',
         hex_digit (of_char c div 16), hex_digit (of_char c mod 16)]
      else [c])"

text \<open>
  C38. String escaping agrees with RFC 8785 on every character but two: backspace and form feed
  are written as \<open>u0008\<close> and \<open>u000c\<close> escapes where the RFC requires the short forms.
\<close>

theorem escape_matches_rfc8785_except_two:
  "escape_char c = rfc8785_escape c \<longleftrightarrow> c \<noteq> CHR 0x08 \<and> c \<noteq> CHR 0x0C"
  by (auto simp: escape_char_def rfc8785_escape_def)

end
