(* ===== verification/Acdp_SafeHttp.thy ===== *)
theory Acdp_SafeHttp
  imports Acdp_Errors
begin

text \<open>
  The SSRF policy for outbound requests (\<open>crates/acdp-safe-http/src/lib.rs\<close>).

  Addresses are \<open>std::net\<close>'s: four octets or eight 16-bit segments. The \<open>url\<close> crate's parser is
  the parameter \<open>parse_url\<close>, DNS resolution the parameter \<open>lookup_host\<close>. A rejection keeps its
  stable reason code and drops the detail text.
\<close>

unbundle bit_operations_syntax

section \<open>Reasons and policy\<close>

datatype ssrf_reason =
    NonHttps | IpLiteral | InvalidUrl | Loopback | PrivateRange | Imds | MulticastOrReserved | CrossAuthority

fun ssrf_reason_as_str :: "ssrf_reason \<Rightarrow> string" where
  "ssrf_reason_as_str NonHttps = ''non_https''"
| "ssrf_reason_as_str IpLiteral = ''ip_literal''"
| "ssrf_reason_as_str InvalidUrl = ''invalid_url''"
| "ssrf_reason_as_str Loopback = ''loopback''"
| "ssrf_reason_as_str PrivateRange = ''private''"
| "ssrf_reason_as_str Imds = ''imds''"
| "ssrf_reason_as_str MulticastOrReserved = ''multicast_or_reserved''"
| "ssrf_reason_as_str CrossAuthority = ''cross_authority''"

record ssrf_policy =
  reject_ip_literals :: bool
  allow_http :: bool
  allow_loopback_resolved :: bool

definition default_policy :: ssrf_policy where
  "default_policy = \<lparr>reject_ip_literals = True, allow_http = False, allow_loopback_resolved = False\<rparr>"

definition allow_test_loopback :: ssrf_policy where
  "allow_test_loopback = default_policy\<lparr>allow_loopback_resolved := True\<rparr>"

section \<open>Addresses\<close>

datatype ipv4 = Ipv4 u8 u8 u8 u8

datatype ipv6 = Ipv6 u16 u16 u16 u16 u16 u16 u16 u16

datatype ip_addr = V4 ipv4 | V6 ipv6

text \<open>The \<open>std::net\<close> predicates the source uses.\<close>

fun v4_is_loopback :: "ipv4 \<Rightarrow> bool" where
  "v4_is_loopback (Ipv4 a b c d) = (a = 127)"

definition v4_is_unspecified :: "ipv4 \<Rightarrow> bool" where
  "v4_is_unspecified ip \<longleftrightarrow> ip = Ipv4 0 0 0 0"

definition v6_is_loopback :: "ipv6 \<Rightarrow> bool" where
  "v6_is_loopback ip \<longleftrightarrow> ip = Ipv6 0 0 0 0 0 0 0 1"

definition v6_is_unspecified :: "ipv6 \<Rightarrow> bool" where
  "v6_is_unspecified ip \<longleftrightarrow> ip = Ipv6 0 0 0 0 0 0 0 0"

fun v6_is_multicast :: "ipv6 \<Rightarrow> bool" where
  "v6_is_multicast (Ipv6 s0 s1 s2 s3 s4 s5 s6 s7) = (s0 AND 0xff00 = 0xff00)"

fun classify_unsafe_v4 :: "ipv4 \<Rightarrow> ssrf_reason option" where
  "classify_unsafe_v4 (Ipv4 a b c d) =
     (if a = 0 then Some MulticastOrReserved
      else if a = 10 then Some PrivateRange
      else if a = 100 \<and> b AND 0xc0 = 64 then Some PrivateRange
      else if a = 127 then Some Loopback
      else if a = 169 \<and> b = 254 then Some Imds
      else if a = 172 \<and> b AND 0xf0 = 16 then Some PrivateRange
      else if a = 192 \<and> b = 0 \<and> c = 0 then Some MulticastOrReserved
      else if a = 192 \<and> b = 168 then Some PrivateRange
      else if a = 198 \<and> (b = 18 \<or> b = 19) then Some MulticastOrReserved
      else if 224 \<le> a \<and> a \<le> 239 then Some MulticastOrReserved
      else if 240 \<le> a then Some MulticastOrReserved
      else None)"

text \<open>The IPv4 address in the low two segments.\<close>

definition embedded_v4 :: "u16 \<Rightarrow> u16 \<Rightarrow> ipv4" where
  "embedded_v4 s6 s7 =
     Ipv4 (ucast (drop_bit 8 s6)) (ucast (s6 AND 0xff)) (ucast (drop_bit 8 s7)) (ucast (s7 AND 0xff))"

fun classify_unsafe_v6 :: "ipv6 \<Rightarrow> ssrf_reason option" where
  "classify_unsafe_v6 (Ipv6 s0 s1 s2 s3 s4 s5 s6 s7) =
     (let ip = Ipv6 s0 s1 s2 s3 s4 s5 s6 s7 in
      if v6_is_loopback ip then Some Loopback
      else if v6_is_unspecified ip \<or> v6_is_multicast ip then Some MulticastOrReserved
      else if [s0, s1, s2, s3, s4] = [0, 0, 0, 0, 0] \<and> (s5 = 0 \<or> s5 = 0xffff) \<and>
              \<not> v4_is_unspecified (embedded_v4 s6 s7)
      then classify_unsafe_v4 (embedded_v4 s6 s7)
      else if s0 = 0x0064 \<and> s1 = 0xff9b then Some Imds
      else if s0 AND 0xfe00 = 0xfc00 then Some PrivateRange
      else if s0 AND 0xffc0 = 0xfe80 then Some Imds
      else None)"

definition classify_ip :: "ssrf_policy \<Rightarrow> ip_addr \<Rightarrow> (ssrf_reason, unit) result" where
  "classify_ip p ip =
     (case (case ip of
              V4 v4 \<Rightarrow> (if allow_loopback_resolved p \<and> v4_is_loopback v4 then None else classify_unsafe_v4 v4)
            | V6 v6 \<Rightarrow> (if allow_loopback_resolved p \<and> v6_is_loopback v6 then None else classify_unsafe_v6 v6)) of
        Some reason \<Rightarrow> Inl reason
      | None \<Rightarrow> Inr ())"

text \<open>The \<open>check_*\<close> wrappers map a rejection to \<open>SchemaViolation\<close>.\<close>

definition as_schema_violation :: "(ssrf_reason, 'a) result \<Rightarrow> 'a acdp_result" where
  "as_schema_violation r = (case r of Inl _ \<Rightarrow> Inl SchemaViolation | Inr x \<Rightarrow> Inr x)"

definition check_ip :: "ssrf_policy \<Rightarrow> ip_addr \<Rightarrow> unit acdp_result" where
  "check_ip p ip = as_schema_violation (classify_ip p ip)"

section \<open>URLs and redirects\<close>

datatype url_host = HostV4 ipv4 | HostV6 ipv6 | HostDomain string

record url =
  url_scheme :: string
  url_host :: "url_host option"
  url_host_str :: "string option"
  url_port :: "u16 option"  \<comment> \<open>\<open>port_or_known_default()\<close>\<close>

definition classify_url ::
  "(string \<Rightarrow> url option) \<Rightarrow> ssrf_policy \<Rightarrow> string \<Rightarrow> (ssrf_reason, unit) result" where
  "classify_url parse_url p u =
     rbind (ok_or (parse_url u) InvalidUrl) (\<lambda>parsed.
     rbind (require (\<not> (\<not> allow_http p \<and> url_scheme parsed \<noteq> ''https'')) NonHttps) (\<lambda>_.
     rbind (ok_or (url_host parsed) InvalidUrl) (\<lambda>host.
     case host of
       HostV4 v4 \<Rightarrow> rbind (require (\<not> reject_ip_literals p) IpLiteral) (\<lambda>_. classify_ip p (V4 v4))
     | HostV6 v6 \<Rightarrow> rbind (require (\<not> reject_ip_literals p) IpLiteral) (\<lambda>_. classify_ip p (V6 v6))
     | HostDomain name \<Rightarrow> require (\<not> (name = [] \<or> 253 < length name)) InvalidUrl)))"

definition check_url :: "(string \<Rightarrow> url option) \<Rightarrow> ssrf_policy \<Rightarrow> string \<Rightarrow> unit acdp_result" where
  "check_url parse_url p u = as_schema_violation (classify_url parse_url p u)"

definition same_fetch_authority :: "url \<Rightarrow> url \<Rightarrow> bool" where
  "same_fetch_authority a b \<longleftrightarrow>
     url_scheme a = url_scheme b \<and> url_host_str a = url_host_str b \<and> url_port a = url_port b"

definition classify_redirect_authority ::
  "(string \<Rightarrow> url option) \<Rightarrow> url \<Rightarrow> string \<Rightarrow> (ssrf_reason, unit) result" where
  "classify_redirect_authority parse_url original redirect_url =
     rbind (ok_or (parse_url redirect_url) InvalidUrl) (\<lambda>redirect.
     require (same_fetch_authority original redirect) CrossAuthority)"

definition classify_redirect ::
  "(string \<Rightarrow> url option) \<Rightarrow> string \<Rightarrow> string \<Rightarrow> (ssrf_reason, unit) result" where
  "classify_redirect parse_url from_url to_url =
     rbind (ok_or (parse_url from_url) InvalidUrl) (\<lambda>original.
     classify_redirect_authority parse_url original to_url)"

section \<open>DNS resolution\<close>

record socket_addr =
  sa_ip :: ip_addr
  sa_port :: u16

fun reject_if_any_forbidden :: "ssrf_policy \<Rightarrow> socket_addr list \<Rightarrow> unit acdp_result" where
  "reject_if_any_forbidden p [] = Inr ()"
| "reject_if_any_forbidden p (addr # rest) =
     (case check_ip p (sa_ip addr) of
        Inl _ \<Rightarrow> Inl SchemaViolation
      | Inr _ \<Rightarrow> reject_if_any_forbidden p rest)"

fun is_ipv4 :: "ip_addr \<Rightarrow> bool" where
  "is_ipv4 (V4 _) = True"
| "is_ipv4 (V6 _) = False"

text \<open>\<open>lookup_host host port\<close> is the answer of the system resolver, \<open>None\<close> when it fails.\<close>

definition pin_resolved_ip ::
  "(string \<Rightarrow> u16 \<Rightarrow> socket_addr list option) \<Rightarrow> ssrf_policy \<Rightarrow> string \<Rightarrow> u16 \<Rightarrow> socket_addr acdp_result" where
  "pin_resolved_ip lookup_host p host port =
     rbind (ok_or (lookup_host host port) Http) (\<lambda>candidates.
     rbind (require (candidates \<noteq> []) Http) (\<lambda>_.
     rbind (reject_if_any_forbidden p candidates) (\<lambda>_.
     case find (\<lambda>a. is_ipv4 (sa_ip a)) candidates of
       Some a \<Rightarrow> Inr a
     | None \<Rightarrow> Inr (hd candidates))))"

text \<open>\<open>SafeDnsResolver::resolve\<close>: what the connector gets, \<open>None\<close> when the resolution is refused.\<close>

definition resolve ::
  "(string \<Rightarrow> u16 \<Rightarrow> socket_addr list option) \<Rightarrow> ssrf_policy \<Rightarrow> string \<Rightarrow> socket_addr list option" where
  "resolve lookup_host p host =
     (case lookup_host host 0 of
        None \<Rightarrow> None
      | Some candidates \<Rightarrow>
          (if candidates = [] then None
           else case reject_if_any_forbidden p candidates of
             Inl _ \<Rightarrow> None
           | Inr _ \<Rightarrow> Some candidates))"

section \<open>Masks\<close>

lemma and_not_mask: "w AND NOT (mask n) = push_bit n (drop_bit n w)" for w :: "'a::len word"
  by (rule bit_word_eqI) (auto simp: bit_simps)

lemma unat_and_not_mask: "unat (w AND NOT (mask n)) = unat w div 2 ^ n * 2 ^ n" for w :: "'a::len word"
proof -
  have "unat w div 2 ^ n * 2 ^ n \<le> unat w" by simp
  then have "unat w div 2 ^ n * 2 ^ n < 2 ^ LENGTH('a)" using unat_less[of w] by linarith
  then show ?thesis
    unfolding and_not_mask unsigned_push_bit_eq unat_drop_bit_eq
    by (simp add: drop_bit_eq_div push_bit_eq_mult take_bit_eq_mod)
qed

lemma u8_masks:
  "(b AND 0xc0 = 64) = (unat b div 64 = 1)" "(b AND 0xf0 = 16) = (unat b div 16 = 1)" for b :: u8
proof -
  have m: "(0xc0 :: u8) = NOT (mask 6)" "(0xf0 :: u8) = NOT (mask 4)" by (simp_all add: mask_eq_exp_minus_1)
  show "(b AND 0xc0 = 64) = (unat b div 64 = 1)"
    unfolding m word_unat_eq_iff unat_and_not_mask by simp
  show "(b AND 0xf0 = 16) = (unat b div 16 = 1)"
    unfolding m word_unat_eq_iff unat_and_not_mask by simp
qed

lemma u16_masks:
  "(s AND 0xff00 = 0xff00) = (unat s div 256 = 255)"
  "(s AND 0xfe00 = 0xfc00) = (unat s div 512 = 126)"
  "(s AND 0xffc0 = 0xfe80) = (unat s div 64 = 1018)" for s :: u16
proof -
  have m: "(0xff00 :: u16) = NOT (mask 8)" "(0xfe00 :: u16) = NOT (mask 9)" "(0xffc0 :: u16) = NOT (mask 6)"
    by (simp_all add: mask_eq_exp_minus_1)
  show "(s AND 0xff00 = 0xff00) = (unat s div 256 = 255)"
    by (subst (1) m) (simp add: word_unat_eq_iff unat_and_not_mask)
  show "(s AND 0xfe00 = 0xfc00) = (unat s div 512 = 126)"
    unfolding m word_unat_eq_iff unat_and_not_mask by simp
  show "(s AND 0xffc0 = 0xfe80) = (unat s div 64 = 1018)"
    unfolding m word_unat_eq_iff unat_and_not_mask by simp
qed

section \<open>Address ranges as CIDR blocks\<close>

text \<open>\<open>in_cidr w base len v\<close>: the \<open>w\<close>-bit address \<open>v\<close> is in \<open>base/len\<close>.\<close>

definition in_cidr :: "nat \<Rightarrow> nat \<Rightarrow> nat \<Rightarrow> nat \<Rightarrow> bool" where
  "in_cidr w base len v \<longleftrightarrow> v div 2 ^ (w - len) = base div 2 ^ (w - len)"

fun cidr_reason :: "nat \<Rightarrow> (nat \<times> nat \<times> ssrf_reason) list \<Rightarrow> nat \<Rightarrow> ssrf_reason option" where
  "cidr_reason w [] v = None"
| "cidr_reason w ((base, len, reason) # rest) v =
     (if in_cidr w base len v then Some reason else cidr_reason w rest v)"

definition dotted :: "nat \<Rightarrow> nat \<Rightarrow> nat \<Rightarrow> nat \<Rightarrow> nat" where
  "dotted a b c d = ((a * 256 + b) * 256 + c) * 256 + d"

fun v4_value :: "ipv4 \<Rightarrow> nat" where
  "v4_value (Ipv4 a b c d) = dotted (unat a) (unat b) (unat c) (unat d)"

text \<open>The IPv4 blocks of the policy (RFC-ACDP-0006 section 7.1), as the reasons document them.\<close>

definition forbidden_v4 :: "(nat \<times> nat \<times> ssrf_reason) list" where
  "forbidden_v4 =
     [(dotted 0 0 0 0, 8, MulticastOrReserved), (dotted 10 0 0 0, 8, PrivateRange),
      (dotted 100 64 0 0, 10, PrivateRange), (dotted 127 0 0 0, 8, Loopback),
      (dotted 169 254 0 0, 16, Imds), (dotted 172 16 0 0, 12, PrivateRange),
      (dotted 192 0 0 0, 24, MulticastOrReserved), (dotted 192 168 0 0, 16, PrivateRange),
      (dotted 198 18 0 0, 15, MulticastOrReserved), (dotted 224 0 0 0, 4, MulticastOrReserved),
      (dotted 240 0 0 0, 4, MulticastOrReserved)]"

lemma dotted_div:
  assumes "b < 256" "c < 256" "d < 256"
  shows "dotted a b c d div 2 ^ 24 = a" "dotted a b c d div 2 ^ 16 = a * 256 + b"
    "dotted a b c d div 2 ^ 8 = (a * 256 + b) * 256 + c"
    "dotted a b c d div 2 ^ 22 = a * 4 + b div 64" "dotted a b c d div 2 ^ 20 = a * 16 + b div 16"
    "dotted a b c d div 2 ^ 17 = a * 128 + b div 2" "dotted a b c d div 2 ^ 28 = a div 16"
proof -
  have 8: "dotted a b c d div 2 ^ 8 = (a * 256 + b) * 256 + c"
    using assms by (simp add: dotted_def)
  have 16: "dotted a b c d div 2 ^ 16 = a * 256 + b"
    using 8 assms div_mult2_eq[of "dotted a b c d" "2 ^ 8" "2 ^ 8"] by simp
  have low: "dotted a b c d div 2 ^ (16 + k) = (a * 256 + b) div 2 ^ k" for k
    using 16 div_mult2_eq[of "dotted a b c d" "2 ^ 16" "2 ^ k"] by (simp add: power_add)
  show "dotted a b c d div 2 ^ 24 = a" using low[of 8] assms by simp
  show "dotted a b c d div 2 ^ 22 = a * 4 + b div 64" using low[of 6] assms by simp
  show "dotted a b c d div 2 ^ 20 = a * 16 + b div 16" using low[of 4] assms by simp
  show "dotted a b c d div 2 ^ 17 = a * 128 + b div 2" using low[of 1] assms by simp
  show "dotted a b c d div 2 ^ 28 = a div 16" using low[of 12] assms by simp
qed (use assms in \<open>simp_all add: dotted_def\<close>)

lemma digits_eq: "x < m \<Longrightarrow> y < m \<Longrightarrow> a * m + x = b * m + y \<longleftrightarrow> a = b \<and> x = y" for m :: nat
  by (metis add.commute add_right_cancel div_mult_self1 div_less less_nat_zero_code add_0)

lemma unat_u8: "unat b < 256" for b :: u8
  using unat_less[of b] by simp

lemma cidr_v4_blocks:
  fixes a b c d :: u8
  defines "v \<equiv> v4_value (Ipv4 a b c d)"
  shows "in_cidr 32 (dotted n 0 0 0) 8 v \<longleftrightarrow> unat a = n"
    and "in_cidr 32 (dotted 100 64 0 0) 10 v \<longleftrightarrow> unat a = 100 \<and> unat b div 64 = 1"
    and "in_cidr 32 (dotted 169 254 0 0) 16 v \<longleftrightarrow> unat a = 169 \<and> unat b = 254"
    and "in_cidr 32 (dotted 172 16 0 0) 12 v \<longleftrightarrow> unat a = 172 \<and> unat b div 16 = 1"
    and "in_cidr 32 (dotted 192 0 0 0) 24 v \<longleftrightarrow> unat a = 192 \<and> unat b = 0 \<and> unat c = 0"
    and "in_cidr 32 (dotted 192 168 0 0) 16 v \<longleftrightarrow> unat a = 192 \<and> unat b = 168"
    and "in_cidr 32 (dotted 198 18 0 0) 15 v \<longleftrightarrow> unat a = 198 \<and> (unat b = 18 \<or> unat b = 19)"
    and "in_cidr 32 (dotted 224 0 0 0) 4 v \<longleftrightarrow> 224 \<le> unat a \<and> unat a \<le> 239"
    and "in_cidr 32 (dotted 240 0 0 0) 4 v \<longleftrightarrow> 240 \<le> unat a"
proof -
  note bounds = unat_u8[of a] unat_u8[of b] unat_u8[of c] unat_u8[of d]
  note div = dotted_div[OF bounds(2,3,4), of "unat a", folded v4_value.simps, folded v_def]
  have base: "dotted n 0 0 0 div 2 ^ 24 = n" by (rule dotted_div) auto
  show "in_cidr 32 (dotted n 0 0 0) 8 v \<longleftrightarrow> unat a = n" using base div by (simp add: in_cidr_def)
  have "unat b div 64 < 4" "unat b div 16 < 16" "unat b div 2 < 128" using bounds by auto
  note small = this bounds
  show "in_cidr 32 (dotted 100 64 0 0) 10 v \<longleftrightarrow> unat a = 100 \<and> unat b div 64 = 1"
    using div(4) digits_eq[OF small(1), of 1 "unat a" 100] by (simp add: in_cidr_def dotted_def)
  show "in_cidr 32 (dotted 169 254 0 0) 16 v \<longleftrightarrow> unat a = 169 \<and> unat b = 254"
    using div(2) digits_eq[OF bounds(2), of 254 "unat a" 169] by (simp add: in_cidr_def dotted_def)
  show "in_cidr 32 (dotted 172 16 0 0) 12 v \<longleftrightarrow> unat a = 172 \<and> unat b div 16 = 1"
    using div(5) digits_eq[OF small(2), of 1 "unat a" 172] by (simp add: in_cidr_def dotted_def)
  show "in_cidr 32 (dotted 192 0 0 0) 24 v \<longleftrightarrow> unat a = 192 \<and> unat b = 0 \<and> unat c = 0"
    using div(3) digits_eq[OF bounds(3), of 0 "unat a * 256 + unat b" "192 * 256 + 0"]
      digits_eq[OF bounds(2), of 0 "unat a" 192] by (simp add: in_cidr_def dotted_def)
  show "in_cidr 32 (dotted 192 168 0 0) 16 v \<longleftrightarrow> unat a = 192 \<and> unat b = 168"
    using div(2) digits_eq[OF bounds(2), of 168 "unat a" 192] by (simp add: in_cidr_def dotted_def)
  show "in_cidr 32 (dotted 198 18 0 0) 15 v \<longleftrightarrow> unat a = 198 \<and> (unat b = 18 \<or> unat b = 19)"
    using div(6) digits_eq[OF small(3), of 9 "unat a" 198] by (simp add: in_cidr_def dotted_def) linarith
  show "in_cidr 32 (dotted 224 0 0 0) 4 v \<longleftrightarrow> 224 \<le> unat a \<and> unat a \<le> 239"
    using div(7) small by (auto simp: in_cidr_def dotted_def)
  show "in_cidr 32 (dotted 240 0 0 0) 4 v \<longleftrightarrow> 240 \<le> unat a"
    using div(7) small by (auto simp: in_cidr_def dotted_def)
qed

lemma classify_v4_cidr: "classify_unsafe_v4 ip = cidr_reason 32 forbidden_v4 (v4_value ip)"
proof (cases ip)
  case (Ipv4 a b c d)
  have "a = w \<longleftrightarrow> unat a = unat w" "b = w \<longleftrightarrow> unat b = unat w" "c = w \<longleftrightarrow> unat c = unat w" for w
    by (simp_all add: word_unat_eq_iff)
  then show ?thesis
    unfolding Ipv4 forbidden_v4_def cidr_reason.simps cidr_v4_blocks classify_unsafe_v4.simps u8_masks
    by (simp add: word_le_nat_alt)
qed

section \<open>IPv6 blocks\<close>

text \<open>The number a list of 16-bit segments spells, most significant first.\<close>

definition horner :: "u16 list \<Rightarrow> nat" where
  "horner xs = foldl (\<lambda>acc s. acc * 65536 + unat s) 0 xs"

lemma horner_simps [simp]: "horner [] = 0" "horner (xs @ [x]) = horner xs * 65536 + unat x"
  by (simp_all add: horner_def)

lemma unat_u16: "unat s < 65536" for s :: u16
  using unat_less[of s] by simp

lemma horner_less: "horner xs < 65536 ^ length xs"
proof (induction xs rule: rev_induct)
  case (snoc x xs)
  then have "horner xs * 65536 + 65536 \<le> 65536 ^ length xs * 65536" by simp
  then show ?case using unat_u16[of x] by simp
qed simp

lemma horner_append: "horner (xs @ ys) = horner xs * 65536 ^ length ys + horner ys"
proof (induction ys rule: rev_induct)
  case (snoc y ys)
  have "horner (xs @ ys @ [y]) = horner (xs @ ys) * 65536 + unat y"
    using horner_simps(2)[of "xs @ ys" y] by simp
  then show ?case using snoc by (simp add: algebra_simps)
qed simp

lemma horner_div: "horner (xs @ ys) div 65536 ^ length ys = horner xs"
  and horner_mod: "horner (xs @ ys) mod 65536 ^ length ys = horner ys"
  using horner_less[of ys] by (simp_all add: horner_append)

lemma horner_inj: "length xs = length ys \<Longrightarrow> horner xs = horner ys \<longleftrightarrow> xs = ys"
proof (induction xs arbitrary: ys rule: rev_induct)
  case (snoc x xs)
  then obtain y zs where ys: "ys = zs @ [y]" "length zs = length xs" by (cases ys rule: rev_cases) auto
  show ?case
    using snoc.IH[of zs] ys digits_eq[OF unat_u16[of x] unat_u16[of y]] by (auto simp: word_unat_eq_iff)
qed simp

fun segments :: "ipv6 \<Rightarrow> u16 list" where
  "segments (Ipv6 s0 s1 s2 s3 s4 s5 s6 s7) = [s0, s1, s2, s3, s4, s5, s6, s7]"

definition v6_value :: "ipv6 \<Rightarrow> nat" where
  "v6_value ip = horner (segments ip)"

text \<open>
  The documented IPv6 policy on the 128-bit address, from the comments on \<open>SsrfReason\<close> and in
  \<open>classify_unsafe_v6\<close>; blocks that embed an IPv4 address defer to its policy, and the NAT64 blocks
  are \<open>64:ff9b::/96\<close> and \<open>64:ff9b:1::/48\<close>.
\<close>

definition cidr_v6_reason :: "nat \<Rightarrow> ssrf_reason option" where
  "cidr_v6_reason v =
     (if in_cidr 128 1 128 v then Some Loopback
      else if in_cidr 128 0 128 v \<or> in_cidr 128 (0xff00 * 2 ^ 112) 8 v then Some MulticastOrReserved
      else if in_cidr 128 0 96 v \<or> in_cidr 128 (0xffff * 2 ^ 32) 96 v
      then cidr_reason 32 forbidden_v4 (v mod 2 ^ 32)
      else if in_cidr 128 (0x0064ff9b * 2 ^ 96) 96 v \<or> in_cidr 128 (0x0064ff9b0001 * 2 ^ 80) 48 v then Some Imds
      else if in_cidr 128 (0xfc00 * 2 ^ 112) 7 v then Some PrivateRange
      else if in_cidr 128 (0xfe80 * 2 ^ 112) 10 v then Some Imds
      else None)"

lemma v6_value_parts:
  fixes s0 s1 s2 s3 s4 s5 s6 s7 :: u16
  defines "v \<equiv> v6_value (Ipv6 s0 s1 s2 s3 s4 s5 s6 s7)"
  shows "v div 2 ^ 112 = unat s0" "v div 2 ^ 96 = unat s0 * 65536 + unat s1"
    "v div 2 ^ 32 = horner [s0, s1, s2, s3, s4, s5]" "v mod 2 ^ 32 = unat s6 * 65536 + unat s7"
  using horner_div[of "[s0]" "[s1, s2, s3, s4, s5, s6, s7]"]
    horner_div[of "[s0, s1]" "[s2, s3, s4, s5, s6, s7]"]
    horner_div[of "[s0, s1, s2, s3, s4, s5]" "[s6, s7]"] horner_mod[of "[s0, s1, s2, s3, s4, s5]" "[s6, s7]"]
  by (simp_all add: v_def v6_value_def horner_def)

lemma embedded_v4_value: "v4_value (embedded_v4 s6 s7) = unat s6 * 65536 + unat s7"
proof -
  have hi: "unat (ucast (drop_bit 8 s) :: u8) = unat s div 256" for s :: u16
  proof -
    have "unat s div 256 < 256" using unat_u16[of s] by simp
    then show ?thesis
      unfolding unsigned_ucast_eq unat_drop_bit_eq by (simp add: drop_bit_eq_div take_bit_eq_mod)
  qed
  have m: "(0xff :: u16) = mask 8" by (simp add: mask_eq_exp_minus_1)
  have lo: "unat (ucast (s AND 0xff) :: u8) = unat s mod 256" for s :: u16
    unfolding m take_bit_eq_mask[symmetric] unsigned_ucast_eq unsigned_take_bit_eq
    by (simp add: take_bit_eq_mod)
  show ?thesis
    unfolding embedded_v4_def v4_value.simps hi lo dotted_def by simp
qed

lemma cidr_v6_blocks:
  fixes s0 s1 s2 s3 s4 s5 s6 s7 :: u16
  defines "ip \<equiv> Ipv6 s0 s1 s2 s3 s4 s5 s6 s7"
  defines "v \<equiv> v6_value ip"
  shows "in_cidr 128 1 128 v \<longleftrightarrow> v6_is_loopback ip"
    and "in_cidr 128 0 128 v \<longleftrightarrow> v6_is_unspecified ip"
    and "in_cidr 128 (0xff00 * 2 ^ 112) 8 v \<longleftrightarrow> v6_is_multicast ip"
    and "in_cidr 128 0 96 v \<longleftrightarrow> [s0, s1, s2, s3, s4] = [0, 0, 0, 0, 0] \<and> s5 = 0"
    and "in_cidr 128 (0xffff * 2 ^ 32) 96 v \<longleftrightarrow> [s0, s1, s2, s3, s4] = [0, 0, 0, 0, 0] \<and> s5 = 0xffff"
    and "in_cidr 128 (0x0064ff9b * 2 ^ 96) 32 v \<longleftrightarrow> s0 = 0x0064 \<and> s1 = 0xff9b"
    and "in_cidr 128 (0x0064ff9b * 2 ^ 96) 96 v \<longleftrightarrow> [s0, s1, s2, s3, s4, s5] = [0x0064, 0xff9b, 0, 0, 0, 0]"
    and "in_cidr 128 (0x0064ff9b0001 * 2 ^ 80) 48 v \<longleftrightarrow> s0 = 0x0064 \<and> s1 = 0xff9b \<and> s2 = 1"
    and "in_cidr 128 (0xfc00 * 2 ^ 112) 7 v \<longleftrightarrow> s0 AND 0xfe00 = 0xfc00"
    and "in_cidr 128 (0xfe80 * 2 ^ 112) 10 v \<longleftrightarrow> s0 AND 0xffc0 = 0xfe80"
proof -
  note parts = v6_value_parts[of s0 s1 s2 s3 s4 s5 s6 s7, folded ip_def, folded v_def]
  have v: "v = horner [s0, s1, s2, s3, s4, s5, s6, s7]" by (simp add: v_def ip_def v6_value_def)
  have msb: "v div 2 ^ (112 + k) = unat s0 div 2 ^ k" for k
    using parts(1) div_mult2_eq[of v "2 ^ 112" "2 ^ k"] by (simp add: power_add)
  have h: "horner [0, 0, 0, 0, 0, 0, 0, 1] = 1" "horner [0, 0, 0, 0, 0, 0, 0, 0] = 0"
    "horner [0, 0, 0, 0, 0, 0] = 0" "horner [0, 0, 0, 0, 0, 0xffff] = 0xffff"
    "horner [0x0064, 0xff9b, 0, 0, 0, 0] = 0x0064ff9b * 2 ^ 64" "horner [0x0064, 0xff9b, 1] = 0x0064ff9b0001"
    by (simp_all add: horner_def)
  show "in_cidr 128 1 128 v \<longleftrightarrow> v6_is_loopback ip"
    using horner_inj[of "[s0, s1, s2, s3, s4, s5, s6, s7]" "[0, 0, 0, 0, 0, 0, 0, 1]"]
    by (simp add: in_cidr_def v h v6_is_loopback_def ip_def)
  show "in_cidr 128 0 128 v \<longleftrightarrow> v6_is_unspecified ip"
    using horner_inj[of "[s0, s1, s2, s3, s4, s5, s6, s7]" "[0, 0, 0, 0, 0, 0, 0, 0]"]
    by (simp add: in_cidr_def v h v6_is_unspecified_def ip_def)
  show "in_cidr 128 (0xff00 * 2 ^ 112) 8 v \<longleftrightarrow> v6_is_multicast ip"
    using msb[of 8] by (simp add: in_cidr_def ip_def u16_masks)
  show "in_cidr 128 0 96 v \<longleftrightarrow> [s0, s1, s2, s3, s4] = [0, 0, 0, 0, 0] \<and> s5 = 0"
    using horner_inj[of "[s0, s1, s2, s3, s4, s5]" "[0, 0, 0, 0, 0, 0]"] parts(3)
    by (simp add: in_cidr_def h)
  show "in_cidr 128 (0xffff * 2 ^ 32) 96 v \<longleftrightarrow> [s0, s1, s2, s3, s4] = [0, 0, 0, 0, 0] \<and> s5 = 0xffff"
    using horner_inj[of "[s0, s1, s2, s3, s4, s5]" "[0, 0, 0, 0, 0, 0xffff]"] parts(3)
    by (simp add: in_cidr_def h)
  show "in_cidr 128 (0x0064ff9b * 2 ^ 96) 32 v \<longleftrightarrow> s0 = 0x0064 \<and> s1 = 0xff9b"
    using digits_eq[OF unat_u16[of s1], of "0xff9b" "unat s0" "0x0064"] parts(2)
    by (simp add: in_cidr_def word_unat_eq_iff)
  show "in_cidr 128 (0x0064ff9b * 2 ^ 96) 96 v \<longleftrightarrow> [s0, s1, s2, s3, s4, s5] = [0x0064, 0xff9b, 0, 0, 0, 0]"
    using horner_inj[of "[s0, s1, s2, s3, s4, s5]" "[0x0064, 0xff9b, 0, 0, 0, 0]"] parts(3)
    by (simp add: in_cidr_def h)
  show "in_cidr 128 (0x0064ff9b0001 * 2 ^ 80) 48 v \<longleftrightarrow> s0 = 0x0064 \<and> s1 = 0xff9b \<and> s2 = 1"
    using horner_inj[of "[s0, s1, s2]" "[0x0064, 0xff9b, 1]"] horner_div[of "[s0, s1, s2]" "[s3, s4, s5, s6, s7]"]
    by (simp add: in_cidr_def h v)
  show "in_cidr 128 (0xfc00 * 2 ^ 112) 7 v \<longleftrightarrow> s0 AND 0xfe00 = 0xfc00"
    using msb[of 9] by (simp add: in_cidr_def u16_masks)
  show "in_cidr 128 (0xfe80 * 2 ^ 112) 10 v \<longleftrightarrow> s0 AND 0xffc0 = 0xfe80"
    using msb[of 6] by (simp add: in_cidr_def u16_masks)
qed

lemma embedded_unspecified: "v4_is_unspecified (embedded_v4 s6 s7) \<longleftrightarrow> s6 = 0 \<and> s7 = 0"
proof -
  have "v4_is_unspecified i \<longleftrightarrow> v4_value i = 0" for i
    by (cases i) (simp add: v4_is_unspecified_def dotted_def unat_eq_0)
  then show ?thesis by (simp add: embedded_v4_value unat_eq_0)
qed

text \<open>
  The IPv4 filter is the table of forbidden CIDR blocks: an address is rejected exactly when it
  lies in one of the blocks of the policy, with that block's reason, for all 2^32 addresses.
\<close>

theorem classify_v4_is_cidr_table:
  "classify_unsafe_v4 ip = cidr_reason 32 forbidden_v4 (v4_value ip)"
  by (rule classify_v4_cidr)

text \<open>
  The IPv6 filter against the documented policy: it follows the policy except at \<open>::ffff:0.0.0.0\<close>,
  where the non-zero guard skips the IPv4 filter, and in \<open>64:ff9b::/32\<close>, all of which it refuses.
\<close>

lemma classify_v6_exact:
  "classify_unsafe_v6 ip =
     (if v6_value ip = 0xffff * 2 ^ 32 then None
      else if in_cidr 128 (0x0064ff9b * 2 ^ 96) 32 (v6_value ip) then Some Imds
      else cidr_v6_reason (v6_value ip))"
proof (cases ip)
  case (Ipv6 s0 s1 s2 s3 s4 s5 s6 s7)
  have emb: "cidr_reason 32 forbidden_v4 (unat s6 * 65536 + unat s7) = classify_unsafe_v4 (embedded_v4 s6 s7)"
    by (simp only: classify_v4_cidr embedded_v4_value)
  have "horner [0, 0, 0, 0, 0, 0xffff, 0, 0] = 0xffff * 2 ^ 32" by (simp add: horner_def)
  then have mapped: "v6_value (Ipv6 s0 s1 s2 s3 s4 s5 s6 s7) = 0xffff * 2 ^ 32 \<longleftrightarrow>
      [s0, s1, s2, s3, s4, s5, s6, s7] = [0, 0, 0, 0, 0, 0xffff, 0, 0]"
    using horner_inj[of "[s0, s1, s2, s3, s4, s5, s6, s7]" "[0, 0, 0, 0, 0, 0xffff, 0, 0]"]
    by (simp add: v6_value_def)
  show ?thesis
    unfolding Ipv6 classify_unsafe_v6.simps cidr_v6_reason_def cidr_v6_blocks v6_value_parts(4) emb Let_def
      embedded_unspecified mapped
    by (auto simp: v6_is_unspecified_def v6_is_loopback_def)
qed

text \<open>
  C35. The address filter decides by the documented blocks. An IPv4 address is refused exactly when
  it lies in a forbidden block, with that block's reason, and the loopback switch opens
  \<open>127.0.0.0/8\<close> and nothing else. An IPv6 address is decided by the documented IPv6 blocks, embedded
  IPv4 addresses included, the switch opening \<open>::1\<close> only, with two deviations: \<open>::ffff:0.0.0.0\<close> is
  admitted although the policy refuses it, and all of \<open>64:ff9b::/32\<close> is refused, where the
  documentation names \<open>64:ff9b::/96\<close> and \<open>64:ff9b:1::/48\<close> (\<open>64:ff9b:2::1\<close> is in neither).
\<close>

theorem classify_ip_exact:
  "classify_ip p (V4 a) = (if allow_loopback_resolved p \<and> in_cidr 32 (dotted 127 0 0 0) 8 (v4_value a) then Inr ()
       else case cidr_reason 32 forbidden_v4 (v4_value a) of None \<Rightarrow> Inr () | Some r \<Rightarrow> Inl r)
   \<and> classify_ip p (V6 b) = (if allow_loopback_resolved p \<and> v6_value b = 1 then Inr ()
       else if v6_value b = 0xffff * 2 ^ 32 then Inr ()
       else if in_cidr 128 (0x0064ff9b * 2 ^ 96) 32 (v6_value b) then Inl Imds
       else case cidr_v6_reason (v6_value b) of None \<Rightarrow> Inr () | Some r \<Rightarrow> Inl r)
   \<and> cidr_v6_reason (0xffff * 2 ^ 32) = Some MulticastOrReserved
   \<and> cidr_v6_reason (v6_value (Ipv6 0x0064 0xff9b 2 0 0 0 0 1)) = None"
proof -
  have l4: "in_cidr 32 (dotted 127 0 0 0) 8 (v4_value a) \<longleftrightarrow> v4_is_loopback a"
    by (cases a) (simp add: cidr_v4_blocks[unfolded v4_value.simps] word_unat_eq_iff)
  have l6: "v6_value b = 1 \<longleftrightarrow> v6_is_loopback b"
    by (cases b) (simp add: cidr_v6_blocks(1)[symmetric] in_cidr_def)
  have "classify_ip p (V4 a) = (if allow_loopback_resolved p \<and> in_cidr 32 (dotted 127 0 0 0) 8 (v4_value a) then Inr ()
       else case cidr_reason 32 forbidden_v4 (v4_value a) of None \<Rightarrow> Inr () | Some r \<Rightarrow> Inl r)"
    unfolding classify_ip_def l4 classify_v4_cidr by (simp split: option.split)
  moreover have "classify_ip p (V6 b) = (if allow_loopback_resolved p \<and> v6_value b = 1 then Inr ()
       else if v6_value b = 0xffff * 2 ^ 32 then Inr ()
       else if in_cidr 128 (0x0064ff9b * 2 ^ 96) 32 (v6_value b) then Inl Imds
       else case cidr_v6_reason (v6_value b) of None \<Rightarrow> Inr () | Some r \<Rightarrow> Inl r)"
    unfolding classify_ip_def l6 classify_v6_exact by (simp split: option.split)
  moreover have "cidr_v6_reason (0xffff * 2 ^ 32) = Some MulticastOrReserved"
    by (simp add: cidr_v6_reason_def in_cidr_def forbidden_v4_def dotted_def)
  moreover have "cidr_v6_reason (v6_value (Ipv6 0x0064 0xff9b 2 0 0 0 0 1)) = None"
    by (simp add: cidr_v6_reason_def in_cidr_def v6_value_def horner_def)
  ultimately show ?thesis by blast
qed

lemma reject_if_any_forbidden_iff:
  "reject_if_any_forbidden p cs = (if \<forall>a\<in>set cs. classify_ip p (sa_ip a) = Inr () then Inr () else Inl SchemaViolation)"
proof (induction cs)
  case (Cons a cs)
  then show ?case
    by (cases "classify_ip p (sa_ip a)") (simp_all add: check_ip_def as_schema_violation_def)
qed simp

text \<open>
  DNS answers are all-or-nothing: \<open>pin_resolved_ip\<close> succeeds exactly when the resolver gives a
  non-empty answer in which every address is permitted; it pins an address of that answer, an IPv4
  one when there is any, and the connector hook admits exactly the answers that would be pinned.
  One forbidden address in a mixed answer refuses the whole resolution.
\<close>

theorem pinned_answer_all_permitted:
  "pin_resolved_ip lookup p host 0 = Inr a \<longleftrightarrow>
     (\<exists>cs. resolve lookup p host = Some cs \<and> (\<forall>c\<in>set cs. classify_ip p (sa_ip c) = Inr ()) \<and>
        a = (case filter (\<lambda>c. is_ipv4 (sa_ip c)) cs of [] \<Rightarrow> hd cs | c # _ \<Rightarrow> c) \<and> cs \<noteq> [] \<and> a \<in> set cs)"
proof (cases "lookup host 0")
  case (Some cs)
  have find: "find P cs = (case filter P cs of [] \<Rightarrow> None | c # _ \<Rightarrow> Some c)" for P :: "socket_addr \<Rightarrow> bool"
    by (induction cs) auto
  have mem: "(case filter P cs of [] \<Rightarrow> hd cs | c # _ \<Rightarrow> c) \<in> set cs" if "cs \<noteq> []" for P :: "socket_addr \<Rightarrow> bool"
    using that by (cases "filter P cs") (auto simp: filter_eq_Cons_iff)
  show ?thesis
    using Some mem[of "\<lambda>c. is_ipv4 (sa_ip c)"]
    by (auto simp: pin_resolved_ip_def resolve_def reject_if_any_forbidden_iff find result_simps
        split: list.splits if_splits)
qed (simp add: pin_resolved_ip_def resolve_def)

lemma pinned_answer_all_permitted_witness:
  "pin_resolved_ip (\<lambda>_ _. Some [\<lparr>sa_ip = V4 (Ipv4 93 184 216 34), sa_port = 0\<rparr>]) default_policy ''example.org'' 0 =
     Inr \<lparr>sa_ip = V4 (Ipv4 93 184 216 34), sa_port = 0\<rparr> \<longleftrightarrow>
   (\<exists>cs. resolve (\<lambda>_ _. Some [\<lparr>sa_ip = V4 (Ipv4 93 184 216 34), sa_port = 0\<rparr>]) default_policy ''example.org'' = Some cs \<and>
      (\<forall>c\<in>set cs. classify_ip default_policy (sa_ip c) = Inr ()) \<and>
      \<lparr>sa_ip = V4 (Ipv4 93 184 216 34), sa_port = 0\<rparr> =
        (case filter (\<lambda>c. is_ipv4 (sa_ip c)) cs of [] \<Rightarrow> hd cs | c # _ \<Rightarrow> c) \<and>
      cs \<noteq> [] \<and> \<lparr>sa_ip = V4 (Ipv4 93 184 216 34), sa_port = 0\<rparr> \<in> set cs)"
  by (rule pinned_answer_all_permitted)

text \<open>
  Under the default policy a URL passes exactly when it parses, its scheme is \<open>https\<close> and its
  host is a domain name of 1 to 253 bytes: no address literal is ever fetched.
\<close>

theorem default_policy_urls:
  "classify_url parse default_policy u = Inr () \<longleftrightarrow>
     (\<exists>r name. parse u = Some r \<and> url_scheme r = ''https'' \<and> url_host r = Some (HostDomain name) \<and>
        name \<noteq> [] \<and> length name \<le> 253)"
  by (auto simp: classify_url_def default_policy_def result_simps not_less split: url_host.splits)
    (metis url_host.exhaust)

end
