(* ===== verification/Acdp_Primitives.thy ===== *)
theory Acdp_Primitives
  imports Acdp_Errors
begin

text \<open>
  Identifiers and enumerations (\<open>crates/acdp-primitives/src/primitives.rs\<close>) and the
  millisecond truncation of \<open>time.rs\<close>. The newtypes around \<open>String\<close> are type synonyms: their
  constructor is public and does not validate, only \<open>parse\<close> does.

  The lemmas characterise what each parser accepts as a shape of the text, and show that the wire
  forms of context types and statuses round-trip.
\<close>

section \<open>Character classes of the identifier grammars\<close>

definition is_lower_hex :: "char \<Rightarrow> bool" where
  "is_lower_hex c \<longleftrightarrow> is_ascii_digit c \<or> in_range CHR ''a'' CHR ''f'' c"

definition is_lowercase_hex :: "string \<Rightarrow> bool" where
  "is_lowercase_hex s \<longleftrightarrow> list_all is_lower_hex s"

definition is_lower_alnum :: "char \<Rightarrow> bool" where
  "is_lower_alnum c \<longleftrightarrow> is_ascii_lowercase c \<or> is_ascii_digit c"

text \<open>\<open>s.chars().next().is_some_and(p)\<close> and \<open>s.chars().last().is_some_and(p)\<close>.\<close>

definition first_is :: "(char \<Rightarrow> bool) \<Rightarrow> string \<Rightarrow> bool" where
  "first_is p s = (case s of [] \<Rightarrow> False | c # _ \<Rightarrow> p c)"

definition last_is :: "(char \<Rightarrow> bool) \<Rightarrow> string \<Rightarrow> bool" where
  "last_is p s = first_is p (rev s)"

definition is_valid_dns_label :: "string \<Rightarrow> bool" where
  "is_valid_dns_label label \<longleftrightarrow>
     label \<noteq> [] \<and> length label \<le> 63 \<and> first_is is_lower_alnum label \<and> last_is is_lower_alnum label \<and>
     list_all (\<lambda>c. is_lower_alnum c \<or> c = CHR ''-'') label"

definition is_valid_dns_authority :: "string \<Rightarrow> bool" where
  "is_valid_dns_authority s \<longleftrightarrow>
     \<not> (s = [] \<or> 253 < length s) \<and> list_all is_valid_dns_label (split_on CHR ''.'' s)"

definition is_valid_uuid_v4 :: "string \<Rightarrow> bool" where
  "is_valid_uuid_v4 s =
     (if length s \<noteq> 36 then False
      else if \<not> list_all (\<lambda>(i, b). if i \<in> {8, 13, 18, 23} then b = CHR ''-'' else is_lower_hex b)
                   (enumerate 0 s) then False
      else s ! 14 = CHR ''4'' \<and> s ! 19 \<in> set ''89ab'')"

section \<open>Identifiers\<close>

type_synonym ctx_id = string
type_synonym lineage_id = string
type_synonym content_hash = string
type_synonym agent_did = string

definition ctx_id_authority :: "ctx_id \<Rightarrow> string" where
  "ctx_id_authority c =
     (case strip_prefix ''acdp://'' c of None \<Rightarrow> [] | Some s \<Rightarrow> hd (split_on CHR ''/'' s))"

definition ctx_id_parse :: "string \<Rightarrow> ctx_id acdp_result" where
  "ctx_id_parse s =
     rbind (ok_or (strip_prefix ''acdp://'' s) SchemaViolation) (\<lambda>rest.
     rbind (ok_or (split_once CHR ''/'' rest) SchemaViolation) (\<lambda>(authority, uuid_str).
     rbind (require (is_valid_dns_authority authority) SchemaViolation) (\<lambda>_.
     rbind (require (is_valid_uuid_v4 uuid_str) SchemaViolation) (\<lambda>_. Inr s))))"

definition hex_id_parse :: "string \<Rightarrow> string \<Rightarrow> string acdp_result" where
  "hex_id_parse prefix s =
     rbind (ok_or (strip_prefix prefix s) SchemaViolation) (\<lambda>hex.
     rbind (require (\<not> (length hex \<noteq> 64 \<or> \<not> is_lowercase_hex hex)) SchemaViolation) (\<lambda>_. Inr s))"

definition lineage_id_parse :: "string \<Rightarrow> lineage_id acdp_result" where
  "lineage_id_parse s = hex_id_parse ''lin:sha256:'' s"

definition content_hash_parse :: "string \<Rightarrow> content_hash acdp_result" where
  "content_hash_parse s = hex_id_parse ''sha256:'' s"

definition agent_did_parse :: "string \<Rightarrow> agent_did acdp_result" where
  "agent_did_parse s =
     rbind (require (\<not> (length s < 7 \<or> 2048 < length s)) SchemaViolation) (\<lambda>_.
     rbind (ok_or (strip_prefix ''did:'' s) SchemaViolation) (\<lambda>rest.
     rbind (ok_or (split_once CHR '':'' rest) SchemaViolation) (\<lambda>(did_method, id).
     rbind (require (\<not> (did_method = [] \<or> \<not> list_all is_lower_alnum did_method)) SchemaViolation) (\<lambda>_.
     rbind (require (\<not> (id = [] \<or>
              \<not> list_all (\<lambda>c. is_ascii_alphanumeric c \<or> c \<in> set ''._:%-'') id)) SchemaViolation) (\<lambda>_.
     Inr s)))))"

definition agent_did_parse_web :: "string \<Rightarrow> agent_did acdp_result" where
  "agent_did_parse_web s =
     rbind (agent_did_parse s) (\<lambda>parsed.
     rbind (require (starts_with ''did:web:'' parsed) SchemaViolation) (\<lambda>_. Inr parsed))"

section \<open>Enumerations\<close>

datatype visibility = Public | Restricted | Private

datatype context_type =
    DataSnapshot | Analysis | Prediction | Alert | KeyRevocation | Custom string

definition KEY_REVOCATION_INTERIM :: string where
  "KEY_REVOCATION_INTERIM = ''acdp:key-revocation''"

fun is_key_revocation :: "context_type \<Rightarrow> bool" where
  "is_key_revocation KeyRevocation = True"
| "is_key_revocation (Custom s) = (s = KEY_REVOCATION_INTERIM)"
| "is_key_revocation _ = False"

fun context_type_serialize :: "context_type \<Rightarrow> string" where
  "context_type_serialize DataSnapshot = ''data_snapshot''"
| "context_type_serialize Analysis = ''analysis''"
| "context_type_serialize Prediction = ''prediction''"
| "context_type_serialize Alert = ''alert''"
| "context_type_serialize KeyRevocation = ''key-revocation''"
| "context_type_serialize (Custom s) = s"

definition is_namespaced_context_type :: "string \<Rightarrow> bool" where
  "is_namespaced_context_type s =
     (case split_once CHR '':'' s of
        None \<Rightarrow> False
      | Some (ns, name) \<Rightarrow>
          (if ns = [] \<or> \<not> first_is is_ascii_lowercase ns \<or>
              \<not> list_all (\<lambda>c. is_lower_alnum c \<or> c = CHR ''_'') ns then False
           else if name = [] \<or> \<not> first_is is_ascii_lowercase name \<or>
              \<not> list_all (\<lambda>c. is_lower_alnum c \<or> c \<in> set ''_-'') name then False
           else True))"

definition context_type_deserialize :: "string \<Rightarrow> context_type acdp_result" where
  "context_type_deserialize s =
     (if s = ''data_snapshot'' then Inr DataSnapshot
      else if s = ''analysis'' then Inr Analysis
      else if s = ''prediction'' then Inr Prediction
      else if s = ''alert'' then Inr Alert
      else if s = ''key-revocation'' then Inr KeyRevocation
      else if \<not> is_namespaced_context_type s then Inl Serialization
      else Inr (Custom s))"

datatype status = Active | Superseded | Expired | Retracted | Other string

definition status_pattern_ok :: "string \<Rightarrow> bool" where
  "status_pattern_ok s \<longleftrightarrow>
     s \<noteq> [] \<and> length s \<le> 64 \<and> first_is is_ascii_lowercase s \<and>
     list_all (\<lambda>c. is_lower_alnum c \<or> c = CHR ''_'') s"

fun status_as_str :: "status \<Rightarrow> string" where
  "status_as_str Active = ''active''"
| "status_as_str Superseded = ''superseded''"
| "status_as_str Expired = ''expired''"
| "status_as_str Retracted = ''retracted''"
| "status_as_str (Other s) = s"

definition status_parse :: "string \<Rightarrow> status acdp_result" where
  "status_parse s =
     (if s = ''active'' then Inr Active
      else if s = ''superseded'' then Inr Superseded
      else if s = ''expired'' then Inr Expired
      else if s = ''retracted'' then Inr Retracted
      else if \<not> status_pattern_ok s then Inl SchemaViolation
      else Inr (Other s))"

fun known_or_active :: "status \<Rightarrow> status" where
  "known_or_active (Other _) = Active"
| "known_or_active s = s"

section \<open>Timestamps\<close>

text \<open>\<open>timestamp_millis\<close> is the floor of the instant in milliseconds.\<close>

definition timestamp_millis :: "instant \<Rightarrow> int" where
  "timestamp_millis dt = dt div 1000000"

definition trunc_ms :: "instant \<Rightarrow> instant" where
  "trunc_ms dt = timestamp_millis dt * 1000000"

lemma trunc_ms_idem [simp]: "trunc_ms (trunc_ms dt) = trunc_ms dt"
  by (simp add: trunc_ms_def timestamp_millis_def)

lemma trunc_ms_le: "trunc_ms dt \<le> dt"
  using minus_mod_eq_div_mult[of dt 1000000] pos_mod_sign[of 1000000 dt]
  by (simp add: trunc_ms_def timestamp_millis_def)

lemma trunc_ms_mono: "a \<le> b \<Longrightarrow> trunc_ms a \<le> trunc_ms b"
  by (simp add: trunc_ms_def timestamp_millis_def zdiv_mono1)

section \<open>What the parsers accept\<close>

lemma first_is_Cons [simp]: "first_is p (c # s) = p c"
  by (simp add: first_is_def)

lemma split_on_chars: "list_all (list_all P) (split_on c s) \<longleftrightarrow> list_all (\<lambda>x. x = c \<or> P x) s"
proof (induction s)
  case (Cons x xs)
  then show ?case by (cases "split_on c xs") auto
qed simp

lemma dns_authority_chars:
  assumes "is_valid_dns_authority s"
  shows "list_all (\<lambda>c. c = CHR ''.'' \<or> is_lower_alnum c \<or> c = CHR ''-'') s"
proof -
  have "list_all (list_all (\<lambda>c. is_lower_alnum c \<or> c = CHR ''-'')) (split_on CHR ''.'' s)"
    using assms by (auto simp: is_valid_dns_authority_def is_valid_dns_label_def list_all_iff)
  then show ?thesis by (simp add: split_on_chars)
qed

lemma dns_authority_no_slash: "is_valid_dns_authority s \<Longrightarrow> CHR ''/'' \<notin> set s"
proof
  assume "is_valid_dns_authority s" "CHR ''/'' \<in> set s"
  then have "CHR ''/'' = CHR ''.'' \<or> is_lower_alnum CHR ''/'' \<or> CHR ''/'' = CHR ''-''"
    using dns_authority_chars[of s] unfolding list_all_iff by blast
  then show False by (simp add: is_lower_alnum_def)
qed

lemma list_all_enumerate_append:
  "list_all P (enumerate n (xs @ ys)) \<longleftrightarrow>
     list_all P (enumerate n xs) \<and> list_all P (enumerate (n + length xs) ys)"
  by (simp add: enumerate_append_eq)

lemma list_all_enumerate_hex:
  "(\<And>i. n \<le> i \<Longrightarrow> i < n + length g \<Longrightarrow> i \<notin> S) \<Longrightarrow>
   list_all (\<lambda>(i, b). if i \<in> S then Q b else is_lower_hex b) (enumerate n g) \<longleftrightarrow> is_lowercase_hex g"
proof (induction g arbitrary: n)
  case (Cons b g)
  have "n \<notin> S" using Cons.prems[of n] by simp
  moreover have "list_all (\<lambda>(i, b). if i \<in> S then Q b else is_lower_hex b) (enumerate (Suc n) g) \<longleftrightarrow>
      is_lowercase_hex g"
    using Cons.prems by (intro Cons.IH) simp
  ultimately show ?case by (simp add: is_lowercase_hex_def)
qed (simp add: is_lowercase_hex_def)

lemma uuid_v4_groups:
  assumes len: "length a = 8" "length b = 4" "length c = 4" "length d = 4" "length e = 12"
  shows "is_valid_uuid_v4 (a @ [u] @ b @ [v] @ c @ [w] @ d @ [x] @ e) \<longleftrightarrow>
    u = CHR ''-'' \<and> v = CHR ''-'' \<and> w = CHR ''-'' \<and> x = CHR ''-'' \<and>
    list_all is_lowercase_hex [a, b, c, d, e] \<and> hd c = CHR ''4'' \<and> hd d \<in> set ''89ab''"
proof -
  have "c \<noteq> []" "d \<noteq> []" using len by auto
  then have hd: "c ! 0 = hd c" "d ! 0 = hd d" by (simp_all add: hd_conv_nth)
  define S :: "nat set" where "S = {8, 13, 18, 23}"
  let ?all = "list_all (\<lambda>(i, b). if i \<in> S then b = CHR ''-'' else is_lower_hex b)"
  have group: "?all (enumerate n g) \<longleftrightarrow> is_lowercase_hex g"
    if "\<forall>i. n \<le> i \<and> i < n + length g \<longrightarrow> i \<notin> S" for n g
    using that by (intro list_all_enumerate_hex) simp
  have groups: "?all (enumerate 0 a) \<longleftrightarrow> is_lowercase_hex a" "?all (enumerate 9 b) \<longleftrightarrow> is_lowercase_hex b"
    "?all (enumerate 14 c) \<longleftrightarrow> is_lowercase_hex c" "?all (enumerate 19 d) \<longleftrightarrow> is_lowercase_hex d"
    "?all (enumerate 24 e) \<longleftrightarrow> is_lowercase_hex e"
    by (rule group, simp add: len S_def)+
  have S: "8 \<in> S" "13 \<in> S" "18 \<in> S" "23 \<in> S" by (simp_all add: S_def)
  show ?thesis
    using len unfolding is_valid_uuid_v4_def S_def[symmetric]
    by (simp add: list_all_enumerate_append groups S nth_append hd) blast
qed

lemma split_at:
  assumes "length s = n + 1 + k"
  shows "\<exists>l c r. s = l @ [c] @ r \<and> length l = n \<and> length r = k"
proof (intro exI conjI)
  show "s = take n s @ [s ! n] @ drop (Suc n) s" using assms id_take_nth_drop[of n s] by simp
qed (use assms in auto)

lemma uuid_v4_iff:
  "is_valid_uuid_v4 s \<longleftrightarrow> (\<exists>a b c d e.
     s = a @ ''-'' @ b @ ''-'' @ c @ ''-'' @ d @ ''-'' @ e \<and>
     length a = 8 \<and> length b = 4 \<and> length c = 4 \<and> length d = 4 \<and> length e = 12 \<and>
     list_all is_lowercase_hex [a, b, c, d, e] \<and> hd c = CHR ''4'' \<and> hd d \<in> set ''89ab'')"
    (is "?L \<longleftrightarrow> ?R")
proof
  assume valid: ?L
  then have "length s = 36" by (simp add: is_valid_uuid_v4_def split: if_splits)
  then obtain a u s1 where 1: "s = a @ [u] @ s1" "length a = 8" "length s1 = 27"
    using split_at[of s 8 27] that by auto
  then obtain b v s2 where 2: "s1 = b @ [v] @ s2" "length b = 4" "length s2 = 22"
    using split_at[of s1 4 22] that by auto
  then obtain c w s3 where 3: "s2 = c @ [w] @ s3" "length c = 4" "length s3 = 17"
    using split_at[of s2 4 17] that by auto
  then obtain d x e where 4: "s3 = d @ [x] @ e" "length d = 4" "length e = 12"
    using split_at[of s3 4 12] that by auto
  have s: "s = a @ [u] @ b @ [v] @ c @ [w] @ d @ [x] @ e" using 1 2 3 4 by simp
  show ?R
    using valid uuid_v4_groups[OF 1(2) 2(2) 3(2) 4(2,3), of u v w x] 1(2) 2(2) 3(2) 4(2,3)
    unfolding s by blast
next
  assume ?R
  then show ?L using uuid_v4_groups by force
qed

lemma ctx_id_authority_append:
  assumes "CHR ''/'' \<notin> set a"
  shows "ctx_id_authority (''acdp://'' @ a @ CHR ''/'' # u) = a"
proof -
  have "takeWhile (\<lambda>x. x \<noteq> CHR ''/'') (a @ CHR ''/'' # u) = a"
    using assms by (subst takeWhile_append2) auto
  then show ?thesis unfolding ctx_id_authority_def by (simp only: strip_prefix_append option.case hd_split_on)
qed

lemma ctx_id_parse_parts:
  "ctx_id_parse s = Inr t \<longleftrightarrow> t = s \<and> (\<exists>a u. s = ''acdp://'' @ a @ CHR ''/'' # u \<and>
     is_valid_dns_authority a \<and> is_valid_uuid_v4 u)"
proof -
  have "ctx_id_parse s = Inr t \<longleftrightarrow> t = s \<and> (\<exists>rest a u. s = ''acdp://'' @ rest \<and>
      rest = a @ CHR ''/'' # u \<and> CHR ''/'' \<notin> set a \<and> is_valid_dns_authority a \<and> is_valid_uuid_v4 u)"
    unfolding ctx_id_parse_def
    by (simp add: result_simps strip_prefix_Some split_once_Some split_paired_Ex del: append.simps) blast
  then show ?thesis using dns_authority_no_slash by blast
qed

text \<open>
  \<open>CtxId::parse\<close> accepts exactly the texts \<open>acdp://<authority>/<uuid>\<close> with a lowercase DNS
  authority and a lowercase version-4, variant-1 UUID in 8-4-4-4-12 form, returns the text
  unchanged, and \<open>authority()\<close> of the result is that authority, so an accepted identifier names
  one registry only.
\<close>

theorem ctx_id_parse_iff:
  "ctx_id_parse s = Inr t \<longleftrightarrow> t = s \<and>
     (\<exists>uuid a b c d e.
        s = ''acdp://'' @ ctx_id_authority s @ ''/'' @ uuid \<and>
        is_valid_dns_authority (ctx_id_authority s) \<and>
        uuid = a @ ''-'' @ b @ ''-'' @ c @ ''-'' @ d @ ''-'' @ e \<and>
        length a = 8 \<and> length b = 4 \<and> length c = 4 \<and> length d = 4 \<and> length e = 12 \<and>
        list_all is_lowercase_hex [a, b, c, d, e] \<and> hd c = CHR ''4'' \<and> hd d \<in> set ''89ab'')"
proof -
  have "ctx_id_parse s = Inr t \<longleftrightarrow> t = s \<and> (\<exists>u. s = ''acdp://'' @ ctx_id_authority s @ CHR ''/'' # u \<and>
      is_valid_dns_authority (ctx_id_authority s) \<and> is_valid_uuid_v4 u)"
    unfolding ctx_id_parse_parts using ctx_id_authority_append dns_authority_no_slash by metis
  then show ?thesis by (simp add: uuid_v4_iff)
qed

lemma namespaced_has_colon: "is_namespaced_context_type s \<Longrightarrow> CHR '':'' \<in> set s"
  using split_once_None[of "CHR '':''" s] by (auto simp: is_namespaced_context_type_def split: option.splits)

text \<open>
  The wire form of context types round-trips both ways: a text deserializes to a type exactly
  when the type serializes to that text and, if it is a custom type, its name is namespaced; so
  distinct types have distinct wire forms and no custom type shadows a standard one.
\<close>

theorem context_type_roundtrip:
  "context_type_deserialize s = Inr t \<longleftrightarrow>
     context_type_serialize t = s \<and> (\<forall>c. t = Custom c \<longrightarrow> is_namespaced_context_type c)"
proof -
  have std: "\<not> is_namespaced_context_type c"
    if "c \<in> {''data_snapshot'', ''analysis'', ''prediction'', ''alert'', ''key-revocation''}" for c
    using that namespaced_has_colon[of c] by auto
  show ?thesis
    using std by (cases t) (auto simp: context_type_deserialize_def)
qed

lemma context_type_roundtrip_witness:
  "context_type_deserialize ''finance:portfolio'' = Inr (Custom ''finance:portfolio'') \<longleftrightarrow>
     context_type_serialize (Custom ''finance:portfolio'') = ''finance:portfolio'' \<and>
     (\<forall>c. Custom ''finance:portfolio'' = Custom c \<longrightarrow> is_namespaced_context_type c)"
  by (rule context_type_roundtrip)

text \<open>
  Statuses round-trip: a text parses to a status exactly when it is the status's wire form and,
  for an unknown status, the text matches the open-enum pattern and is none of the four known
  names; every parsed status is therefore read back from its own rendering.
\<close>

theorem status_roundtrip:
  "status_parse s = Inr st \<longleftrightarrow>
     status_as_str st = s \<and>
     (case st of Other x \<Rightarrow> status_pattern_ok x \<and> x \<notin> status_as_str ` {Active, Superseded, Expired, Retracted}
      | _ \<Rightarrow> True)"
  by (cases st) (auto simp: status_parse_def)

end
