(* ===== verification/Acdp_Types.thy ===== *)
theory Acdp_Types
  imports Acdp_Primitives Acdp_Jcs
begin

text \<open>
  The wire types of \<open>crates/acdp-types/src\<close>: data references, publish requests and responses, stored
  bodies, registry state, full contexts and lifecycle events, with the operations defined on them.
  A \<open>serde_json::Map\<close> of unknown members is the list of its members.

  Receipts are opaque JSON values here, as they are in \<open>FullContext\<close>.
\<close>

type_synonym json_map = "(string \<times> json) list"

section \<open>Data references\<close>

datatype data_ref_type = PrimaryResult | RawData | SupportingInfo | DerivedData

datatype location = Uri string | Structured json_map

datatype embedded_encoding = EncJson | EncUtf8 | EncBase64

record embedded_content =
  em_encoding :: embedded_encoding
  em_content :: json
  em_content_hash :: "content_hash option"

record data_ref =
  dr_ref_type :: data_ref_type
  dr_description :: "string option"
  dr_size_bytes :: "u64 option"
  dr_format :: "string option"
  dr_schema_version :: "string option"
  dr_content_hash :: "content_hash option"
  dr_location :: "location option"
  dr_embedded :: "embedded_content option"
  dr_extensions :: json_map

definition is_dotted_namespace_scheme :: "string \<Rightarrow> bool" where
  "is_dotted_namespace_scheme s =
     (let parts = split_on CHR ''.'' s in
      if length parts < 2 then False
      else list_all (\<lambda>part. part \<noteq> [] \<and> first_is is_ascii_lowercase part \<and>
             list_all (\<lambda>c. is_lower_alnum c \<or> c = CHR ''-'') part) parts)"

section \<open>Publish requests and bodies\<close>

record signature =
  sig_algorithm :: string
  sig_key_id :: string
  sig_value :: string

record data_period =
  dp_start :: instant
  dp_end :: instant

record anchor_entry =
  an_scheme :: string
  an_content_hash :: content_hash
  an_uri :: "string option"
  an_extensions :: json_map

record key_attestation_ref =
  ka_ctx_id :: ctx_id
  ka_content_hash :: content_hash

record publish_request =
  pr_version :: u32
  pr_supersedes :: "ctx_id option"
  pr_agent_id :: agent_did
  pr_contributors :: "agent_did list"
  pr_title :: string
  pr_context_type :: context_type
  pr_data_refs :: "data_ref list"
  pr_derived_from :: "ctx_id list"
  pr_visibility :: visibility
  pr_content_hash :: content_hash
  pr_signature :: signature
  pr_audience :: "agent_did list option"
  pr_acdp_version :: "string option"
  pr_description :: "string option"
  pr_summary :: "string option"
  pr_lineage_id :: "lineage_id option"
  pr_tags :: "string list option"
  pr_domain :: "string option"
  pr_expires_at :: "instant option"
  pr_data_period :: "data_period option"
  pr_metadata :: "json option"
  pr_schema_uri :: "string option"
  pr_anchors :: "anchor_entry list option"
  pr_key_attestation :: "key_attestation_ref option"

record body =
  b_ctx_id :: ctx_id
  b_lineage_id :: lineage_id
  b_origin_registry :: string
  b_created_at :: instant
  b_content_hash :: content_hash
  b_signature :: signature
  b_version :: u32
  b_supersedes :: "ctx_id option"
  b_agent_id :: agent_did
  b_contributors :: "agent_did list"
  b_title :: string
  b_context_type :: context_type
  b_data_refs :: "data_ref list"
  b_derived_from :: "ctx_id list"
  b_visibility :: visibility
  b_audience :: "agent_did list option"
  b_acdp_version :: "string option"
  b_description :: "string option"
  b_summary :: "string option"
  b_tags :: "string list option"
  b_domain :: "string option"
  b_expires_at :: "instant option"
  b_data_period :: "data_period option"
  b_metadata :: "json option"
  b_schema_uri :: "string option"
  b_anchors :: "anchor_entry list option"
  b_extensions :: json_map

definition KEY_ATTESTATION_FIELD :: string where
  "KEY_ATTESTATION_FIELD = ''key_attestation''"

text \<open>\<open>serde_json::json!(r)\<close> of the attestation reference.\<close>

definition key_attestation_json :: "key_attestation_ref \<Rightarrow> json" where
  "key_attestation_json r =
     JObject [(''ctx_id'', JString (ka_ctx_id r)), (''content_hash'', JString (ka_content_hash r))]"

definition key_attestation_validate :: "key_attestation_ref \<Rightarrow> unit acdp_result" where
  "key_attestation_validate r =
     rbind (ctx_id_parse (ka_ctx_id r)) (\<lambda>_. rbind (content_hash_parse (ka_content_hash r)) (\<lambda>_. Inr ()))"

definition from_publish_request ::
  "publish_request \<Rightarrow> ctx_id \<Rightarrow> lineage_id \<Rightarrow> string \<Rightarrow> instant \<Rightarrow> body" where
  "from_publish_request req ctx lineage origin_registry created_at =
     \<lparr>b_ctx_id = ctx, b_lineage_id = lineage, b_origin_registry = origin_registry,
      b_created_at = trunc_ms created_at,
      b_content_hash = pr_content_hash req, b_signature = pr_signature req,
      b_version = pr_version req, b_supersedes = pr_supersedes req, b_agent_id = pr_agent_id req,
      b_contributors = pr_contributors req, b_title = pr_title req,
      b_context_type = pr_context_type req, b_data_refs = pr_data_refs req,
      b_derived_from = pr_derived_from req, b_visibility = pr_visibility req,
      b_audience = pr_audience req, b_acdp_version = pr_acdp_version req,
      b_description = pr_description req, b_summary = pr_summary req, b_tags = pr_tags req,
      b_domain = pr_domain req, b_expires_at = pr_expires_at req,
      b_data_period = pr_data_period req, b_metadata = pr_metadata req,
      b_schema_uri = pr_schema_uri req, b_anchors = pr_anchors req,
      b_extensions = (case pr_key_attestation req of
          None \<Rightarrow> [] | Some r \<Rightarrow> [(KEY_ATTESTATION_FIELD, key_attestation_json r)])\<rparr>"

record publish_response =
  resp_ctx_id :: ctx_id
  resp_lineage_id :: lineage_id
  resp_version :: u32
  resp_created_at :: instant
  resp_status :: status
  resp_registry_receipt :: "json option"

section \<open>Lifecycle events\<close>

definition MAX_REASON_CHARS :: nat where
  "MAX_REASON_CHARS = 1024"

datatype lifecycle_event_type = EvRetracted | EvRepublished | EvOther string

fun event_type_as_str :: "lifecycle_event_type \<Rightarrow> string" where
  "event_type_as_str EvRetracted = ''retracted''"
| "event_type_as_str EvRepublished = ''republished''"
| "event_type_as_str (EvOther s) = s"

text \<open>\<open>LifecycleEventType::pattern_ok\<close> has the body of \<open>Status::pattern_ok\<close>.\<close>

definition event_type_pattern_ok :: "string \<Rightarrow> bool" where
  "event_type_pattern_ok s \<longleftrightarrow>
     s \<noteq> [] \<and> length s \<le> 64 \<and> first_is is_ascii_lowercase s \<and>
     list_all (\<lambda>c. is_lower_alnum c \<or> c = CHR ''_'') s"

definition event_type_parse :: "string \<Rightarrow> lifecycle_event_type acdp_result" where
  "event_type_parse s =
     (if s = ''retracted'' then Inr EvRetracted
      else if s = ''republished'' then Inr EvRepublished
      else if \<not> event_type_pattern_ok s then Inl SchemaViolation
      else Inr (EvOther s))"

fun event_type_is_registered :: "lifecycle_event_type \<Rightarrow> bool" where
  "event_type_is_registered EvRetracted = True"
| "event_type_is_registered EvRepublished = True"
| "event_type_is_registered (EvOther _) = False"

record lifecycle_event =
  le_event_id :: string
  le_ctx_id :: ctx_id
  le_event_type :: lifecycle_event_type
  le_occurred_at :: instant
  le_actor :: agent_did
  le_reason :: "string option"
  le_signature :: "signature option"

definition is_canonical_uuid :: "string \<Rightarrow> bool" where
  "is_canonical_uuid s =
     (if length s \<noteq> 36 then False
      else list_all (\<lambda>(i, c). if i \<in> {8, 13, 18, 23} then c = CHR ''-'' else is_lower_hex c) (enumerate 0 s))"

text \<open>\<open>chars().count()\<close>: the bytes of a UTF-8 text that start a character.\<close>

definition char_count :: "string \<Rightarrow> nat" where
  "char_count s = length (filter (\<lambda>c. \<not> ((of_char c :: nat) div 64 = 2)) s)"

definition lifecycle_event_validate :: "lifecycle_event \<Rightarrow> unit acdp_result" where
  "lifecycle_event_validate e =
     rbind (require (is_canonical_uuid (le_event_id e)) SchemaViolation) (\<lambda>_.
     rbind (ctx_id_parse (le_ctx_id e)) (\<lambda>_.
     rbind (agent_did_parse (le_actor e)) (\<lambda>_.
     case le_reason e of
       None \<Rightarrow> Inr ()
     | Some reason \<Rightarrow> require (\<not> MAX_REASON_CHARS < char_count reason) SchemaViolation)))"

definition lifecycle_event_new ::
  "string \<Rightarrow> ctx_id \<Rightarrow> lifecycle_event_type \<Rightarrow> instant \<Rightarrow> agent_did \<Rightarrow> string option \<Rightarrow>
     lifecycle_event acdp_result" where
  "lifecycle_event_new event_id ctx event_type occurred_at actor reason =
     (let event = \<lparr>le_event_id = event_id, le_ctx_id = ctx, le_event_type = event_type,
                   le_occurred_at = trunc_ms occurred_at, le_actor = actor, le_reason = reason,
                   le_signature = None\<rparr>
      in rbind (lifecycle_event_validate event) (\<lambda>_. Inr event))"

text \<open>The key id is \<open><actor>#<fragment>\<close> with a non-empty fragment.\<close>

definition key_id_under :: "agent_did \<Rightarrow> string \<Rightarrow> bool" where
  "key_id_under actor key_id =
     (case split_once CHR ''#'' key_id of
        Some (did, frag) \<Rightarrow> did = actor \<and> frag \<noteq> []
      | None \<Rightarrow> False)"

definition actor_bound_signature :: "lifecycle_event \<Rightarrow> signature acdp_result" where
  "actor_bound_signature e =
     rbind (ok_or (le_signature e) SchemaViolation) (\<lambda>s.
     if key_id_under (le_actor e) (sig_key_id s) then Inr s else Inl InvalidSignature)"

fun retraction_effect :: "lifecycle_event_type \<Rightarrow> bool option" where
  "retraction_effect EvRetracted = Some True"
| "retraction_effect EvRepublished = Some False"
| "retraction_effect (EvOther _) = None"

definition retraction_state :: "lifecycle_event list \<Rightarrow> bool" where
  "retraction_state events =
     (case List.map_filter (\<lambda>e. retraction_effect (le_event_type e)) (rev events) of
        [] \<Rightarrow> False | b # _ \<Rightarrow> b)"

section \<open>Registry state and full contexts\<close>

record registry_state =
  rs_status :: status
  rs_lifecycle_events :: "lifecycle_event list option"
  rs_event_receipts :: "json list option"
  rs_extensions :: json_map

definition is_retracted :: "registry_state \<Rightarrow> bool" where
  "is_retracted s = (case rs_lifecycle_events s of None \<Rightarrow> False | Some es \<Rightarrow> retraction_state es)"

definition retraction :: "registry_state \<Rightarrow> bool \<Rightarrow> bool option" where
  "retraction s registry_advertises_lifecycle =
     (if rs_status s = Retracted then Some True
      else case rs_lifecycle_events s of
        Some _ \<Rightarrow> Some (is_retracted s)
      | None \<Rightarrow> (if registry_advertises_lifecycle then Some False else None))"

record full_context =
  fc_body :: body
  fc_registry_state :: registry_state
  fc_registry_receipt :: "json option"
  fc_lineage_head_receipt :: "json option"
  fc_log_inclusion :: "json option"
  fc_extensions :: json_map
  fc_raw_body :: "json option"

section \<open>Search\<close>

record search_params =
  sp_q :: "string option"
  sp_context_type :: "string option"
  sp_domain :: "string option"
  sp_tags :: "string option"
  sp_agent_id :: "string option"
  sp_schema_uri :: "string option"
  sp_derived_from :: "string option"
  sp_created_after :: "string option"
  sp_created_before :: "string option"
  sp_data_period_start_after :: "string option"
  sp_data_period_end_before :: "string option"
  sp_expires_after :: "string option"
  sp_expires_before :: "string option"
  sp_status :: "string option"
  sp_limit :: "u32 option"
  sp_cursor :: "string option"

record search_result =
  sres_ctx_id :: ctx_id
  sres_lineage_id :: lineage_id
  sres_agent_id :: agent_did
  sres_title :: string
  sres_summary :: "string option"
  sres_context_type :: context_type
  sres_domain :: "string option"
  sres_created_at :: instant
  sres_status :: status
  sres_visibility :: "visibility option"

record search_response =
  sresp_matches :: "search_result list"
  sresp_total_estimate :: "u64 option"
  sresp_next_cursor :: "string option"

section \<open>Retraction state\<close>

lemma retraction_state_Nil [simp]: "retraction_state [] = False"
  by (simp add: retraction_state_def map_filter_simps)

lemma retraction_state_snoc [simp]:
  "retraction_state (es @ [e]) =
     (case retraction_effect (le_event_type e) of None \<Rightarrow> retraction_state es | Some b \<Rightarrow> b)"
  by (simp add: retraction_state_def map_filter_simps split: option.split)

end
