(* ===== verification/Acdp_Jcs_Numbers.thy ===== *)
theory Acdp_Jcs_Numbers
  imports Acdp_Jcs_Correct
begin

text \<open>
  What the numerals of the canonicalizer mean (\<open>crates/acdp-jcs/src/lib.rs\<close>, \<open>write_number\<close> and
  \<open>ecma_number_string\<close>). \<open>txt_value\<close> reads a JSON numeral as a real number, by the rules of the
  JSON grammar and independently of the printer; every output band of the printer is shown to
  have the value of its digits, the printed numeral of an integer is unique, and so two numbers
  are printed alike exactly when they are the same number.
\<close>

section \<open>Reading a numeral\<close>

fun dval :: "string \<Rightarrow> nat" where
  "dval [] = 0"
| "dval (c # s) = digit_value c * 10 ^ length s + dval s"

definition mantissa_part :: "string \<Rightarrow> string" where
  "mantissa_part s = takeWhile (\<lambda>c. c \<noteq> CHR ''e'') s"

definition exponent_part :: "string \<Rightarrow> int" where
  "exponent_part s =
     (case dropWhile (\<lambda>c. c \<noteq> CHR ''e'') s of
        _ # sg # t \<Rightarrow> (if sg = CHR ''-'' then - int (dval t) else int (dval t))
      | _ \<Rightarrow> 0)"

definition fraction_digits :: "string \<Rightarrow> string" where
  "fraction_digits s = drop 1 (dropWhile (\<lambda>c. c \<noteq> CHR ''.'') s)"

text \<open>The value of an unsigned JSON numeral: digits, an optional point, an optional signed exponent.\<close>

definition txt_value :: "string \<Rightarrow> real" where
  "txt_value s =
     real (dval (filter (\<lambda>c. c \<noteq> CHR ''.'') (mantissa_part s))) *
     10 powi (exponent_part s - int (length (fraction_digits (mantissa_part s))))"

lemma foldl_dval: "foldl (\<lambda>acc c. 10 * acc + digit_value c) a s = a * 10 ^ length s + dval s"
  by (induction s arbitrary: a) (simp_all add: algebra_simps)

lemma dval_append: "dval (s @ t) = dval s * 10 ^ length t + dval t"
  by (induction s) (simp_all add: algebra_simps power_add)

lemma digit_value_digit: "n < 10 \<Longrightarrow> digit_value (''0123456789'' ! n) = n"
proof -
  assume "n < 10"
  then have "n \<in> {0, 1, 2, 3, 4, 5, 6, 7, 8, 9}" by auto
  then show ?thesis by (auto simp: digit_value_def)
qed

lemma is_ascii_digit_nth: "is_ascii_digit c \<longleftrightarrow> (\<exists>n<10. c = ''0123456789'' ! n)"
proof
  assume "is_ascii_digit c"
  then have c: "48 \<le> (of_char c :: nat)" "(of_char c :: nat) \<le> 57"
    by (simp_all add: char_class_defs less_eq_char_def)
  define n where "n = (of_char c :: nat) - 48"
  then have n: "n < 10" "of_char c = n + 48" using c by auto
  have "n \<in> {0, 1, 2, 3, 4, 5, 6, 7, 8, 9}" using n(1) by auto
  then have "of_char (''0123456789'' ! n) = n + 48" by auto
  then have "c = ''0123456789'' ! n" using n(2) by (metis of_char_eq_iff)
  then show "\<exists>n<10. c = ''0123456789'' ! n" using n(1) by blast
qed (use digit_chars in auto)

lemma digit_value_less: "is_ascii_digit c \<Longrightarrow> digit_value c < 10"
  by (auto simp: is_ascii_digit_nth digit_value_digit)

lemma digit_value_inj: "is_ascii_digit c \<Longrightarrow> is_ascii_digit d \<Longrightarrow> digit_value c = digit_value d \<longleftrightarrow> c = d"
  by (auto simp: is_ascii_digit_nth digit_value_digit)

lemma digit_value_0 [simp]: "digit_value CHR ''0'' = 0"
  by (simp add: digit_value_def)

lemma dval_less: "\<forall>c\<in>set s. is_ascii_digit c \<Longrightarrow> dval s < 10 ^ length s"
proof (induction s)
  case (Cons c s)
  have "Suc (digit_value c) * 10 ^ length s \<le> 10 * 10 ^ length s"
    using digit_value_less[of c] Cons.prems by (intro mult_le_mono1) simp
  moreover have "dval s < 10 ^ length s" using Cons by simp
  ultimately show ?case unfolding mult_Suc dval.simps list.size add_0_right add_Suc_right power_Suc by linarith
qed simp

lemma dval_zeros [simp]: "dval (replicate n CHR ''0'') = 0"
  by (induction n) simp_all

lemma dval_show_nat [simp]: "dval (show_nat n) = n"
proof (induction n rule: show_nat.induct)
  case (1 n)
  then show ?case
    by (subst show_nat.simps) (auto simp: dval_append digit_value_digit)
qed

text \<open>A numeral without a leading zero is what \<open>show_nat\<close> prints of its value.\<close>

lemma dval_lead: "is_ascii_digit c \<Longrightarrow> c \<noteq> CHR ''0'' \<Longrightarrow> 10 ^ length s \<le> dval (c # s)"
proof -
  assume c: "is_ascii_digit c" "c \<noteq> CHR ''0''"
  then have "digit_value c \<noteq> 0" using digit_value_inj[of c "CHR ''0''"] by simp
  then show ?thesis by (cases "digit_value c") simp_all
qed

lemma show_nat_dval:
  "all_digits s \<Longrightarrow> hd s \<noteq> CHR ''0'' \<Longrightarrow> show_nat (dval s) = s"
proof (induction s rule: rev_induct)
  case (snoc c s)
  have c: "is_ascii_digit c" using snoc.prems by (simp add: all_digits_def)
  obtain n where n: "n < 10" "c = ''0123456789'' ! n" using c is_ascii_digit_nth by blast
  have v: "dval (s @ [c]) = 10 * dval s + n" using n by (simp add: dval_append digit_value_digit)
  show ?case
  proof (cases s)
    case Nil
    then show ?thesis using v n by (subst show_nat.simps) simp
  next
    case (Cons d t)
    then have s: "all_digits s" "hd s \<noteq> CHR ''0''" using snoc.prems by (auto simp: all_digits_def)
    have "1 \<le> (10::nat) ^ length t" by simp
    also have "\<dots> \<le> dval s" using dval_lead[of d t] s Cons by (simp add: all_digits_def)
    finally have "1 \<le> dval s" .
    then show ?thesis using snoc.IH[OF s] v n by (subst show_nat.simps) simp
  qed
qed (simp add: all_digits_def)

section \<open>The value of a printed numeral\<close>

lemma not_digit_mark [simp]:
  "\<not> is_ascii_digit CHR ''e''" "\<not> is_ascii_digit CHR ''.''" "\<not> is_ascii_digit CHR ''-''"
  by (simp_all add: char_class_defs less_eq_char_def)

lemma digits_no_e: "\<forall>c\<in>set s. is_ascii_digit c \<Longrightarrow> CHR ''e'' \<notin> set s"
  using not_digit_mark(1) by blast

lemma takeWhile_digits:
  "\<forall>c\<in>set s. is_ascii_digit c \<Longrightarrow> \<not> is_ascii_digit x \<Longrightarrow> takeWhile (\<lambda>c. c \<noteq> x) s = s"
  by (auto simp: takeWhile_eq_all_conv)

lemma dropWhile_digits:
  "\<forall>c\<in>set s. is_ascii_digit c \<Longrightarrow> \<not> is_ascii_digit x \<Longrightarrow> dropWhile (\<lambda>c. c \<noteq> x) s = []"
  by (auto simp: dropWhile_eq_Nil_conv)

lemma filter_digits:
  "\<forall>c\<in>set s. is_ascii_digit c \<Longrightarrow> \<not> is_ascii_digit x \<Longrightarrow> filter (\<lambda>c. c \<noteq> x) s = s"
  by (auto simp: filter_id_conv)

lemma txt_value_digits: "\<forall>c\<in>set a. is_ascii_digit c \<Longrightarrow> txt_value a = real (dval a)"
  by (simp add: txt_value_def mantissa_part_def exponent_part_def fraction_digits_def
      takeWhile_digits dropWhile_digits filter_digits)

lemma txt_value_point:
  assumes "\<forall>c\<in>set (a @ b). is_ascii_digit c"
  shows "txt_value (a @ ''.'' @ b) = real (dval (a @ b)) * 10 powi (- int (length b))"
proof -
  have e: "\<forall>c\<in>set (a @ ''.'' @ b). c \<noteq> CHR ''e''" using digits_no_e[OF assms] by auto
  then have "takeWhile (\<lambda>c. c \<noteq> CHR ''e'') (a @ ''.'' @ b) = a @ ''.'' @ b"
    "dropWhile (\<lambda>c. c \<noteq> CHR ''e'') (a @ ''.'' @ b) = []"
    by (simp_all only: takeWhile_eq_all_conv dropWhile_eq_Nil_conv)
  moreover have "fraction_digits (a @ ''.'' @ b) = b"
    using assms by (simp add: fraction_digits_def dropWhile_append dropWhile_digits)
  moreover have "filter (\<lambda>c. c \<noteq> CHR ''.'') (a @ ''.'' @ b) = a @ b"
    using assms by (simp add: filter_digits)
  ultimately show ?thesis by (simp only: txt_value_def mantissa_part_def exponent_part_def) simp
qed

lemma txt_value_exponent:
  assumes "\<forall>c\<in>set m. c \<noteq> CHR ''e''"
  shows "txt_value (m @ ''e'' @ [exp_sign i] @ show_nat (nat \<bar>i\<bar>)) = txt_value m * 10 powi i"
proof -
  let ?s = "m @ ''e'' @ [exp_sign i] @ show_nat (nat \<bar>i\<bar>)"
  have cut: "takeWhile (\<lambda>c. c \<noteq> CHR ''e'') m = m" "dropWhile (\<lambda>c. c \<noteq> CHR ''e'') m = []"
    using assms by (simp_all only: takeWhile_eq_all_conv dropWhile_eq_Nil_conv)
  then have m: "mantissa_part m = m" "mantissa_part ?s = m"
    and "dropWhile (\<lambda>c. c \<noteq> CHR ''e'') ?s = CHR ''e'' # exp_sign i # show_nat (nat \<bar>i\<bar>)"
    by (simp_all add: mantissa_part_def dropWhile_append takeWhile_append)
  then have "exponent_part ?s = i" by (simp add: exponent_part_def exp_sign_def)
  moreover have "exponent_part m = 0" unfolding exponent_part_def cut(2) by simp
  ultimately show ?thesis using m by (simp add: txt_value_def power_int_diff power_int_minus field_simps)
qed

text \<open>Each of the five bands denotes \<open>digits * 10^(n - k)\<close>, the value its branch is chosen for.\<close>

lemma txt_value_band:
  assumes "all_digits ds"
  shows "txt_value (ecma_band ds n) = real (dval ds) * 10 powi (n - int (length ds))"
proof -
  let ?k = "int (length ds)"
  have ds: "\<forall>c\<in>set ds. is_ascii_digit c" "ds \<noteq> []" using assms by (auto simp: all_digits_def)
  have e: "\<forall>c\<in>set (take i ds @ ''.'' @ drop i ds). c \<noteq> CHR ''e''" "\<forall>c\<in>set ds. c \<noteq> CHR ''e''" for i
    using digits_no_e[OF ds(1)] by (auto dest: in_set_takeD in_set_dropD)
  have cut: "txt_value (take i ds @ ''.'' @ drop i ds) = real (dval ds) * 10 powi (int i - ?k)"
    if "i \<le> length ds" for i
    using txt_value_point[of "take i ds" "drop i ds"] ds that by (simp add: of_nat_diff)
  consider (int) "?k \<le> n \<and> n \<le> 21" | (mid) "\<not> ?k \<le> n" "1 \<le> n \<and> n \<le> 21"
    | (small) "- 5 \<le> n \<and> n \<le> 0"
    | (exp) "\<not> (?k \<le> n \<and> n \<le> 21)" "\<not> (1 \<le> n \<and> n \<le> 21)" "\<not> (- 5 \<le> n \<and> n \<le> 0)" by linarith
  then show ?thesis
  proof cases
    case int
    then have "(10::real) powi (n - ?k) = 10 ^ nat (n - ?k)" by (simp add: power_int_def)
    moreover have "txt_value (ds @ replicate (nat (n - ?k)) CHR ''0'') = real (dval ds * 10 ^ nat (n - ?k))"
      using ds by (subst txt_value_digits) (auto simp: dval_append)
    ultimately show ?thesis using int by (simp add: ecma_band_def Let_def)
  next
    case mid
    then show ?thesis using cut[of "nat n"] by (simp add: ecma_band_def Let_def)
  next
    case small
    have "txt_value (''0'' @ ''.'' @ (replicate (nat (- n)) CHR ''0'' @ ds)) =
        real (dval ds) * 10 powi (- int (nat (- n) + length ds))"
      using ds by (subst txt_value_point) (auto simp: dval_append)
    moreover have "- int (nat (- n) + length ds) = n - ?k" using small by simp
    ultimately have "txt_value (''0.'' @ replicate (nat (- n)) CHR ''0'' @ ds) = real (dval ds) * 10 powi (n - ?k)"
      by simp
    moreover have "\<not> ?k \<le> n" using small ds by (cases ds) auto
    ultimately show ?thesis using small by (simp add: ecma_band_def Let_def)
  next
    case exp
    have shift: "(10::real) powi (1 - ?k) * 10 powi (n - 1) = 10 powi (n - ?k)"
      by (simp flip: power_int_add)
    show ?thesis
    proof (cases "length ds = 1")
      case True
      then show ?thesis
        using exp txt_value_exponent[OF e(2), of "n - 1"] txt_value_digits[OF ds(1)]
        by (auto simp: ecma_band_def Let_def)
    next
      case False
      have "txt_value (ecma_band ds n) = txt_value (take 1 ds @ ''.'' @ drop 1 ds) * 10 powi (n - 1)"
        using exp False txt_value_exponent[OF e(1), of 1 "n - 1"] by (auto simp: ecma_band_def Let_def)
      also have "\<dots> = real (dval ds) * (10 powi (1 - ?k) * 10 powi (n - 1))"
        using cut[of 1] ds(2) by (simp add: Suc_leI)
      finally show ?thesis by (simp only: shift)
    qed
  qed
qed

section \<open>Significant digits\<close>

text \<open>Digits without a zero at either end, as the printer has them after trimming.\<close>

definition significant :: "string \<Rightarrow> bool" where
  "significant ds \<longleftrightarrow> all_digits ds \<and> hd ds \<noteq> CHR ''0'' \<and> last ds \<noteq> CHR ''0''"

lemma trim_end_zeros_split: "\<exists>k. s = trim_end_zeros s @ replicate k CHR ''0''"
proof -
  let ?z = "\<lambda>c. c = CHR ''0''"
  have "takeWhile ?z (rev s) = replicate (length (takeWhile ?z (rev s))) CHR ''0''"
    by (rule replicate_length_same[symmetric]) (auto dest: set_takeWhileD)
  then have "rev (takeWhile ?z (rev s)) = replicate (length (takeWhile ?z (rev s))) CHR ''0''"
    by (metis rev_replicate)
  moreover have "s = trim_end_zeros s @ rev (takeWhile ?z (rev s))"
    using arg_cong[OF takeWhile_dropWhile_id[of ?z "rev s"], of rev] by (simp add: trim_end_zeros_def flip: rev_append)
  ultimately show ?thesis by metis
qed

lemma last_trim_end_zeros: "trim_end_zeros s \<noteq> [] \<Longrightarrow> last (trim_end_zeros s) \<noteq> CHR ''0''"
  unfolding trim_end_zeros_def by (metis (mono_tags, lifting) hd_dropWhile last_rev rev_is_Nil_conv)

lemma significant_trim:
  assumes "is_ascii_digit d" "d \<noteq> CHR ''0''" "\<forall>c\<in>set ds. is_ascii_digit c"
  defines "t \<equiv> trim_end_zeros (d # ds)"
  shows "significant t" "real (dval (d # ds)) * 10 powi (- int (length ds)) = real (dval t) * 10 powi (1 - int (length t))"
proof -
  obtain k where k: "d # ds = t @ replicate k CHR ''0''" using trim_end_zeros_split t_def by blast
  then have t: "t \<noteq> []" using assms(2) by (cases k) auto
  then have "hd t = d" using k by (metis hd_append2 list.sel(1))
  moreover have "all_digits t" using k assms(1,3) t unfolding all_digits_def by (metis Un_iff set_ConsD set_append)
  moreover have "last t \<noteq> CHR ''0''" using last_trim_end_zeros t unfolding t_def by blast
  ultimately show "significant t" using assms(2) by (simp add: significant_def)
  have "length (d # ds) = length t + k" using k by (metis length_append length_replicate)
  then have len: "- int (length ds) = 1 - int (length t) - int k" by simp
  have "dval (d # ds) = dval t * 10 ^ k" unfolding k by (simp add: dval_append)
  then show "real (dval (d # ds)) * 10 powi (- int (length ds)) = real (dval t) * 10 powi (1 - int (length t))"
    unfolding len by (simp add: power_int_diff)
qed

lemma significant_not_dvd: "significant ds \<Longrightarrow> \<not> 10 dvd dval ds"
proof -
  assume ds: "significant ds"
  then have ne: "ds \<noteq> []" by (simp add: significant_def all_digits_def)
  then have c: "is_ascii_digit (last ds)" using ds by (simp add: significant_def all_digits_def)
  have "dval ds = dval (butlast ds @ [last ds])" using ne by simp
  then have "dval ds mod 10 = digit_value (last ds)"
    using digit_value_less[OF c] by (simp only: dval_append) simp
  moreover have "digit_value (last ds) \<noteq> 0"
    using digit_value_inj[OF c is_ascii_digit_0] ds by (simp add: significant_def)
  ultimately show ?thesis by (simp add: dvd_eq_mod_eq_0)
qed

lemma significant_pos: "significant ds \<Longrightarrow> 10 ^ (length ds - 1) \<le> dval ds"
  using dval_lead[of "hd ds" "tl ds"] by (cases ds) (auto simp: significant_def all_digits_def)

text \<open>When the value is an integer below \<open>10^20\<close> the printed text is that integer's own numeral.\<close>

lemma band_integer:
  assumes ds: "significant ds" and i: "i < 10 ^ 20"
    and eq: "real (dval ds) * 10 powi (n - int (length ds)) = real i"
  shows "ecma_band ds n = show_nat i"
proof -
  let ?k = "int (length ds)"
  have d: "all_digits ds" "hd ds \<noteq> CHR ''0''" "ds \<noteq> []" using ds by (auto simp: significant_def all_digits_def)
  have kn: "?k \<le> n"
  proof (rule ccontr)
    assume "\<not> ?k \<le> n"
    then obtain j where j: "?k - n = int (Suc j)" by (metis add.commute diff_less_eq int_ops(1) linorder_not_le nat_0_le
      nonneg_int_cases not_less_eq_eq of_nat_0_less_iff pos_int_cases gr0_implies_Suc diff_gt_0_iff_gt)
    then have "n - ?k = - int (Suc j)" by linarith
    then have "real (dval ds) = real (i * 10 ^ Suc j)"
      using eq unfolding \<open>n - ?k = - int (Suc j)\<close> power_int_minus power_int_of_nat by (simp add: field_simps)
    then have "dval ds = i * 10 ^ Suc j" by (simp only: of_nat_eq_iff)
    then show False using significant_not_dvd[OF ds] by simp
  qed
  define z where "z = nat (n - ?k)"
  have "(10::real) powi (n - ?k) = 10 ^ z" using kn by (simp add: power_int_def z_def)
  then have "real (dval ds * 10 ^ z) = real i" using eq by simp
  then have iz: "i = dval ds * 10 ^ z" by (simp only: of_nat_eq_iff)
  have "(10::nat) ^ (length ds - 1 + z) = 10 ^ (length ds - 1) * 10 ^ z" by (simp add: power_add)
  also have "\<dots> \<le> i" unfolding iz using significant_pos[OF ds] by (rule mult_le_mono1)
  also have "\<dots> < 10 ^ 20" by (rule i)
  finally have "length ds - 1 + z < 20" by (rule power_less_imp_less_exp[rotated]) simp
  then have n: "n \<le> 21" using kn d(3) by (cases ds) (auto simp: z_def)
  have "show_nat (dval (ds @ replicate z CHR ''0'')) = ds @ replicate z CHR ''0''"
    using d by (intro show_nat_dval) (auto simp: all_digits_def)
  then show ?thesis using kn n iz by (simp add: ecma_band_def Let_def z_def dval_append)
qed

section \<open>Doubles as real numbers\<close>

lemma and_low: "b AND (push_bit n 1 - 1) = take_bit n b" for b :: u64
proof -
  have "push_bit n 1 - 1 = (mask n :: u64)" by (simp add: mask_eq_decr_exp)
  then show ?thesis by (simp only: take_bit_eq_mask)
qed

lemma unat_and_low: "unat (b AND (push_bit n 1 - 1)) = unat b mod 2 ^ n" for b :: u64
  unfolding and_low unsigned_take_bit_eq by (rule take_bit_eq_mod)

lemma unat_biased: "unat (drop_bit 52 b AND 0x7ff) = unat b div 2 ^ 52 mod 2 ^ 11" for b :: u64
proof -
  have "(0x7ff :: u64) = push_bit 11 1 - 1" by simp
  then have "unat (drop_bit 52 b AND 0x7ff) = unat (drop_bit 52 b) mod 2 ^ 11" by (simp only: unat_and_low)
  then show ?thesis unfolding unat_drop_bit_eq by (simp only: drop_bit_eq_div)
qed

lemma low_disjoint: "take_bit n b AND push_bit n 1 = (0 :: u64)"
  by (rule bit_eqI) (auto simp: bit_simps)

lemma f64_parts_nat:
  "f64_parts b =
     (let fr = unat b mod 2 ^ 52; bi = unat b div 2 ^ 52 mod 2 ^ 11
      in if bi = 0 then (fr, - 1074) else (fr + 2 ^ 52, int bi - 1075))"
proof -
  let ?fr = "b AND (push_bit 52 1 - 1)"
  have "?fr AND push_bit 52 1 = 0" unfolding and_low by (rule low_disjoint)
  then have "?fr OR push_bit 52 1 = ?fr + push_bit 52 1" by (rule disjunctive_add_eq_or[symmetric])
  moreover have "unat (?fr + push_bit 52 1) = unat ?fr + 2 ^ 52"
  proof -
    have "unat ?fr < 2 ^ 52" unfolding unat_and_low by (rule mod_less_divisor) simp
    then show ?thesis by (simp add: unat_word_ariths)
  qed
  moreover have "drop_bit 52 b AND 0x7ff = 0 \<longleftrightarrow> unat b div 2 ^ 52 mod 2 ^ 11 = 0"
    by (metis unat_biased unat_eq_0)
  ultimately show ?thesis
    unfolding f64_parts_def Let_def by (simp only: unat_and_low unat_biased)
qed

text \<open>A significand and exponent pair is normalized, so the real value determines it.\<close>

lemma normalized_unique:
  fixes m m' :: nat and q q' :: int
  assumes "real m * 2 powi q = real m' * 2 powi q'" "m < 2 ^ 53" "2 ^ 52 \<le> m' \<or> q' \<le> q"
  shows "q' \<le> q"
proof (rule ccontr)
  assume "\<not> q' \<le> q"
  then obtain j where j: "q' = q + int (Suc j)"
    by (metis add.commute int_ops(1) less_eqE linorder_not_le zless_iff_Suc_zadd)
  have "real m = real (m' * 2 ^ Suc j)"
    using assms(1) unfolding j by (simp add: power_int_add)
  then have "m = m' * 2 ^ Suc j" by (simp only: of_nat_eq_iff)
  moreover have "2 ^ 52 * 2 ^ 1 \<le> m' * 2 ^ Suc j"
    using assms(3) \<open>\<not> q' \<le> q\<close> by (intro mult_le_mono power_increasing) auto
  ultimately show False using assms(2) by simp
qed

lemma unat_f64_abs: "unat (f64_abs b) = unat b mod 2 ^ 63"
  unfolding f64_abs_def by (rule unat_and_low)

lemma f64_parts_abs: "f64_parts (f64_abs b) = f64_parts b"
proof -
  have "n mod 2 ^ 63 mod 2 ^ 52 = n mod 2 ^ 52" for n :: nat by (simp add: mod_mod_cancel)
  moreover have "n mod 2 ^ 63 div 2 ^ 52 mod 2 ^ 11 = n div 2 ^ 52 mod 2 ^ 11" for n :: nat
    using mod_mult2_eq[of n "2 ^ 52" "2 ^ 11"] by simp
  ultimately show ?thesis by (simp only: f64_parts_nat unat_f64_abs)
qed

lemma f64_value_abs [simp]: "f64_value (f64_abs b) = f64_value b"
  by (simp add: f64_value_def f64_parts_abs)

lemma f64_value_inj:
  assumes "f64_value b = f64_value c"
  shows "f64_abs b = f64_abs c"
proof -
  obtain m q m' q' where mq: "f64_parts b = (m, q)" "f64_parts c = (m', q')" by fastforce
  have eq: "real m * 2 powi q = real m' * 2 powi q'" using assms mq by (simp add: f64_value_def)
  have lt: "m < 2 ^ 53" "m' < 2 ^ 53" using f64_parts_bound[of b] f64_parts_bound[of c] mq by simp_all
  have norm: "2 ^ 52 \<le> n \<or> p = - 1074" "- 1074 \<le> p" if "f64_parts x = (n, p)" for x n p
    using that by (auto simp: f64_parts_nat Let_def split: if_splits)
  have "q' \<le> q" using norm[OF mq(2)] norm[OF mq(1)] by (intro normalized_unique[OF eq lt(1)]) auto
  moreover have "q \<le> q'" using norm[OF mq(2)] norm[OF mq(1)] by (intro normalized_unique[OF eq[symmetric] lt(2)]) auto
  ultimately have q: "q = q'" by simp
  then have m: "m = m'" using eq by simp
  have parts: "f64_parts x = (n, p) \<Longrightarrow>
      unat x mod 2 ^ 63 = (if n < 2 ^ 52 then n else n - 2 ^ 52 + 2 ^ 52 * nat (p + 1075))" for x n p
  proof -
    assume x: "f64_parts x = (n, p)"
    have "unat x mod 2 ^ 63 = unat x mod 2 ^ 52 + 2 ^ 52 * (unat x div 2 ^ 52 mod 2 ^ 11)"
      using mod_mult2_eq[of "unat x" "2 ^ 52" "2 ^ 11"] by simp
    then show ?thesis using x by (auto simp: f64_parts_nat Let_def split: if_splits)
  qed
  have "unat (f64_abs b) = unat (f64_abs c)"
    unfolding unat_f64_abs parts[OF mq(1)] parts[OF mq(2)] q m ..
  then show ?thesis by (simp add: word_unat_eq_iff)
qed

section \<open>The standard formatter and the printed number\<close>

text \<open>The decimal that \<open>format!("{:e}", x)\<close> writes.\<close>

definition sci_value :: "(u64 \<Rightarrow> string \<times> int) \<Rightarrow> u64 \<Rightarrow> real" where
  "sci_value sci b = (let (mantissa, e10) = sci b in txt_value mantissa * 10 powi e10)"

definition f64_positive :: "u64 \<Rightarrow> bool" where
  "f64_positive b \<longleftrightarrow> f64_is_finite b \<and> f64_abs b = b \<and> b \<noteq> 0"

text \<open>
  What the standard library documents of \<open>{:e}\<close> on positive finite doubles: one nonzero digit,
  then a point and the remaining digits if there are any; and the text reads back, that is, some
  reader (\<open>str::parse::<f64>\<close>) returns the double from the decimal that was written.
\<close>

definition sci_reads_back :: "(u64 \<Rightarrow> string \<times> int) \<Rightarrow> bool" where
  "sci_reads_back sci \<longleftrightarrow>
     (\<forall>b. f64_positive b \<longrightarrow>
        (\<exists>d ds. fst (sci b) = d # (if ds = [] then [] else ''.'' @ ds) \<and>
           is_ascii_digit d \<and> d \<noteq> CHR ''0'' \<and> (\<forall>c\<in>set ds. is_ascii_digit c))) \<and>
     (\<exists>parse. \<forall>b. f64_positive b \<longrightarrow> parse (sci_value sci b) = b)"

text \<open>
  A double is tied when it lies exactly halfway between the decimal written for it and a
  neighbouring decimal of the same length (\<open>s\<close> has no trailing zero, so \<open>10^e\<close> is its last place).
\<close>

definition tied :: "(u64 \<Rightarrow> string \<times> int) \<Rightarrow> u64 \<Rightarrow> bool" where
  "tied sci b \<longleftrightarrow>
     (\<exists>(s :: nat) e. \<not> 10 dvd s \<and> sci_value sci b = real s * 10 powi e \<and>
        \<bar>f64_value b - sci_value sci b\<bar> = 10 powi e / 2)"

lemma sci_digits:
  assumes "sci_reads_back sci" "f64_positive b"
  defines "t \<equiv> trim_end_zeros (filter (\<lambda>c. c \<noteq> CHR ''.'') (fst (sci b)))"
  shows "significant t" "sci_value sci b = real (dval t) * 10 powi (snd (sci b) + 1 - int (length t))"
proof -
  obtain d ds where f: "fst (sci b) = d # (if ds = [] then [] else ''.'' @ ds)"
    and d: "is_ascii_digit d" "d \<noteq> CHR ''0''" "\<forall>c\<in>set ds. is_ascii_digit c"
    using assms(1,2) unfolding sci_reads_back_def by blast
  have "d \<noteq> CHR ''.''" using d(1) by auto
  then have t: "t = trim_end_zeros (d # ds)" using filter_digits[OF d(3)] by (simp add: t_def f)
  have v: "txt_value (fst (sci b)) = real (dval (d # ds)) * 10 powi (- int (length ds))"
  proof (cases "ds = []")
    case True
    then show ?thesis using txt_value_digits[of "[d]"] d by (simp add: f)
  next
    case False
    then show ?thesis using txt_value_point[of "[d]" ds] d by (simp add: f)
  qed
  show "significant t" unfolding t using d by (rule significant_trim)
  have "sci_value sci b = txt_value (fst (sci b)) * 10 powi snd (sci b)"
    by (simp add: sci_value_def case_prod_unfold Let_def)
  also have "\<dots> = real (dval t) * (10 powi (1 - int (length t)) * 10 powi snd (sci b))"
    unfolding v significant_trim(2)[OF d] t by simp
  also have "10 powi (1 - int (length t)) * 10 powi snd (sci b) = (10 :: real) powi (snd (sci b) + 1 - int (length t))"
    by (simp add: algebra_simps flip: power_int_add)
  finally show "sci_value sci b = real (dval t) * 10 powi (snd (sci b) + 1 - int (length t))" .
qed

lemma sci_value_pos: "sci_reads_back sci \<Longrightarrow> f64_positive b \<Longrightarrow> 0 < sci_value sci b"
proof -
  assume b: "sci_reads_back sci" "f64_positive b"
  have "0 < (10::nat) ^ (length (trim_end_zeros (filter (\<lambda>c. c \<noteq> CHR ''.'') (fst (sci b)))) - 1)" by simp
  also note significant_pos[OF sci_digits(1)[OF b]]
  finally show ?thesis unfolding sci_digits(2)[OF b] by simp
qed

lemma sci_value_inj:
  "sci_reads_back sci \<Longrightarrow> f64_positive b \<Longrightarrow> f64_positive c \<Longrightarrow> sci_value sci b = sci_value sci c \<Longrightarrow> b = c"
  unfolding sci_reads_back_def by metis

text \<open>Away from ties the half-even step leaves the digits alone.\<close>

lemma midpoint_miss:
  assumes "s \<noteq> 0" "s < 10 ^ 17" "f64_value b \<noteq> real (2 * s + k - 1) * 10 powi e / 2" "k = 0 \<or> k = 2"
  shows "\<not> is_exact_decimal_midpoint b (of_nat (2 * s + k - 1)) e"
proof -
  have lt: "2 * s + k - 1 < 2 ^ 58" using assms(2,4) by auto
  moreover have "(2 :: nat) ^ 58 < 2 ^ 128" by simp
  ultimately have u: "unat (of_nat (2 * s + k - 1) :: u128) = 2 * s + k - 1"
    by (intro unat_u128_of_nat) linarith
  have "odd (2 * s + k - 1)" using assms(1,4) by auto
  then show ?thesis
    using midpoint_test_exact[of "of_nat (2 * s + k - 1)" b e] lt assms(3) unfolding u by blast
qed

lemma tie_sides:
  fixes v s P :: real
  assumes "0 < P" "\<bar>v - s * P\<bar> \<noteq> P / 2"
  shows "v \<noteq> (2 * s - 1) * P / 2" "v \<noteq> (2 * s + 1) * P / 2"
proof -
  have "(2 * s - 1) * P / 2 = s * P - P / 2" "(2 * s + 1) * P / 2 = s * P + P / 2"
    by (simp_all add: field_simps)
  moreover have "v \<noteq> s * P - P / 2" "v \<noteq> s * P + P / 2" using assms by auto
  ultimately show "v \<noteq> (2 * s - 1) * P / 2" "v \<noteq> (2 * s + 1) * P / 2" by (simp_all only:) simp_all
qed

lemma correction_untied:
  assumes "significant t" "\<not> tied sci b" "sci_value sci b = real (dval t) * 10 powi (e + 1 - int (length t))"
  shows "round_half_even_correction b t e = None"
proof (cases "17 < length t")
  case False
  let ?s = "dval t" and ?e = "e - (int (length t) - 1)"
  have t: "t \<noteq> []" "\<forall>c\<in>set t. is_ascii_digit c" using assms(1) by (auto simp: significant_def all_digits_def)
  have p: "parse_digits t = Some ?s" using t foldl_dval[of 0 t] by (simp add: parse_digits_def)
  have "0 < (10::nat) ^ (length t - 1)" by simp
  also note significant_pos[OF assms(1)]
  finally have s0: "?s \<noteq> 0" by simp
  have "?s < 10 ^ length t" using t by (intro dval_less)
  also have "\<dots> \<le> 10 ^ 17" using False by (intro power_increasing) auto
  finally have s: "?s < 10 ^ 17" .
  have v: "sci_value sci b = real ?s * 10 powi ?e" using assms(3) by (simp add: algebra_simps)
  then have far: "\<bar>f64_value b - real ?s * 10 powi ?e\<bar> \<noteq> 10 powi ?e / 2"
    using assms(2) significant_not_dvd[OF assms(1)] unfolding tied_def by metis
  have "real (2 * ?s + 0 - 1) = 2 * real ?s - 1" "real (2 * ?s + 2 - 1) = 2 * real ?s + 1"
    using s0 by (simp_all add: of_nat_diff)
  then have "f64_value b \<noteq> real (2 * ?s + 0 - 1) * 10 powi ?e / 2" "f64_value b \<noteq> real (2 * ?s + 2 - 1) * 10 powi ?e / 2"
    using tie_sides[OF _ far] by (simp_all only:) simp_all
  from midpoint_miss[OF s0 s this(1)] midpoint_miss[OF s0 s this(2)]
  have "\<not> is_exact_decimal_midpoint b (of_nat (2 * ?s - 1)) ?e"
    "\<not> is_exact_decimal_midpoint b (of_nat (2 * ?s + 1)) ?e" by simp_all
  then show ?thesis using p by (simp add: round_half_even_correction_def Let_def)
qed (simp add: round_half_even_correction_def)

section \<open>The same number\<close>

definition f64_real :: "u64 \<Rightarrow> real" where
  "f64_real f = (if f64_is_sign_negative f then - f64_value f else f64_value f)"

definition f64_decimal :: "(u64 \<Rightarrow> string \<times> int) \<Rightarrow> u64 \<Rightarrow> real" where
  "f64_decimal sci f =
     (if f64_is_zero f then 0
      else if f64_is_sign_negative f then - sci_value sci (f64_abs f) else sci_value sci (f64_abs f))"

text \<open>The decimal a number has in a document: an integer itself, a double its standard decimal.\<close>

fun number_decimal :: "(u64 \<Rightarrow> string \<times> int) \<Rightarrow> json_number \<Rightarrow> real" where
  "number_decimal sci (PosInt n) = real (unat n)"
| "number_decimal sci (NegInt i) = real_of_int i"
| "number_decimal sci (Float f) = f64_decimal sci f"

text \<open>
  Equality of numbers: two doubles are the same when they are the same real number (so the two
  zeros are), two integers likewise, and an integer is the same as a double when it is the decimal
  of that double (\<open>1\<close> and \<open>1.0\<close>).
\<close>

fun same_number :: "(u64 \<Rightarrow> string \<times> int) \<Rightarrow> json_number \<Rightarrow> json_number \<Rightarrow> bool" where
  "same_number sci (Float f) (Float g) = (f64_real f = f64_real g)"
| "same_number sci m n = (number_decimal sci m = number_decimal sci n)"

definition signed_value :: "string \<Rightarrow> real" where
  "signed_value s = (if s \<noteq> [] \<and> hd s = CHR ''-'' then - txt_value (tl s) else txt_value s)"

lemma f64_positive_abs: "f64_is_finite f \<Longrightarrow> \<not> f64_is_zero f \<Longrightarrow> f64_positive (f64_abs f)"
proof -
  assume f: "f64_is_finite f" "\<not> f64_is_zero f"
  have "n mod 2 ^ 63 div 2 ^ 52 mod 2 ^ 11 = n div 2 ^ 52 mod 2 ^ 11" for n :: nat
    using mod_mult2_eq[of n "2 ^ 52" "2 ^ 11"] by simp
  then have "drop_bit 52 (f64_abs f) AND 0x7ff = drop_bit 52 f AND 0x7ff"
    unfolding word_unat_eq_iff unat_biased unat_f64_abs .
  moreover have "f64_abs (f64_abs f) = f64_abs f" unfolding f64_abs_def and_low by simp
  ultimately show ?thesis using f by (simp add: f64_positive_def f64_is_finite_def f64_is_zero_def)
qed

text \<open>The numbers of a document that are printed without a half-even correction.\<close>

fun untied_number :: "(u64 \<Rightarrow> string \<times> int) \<Rightarrow> json_number \<Rightarrow> bool" where
  "untied_number sci (Float f) = (f64_is_zero f \<or> \<not> tied sci (f64_abs f))"
| "untied_number sci _ = True"

lemma float_text:
  assumes "sci_reads_back sci" "f64_is_finite f" "\<not> f64_is_zero f" "\<not> tied sci (f64_abs f)"
  obtains t e where "significant t" "sci_value sci (f64_abs f) = real (dval t) * 10 powi (e - int (length t))"
    "write_number sci (Float f) = (if f64_is_sign_negative f then ''-'' else []) @ ecma_band t e"
proof -
  let ?b = "f64_abs f"
  define t where "t = trim_end_zeros (filter (\<lambda>c. c \<noteq> CHR ''.'') (fst (sci ?b)))"
  have pos: "f64_positive ?b" using assms by (intro f64_positive_abs)
  have t: "significant t" "sci_value sci ?b = real (dval t) * 10 powi (snd (sci ?b) + 1 - int (length t))"
    unfolding t_def using sci_digits[OF assms(1) pos] by auto
  have "t \<noteq> []" using t(1) by (auto simp: significant_def all_digits_def)
  then have "ecma_number_string sci f =
      (if f64_is_sign_negative f then ''-'' else []) @ ecma_band t (snd (sci ?b) + 1)"
    using correction_untied[OF t(1) assms(4) t(2)]
    by (simp add: ecma_number_string_def case_prod_unfold Let_def t_def[symmetric])
  then show ?thesis using that[OF t] assms(2,3) by simp
qed

lemma num_token_no_minus: "all_digits s \<Longrightarrow> \<exists>c r. s = c # r \<and> c \<noteq> CHR ''-''"
  by (cases s) (auto simp: all_digits_def)

lemma band_no_minus: "all_digits ds \<Longrightarrow> \<exists>c r. ecma_band ds n = c # r \<and> c \<noteq> CHR ''-''"
proof -
  assume ds: "all_digits ds"
  then obtain c r where "ds = c # r" "c \<noteq> CHR ''-''" using num_token_no_minus by blast
  then show ?thesis by (auto simp: ecma_band_def Let_def take_Cons' nat_eq_iff)
qed

lemma signed_value_write_number:
  assumes "sci_reads_back sci" "wf_number n" "untied_number sci n"
  shows "signed_value (write_number sci n) = number_decimal sci n"
proof (cases n)
  case (PosInt w)
  then show ?thesis
    using num_token_no_minus[of "show_nat (unat w)"] txt_value_digits[of "show_nat (unat w)"] all_digits_show_nat[of "unat w"]
    by (auto simp: signed_value_def all_digits_def)
next
  case (NegInt i)
  then have "i < 0" using assms by simp
  then show ?thesis
    using NegInt txt_value_digits[of "show_nat (nat (- i))"] all_digits_show_nat[of "nat (- i)"]
    by (simp add: signed_value_def show_int_def all_digits_def)
next
  case (Float f)
  show ?thesis
  proof (cases "f64_is_zero f")
    case True
    then show ?thesis using Float txt_value_digits[of "''0''"] by (simp add: signed_value_def f64_decimal_def)
  next
    case False
    then have f: "f64_is_finite f" "\<not> tied sci (f64_abs f)" using assms(2,3) Float by auto
    obtain t e where t: "significant t" "sci_value sci (f64_abs f) = real (dval t) * 10 powi (e - int (length t))"
      "write_number sci (Float f) = (if f64_is_sign_negative f then ''-'' else []) @ ecma_band t e"
      by (rule float_text[OF assms(1) f(1) False f(2)])
    have ds: "all_digits t" using t(1) by (simp add: significant_def)
    obtain c r where c: "ecma_band t e = c # r" "c \<noteq> CHR ''-''" using band_no_minus[OF ds] by blast
    have "txt_value (ecma_band t e) = sci_value sci (f64_abs f)" unfolding t(2) by (rule txt_value_band[OF ds])
    then show ?thesis using Float False t(3) c by (simp add: signed_value_def f64_decimal_def)
  qed
qed

lemma integer_number:
  assumes "wf_number n" "\<And>f. n \<noteq> Float f"
  obtains i where "write_number sci n = show_int i" "number_decimal sci n = real_of_int i" "\<bar>i\<bar> < 10 ^ 20"
proof (cases n)
  case (PosInt w)
  have "unat w < 2 ^ 64" using unsigned_less[of w] by simp
  then have "int (unat w) < int (10 ^ 20)" by (intro of_nat_less_iff[THEN iffD2]) simp
  then show ?thesis using that[of "int (unat w)"] PosInt by (simp add: show_int_def)
next
  case (NegInt i)
  then show ?thesis using that[of i] assms by simp
qed (use assms in auto)

lemma float_integer_text:
  assumes law: "sci_reads_back sci" and f: "wf_number (Float f)" "untied_number sci (Float f)"
    and i: "f64_decimal sci f = real_of_int i" "\<bar>i\<bar> < 10 ^ 20"
  shows "write_number sci (Float f) = show_int i"
proof (cases "f64_is_zero f")
  case True
  then have "i = 0" using i(1) by (simp add: f64_decimal_def)
  moreover have "show_nat 0 = ''0''" by (subst show_nat.simps) simp
  ultimately show ?thesis using True by (simp add: show_int_def)
next
  case False
  then have fin: "f64_is_finite f" "\<not> tied sci (f64_abs f)" using f by auto
  note pos = sci_value_pos[OF law f64_positive_abs[OF fin(1) False]]
  obtain t e where t: "significant t" "sci_value sci (f64_abs f) = real (dval t) * 10 powi (e - int (length t))"
    "write_number sci (Float f) = (if f64_is_sign_negative f then ''-'' else []) @ ecma_band t e"
    by (rule float_text[OF law fin(1) False fin(2)])
  have band: "ecma_band t e = show_nat (nat j)" if "sci_value sci (f64_abs f) = real_of_int j" "j < 10 ^ 20" for j
  proof (rule band_integer[OF t(1)])
    show "nat j < 10 ^ 20" using that(2) by simp
    show "real (dval t) * 10 powi (e - int (length t)) = real (nat j)"
      using that(1) pos unfolding t(2)[symmetric] by simp
  qed
  show ?thesis
  proof (cases "f64_is_sign_negative f")
    case True
    then have "sci_value sci (f64_abs f) = real_of_int (- i)" using False i by (simp add: f64_decimal_def)
    then show ?thesis using band[of "- i"] i(2) pos True t(3) by (simp add: show_int_def)
  next
    case neg: False
    then have "sci_value sci (f64_abs f) = real_of_int i" using False i by (simp add: f64_decimal_def)
    then show ?thesis using band[of i] i(2) pos neg t(3) by (simp add: show_int_def)
  qed
qed

lemma f64_decimal_inj:
  assumes law: "sci_reads_back sci" and fin: "f64_is_finite f" "f64_is_finite g"
  shows "f64_decimal sci f = f64_decimal sci g \<longleftrightarrow> f64_is_zero f \<and> f64_is_zero g \<or>
    \<not> f64_is_zero f \<and> \<not> f64_is_zero g \<and>
    f64_abs f = f64_abs g \<and> f64_is_sign_negative f = f64_is_sign_negative g"
proof -
  note pos = f64_positive_abs[OF fin(1)] f64_positive_abs[OF fin(2)]
  note spos = sci_value_pos[OF law pos(1)] sci_value_pos[OF law pos(2)]
  note inj = sci_value_inj[OF law pos]
  show ?thesis
  proof (cases "f64_is_zero f \<or> f64_is_zero g")
    case True
    then show ?thesis using spos by (auto simp: f64_decimal_def)
  next
    case False
    then have "0 < sci_value sci (f64_abs f)" "0 < sci_value sci (f64_abs g)" using spos by auto
    moreover have "sci_value sci (f64_abs f) = sci_value sci (f64_abs g) \<longleftrightarrow> f64_abs f = f64_abs g"
      using inj False by auto
    ultimately show ?thesis using False by (auto simp: f64_decimal_def)
  qed
qed

lemma f64_zero_value: "f64_is_zero f \<longleftrightarrow> f64_value f = 0"
proof -
  have zero: "f64_value 0 = 0" by (simp add: f64_value_def f64_parts_nat)
  have "f64_abs 0 = 0" by (simp add: f64_abs_def)
  then show ?thesis using f64_value_inj[of f 0] f64_value_abs[of f] zero
    unfolding f64_is_zero_def by metis
qed

lemma f64_value_nonneg: "0 \<le> f64_value f"
  by (simp add: f64_value_def case_prod_unfold Let_def)

lemma f64_real_inj:
  "f64_real f = f64_real g \<longleftrightarrow> f64_is_zero f \<and> f64_is_zero g \<or>
    \<not> f64_is_zero f \<and> \<not> f64_is_zero g \<and>
    f64_abs f = f64_abs g \<and> f64_is_sign_negative f = f64_is_sign_negative g"
proof -
  have "f64_value f = f64_value g \<longleftrightarrow> f64_abs f = f64_abs g"
    using f64_value_inj f64_value_abs by metis
  then show ?thesis
    using f64_value_nonneg[of f] f64_value_nonneg[of g] f64_zero_value[of f] f64_zero_value[of g]
    by (auto simp: f64_real_def)
qed

text \<open>Two numbers are printed alike exactly when they are the same number.\<close>

lemma same_number_decimal:
  assumes "sci_reads_back sci" "wf_number m" "wf_number n"
  shows "same_number sci m n \<longleftrightarrow> number_decimal sci m = number_decimal sci n"
  using assms by (cases m; cases n) (simp_all add: f64_decimal_inj f64_real_inj)

lemma write_number_eq_iff:
  assumes law: "sci_reads_back sci"
    and m: "wf_number m" "untied_number sci m" and n: "wf_number n" "untied_number sci n"
  shows "write_number sci m = write_number sci n \<longleftrightarrow> same_number sci m n"
proof
  assume "write_number sci m = write_number sci n"
  then show "same_number sci m n"
    using signed_value_write_number[OF law m] signed_value_write_number[OF law n] same_number_decimal[OF law m(1) n(1)] by simp
next
  assume "same_number sci m n"
  then have eq: "number_decimal sci m = number_decimal sci n" using same_number_decimal[OF law m(1) n(1)] by simp
  have mixed: "write_number sci (Float f) = write_number sci k"
    if "wf_number (Float f)" "untied_number sci (Float f)" "wf_number k" "\<And>g. k \<noteq> Float g"
      "f64_decimal sci f = number_decimal sci k" for f k
    using integer_number[OF that(3,4), where sci = sci] float_integer_text[OF law that(1,2)] that(5) by metis
  show "write_number sci m = write_number sci n"
  proof (cases "\<exists>f. m = Float f"; cases "\<exists>g. n = Float g")
    assume "\<exists>f. m = Float f" "\<exists>g. n = Float g"
    then obtain f g where fg: "m = Float f" "n = Float g" by blast
    then have "f64_is_zero f \<and> f64_is_zero g \<or> \<not> f64_is_zero f \<and> \<not> f64_is_zero g \<and>
        f64_abs f = f64_abs g \<and> f64_is_sign_negative f = f64_is_sign_negative g"
      using f64_decimal_inj[OF law] eq m(1) n(1) by simp
    then show ?thesis using fg m(1) n(1) by (auto simp: ecma_number_string_def)
  next
    assume "\<exists>f. m = Float f" and k: "\<nexists>g. n = Float g"
    then obtain f where "m = Float f" by blast
    then show ?thesis using mixed[of f n] k m n eq by simp
  next
    assume k: "\<nexists>f. m = Float f" and "\<exists>g. n = Float g"
    then obtain g where "n = Float g" by blast
    then show ?thesis using mixed[of g m] k m n eq by simp
  next
    assume "\<nexists>f. m = Float f" "\<nexists>g. n = Float g"
    then obtain i j where "write_number sci m = show_int i" "number_decimal sci m = real_of_int i"
      "write_number sci n = show_int j" "number_decimal sci n = real_of_int j"
      using integer_number[OF m(1), where sci = sci] integer_number[OF n(1), where sci = sci] by metis
    then show ?thesis using eq by simp
  qed
qed

section \<open>The same document\<close>

text \<open>
  Equality of JSON documents: numbers as numbers, arrays element by element, objects as finite
  maps (member order is irrelevant).
\<close>

inductive json_same :: "(u64 \<Rightarrow> string \<times> int) \<Rightarrow> json \<Rightarrow> json \<Rightarrow> bool" for sci where
  "json_same sci JNull JNull"
| "json_same sci (JBool b) (JBool b)"
| "same_number sci m n \<Longrightarrow> json_same sci (JNumber m) (JNumber n)"
| "json_same sci (JString s) (JString s)"
| "list_all2 (json_same sci) vs ws \<Longrightarrow> json_same sci (JArray vs) (JArray ws)"
| "\<forall>k. rel_option (json_same sci) (map_of ms k) (map_of ns k) \<Longrightarrow>
     json_same sci (JObject ms) (JObject ns)"

inductive_simps json_same_simps [simp]:
  "json_same sci JNull w"
  "json_same sci (JBool b) w"
  "json_same sci (JNumber n) w"
  "json_same sci (JString s) w"
  "json_same sci (JArray vs) w"
  "json_same sci (JObject ms) w"

text \<open>Documents none of whose doubles is a decimal tie.\<close>

fun untied :: "(u64 \<Rightarrow> string \<times> int) \<Rightarrow> json \<Rightarrow> bool" where
  "untied sci (JNumber n) = untied_number sci n"
| "untied sci (JArray vs) = (\<forall>v\<in>set vs. untied sci v)"
| "untied sci (JObject ms) = (\<forall>(k, v)\<in>set ms. untied sci v)"
| "untied sci _ = True"

lemma alike_same:
  assumes law: "sci_reads_back sci"
  shows "wf_json v \<Longrightarrow> untied sci v \<Longrightarrow> wf_json w \<Longrightarrow> untied sci w \<Longrightarrow> written_alike sci v w \<longleftrightarrow> json_same sci v w"
proof (induction v arbitrary: w)
  case (JNumber n)
  then show ?case using write_number_eq_iff[OF law] by (cases w) auto
next
  case (JArray vs)
  show ?case
  proof (cases w)
    case (JArray ws)
    have "list_all2 (written_alike sci) vs ws \<longleftrightarrow> list_all2 (json_same sci) vs ws"
      using JArray.IH JArray.prems JArray by (intro list.rel_cong) auto
    then show ?thesis using JArray by simp
  qed simp_all
next
  case (JObject ms)
  show ?case
  proof (cases w)
    case (JObject ns)
    have "rel_option (written_alike sci) (map_of ms k) (map_of ns k) \<longleftrightarrow>
        rel_option (json_same sci) (map_of ms k) (map_of ns k)" for k
    proof (cases "map_of ms k"; cases "map_of ns k")
      fix v u assume mv: "map_of ms k = Some v" "map_of ns k = Some u"
      then have "(k, v) \<in> set ms" "(k, u) \<in> set ns" by (auto dest!: map_of_SomeD)
      then have "wf_json v \<and> untied sci v" "wf_json u \<and> untied sci u"
        using JObject.prems unfolding JObject by auto
      then have "written_alike sci v u \<longleftrightarrow> json_same sci v u"
        using JObject.IH[of "(k, v)" v u] \<open>(k, v) \<in> set ms\<close> by (simp add: snds.simps)
      then show ?thesis using mv by simp
    qed simp_all
    then show ?thesis using JObject by simp
  qed simp_all
qed (case_tac w; simp)+

lemma canonical_text_eq_json_same:
  assumes "sci_ok sci" "sci_reads_back sci" "wf_json v" "wf_json w" "untied sci v" "untied sci w"
    and "depth v \<le> MAX_JCS_DEPTH" "depth w \<le> MAX_JCS_DEPTH"
  shows "try_canonicalize_value sci v = try_canonicalize_value sci w \<longleftrightarrow> json_same sci v w"
  using canonical_text_eq_alike alike_same assms by simp

text \<open>
  C33. The canonical text identifies the document: two well-formed values within the depth limit
  get the same canonical bytes if and only if they are the same JSON document, with objects
  compared as finite maps (member order is irrelevant) and numbers as numbers: two doubles are
  the same when they are the same real number, and an integer is the same as a double when it is
  that double's decimal. The hypotheses on \<open>sci\<close> are what the standard library documents of
  \<open>{:e}\<close>: the shape of its text, and that the text reads back. The doubles of the two documents
  must not be decimal ties: the half-even step can print a tied double as a different one.
\<close>

theorem canonical_text_iff_same_document:
  assumes "sci_ok sci" "sci_reads_back sci" "wf_json v" "wf_json w" "untied sci v" "untied sci w"
    and "depth v \<le> MAX_JCS_DEPTH" "depth w \<le> MAX_JCS_DEPTH"
  shows "try_canonicalize_value sci v = try_canonicalize_value sci w \<longleftrightarrow> json_same sci v w"
  using assms by (rule canonical_text_eq_json_same)

text \<open>A formatter that meets the hypotheses: the exact decimal expansion of a double.\<close>

definition exact_digits :: "u64 \<Rightarrow> string \<times> int" where
  "exact_digits b =
     (let (m, q) = f64_parts b in
      if 0 \<le> q then (show_nat (m * 2 ^ nat q), 0) else (show_nat (m * 5 ^ nat (- q)), q))"

definition exact_sci :: "u64 \<Rightarrow> string \<times> int" where
  "exact_sci b =
     (let (ds, scale) = exact_digits b in
      (hd ds # (if tl ds = [] then [] else ''.'' @ tl ds), int (length ds) - 1 + scale))"

lemma show_nat_lead: "0 < n \<Longrightarrow> hd (show_nat n) \<noteq> CHR ''0''"
proof (induction n rule: show_nat.induct)
  case (1 n)
  show ?case
  proof (cases "n < 10")
    case True
    then have "n \<in> {1, 2, 3, 4, 5, 6, 7, 8, 9}" using 1 by auto
    then show ?thesis by (subst show_nat.simps) auto
  next
    case False
    moreover have "show_nat (n div 10) \<noteq> []" using all_digits_show_nat by (metis all_digits_def)
    ultimately show ?thesis using 1 by (subst show_nat.simps) (simp add: hd_append2)
  qed
qed

lemma exact_digits_value:
  assumes "exact_digits b = (ds, scale)"
  shows "f64_value b = real (dval ds) * 10 powi scale" "all_digits ds"
proof -
  obtain m q where mq: "f64_parts b = (m, q)" by fastforce
  show "all_digits ds" using assms mq by (auto simp: exact_digits_def split: if_splits)
  show "f64_value b = real (dval ds) * 10 powi scale"
  proof (cases "0 \<le> q")
    case True
    then show ?thesis using assms mq by (auto simp: exact_digits_def f64_value_def power_int_def)
  next
    case False
    have "(10::real) powi q = 2 powi q * 5 powi q" using power_int_mult_distrib[of "2::real" 5 q] by simp
    moreover have "(5::real) ^ nat (- q) * 5 powi q = 1" using False by (simp add: power_int_def power_divide)
    ultimately have "(5::real) ^ nat (- q) * 10 powi q = 2 powi q" by (simp add: mult.left_commute)
    then show ?thesis using assms mq False by (auto simp: exact_digits_def f64_value_def mult.assoc)
  qed
qed

lemma exact_sci_value: "f64_positive b \<Longrightarrow> sci_value exact_sci b = f64_value b"
proof -
  assume "f64_positive b"
  obtain ds scale where d: "exact_digits b = (ds, scale)" by fastforce
  note v = exact_digits_value[OF d]
  obtain c r where ds: "ds = c # r" using v(2) by (cases ds) (auto simp: all_digits_def)
  have dig: "is_ascii_digit c" "\<forall>x\<in>set r. is_ascii_digit x" using v(2) ds by (auto simp: all_digits_def)
  have tv: "txt_value (c # (if r = [] then [] else ''.'' @ r)) = real (dval ds) * 10 powi (- int (length r))"
    using txt_value_digits[of "[c]"] txt_value_point[of "[c]" r] dig by (cases "r = []") (simp_all add: ds)
  have "sci_value exact_sci b = txt_value (c # (if r = [] then [] else ''.'' @ r)) * 10 powi (int (length r) + scale)"
    by (simp add: sci_value_def exact_sci_def d ds)
  also have "\<dots> = real (dval ds) * (10 powi (- int (length r)) * 10 powi (int (length r) + scale))"
    unfolding tv by (rule mult.assoc)
  also have "(10::real) powi (- int (length r)) * 10 powi (int (length r) + scale) = 10 powi scale"
    by (simp flip: power_int_add)
  finally show ?thesis using v(1) by simp
qed

lemma exact_sci_reads_back: "sci_reads_back exact_sci"
  unfolding sci_reads_back_def
proof (intro conjI allI impI exI[of _ "inv_into {b. f64_positive b} f64_value"])
  fix b assume b: "f64_positive b"
  obtain ds scale where d: "exact_digits b = (ds, scale)" by fastforce
  note v = exact_digits_value[OF d]
  obtain c r where ds: "ds = c # r" using v(2) by (cases ds) (auto simp: all_digits_def)
  have "f64_value b \<noteq> 0" using b f64_zero_value[of b] by (simp add: f64_positive_def f64_is_zero_def)
  then have nz: "0 < fst (f64_parts b)" by (auto simp: f64_value_def case_prod_unfold Let_def)
  have lead: "hd ds \<noteq> CHR ''0''"
    using d nz by (auto simp: exact_digits_def case_prod_unfold Let_def intro!: show_nat_lead split: if_splits)
  have "fst (exact_sci b) = c # (if r = [] then [] else ''.'' @ r)" by (simp add: exact_sci_def d ds)
  moreover have "is_ascii_digit c" "c \<noteq> CHR ''0''" "\<forall>x\<in>set r. is_ascii_digit x"
    using v(2) lead by (simp_all add: ds all_digits_def)
  ultimately show "\<exists>d ds. fst (exact_sci b) = d # (if ds = [] then [] else ''.'' @ ds) \<and>
      is_ascii_digit d \<and> d \<noteq> CHR ''0'' \<and> (\<forall>c\<in>set ds. is_ascii_digit c)"
    by blast
  have "inj_on f64_value {b. f64_positive b}"
    by (rule inj_onI) (metis f64_value_inj f64_positive_def mem_Collect_eq)
  then show "inv_into {b. f64_positive b} f64_value (sci_value exact_sci b) = b"
    using b by (simp add: exact_sci_value)
qed

lemma exact_sci_ok: "sci_ok exact_sci"
proof -
  have "is_ascii_digit c \<or> c = CHR ''.''" if "c \<in> set (fst (exact_sci b))" for b c
  proof -
    obtain ds scale where d: "exact_digits b = (ds, scale)" by fastforce
    obtain x r where ds: "ds = x # r" using exact_digits_value(2)[OF d] by (cases ds) (auto simp: all_digits_def)
    then show ?thesis using that exact_digits_value(2)[OF d] by (auto simp: exact_sci_def d all_digits_def split: if_splits)
  qed
  then show ?thesis by (simp add: sci_ok_def)
qed

lemma exact_sci_untied: "f64_is_finite f \<Longrightarrow> untied_number exact_sci (Float f)"
  using f64_positive_abs[of f] exact_sci_value[of "f64_abs f"] by (auto simp: tied_def)

lemmas exact_sci_laws = exact_sci_ok exact_sci_reads_back

text \<open>One object in two member orders, with the number one as an integer and as a double.\<close>

definition demo_object :: json where
  "demo_object = JObject [(''b'', JNumber (PosInt 1)), (''a'', JArray [JNull, JNumber (Float 0x3fe0000000000000)])]"

definition demo_object_reordered :: json where
  "demo_object_reordered =
     JObject [(''a'', JArray [JNull, JNumber (Float 0x3fe0000000000000)]), (''b'', JNumber (Float 0x3ff0000000000000))]"

lemmas demo_object_defs = demo_object_def demo_object_reordered_def

lemma demo_floats:
  "f64_is_finite 0x3ff0000000000000" "f64_is_finite 0x3fe0000000000000"
  "\<not> f64_is_zero 0x3ff0000000000000" "\<not> f64_is_sign_negative 0x3ff0000000000000"
  "f64_abs 0x3ff0000000000000 = 0x3ff0000000000000" "f64_value 0x3ff0000000000000 = 1"
  by (simp_all add: f64_is_finite_def f64_is_zero_def f64_is_sign_negative_def f64_abs_def f64_value_def f64_parts_nat bit_simps)

lemma demo_objects_ok:
  "wf_json demo_object" "wf_json demo_object_reordered" "untied exact_sci demo_object"
  "untied exact_sci demo_object_reordered" "depth demo_object \<le> MAX_JCS_DEPTH" "depth demo_object_reordered \<le> MAX_JCS_DEPTH"
  using exact_sci_untied[OF demo_floats(1)] exact_sci_untied[OF demo_floats(2)]
  by (simp_all add: demo_object_defs demo_floats MAX_JCS_DEPTH_def)

lemma demo_one: "f64_decimal exact_sci 0x3ff0000000000000 = 1"
proof -
  have "f64_positive 0x3ff0000000000000" by (simp add: f64_positive_def demo_floats)
  then show ?thesis using exact_sci_value demo_floats by (simp add: f64_decimal_def)
qed

lemma demo_objects_same: "json_same exact_sci demo_object demo_object_reordered"
  by (simp add: demo_object_defs demo_one)

lemma canonical_text_iff_same_document_witness:
  "try_canonicalize_value exact_sci demo_object = try_canonicalize_value exact_sci demo_object_reordered \<and>
   json_same exact_sci demo_object demo_object_reordered"
  using canonical_text_iff_same_document[OF exact_sci_laws demo_objects_ok] demo_objects_same by simp

section \<open>The half-even step prints a double as its neighbour\<close>

text \<open>
  The double \<open>2^-24\<close> is \<open>5.9604644775390625e-8\<close>. Its shortest decimal is \<open>5.960464477539063e-8\<close>;
  the other 16-digit candidate, \<open>5.960464477539062e-8\<close>, is as near but belongs to the next double
  below, since the spacing halves at a power of two. \<open>round_half_even_correction\<close> looks only at the
  distance and replaces the odd digit string by the even one.
\<close>

lemma tie_parts:
  "f64_parts 0x3e70000000000000 = (2 ^ 52, - 76)" "f64_parts 0x3e6fffffffffffff = (2 ^ 53 - 1, - 77)"
  by (simp_all add: f64_parts_nat)

lemma tie_values:
  "f64_value 0x3e70000000000000 = 1 / 2 ^ 24" "f64_value 0x3e6fffffffffffff = (2 ^ 53 - 1) / 2 ^ 77"
  by (simp_all add: f64_value_def tie_parts power_int_def power_divide)

lemma tie_digits: "show_nat 5960464477539062 = ''5960464477539062''"
  by (simp add: show_nat.simps)

lemma tie_numerator: "unat (11920928955078125 :: u128) = 11920928955078125"
  by simp

lemma half_even_step:
  "round_half_even_correction 0x3e70000000000000 ''5960464477539063'' (- 8) = Some ''5960464477539062''"
proof -
  have p: "parse_digits ''5960464477539063'' = Some 5960464477539063"
    by (simp add: parse_digits_def char_class_defs less_eq_char_def digit_value_def)
  have "(11920928955078125 :: real) * 10 powi (- 23) / 2 = 1 / 2 ^ 24"
    by (simp add: power_int_def power_divide)
  then have "is_exact_decimal_midpoint 0x3e70000000000000 11920928955078125 (- 23)"
    using midpoint_test_exact[of 11920928955078125 "0x3e70000000000000" "- 23"]
    unfolding tie_numerator tie_values by simp
  then show ?thesis
    by (simp add: round_half_even_correction_def p tie_digits Let_def)
qed

lemma tie_text:
  "ecma_band ''5960464477539062'' (- 7) = ''5.960464477539062e-8''"
  by (simp add: ecma_band_def exp_sign_def show_nat.simps)

lemma tie_pattern:
  "f64_abs 0x3e70000000000000 = 0x3e70000000000000" "f64_abs 0x3e6fffffffffffff = 0x3e6fffffffffffff"
  "f64_is_finite 0x3e70000000000000" "f64_is_finite 0x3e6fffffffffffff"
  "\<not> f64_is_sign_negative 0x3e70000000000000" "\<not> f64_is_sign_negative 0x3e6fffffffffffff"
  by (simp_all add: f64_is_finite_def f64_is_sign_negative_def f64_abs_def bit_simps)

lemma tie_decimal: "txt_value ''5.960464477539062e-8'' = 5960464477539062 / 10 ^ 23"
proof -
  have "txt_value (ecma_band ''5960464477539062'' (- 7)) = real (dval ''5960464477539062'') * 10 powi (- 7 - 16)"
    using txt_value_band[of "''5960464477539062''" "- 7"] by (simp add: all_digits_def char_class_defs less_eq_char_def)
  moreover have "dval ''5960464477539062'' = 5960464477539062" by (simp add: digit_value_def)
  moreover have "(10::real) powi (- 7 - 16) = 1 / 10 ^ 23" by (simp add: power_int_def power_divide)
  ultimately show ?thesis unfolding tie_text by simp
qed

lemma tie_trim:
  "trim_end_zeros (filter (\<lambda>c. c \<noteq> CHR ''.'') ''5.960464477539063'') = ''5960464477539063''"
  "trim_end_zeros (filter (\<lambda>c. c \<noteq> CHR ''.'') ''5.960464477539062'') = ''5960464477539062''"
  by (simp_all add: trim_end_zeros_def)

text \<open>
  C37. The half-even step of the number printer merges two doubles. With the standard library's
  decimals for \<open>2^-24\<close> and for the double just below it, both are written
  \<open>5.960464477539062e-8\<close>, although they are different numbers and the written decimal is nearer
  to the second: documents that differ in this number have the same canonical bytes, and
  \<open>2^-24\<close> is not written as the decimal that reads back to it.
\<close>

theorem half_even_step_merges_doubles:
  assumes "sci 0x3e70000000000000 = (''5.960464477539063'', - 8)"
    and "sci 0x3e6fffffffffffff = (''5.960464477539062'', - 8)"
  shows "write_number sci (Float 0x3e70000000000000) = ''5.960464477539062e-8'' \<and>
    write_number sci (Float 0x3e6fffffffffffff) = ''5.960464477539062e-8'' \<and>
    f64_real 0x3e70000000000000 \<noteq> f64_real 0x3e6fffffffffffff \<and>
    \<bar>txt_value ''5.960464477539062e-8'' - f64_real 0x3e6fffffffffffff\<bar> <
      \<bar>txt_value ''5.960464477539062e-8'' - f64_real 0x3e70000000000000\<bar>"
proof (intro conjI)
  show "write_number sci (Float 0x3e70000000000000) = ''5.960464477539062e-8''"
    using assms(1)
    by (simp only: write_number.simps ecma_number_string_def f64_is_zero_def tie_pattern tie_trim prod.case Let_def)
      (simp add: half_even_step tie_text)
  have "round_half_even_correction 0x3e6fffffffffffff ''5960464477539062'' (- 8) = None"
    by (simp add: round_half_even_correction_def parse_digits_def char_class_defs less_eq_char_def digit_value_def)
  then show "write_number sci (Float 0x3e6fffffffffffff) = ''5.960464477539062e-8''"
    using assms(2)
    by (simp only: write_number.simps ecma_number_string_def f64_is_zero_def tie_pattern tie_trim prod.case Let_def)
      (simp add: tie_text)
  show "f64_real 0x3e70000000000000 \<noteq> f64_real 0x3e6fffffffffffff"
    by (simp add: f64_real_def tie_pattern tie_values)
  show "\<bar>txt_value ''5.960464477539062e-8'' - f64_real 0x3e6fffffffffffff\<bar> <
      \<bar>txt_value ''5.960464477539062e-8'' - f64_real 0x3e70000000000000\<bar>"
    by (simp add: f64_real_def tie_pattern tie_values tie_decimal)
qed

definition tie_sci :: "u64 \<Rightarrow> string \<times> int" where
  "tie_sci b = (if b = 0x3e70000000000000 then ''5.960464477539063'' else ''5.960464477539062'', - 8)"

lemma half_even_step_merges_doubles_witness:
  "tie_sci 0x3e70000000000000 = (''5.960464477539063'', - 8) \<and>
   write_number tie_sci (Float 0x3e70000000000000) = write_number tie_sci (Float 0x3e6fffffffffffff)"
  using half_even_step_merges_doubles[of tie_sci] by (simp add: tie_sci_def)

end
