(* ===== verification/Acdp_Hash.thy ===== *)
theory Acdp_Hash
  imports Acdp_Jcs_Numbers Acdp_Primitives
begin

text \<open>
  Content hashes and lineage identifiers (\<open>crates/acdp-crypto/src/hash.rs\<close>). SHA-256 is the
  parameter \<open>sha256\<close>, as in the Merkle tree; \<open>sci\<close> is the float formatter of the canonicalizer.

  The theorem on content hashes is a binding statement: two documents have one hash exactly when
  they agree on every member but the six the hash leaves out, or their canonical texts are a
  collision of \<open>sha256\<close>.
\<close>

section \<open>Bytes and hexadecimal\<close>

definition char_byte :: "char \<Rightarrow> u8" where
  "char_byte c = word_of_nat (of_char c)"

definition string_bytes :: "string \<Rightarrow> bytes" where
  "string_bytes s = map char_byte s"

definition hex_byte :: "u8 \<Rightarrow> string" where
  "hex_byte b = [hex_digit (unat b div 16), hex_digit (unat b mod 16)]"

definition hex_encode :: "bytes \<Rightarrow> string" where
  "hex_encode bs = concat (map hex_byte bs)"

lemma char_byte_inj: "char_byte c = char_byte d \<longleftrightarrow> c = d"
proof
  assume eq: "char_byte c = char_byte d"
  have u: "unat (char_byte x) = of_char x" for x
  proof -
    have "(of_char x :: nat) < 256" by simp
    then show ?thesis by (simp add: char_byte_def unat_of_nat)
  qed
  have "(of_char c :: nat) = of_char d" using u eq by metis
  then show "c = d" by simp
qed simp

lemma string_bytes_inj [simp]: "string_bytes s = string_bytes t \<longleftrightarrow> s = t"
  unfolding string_bytes_def by (simp add: inj_map_eq_map inj_def char_byte_inj)

lemma hex_byte_inj: "hex_byte a = hex_byte b \<Longrightarrow> a = b"
proof -
  assume "hex_byte a = hex_byte b"
  moreover have "unat x div 16 < 16" for x :: u8
    using unat_less[of x] by simp
  ultimately have "unat a div 16 = unat b div 16" "unat a mod 16 = unat b mod 16"
    by (simp_all add: hex_byte_def hex_digit_inj)
  then have "unat a = unat b" by (metis div_mult_mod_eq)
  then show ?thesis by (simp add: word_unat_eq_iff)
qed

lemma hex_encode_simps [simp]:
  "hex_encode [] = []" "hex_encode (b # bs) = hex_byte b @ hex_encode bs"
  by (simp_all add: hex_encode_def)

lemma hex_encode_inj [simp]: "hex_encode xs = hex_encode ys \<longleftrightarrow> xs = ys"
proof
  have len: "length (hex_byte b) = 2" for b by (simp add: hex_byte_def)
  show "hex_encode xs = hex_encode ys \<Longrightarrow> xs = ys"
  proof (induction xs arbitrary: ys)
    case Nil
    then show ?case by (cases ys) (auto simp: hex_byte_def)
  next
    case (Cons x xs)
    then obtain y zs where ys: "ys = y # zs" by (cases ys) (auto simp: hex_byte_def)
    then have "hex_byte x = hex_byte y" "hex_encode xs = hex_encode zs"
      using Cons.prems len[of x] len[of y] by (auto simp: append_eq_append_conv)
    then show ?case using Cons.IH ys hex_byte_inj by blast
  qed
qed simp

section \<open>Hashes\<close>

definition EXCLUDE :: "string list" where
  "EXCLUDE = [''content_hash'', ''signature'', ''ctx_id'', ''lineage_id'', ''origin_registry'', ''created_at'']"

definition producer_content :: "(string \<times> json) list \<Rightarrow> json" where
  "producer_content ms = JObject (filter (\<lambda>(k, v). k \<notin> set EXCLUDE) ms)"

definition canonical_preimage ::
  "(u64 \<Rightarrow> string \<times> int) \<Rightarrow> (bytes \<Rightarrow> bytes) \<Rightarrow> json \<Rightarrow> (string \<times> content_hash) acdp_result" where
  "canonical_preimage sci sha256 body_value =
     (case body_value of
        JObject ms \<Rightarrow>
          rbind (try_canonicalize_value sci (producer_content ms)) (\<lambda>canonical.
          Inr (canonical, ''sha256:'' @ hex_encode (sha256 (string_bytes canonical))))
      | _ \<Rightarrow> Inl InvalidBody)"

definition compute_content_hash ::
  "(u64 \<Rightarrow> string \<times> int) \<Rightarrow> (bytes \<Rightarrow> bytes) \<Rightarrow> json \<Rightarrow> content_hash acdp_result" where
  "compute_content_hash sci sha256 body_value =
     rbind (canonical_preimage sci sha256 body_value) (\<lambda>(_, h). Inr h)"

definition verify_content_hash ::
  "(u64 \<Rightarrow> string \<times> int) \<Rightarrow> (bytes \<Rightarrow> bytes) \<Rightarrow> json \<Rightarrow> content_hash \<Rightarrow> unit acdp_result" where
  "verify_content_hash sci sha256 body_value stored =
     rbind (compute_content_hash sci sha256 body_value) (\<lambda>recomputed.
     require (recomputed = stored) (HashMismatch stored recomputed))"

definition derive_lineage_id :: "(bytes \<Rightarrow> bytes) \<Rightarrow> ctx_id \<Rightarrow> lineage_id" where
  "derive_lineage_id sha256 first_ctx_id = ''lin:sha256:'' @ hex_encode (sha256 (string_bytes first_ctx_id))"

section \<open>Binding\<close>

lemma wf_producer_content: "wf_json (JObject ms) \<Longrightarrow> wf_json (producer_content ms)"
  unfolding producer_content_def wf_json.simps by (auto simp: distinct_map inj_on_def)

lemma compute_content_hash_object:
  "compute_content_hash sci sha256 (JObject ms) =
     rbind (try_canonicalize_value sci (producer_content ms)) (\<lambda>c. Inr (''sha256:'' @ hex_encode (sha256 (string_bytes c))))"
  by (cases "try_canonicalize_value sci (producer_content ms)")
    (simp_all add: compute_content_hash_def canonical_preimage_def)

lemma map_of_filter_key:
  "map_of (filter (\<lambda>(k, v). P k) ms) k = (if P k then map_of ms k else None)"
  by (induction ms) auto

lemma producer_content_same:
  "json_same sci (producer_content ms) (producer_content ns) \<longleftrightarrow>
     (\<forall>k. k \<notin> set EXCLUDE \<longrightarrow> rel_option (json_same sci) (map_of ms k) (map_of ns k))"
  by (auto simp: producer_content_def map_of_filter_key)

lemma untied_producer_content: "untied sci (JObject ms) \<Longrightarrow> untied sci (producer_content ms)"
  by (auto simp: producer_content_def)

text \<open>
  C34. The content hash binds the producer's content, and nothing else. Two well-formed documents
  get the same content hash exactly when, for every member name other than \<open>content_hash\<close>,
  \<open>signature\<close>, \<open>ctx_id\<close>, \<open>lineage_id\<close>, \<open>origin_registry\<close> and \<open>created_at\<close>, either both lack the
  member or both have it with the same JSON value (numbers compared as numbers), unless their two
  canonical texts are distinct inputs on which \<open>sha256\<close> collides. The formatter is assumed to
  read back, and no double of the documents is a decimal tie.
\<close>

theorem content_hash_binds_producer_content:
  assumes "sci_ok sci" "sci_reads_back sci" "wf_json (JObject ms)" "wf_json (JObject ns)"
    and "untied sci (JObject ms)" "untied sci (JObject ns)"
    and "compute_content_hash sci sha256 (JObject ms) = Inr h"
    and "compute_content_hash sci sha256 (JObject ns) = Inr h'"
  shows "h = h' \<longleftrightarrow>
    (\<forall>k. k \<notin> {''content_hash'', ''signature'', ''ctx_id'', ''lineage_id'', ''origin_registry'', ''created_at''} \<longrightarrow>
       rel_option (json_same sci) (map_of ms k) (map_of ns k)) \<or>
    (\<exists>c d. try_canonicalize_value sci (producer_content ms) = Inr c \<and>
       try_canonicalize_value sci (producer_content ns) = Inr d \<and>
       c \<noteq> d \<and> sha256 (string_bytes c) = sha256 (string_bytes d))"
proof -
  obtain c where c: "try_canonicalize_value sci (producer_content ms) = Inr c"
      "h = ''sha256:'' @ hex_encode (sha256 (string_bytes c))"
    using assms(7) by (auto simp: compute_content_hash_object result_simps)
  obtain d where d: "try_canonicalize_value sci (producer_content ns) = Inr d"
      "h' = ''sha256:'' @ hex_encode (sha256 (string_bytes d))"
    using assms(8) by (auto simp: compute_content_hash_object result_simps)
  have "depth (producer_content ms) \<le> MAX_JCS_DEPTH" "depth (producer_content ns) \<le> MAX_JCS_DEPTH"
    using c(1) d(1) by (auto simp: try_canonicalize_value_def write_value_render split: if_splits)
  then have "c = d \<longleftrightarrow> json_same sci (producer_content ms) (producer_content ns)"
    using canonical_text_eq_json_same[OF assms(1,2) wf_producer_content[OF assms(3)] wf_producer_content[OF assms(4)]
        untied_producer_content[OF assms(5)] untied_producer_content[OF assms(6)]] c(1) d(1) by simp
  then have "c = d \<longleftrightarrow> (\<forall>k. k \<notin> set EXCLUDE \<longrightarrow> rel_option (json_same sci) (map_of ms k) (map_of ns k))"
    unfolding producer_content_same .
  moreover have "h = h' \<longleftrightarrow> c = d \<or> c \<noteq> d \<and> sha256 (string_bytes c) = sha256 (string_bytes d)"
    using c(2) d(2) by auto
  moreover have "set EXCLUDE =
      {''content_hash'', ''signature'', ''ctx_id'', ''lineage_id'', ''origin_registry'', ''created_at''}"
    by (simp add: EXCLUDE_def)
  ultimately show ?thesis using c(1) d(1) by auto
qed

text \<open>A body as a producer sends it and as a registry stores it.\<close>

definition demo_body :: "(string \<times> json) list" where
  "demo_body = [(''title'', JString ''t''), (''ctx_id'', JString ''x'')]"

definition demo_body_assigned :: "(string \<times> json) list" where
  "demo_body_assigned = [(''created_at'', JNull), (''title'', JString ''t'')]"

lemma demo_body_hashes:
  "\<exists>h. compute_content_hash exact_sci (\<lambda>b. b) (JObject demo_body) = Inr h"
  "\<exists>h. compute_content_hash exact_sci (\<lambda>b. b) (JObject demo_body_assigned) = Inr h"
  by (simp_all add: compute_content_hash_object try_canonicalize_value_def write_value_render
      producer_content_def demo_body_def demo_body_assigned_def EXCLUDE_def MAX_JCS_DEPTH_def)

lemma content_hash_binds_producer_content_witness:
  "\<exists>h. compute_content_hash exact_sci (\<lambda>b. b) (JObject demo_body) = Inr h \<and>
     compute_content_hash exact_sci (\<lambda>b. b) (JObject demo_body_assigned) = Inr h"
proof -
  obtain h h' where h: "compute_content_hash exact_sci (\<lambda>b. b) (JObject demo_body) = Inr h"
      "compute_content_hash exact_sci (\<lambda>b. b) (JObject demo_body_assigned) = Inr h'"
    using demo_body_hashes by blast
  have ok: "wf_json (JObject demo_body)" "wf_json (JObject demo_body_assigned)"
    "untied exact_sci (JObject demo_body)" "untied exact_sci (JObject demo_body_assigned)"
    by (simp_all add: demo_body_def demo_body_assigned_def)
  have "h = h'"
    using content_hash_binds_producer_content[OF exact_sci_laws ok h]
    by (auto simp: demo_body_def demo_body_assigned_def)
  then show ?thesis using h by blast
qed

text \<open>
  The hash ignores exactly what the registry assigns: adding, changing or reordering members
  named in the exclusion set never changes a document's content hash.
\<close>

theorem content_hash_ignores_assigned:
  assumes "\<forall>(k, v)\<in>set extra. k \<in> set EXCLUDE"
  shows "compute_content_hash sci sha256 (JObject (extra @ ms)) = compute_content_hash sci sha256 (JObject ms)"
proof -
  have "filter (\<lambda>(k, v). k \<notin> set EXCLUDE) extra = []"
    using assms by (auto simp: filter_empty_conv)
  then show ?thesis by (simp add: compute_content_hash_object producer_content_def)
qed

lemma content_hash_ignores_assigned_witness:
  "compute_content_hash (\<lambda>_. (''1'', 0)) (\<lambda>b. b) (JObject ([(''ctx_id'', JString ''acdp://r/x'')] @ demo_body)) =
     compute_content_hash (\<lambda>_. (''1'', 0)) (\<lambda>b. b) (JObject demo_body)"
  by (rule content_hash_ignores_assigned) (simp add: EXCLUDE_def)

end
