(* ===== verification/Acdp_Keys.thy ===== *)
theory Acdp_Keys
  imports Acdp_Types Acdp_Hash
begin

text \<open>
  Keys and signatures: \<open>did:key\<close> identifiers (\<open>crates/acdp-did/src/key.rs\<close>), DID documents
  (\<open>crates/acdp-did/src/document.rs\<close>), key fingerprints (\<open>crates/acdp-crypto/src/fingerprint.rs\<close>),
  the two signature algorithms (\<open>crates/acdp-crypto/src/verify.rs\<close>) and the signature envelopes of
  \<open>crates/acdp-verify/src/lib.rs\<close>.

  Third-party primitives are the fields of the record \<open>ext\<close>: SHA-256, the digit generator of the JSON
  canonicalizer, base58, the two base64 engines, the curve operations of \<open>ed25519_dalek\<close> and \<open>p256\<close>,
  and the date formatting and parsing of \<open>chrono\<close>. A property that relies on one of them names the
  documented behaviour it needs as a hypothesis.
\<close>

record ext =
  x_sci :: "u64 \<Rightarrow> string \<times> int"
  x_sha256 :: "bytes \<Rightarrow> bytes"
  x_bs58_decode :: "string \<Rightarrow> bytes option"
  x_bs58_encode :: "bytes \<Rightarrow> string"
  x_b64_decode :: "string \<Rightarrow> bytes option"
  x_b64url_decode :: "string \<Rightarrow> bytes option"
  x_b64url_encode :: "bytes \<Rightarrow> string"
  x_ed25519_key_ok :: "bytes \<Rightarrow> bool"
  x_ed25519_sig_ok :: "bytes \<Rightarrow> bool"
  x_ed25519_verify_strict :: "bytes \<Rightarrow> bytes \<Rightarrow> bytes \<Rightarrow> bool"
  x_p256_point :: "bytes \<Rightarrow> bool \<Rightarrow> bytes option"
  x_p256_sig_ok :: "bytes \<Rightarrow> bool"
  x_p256_verify :: "bytes \<Rightarrow> bytes \<Rightarrow> bytes \<Rightarrow> bool"
  x_fmt_ms :: "instant \<Rightarrow> string"
  x_fmt_auto :: "instant \<Rightarrow> string"
  x_parse_rfc3339 :: "string \<Rightarrow> instant option"
  x_json_len :: "json \<Rightarrow> nat"
  x_b64_encode :: "bytes \<Rightarrow> string"
  x_ed25519_sign :: "bytes \<Rightarrow> bytes \<Rightarrow> bytes"
  x_p256_sign :: "bytes \<Rightarrow> bytes \<Rightarrow> bytes"
  x_p256_normalize_s :: "bytes \<Rightarrow> bytes"
  x_parse_datetime :: "string \<Rightarrow> instant option"

text \<open>
  \<open>x_p256_point sec1 compress\<close> is \<open>VerifyingKey::from_sec1_bytes(sec1)\<close> followed by
  \<open>to_sec1_point(compress)\<close>; \<open>x_fmt_ms\<close> is \<open>format("%Y-%m-%dT%H:%M:%S%.3fZ")\<close> and \<open>x_fmt_auto\<close> is
  \<open>to_rfc3339_opts(AutoSi, true)\<close>; \<open>x_parse_rfc3339\<close> is \<open>DateTime::parse_from_rfc3339\<close> and \<open>x_parse_datetime\<close> the
  text form of \<open>DateTime::<Utc>::deserialize\<close>; \<open>x_json_len\<close> is the length of the text \<open>serde_json::to_vec\<close> writes.
  The signing functions take the secret key and the message and return the 64 signature bytes.
\<close>

section \<open>JSON values\<close>

text \<open>\<open>Value::as_str\<close>, \<open>as_object\<close> and \<open>get\<close>; indexing with a string key is \<open>get\<close> with \<open>Null\<close> for absence.\<close>

fun as_str :: "json \<Rightarrow> string option" where
  "as_str (JString s) = Some s"
| "as_str _ = None"

fun as_object :: "json \<Rightarrow> json_map option" where
  "as_object (JObject ms) = Some ms"
| "as_object _ = None"

definition json_get :: "json \<Rightarrow> string \<Rightarrow> json option" where
  "json_get v k = Option.bind (as_object v) (\<lambda>ms. map_of ms k)"

definition get_str :: "json \<Rightarrow> string \<Rightarrow> string option" where
  "get_str v k = Option.bind (json_get v k) as_str"

definition unwrap_or :: "'a option \<Rightarrow> 'a \<Rightarrow> 'a" where
  "unwrap_or m d = (case m of None \<Rightarrow> d | Some x \<Rightarrow> x)"

lemma unwrap_or_simps [simp]: "unwrap_or None d = d" "unwrap_or (Some x) d = x"
  by (simp_all add: unwrap_or_def)

section \<open>Keys in identifiers\<close>

definition MULTICODEC_ED25519 :: bytes where
  "MULTICODEC_ED25519 = [0xed, 0x01]"

definition MULTICODEC_P256 :: bytes where
  "MULTICODEC_P256 = [0x80, 0x24]"

datatype did_key_material = Ed25519 bytes | EcdsaP256 bytes

fun material_algorithm :: "did_key_material \<Rightarrow> string" where
  "material_algorithm (Ed25519 _) = ''ed25519''"
| "material_algorithm (EcdsaP256 _) = ''ecdsa-p256''"

definition decode_multibase_key :: "ext \<Rightarrow> string \<Rightarrow> did_key_material acdp_result" where
  "decode_multibase_key E msi =
     rbind (ok_or (strip_prefix ''z'' msi) KeyResolution) (\<lambda>rest.
     rbind (ok_or (x_bs58_decode E rest) KeyResolution) (\<lambda>decoded.
     if length decoded \<ge> 2 \<and> take 2 decoded = MULTICODEC_ED25519 then
       (let key = drop 2 decoded in
        rbind (require (length key = 32) KeyResolution) (\<lambda>_. Inr (Ed25519 key)))
     else if length decoded \<ge> 2 \<and> take 2 decoded = MULTICODEC_P256 then
       (let key = drop 2 decoded in
        rbind (require (length key = 33) KeyResolution) (\<lambda>_.
        rbind (require (hd key \<in> {0x02, 0x03}) KeyResolution) (\<lambda>_. Inr (EcdsaP256 key))))
     else Inl KeyResolution))"

definition resolve_did_key :: "ext \<Rightarrow> string \<Rightarrow> did_key_material acdp_result" where
  "resolve_did_key E did =
     rbind (ok_or (strip_prefix ''did:key:'' did) KeyResolution) (decode_multibase_key E)"

definition resolve_did_key_url :: "ext \<Rightarrow> string \<Rightarrow> did_key_material acdp_result" where
  "resolve_did_key_url E key_id =
     rbind (ok_or (split_once CHR ''#'' key_id) KeyResolution) (\<lambda>(did_part, fragment).
     rbind (ok_or (strip_prefix ''did:key:'' did_part) KeyResolution) (\<lambda>msi.
     rbind (require (fragment = msi) KeyResolution) (\<lambda>_.
     decode_multibase_key E msi)))"

definition did_key_from_ed25519 :: "ext \<Rightarrow> bytes \<Rightarrow> string" where
  "did_key_from_ed25519 E public_key = ''did:key:z'' @ x_bs58_encode E (MULTICODEC_ED25519 @ public_key)"

definition did_key_from_p256_sec1 :: "ext \<Rightarrow> bytes \<Rightarrow> string acdp_result" where
  "did_key_from_p256_sec1 E sec1 =
     rbind (ok_or (x_p256_point E sec1 True) KeyResolution) (\<lambda>compressed.
     Inr (''did:key:z'' @ x_bs58_encode E (MULTICODEC_P256 @ compressed)))"

definition did_key_url :: "string \<Rightarrow> string acdp_result" where
  "did_key_url did =
     rbind (ok_or (strip_prefix ''did:key:'' did) KeyResolution) (\<lambda>msi. Inr (did @ ''#'' @ msi))"

text \<open>\<open>authority_to_did_web\<close> of \<open>crates/acdp-did/src/web.rs\<close>: every colon of the authority is encoded.\<close>

definition authority_to_did_web :: "string \<Rightarrow> string" where
  "authority_to_did_web authority =
     ''did:web:'' @ concat (map (\<lambda>c. if c = CHR '':'' then ''%3A'' else [c]) authority)"

section \<open>DID documents\<close>

definition KEYLESS_FRAGMENT_PREFIX :: string where
  "KEYLESS_FRAGMENT_PREFIX = ''acdp-kl-''"

record verification_method =
  vm_id :: string
  vm_type :: string
  vm_controller :: string
  vm_public_key_jwk :: "json option"
  vm_public_key_multibase :: "string option"

datatype assertion_method_ref = MethodId string | Embedded verification_method

record did_document =
  doc_id :: string
  doc_methods :: "verification_method list"
  doc_assertion :: "assertion_method_ref list"
  doc_services :: "json list"

text \<open>The part after the last \<open>#\<close> (\<open>rsplit_once\<close>).\<close>

definition fragment_of :: "string \<Rightarrow> string option" where
  "fragment_of i = map_option (\<lambda>(frag, _). rev frag) (split_once CHR ''#'' (rev i))"

definition absolutize :: "did_document \<Rightarrow> string \<Rightarrow> string" where
  "absolutize doc vm_ref =
     (case strip_prefix ''#'' vm_ref of Some frag \<Rightarrow> doc_id doc @ ''#'' @ frag | None \<Rightarrow> vm_ref)"

definition find_by_fragment :: "did_document \<Rightarrow> string \<Rightarrow> verification_method option" where
  "find_by_fragment doc fragment =
     (if starts_with KEYLESS_FRAGMENT_PREFIX fragment then None
      else find (\<lambda>m. fragment_of (vm_id m) = Some fragment) (doc_methods doc))"

definition is_assertion_method :: "did_document \<Rightarrow> string \<Rightarrow> bool" where
  "is_assertion_method doc i =
     list_ex (\<lambda>r. case r of MethodId j \<Rightarrow> absolutize doc j = absolutize doc i
                   | Embedded m \<Rightarrow> absolutize doc (vm_id m) = absolutize doc i) (doc_assertion doc)"

definition extract_from_jwk :: "ext \<Rightarrow> json \<Rightarrow> bytes acdp_result" where
  "extract_from_jwk E jwk =
     rbind (require (\<not> (unwrap_or (get_str jwk ''kty'') [] \<noteq> ''OKP'' \<or>
                        unwrap_or (get_str jwk ''crv'') [] \<noteq> ''Ed25519'')) KeyResolution) (\<lambda>_.
     rbind (ok_or (get_str jwk ''x'') KeyResolution) (\<lambda>x.
     rbind (ok_or (x_b64url_decode E x) KeyResolution) (\<lambda>bs.
     rbind (require (length bs = 32) KeyResolution) (\<lambda>_. Inr bs))))"

definition extract_p256_from_jwk :: "ext \<Rightarrow> json \<Rightarrow> bytes acdp_result" where
  "extract_p256_from_jwk E jwk =
     rbind (require (\<not> (unwrap_or (get_str jwk ''kty'') [] \<noteq> ''EC'' \<or>
                        unwrap_or (get_str jwk ''crv'') [] \<noteq> ''P-256'')) KeyResolution) (\<lambda>_.
     rbind (ok_or (get_str jwk ''x'') KeyResolution) (\<lambda>x.
     rbind (ok_or (get_str jwk ''y'') KeyResolution) (\<lambda>y.
     rbind (ok_or (x_b64url_decode E x) KeyResolution) (\<lambda>x_bytes.
     rbind (ok_or (x_b64url_decode E y) KeyResolution) (\<lambda>y_bytes.
     rbind (require (\<not> (length x_bytes \<noteq> 32 \<or> length y_bytes \<noteq> 32)) KeyResolution) (\<lambda>_.
     Inr (0x04 # x_bytes @ y_bytes)))))))"

definition extract_from_multibase :: "ext \<Rightarrow> string \<Rightarrow> bytes acdp_result" where
  "extract_from_multibase E mb =
     rbind (require (starts_with ''z'' mb) KeyResolution) (\<lambda>_.
     rbind (ok_or (x_bs58_decode E (drop 1 mb)) KeyResolution) (\<lambda>decoded.
     rbind (require (\<not> (length decoded < 2 \<or> decoded ! 0 \<noteq> 0xed \<or> decoded ! 1 \<noteq> 0x01)) KeyResolution) (\<lambda>_.
     rbind (require (length (drop 2 decoded) = 32) KeyResolution) (\<lambda>_. Inr (drop 2 decoded)))))"

definition multicodec_algorithm :: "ext \<Rightarrow> string \<Rightarrow> string option" where
  "multicodec_algorithm E mb =
     Option.bind (strip_prefix ''z'' mb) (\<lambda>rest.
     Option.bind (x_bs58_decode E rest) (\<lambda>decoded.
     if length decoded \<ge> 2 \<and> take 2 decoded = MULTICODEC_ED25519 then Some ''ed25519''
     else if length decoded \<ge> 2 \<and> take 2 decoded = MULTICODEC_P256 then Some ''ecdsa-p256''
     else None))"

definition ed25519_public_key_bytes :: "ext \<Rightarrow> verification_method \<Rightarrow> bytes acdp_result" where
  "ed25519_public_key_bytes E m =
     (case vm_public_key_jwk m of
        Some jwk \<Rightarrow> extract_from_jwk E jwk
      | None \<Rightarrow> (case vm_public_key_multibase m of
          Some mb \<Rightarrow> extract_from_multibase E mb
        | None \<Rightarrow> Inl KeyResolution))"

definition ecdsa_p256_public_key_sec1 :: "ext \<Rightarrow> verification_method \<Rightarrow> bytes acdp_result" where
  "ecdsa_p256_public_key_sec1 E m =
     (case vm_public_key_jwk m of
        Some jwk \<Rightarrow> extract_p256_from_jwk E jwk
      | None \<Rightarrow> Inl KeyResolution)"

definition declared_algorithm :: "ext \<Rightarrow> verification_method \<Rightarrow> string option" where
  "declared_algorithm E m =
     (if vm_type m \<in> {''Ed25519VerificationKey2020'', ''Ed25519VerificationKey2018''} then Some ''ed25519''
      else if vm_type m = ''EcdsaSecp256r1VerificationKey2019'' then Some ''ecdsa-p256''
      else if vm_type m = ''JsonWebKey2020'' then
        Option.bind (vm_public_key_jwk m) (\<lambda>jwk.
        Option.bind (get_str jwk ''kty'') (\<lambda>kty.
        Option.bind (get_str jwk ''crv'') (\<lambda>crv.
        if kty = ''OKP'' \<and> crv = ''Ed25519'' then Some ''ed25519''
        else if kty = ''EC'' \<and> crv = ''P-256'' then Some ''ecdsa-p256''
        else None)))
      else Option.bind (vm_public_key_multibase m) (multicodec_algorithm E))"

definition did_key_document :: "ext \<Rightarrow> string \<Rightarrow> did_document acdp_result" where
  "did_key_document E did =
     rbind (resolve_did_key E did) (\<lambda>material.
     rbind (did_key_url did) (\<lambda>vm.
     rbind (case material of
              Ed25519 _ \<Rightarrow> Inr (''Multikey'', None, strip_prefix ''did:key:'' did)
            | EcdsaP256 compressed \<Rightarrow>
                rbind (ok_or (x_p256_point E compressed False) KeyResolution) (\<lambda>bs.
                Inr (''JsonWebKey2020'',
                     Some (JObject [(''kty'', JString ''EC''), (''crv'', JString ''P-256''),
                       (''x'', JString (x_b64url_encode E (take 32 (drop 1 bs)))),
                       (''y'', JString (x_b64url_encode E (take 32 (drop 33 bs))))]),
                     None))) (\<lambda>(method_type, jwk, mb).
     Inr \<lparr>doc_id = did,
          doc_methods = [\<lparr>vm_id = vm, vm_type = method_type, vm_controller = did,
                          vm_public_key_jwk = jwk, vm_public_key_multibase = mb\<rparr>],
          doc_assertion = [MethodId vm], doc_services = []\<rparr>)))"

section \<open>Fingerprints\<close>

definition fingerprint_ed25519 :: "ext \<Rightarrow> bytes \<Rightarrow> string" where
  "fingerprint_ed25519 E pk = ''sha256:'' @ hex_encode (x_sha256 E pk)"

definition fingerprint_p256_sec1 :: "ext \<Rightarrow> bytes \<Rightarrow> string acdp_result" where
  "fingerprint_p256_sec1 E sec1 =
     rbind (ok_or (x_p256_point E sec1 True) KeyResolution) (\<lambda>compressed.
     Inr (''sha256:'' @ hex_encode (x_sha256 E compressed)))"

fun fingerprint_did_key_material :: "ext \<Rightarrow> did_key_material \<Rightarrow> string acdp_result" where
  "fingerprint_did_key_material E (Ed25519 pk) = Inr (fingerprint_ed25519 E pk)"
| "fingerprint_did_key_material E (EcdsaP256 sec1) = fingerprint_p256_sec1 E sec1"

definition fingerprint_verification_method ::
  "ext \<Rightarrow> verification_method \<Rightarrow> string \<Rightarrow> string acdp_result" where
  "fingerprint_verification_method E m algorithm =
     (if algorithm = ''ed25519'' then
        rbind (ed25519_public_key_bytes E m) (\<lambda>pk. Inr (fingerprint_ed25519 E pk))
      else if algorithm = ''ecdsa-p256'' then
        rbind (ecdsa_p256_public_key_sec1 E m) (fingerprint_p256_sec1 E)
      else Inl UnsupportedAlgorithm)"

section \<open>Signatures\<close>

definition verify_ed25519 :: "ext \<Rightarrow> bytes \<Rightarrow> string \<Rightarrow> string \<Rightarrow> unit acdp_result" where
  "verify_ed25519 E pk sig_b64 message =
     rbind (require (x_ed25519_key_ok E pk) InvalidSignature) (\<lambda>_.
     rbind (ok_or (x_b64_decode E sig_b64) InvalidSignature) (\<lambda>sig_bytes.
     rbind (require (x_ed25519_sig_ok E sig_bytes) InvalidSignature) (\<lambda>_.
     require (x_ed25519_verify_strict E pk (string_bytes message) sig_bytes) InvalidSignature)))"

definition verify_ecdsa_p256 :: "ext \<Rightarrow> bytes \<Rightarrow> string \<Rightarrow> string \<Rightarrow> unit acdp_result" where
  "verify_ecdsa_p256 E sec1 sig_b64 message =
     rbind (require (x_p256_point E sec1 True \<noteq> None) InvalidSignature) (\<lambda>_.
     rbind (ok_or (x_b64_decode E sig_b64) InvalidSignature) (\<lambda>sig_bytes.
     rbind (require (length sig_bytes = 64) InvalidSignature) (\<lambda>_.
     rbind (require (x_p256_sig_ok E sig_bytes) InvalidSignature) (\<lambda>_.
     require (x_p256_verify E sec1 (string_bytes message) sig_bytes) InvalidSignature))))"

definition verify_signature_with_method ::
  "ext \<Rightarrow> verification_method \<Rightarrow> signature \<Rightarrow> content_hash \<Rightarrow> unit acdp_result" where
  "verify_signature_with_method E m s h =
     rbind (require (case declared_algorithm E m of None \<Rightarrow> True | Some declared \<Rightarrow> declared = sig_algorithm s)
              InvalidSignature) (\<lambda>_.
     if sig_algorithm s = ''ed25519'' then
       rbind (ed25519_public_key_bytes E m) (\<lambda>pk. verify_ed25519 E pk (sig_value s) h)
     else if sig_algorithm s = ''ecdsa-p256'' then
       rbind (ecdsa_p256_public_key_sec1 E m) (\<lambda>pk. verify_ecdsa_p256 E pk (sig_value s) h)
     else Inl UnsupportedAlgorithm)"

definition verify_did_key_envelope :: "ext \<Rightarrow> signature \<Rightarrow> content_hash \<Rightarrow> unit acdp_result" where
  "verify_did_key_envelope E s h =
     rbind (resolve_did_key_url E (sig_key_id s)) (\<lambda>material.
     rbind (require (material_algorithm material = sig_algorithm s) InvalidSignature) (\<lambda>_.
     case material of
       Ed25519 pk \<Rightarrow> verify_ed25519 E pk (sig_value s) h
     | EcdsaP256 sec1 \<Rightarrow> verify_ecdsa_p256 E sec1 (sig_value s) h))"

definition refuse_keyless_fragment :: "string \<Rightarrow> unit acdp_result" where
  "refuse_keyless_fragment fragment = require (\<not> starts_with KEYLESS_FRAGMENT_PREFIX fragment) KeyResolution"

text \<open>
  The network side of \<open>did:web\<close> resolution is the argument \<open>resolve\<close>: the document \<open>resolve_until\<close>
  returned for a DID and whether it is fresh. A \<open>did:web\<close> key is looked up in that document.
\<close>

type_synonym web_resolver = "string \<Rightarrow> (did_document \<times> bool) acdp_result"

definition document_key ::
  "web_resolver \<Rightarrow> string \<Rightarrow> string \<Rightarrow> verification_method acdp_result" where
  "document_key resolve did_part fragment =
     rbind (resolve did_part) (\<lambda>(doc, fresh).
     case find_by_fragment doc fragment of
       None \<Rightarrow> Inl (if fresh then KeyResolution else KeyResolutionUnreachable)
     | Some m \<Rightarrow> if is_assertion_method doc (vm_id m) then Inr m else Inl KeyNotAuthorized)"

definition verify_signature_envelope ::
  "ext \<Rightarrow> web_resolver \<Rightarrow> agent_did \<Rightarrow> signature \<Rightarrow> content_hash \<Rightarrow> unit acdp_result" where
  "verify_signature_envelope E resolve agent s h =
     rbind (ok_or (split_once CHR ''#'' (sig_key_id s)) KeyResolution) (\<lambda>(did_part, fragment).
     rbind (require (fragment \<noteq> []) KeyResolution) (\<lambda>_.
     rbind (refuse_keyless_fragment fragment) (\<lambda>_.
     rbind (require (did_part = agent) KeyNotAuthorized) (\<lambda>_.
     if starts_with ''did:key:'' did_part then verify_did_key_envelope E s h
     else rbind (require (starts_with ''did:web:'' did_part) KeyNotAuthorized) (\<lambda>_.
       rbind (document_key resolve did_part fragment) (\<lambda>m.
       verify_signature_with_method E m s h))))))"

end
