(* ===== verification/Acdp_Validation.thy ===== *)
theory Acdp_Validation
  imports Acdp_Keys
begin

text \<open>
  Runtime validation of capabilities documents, publish requests and stored bodies
  (\<open>crates/acdp-validation/src/lib.rs\<close>), with the capabilities document and its profiles
  (\<open>crates/acdp-types/src/capabilities.rs\<close>, \<open>profile.rs\<close>). A validator that runs a fixed list of
  checks is \<open>checks\<close> of that list in the order of the source, so that it fails with the first error.
\<close>

section \<open>Limits\<close>

definition MAX_TITLE_LEN :: nat where "MAX_TITLE_LEN = 500"
definition MAX_DESCRIPTION_LEN :: nat where "MAX_DESCRIPTION_LEN = 5000"
definition MAX_SUMMARY_LEN :: nat where "MAX_SUMMARY_LEN = 1000"
definition MAX_DOMAIN_LEN :: nat where "MAX_DOMAIN_LEN = 200"
definition MAX_DATA_REF_DESCRIPTION_LEN :: nat where "MAX_DATA_REF_DESCRIPTION_LEN = 1000"
definition MAX_TAG_LEN :: nat where "MAX_TAG_LEN = 100"
definition MAX_CONTRIBUTORS :: nat where "MAX_CONTRIBUTORS = 100"
definition MAX_TAGS :: nat where "MAX_TAGS = 200"
definition MAX_DERIVED_FROM :: nat where "MAX_DERIVED_FROM = 1000"
definition MAX_AUDIENCE :: nat where "MAX_AUDIENCE = 1000"
definition MAX_METADATA_PROPERTIES :: nat where "MAX_METADATA_PROPERTIES = 100"
definition MAX_METADATA_DEPTH :: nat where "MAX_METADATA_DEPTH = 8"
definition MAX_METADATA_JCS_BYTES :: nat where "MAX_METADATA_JCS_BYTES = 65536"
definition MAX_URI_LEN :: nat where "MAX_URI_LEN = 4096"
definition MAX_ANCHORS :: nat where "MAX_ANCHORS = 100"
definition MAX_EMBEDDED_BYTES :: nat where "MAX_EMBEDDED_BYTES = 65536"
definition ED25519_SIG_B64_LEN :: nat where "ED25519_SIG_B64_LEN = 88"
definition ECDSA_P256_SIG_B64_LEN :: nat where "ECDSA_P256_SIG_B64_LEN = 88"

section \<open>Versions\<close>

text \<open>\<open>p.parse::<u64>()\<close>: an optional \<open>+\<close> and decimal digits that fit the type.\<close>

definition parse_u64 :: "string \<Rightarrow> u64 option" where
  "parse_u64 s =
     (let ds = (case s of c # r \<Rightarrow> (if c = CHR ''+'' then r else s) | [] \<Rightarrow> s) in
      case parse_digits ds of
        None \<Rightarrow> None
      | Some n \<Rightarrow> if n < 2 ^ 64 then Some (of_nat n) else None)"

definition version_at_least :: "string \<Rightarrow> u64 \<Rightarrow> u64 \<Rightarrow> bool" where
  "version_at_least v major minor =
     (case List.map_filter parse_u64 (split_on CHR ''.'' v) of
        ma # mi # _ \<Rightarrow> major < ma \<or> ma = major \<and> minor \<le> mi
      | _ \<Rightarrow> False)"

text \<open>
  \<open>is_well_formed_version\<close> of \<open>registry/validator.rs\<close> is the same test as the one inside
  \<open>validate_semver_pattern\<close>.
\<close>

definition is_well_formed_version :: "string \<Rightarrow> bool" where
  "is_well_formed_version v =
     (let parts = split_on CHR ''.'' v in
      length parts = 3 \<and> list_all (\<lambda>p. p \<noteq> [] \<and> list_all is_ascii_digit p) parts)"

definition validate_semver_pattern :: "string \<Rightarrow> unit acdp_result" where
  "validate_semver_pattern v = require (is_well_formed_version v) SchemaViolation"

section \<open>Capabilities\<close>

record limits =
  lm_max_payload_bytes :: u64
  lm_max_embedded_bytes :: u64
  lm_idempotency_key_ttl_seconds :: "u32 option"
  lm_max_publish_per_minute :: "u64 option"
  lm_change_retention_seconds :: "u64 option"
  lm_max_change_filters :: "u64 option"
  lm_max_changes_page :: "u64 option"
  lm_max_change_bucket_length :: "u16 option"
  lm_max_subscriptions_per_requester :: "u64 option"
  lm_max_reads_per_minute :: "u64 option"
  lm_max_anonymous_reads_per_minute :: "u64 option"
  lm_extensions :: json_map

record capabilities =
  cap_acdp_version :: string
  cap_registry_did :: string
  cap_supported_signature_algorithms :: "string list"
  cap_supported_did_methods :: "string list"
  cap_profiles :: "string list"
  cap_limits :: limits
  cap_read_authentication_methods :: "string list"
  cap_anonymous_public_reads :: bool
  cap_supports_idempotency_key :: bool
  cap_extensions :: json_map

definition supports_algorithm :: "capabilities \<Rightarrow> string \<Rightarrow> bool" where
  "supports_algorithm caps a \<longleftrightarrow> a \<in> set (cap_supported_signature_algorithms caps)"

definition supports_did_method :: "capabilities \<Rightarrow> string \<Rightarrow> bool" where
  "supports_did_method caps m \<longleftrightarrow> m \<in> set (cap_supported_did_methods caps)"

datatype profile =
    RegistryCore | RegistryDiscovery | RegistryFederated | RegistryReceipts | RegistryHeadReceipts
  | RegistryLifecycle | RegistryChanges | RegistryEvents | Consumer | ConsumerRecall

fun profile_as_str :: "profile \<Rightarrow> string" where
  "profile_as_str RegistryCore = ''acdp-registry-core''"
| "profile_as_str RegistryDiscovery = ''acdp-registry-discovery''"
| "profile_as_str RegistryFederated = ''acdp-registry-federated''"
| "profile_as_str RegistryReceipts = ''acdp-registry-receipts''"
| "profile_as_str RegistryHeadReceipts = ''acdp-registry-head-receipts''"
| "profile_as_str RegistryLifecycle = ''acdp-registry-lifecycle''"
| "profile_as_str RegistryChanges = ''acdp-registry-changes''"
| "profile_as_str RegistryEvents = ''acdp-registry-events''"
| "profile_as_str Consumer = ''acdp-consumer''"
| "profile_as_str ConsumerRecall = ''acdp-consumer-recall''"

definition claims_profile :: "capabilities \<Rightarrow> profile \<Rightarrow> bool" where
  "claims_profile caps p \<longleftrightarrow> profile_as_str p \<in> set (cap_profiles caps)"

definition supports_required :: "capabilities \<Rightarrow> profile list \<Rightarrow> unit acdp_result" where
  "supports_required caps ps = each (\<lambda>p. require (claims_profile caps p) SchemaViolation) ps"

definition MAX_CHANGE_BUCKET_LENGTH :: u16 where "MAX_CHANGE_BUCKET_LENGTH = 16"
definition MIN_ADVERTISED_CHANGE_BUCKET_LENGTH :: u16 where "MIN_ADVERTISED_CHANGE_BUCKET_LENGTH = 4"

definition validate_capabilities :: "capabilities \<Rightarrow> unit acdp_result" where
  "validate_capabilities caps =
     (let lim = cap_limits caps in
      checks
       [validate_semver_pattern (cap_acdp_version caps),
        opt_check (lm_max_publish_per_minute lim) (\<lambda>n. require (\<not> n < 1) SchemaViolation),
        each (\<lambda>v. require (v \<noteq> Some 0) SchemaViolation)
          [lm_max_reads_per_minute lim, lm_max_anonymous_reads_per_minute lim],
        opt_check (lm_max_change_bucket_length lim) (\<lambda>n.
          require (MIN_ADVERTISED_CHANGE_BUCKET_LENGTH \<le> n \<and> n \<le> MAX_CHANGE_BUCKET_LENGTH) SchemaViolation),
        require (\<not> (version_at_least (cap_acdp_version caps) 0 3 \<and> \<not> cap_supports_idempotency_key caps))
          SchemaViolation,
        (case agent_did_parse_web (cap_registry_did caps) of Inl _ \<Rightarrow> Inl SchemaViolation | Inr _ \<Rightarrow> Inr ()),
        require (''ed25519'' \<in> set (cap_supported_signature_algorithms caps)) SchemaViolation,
        require (''did:web'' \<in> set (cap_supported_did_methods caps)) SchemaViolation,
        require (''acdp-registry-core'' \<in> set (cap_profiles caps)) SchemaViolation,
        require (lm_max_embedded_bytes lim = 65536) SchemaViolation,
        require (\<not> lm_max_payload_bytes lim < 1024) SchemaViolation,
        (if cap_supports_idempotency_key caps then
           rbind (ok_or (lm_idempotency_key_ttl_seconds lim) SchemaViolation) (\<lambda>ttl.
           require (86400 \<le> ttl \<and> ttl \<le> 604800) SchemaViolation)
         else Inr ())])"

section \<open>Strings and arrays\<close>

definition validate_title :: "string \<Rightarrow> unit acdp_result" where
  "validate_title t = require (\<not> (t = [] \<or> MAX_TITLE_LEN < char_count t)) SchemaViolation"

definition validate_optional_string :: "string option \<Rightarrow> nat \<Rightarrow> unit acdp_result" where
  "validate_optional_string s max_len =
     opt_check s (\<lambda>v. require (\<not> max_len < char_count v) SchemaViolation)"

text \<open>The duplicate scan: each item against the items after it, with the equality of the element type.\<close>

fun no_duplicates :: "('a \<Rightarrow> 'a \<Rightarrow> bool) \<Rightarrow> 'a list \<Rightarrow> bool" where
  "no_duplicates eq [] = True"
| "no_duplicates eq (x # xs) \<longleftrightarrow> \<not> list_ex (\<lambda>y. eq y x) xs \<and> no_duplicates eq xs"

definition validate_unique_array :: "('a \<Rightarrow> 'a \<Rightarrow> bool) \<Rightarrow> 'a list \<Rightarrow> nat \<Rightarrow> unit acdp_result" where
  "validate_unique_array eq items max_items =
     checks [require (\<not> max_items < length items) SchemaViolation,
             require (no_duplicates eq items) SchemaViolation]"

definition validate_tag :: "string \<Rightarrow> unit acdp_result" where
  "validate_tag tag =
     checks [require (\<not> (tag = [] \<or> MAX_TAG_LEN < length tag)) SchemaViolation,
             require (first_is is_ascii_alphanumeric tag) SchemaViolation,
             require (list_all (\<lambda>c. is_ascii_alphanumeric c \<or> c \<in> set ''_.-'') (tl tag)) SchemaViolation]"

definition validate_tags :: "string list \<Rightarrow> unit acdp_result" where
  "validate_tags tags =
     checks [require (\<not> MAX_TAGS < length tags) SchemaViolation,
             each validate_tag tags,
             require (no_duplicates (=) tags) SchemaViolation]"

definition validate_visibility_audience :: "visibility \<Rightarrow> agent_did list option \<Rightarrow> unit acdp_result" where
  "validate_visibility_audience vis audience =
     (case vis of
        Restricted \<Rightarrow> require (\<not> (case audience of None \<Rightarrow> True | Some a \<Rightarrow> a = [])) SchemaViolation
      | Public \<Rightarrow> require (\<not> (case audience of None \<Rightarrow> False | Some a \<Rightarrow> a \<noteq> [])) SchemaViolation
      | Private \<Rightarrow> Inr ())"

definition validate_namespaced_context_type :: "string \<Rightarrow> unit acdp_result" where
  "validate_namespaced_context_type value =
     rbind (ok_or (split_once CHR '':'' value) SchemaViolation) (\<lambda>(ns, name).
     rbind (require (\<not> (ns = [] \<or> \<not> first_is is_ascii_lowercase ns \<or>
              \<not> list_all (\<lambda>c. is_lower_alnum c \<or> c = CHR ''_'') ns)) SchemaViolation) (\<lambda>_.
     require (\<not> (name = [] \<or> \<not> first_is is_ascii_lowercase name \<or>
              \<not> list_all (\<lambda>c. is_lower_alnum c \<or> c \<in> set ''_-'') name)) SchemaViolation))"

fun namespaced_form :: "context_type \<Rightarrow> string option" where
  "namespaced_form (Custom s) = Some s"
| "namespaced_form _ = None"

definition validate_signature_length :: "string \<Rightarrow> string \<Rightarrow> unit acdp_result" where
  "validate_signature_length algorithm value_b64 =
     (let expected = (if algorithm = ''ed25519'' then Some ED25519_SIG_B64_LEN
                      else if algorithm = ''ecdsa-p256'' then Some ECDSA_P256_SIG_B64_LEN
                      else None)
      in opt_check expected (\<lambda>n. require (length value_b64 = n) InvalidSignature))"

section \<open>Identifiers\<close>

definition validate_did_key_key_id_form :: "ext \<Rightarrow> string \<Rightarrow> unit acdp_result" where
  "validate_did_key_key_id_form E key_id =
     (if \<not> starts_with ''did:key:'' key_id then Inr () else void (resolve_did_key_url E key_id))"

definition validate_agent_did :: "ext \<Rightarrow> agent_did \<Rightarrow> bool \<Rightarrow> unit acdp_result" where
  "validate_agent_did E did resolve =
     (if starts_with ''did:key:'' did then
        rbind (agent_did_parse did) (\<lambda>_. if \<not> resolve then Inr () else void (resolve_did_key E did))
      else void (agent_did_parse_web did))"

definition validate_loose_did :: "agent_did \<Rightarrow> unit acdp_result" where
  "validate_loose_did did = void (agent_did_parse did)"

definition validate_origin_registry :: "string \<Rightarrow> unit acdp_result" where
  "validate_origin_registry s =
     checks [require (s \<noteq> []) SchemaViolation,
             require (\<not> starts_with ''did:'' s) SchemaViolation,
             require (\<not> contains ''://'' s) SchemaViolation,
             require (\<not> (last_is (\<lambda>c. c = CHR ''.'') s \<or> starts_with ''.'' s)) SchemaViolation,
             require (is_valid_dns_authority s) SchemaViolation]"

definition validate_identifiers :: "ctx_id \<Rightarrow> lineage_id \<Rightarrow> content_hash \<Rightarrow> unit acdp_result" where
  "validate_identifiers c l h =
     checks [void (ctx_id_parse c), void (lineage_id_parse l), void (content_hash_parse h)]"

definition is_keyless_key_id :: "string \<Rightarrow> bool" where
  "is_keyless_key_id key_id =
     (case split_once CHR ''#'' key_id of
        None \<Rightarrow> False
      | Some (_, frag) \<Rightarrow> starts_with KEYLESS_FRAGMENT_PREFIX frag)"

definition check_key_attestation_presence :: "string \<Rightarrow> bool \<Rightarrow> unit acdp_result" where
  "check_key_attestation_presence key_id present =
     require (\<not> (present \<and> \<not> is_keyless_key_id key_id)) SchemaViolation"

text \<open>
  The derived \<open>Deserialize\<close> of \<open>KeyAttestationRef\<close>: an object with exactly the two string members, or
  the two strings in order as an array, which derived code accepts for any struct.
\<close>

definition key_attestation_deserialize :: "json \<Rightarrow> key_attestation_ref option" where
  "key_attestation_deserialize raw =
     (case raw of
        JObject ms \<Rightarrow>
          (if set (map fst ms) \<subseteq> {''ctx_id'', ''content_hash''} then
             (case (map_of ms ''ctx_id'', map_of ms ''content_hash'') of
                (Some (JString c), Some (JString h)) \<Rightarrow> Some \<lparr>ka_ctx_id = c, ka_content_hash = h\<rparr>
              | _ \<Rightarrow> None)
           else None)
      | JArray [JString c, JString h] \<Rightarrow> Some \<lparr>ka_ctx_id = c, ka_content_hash = h\<rparr>
      | _ \<Rightarrow> None)"

definition body_key_attestation :: "body \<Rightarrow> key_attestation_ref option acdp_result" where
  "body_key_attestation b =
     (case map_of (b_extensions b) KEY_ATTESTATION_FIELD of
        None \<Rightarrow> Inr None
      | Some raw \<Rightarrow>
          rbind (ok_or (key_attestation_deserialize raw) SchemaViolation) (\<lambda>r.
          rbind (key_attestation_validate r) (\<lambda>_. Inr (Some r))))"

section \<open>Free-form JSON\<close>

definition MAX_JSON_DEPTH_SCAN :: nat where "MAX_JSON_DEPTH_SCAN = 256"

text \<open>\<open>iter().max().unwrap_or(0)\<close>.\<close>

definition max_or_0 :: "nat list \<Rightarrow> nat" where
  "max_or_0 ns = fold max ns 0"

fun depth_go :: "json \<Rightarrow> nat \<Rightarrow> nat" where
  "depth_go v 0 = 1"
| "depth_go v (Suc budget) =
     (case v of
        JObject ms \<Rightarrow> 1 + max_or_0 (map (\<lambda>m. depth_go (snd m) budget) ms)
      | JArray vs \<Rightarrow> 1 + max_or_0 (map (\<lambda>x. depth_go x budget) vs)
      | _ \<Rightarrow> 0)"

definition json_depth :: "json \<Rightarrow> nat" where
  "json_depth v = depth_go v MAX_JSON_DEPTH_SCAN"

definition validate_json_object_limits :: "ext \<Rightarrow> json \<Rightarrow> unit acdp_result" where
  "validate_json_object_limits E v =
     rbind (ok_or (as_object v) SchemaViolation) (\<lambda>obj.
     rbind (require (\<not> MAX_METADATA_PROPERTIES < length obj) SchemaViolation) (\<lambda>_.
     rbind (require (\<not> MAX_METADATA_DEPTH < json_depth v) SchemaViolation) (\<lambda>_.
     rbind (try_canonicalize_value (x_sci E) v) (\<lambda>canonical.
     require (\<not> MAX_METADATA_JCS_BYTES < length canonical) SchemaViolation))))"

definition validate_metadata :: "ext \<Rightarrow> json \<Rightarrow> unit acdp_result" where
  "validate_metadata E v = validate_json_object_limits E v"

definition validate_extensions :: "ext \<Rightarrow> json_map \<Rightarrow> unit acdp_result" where
  "validate_extensions E m = (if m = [] then Inr () else validate_json_object_limits E (JObject m))"

text \<open>\<open>PartialEq\<close> of \<open>serde_json::Value\<close>: objects are equal whatever the order of their members.\<close>

fun number_eq :: "json_number \<Rightarrow> json_number \<Rightarrow> bool" where
  "number_eq (PosInt a) (PosInt b) \<longleftrightarrow> a = b"
| "number_eq (NegInt a) (NegInt b) \<longleftrightarrow> a = b"
| "number_eq (Float a) (Float b) \<longleftrightarrow> a = b \<or> f64_is_zero a \<and> f64_is_zero b"
| "number_eq _ _ \<longleftrightarrow> False"

function (sequential) value_eq :: "json \<Rightarrow> json \<Rightarrow> bool"
  and values_eq :: "json list \<Rightarrow> json list \<Rightarrow> bool"
  and members_eq :: "json_map \<Rightarrow> json_map \<Rightarrow> bool"
where
  "value_eq JNull JNull = True"
| "value_eq (JBool a) (JBool b) \<longleftrightarrow> a = b"
| "value_eq (JNumber a) (JNumber b) \<longleftrightarrow> number_eq a b"
| "value_eq (JString a) (JString b) \<longleftrightarrow> a = b"
| "value_eq (JArray a) (JArray b) \<longleftrightarrow> values_eq a b"
| "value_eq (JObject a) (JObject b) \<longleftrightarrow> length a = length b \<and> members_eq a b"
| "value_eq _ _ = False"
| "values_eq [] [] = True"
| "values_eq (v # vs) (w # ws) \<longleftrightarrow> value_eq v w \<and> values_eq vs ws"
| "values_eq _ _ = False"
| "members_eq [] ns = True"
| "members_eq ((k, v) # ms) ns \<longleftrightarrow>
     (case map_of ns k of None \<Rightarrow> False | Some w \<Rightarrow> value_eq v w) \<and> members_eq ms ns"
  by pat_completeness auto
termination
  by (relation "measure (\<lambda>x. case x of
        Inl (v, _) \<Rightarrow> 2 * size v
      | Inr (Inl (vs, _)) \<Rightarrow> 2 * size_list size vs + 1
      | Inr (Inr (ms, _)) \<Rightarrow> 2 * size_list (size_prod (\<lambda>_. 0) size) ms + 1)") auto

definition anchor_eq :: "anchor_entry \<Rightarrow> anchor_entry \<Rightarrow> bool" where
  "anchor_eq a b \<longleftrightarrow> an_scheme a = an_scheme b \<and> an_content_hash a = an_content_hash b \<and>
     an_uri a = an_uri b \<and> value_eq (JObject (an_extensions a)) (JObject (an_extensions b))"

definition validate_anchors :: "anchor_entry list \<Rightarrow> unit acdp_result" where
  "validate_anchors anchors =
     checks [require (anchors \<noteq> []) SchemaViolation,
             validate_unique_array anchor_eq anchors MAX_ANCHORS,
             each (\<lambda>a. checks [require (is_dotted_namespace_scheme (an_scheme a)) SchemaViolation,
                               void (content_hash_parse (an_content_hash a))]) anchors]"

section \<open>Data references\<close>

definition validate_uri_location :: "string \<Rightarrow> unit acdp_result" where
  "validate_uri_location uri =
     rbind (require (\<not> (length uri < 3 \<or> MAX_URI_LEN < length uri)) SchemaViolation) (\<lambda>_.
     rbind (ok_or (split_once CHR '':'' uri) SchemaViolation) (\<lambda>(scheme, rest).
     rbind (require (\<not> (scheme = [] \<or> \<not> first_is is_ascii_lowercase scheme \<or>
              \<not> list_all (\<lambda>c. is_lower_alnum c \<or> c \<in> set ''+.-'') scheme)) SchemaViolation) (\<lambda>_.
     opt_check (strip_prefix ''//'' rest) (\<lambda>after_slashes.
       require (CHR ''@'' \<notin> set (takeWhile (\<lambda>c. c \<notin> set ''/?#'') after_slashes)) SchemaViolation))))"

definition validate_structured_locator :: "json_map \<Rightarrow> unit acdp_result" where
  "validate_structured_locator m =
     rbind (ok_or (Option.bind (map_of m ''scheme'') as_str) SchemaViolation) (\<lambda>scheme.
     require (is_dotted_namespace_scheme scheme) SchemaViolation)"

definition validate_location :: "location \<Rightarrow> unit acdp_result" where
  "validate_location loc =
     (case loc of Uri uri \<Rightarrow> validate_uri_location uri | Structured m \<Rightarrow> validate_structured_locator m)"

definition embedded_decoded_bytes :: "ext \<Rightarrow> embedded_content \<Rightarrow> bytes acdp_result" where
  "embedded_decoded_bytes E emb =
     (case em_encoding emb of
        EncJson \<Rightarrow> rbind (try_canonicalize_value (x_sci E) (em_content emb)) (\<lambda>c. Inr (string_bytes c))
      | EncUtf8 \<Rightarrow> rbind (ok_or (as_str (em_content emb)) SchemaViolation) (\<lambda>s. Inr (string_bytes s))
      | EncBase64 \<Rightarrow> rbind (ok_or (as_str (em_content emb)) SchemaViolation) (\<lambda>s.
          ok_or (x_b64_decode E s) SchemaViolation))"

definition compute_embedded_hash :: "ext \<Rightarrow> embedded_content \<Rightarrow> content_hash acdp_result" where
  "compute_embedded_hash E emb =
     rbind (embedded_decoded_bytes E emb) (\<lambda>bs. Inr (''sha256:'' @ hex_encode (x_sha256 E bs)))"

definition verify_embedded_hash :: "ext \<Rightarrow> data_ref \<Rightarrow> unit acdp_result" where
  "verify_embedded_hash E dr =
     opt_check (dr_embedded dr) (\<lambda>emb.
     opt_check (em_content_hash emb) (\<lambda>declared.
     rbind (compute_embedded_hash E emb) (\<lambda>recomputed.
     require (recomputed = declared) DataRefHashMismatch)))"

definition validate_embedded :: "ext \<Rightarrow> embedded_content \<Rightarrow> unit acdp_result" where
  "validate_embedded E emb =
     rbind (require (em_encoding emb \<in> {EncUtf8, EncBase64} \<longrightarrow> as_str (em_content emb) \<noteq> None)
              SchemaViolation) (\<lambda>_.
     rbind (opt_check (em_content_hash emb) (\<lambda>h. void (content_hash_parse h))) (\<lambda>_.
     rbind (embedded_decoded_bytes E emb) (\<lambda>decoded.
     require (\<not> MAX_EMBEDDED_BYTES < length decoded) EmbeddedTooLarge)))"

definition validate_data_ref_structural :: "ext \<Rightarrow> data_ref \<Rightarrow> unit acdp_result" where
  "validate_data_ref_structural E dr =
     checks
      [require ((dr_location dr = None) \<noteq> (dr_embedded dr = None)) SchemaViolation,
       opt_check (dr_content_hash dr) (\<lambda>h. void (content_hash_parse h)),
       opt_check (dr_description dr) (\<lambda>d. require (\<not> MAX_DATA_REF_DESCRIPTION_LEN < length d) SchemaViolation),
       opt_check (dr_location dr) validate_location,
       opt_check (dr_embedded dr) (validate_embedded E)]"

definition validate_data_ref :: "ext \<Rightarrow> data_ref \<Rightarrow> unit acdp_result" where
  "validate_data_ref E dr = checks [validate_data_ref_structural E dr, verify_embedded_hash E dr]"

section \<open>Requests and bodies\<close>

definition validate_data_period :: "data_period \<Rightarrow> unit acdp_result" where
  "validate_data_period dp = require (\<not> dp_end dp < dp_start dp) SchemaViolation"

definition validate_audience :: "agent_did list \<Rightarrow> unit acdp_result" where
  "validate_audience audience =
     checks [validate_unique_array (=) audience MAX_AUDIENCE, each validate_loose_did audience]"

definition version_coherent :: "ctx_id option \<Rightarrow> u32 \<Rightarrow> unit acdp_result" where
  "version_coherent supersedes v =
     (case supersedes of
        None \<Rightarrow> require (v = 1) SchemaViolation
      | Some _ \<Rightarrow> require (2 \<le> v) SchemaViolation)"

definition validate_publish_request :: "ext \<Rightarrow> publish_request \<Rightarrow> unit acdp_result" where
  "validate_publish_request E req =
     checks
      [validate_title (pr_title req),
       validate_optional_string (pr_description req) MAX_DESCRIPTION_LEN,
       validate_optional_string (pr_summary req) MAX_SUMMARY_LEN,
       validate_optional_string (pr_domain req) MAX_DOMAIN_LEN,
       validate_agent_did E (pr_agent_id req) True,
       each validate_loose_did (pr_contributors req),
       validate_unique_array (=) (pr_contributors req) MAX_CONTRIBUTORS,
       validate_unique_array (=) (pr_derived_from req) MAX_DERIVED_FROM,
       opt_check (pr_tags req) validate_tags,
       opt_check (pr_audience req) validate_audience,
       validate_visibility_audience (pr_visibility req) (pr_audience req),
       opt_check (pr_data_period req) validate_data_period,
       opt_check (namespaced_form (pr_context_type req)) validate_namespaced_context_type,
       opt_check (pr_metadata req) (validate_metadata E),
       each (validate_data_ref E) (pr_data_refs req),
       opt_check (pr_anchors req) validate_anchors,
       opt_check (pr_key_attestation req) key_attestation_validate,
       check_key_attestation_presence (sig_key_id (pr_signature req)) (pr_key_attestation req \<noteq> None),
       validate_signature_length (sig_algorithm (pr_signature req)) (sig_value (pr_signature req)),
       validate_did_key_key_id_form E (sig_key_id (pr_signature req)),
       void (content_hash_parse (pr_content_hash req)),
       opt_check (pr_supersedes req) (\<lambda>c. void (ctx_id_parse c)),
       each (\<lambda>c. void (ctx_id_parse c)) (pr_derived_from req),
       opt_check (pr_lineage_id req) (\<lambda>l. void (lineage_id_parse l)),
       opt_check (pr_acdp_version req) validate_semver_pattern,
       version_coherent (pr_supersedes req) (pr_version req),
       require (\<not> (pr_version req = 1 \<and> pr_lineage_id req \<noteq> None)) SchemaViolation]"

definition validate_body_inner :: "ext \<Rightarrow> body \<Rightarrow> bool \<Rightarrow> bool \<Rightarrow> unit acdp_result" where
  "validate_body_inner E b check_embedded_hashes resolve_keys =
     checks
      [validate_title (b_title b),
       validate_optional_string (b_description b) MAX_DESCRIPTION_LEN,
       validate_optional_string (b_summary b) MAX_SUMMARY_LEN,
       validate_optional_string (b_domain b) MAX_DOMAIN_LEN,
       validate_agent_did E (b_agent_id b) resolve_keys,
       each validate_loose_did (b_contributors b),
       validate_unique_array (=) (b_contributors b) MAX_CONTRIBUTORS,
       validate_unique_array (=) (b_derived_from b) MAX_DERIVED_FROM,
       opt_check (b_tags b) validate_tags,
       opt_check (b_audience b) validate_audience,
       validate_visibility_audience (b_visibility b) (b_audience b),
       opt_check (b_data_period b) validate_data_period,
       opt_check (b_metadata b) (validate_metadata E),
       validate_extensions E (b_extensions b),
       each (\<lambda>dr. if check_embedded_hashes then validate_data_ref E dr else validate_data_ref_structural E dr)
         (b_data_refs b),
       opt_check (b_anchors b) validate_anchors,
       rbind (body_key_attestation b) (\<lambda>ka.
         if resolve_keys then check_key_attestation_presence (sig_key_id (b_signature b)) (ka \<noteq> None)
         else Inr ()),
       validate_signature_length (sig_algorithm (b_signature b)) (sig_value (b_signature b)),
       (if resolve_keys then validate_did_key_key_id_form E (sig_key_id (b_signature b)) else Inr ()),
       validate_identifiers (b_ctx_id b) (b_lineage_id b) (b_content_hash b),
       opt_check (b_supersedes b) (\<lambda>c. void (ctx_id_parse c)),
       each (\<lambda>c. void (ctx_id_parse c)) (b_derived_from b),
       opt_check (b_acdp_version b) validate_semver_pattern,
       validate_origin_registry (b_origin_registry b)]"

definition validate_body :: "ext \<Rightarrow> body \<Rightarrow> unit acdp_result" where
  "validate_body E b = validate_body_inner E b True True"

definition validate_body_schema :: "ext \<Rightarrow> body \<Rightarrow> unit acdp_result" where
  "validate_body_schema E b = validate_body_inner E b True False"

definition validate_body_structural :: "ext \<Rightarrow> body \<Rightarrow> unit acdp_result" where
  "validate_body_structural E b = validate_body_inner E b False True"

end
