(* ===== verification/Acdp_Verify.thy ===== *)
theory Acdp_Verify
  imports Acdp_Validation "HOL-Library.AList"
begin

text \<open>
  Verification of bodies, publish requests and lifecycle events (\<open>crates/acdp-verify/src\<close>), with the
  JSON form of the wire types that hashes are taken over: what the derived \<open>Serialize\<close> implementations
  of \<open>crates/acdp-types/src\<close> write, member by member in declaration order, an absent option leaving its
  member out.
\<close>

section \<open>JSON of the wire types\<close>

text \<open>Building a \<open>serde_json::Map\<close>: a later member replaces an earlier one of the same name.\<close>

definition to_map :: "json_map \<Rightarrow> json_map" where
  "to_map kvs = fold (\<lambda>(k, v) m. AList.update k v m) kvs []"

definition opt_member :: "string \<Rightarrow> ('a \<Rightarrow> json) \<Rightarrow> 'a option \<Rightarrow> json_map" where
  "opt_member k f m = (case m of None \<Rightarrow> [] | Some x \<Rightarrow> [(k, f x)])"

definition json_nat :: "nat \<Rightarrow> json" where
  "json_nat n = JNumber (PosInt (of_nat n))"

definition json_strings :: "string list \<Rightarrow> json" where
  "json_strings xs = JArray (map JString xs)"

definition fmt_rfc3339_canonical :: "ext \<Rightarrow> instant \<Rightarrow> string" where
  "fmt_rfc3339_canonical E dt = (if dt mod 1000000 = 0 then x_fmt_ms E dt else x_fmt_auto E dt)"

definition json_time :: "ext \<Rightarrow> instant \<Rightarrow> json" where
  "json_time E t = JString (fmt_rfc3339_canonical E t)"

fun visibility_as_str :: "visibility \<Rightarrow> string" where
  "visibility_as_str Public = ''public''"
| "visibility_as_str Restricted = ''restricted''"
| "visibility_as_str Private = ''private''"

fun data_ref_type_as_str :: "data_ref_type \<Rightarrow> string" where
  "data_ref_type_as_str PrimaryResult = ''primary_result''"
| "data_ref_type_as_str RawData = ''raw_data''"
| "data_ref_type_as_str SupportingInfo = ''supporting_info''"
| "data_ref_type_as_str DerivedData = ''derived_data''"

fun encoding_as_str :: "embedded_encoding \<Rightarrow> string" where
  "encoding_as_str EncJson = ''json''"
| "encoding_as_str EncUtf8 = ''utf8''"
| "encoding_as_str EncBase64 = ''base64''"

definition signature_json :: "signature \<Rightarrow> json" where
  "signature_json s = JObject [(''algorithm'', JString (sig_algorithm s)), (''key_id'', JString (sig_key_id s)),
     (''value'', JString (sig_value s))]"

definition data_period_json :: "ext \<Rightarrow> data_period \<Rightarrow> json" where
  "data_period_json E dp = JObject [(''start'', json_time E (dp_start dp)), (''end'', json_time E (dp_end dp))]"

definition anchor_json :: "anchor_entry \<Rightarrow> json" where
  "anchor_json a = JObject (to_map
     ([(''scheme'', JString (an_scheme a)), (''content_hash'', JString (an_content_hash a))] @
      opt_member ''uri'' JString (an_uri a) @ an_extensions a))"

fun location_json :: "location \<Rightarrow> json" where
  "location_json (Uri u) = JString u"
| "location_json (Structured m) = JObject m"

definition embedded_json :: "embedded_content \<Rightarrow> json" where
  "embedded_json e = JObject
     ([(''encoding'', JString (encoding_as_str (em_encoding e))), (''content'', em_content e)] @
      opt_member ''content_hash'' JString (em_content_hash e))"

definition data_ref_json :: "data_ref \<Rightarrow> json" where
  "data_ref_json dr = JObject (to_map
     ([(''type'', JString (data_ref_type_as_str (dr_ref_type dr)))] @
      opt_member ''description'' JString (dr_description dr) @
      opt_member ''size_bytes'' (\<lambda>n. JNumber (PosInt n)) (dr_size_bytes dr) @
      opt_member ''format'' JString (dr_format dr) @
      opt_member ''schema_version'' JString (dr_schema_version dr) @
      opt_member ''content_hash'' JString (dr_content_hash dr) @
      opt_member ''location'' location_json (dr_location dr) @
      opt_member ''embedded'' embedded_json (dr_embedded dr) @ dr_extensions dr))"

definition publish_request_json :: "ext \<Rightarrow> publish_request \<Rightarrow> json" where
  "publish_request_json E r = JObject (to_map
     ([(''version'', json_nat (unat (pr_version r))),
       (''supersedes'', case pr_supersedes r of None \<Rightarrow> JNull | Some c \<Rightarrow> JString c),
       (''agent_id'', JString (pr_agent_id r)), (''contributors'', json_strings (pr_contributors r)),
       (''title'', JString (pr_title r)), (''type'', JString (context_type_serialize (pr_context_type r))),
       (''data_refs'', JArray (map data_ref_json (pr_data_refs r))),
       (''derived_from'', json_strings (pr_derived_from r)),
       (''visibility'', JString (visibility_as_str (pr_visibility r))),
       (''content_hash'', JString (pr_content_hash r)), (''signature'', signature_json (pr_signature r))] @
      opt_member ''audience'' json_strings (pr_audience r) @
      opt_member ''acdp_version'' JString (pr_acdp_version r) @
      opt_member ''description'' JString (pr_description r) @
      opt_member ''summary'' JString (pr_summary r) @
      opt_member ''lineage_id'' JString (pr_lineage_id r) @
      opt_member ''tags'' json_strings (pr_tags r) @
      opt_member ''domain'' JString (pr_domain r) @
      opt_member ''expires_at'' (json_time E) (pr_expires_at r) @
      opt_member ''data_period'' (data_period_json E) (pr_data_period r) @
      opt_member ''metadata'' (\<lambda>m. m) (pr_metadata r) @
      opt_member ''schema_uri'' JString (pr_schema_uri r) @
      opt_member ''anchors'' (\<lambda>as. JArray (map anchor_json as)) (pr_anchors r) @
      opt_member ''key_attestation'' key_attestation_json (pr_key_attestation r)))"

definition body_json :: "ext \<Rightarrow> body \<Rightarrow> json" where
  "body_json E b = JObject (to_map
     ([(''ctx_id'', JString (b_ctx_id b)), (''lineage_id'', JString (b_lineage_id b)),
       (''origin_registry'', JString (b_origin_registry b)), (''created_at'', json_time E (b_created_at b)),
       (''content_hash'', JString (b_content_hash b)), (''signature'', signature_json (b_signature b)),
       (''version'', json_nat (unat (b_version b))),
       (''supersedes'', case b_supersedes b of None \<Rightarrow> JNull | Some c \<Rightarrow> JString c),
       (''agent_id'', JString (b_agent_id b)), (''contributors'', json_strings (b_contributors b)),
       (''title'', JString (b_title b)), (''type'', JString (context_type_serialize (b_context_type b))),
       (''data_refs'', JArray (map data_ref_json (b_data_refs b))),
       (''derived_from'', json_strings (b_derived_from b)),
       (''visibility'', JString (visibility_as_str (b_visibility b)))] @
      opt_member ''audience'' json_strings (b_audience b) @
      opt_member ''acdp_version'' JString (b_acdp_version b) @
      opt_member ''description'' JString (b_description b) @
      opt_member ''summary'' JString (b_summary b) @
      opt_member ''tags'' json_strings (b_tags b) @
      opt_member ''domain'' JString (b_domain b) @
      opt_member ''expires_at'' (json_time E) (b_expires_at b) @
      opt_member ''data_period'' (data_period_json E) (b_data_period b) @
      opt_member ''metadata'' (\<lambda>m. m) (b_metadata b) @
      opt_member ''schema_uri'' JString (b_schema_uri b) @
      opt_member ''anchors'' (\<lambda>as. JArray (map anchor_json as)) (b_anchors b) @ b_extensions b))"

section \<open>Hashes over typed values\<close>

definition strip_suffix :: "'a list \<Rightarrow> 'a list \<Rightarrow> 'a list option" where
  "strip_suffix suf s = map_option rev (strip_prefix (rev suf) (rev s))"

definition PRODUCER_TIMESTAMP_PATHS :: "(string \<times> string option) list" where
  "PRODUCER_TIMESTAMP_PATHS =
     [(''expires_at'', None), (''data_period'', Some ''start''), (''data_period'', Some ''end'')]"

text \<open>A whole-second canonical timestamp in the rendering without milliseconds.\<close>

definition legacy_text :: "json \<Rightarrow> json option" where
  "legacy_text v = Option.bind (as_str v) (\<lambda>s.
     map_option (\<lambda>stem. JString (stem @ ''Z'')) (strip_suffix ''.000Z'' s))"

definition legacy_slot :: "json_map \<Rightarrow> string \<times> string option \<Rightarrow> json_map option" where
  "legacy_slot ms path =
     (case path of
        (key, None) \<Rightarrow>
          Option.bind (map_of ms key) (\<lambda>v. map_option (\<lambda>w. AList.update key w ms) (legacy_text v))
      | (key, Some n) \<Rightarrow>
          Option.bind (map_of ms key) (\<lambda>v. Option.bind (as_object v) (\<lambda>ns. Option.bind (map_of ns n) (\<lambda>u.
            map_option (\<lambda>w. AList.update key (JObject (AList.update n w ns)) ms) (legacy_text u)))))"

definition legacy_step :: "string \<times> string option \<Rightarrow> json_map \<times> bool \<Rightarrow> json_map \<times> bool" where
  "legacy_step path st = (case legacy_slot (fst st) path of None \<Rightarrow> st | Some ms \<Rightarrow> (ms, True))"

definition legacy_rendering :: "json \<Rightarrow> json option" where
  "legacy_rendering value =
     (case value of
        JObject ms \<Rightarrow>
          (let (out, changed) = fold legacy_step PRODUCER_TIMESTAMP_PATHS (ms, False)
           in if changed then Some (JObject out) else None)
      | _ \<Rightarrow> None)"

definition verify_typed_content_hash :: "ext \<Rightarrow> json \<Rightarrow> content_hash \<Rightarrow> unit acdp_result" where
  "verify_typed_content_hash E value expected =
     (case verify_content_hash (x_sci E) (x_sha256 E) value expected of
        Inl (HashMismatch a b) \<Rightarrow>
          (case legacy_rendering value of
             Some legacy \<Rightarrow>
               (if is_ok (verify_content_hash (x_sci E) (x_sha256 E) legacy expected) then Inr ()
                else Inl (HashMismatch a b))
           | None \<Rightarrow> Inl (HashMismatch a b))
      | other \<Rightarrow> other)"

definition verify_typed_body_hash :: "ext \<Rightarrow> body \<Rightarrow> unit acdp_result" where
  "verify_typed_body_hash E b = verify_typed_content_hash E (body_json E b) (b_content_hash b)"

definition verify_typed_publish_request_hash :: "ext \<Rightarrow> publish_request \<Rightarrow> unit acdp_result" where
  "verify_typed_publish_request_hash E req =
     verify_typed_content_hash E (publish_request_json E req) (pr_content_hash req)"

section \<open>Bodies and requests\<close>

definition did_part_or_all :: "string \<Rightarrow> string" where
  "did_part_or_all key_id = (case split_once CHR ''#'' key_id of Some (d, _) \<Rightarrow> d | None \<Rightarrow> key_id)"

definition verify_did_key_signature :: "ext \<Rightarrow> body \<Rightarrow> unit acdp_result" where
  "verify_did_key_signature E b =
     rbind (require (did_part_or_all (sig_key_id (b_signature b)) = b_agent_id b) KeyNotAuthorized) (\<lambda>_.
     verify_did_key_envelope E (b_signature b) (b_content_hash b))"

definition verify_body_offline :: "ext \<Rightarrow> body \<Rightarrow> unit acdp_result" where
  "verify_body_offline E b =
     checks [validate_body E b,
             require (starts_with ''did:key:'' (b_agent_id b)) KeyResolution,
             verify_typed_body_hash E b,
             verify_did_key_signature E b]"

definition verify_publish_request_signature_offline :: "ext \<Rightarrow> publish_request \<Rightarrow> unit acdp_result" where
  "verify_publish_request_signature_offline E req =
     (let did_part = did_part_or_all (sig_key_id (pr_signature req)) in
      rbind (require (did_part = pr_agent_id req) KeyNotAuthorized) (\<lambda>_.
      rbind (require (starts_with ''did:key:'' did_part) KeyResolution) (\<lambda>_.
      verify_did_key_envelope E (pr_signature req) (pr_content_hash req))))"

definition verify_publish_request_signature :: "ext \<Rightarrow> web_resolver \<Rightarrow> publish_request \<Rightarrow> unit acdp_result" where
  "verify_publish_request_signature E resolve req =
     verify_signature_envelope E resolve (pr_agent_id req) (pr_signature req) (pr_content_hash req)"

definition verify_body_signature :: "ext \<Rightarrow> web_resolver \<Rightarrow> body \<Rightarrow> unit acdp_result" where
  "verify_body_signature E resolve b =
     verify_signature_envelope E resolve (b_agent_id b) (b_signature b) (b_content_hash b)"

definition verify_body :: "ext \<Rightarrow> web_resolver \<Rightarrow> body \<Rightarrow> unit acdp_result" where
  "verify_body E resolve b =
     checks [validate_body E b, verify_typed_body_hash E b, verify_body_signature E resolve b]"

definition verify_ctx_id_binding :: "string \<Rightarrow> string \<Rightarrow> unit acdp_result" where
  "verify_ctx_id_binding served_ctx_id expected_ctx_id =
     rbind (ctx_id_parse served_ctx_id) (\<lambda>served.
     rbind (ctx_id_parse expected_ctx_id) (\<lambda>expected.
     require (served = expected) (ContextIdMismatch expected served)))"

datatype lineage_binding = Derived | ReceiptAttested | Unbound

definition verify_registry_assigned_bindings :: "ext \<Rightarrow> body \<Rightarrow> unit acdp_result" where
  "verify_registry_assigned_bindings E b =
     checks [(if b_supersedes b = None
              then require (b_lineage_id b = derive_lineage_id (x_sha256 E) (b_ctx_id b)) SchemaViolation
              else Inr ()),
             require (b_origin_registry b = ctx_id_authority (b_ctx_id b)) SchemaViolation]"

definition lineage_binding_of :: "body \<Rightarrow> bool \<Rightarrow> lineage_binding" where
  "lineage_binding_of b receipt_verified =
     (if b_supersedes b = None then Derived else if receipt_verified then ReceiptAttested else Unbound)"

section \<open>Lifecycle events\<close>

definition preimage_hash_of_map :: "ext \<Rightarrow> json_map \<Rightarrow> content_hash acdp_result" where
  "preimage_hash_of_map E ms =
     rbind (try_canonicalize_value (x_sci E) (JObject (filter (\<lambda>(k, _). k \<noteq> ''signature'') ms))) (\<lambda>canonical.
     Inr (''sha256:'' @ hex_encode (x_sha256 E (string_bytes canonical))))"

definition event_preimage_hash :: "ext \<Rightarrow> json \<Rightarrow> content_hash acdp_result" where
  "event_preimage_hash E value =
     rbind (ok_or (as_object value) SchemaViolation) (preimage_hash_of_map E)"

definition event_json :: "ext \<Rightarrow> lifecycle_event \<Rightarrow> json" where
  "event_json E e = JObject
     ([(''event_id'', JString (le_event_id e)), (''ctx_id'', JString (le_ctx_id e)),
       (''event_type'', JString (event_type_as_str (le_event_type e))),
       (''occurred_at'', JString (x_fmt_ms E (le_occurred_at e))), (''actor'', JString (le_actor e))] @
      opt_member ''reason'' JString (le_reason e) @
      opt_member ''signature'' signature_json (le_signature e))"

definition is_canonical_ms_utc :: "ext \<Rightarrow> string \<Rightarrow> bool" where
  "is_canonical_ms_utc E raw \<longleftrightarrow>
     length raw = 24 \<and> raw ! 10 = CHR ''T'' \<and> raw ! 19 = CHR ''.'' \<and> raw ! 23 = CHR ''Z'' \<and>
     list_all is_ascii_digit (take 3 (drop 20 raw)) \<and> x_parse_rfc3339 E raw \<noteq> None"

definition strict_ms_deserialize :: "ext \<Rightarrow> string \<Rightarrow> instant option" where
  "strict_ms_deserialize E raw = (if is_canonical_ms_utc E raw then x_parse_rfc3339 E raw else None)"

text \<open>
  Derived \<open>Deserialize\<close> of a closed struct reads an object with no other members, or an array with the
  fields in declaration order; \<open>struct_members\<close> gives the members either way.
\<close>

definition struct_members :: "string list \<Rightarrow> json \<Rightarrow> json_map option" where
  "struct_members names v =
     (case v of
        JObject ms \<Rightarrow> if set (map fst ms) \<subseteq> set names then Some ms else None
      | JArray vs \<Rightarrow> if length vs \<le> length names then Some (zip names vs) else None
      | _ \<Rightarrow> None)"

definition member_str :: "json_map \<Rightarrow> string \<Rightarrow> string option" where
  "member_str ms k = Option.bind (map_of ms k) as_str"

definition signature_deserialize :: "json \<Rightarrow> signature option" where
  "signature_deserialize v =
     Option.bind (struct_members [''algorithm'', ''key_id'', ''value''] v) (\<lambda>ms.
     Option.bind (member_str ms ''algorithm'') (\<lambda>a.
     Option.bind (member_str ms ''key_id'') (\<lambda>k.
     Option.bind (member_str ms ''value'') (\<lambda>x.
     Some \<lparr>sig_algorithm = a, sig_key_id = k, sig_value = x\<rparr>))))"

text \<open>\<open>de_present\<close> on an optional member: absent is \<open>None\<close>, present must have the type.\<close>

definition de_present :: "(json \<Rightarrow> 'a option) \<Rightarrow> json option \<Rightarrow> 'a option option" where
  "de_present f m = (case m of None \<Rightarrow> Some None | Some v \<Rightarrow> map_option Some (f v))"

definition event_type_deserialize :: "string \<Rightarrow> lifecycle_event_type option" where
  "event_type_deserialize s = (case event_type_parse s of Inl _ \<Rightarrow> None | Inr t \<Rightarrow> Some t)"

definition event_deserialize :: "ext \<Rightarrow> json \<Rightarrow> lifecycle_event option" where
  "event_deserialize E v =
     Option.bind (struct_members [''event_id'', ''ctx_id'', ''event_type'', ''occurred_at'', ''actor'', ''reason'', ''signature''] v) (\<lambda>ms.
     Option.bind (member_str ms ''event_id'') (\<lambda>i.
     Option.bind (member_str ms ''ctx_id'') (\<lambda>c.
     Option.bind (Option.bind (member_str ms ''event_type'') event_type_deserialize) (\<lambda>t.
     Option.bind (Option.bind (member_str ms ''occurred_at'') (strict_ms_deserialize E)) (\<lambda>oc.
     Option.bind (member_str ms ''actor'') (\<lambda>a.
     Option.bind (de_present as_str (map_of ms ''reason'')) (\<lambda>r.
     Option.bind (de_present signature_deserialize (map_of ms ''signature'')) (\<lambda>s.
     Some \<lparr>le_event_id = i, le_ctx_id = c, le_event_type = t, le_occurred_at = oc, le_actor = a,
           le_reason = r, le_signature = s\<rparr>))))))))"

definition event_from_value :: "ext \<Rightarrow> json \<Rightarrow> lifecycle_event acdp_result" where
  "event_from_value E v =
     rbind (ok_or (event_deserialize E v) SchemaViolation) (\<lambda>e.
     rbind (lifecycle_event_validate e) (\<lambda>_. Inr e))"

definition lifecycle_event_prechecks ::
  "ext \<Rightarrow> json \<Rightarrow> ctx_id \<Rightarrow> agent_did \<Rightarrow> string option \<Rightarrow> (lifecycle_event \<times> content_hash) acdp_result" where
  "lifecycle_event_prechecks E raw expected producer registry_did =
     rbind (event_preimage_hash E raw) (\<lambda>h.
     rbind (event_from_value E raw) (\<lambda>e.
     rbind (require (le_ctx_id e = expected) SchemaViolation) (\<lambda>_.
     rbind (require (le_actor e = producer \<or> registry_did = Some (le_actor e)) NotAuthorized) (\<lambda>_.
     rbind (actor_bound_signature e) (\<lambda>_. Inr (e, h))))))"

definition verify_lifecycle_event ::
  "ext \<Rightarrow> web_resolver \<Rightarrow> json \<Rightarrow> ctx_id \<Rightarrow> agent_did \<Rightarrow> string option \<Rightarrow> lifecycle_event acdp_result" where
  "verify_lifecycle_event E resolve raw expected producer registry_did =
     rbind (lifecycle_event_prechecks E raw expected producer registry_did) (\<lambda>(e, h).
     rbind (actor_bound_signature e) (\<lambda>s.
     rbind (verify_signature_envelope E resolve (le_actor e) s h) (\<lambda>_. Inr e)))"

definition verify_lifecycle_event_offline ::
  "ext \<Rightarrow> json \<Rightarrow> ctx_id \<Rightarrow> agent_did \<Rightarrow> string option \<Rightarrow> lifecycle_event acdp_result" where
  "verify_lifecycle_event_offline E raw expected producer registry_did =
     rbind (lifecycle_event_prechecks E raw expected producer registry_did) (\<lambda>(e, h).
     rbind (require (starts_with ''did:key:'' (le_actor e)) KeyResolution) (\<lambda>_.
     rbind (actor_bound_signature e) (\<lambda>s.
     rbind (verify_did_key_envelope E s h) (\<lambda>_. Inr e))))"

section \<open>Fingerprints of signing keys\<close>

definition resolve_with_fragment :: "web_resolver \<Rightarrow> string \<Rightarrow> string \<Rightarrow> verification_method acdp_result" where
  "resolve_with_fragment resolve did fragment =
     rbind (resolve did) (\<lambda>(doc, fresh).
     case find_by_fragment doc fragment of
       Some m \<Rightarrow> Inr m
     | None \<Rightarrow> Inl (if fresh then KeyResolution else KeyResolutionUnreachable))"

definition fingerprint_for_key_id ::
  "ext \<Rightarrow> web_resolver \<Rightarrow> string \<Rightarrow> string \<Rightarrow> string acdp_result" where
  "fingerprint_for_key_id E resolve key_id algorithm =
     rbind (ok_or (split_once CHR ''#'' key_id) KeyResolution) (\<lambda>(did_part, fragment).
     if starts_with ''did:key:'' did_part then
       rbind (resolve_did_key_url E key_id) (fingerprint_did_key_material E)
     else rbind (resolve_with_fragment resolve did_part fragment) (\<lambda>m.
       fingerprint_verification_method E m algorithm))"

end
