(* ===== verification/Acdp_Receipt.thy ===== *)
theory Acdp_Receipt
  imports Acdp_Verify
begin

text \<open>
  Registry receipts: signing keys (\<open>crates/acdp-crypto/src/sign.rs\<close>), publication and lineage-head
  receipts with their minting and checks (\<open>crates/acdp-types/src/receipt.rs\<close>), and the consumer's
  verification of a served receipt (\<open>crates/acdp-client/src/receipt.rs\<close>).
\<close>

section \<open>Signing keys\<close>

text \<open>A key handle holds the secret bytes; signing itself is a parameter of \<open>ext\<close>.\<close>

datatype signing_key = SigningKey bytes | P256SigningKey bytes

fun sign_content_hash :: "ext \<Rightarrow> signing_key \<Rightarrow> content_hash \<Rightarrow> string \<times> string" where
  "sign_content_hash E (SigningKey k) h = (''ed25519'', x_b64_encode E (x_ed25519_sign E k (string_bytes h)))"
| "sign_content_hash E (P256SigningKey k) h =
     (''ecdsa-p256'', x_b64_encode E (x_p256_normalize_s E (x_p256_sign E k (string_bytes h))))"

fun key_algorithm :: "signing_key \<Rightarrow> string" where
  "key_algorithm (SigningKey _) = ''ed25519''"
| "key_algorithm (P256SigningKey _) = ''ecdsa-p256''"

section \<open>Shared constructions\<close>

text \<open>\<open>map_err(|_| e)\<close>.\<close>

definition map_err :: "acdp_error \<Rightarrow> 'a acdp_result \<Rightarrow> 'a acdp_result" where
  "map_err e r = (case r of Inl _ \<Rightarrow> Inl e | Inr x \<Rightarrow> Inr x)"

definition preimage_hash_of_object_with :: "ext \<Rightarrow> json \<Rightarrow> acdp_error \<Rightarrow> content_hash acdp_result" where
  "preimage_hash_of_object_with E value err =
     rbind (ok_or (as_object value) err) (preimage_hash_of_map E)"

definition preimage_hash_of_object :: "ext \<Rightarrow> json \<Rightarrow> content_hash acdp_result" where
  "preimage_hash_of_object E value = preimage_hash_of_object_with E value InvalidReceipt"

definition verify_signature_over_hash_with ::
  "ext \<Rightarrow> signature \<Rightarrow> content_hash \<Rightarrow> bytes option \<Rightarrow> bytes option \<Rightarrow> acdp_error \<Rightarrow> unit acdp_result" where
  "verify_signature_over_hash_with E s h ed p256 err =
     (if sig_algorithm s = ''ed25519'' then
        rbind (ok_or ed err) (\<lambda>key. map_err err (verify_ed25519 E key (sig_value s) h))
      else if sig_algorithm s = ''ecdsa-p256'' then
        rbind (ok_or p256 err) (\<lambda>key. map_err err (verify_ecdsa_p256 E key (sig_value s) h))
      else Inl err)"

definition verify_receipt_signature_over_hash ::
  "ext \<Rightarrow> signature \<Rightarrow> content_hash \<Rightarrow> bytes option \<Rightarrow> bytes option \<Rightarrow> unit acdp_result" where
  "verify_receipt_signature_over_hash E s h ed p256 = verify_signature_over_hash_with E s h ed p256 InvalidReceipt"

text \<open>\<open>ms_rfc3339\<close>: written with three fractional digits, read in any RFC 3339 form.\<close>

definition json_ms :: "ext \<Rightarrow> instant \<Rightarrow> json" where
  "json_ms E t = JString (x_fmt_ms E t)"

definition member_ms :: "ext \<Rightarrow> json_map \<Rightarrow> string \<Rightarrow> instant option" where
  "member_ms E ms k = Option.bind (member_str ms k) (x_parse_rfc3339 E)"

text \<open>Unsigned integers read from JSON numbers.\<close>

fun as_u64 :: "json \<Rightarrow> u64 option" where
  "as_u64 (JNumber (PosInt n)) = Some n"
| "as_u64 _ = None"

definition as_u32 :: "json \<Rightarrow> u32 option" where
  "as_u32 v = Option.bind (as_u64 v) (\<lambda>n. if unat n < 2 ^ 32 then Some (of_nat (unat n)) else None)"

definition raw_ms_form :: "ext \<Rightarrow> json \<Rightarrow> string \<Rightarrow> acdp_error \<Rightarrow> unit acdp_result" where
  "raw_ms_form E value k err =
     rbind (ok_or (get_str value k) err) (\<lambda>raw. require (is_canonical_ms_utc E raw) err)"

definition ms_truncated :: "instant \<Rightarrow> bool" where
  "ms_truncated t \<longleftrightarrow> t mod 1000000 = 0"

section \<open>Publication receipts\<close>

datatype receipt_key_status = Current | Historical

record registry_receipt =
  rr_registry_did :: string
  rr_ctx_id :: ctx_id
  rr_lineage_id :: lineage_id
  rr_origin_registry :: string
  rr_created_at :: instant
  rr_content_hash :: content_hash
  rr_key_fingerprint :: string
  rr_signature :: signature

definition receipt_json :: "ext \<Rightarrow> registry_receipt \<Rightarrow> json" where
  "receipt_json E r = JObject
     [(''registry_did'', JString (rr_registry_did r)), (''ctx_id'', JString (rr_ctx_id r)),
      (''lineage_id'', JString (rr_lineage_id r)), (''origin_registry'', JString (rr_origin_registry r)),
      (''created_at'', json_ms E (rr_created_at r)), (''content_hash'', JString (rr_content_hash r)),
      (''key_fingerprint'', JString (rr_key_fingerprint r)), (''signature'', signature_json (rr_signature r))]"

definition receipt_deserialize :: "ext \<Rightarrow> json \<Rightarrow> registry_receipt option" where
  "receipt_deserialize E v =
     Option.bind (struct_members [''registry_did'', ''ctx_id'', ''lineage_id'', ''origin_registry'', ''created_at'',
         ''content_hash'', ''key_fingerprint'', ''signature''] v) (\<lambda>ms.
     Option.bind (member_str ms ''registry_did'') (\<lambda>did.
     Option.bind (member_str ms ''ctx_id'') (\<lambda>c.
     Option.bind (member_str ms ''lineage_id'') (\<lambda>l.
     Option.bind (member_str ms ''origin_registry'') (\<lambda>origin.
     Option.bind (member_ms E ms ''created_at'') (\<lambda>t.
     Option.bind (member_str ms ''content_hash'') (\<lambda>h.
     Option.bind (member_str ms ''key_fingerprint'') (\<lambda>fp.
     Option.bind (Option.bind (map_of ms ''signature'') signature_deserialize) (\<lambda>s.
     Some \<lparr>rr_registry_did = did, rr_ctx_id = c, rr_lineage_id = l, rr_origin_registry = origin, rr_created_at = t,
           rr_content_hash = h, rr_key_fingerprint = fp, rr_signature = s\<rparr>)))))))))"

definition receipt_from_value :: "ext \<Rightarrow> json \<Rightarrow> registry_receipt acdp_result" where
  "receipt_from_value E v = ok_or (receipt_deserialize E v) InvalidReceipt"

definition receipt_preimage_hash_of_value :: "ext \<Rightarrow> json \<Rightarrow> content_hash acdp_result" where
  "receipt_preimage_hash_of_value E v = preimage_hash_of_object E v"

definition validate_created_at_form :: "ext \<Rightarrow> json \<Rightarrow> unit acdp_result" where
  "validate_created_at_form E v = raw_ms_form E v ''created_at'' InvalidReceipt"

definition cross_check_body :: "registry_receipt \<Rightarrow> body \<Rightarrow> unit acdp_result" where
  "cross_check_body r b =
     checks [require (rr_lineage_id r = b_lineage_id b) InvalidReceipt,
             require (rr_origin_registry r = b_origin_registry b) InvalidReceipt,
             require (rr_created_at r = b_created_at b) InvalidReceipt]"

definition receipt_preimage_hash :: "ext \<Rightarrow> registry_receipt \<Rightarrow> content_hash acdp_result" where
  "receipt_preimage_hash E r = receipt_preimage_hash_of_value E (receipt_json E r)"

definition receipt_verify_against_hash ::
  "ext \<Rightarrow> registry_receipt \<Rightarrow> content_hash \<Rightarrow> bytes option \<Rightarrow> bytes option \<Rightarrow> unit acdp_result" where
  "receipt_verify_against_hash E r h ed p256 = verify_receipt_signature_over_hash E (rr_signature r) h ed p256"

definition receipt_verify_with_key ::
  "ext \<Rightarrow> registry_receipt \<Rightarrow> bytes option \<Rightarrow> bytes option \<Rightarrow> unit acdp_result" where
  "receipt_verify_with_key E r ed p256 =
     rbind (receipt_preimage_hash E r) (\<lambda>h. receipt_verify_against_hash E r h ed p256)"

definition cross_check :: "registry_receipt \<Rightarrow> ctx_id \<Rightarrow> content_hash \<Rightarrow> string \<Rightarrow> unit acdp_result" where
  "cross_check r expected_ctx_id recomputed_body_hash producer_key_fingerprint =
     checks [require (rr_ctx_id r = expected_ctx_id) InvalidReceipt,
             require (rr_content_hash r = recomputed_body_hash) InvalidReceipt,
             require (rr_key_fingerprint r = producer_key_fingerprint) InvalidReceipt,
             require (ms_truncated (rr_created_at r)) InvalidReceipt,
             require (rr_registry_did r = authority_to_did_web (rr_origin_registry r)) InvalidReceipt]"

section \<open>Lineage-head receipts\<close>

definition LINEAGE_HEAD_RECEIPT_VERSION :: string where
  "LINEAGE_HEAD_RECEIPT_VERSION = ''acdp-lhr/1''"

record lineage_head_receipt =
  lr_receipt_version :: string
  lr_registry_did :: string
  lr_lineage_id :: lineage_id
  lr_head_ctx_id :: ctx_id
  lr_head_version :: u32
  lr_head_status :: string
  lr_as_of :: instant
  lr_signature :: signature

definition head_receipt_json :: "ext \<Rightarrow> lineage_head_receipt \<Rightarrow> json" where
  "head_receipt_json E r = JObject
     [(''receipt_version'', JString (lr_receipt_version r)), (''registry_did'', JString (lr_registry_did r)),
      (''lineage_id'', JString (lr_lineage_id r)), (''head_ctx_id'', JString (lr_head_ctx_id r)),
      (''head_version'', json_nat (unat (lr_head_version r))), (''head_status'', JString (lr_head_status r)),
      (''as_of'', json_ms E (lr_as_of r)), (''signature'', signature_json (lr_signature r))]"

definition head_receipt_deserialize :: "ext \<Rightarrow> json \<Rightarrow> lineage_head_receipt option" where
  "head_receipt_deserialize E v =
     Option.bind (struct_members [''receipt_version'', ''registry_did'', ''lineage_id'', ''head_ctx_id'',
         ''head_version'', ''head_status'', ''as_of'', ''signature''] v) (\<lambda>ms.
     Option.bind (member_str ms ''receipt_version'') (\<lambda>ver.
     Option.bind (member_str ms ''registry_did'') (\<lambda>did.
     Option.bind (member_str ms ''lineage_id'') (\<lambda>l.
     Option.bind (member_str ms ''head_ctx_id'') (\<lambda>c.
     Option.bind (Option.bind (map_of ms ''head_version'') as_u32) (\<lambda>n.
     Option.bind (member_str ms ''head_status'') (\<lambda>st.
     Option.bind (member_ms E ms ''as_of'') (\<lambda>t.
     Option.bind (Option.bind (map_of ms ''signature'') signature_deserialize) (\<lambda>s.
     Some \<lparr>lr_receipt_version = ver, lr_registry_did = did, lr_lineage_id = l, lr_head_ctx_id = c,
           lr_head_version = n, lr_head_status = st, lr_as_of = t, lr_signature = s\<rparr>)))))))))"

definition validate_as_of_form :: "ext \<Rightarrow> json \<Rightarrow> unit acdp_result" where
  "validate_as_of_form E v = raw_ms_form E v ''as_of'' InvalidReceipt"

definition head_receipt_from_value :: "ext \<Rightarrow> json \<Rightarrow> lineage_head_receipt acdp_result" where
  "head_receipt_from_value E v =
     rbind (ok_or (head_receipt_deserialize E v) InvalidReceipt) (\<lambda>r.
     rbind (require (lr_receipt_version r = LINEAGE_HEAD_RECEIPT_VERSION) InvalidReceipt) (\<lambda>_.
     rbind (require (\<not> lr_head_version r < 1) InvalidReceipt) (\<lambda>_.
     rbind (map_err InvalidReceipt (status_parse (lr_head_status r))) (\<lambda>status.
     rbind (require (status \<notin> {Superseded, Retracted}) InvalidReceipt) (\<lambda>_.
     rbind (require (starts_with ''did:web:'' (lr_registry_did r)) InvalidReceipt) (\<lambda>_.
     rbind (validate_as_of_form E v) (\<lambda>_. Inr r)))))))"

definition head_receipt_preimage_hash_of_value :: "ext \<Rightarrow> json \<Rightarrow> content_hash acdp_result" where
  "head_receipt_preimage_hash_of_value E v = preimage_hash_of_object E v"

definition head_receipt_preimage_hash :: "ext \<Rightarrow> lineage_head_receipt \<Rightarrow> content_hash acdp_result" where
  "head_receipt_preimage_hash E r = head_receipt_preimage_hash_of_value E (head_receipt_json E r)"

definition head_receipt_verify_against_hash ::
  "ext \<Rightarrow> lineage_head_receipt \<Rightarrow> content_hash \<Rightarrow> bytes option \<Rightarrow> bytes option \<Rightarrow> unit acdp_result" where
  "head_receipt_verify_against_hash E r h ed p256 = verify_receipt_signature_over_hash E (lr_signature r) h ed p256"

definition head_cross_check_registry_binding :: "lineage_head_receipt \<Rightarrow> string \<Rightarrow> string \<Rightarrow> unit acdp_result" where
  "head_cross_check_registry_binding r serving_authority capabilities_registry_did =
     checks [require (lr_registry_did r = authority_to_did_web serving_authority) InvalidReceipt,
             require (lr_registry_did r = capabilities_registry_did) InvalidReceipt,
             require (key_id_under (lr_registry_did r) (sig_key_id (lr_signature r))) InvalidReceipt,
             require (authority_to_did_web (ctx_id_authority (lr_head_ctx_id r)) = lr_registry_did r) InvalidReceipt]"

definition cross_check_lineage :: "lineage_head_receipt \<Rightarrow> lineage_id \<Rightarrow> unit acdp_result" where
  "cross_check_lineage r requested = require (lr_lineage_id r = requested) InvalidReceipt"

definition cross_check_head ::
  "lineage_head_receipt \<Rightarrow> ctx_id \<Rightarrow> u32 \<Rightarrow> status \<Rightarrow> bool \<Rightarrow> unit acdp_result" where
  "cross_check_head r served_ctx_id served_version served_status on_current_endpoint =
     (if on_current_endpoint \<or> lr_head_ctx_id r = served_ctx_id then
        checks [require (lr_head_ctx_id r = served_ctx_id) InvalidReceipt,
                require (lr_head_version r = served_version) InvalidReceipt,
                require (lr_head_status r = status_as_str served_status) InvalidReceipt]
      else
        checks [require (\<not> lr_head_version r \<le> served_version) InvalidReceipt,
                require (served_status \<in> {Superseded, Retracted}) InvalidReceipt])"

definition check_as_of_skew :: "lineage_head_receipt \<Rightarrow> instant \<Rightarrow> int \<Rightarrow> unit acdp_result" where
  "check_as_of_skew r now max_clock_skew =
     checks [require (ms_truncated (lr_as_of r)) InvalidReceipt,
             require (\<not> now + max_clock_skew < lr_as_of r) InvalidReceipt]"

section \<open>Minting\<close>

record receipt_signer =
  sg_key :: signing_key
  sg_key_id :: string
  sg_registry_did :: string

definition receipt_signer_new :: "signing_key \<Rightarrow> string \<Rightarrow> string \<Rightarrow> receipt_signer acdp_result" where
  "receipt_signer_new key registry_did key_id =
     rbind (require (starts_with ''did:web:'' registry_did) SchemaViolation) (\<lambda>_.
     rbind (require (key_id_under registry_did key_id) SchemaViolation) (\<lambda>_.
     Inr \<lparr>sg_key = key, sg_key_id = key_id, sg_registry_did = registry_did\<rparr>))"

definition unsigned_envelope :: "receipt_signer \<Rightarrow> signature" where
  "unsigned_envelope signer =
     \<lparr>sig_algorithm = key_algorithm (sg_key signer), sig_key_id = sg_key_id signer, sig_value = []\<rparr>"

definition signed_envelope :: "ext \<Rightarrow> receipt_signer \<Rightarrow> content_hash \<Rightarrow> signature" where
  "signed_envelope E signer h =
     (let (algorithm, value) = sign_content_hash E (sg_key signer) h in
      (unsigned_envelope signer)\<lparr>sig_algorithm := algorithm, sig_value := value\<rparr>)"

definition mint ::
  "ext \<Rightarrow> receipt_signer \<Rightarrow> ctx_id \<Rightarrow> lineage_id \<Rightarrow> string \<Rightarrow> instant \<Rightarrow> content_hash \<Rightarrow> string \<Rightarrow>
     registry_receipt acdp_result" where
  "mint E signer c l origin_registry created_at h producer_key_fingerprint =
     (let r = \<lparr>rr_registry_did = sg_registry_did signer, rr_ctx_id = c, rr_lineage_id = l,
               rr_origin_registry = origin_registry, rr_created_at = trunc_ms created_at, rr_content_hash = h,
               rr_key_fingerprint = producer_key_fingerprint, rr_signature = unsigned_envelope signer\<rparr> in
      rbind (receipt_preimage_hash E r) (\<lambda>hash. Inr (r\<lparr>rr_signature := signed_envelope E signer hash\<rparr>)))"

definition mint_lineage_head ::
  "ext \<Rightarrow> receipt_signer \<Rightarrow> lineage_id \<Rightarrow> ctx_id \<Rightarrow> u32 \<Rightarrow> status \<Rightarrow> instant \<Rightarrow> lineage_head_receipt acdp_result" where
  "mint_lineage_head E signer l head_ctx_id head_version head_status as_of =
     rbind (checks
       [require (head_status \<notin> {Superseded, Retracted}) SchemaViolation,
        require (\<not> head_version < 1) SchemaViolation,
        require (authority_to_did_web (ctx_id_authority head_ctx_id) = sg_registry_did signer) SchemaViolation]) (\<lambda>_.
     (let r = \<lparr>lr_receipt_version = LINEAGE_HEAD_RECEIPT_VERSION, lr_registry_did = sg_registry_did signer,
               lr_lineage_id = l, lr_head_ctx_id = head_ctx_id, lr_head_version = head_version,
               lr_head_status = status_as_str head_status, lr_as_of = trunc_ms as_of,
               lr_signature = unsigned_envelope signer\<rparr> in
      rbind (head_receipt_preimage_hash E r) (\<lambda>hash. Inr (r\<lparr>lr_signature := signed_envelope E signer hash\<rparr>))))"

section \<open>Verification by a consumer\<close>

text \<open>
  \<open>resolve\<close> stands for \<open>resolve_until\<close>: the document obtained for a DID and whether it is fresh. Of
  errors of resolution, \<open>KeyResolution\<close> indicts the receipt and any other is passed on.
\<close>

definition indict :: "acdp_error \<Rightarrow> acdp_error" where
  "indict e = (case e of KeyResolution \<Rightarrow> InvalidReceipt | other \<Rightarrow> other)"

definition resolve_receipt_key_doc :: "web_resolver \<Rightarrow> string \<Rightarrow> string \<Rightarrow> verification_method acdp_result" where
  "resolve_receipt_key_doc resolve did fragment =
     (case resolve_with_fragment resolve did fragment of Inl e \<Rightarrow> Inl (indict e) | Inr m \<Rightarrow> Inr m)"

definition resolve_receipt_key_with_status ::
  "web_resolver \<Rightarrow> string \<Rightarrow> string \<Rightarrow> (verification_method \<times> receipt_key_status) acdp_result" where
  "resolve_receipt_key_with_status resolve did fragment =
     (case resolve did of
        Inl e \<Rightarrow> Inl (indict e)
      | Inr (doc, fresh) \<Rightarrow>
          (case find_by_fragment doc fragment of
             Some m \<Rightarrow> Inr (m, if is_assertion_method doc (vm_id m) then Current else Historical)
           | None \<Rightarrow> Inl (if fresh then InvalidReceipt else KeyResolutionUnreachable)))"

text \<open>The dispatch on the declared algorithm, with the key taken from the verification method.\<close>

definition verify_with_receipt_method ::
  "ext \<Rightarrow> verification_method \<Rightarrow> string \<Rightarrow> acdp_error \<Rightarrow> (bytes option \<Rightarrow> bytes option \<Rightarrow> unit acdp_result) \<Rightarrow>
     unit acdp_result" where
  "verify_with_receipt_method E m algorithm err verify =
     (if algorithm = ''ed25519'' then
        rbind (map_err err (ed25519_public_key_bytes E m)) (\<lambda>key. verify (Some key) None)
      else if algorithm = ''ecdsa-p256'' then
        rbind (map_err err (ecdsa_p256_public_key_sec1 E m)) (\<lambda>key. verify None (Some key))
      else Inl err)"

record placed_receipt =
  pp_receipt :: registry_receipt
  pp_key_status :: receipt_key_status
  pp_registry_key_fingerprint :: string

definition verify_receipt_placed ::
  "ext \<Rightarrow> web_resolver \<Rightarrow> json \<Rightarrow> ctx_id \<Rightarrow> body \<Rightarrow> content_hash \<Rightarrow> string \<Rightarrow> string \<Rightarrow> placed_receipt acdp_result" where
  "verify_receipt_placed E resolve value expected_ctx_id b recomputed_body_hash producer_key_fingerprint serving_authority =
     rbind (receipt_from_value E value) (\<lambda>r.
     rbind (validate_created_at_form E value) (\<lambda>_.
     rbind (require (rr_registry_did r = authority_to_did_web serving_authority) InvalidReceipt) (\<lambda>_.
     rbind (cross_check r expected_ctx_id recomputed_body_hash producer_key_fingerprint) (\<lambda>_.
     rbind (cross_check_body r b) (\<lambda>_.
     rbind (ok_or (split_once CHR ''#'' (sig_key_id (rr_signature r))) InvalidReceipt) (\<lambda>(did_part, fragment).
     rbind (require (did_part = rr_registry_did r) InvalidReceipt) (\<lambda>_.
     rbind (resolve_receipt_key_with_status resolve did_part fragment) (\<lambda>(m, status).
     rbind (receipt_preimage_hash_of_value E value) (\<lambda>raw_hash.
     rbind (verify_with_receipt_method E m (sig_algorithm (rr_signature r)) InvalidReceipt
              (receipt_verify_against_hash E r raw_hash)) (\<lambda>_.
     rbind (map_err InvalidReceipt (fingerprint_verification_method E m (sig_algorithm (rr_signature r)))) (\<lambda>fp.
     Inr \<lparr>pp_receipt = r, pp_key_status = status, pp_registry_key_fingerprint = fp\<rparr>)))))))))))"

definition verify_receipt_value ::
  "ext \<Rightarrow> web_resolver \<Rightarrow> json \<Rightarrow> ctx_id \<Rightarrow> body \<Rightarrow> content_hash \<Rightarrow> string \<Rightarrow> string \<Rightarrow> registry_receipt acdp_result" where
  "verify_receipt_value E resolve value expected_ctx_id b recomputed_body_hash producer_key_fingerprint serving_authority =
     rbind (verify_receipt_placed E resolve value expected_ctx_id b recomputed_body_hash producer_key_fingerprint
              serving_authority) (\<lambda>p. Inr (pp_receipt p))"

definition verify_lineage_head_receipt_value ::
  "ext \<Rightarrow> web_resolver \<Rightarrow> json \<Rightarrow> lineage_id \<Rightarrow> ctx_id \<Rightarrow> u32 \<Rightarrow> status \<Rightarrow> bool \<Rightarrow> string \<Rightarrow> string \<Rightarrow> int \<Rightarrow> instant \<Rightarrow>
     lineage_head_receipt acdp_result" where
  "verify_lineage_head_receipt_value E resolve value requested_lineage served_ctx_id served_version served_status
     on_current_endpoint serving_authority capabilities_registry_did max_clock_skew now =
     rbind (head_receipt_from_value E value) (\<lambda>r.
     rbind (head_cross_check_registry_binding r serving_authority capabilities_registry_did) (\<lambda>_.
     rbind (cross_check_lineage r requested_lineage) (\<lambda>_.
     rbind (cross_check_head r served_ctx_id served_version served_status on_current_endpoint) (\<lambda>_.
     rbind (ok_or (split_once CHR ''#'' (sig_key_id (lr_signature r))) InvalidReceipt) (\<lambda>(did_part, fragment).
     rbind (resolve_receipt_key_doc resolve did_part fragment) (\<lambda>m.
     rbind (head_receipt_preimage_hash_of_value E value) (\<lambda>raw_hash.
     rbind (verify_with_receipt_method E m (sig_algorithm (lr_signature r)) InvalidReceipt
              (head_receipt_verify_against_hash E r raw_hash)) (\<lambda>_.
     rbind (check_as_of_skew r now max_clock_skew) (\<lambda>_. Inr r)))))))))"

end
