(* ===== verification/Acdp_Log.thy ===== *)
theory Acdp_Log
  imports Acdp_Receipt Acdp_Merkle
begin

text \<open>
  The transparency log: its wire objects and their checks (\<open>crates/acdp-types/src/log.rs\<close>), the
  in-memory log a registry keeps (\<open>crates/acdp-server/src/registry/log.rs\<close>) over the Merkle machinery of
  \<open>Acdp_Merkle\<close>, and the consumer's verification (\<open>crates/acdp-client/src/log.rs\<close>, and the inclusion
  verdict of \<open>crates/acdp-client/src/transparency.rs\<close>).
\<close>

section \<open>Digests and log identifiers\<close>

definition LOG_LEAF_VERSION :: string where
  "LOG_LEAF_VERSION = ''acdp-log-leaf/1''"

definition LOG_CHECKPOINT_VERSION :: string where
  "LOG_CHECKPOINT_VERSION = ''acdp-log/1''"

text \<open>\<open>hex::decode\<close> on lowercase digits.\<close>

definition hex_value :: "char \<Rightarrow> nat" where
  "hex_value c = (if is_ascii_digit c then of_char c - 48 else of_char c - 87)"

fun hex_decode :: "string \<Rightarrow> bytes" where
  "hex_decode (a # b # s) = of_nat (16 * hex_value a + hex_value b) # hex_decode s"
| "hex_decode _ = []"

definition decode_sha256_hex :: "string \<Rightarrow> digest acdp_result" where
  "decode_sha256_hex prefixed =
     rbind (ok_or (strip_prefix ''sha256:'' prefixed) InvalidLogProof) (\<lambda>hex_part.
     rbind (require (length hex_part = 64 \<and> list_all is_lower_hex hex_part) InvalidLogProof) (\<lambda>_.
     Inr (hex_decode hex_part)))"

definition encode_sha256_hex :: "digest \<Rightarrow> string" where
  "encode_sha256_hex d = ''sha256:'' @ hex_encode d"

text \<open>\<open>split_once\<close> at the first occurrence of a text.\<close>

fun split_once_str :: "string \<Rightarrow> string \<Rightarrow> (string \<times> string) option" where
  "split_once_str pat s =
     (case strip_prefix pat s of
        Some rest \<Rightarrow> Some ([], rest)
      | None \<Rightarrow>
          (case s of
             [] \<Rightarrow> None
           | c # cs \<Rightarrow> map_option (\<lambda>(a, b). (c # a, b)) (split_once_str pat cs)))"

declare split_once_str.simps [simp del]

definition parse_log_id :: "string \<Rightarrow> (string \<times> string) acdp_result" where
  "parse_log_id log_id =
     rbind (ok_or (split_once_str ''/log/'' log_id) InvalidLogProof) (\<lambda>(did, inst).
     rbind (ok_or (strip_prefix ''did:web:'' did) InvalidLogProof) (\<lambda>msi.
     rbind (require (msi \<noteq> [] \<and> list_all (\<lambda>c. is_ascii_alphanumeric c \<or> c \<in> set ''.%:-'') msi) InvalidLogProof) (\<lambda>_.
     rbind (require (inst \<noteq> [] \<and> length inst \<le> 32 \<and> list_all (\<lambda>c. is_lower_alnum c \<or> c = CHR ''-'') inst)
              InvalidLogProof) (\<lambda>_.
     Inr (did, inst)))))"

section \<open>Leaves\<close>

record log_leaf =
  ll_leaf_version :: string
  ll_ctx_id :: ctx_id
  ll_lineage_id :: lineage_id
  ll_origin_registry :: string
  ll_created_at :: instant
  ll_content_hash :: content_hash
  ll_key_fingerprint :: string
  ll_receipt_hash :: string

definition leaf_json :: "ext \<Rightarrow> log_leaf \<Rightarrow> json" where
  "leaf_json E l = JObject
     [(''leaf_version'', JString (ll_leaf_version l)), (''ctx_id'', JString (ll_ctx_id l)),
      (''lineage_id'', JString (ll_lineage_id l)), (''origin_registry'', JString (ll_origin_registry l)),
      (''created_at'', json_ms E (ll_created_at l)), (''content_hash'', JString (ll_content_hash l)),
      (''key_fingerprint'', JString (ll_key_fingerprint l)), (''receipt_hash'', JString (ll_receipt_hash l))]"

definition leaf_deserialize :: "ext \<Rightarrow> json \<Rightarrow> log_leaf option" where
  "leaf_deserialize E v =
     Option.bind (struct_members [''leaf_version'', ''ctx_id'', ''lineage_id'', ''origin_registry'', ''created_at'',
         ''content_hash'', ''key_fingerprint'', ''receipt_hash''] v) (\<lambda>ms.
     Option.bind (member_str ms ''leaf_version'') (\<lambda>ver.
     Option.bind (member_str ms ''ctx_id'') (\<lambda>c.
     Option.bind (member_str ms ''lineage_id'') (\<lambda>l.
     Option.bind (member_str ms ''origin_registry'') (\<lambda>origin.
     Option.bind (member_ms E ms ''created_at'') (\<lambda>t.
     Option.bind (member_str ms ''content_hash'') (\<lambda>h.
     Option.bind (member_str ms ''key_fingerprint'') (\<lambda>fp.
     Option.bind (member_str ms ''receipt_hash'') (\<lambda>rh.
     Some \<lparr>ll_leaf_version = ver, ll_ctx_id = c, ll_lineage_id = l, ll_origin_registry = origin, ll_created_at = t,
           ll_content_hash = h, ll_key_fingerprint = fp, ll_receipt_hash = rh\<rparr>)))))))))"

definition leaf_from_value :: "ext \<Rightarrow> json \<Rightarrow> log_leaf acdp_result" where
  "leaf_from_value E v =
     rbind (ok_or (leaf_deserialize E v) InvalidLogProof) (\<lambda>leaf.
     rbind (require (ll_leaf_version leaf = LOG_LEAF_VERSION) InvalidLogProof) (\<lambda>_.
     rbind (raw_ms_form E v ''created_at'' InvalidLogProof) (\<lambda>_. Inr leaf)))"

definition canonical_bytes :: "ext \<Rightarrow> log_leaf \<Rightarrow> bytes acdp_result" where
  "canonical_bytes E l = rbind (try_canonicalize_value (x_sci E) (leaf_json E l)) (\<lambda>s. Inr (string_bytes s))"

definition log_leaf_hash :: "ext \<Rightarrow> log_leaf \<Rightarrow> digest acdp_result" where
  "log_leaf_hash E l = rbind (canonical_bytes E l) (\<lambda>bs. Inr (leaf_hash (x_sha256 E) bs))"

definition for_publish :: "ext \<Rightarrow> body \<Rightarrow> content_hash \<Rightarrow> string \<Rightarrow> json \<Rightarrow> log_leaf acdp_result" where
  "for_publish E b h key_fingerprint receipt_value =
     rbind (receipt_preimage_hash_of_value E receipt_value) (\<lambda>receipt_hash.
     Inr \<lparr>ll_leaf_version = LOG_LEAF_VERSION, ll_ctx_id = b_ctx_id b, ll_lineage_id = b_lineage_id b,
          ll_origin_registry = b_origin_registry b, ll_created_at = b_created_at b, ll_content_hash = h,
          ll_key_fingerprint = key_fingerprint, ll_receipt_hash = receipt_hash\<rparr>)"

section \<open>Checkpoints\<close>

record log_checkpoint =
  lc_checkpoint_version :: string
  lc_log_id :: string
  lc_tree_size :: u64
  lc_root_hash :: string
  lc_timestamp :: instant
  lc_signature :: signature

definition checkpoint_json :: "ext \<Rightarrow> log_checkpoint \<Rightarrow> json" where
  "checkpoint_json E c = JObject
     [(''checkpoint_version'', JString (lc_checkpoint_version c)), (''log_id'', JString (lc_log_id c)),
      (''tree_size'', JNumber (PosInt (lc_tree_size c))), (''root_hash'', JString (lc_root_hash c)),
      (''timestamp'', json_ms E (lc_timestamp c)), (''signature'', signature_json (lc_signature c))]"

definition checkpoint_deserialize :: "ext \<Rightarrow> json \<Rightarrow> log_checkpoint option" where
  "checkpoint_deserialize E v =
     Option.bind (struct_members [''checkpoint_version'', ''log_id'', ''tree_size'', ''root_hash'', ''timestamp'',
         ''signature''] v) (\<lambda>ms.
     Option.bind (member_str ms ''checkpoint_version'') (\<lambda>ver.
     Option.bind (member_str ms ''log_id'') (\<lambda>i.
     Option.bind (Option.bind (map_of ms ''tree_size'') as_u64) (\<lambda>n.
     Option.bind (member_str ms ''root_hash'') (\<lambda>root.
     Option.bind (member_ms E ms ''timestamp'') (\<lambda>t.
     Option.bind (Option.bind (map_of ms ''signature'') signature_deserialize) (\<lambda>s.
     Some \<lparr>lc_checkpoint_version = ver, lc_log_id = i, lc_tree_size = n, lc_root_hash = root, lc_timestamp = t,
           lc_signature = s\<rparr>)))))))"

definition checkpoint_registry_did :: "log_checkpoint \<Rightarrow> string acdp_result" where
  "checkpoint_registry_did c =
     rbind (parse_log_id (lc_log_id c)) (\<lambda>(did, _).
     if key_id_under did (sig_key_id (lc_signature c)) then Inr did else Inl InvalidLogProof)"

definition checkpoint_from_value :: "ext \<Rightarrow> json \<Rightarrow> log_checkpoint acdp_result" where
  "checkpoint_from_value E v =
     rbind (ok_or (checkpoint_deserialize E v) InvalidLogProof) (\<lambda>c.
     rbind (require (lc_checkpoint_version c = LOG_CHECKPOINT_VERSION) InvalidLogProof) (\<lambda>_.
     rbind (parse_log_id (lc_log_id c)) (\<lambda>_.
     rbind (decode_sha256_hex (lc_root_hash c)) (\<lambda>_.
     rbind (raw_ms_form E v ''timestamp'' InvalidLogProof) (\<lambda>_.
     rbind (checkpoint_registry_did c) (\<lambda>_. Inr c))))))"

definition checkpoint_preimage_hash_of_value :: "ext \<Rightarrow> json \<Rightarrow> content_hash acdp_result" where
  "checkpoint_preimage_hash_of_value E v = preimage_hash_of_object_with E v InvalidLogProof"

definition checkpoint_preimage_hash :: "ext \<Rightarrow> log_checkpoint \<Rightarrow> content_hash acdp_result" where
  "checkpoint_preimage_hash E c = checkpoint_preimage_hash_of_value E (checkpoint_json E c)"

definition root_hash_bytes :: "log_checkpoint \<Rightarrow> digest acdp_result" where
  "root_hash_bytes c = decode_sha256_hex (lc_root_hash c)"

definition checkpoint_verify_against_hash ::
  "ext \<Rightarrow> log_checkpoint \<Rightarrow> content_hash \<Rightarrow> bytes option \<Rightarrow> bytes option \<Rightarrow> unit acdp_result" where
  "checkpoint_verify_against_hash E c h ed p256 =
     verify_signature_over_hash_with E (lc_signature c) h ed p256 InvalidLogProof"

definition checkpoint_cross_check :: "log_checkpoint \<Rightarrow> string \<Rightarrow> string \<Rightarrow> unit acdp_result" where
  "checkpoint_cross_check c serving_authority capabilities_registry_did =
     rbind (checkpoint_registry_did c) (\<lambda>did.
     checks [require (did = authority_to_did_web serving_authority) InvalidLogProof,
             require (did = capabilities_registry_did) InvalidLogProof])"

definition check_timestamp_skew :: "log_checkpoint \<Rightarrow> instant \<Rightarrow> int \<Rightarrow> unit acdp_result" where
  "check_timestamp_skew c now max_clock_skew =
     checks [require (ms_truncated (lc_timestamp c)) InvalidLogProof,
             require (\<not> now + max_clock_skew < lc_timestamp c) InvalidLogProof]"

definition mint_log_checkpoint ::
  "ext \<Rightarrow> receipt_signer \<Rightarrow> string \<Rightarrow> u64 \<Rightarrow> string \<Rightarrow> instant \<Rightarrow> log_checkpoint acdp_result" where
  "mint_log_checkpoint E signer log_id tree_size root_hash timestamp =
     rbind (parse_log_id log_id) (\<lambda>(did, _).
     rbind (require (did = sg_registry_did signer) SchemaViolation) (\<lambda>_.
     rbind (decode_sha256_hex root_hash) (\<lambda>_.
     let c = \<lparr>lc_checkpoint_version = LOG_CHECKPOINT_VERSION, lc_log_id = log_id, lc_tree_size = tree_size,
              lc_root_hash = root_hash, lc_timestamp = trunc_ms timestamp, lc_signature = unsigned_envelope signer\<rparr> in
     rbind (checkpoint_preimage_hash E c) (\<lambda>hash. Inr (c\<lparr>lc_signature := signed_envelope E signer hash\<rparr>)))))"

section \<open>Inclusion and consistency proofs\<close>

record log_inclusion =
  li_log_id :: string
  li_leaf_index :: u64
  li_tree_size :: u64
  li_inclusion_path :: "string list"
  li_log_checkpoint :: log_checkpoint
  li_leaf :: "log_leaf option"

definition inclusion_json :: "ext \<Rightarrow> log_inclusion \<Rightarrow> json" where
  "inclusion_json E i = JObject
     ([(''log_id'', JString (li_log_id i)), (''leaf_index'', JNumber (PosInt (li_leaf_index i))),
       (''tree_size'', JNumber (PosInt (li_tree_size i))), (''inclusion_path'', json_strings (li_inclusion_path i)),
       (''log_checkpoint'', checkpoint_json E (li_log_checkpoint i))] @
      opt_member ''leaf'' (leaf_json E) (li_leaf i))"

fun as_strings :: "json \<Rightarrow> string list option" where
  "as_strings (JArray vs) = those (map as_str vs)"
| "as_strings _ = None"

text \<open>A defaulted option: absent and \<open>null\<close> are both \<open>None\<close>.\<close>

definition de_default :: "(json \<Rightarrow> 'a option) \<Rightarrow> json option \<Rightarrow> 'a option option" where
  "de_default f m =
     (case m of None \<Rightarrow> Some None | Some JNull \<Rightarrow> Some None | Some v \<Rightarrow> map_option Some (f v))"

definition inclusion_deserialize :: "ext \<Rightarrow> json \<Rightarrow> log_inclusion option" where
  "inclusion_deserialize E v =
     Option.bind (struct_members [''log_id'', ''leaf_index'', ''tree_size'', ''inclusion_path'', ''log_checkpoint'',
         ''leaf''] v) (\<lambda>ms.
     Option.bind (member_str ms ''log_id'') (\<lambda>i.
     Option.bind (Option.bind (map_of ms ''leaf_index'') as_u64) (\<lambda>idx.
     Option.bind (Option.bind (map_of ms ''tree_size'') as_u64) (\<lambda>n.
     Option.bind (Option.bind (map_of ms ''inclusion_path'') as_strings) (\<lambda>path.
     Option.bind (Option.bind (map_of ms ''log_checkpoint'') (checkpoint_deserialize E)) (\<lambda>cp.
     Option.bind (de_default (leaf_deserialize E) (map_of ms ''leaf'')) (\<lambda>leaf.
     Some \<lparr>li_log_id = i, li_leaf_index = idx, li_tree_size = n, li_inclusion_path = path, li_log_checkpoint = cp,
           li_leaf = leaf\<rparr>)))))))"

definition inclusion_from_value :: "ext \<Rightarrow> json \<Rightarrow> log_inclusion acdp_result" where
  "inclusion_from_value E v =
     rbind (ok_or (inclusion_deserialize E v) InvalidLogProof) (\<lambda>i.
     rbind (require (\<not> li_tree_size i < 1) InvalidLogProof) (\<lambda>_.
     rbind (opt_check (json_get v ''log_checkpoint'') (\<lambda>cp. void (checkpoint_from_value E cp))) (\<lambda>_.
     rbind (opt_check (json_get v ''leaf'') (\<lambda>leaf. void (leaf_from_value E leaf))) (\<lambda>_. Inr i))))"

definition cross_check_binding :: "log_inclusion \<Rightarrow> unit acdp_result" where
  "cross_check_binding i =
     checks [require (li_tree_size i = lc_tree_size (li_log_checkpoint i)) InvalidLogProof,
             require (li_log_id i = lc_log_id (li_log_checkpoint i)) InvalidLogProof,
             require (\<not> li_tree_size i \<le> li_leaf_index i) InvalidLogProof]"

text \<open>\<open>iter().map(decode).collect::<Result<Vec<_>, _>>()\<close>.\<close>

primrec decode_path :: "string list \<Rightarrow> digest list acdp_result" where
  "decode_path [] = Inr []"
| "decode_path (p # ps) = rbind (decode_sha256_hex p) (\<lambda>d. rbind (decode_path ps) (\<lambda>ds. Inr (d # ds)))"

definition verify_leaf_hash :: "ext \<Rightarrow> log_inclusion \<Rightarrow> digest \<Rightarrow> unit acdp_result" where
  "verify_leaf_hash E i leaf =
     rbind (cross_check_binding i) (\<lambda>_.
     rbind (decode_path (li_inclusion_path i)) (\<lambda>path.
     rbind (root_hash_bytes (li_log_checkpoint i)) (\<lambda>root.
     require (verify_inclusion (x_sha256 E) leaf (li_leaf_index i) (li_tree_size i) path root) InvalidLogProof)))"

definition verify_reconstructed_leaf :: "ext \<Rightarrow> log_inclusion \<Rightarrow> log_leaf \<Rightarrow> unit acdp_result" where
  "verify_reconstructed_leaf E i leaf = rbind (log_leaf_hash E leaf) (verify_leaf_hash E i)"

record log_consistency_proof =
  lp_log_id :: string
  lp_first_tree_size :: u64
  lp_second_tree_size :: u64
  lp_consistency_path :: "string list"
  lp_log_checkpoint :: log_checkpoint

definition consistency_json :: "ext \<Rightarrow> log_consistency_proof \<Rightarrow> json" where
  "consistency_json E p = JObject
     [(''log_id'', JString (lp_log_id p)), (''first_tree_size'', JNumber (PosInt (lp_first_tree_size p))),
      (''second_tree_size'', JNumber (PosInt (lp_second_tree_size p))),
      (''consistency_path'', json_strings (lp_consistency_path p)),
      (''log_checkpoint'', checkpoint_json E (lp_log_checkpoint p))]"

definition consistency_deserialize :: "ext \<Rightarrow> json \<Rightarrow> log_consistency_proof option" where
  "consistency_deserialize E v =
     Option.bind (struct_members [''log_id'', ''first_tree_size'', ''second_tree_size'', ''consistency_path'',
         ''log_checkpoint''] v) (\<lambda>ms.
     Option.bind (member_str ms ''log_id'') (\<lambda>i.
     Option.bind (Option.bind (map_of ms ''first_tree_size'') as_u64) (\<lambda>first.
     Option.bind (Option.bind (map_of ms ''second_tree_size'') as_u64) (\<lambda>second.
     Option.bind (Option.bind (map_of ms ''consistency_path'') as_strings) (\<lambda>path.
     Option.bind (Option.bind (map_of ms ''log_checkpoint'') (checkpoint_deserialize E)) (\<lambda>cp.
     Some \<lparr>lp_log_id = i, lp_first_tree_size = first, lp_second_tree_size = second, lp_consistency_path = path,
           lp_log_checkpoint = cp\<rparr>))))))"

definition consistency_from_value :: "ext \<Rightarrow> json \<Rightarrow> log_consistency_proof acdp_result" where
  "consistency_from_value E v =
     rbind (ok_or (consistency_deserialize E v) InvalidLogProof) (\<lambda>p.
     rbind (opt_check (json_get v ''log_checkpoint'') (\<lambda>cp. void (checkpoint_from_value E cp))) (\<lambda>_. Inr p))"

definition verify_against_first_root :: "ext \<Rightarrow> log_consistency_proof \<Rightarrow> string \<Rightarrow> unit acdp_result" where
  "verify_against_first_root E p first_root_hash =
     rbind (require (lp_log_id p = lc_log_id (lp_log_checkpoint p)) InvalidLogProof) (\<lambda>_.
     rbind (require (lp_second_tree_size p = lc_tree_size (lp_log_checkpoint p)) InvalidLogProof) (\<lambda>_.
     rbind (decode_sha256_hex first_root_hash) (\<lambda>first_root.
     rbind (root_hash_bytes (lp_log_checkpoint p)) (\<lambda>second_root.
     rbind (decode_path (lp_consistency_path p)) (\<lambda>path.
     require (verify_consistency (x_sha256 E) (lp_first_tree_size p) (lp_second_tree_size p) path first_root second_root)
       InvalidLogProof)))))"

section \<open>The log of a registry\<close>

record merkle_log =
  ml_log_id :: string
  ml_leaves :: "log_leaf list"
  ml_leaf_hashes :: "digest list"
  ml_ctx_ids :: "ctx_id set"

definition merkle_log_new :: "string \<Rightarrow> merkle_log acdp_result" where
  "merkle_log_new log_id =
     rbind (parse_log_id log_id) (\<lambda>_.
     Inr \<lparr>ml_log_id = log_id, ml_leaves = [], ml_leaf_hashes = [], ml_ctx_ids = {}\<rparr>)"

definition log_tree_size :: "merkle_log \<Rightarrow> u64" where
  "log_tree_size lg = of_nat (length (ml_leaves lg))"

definition log_leaf_at :: "merkle_log \<Rightarrow> u64 \<Rightarrow> log_leaf option" where
  "log_leaf_at lg i = (if unat i < length (ml_leaves lg) then Some (ml_leaves lg ! unat i) else None)"

definition log_leaf_hash_hex :: "merkle_log \<Rightarrow> u64 \<Rightarrow> string option" where
  "log_leaf_hash_hex lg i =
     (if unat i < length (ml_leaf_hashes lg) then Some (encode_sha256_hex (ml_leaf_hashes lg ! unat i)) else None)"

text \<open>The checks of \<open>append\<close>; then the leaf and its hash are pushed.\<close>

definition log_admit :: "ext \<Rightarrow> log_leaf \<Rightarrow> merkle_log \<Rightarrow> (log_leaf \<times> digest) acdp_result" where
  "log_admit E leaf0 lg =
     rbind (leaf_from_value E (leaf_json E leaf0)) (\<lambda>leaf.
     rbind (require (ll_ctx_id leaf \<notin> ml_ctx_ids lg) SchemaViolation) (\<lambda>_.
     rbind (require (ctx_id_authority (ll_ctx_id leaf) = ll_origin_registry leaf) SchemaViolation) (\<lambda>_.
     rbind (parse_log_id (ml_log_id lg)) (\<lambda>(registry_did, _).
     rbind (require (authority_to_did_web (ll_origin_registry leaf) = registry_did) SchemaViolation) (\<lambda>_.
     rbind (log_leaf_hash E leaf) (\<lambda>hash. Inr (leaf, hash)))))))"

definition log_push :: "log_leaf \<Rightarrow> digest \<Rightarrow> merkle_log \<Rightarrow> merkle_log" where
  "log_push leaf hash lg =
     lg\<lparr>ml_ctx_ids := insert (ll_ctx_id leaf) (ml_ctx_ids lg), ml_leaves := ml_leaves lg @ [leaf],
        ml_leaf_hashes := ml_leaf_hashes lg @ [hash]\<rparr>"

definition log_append :: "ext \<Rightarrow> log_leaf \<Rightarrow> merkle_log \<Rightarrow> u64 acdp_result \<times> merkle_log" where
  "log_append E leaf0 lg =
     (case log_admit E leaf0 lg of
        Inl e \<Rightarrow> (Inl e, lg)
      | Inr (leaf, hash) \<Rightarrow> (Inr (of_nat (length (ml_leaves lg))), log_push leaf hash lg))"

definition log_root :: "ext \<Rightarrow> merkle_log \<Rightarrow> digest" where
  "log_root E lg = merkle_tree_hash (x_sha256 E) (ml_leaf_hashes lg)"

definition checked_size :: "merkle_log \<Rightarrow> u64 \<Rightarrow> nat acdp_result" where
  "checked_size lg tree_size =
     (if unat tree_size \<le> length (ml_leaves lg) then Inr (unat tree_size) else Inl SchemaViolation)"

definition root_at :: "ext \<Rightarrow> merkle_log \<Rightarrow> u64 \<Rightarrow> digest acdp_result" where
  "root_at E lg tree_size =
     rbind (checked_size lg tree_size) (\<lambda>n. Inr (merkle_tree_hash (x_sha256 E) (take n (ml_leaf_hashes lg))))"

definition checkpoint_at ::
  "ext \<Rightarrow> receipt_signer \<Rightarrow> merkle_log \<Rightarrow> u64 \<Rightarrow> instant \<Rightarrow> log_checkpoint acdp_result" where
  "checkpoint_at E signer lg tree_size timestamp =
     rbind (root_at E lg tree_size) (\<lambda>root.
     mint_log_checkpoint E signer (ml_log_id lg) tree_size (encode_sha256_hex root) timestamp)"

definition checkpoint :: "ext \<Rightarrow> receipt_signer \<Rightarrow> merkle_log \<Rightarrow> instant \<Rightarrow> log_checkpoint acdp_result" where
  "checkpoint E signer lg timestamp = checkpoint_at E signer lg (log_tree_size lg) timestamp"

text \<open>An \<open>expect\<close> on an absent path would be a panic; \<open>None\<close> stands for it.\<close>

definition log_inclusion_proof ::
  "ext \<Rightarrow> merkle_log \<Rightarrow> u64 \<Rightarrow> log_checkpoint \<Rightarrow> log_inclusion acdp_result option" where
  "log_inclusion_proof E lg leaf_index cp =
     (case rbind (require (lc_log_id cp = ml_log_id lg) SchemaViolation) (\<lambda>_.
           rbind (checked_size lg (lc_tree_size cp)) (\<lambda>n.
           rbind (require (unat leaf_index < n) SchemaViolation) (\<lambda>_. Inr n))) of
        Inl e \<Rightarrow> Some (Inl e)
      | Inr n \<Rightarrow>
          map_option (\<lambda>path. Inr
            \<lparr>li_log_id = ml_log_id lg, li_leaf_index = leaf_index, li_tree_size = lc_tree_size cp,
             li_inclusion_path = map encode_sha256_hex path, li_log_checkpoint = cp, li_leaf = None\<rparr>)
            (inclusion_path (x_sha256 E) (unat leaf_index) (take n (ml_leaf_hashes lg))))"

definition log_consistency_path ::
  "ext \<Rightarrow> merkle_log \<Rightarrow> u64 \<Rightarrow> u64 \<Rightarrow> string list acdp_result option" where
  "log_consistency_path E lg first second =
     (case rbind (checked_size lg second) (\<lambda>n.
           rbind (require (\<not> (first = 0 \<or> second < first)) SchemaViolation) (\<lambda>_. Inr n)) of
        Inl e \<Rightarrow> Some (Inl e)
      | Inr n \<Rightarrow>
          map_option (\<lambda>path. Inr (map encode_sha256_hex path))
            (consistency_proof (x_sha256 E) (unat first) (take n (ml_leaf_hashes lg))))"

definition consistency_proof_response ::
  "ext \<Rightarrow> merkle_log \<Rightarrow> u64 \<Rightarrow> log_checkpoint \<Rightarrow> log_consistency_proof acdp_result option" where
  "consistency_proof_response E lg first cp =
     (if lc_log_id cp \<noteq> ml_log_id lg then Some (Inl SchemaViolation)
      else map_option (\<lambda>r. rbind r (\<lambda>path. Inr
             \<lparr>lp_log_id = ml_log_id lg, lp_first_tree_size = first, lp_second_tree_size = lc_tree_size cp,
              lp_consistency_path = path, lp_log_checkpoint = cp\<rparr>))
             (log_consistency_path E lg first (lc_tree_size cp)))"

section \<open>Verification by a consumer\<close>

definition verify_log_checkpoint_value ::
  "ext \<Rightarrow> web_resolver \<Rightarrow> json \<Rightarrow> string \<Rightarrow> string \<Rightarrow> int \<Rightarrow> instant \<Rightarrow> log_checkpoint acdp_result" where
  "verify_log_checkpoint_value E resolve value serving_authority capabilities_registry_did max_clock_skew now =
     rbind (checkpoint_from_value E value) (\<lambda>c.
     rbind (checkpoint_cross_check c serving_authority capabilities_registry_did) (\<lambda>_.
     rbind (check_timestamp_skew c now max_clock_skew) (\<lambda>_.
     rbind (ok_or (split_once CHR ''#'' (sig_key_id (lc_signature c))) InvalidLogProof) (\<lambda>(did_part, fragment).
     rbind (resolve did_part) (\<lambda>(doc, _).
     rbind (ok_or (find_by_fragment doc fragment) InvalidLogProof) (\<lambda>m.
     rbind (checkpoint_preimage_hash_of_value E value) (\<lambda>raw_hash.
     rbind (verify_with_receipt_method E m (sig_algorithm (lc_signature c)) InvalidLogProof
              (checkpoint_verify_against_hash E c raw_hash)) (\<lambda>_.
     Inr c))))))))"

definition verify_log_inclusion_value ::
  "ext \<Rightarrow> web_resolver \<Rightarrow> json \<Rightarrow> log_leaf \<Rightarrow> string \<Rightarrow> string \<Rightarrow> int \<Rightarrow> instant \<Rightarrow> log_inclusion acdp_result" where
  "verify_log_inclusion_value E resolve value reconstructed_leaf serving_authority capabilities_registry_did
     max_clock_skew now =
     rbind (inclusion_from_value E value) (\<lambda>i.
     rbind (ok_or (json_get value ''log_checkpoint'') InvalidLogProof) (\<lambda>checkpoint_value.
     rbind (verify_log_checkpoint_value E resolve checkpoint_value serving_authority capabilities_registry_did
              max_clock_skew now) (\<lambda>_.
     rbind (verify_reconstructed_leaf E i reconstructed_leaf) (\<lambda>_. Inr i))))"

end
