(* ===== verification/Acdp_Witness.thy ===== *)
theory Acdp_Witness
  imports Acdp_Log
begin

text \<open>
  Witnesses of the transparency log: cosignatures and their minting
  (\<open>crates/acdp-types/src/cosignature.rs\<close>), the consumer's quorum and the witness's own obligation
  (\<open>crates/acdp-client/src/witness.rs\<close>), and the log and witness verdicts of a verification
  (\<open>crates/acdp-client/src/transparency.rs\<close>).
\<close>

section \<open>Cosignatures\<close>

definition COSIGNATURE_VERSION :: string where
  "COSIGNATURE_VERSION = ''acdp-cosig/1''"

definition is_witness_did :: "string \<Rightarrow> bool" where
  "is_witness_did i \<longleftrightarrow>
     starts_with ''did:web:'' i \<and> length ''did:web:'' < length i \<or>
     starts_with ''did:key:z'' i \<and> length ''did:key:z'' < length i"

record witnessed_checkpoint =
  wc_log_id :: string
  wc_tree_size :: u64
  wc_root_hash :: string
  wc_timestamp :: instant

definition witnessed_json :: "ext \<Rightarrow> witnessed_checkpoint \<Rightarrow> json" where
  "witnessed_json E w = JObject
     [(''log_id'', JString (wc_log_id w)), (''tree_size'', JNumber (PosInt (wc_tree_size w))),
      (''root_hash'', JString (wc_root_hash w)), (''timestamp'', json_ms E (wc_timestamp w))]"

definition witnessed_deserialize :: "ext \<Rightarrow> json \<Rightarrow> witnessed_checkpoint option" where
  "witnessed_deserialize E v =
     Option.bind (struct_members [''log_id'', ''tree_size'', ''root_hash'', ''timestamp''] v) (\<lambda>ms.
     Option.bind (member_str ms ''log_id'') (\<lambda>i.
     Option.bind (Option.bind (map_of ms ''tree_size'') as_u64) (\<lambda>n.
     Option.bind (member_str ms ''root_hash'') (\<lambda>r.
     Option.bind (member_ms E ms ''timestamp'') (\<lambda>t.
     Some \<lparr>wc_log_id = i, wc_tree_size = n, wc_root_hash = r, wc_timestamp = t\<rparr>)))))"

definition from_checkpoint :: "log_checkpoint \<Rightarrow> witnessed_checkpoint" where
  "from_checkpoint c =
     \<lparr>wc_log_id = lc_log_id c, wc_tree_size = lc_tree_size c, wc_root_hash = lc_root_hash c, wc_timestamp = lc_timestamp c\<rparr>"

record log_cosignature =
  cs_cosignature_version :: string
  cs_witness_id :: string
  cs_witnessed_checkpoint :: witnessed_checkpoint
  cs_witnessed_at :: instant
  cs_signature :: signature

definition cosignature_json :: "ext \<Rightarrow> log_cosignature \<Rightarrow> json" where
  "cosignature_json E c = JObject
     [(''cosignature_version'', JString (cs_cosignature_version c)), (''witness_id'', JString (cs_witness_id c)),
      (''witnessed_checkpoint'', witnessed_json E (cs_witnessed_checkpoint c)),
      (''witnessed_at'', json_ms E (cs_witnessed_at c)), (''signature'', signature_json (cs_signature c))]"

definition cosignature_deserialize :: "ext \<Rightarrow> json \<Rightarrow> log_cosignature option" where
  "cosignature_deserialize E v =
     Option.bind (struct_members [''cosignature_version'', ''witness_id'', ''witnessed_checkpoint'', ''witnessed_at'',
         ''signature''] v) (\<lambda>ms.
     Option.bind (member_str ms ''cosignature_version'') (\<lambda>ver.
     Option.bind (member_str ms ''witness_id'') (\<lambda>w.
     Option.bind (Option.bind (map_of ms ''witnessed_checkpoint'') (witnessed_deserialize E)) (\<lambda>cp.
     Option.bind (member_ms E ms ''witnessed_at'') (\<lambda>t.
     Option.bind (Option.bind (map_of ms ''signature'') signature_deserialize) (\<lambda>s.
     Some \<lparr>cs_cosignature_version = ver, cs_witness_id = w, cs_witnessed_checkpoint = cp, cs_witnessed_at = t,
           cs_signature = s\<rparr>))))))"

definition witness_key_did :: "log_cosignature \<Rightarrow> string acdp_result" where
  "witness_key_did c =
     (case split_once CHR ''#'' (sig_key_id (cs_signature c)) of
        Some (did, frag) \<Rightarrow>
          if did = cs_witness_id c \<and> frag \<noteq> [] then Inr did else Inl InvalidWitnessCosignature
      | None \<Rightarrow> Inl InvalidWitnessCosignature)"

definition cosignature_from_value :: "ext \<Rightarrow> json \<Rightarrow> log_cosignature acdp_result" where
  "cosignature_from_value E v =
     rbind (ok_or (cosignature_deserialize E v) InvalidWitnessCosignature) (\<lambda>c.
     rbind (checks
       [require (cs_cosignature_version c = COSIGNATURE_VERSION) InvalidWitnessCosignature,
        require (is_witness_did (cs_witness_id c)) InvalidWitnessCosignature,
        map_err InvalidWitnessCosignature (void (parse_log_id (wc_log_id (cs_witnessed_checkpoint c)))),
        map_err InvalidWitnessCosignature (void (decode_sha256_hex (wc_root_hash (cs_witnessed_checkpoint c)))),
        (case json_get v ''witnessed_checkpoint'' of
           None \<Rightarrow> Inl InvalidWitnessCosignature
         | Some w \<Rightarrow> raw_ms_form E w ''timestamp'' InvalidWitnessCosignature),
        raw_ms_form E v ''witnessed_at'' InvalidWitnessCosignature,
        void (witness_key_did c)]) (\<lambda>_. Inr c))"

definition checkpoint_tuple :: "log_cosignature \<Rightarrow> string \<times> u64 \<times> string" where
  "checkpoint_tuple c =
     (let w = cs_witnessed_checkpoint c in (wc_log_id w, wc_tree_size w, wc_root_hash w))"

definition cosignature_preimage_hash_of_value :: "ext \<Rightarrow> json \<Rightarrow> content_hash acdp_result" where
  "cosignature_preimage_hash_of_value E v = preimage_hash_of_object_with E v InvalidWitnessCosignature"

definition cosignature_preimage_hash :: "ext \<Rightarrow> log_cosignature \<Rightarrow> content_hash acdp_result" where
  "cosignature_preimage_hash E c = cosignature_preimage_hash_of_value E (cosignature_json E c)"

definition cosignature_verify_against_hash ::
  "ext \<Rightarrow> log_cosignature \<Rightarrow> content_hash \<Rightarrow> bytes option \<Rightarrow> bytes option \<Rightarrow> unit acdp_result" where
  "cosignature_verify_against_hash E c h ed p256 =
     verify_signature_over_hash_with E (cs_signature c) h ed p256 InvalidWitnessCosignature"

definition cosignature_verify_with_key ::
  "ext \<Rightarrow> log_cosignature \<Rightarrow> bytes option \<Rightarrow> bytes option \<Rightarrow> unit acdp_result" where
  "cosignature_verify_with_key E c ed p256 =
     rbind (cosignature_preimage_hash E c) (\<lambda>h. cosignature_verify_against_hash E c h ed p256)"

definition cross_check_against_checkpoint :: "log_cosignature \<Rightarrow> log_checkpoint \<Rightarrow> unit acdp_result" where
  "cross_check_against_checkpoint c cp =
     (let w = cs_witnessed_checkpoint c in
      checks [require (wc_log_id w = lc_log_id cp) InvalidWitnessCosignature,
              require (wc_tree_size w = lc_tree_size cp) InvalidWitnessCosignature,
              require (wc_root_hash w = lc_root_hash cp) InvalidWitnessCosignature])"

definition check_witnessed_at_skew :: "log_cosignature \<Rightarrow> instant \<Rightarrow> int \<Rightarrow> unit acdp_result" where
  "check_witnessed_at_skew c now max_clock_skew =
     checks [require (ms_truncated (cs_witnessed_at c)) InvalidWitnessCosignature,
             require (\<not> now + max_clock_skew < cs_witnessed_at c) InvalidWitnessCosignature]"

definition cosignature_age_at :: "log_cosignature \<Rightarrow> instant \<Rightarrow> int" where
  "cosignature_age_at c now = now - cs_witnessed_at c"

record witness_signer =
  ws_key :: signing_key
  ws_key_id :: string
  ws_witness_id :: string

definition witness_signer_new :: "signing_key \<Rightarrow> string \<Rightarrow> string \<Rightarrow> witness_signer acdp_result" where
  "witness_signer_new key witness_id key_id =
     rbind (require (is_witness_did witness_id) SchemaViolation) (\<lambda>_.
     case split_once CHR ''#'' key_id of
       Some (did, frag) \<Rightarrow>
         if did = witness_id \<and> frag \<noteq> [] then Inr \<lparr>ws_key = key, ws_key_id = key_id, ws_witness_id = witness_id\<rparr>
         else Inl SchemaViolation
     | None \<Rightarrow> Inl SchemaViolation)"

definition witness_mint :: "ext \<Rightarrow> witness_signer \<Rightarrow> log_checkpoint \<Rightarrow> instant \<Rightarrow> log_cosignature acdp_result" where
  "witness_mint E signer cp witnessed_at =
     (let c = \<lparr>cs_cosignature_version = COSIGNATURE_VERSION, cs_witness_id = ws_witness_id signer,
               cs_witnessed_checkpoint = from_checkpoint cp, cs_witnessed_at = trunc_ms witnessed_at,
               cs_signature = \<lparr>sig_algorithm = key_algorithm (ws_key signer), sig_key_id = ws_key_id signer, sig_value = []\<rparr>\<rparr> in
      rbind (cosignature_preimage_hash E c) (\<lambda>hash.
      let (algorithm, value) = sign_content_hash E (ws_key signer) hash in
      Inr (c\<lparr>cs_signature := \<lparr>sig_algorithm = algorithm, sig_key_id = ws_key_id signer, sig_value = value\<rparr>\<rparr>)))"

section \<open>DID documents on the wire\<close>

text \<open>
  The derived readers of \<open>crates/acdp-did/src/document.rs\<close>. Unknown members are ignored; the array form
  lists the fields in order, and only defaulted fields may be missing at its end.
\<close>

definition open_members :: "nat \<Rightarrow> string list \<Rightarrow> json \<Rightarrow> json_map option" where
  "open_members required names v =
     (case v of
        JObject ms \<Rightarrow> Some ms
      | JArray vs \<Rightarrow> if required \<le> length vs \<and> length vs \<le> length names then Some (zip names vs) else None
      | _ \<Rightarrow> None)"

definition method_deserialize :: "json \<Rightarrow> verification_method option" where
  "method_deserialize v =
     Option.bind (open_members 5 [''id'', ''type'', ''controller'', ''publicKeyJwk'', ''publicKeyMultibase''] v) (\<lambda>ms.
     Option.bind (member_str ms ''id'') (\<lambda>i.
     Option.bind (member_str ms ''type'') (\<lambda>t.
     Option.bind (member_str ms ''controller'') (\<lambda>c.
     Option.bind (de_default Some (map_of ms ''publicKeyJwk'')) (\<lambda>jwk.
     Option.bind (de_default as_str (map_of ms ''publicKeyMultibase'')) (\<lambda>mb.
     Some \<lparr>vm_id = i, vm_type = t, vm_controller = c, vm_public_key_jwk = jwk, vm_public_key_multibase = mb\<rparr>))))))"

fun assertion_deserialize :: "json \<Rightarrow> assertion_method_ref option" where
  "assertion_deserialize (JString s) = Some (MethodId s)"
| "assertion_deserialize v = map_option Embedded (method_deserialize v)"

definition de_vec :: "(json \<Rightarrow> 'a option) \<Rightarrow> json option \<Rightarrow> 'a list option" where
  "de_vec f m = (case m of None \<Rightarrow> Some [] | Some (JArray vs) \<Rightarrow> those (map f vs) | Some _ \<Rightarrow> None)"

definition document_deserialize :: "json \<Rightarrow> did_document option" where
  "document_deserialize v =
     Option.bind (open_members 1 [''id'', ''verificationMethod'', ''assertionMethod'', ''service''] v) (\<lambda>ms.
     Option.bind (member_str ms ''id'') (\<lambda>i.
     Option.bind (de_vec method_deserialize (map_of ms ''verificationMethod'')) (\<lambda>methods.
     Option.bind (de_vec assertion_deserialize (map_of ms ''assertionMethod'')) (\<lambda>assertion.
     Option.bind (de_vec Some (map_of ms ''service'')) (\<lambda>services.
     Some \<lparr>doc_id = i, doc_methods = methods, doc_assertion = assertion, doc_services = services\<rparr>)))))"

definition method_json :: "verification_method \<Rightarrow> json" where
  "method_json m = JObject
     ([(''id'', JString (vm_id m)), (''type'', JString (vm_type m)), (''controller'', JString (vm_controller m))] @
      opt_member ''publicKeyJwk'' (\<lambda>j. j) (vm_public_key_jwk m) @
      opt_member ''publicKeyMultibase'' JString (vm_public_key_multibase m))"

fun assertion_json :: "assertion_method_ref \<Rightarrow> json" where
  "assertion_json (MethodId s) = JString s"
| "assertion_json (Embedded m) = method_json m"

definition document_json :: "did_document \<Rightarrow> json" where
  "document_json d = JObject
     ([(''id'', JString (doc_id d)), (''verificationMethod'', JArray (map method_json (doc_methods d))),
       (''assertionMethod'', JArray (map assertion_json (doc_assertion d)))] @
      (if doc_services d = [] then [] else [(''service'', JArray (doc_services d))]))"

section \<open>Quorum\<close>

definition DEFAULT_WITNESS_MAX_CLOCK_SKEW_SECONDS :: u32 where
  "DEFAULT_WITNESS_MAX_CLOCK_SKEW_SECONDS = 120"

definition DEFAULT_WITNESS_MAX_AGE_SECONDS :: u32 where
  "DEFAULT_WITNESS_MAX_AGE_SECONDS = 300"

text \<open>\<open>chrono::Duration::seconds\<close> of a \<open>u32\<close>, in nanoseconds.\<close>

definition seconds :: "u32 \<Rightarrow> int" where
  "seconds n = uint n * 1000000000"

definition verify_witness_cosignature_value ::
  "ext \<Rightarrow> json \<Rightarrow> json \<Rightarrow> log_checkpoint \<Rightarrow> instant \<Rightarrow> u32 option \<Rightarrow> log_cosignature acdp_result" where
  "verify_witness_cosignature_value E cosig_value witness_did_doc expected_checkpoint now max_clock_skew_seconds =
     rbind (cosignature_from_value E cosig_value) (\<lambda>c.
     rbind (cross_check_against_checkpoint c expected_checkpoint) (\<lambda>_.
     rbind (ok_or (document_deserialize witness_did_doc) InvalidWitnessCosignature) (\<lambda>doc.
     rbind (require (doc_id doc = cs_witness_id c) InvalidWitnessCosignature) (\<lambda>_.
     rbind (ok_or (split_once CHR ''#'' (sig_key_id (cs_signature c))) InvalidWitnessCosignature) (\<lambda>(_, fragment).
     rbind (ok_or (find_by_fragment doc fragment) InvalidWitnessCosignature) (\<lambda>m.
     rbind (cosignature_preimage_hash_of_value E cosig_value) (\<lambda>raw_hash.
     rbind (verify_with_receipt_method E m (sig_algorithm (cs_signature c)) InvalidWitnessCosignature
              (cosignature_verify_against_hash E c raw_hash)) (\<lambda>_.
     rbind (check_witnessed_at_skew c now
              (seconds (unwrap_or max_clock_skew_seconds DEFAULT_WITNESS_MAX_CLOCK_SKEW_SECONDS))) (\<lambda>_.
     Inr c)))))))))"

record witness_policy =
  wp_min_witnesses :: u32
  wp_max_age_seconds :: "u32 option"
  wp_max_clock_skew_seconds :: u32

definition default_witness_policy :: witness_policy where
  "default_witness_policy =
     \<lparr>wp_min_witnesses = 1, wp_max_age_seconds = Some DEFAULT_WITNESS_MAX_AGE_SECONDS,
      wp_max_clock_skew_seconds = DEFAULT_WITNESS_MAX_CLOCK_SKEW_SECONDS\<rparr>"

record witness_quorum_report =
  wq_witnessed_count :: nat
  wq_witnesses :: "string list"
  wq_meets_quorum :: bool
  wq_fresh_witnessed_count :: nat
  wq_meets_fresh_quorum :: bool
  wq_failures :: "acdp_error list"

text \<open>The loop's state: verified witnesses, fresh ones, and failures.\<close>

type_synonym quorum_state = "string set \<times> string set \<times> acdp_error list"

definition within_age :: "witness_policy \<Rightarrow> instant \<Rightarrow> log_cosignature \<Rightarrow> bool" where
  "within_age policy now c =
     (case wp_max_age_seconds policy of None \<Rightarrow> True | Some n \<Rightarrow> cosignature_age_at c now \<le> seconds n)"

definition quorum_step ::
  "ext \<Rightarrow> (string \<Rightarrow> json option) \<Rightarrow> string set \<Rightarrow> log_checkpoint \<Rightarrow> witness_policy \<Rightarrow> instant \<Rightarrow> json \<Rightarrow> quorum_state \<Rightarrow>
     quorum_state" where
  "quorum_step E docs trusted cp policy now value st =
     (let (verified, fresh, failures) = st in
      case cosignature_from_value E value of
        Inl _ \<Rightarrow> st
      | Inr peek \<Rightarrow>
          if checkpoint_tuple peek \<noteq> (lc_log_id cp, lc_tree_size cp, lc_root_hash cp) then st
          else if cs_witness_id peek \<notin> trusted then st
          else case docs (cs_witness_id peek) of
            None \<Rightarrow> (verified, fresh, failures @ [InvalidWitnessCosignature])
          | Some doc \<Rightarrow>
              (case verify_witness_cosignature_value E value doc cp now (Some (wp_max_clock_skew_seconds policy)) of
                 Inr c \<Rightarrow> (insert (cs_witness_id c) verified,
                    if within_age policy now c then insert (cs_witness_id c) fresh else fresh, failures)
               | Inl e \<Rightarrow> (verified, fresh, failures @ [e])))"

definition evaluate_witness_quorum ::
  "ext \<Rightarrow> json list \<Rightarrow> (string \<Rightarrow> json option) \<Rightarrow> string set \<Rightarrow> log_checkpoint \<Rightarrow> witness_policy \<Rightarrow> instant \<Rightarrow>
     witness_quorum_report" where
  "evaluate_witness_quorum E cosignatures docs trusted cp policy now =
     (let (verified, fresh, failures) = fold (quorum_step E docs trusted cp policy now) cosignatures ({}, {}, []);
          min_w = unat (wp_min_witnesses policy) in
      \<lparr>wq_witnessed_count = card verified, wq_witnesses = sorted_list_of_set verified,
       wq_meets_quorum = (min_w \<le> card verified), wq_fresh_witnessed_count = card fresh,
       wq_meets_fresh_quorum = (min_w \<le> card fresh), wq_failures = failures\<rparr>)"

section \<open>The witness's obligation\<close>

record witness_consistency_check =
  wk_retained_root_hash :: string
  wk_consistency_proof :: json

definition consistency_obligation :: "ext \<Rightarrow> log_checkpoint \<Rightarrow> witness_consistency_check \<Rightarrow> unit acdp_result" where
  "consistency_obligation E cp cc =
     rbind (consistency_from_value E (wk_consistency_proof cc)) (\<lambda>p.
     rbind (require (\<not> (lp_log_id p \<noteq> lc_log_id cp \<or> lp_second_tree_size p \<noteq> lc_tree_size cp \<or>
                lc_root_hash (lp_log_checkpoint p) \<noteq> lc_root_hash cp)) InvalidLogProof) (\<lambda>_.
     verify_against_first_root E p (wk_retained_root_hash cc)))"

text \<open>\<open>now\<close> is the wall clock that \<open>verify_log_checkpoint_value\<close> reads.\<close>

definition mint_cosignature_checked ::
  "ext \<Rightarrow> web_resolver \<Rightarrow> witness_signer \<Rightarrow> json \<Rightarrow> string \<Rightarrow> string \<Rightarrow> witness_consistency_check option \<Rightarrow> instant \<Rightarrow>
     int \<Rightarrow> instant \<Rightarrow> log_cosignature acdp_result" where
  "mint_cosignature_checked E resolve signer checkpoint_value serving_authority capabilities_registry_did consistency
     witnessed_at max_clock_skew now =
     rbind (verify_log_checkpoint_value E resolve checkpoint_value serving_authority capabilities_registry_did
              max_clock_skew now) (\<lambda>cp.
     rbind (opt_check consistency (consistency_obligation E cp)) (\<lambda>_.
     witness_mint E signer cp witnessed_at))"

section \<open>Verdicts of a verification\<close>

definition DEFAULT_LOG_MAX_CLOCK_SKEW_SECONDS :: u32 where
  "DEFAULT_LOG_MAX_CLOCK_SKEW_SECONDS = 120"

datatype log_inclusion_policy = LP_Ignore | VerifyIfPresent | LP_Require

datatype witness_enforcement = Report | RequireQuorum | RequireFreshQuorum

record witness_quorum_policy =
  qp_trusted_witnesses :: "string set"
  qp_pinned_documents :: "string \<Rightarrow> json option"
  qp_witness :: witness_policy
  qp_enforcement :: witness_enforcement

definition witness_quorum_policy_new :: "string list \<Rightarrow> witness_quorum_policy" where
  "witness_quorum_policy_new witnesses =
     \<lparr>qp_trusted_witnesses = set witnesses, qp_pinned_documents = (\<lambda>_. None), qp_witness = default_witness_policy,
      qp_enforcement = Report\<rparr>"

definition with_document :: "string \<Rightarrow> json \<Rightarrow> witness_quorum_policy \<Rightarrow> witness_quorum_policy" where
  "with_document witness_id document p = p\<lparr>qp_pinned_documents := (qp_pinned_documents p)(witness_id \<mapsto> document)\<rparr>"

definition with_min_witnesses :: "u32 \<Rightarrow> witness_quorum_policy \<Rightarrow> witness_quorum_policy" where
  "with_min_witnesses n p = p\<lparr>qp_witness := (qp_witness p)\<lparr>wp_min_witnesses := n\<rparr>\<rparr>"

datatype cannot_verify_reason = ReceiptAbsent | ReceiptInvalid | ReceiptNotVerified

datatype log_inclusion_verdict =
    Included log_inclusion
  | CannotVerify cannot_verify_reason
  | Invalid acdp_error

fun cannot_verify_reason_as_str :: "cannot_verify_reason \<Rightarrow> string" where
  "cannot_verify_reason_as_str ReceiptAbsent = ''receipt_absent''"
| "cannot_verify_reason_as_str ReceiptInvalid = ''receipt_invalid''"
| "cannot_verify_reason_as_str ReceiptNotVerified = ''receipt_not_verified''"

fun is_included :: "log_inclusion_verdict \<Rightarrow> bool" where
  "is_included (Included _) = True"
| "is_included _ = False"

definition verdict_as_str :: "log_inclusion_verdict \<Rightarrow> string" where
  "verdict_as_str v =
     (case v of
        Included _ \<Rightarrow> ''included''
      | CannotVerify _ \<Rightarrow> ''cannot_verify''
      | Invalid e \<Rightarrow> (case e of InvalidLogProof \<Rightarrow> ''invalid_log_proof'' | _ \<Rightarrow> ''error''))"

record transparency_verdicts =
  tv_log :: "log_inclusion_verdict option"
  tv_witness :: "witness_quorum_report acdp_result option"

record leaf_material =
  lm_receipt :: registry_receipt
  lm_receipt_value :: json

definition check_leaf :: "ext \<Rightarrow> full_context \<Rightarrow> json \<Rightarrow> leaf_material \<Rightarrow> log_inclusion acdp_result" where
  "check_leaf E ctx value material =
     rbind (for_publish E (fc_body ctx) (b_content_hash (fc_body ctx)) (rr_key_fingerprint (lm_receipt material))
              (lm_receipt_value material)) (\<lambda>leaf.
     rbind (inclusion_from_value E value) (\<lambda>i.
     rbind (verify_reconstructed_leaf E i leaf) (\<lambda>_. Inr i)))"

text \<open>\<open>caps_did\<close> is the answer of \<open>client.capabilities()\<close>: the advertised registry DID or an error.\<close>

definition verify_checkpoint ::
  "ext \<Rightarrow> web_resolver \<Rightarrow> string acdp_result \<Rightarrow> json \<Rightarrow> string \<Rightarrow> instant \<Rightarrow> log_checkpoint acdp_result" where
  "verify_checkpoint E resolve caps_did value serving_authority now =
     rbind (inclusion_from_value E value) (\<lambda>_.
     rbind (ok_or (json_get value ''log_checkpoint'') InvalidLogProof) (\<lambda>checkpoint_value.
     rbind caps_did (\<lambda>registry_did.
     verify_log_checkpoint_value E resolve checkpoint_value serving_authority registry_did
       (seconds DEFAULT_LOG_MAX_CLOCK_SKEW_SECONDS) now)))"

definition inclusion_verdict ::
  "ext \<Rightarrow> web_resolver \<Rightarrow> string acdp_result \<Rightarrow> full_context \<Rightarrow> json \<Rightarrow> cannot_verify_reason + leaf_material \<Rightarrow> string \<Rightarrow>
     bool \<Rightarrow> instant \<Rightarrow> log_inclusion_verdict \<times> log_checkpoint acdp_result option" where
  "inclusion_verdict E resolve caps_did ctx value material serving_authority need_checkpoint now =
     (let cp = verify_checkpoint E resolve caps_did value serving_authority now in
      case material of
        Inl reason \<Rightarrow> (CannotVerify reason, if need_checkpoint then Some cp else None)
      | Inr lm \<Rightarrow>
          ((case cp of
              Inl e \<Rightarrow> Invalid e
            | Inr _ \<Rightarrow> (case check_leaf E ctx value lm of Inr i \<Rightarrow> Included i | Inl e \<Rightarrow> Invalid e)), Some cp))"

definition witness_document ::
  "ext \<Rightarrow> web_resolver \<Rightarrow> witness_quorum_policy \<Rightarrow> string \<Rightarrow> json acdp_result" where
  "witness_document E resolve policy witness =
     (case qp_pinned_documents policy witness of
        Some doc \<Rightarrow> Inr doc
      | None \<Rightarrow>
          if starts_with ''did:key:'' witness then rbind (did_key_document E witness) (\<lambda>d. Inr (document_json d))
          else rbind (resolve witness) (\<lambda>(d, _). Inr (document_json d)))"

definition served_cosignatures :: "full_context \<Rightarrow> json list" where
  "served_cosignatures ctx =
     (case map_of (fc_extensions ctx) ''witness_signatures'' of Some (JArray items) \<Rightarrow> items | _ \<Rightarrow> [])"

definition evaluate_witnesses ::
  "ext \<Rightarrow> web_resolver \<Rightarrow> full_context \<Rightarrow> log_checkpoint \<Rightarrow> witness_quorum_policy \<Rightarrow> instant \<Rightarrow> witness_quorum_report" where
  "evaluate_witnesses E resolve ctx cp policy now =
     (let cosignatures = served_cosignatures ctx;
          named = set (List.map_filter (\<lambda>c. get_str c ''witness_id'') cosignatures);
          wanted = sorted_list_of_set (qp_trusted_witnesses policy \<inter> named);
          docs = (\<lambda>w. if w \<in> set wanted then
                     (case witness_document E resolve policy w of Inr d \<Rightarrow> Some d | Inl _ \<Rightarrow> None) else None);
          failures = map (\<lambda>_. InvalidWitnessCosignature)
                       (filter (\<lambda>w. \<not> is_ok (witness_document E resolve policy w)) wanted);
          report = evaluate_witness_quorum E cosignatures docs (qp_trusted_witnesses policy) cp (qp_witness policy) now in
      report\<lparr>wq_failures := failures @ wq_failures report\<rparr>)"

definition enforce_witnesses :: "witness_quorum_report acdp_result \<Rightarrow> witness_quorum_policy \<Rightarrow> unit acdp_result" where
  "enforce_witnesses verdict policy =
     (if qp_enforcement policy = Report then Inr ()
      else rbind verdict (\<lambda>report.
        require (if qp_enforcement policy = RequireFreshQuorum then wq_meets_fresh_quorum report else wq_meets_quorum report)
          InvalidWitnessCosignature))"

text \<open>The log verdict of \<open>evaluate\<close> under its policy, with the checkpoint for the witnesses.\<close>

definition evaluate_log ::
  "ext \<Rightarrow> web_resolver \<Rightarrow> string acdp_result \<Rightarrow> full_context \<Rightarrow> cannot_verify_reason + leaf_material \<Rightarrow> string \<Rightarrow>
     log_inclusion_policy \<Rightarrow> bool \<Rightarrow> instant \<Rightarrow> (log_inclusion_verdict option \<times> log_checkpoint acdp_result option) acdp_result" where
  "evaluate_log E resolve caps_did ctx material serving_authority policy need_checkpoint now =
     (if policy = LP_Ignore \<and> \<not> need_checkpoint then Inr (None, None)
      else case fc_log_inclusion ctx of
        None \<Rightarrow> if policy = LP_Require then Inl InvalidLogProof else Inr (None, None)
      | Some value \<Rightarrow>
          (let (verdict, cp) =
             inclusion_verdict E resolve caps_did ctx value material serving_authority need_checkpoint now in
           if policy = LP_Require then
             (case verdict of
                Invalid e \<Rightarrow> Inl e
              | CannotVerify _ \<Rightarrow> Inl InvalidReceipt
              | Included _ \<Rightarrow> Inr (Some verdict, cp))
           else Inr (Some verdict, cp)))"

definition evaluate ::
  "ext \<Rightarrow> web_resolver \<Rightarrow> string acdp_result \<Rightarrow> full_context \<Rightarrow> cannot_verify_reason + leaf_material \<Rightarrow> string \<Rightarrow>
     log_inclusion_policy \<Rightarrow> witness_quorum_policy option \<Rightarrow> instant \<Rightarrow> transparency_verdicts acdp_result" where
  "evaluate E resolve caps_did ctx material serving_authority log_policy witness_policy now =
     rbind (evaluate_log E resolve caps_did ctx material serving_authority log_policy (witness_policy \<noteq> None) now)
       (\<lambda>(log_verdict, checkpoint).
     case witness_policy of
       None \<Rightarrow> Inr \<lparr>tv_log = log_verdict, tv_witness = None\<rparr>
     | Some policy \<Rightarrow>
         (let verdict = (case checkpoint of
                Some (Inr cp) \<Rightarrow> Inr (evaluate_witnesses E resolve ctx cp policy now)
              | Some (Inl _) \<Rightarrow> Inl InvalidLogProof
              | None \<Rightarrow> Inl InvalidLogProof) in
          rbind (enforce_witnesses verdict policy) (\<lambda>_.
          Inr \<lparr>tv_log = log_verdict, tv_witness = Some verdict\<rparr>)))"

end
