(* ===== verification/Acdp_Revocation.thy ===== *)
theory Acdp_Revocation
  imports Acdp_Verify
begin

text \<open>
  Key revocations: the typed view of a \<open>key-revocation\<close> context and its rules
  (\<open>crates/acdp-types/src/revocation.rs\<close>), and the version gates and supersession rule the registry
  applies to them (\<open>crates/acdp-server/src/registry/validator.rs\<close>).
\<close>

record key_revocation =
  kr_fingerprint :: string
  kr_compromised_since :: instant
  kr_reason :: "string option"
  kr_key_id :: "string option"
  kr_controller :: agent_did
  kr_publisher :: agent_did
  kr_trust_class :: revocation_trust_class
  kr_ctx_id :: "ctx_id option"

definition is_sha256_fingerprint :: "string \<Rightarrow> bool" where
  "is_sha256_fingerprint s =
     (case strip_prefix ''sha256:'' s of
        Some hex \<Rightarrow> length hex = 64 \<and> list_all (\<lambda>c. is_ascii_digit c \<or> in_range CHR ''a'' CHR ''f'' c) hex
      | None \<Rightarrow> False)"

definition parse_canonical_ms :: "ext \<Rightarrow> string \<Rightarrow> instant option" where
  "parse_canonical_ms E raw =
     Option.bind (x_parse_rfc3339 E raw) (\<lambda>parsed. if x_fmt_ms E parsed = raw then Some parsed else None)"

definition required_str :: "json_map \<Rightarrow> string \<Rightarrow> string acdp_result" where
  "required_str meta key = ok_or (Option.bind (map_of meta key) as_str) SchemaViolation"

definition optional_str :: "json_map \<Rightarrow> string \<Rightarrow> string option acdp_result" where
  "optional_str meta key =
     (case map_of meta key of
        None \<Rightarrow> Inr None
      | Some (JString s) \<Rightarrow> Inr (Some s)
      | Some _ \<Rightarrow> Inl SchemaViolation)"

definition check_not_self_signed :: "key_revocation \<Rightarrow> string \<Rightarrow> unit acdp_result" where
  "check_not_self_signed r fp = require (fp \<noteq> kr_fingerprint r) KeyNotAuthorized"

text \<open>The controller binding that decides the trust class.\<close>

definition controller_of :: "string option \<Rightarrow> agent_did \<Rightarrow> (agent_did \<times> revocation_trust_class) acdp_result" where
  "controller_of c agent =
     (case c of
        None \<Rightarrow> Inr (agent, ProducerSigned)
      | Some raw \<Rightarrow> rbind (agent_did_parse raw) (\<lambda>controller.
          Inr (controller, if controller = agent then ProducerSigned else RegistryAttested)))"

definition from_parts ::
  "ext \<Rightarrow> context_type \<Rightarrow> visibility \<Rightarrow> json option \<Rightarrow> agent_did \<Rightarrow> string \<Rightarrow> key_revocation acdp_result" where
  "from_parts E ct vis metadata agent signing_key_id =
     rbind (require (is_key_revocation ct) SchemaViolation) (\<lambda>_.
     rbind (require (vis = Public) SchemaViolation) (\<lambda>_.
     rbind (ok_or (Option.bind metadata as_object) SchemaViolation) (\<lambda>meta.
     rbind (required_str meta ''revoked_key_fingerprint'') (\<lambda>fingerprint.
     rbind (require (is_sha256_fingerprint fingerprint) SchemaViolation) (\<lambda>_.
     rbind (required_str meta ''compromised_since'') (\<lambda>since_raw.
     rbind (ok_or (parse_canonical_ms E since_raw) SchemaViolation) (\<lambda>compromised_since.
     rbind (optional_str meta ''reason'') (\<lambda>reason.
     rbind (opt_check reason (\<lambda>r. require (\<not> MAX_REASON_CHARS < char_count r) SchemaViolation)) (\<lambda>_.
     rbind (optional_str meta ''revoked_key_id'') (\<lambda>revoked_key_id.
     rbind (optional_str meta ''revoked_key_controller'') (\<lambda>c.
     rbind (controller_of c agent) (\<lambda>(controller, trust_class).
     let revocation = \<lparr>kr_fingerprint = fingerprint, kr_compromised_since = compromised_since,
           kr_reason = reason, kr_key_id = revoked_key_id, kr_controller = controller,
           kr_publisher = agent, kr_trust_class = trust_class, kr_ctx_id = None\<rparr> in
     if starts_with ''did:key:'' signing_key_id then
       (case rbind (resolve_did_key_url E signing_key_id) (fingerprint_did_key_material E) of
          Inr fp \<Rightarrow> rbind (check_not_self_signed revocation fp) (\<lambda>_. Inr revocation)
        | Inl _ \<Rightarrow> Inr revocation)
     else Inr revocation))))))))))))"

definition revocation_from_body :: "ext \<Rightarrow> body \<Rightarrow> key_revocation acdp_result" where
  "revocation_from_body E b =
     rbind (from_parts E (b_context_type b) (b_visibility b) (b_metadata b) (b_agent_id b)
              (sig_key_id (b_signature b))) (\<lambda>r.
     Inr (r\<lparr>kr_ctx_id := Some (b_ctx_id b)\<rparr>))"

definition revocation_from_request :: "ext \<Rightarrow> publish_request \<Rightarrow> key_revocation acdp_result" where
  "revocation_from_request E req =
     from_parts E (pr_context_type req) (pr_visibility req) (pr_metadata req) (pr_agent_id req)
       (sig_key_id (pr_signature req))"

definition revokes :: "key_revocation \<Rightarrow> string \<Rightarrow> bool" where
  "revokes r fp \<longleftrightarrow> kr_fingerprint r = fp"

text \<open>\<open>min\<close> over the boundaries of the revocations that name the fingerprint.\<close>

definition effective_boundary :: "key_revocation list \<Rightarrow> string \<Rightarrow> instant option" where
  "effective_boundary rs fp =
     fold (\<lambda>r acc. case acc of None \<Rightarrow> Some (kr_compromised_since r)
                    | Some t \<Rightarrow> Some (min t (kr_compromised_since r)))
       (filter (\<lambda>r. revokes r fp) rs) None"

definition sourced :: "key_revocation \<Rightarrow> revocation_source \<Rightarrow> sourced_revocation" where
  "sourced r src =
     \<lparr>sr_revoked_key_fingerprint = kr_fingerprint r, sr_compromised_since = kr_compromised_since r,
      sr_ctx_id = kr_ctx_id r, sr_issuer = kr_publisher r, sr_revoked_key_controller = kr_controller r, sr_trust_class = kr_trust_class r,
      sr_source = src\<rparr>"

definition metadata_str :: "publish_request \<Rightarrow> string \<Rightarrow> string option" where
  "metadata_str req key =
     Option.bind (Option.bind (pr_metadata req) as_object) (\<lambda>m. Option.bind (map_of m key) as_str)"

definition check_not_self_signed_lenient :: "publish_request \<Rightarrow> string \<Rightarrow> unit acdp_result" where
  "check_not_self_signed_lenient req fp =
     opt_check (metadata_str req ''revoked_key_fingerprint'') (\<lambda>f. require (f \<noteq> fp) KeyNotAuthorized)"

definition check_not_self_signed_did_key_lenient :: "ext \<Rightarrow> publish_request \<Rightarrow> unit acdp_result" where
  "check_not_self_signed_did_key_lenient E req =
     (if \<not> starts_with ''did:key:'' (sig_key_id (pr_signature req)) then Inr ()
      else case rbind (resolve_did_key_url E (sig_key_id (pr_signature req))) (fingerprint_did_key_material E) of
        Inl _ \<Rightarrow> Inr ()
      | Inr fp \<Rightarrow> check_not_self_signed_lenient req fp)"

definition cross_check_registry_binding :: "key_revocation \<Rightarrow> string \<Rightarrow> string \<Rightarrow> unit acdp_result" where
  "cross_check_registry_binding r serving_authority registry_did =
     checks [require (kr_publisher r = authority_to_did_web serving_authority) KeyNotAuthorized,
             require (kr_publisher r = registry_did) KeyNotAuthorized]"

section \<open>Version gates\<close>

text \<open>\<open>parts.next().unwrap_or("0").parse().unwrap_or(u64::MAX)\<close> for the first two parts.\<close>

definition parse_major_minor_saturating :: "string \<Rightarrow> u64 \<times> u64" where
  "parse_major_minor_saturating v =
     (let parts = split_on CHR ''.'' v;
          part = (\<lambda>i. unwrap_or (parse_u64 (if i < length parts then parts ! i else ''0'')) (- 1))
      in (part 0, part 1))"

definition key_revocation_gate_applies :: "string \<Rightarrow> bool" where
  "key_revocation_gate_applies v =
     (if \<not> is_well_formed_version v then True
      else let (major, minor) = parse_major_minor_saturating v in 0 < major \<or> 3 \<le> minor)"

definition key_revocation_retirement_gate_applies :: "string \<Rightarrow> bool" where
  "key_revocation_retirement_gate_applies v =
     (if \<not> is_well_formed_version v then True
      else let (major, minor) = parse_major_minor_saturating v in 0 < major \<or> 5 \<le> minor)"

definition advertises_0_5_0_or_higher :: "string \<Rightarrow> bool" where
  "advertises_0_5_0_or_higher v =
     (if \<not> is_well_formed_version v then False
      else let (major, minor) = parse_major_minor_saturating v in 0 < major \<or> 5 \<le> minor)"

definition is_interim_key_revocation_form :: "context_type \<Rightarrow> bool" where
  "is_interim_key_revocation_form ct \<longleftrightarrow> ct = Custom KEY_REVOCATION_INTERIM"

section \<open>Supersession\<close>

definition check_revocation_supersession :: "ext \<Rightarrow> string \<Rightarrow> publish_request \<Rightarrow> body \<Rightarrow> unit acdp_result" where
  "check_revocation_supersession E acdp_version req prev =
     (if \<not> is_key_revocation (b_context_type prev) then Inr ()
      else if \<not> is_key_revocation (pr_context_type req) then
        Inl (if advertises_0_5_0_or_higher acdp_version then SupersededTarget RevocationTypeMismatch
             else SchemaViolation)
      else case revocation_from_body E prev of
        Inl _ \<Rightarrow> Inr ()
      | Inr p \<Rightarrow> rbind (revocation_from_request E req) (\<lambda>i.
          require (kr_trust_class p = kr_trust_class i) SchemaViolation))"

end
