(* ===== verification/Acdp_Store.thy ===== *)
theory Acdp_Store
  imports Acdp_Types Acdp_Hash "HOL-Library.AList" "HOL-Library.Product_Lexorder" "HOL-Library.Sublist"
begin

text \<open>
  The registry store (\<open>crates/acdp-server/src/registry/store.rs\<close>): the state \<open>Inner\<close> behind the
  mutex of \<open>InMemoryStore\<close> and every operation of \<open>RegistryStore\<close> on it. Each operation holds the
  mutex throughout, so it is one atomic step: a function from the state to a result and the next
  state. \<open>BTreeMap\<close> and \<open>HashMap\<close> are association lists with distinct keys, read with \<open>map_of\<close> and
  written with \<open>AList.update\<close>.

  Parameters: the clock readings (\<open>now\<close>), the minted UUID, \<open>sha256\<close>, the receipt minter and the
  predecessor-admission hook of a \<open>PublishCommit\<close>. For search also the Unicode tables behind
  \<open>to_lowercase\<close> and \<open>trim\<close>, the RFC 3339 parser and the base64 codec. \<open>version + 1\<close> is \<open>u32\<close>
  addition, which wraps at \<open>u32::MAX\<close> in a release build.
\<close>

section \<open>State\<close>

record idempotency_record =
  ir_content_hash :: content_hash
  ir_response :: publish_response
  ir_expires_at :: instant

record inner =
  by_ctx :: "(ctx_id \<times> full_context) list"
  lineages :: "(lineage_id \<times> ctx_id list) list"
  idempotency :: "((agent_did \<times> string) \<times> idempotency_record) list"

definition new_store :: inner where
  "new_store = \<lparr>by_ctx = [], lineages = [], idempotency = []\<rparr>"

abbreviation ctx_at :: "inner \<Rightarrow> ctx_id \<Rightarrow> full_context option" where
  "ctx_at g \<equiv> map_of (by_ctx g)"

abbreviation lineage_at :: "inner \<Rightarrow> lineage_id \<Rightarrow> ctx_id list option" where
  "lineage_at g \<equiv> map_of (lineages g)"

text \<open>\<open>entry(k).or_default().push(v)\<close>.\<close>

definition push_lineage :: "lineage_id \<Rightarrow> ctx_id \<Rightarrow> inner \<Rightarrow> inner" where
  "push_lineage l c g =
     g\<lparr>lineages := AList.update l ((case lineage_at g l of None \<Rightarrow> [] | Some ids \<Rightarrow> ids) @ [c]) (lineages g)\<rparr>"

definition insert_ctx :: "ctx_id \<Rightarrow> full_context \<Rightarrow> inner \<Rightarrow> inner" where
  "insert_ctx c ctx g = g\<lparr>by_ctx := AList.update c ctx (by_ctx g)\<rparr>"

section \<open>Projection and disclosure\<close>

definition project_status :: "registry_state \<Rightarrow> body \<Rightarrow> instant \<Rightarrow> status" where
  "project_status state b now =
     (if is_retracted state then Retracted
      else case rs_status state of
        Active \<Rightarrow> (case b_expires_at b of Some e \<Rightarrow> (if e \<le> now then Expired else Active) | None \<Rightarrow> Active)
      | s \<Rightarrow> s)"

definition project_context :: "full_context \<Rightarrow> instant \<Rightarrow> full_context" where
  "project_context ctx now =
     ctx\<lparr>fc_registry_state := (fc_registry_state ctx)
       \<lparr>rs_status := project_status (fc_registry_state ctx) (fc_body ctx) now\<rparr>\<rparr>"

definition can_surface_in_search :: "body \<Rightarrow> agent_did option \<Rightarrow> bool \<Rightarrow> bool" where
  "can_surface_in_search b requester anonymous_public_reads =
     (case b_visibility b of
        Public \<Rightarrow> anonymous_public_reads \<or> requester \<noteq> None
      | Restricted \<Rightarrow>
          (case requester of
             None \<Rightarrow> False
           | Some r \<Rightarrow> r = b_agent_id b \<or> (case b_audience b of None \<Rightarrow> False | Some a \<Rightarrow> r \<in> set a))
      | Private \<Rightarrow> requester = Some (b_agent_id b))"

section \<open>Reads and simple writes\<close>

definition active_state :: registry_state where
  "active_state = \<lparr>rs_status = Active, rs_lifecycle_events = None, rs_event_receipts = None, rs_extensions = []\<rparr>"

definition fresh_context :: "body \<Rightarrow> json option \<Rightarrow> full_context" where
  "fresh_context b receipt =
     \<lparr>fc_body = b, fc_registry_state = active_state, fc_registry_receipt = receipt,
      fc_lineage_head_receipt = None, fc_log_inclusion = None, fc_extensions = [], fc_raw_body = None\<rparr>"

definition put :: "body \<Rightarrow> inner \<Rightarrow> unit acdp_result \<times> inner" where
  "put b g =
     (if ctx_at g (b_ctx_id b) \<noteq> None then (Inl SchemaViolation, g)
      else (Inr (), push_lineage (b_lineage_id b) (b_ctx_id b)
                      (insert_ctx (b_ctx_id b) (fresh_context b None) g)))"

definition store_get :: "ctx_id \<Rightarrow> instant \<Rightarrow> inner \<Rightarrow> full_context option" where
  "store_get c now g = map_option (\<lambda>ctx. project_context ctx now) (ctx_at g c)"

definition store_lineage :: "lineage_id \<Rightarrow> instant \<Rightarrow> inner \<Rightarrow> full_context list" where
  "store_lineage l now g =
     (case lineage_at g l of
        None \<Rightarrow> []
      | Some ids \<Rightarrow> List.map_filter (\<lambda>i. map_option (\<lambda>c. project_context c now) (ctx_at g i)) ids)"

text \<open>The loop of \<open>current\<close>, newest version first.\<close>

fun current_loop :: "ctx_id list \<Rightarrow> instant \<Rightarrow> inner \<Rightarrow> full_context option" where
  "current_loop [] now g = None"
| "current_loop (c # ids) now g =
     (case ctx_at g c of
        Some ctx \<Rightarrow>
          (let projected = project_context ctx now in
           if rs_status (fc_registry_state projected) \<notin> {Superseded, Retracted} then Some projected
           else current_loop ids now g)
      | None \<Rightarrow> current_loop ids now g)"

definition store_current :: "lineage_id \<Rightarrow> instant \<Rightarrow> inner \<Rightarrow> full_context option" where
  "store_current l now g =
     (case lineage_at g l of None \<Rightarrow> None | Some ids \<Rightarrow> current_loop (rev ids) now g)"

definition mark_superseded :: "ctx_id \<Rightarrow> inner \<Rightarrow> inner" where
  "mark_superseded c g =
     (case ctx_at g c of
        None \<Rightarrow> g
      | Some ctx \<Rightarrow> insert_ctx c
          (ctx\<lparr>fc_registry_state := (fc_registry_state ctx)\<lparr>rs_status := Superseded\<rparr>\<rparr>) g)"

definition first_version_ctx_id :: "lineage_id \<Rightarrow> inner \<Rightarrow> ctx_id option" where
  "first_version_ctx_id l g =
     (case lineage_at g l of None \<Rightarrow> None | Some ids \<Rightarrow> (case ids of [] \<Rightarrow> None | c # _ \<Rightarrow> Some c))"

section \<open>Lifecycle events\<close>

datatype lifecycle_outcome = Applied full_context | LifecycleReplay full_context

definition events_of :: "full_context \<Rightarrow> lifecycle_event list" where
  "events_of ctx = (case rs_lifecycle_events (fc_registry_state ctx) of None \<Rightarrow> [] | Some es \<Rightarrow> es)"

definition append_event :: "lifecycle_event \<Rightarrow> full_context \<Rightarrow> full_context" where
  "append_event e ctx =
     ctx\<lparr>fc_registry_state := (fc_registry_state ctx)\<lparr>rs_lifecycle_events := Some (events_of ctx @ [e])\<rparr>\<rparr>"

text \<open>Strict alternation of \<open>retracted\<close> and \<open>republished\<close>; unregistered types are refused.\<close>

definition check_transition :: "lifecycle_event_type \<Rightarrow> bool \<Rightarrow> unit acdp_result" where
  "check_transition t currently_retracted =
     (case t of
        EvRetracted \<Rightarrow> (if currently_retracted then Inl InvalidLifecycleTransition else Inr ())
      | EvRepublished \<Rightarrow> (if \<not> currently_retracted then Inl InvalidLifecycleTransition else Inr ())
      | EvOther _ \<Rightarrow> Inl SchemaViolation)"

definition commit_lifecycle_event ::
  "lifecycle_event \<Rightarrow> instant \<Rightarrow> inner \<Rightarrow> lifecycle_outcome acdp_result \<times> inner" where
  "commit_lifecycle_event event now g =
     (case ctx_at g (le_ctx_id event) of
        None \<Rightarrow> (Inl NotFound, g)
      | Some ctx \<Rightarrow>
          (case find (\<lambda>e. le_event_id e = le_event_id event) (events_of ctx) of
             Some prior \<Rightarrow>
               (if prior = event then (Inr (LifecycleReplay (project_context ctx now)), g)
                else (Inl SchemaViolation, g))
           | None \<Rightarrow>
               (case check_transition (le_event_type event) (retraction_state (events_of ctx)) of
                  Inl e \<Rightarrow> (Inl e, g)
                | Inr _ \<Rightarrow>
                    (let ctx' = append_event event ctx
                     in (Inr (Applied (project_context ctx' now)), insert_ctx (le_ctx_id event) ctx' g)))))"

section \<open>Idempotency\<close>

definition idempotency_evict_expired :: "instant \<Rightarrow> inner \<Rightarrow> inner" where
  "idempotency_evict_expired now g =
     g\<lparr>idempotency := filter (\<lambda>(_, r). now < ir_expires_at r) (idempotency g)\<rparr>"

definition idempotency_lookup ::
  "agent_did \<Rightarrow> string \<Rightarrow> instant \<Rightarrow> inner \<Rightarrow> idempotency_record option \<times> inner" where
  "idempotency_lookup agent key now g =
     (let g' = idempotency_evict_expired now g in (map_of (idempotency g') (agent, key), g'))"

definition store_idempotency_record ::
  "agent_did \<Rightarrow> string \<Rightarrow> content_hash \<Rightarrow> publish_response \<Rightarrow> instant \<Rightarrow> inner \<Rightarrow> inner" where
  "store_idempotency_record agent key h response expires_at g =
     g\<lparr>idempotency := AList.update (agent, key)
         \<lparr>ir_content_hash = h, ir_response = response, ir_expires_at = expires_at\<rparr> (idempotency g)\<rparr>"

section \<open>Publishing\<close>

record pending_idempotency =
  pi_key :: string
  pi_ttl :: int

record publish_commit =
  pc_req :: publish_request
  pc_authority :: string
  pc_idempotency :: "pending_idempotency option"
  pc_receipt_minter :: "(body \<Rightarrow> json acdp_result) option"
  pc_predecessor_admission :: "(body \<Rightarrow> unit acdp_result) option"

datatype publish_outcome = Inserted publish_response | IdempotentReplay publish_response

fun into_response :: "publish_outcome \<Rightarrow> publish_response" where
  "into_response (Inserted r) = r"
| "into_response (IdempotentReplay r) = r"

fun is_replay :: "publish_outcome \<Rightarrow> bool" where
  "is_replay (Inserted _) = False"
| "is_replay (IdempotentReplay _) = True"

text \<open>Step 1: a live record for the key answers the request; an expired one does not.\<close>

definition idempotency_answer :: "publish_commit \<Rightarrow> instant \<Rightarrow> inner \<Rightarrow> publish_outcome acdp_result option" where
  "idempotency_answer commit now g =
     (case pc_idempotency commit of
        None \<Rightarrow> None
      | Some idem \<Rightarrow>
          (case map_of (idempotency g) (pr_agent_id (pc_req commit), pi_key idem) of
             None \<Rightarrow> None
           | Some prior \<Rightarrow>
               (if now < ir_expires_at prior then
                  Some (if ir_content_hash prior = pr_content_hash (pc_req commit)
                        then Inr (IdempotentReplay (ir_response prior))
                        else Inl DuplicatePublish)
                else None)))"

text \<open>Step 2: the supersession checks, in the order of the source; the result is the v1 id.\<close>

definition supersession_check :: "publish_commit \<Rightarrow> inner \<Rightarrow> ctx_id option acdp_result" where
  "supersession_check commit g =
     (let req = pc_req commit in
      case pr_supersedes req of
        None \<Rightarrow> Inr None
      | Some prev \<Rightarrow>
          rbind (ok_or (ctx_at g prev) (SupersededTarget SR_NotFound)) (\<lambda>prev_full.
          let pb = fc_body prev_full in
          rbind (require (pr_agent_id req = b_agent_id pb \<or> pr_agent_id req \<in> set (b_contributors pb))
                   (SupersededTarget SR_NotFound)) (\<lambda>_.
          rbind (require (case pr_lineage_id req of None \<Rightarrow> True | Some declared \<Rightarrow> declared = b_lineage_id pb)
                   (SupersededTarget LineageMismatch)) (\<lambda>_.
          rbind (require (pr_version req = b_version pb + 1) (SupersededTarget VersionMismatch)) (\<lambda>_.
          rbind (require (rs_status (fc_registry_state prev_full) \<noteq> Superseded)
                   (SupersededTarget AlreadySuperseded)) (\<lambda>_.
          rbind (case pc_predecessor_admission commit of None \<Rightarrow> Inr () | Some admission \<Rightarrow> admission pb) (\<lambda>_.
          Inr (first_version_ctx_id (b_lineage_id pb) g))))))))"

text \<open>\<open>assign_identifiers\<close> of \<open>registry/validator.rs\<close>; the UUID is the argument \<open>uuid\<close>.\<close>

definition assign_identifiers ::
  "(bytes \<Rightarrow> bytes) \<Rightarrow> string \<Rightarrow> string \<Rightarrow> ctx_id option \<Rightarrow> ctx_id option \<Rightarrow> (ctx_id \<times> lineage_id) acdp_result" where
  "assign_identifiers sha256 uuid authority supersedes first_version =
     (let c = ''acdp://'' @ authority @ ''/'' @ uuid in
      case (supersedes, first_version) of
        (None, _) \<Rightarrow> Inr (c, derive_lineage_id sha256 c)
      | (Some _, Some v1) \<Rightarrow> Inr (c, derive_lineage_id sha256 v1)
      | (Some _, None) \<Rightarrow> Inl SchemaViolation)"

text \<open>Steps 2 to 5 up to the insert: the body and its receipt, or the first error.\<close>

definition prepare_publish ::
  "(bytes \<Rightarrow> bytes) \<Rightarrow> string \<Rightarrow> publish_commit \<Rightarrow> instant \<Rightarrow> inner \<Rightarrow> (body \<times> json option) acdp_result" where
  "prepare_publish sha256 uuid commit now g =
     rbind (supersession_check commit g) (\<lambda>first_v1.
     rbind (assign_identifiers sha256 uuid (pc_authority commit) (pr_supersedes (pc_req commit)) first_v1)
       (\<lambda>(c, l).
     let b = from_publish_request (pc_req commit) c l (pc_authority commit) now in
     rbind (require (ctx_at g (b_ctx_id b) = None) SchemaViolation) (\<lambda>_.
     rbind (case pc_receipt_minter commit of
              None \<Rightarrow> Inr None
            | Some mint \<Rightarrow> rbind (mint b) (\<lambda>r. Inr (Some r))) (\<lambda>receipt.
     Inr (b, receipt)))))"

definition publish_response_of :: "publish_request \<Rightarrow> body \<Rightarrow> json option \<Rightarrow> publish_response" where
  "publish_response_of req b receipt =
     \<lparr>resp_ctx_id = b_ctx_id b, resp_lineage_id = b_lineage_id b, resp_version = pr_version req,
      resp_created_at = b_created_at b, resp_status = Active, resp_registry_receipt = receipt\<rparr>"

definition commit_publish ::
  "(bytes \<Rightarrow> bytes) \<Rightarrow> string \<Rightarrow> publish_commit \<Rightarrow> instant \<Rightarrow> inner \<Rightarrow> publish_outcome acdp_result \<times> inner" where
  "commit_publish sha256 uuid commit now g =
     (case idempotency_answer commit now g of
        Some answer \<Rightarrow> (answer, g)
      | None \<Rightarrow>
          (case prepare_publish sha256 uuid commit now g of
             Inl e \<Rightarrow> (Inl e, g)
           | Inr (b, receipt) \<Rightarrow>
               (let req = pc_req commit;
                    g1 = push_lineage (b_lineage_id b) (b_ctx_id b)
                           (insert_ctx (b_ctx_id b) (fresh_context b receipt) g);
                    g2 = (case pr_supersedes req of None \<Rightarrow> g1 | Some prev \<Rightarrow> mark_superseded prev g1);
                    response = publish_response_of req b receipt;
                    g3 = (case pc_idempotency commit of
                            None \<Rightarrow> g2
                          | Some idem \<Rightarrow> store_idempotency_record (pr_agent_id req) (pi_key idem)
                              (pr_content_hash req) response (now + pi_ttl idem) g2)
                in (Inr (Inserted response), g3))))"

end
