(* ===== verification/Acdp_Store_Correct.thy ===== *)
theory Acdp_Store_Correct
  imports Acdp_Store
begin

text \<open>
  Correctness of the registry store. The invariant says that the stored contexts are partitioned
  into lineages, each a chain in which every version supersedes the one before it and only the
  newest is not superseded, that lineage identifiers are derived from the first version, and that
  the lifecycle events of a context alternate. \<open>store_step\<close> is the relation of all atomic operations.
\<close>

section \<open>Reading the state after a write\<close>

lemma ctx_at_insert [simp]: "ctx_at (insert_ctx c x g) = (ctx_at g)(c \<mapsto> x)"
  by (simp add: insert_ctx_def update_conv')

lemma ctx_at_push [simp]: "ctx_at (push_lineage l c g) = ctx_at g"
  by (simp add: push_lineage_def)

lemma lineage_at_insert [simp]: "lineage_at (insert_ctx c x g) = lineage_at g"
  by (simp add: insert_ctx_def)

lemma lineage_at_push [simp]:
  "lineage_at (push_lineage l c g) =
     (lineage_at g)(l \<mapsto> (case lineage_at g l of None \<Rightarrow> [] | Some ids \<Rightarrow> ids) @ [c])"
  by (simp add: push_lineage_def update_conv')

lemma lineage_at_mark [simp]: "lineage_at (mark_superseded c g) = lineage_at g"
  by (simp add: mark_superseded_def split: option.split)

definition supersede :: "full_context \<Rightarrow> full_context" where
  "supersede ctx = ctx\<lparr>fc_registry_state := (fc_registry_state ctx)\<lparr>rs_status := Superseded\<rparr>\<rparr>"

lemma ctx_at_mark:
  "ctx_at (mark_superseded c g) = (\<lambda>i. if i = c then map_option supersede (ctx_at g c) else ctx_at g i)"
  by (auto simp: mark_superseded_def supersede_def fun_eq_iff split: option.split)

lemma store_record_frame [simp]:
  "by_ctx (store_idempotency_record a k h r e g) = by_ctx g"
  "lineages (store_idempotency_record a k h r e g) = lineages g"
  by (simp_all add: store_idempotency_record_def)

lemma evict_frame [simp]:
  "by_ctx (idempotency_evict_expired now g) = by_ctx g"
  "lineages (idempotency_evict_expired now g) = lineages g"
  by (simp_all add: idempotency_evict_expired_def)

lemma fresh_context_simps [simp]:
  "fc_body (fresh_context b r) = b" "rs_status (fc_registry_state (fresh_context b r)) = Active"
  "events_of (fresh_context b r) = []" "fc_registry_receipt (fresh_context b r) = r"
  by (simp_all add: fresh_context_def active_state_def events_of_def)

lemma supersede_simps [simp]:
  "fc_body (supersede x) = fc_body x" "rs_status (fc_registry_state (supersede x)) = Superseded"
  "events_of (supersede x) = events_of x" "fc_registry_receipt (supersede x) = fc_registry_receipt x"
  by (simp_all add: supersede_def events_of_def)

lemma append_event_simps [simp]:
  "fc_body (append_event e x) = fc_body x"
  "rs_status (fc_registry_state (append_event e x)) = rs_status (fc_registry_state x)"
  "events_of (append_event e x) = events_of x @ [e]"
  "fc_registry_receipt (append_event e x) = fc_registry_receipt x"
  by (simp_all add: append_event_def events_of_def)

lemma from_publish_request_simps [simp]:
  "b_ctx_id (from_publish_request r c l a t) = c" "b_lineage_id (from_publish_request r c l a t) = l"
  "b_supersedes (from_publish_request r c l a t) = pr_supersedes r"
  "b_version (from_publish_request r c l a t) = pr_version r"
  "b_agent_id (from_publish_request r c l a t) = pr_agent_id r"
  "b_created_at (from_publish_request r c l a t) = trunc_ms t"
  by (simp_all add: from_publish_request_def)

section \<open>The invariant\<close>

definition owns :: "agent_did \<Rightarrow> body \<Rightarrow> bool" where
  "owns a b \<longleftrightarrow> a = b_agent_id b \<or> a \<in> set (b_contributors b)"

text \<open>\<open>succeeds x y\<close>: the context \<open>y\<close> is a legitimate next version of the superseded \<open>x\<close>.\<close>

definition succeeds :: "ctx_id \<Rightarrow> full_context \<Rightarrow> full_context \<Rightarrow> bool" where
  "succeeds i x y \<longleftrightarrow> rs_status (fc_registry_state x) = Superseded \<and>
     b_supersedes (fc_body y) = Some i \<and> b_version (fc_body y) = b_version (fc_body x) + 1 \<and>
     owns (b_agent_id (fc_body y)) (fc_body x)"

definition link :: "inner \<Rightarrow> ctx_id \<Rightarrow> ctx_id \<Rightarrow> bool" where
  "link g i j \<longleftrightarrow> (\<exists>x y. ctx_at g i = Some x \<and> ctx_at g j = Some y \<and> succeeds i x y)"

definition chain :: "inner \<Rightarrow> lineage_id \<Rightarrow> ctx_id list \<Rightarrow> bool" where
  "chain g l ids \<longleftrightarrow> ids \<noteq> [] \<and> distinct ids \<and> successively (link g) ids \<and>
     (\<forall>i\<in>set ids. \<exists>x. ctx_at g i = Some x \<and> b_lineage_id (fc_body x) = l) \<and>
     (\<exists>x. ctx_at g (hd ids) = Some x \<and> b_supersedes (fc_body x) = None) \<and>
     (\<exists>x. ctx_at g (last ids) = Some x \<and> rs_status (fc_registry_state x) = Active)"

definition alternating :: "lifecycle_event list \<Rightarrow> bool" where
  "alternating es \<longleftrightarrow> distinct (map le_event_id es) \<and>
     (\<forall>i<length es. le_event_type (es ! i) = (if even i then EvRetracted else EvRepublished))"

definition context_ok :: "inner \<Rightarrow> ctx_id \<Rightarrow> full_context \<Rightarrow> bool" where
  "context_ok g c x \<longleftrightarrow> b_ctx_id (fc_body x) = c \<and>
     (\<exists>ids. lineage_at g (b_lineage_id (fc_body x)) = Some ids \<and> c \<in> set ids) \<and>
     alternating (events_of x) \<and> (\<forall>e\<in>set (events_of x). le_ctx_id e = c) \<and>
     trunc_ms (b_created_at (fc_body x)) = b_created_at (fc_body x)"

definition store_inv :: "(bytes \<Rightarrow> bytes) \<Rightarrow> inner \<Rightarrow> bool" where
  "store_inv sha256 g \<longleftrightarrow> (\<forall>c x. ctx_at g c = Some x \<longrightarrow> context_ok g c x) \<and>
     (\<forall>l ids. lineage_at g l = Some ids \<longrightarrow> chain g l ids \<and> l = derive_lineage_id sha256 (hd ids))"

lemma store_inv_contextD: "store_inv sha256 g \<Longrightarrow> ctx_at g c = Some x \<Longrightarrow> context_ok g c x"
  by (simp add: store_inv_def)

lemma store_inv_chainD:
  "store_inv sha256 g \<Longrightarrow> lineage_at g l = Some ids \<Longrightarrow> chain g l ids \<and> l = derive_lineage_id sha256 (hd ids)"
  by (simp add: store_inv_def)

lemma store_inv_new: "store_inv sha256 new_store"
  by (simp add: store_inv_def new_store_def)

section \<open>Alternation of lifecycle events\<close>

lemma alternating_retraction: "alternating es \<Longrightarrow> retraction_state es \<longleftrightarrow> odd (length es)"
proof (induction es rule: rev_induct)
  case (snoc e es)
  have "le_event_type ((es @ [e]) ! length es) = (if even (length es) then EvRetracted else EvRepublished)"
    using snoc.prems unfolding alternating_def by (metis length_append_singleton lessI)
  then show ?case by simp
qed simp

lemma alternating_snoc:
  assumes "alternating es" "check_transition (le_event_type e) (retraction_state es) = Inr u"
    and "le_event_id e \<notin> le_event_id ` set es"
  shows "alternating (es @ [e])"
proof -
  have "le_event_type e = (if even (length es) then EvRetracted else EvRepublished)"
    using assms(2) alternating_retraction[OF assms(1)]
    by (auto simp: check_transition_def split: lifecycle_event_type.splits if_splits)
  then show ?thesis
    using assms(1,3) by (auto simp: alternating_def nth_append less_Suc_eq)
qed

section \<open>Append-only growth\<close>

text \<open>What a stored context may become: same body and receipt, more events, never un-superseded.\<close>

definition evolves :: "full_context \<Rightarrow> full_context \<Rightarrow> bool" where
  "evolves x y \<longleftrightarrow> fc_body y = fc_body x \<and> fc_registry_receipt y = fc_registry_receipt x \<and>
     prefix (events_of x) (events_of y) \<and>
     rs_status (fc_registry_state y) \<in> {rs_status (fc_registry_state x), Superseded}"

definition store_grows :: "inner \<Rightarrow> inner \<Rightarrow> bool" where
  "store_grows g g' \<longleftrightarrow> (\<forall>c x. ctx_at g c = Some x \<longrightarrow> (\<exists>y. ctx_at g' c = Some y \<and> evolves x y))"

lemma evolves_refl [simp]: "evolves x x"
  by (simp add: evolves_def)

lemma evolves_trans: "evolves x y \<Longrightarrow> evolves y z \<Longrightarrow> evolves x z"
  by (auto simp: evolves_def)

lemma evolves_supersede [simp]: "evolves x (supersede x)" and evolves_append [simp]: "evolves x (append_event e x)"
  by (simp_all add: evolves_def)

lemma store_grows_refl: "store_grows g g"
  by (auto simp: store_grows_def)

lemma store_grows_trans: "store_grows g h \<Longrightarrow> store_grows h k \<Longrightarrow> store_grows g k"
  unfolding store_grows_def by (meson evolves_trans)

lemma store_growsD: "store_grows g g' \<Longrightarrow> ctx_at g c = Some x \<Longrightarrow> \<exists>y. ctx_at g' c = Some y \<and> evolves x y"
  by (simp add: store_grows_def)

lemma link_grows: "store_grows g g' \<Longrightarrow> link g i j \<Longrightarrow> link g' i j"
proof -
  assume grows: "store_grows g g'" and "link g i j"
  then obtain x y where xy: "ctx_at g i = Some x" "ctx_at g j = Some y" "succeeds i x y"
    by (auto simp: link_def)
  from store_growsD[OF grows xy(1)] store_growsD[OF grows xy(2)]
  obtain x' y' where "ctx_at g' i = Some x'" "evolves x x'" "ctx_at g' j = Some y'" "evolves y y'" by blast
  then show ?thesis using xy(3) by (auto simp: link_def succeeds_def evolves_def)
qed

lemma successively_mono_rel: "(\<And>i j. P i j \<Longrightarrow> Q i j) \<Longrightarrow> successively P ids \<Longrightarrow> successively Q ids"
  by (induction P ids rule: successively.induct) auto

lemma evolves_body: "evolves x y \<Longrightarrow> fc_body y = fc_body x"
  by (simp add: evolves_def)

lemma members_grow:
  assumes grows: "store_grows g g'" and "\<forall>i\<in>set ids. \<exists>x. ctx_at g i = Some x \<and> b_lineage_id (fc_body x) = l"
  shows "\<forall>i\<in>set ids. \<exists>x. ctx_at g' i = Some x \<and> b_lineage_id (fc_body x) = l"
proof
  fix i assume "i \<in> set ids"
  then obtain x where x: "ctx_at g i = Some x" "b_lineage_id (fc_body x) = l" using assms(2) by blast
  from store_growsD[OF grows x(1)] x(2) show "\<exists>x. ctx_at g' i = Some x \<and> b_lineage_id (fc_body x) = l"
    by (auto dest: evolves_body)
qed

lemma root_grows:
  assumes grows: "store_grows g g'" and "\<exists>x. ctx_at g c = Some x \<and> b_supersedes (fc_body x) = None"
  shows "\<exists>x. ctx_at g' c = Some x \<and> b_supersedes (fc_body x) = None"
proof -
  obtain x where x: "ctx_at g c = Some x" "b_supersedes (fc_body x) = None" using assms(2) by blast
  from store_growsD[OF grows x(1)] x(2) show ?thesis by (auto dest: evolves_body)
qed

lemma chain_grows:
  assumes grows: "store_grows g g'" and chain: "chain g l ids"
    and last: "\<exists>x. ctx_at g' (last ids) = Some x \<and> rs_status (fc_registry_state x) = Active"
  shows "chain g' l ids"
  using chain last members_grow[OF grows] root_grows[OF grows]
    successively_mono_rel[of "link g" "link g'", OF link_grows[OF grows]]
  unfolding chain_def by blast

text \<open>In a chain every member but the last is superseded.\<close>

lemma chain_unsuperseded_last:
  assumes "chain g l ids" "i \<in> set ids" "ctx_at g i = Some x" "rs_status (fc_registry_state x) \<noteq> Superseded"
  shows "i = last ids"
proof -
  have "successively (link g) ids \<Longrightarrow> i \<in> set ids \<Longrightarrow> i = last ids"
    using assms(3,4)
    by (induction "link g" ids rule: successively.induct) (auto simp: link_def succeeds_def)
  then show ?thesis using assms(1,2) by (simp add: chain_def)
qed

section \<open>Steps preserve the invariant\<close>

lemma lifecycle_cases:
  assumes "commit_lifecycle_event e now g = (r, g')"
  obtains "g' = g"
  | x where "ctx_at g (le_ctx_id e) = Some x" "le_event_id e \<notin> le_event_id ` set (events_of x)"
      "check_transition (le_event_type e) (retraction_state (events_of x)) = Inr ()"
      "g' = insert_ctx (le_ctx_id e) (append_event e x) g" "r = Inr (Applied (project_context (append_event e x) now))"
  using assms that unfolding commit_lifecycle_event_def
  by (auto simp: find_None_iff Let_def split: option.splits sum.splits if_splits) (metis imageE)

lemma insert_grows: "ctx_at g c = Some x \<Longrightarrow> evolves x y \<Longrightarrow> store_grows g (insert_ctx c y g)"
  by (auto simp: store_grows_def)

lemma lifecycle_grows: "commit_lifecycle_event e now g = (r, g') \<Longrightarrow> store_grows g g'"
  by (erule lifecycle_cases) (auto intro: store_grows_refl insert_grows)

lemma lifecycle_inv:
  assumes inv: "store_inv sha256 g" and step: "commit_lifecycle_event e now g = (r, g')"
  shows "store_inv sha256 g'"
  using step
proof (cases rule: lifecycle_cases)
  case (2 x)
  let ?c = "le_ctx_id e"
  note grows = lifecycle_grows[OF step]
  have ok: "context_ok g ?c x" using inv 2(1) by (rule store_inv_contextD)
  have lin: "lineage_at g' = lineage_at g" using 2(4) by simp
  have new: "context_ok g' ?c (append_event e x)"
    using ok alternating_snoc[OF _ 2(3,2)] by (auto simp: context_ok_def lin)
  have ctx: "context_ok g' c y" if "ctx_at g' c = Some y" for c y
    using that new store_inv_contextD[OF inv] by (auto simp: 2(4) context_ok_def split: if_splits)
  moreover have "chain g' l ids \<and> l = derive_lineage_id sha256 (hd ids)" if "lineage_at g' l = Some ids" for l ids
  proof -
    have ch: "chain g l ids" "l = derive_lineage_id sha256 (hd ids)"
      using store_inv_chainD[OF inv] that lin by auto
    then have "\<exists>y. ctx_at g' (last ids) = Some y \<and> rs_status (fc_registry_state y) = Active"
      using 2(1,4) by (auto simp: chain_def)
    then show ?thesis using chain_grows[OF grows ch(1)] ch(2) by blast
  qed
  ultimately show ?thesis by (simp add: store_inv_def)
qed (use inv in simp)

definition new_ctx_id :: "string \<Rightarrow> publish_commit \<Rightarrow> ctx_id" where
  "new_ctx_id uuid commit = ''acdp://'' @ pc_authority commit @ ''/'' @ uuid"

text \<open>What a successful preparation has checked.\<close>

lemma supersession_checkD:
  assumes "supersession_check commit g = Inr v" "pr_supersedes (pc_req commit) = Some prev"
  obtains x where "ctx_at g prev = Some x" "owns (pr_agent_id (pc_req commit)) (fc_body x)"
    "pr_version (pc_req commit) = b_version (fc_body x) + 1" "rs_status (fc_registry_state x) \<noteq> Superseded"
    "v = first_version_ctx_id (b_lineage_id (fc_body x)) g"
  using assms that by (auto simp: supersession_check_def Let_def result_simps owns_def)

lemma prepare_publishD:
  assumes "prepare_publish sha256 uuid commit now g = Inr (b, receipt)"
  obtains v l where "supersession_check commit g = Inr v"
    "assign_identifiers sha256 uuid (pc_authority commit) (pr_supersedes (pc_req commit)) v = Inr (new_ctx_id uuid commit, l)"
    "b = from_publish_request (pc_req commit) (new_ctx_id uuid commit) l (pc_authority commit) now"
    "ctx_at g (new_ctx_id uuid commit) = None"
proof -
  obtain v c l where v: "supersession_check commit g = Inr v"
      "assign_identifiers sha256 uuid (pc_authority commit) (pr_supersedes (pc_req commit)) v = Inr (c, l)"
      "b = from_publish_request (pc_req commit) c l (pc_authority commit) now" "ctx_at g c = None"
    using assms unfolding prepare_publish_def Let_def by (auto simp: result_simps)
  moreover have "c = new_ctx_id uuid commit"
    using v(2) by (auto simp: assign_identifiers_def new_ctx_id_def Let_def split: option.splits)
  ultimately show ?thesis using that by blast
qed

text \<open>The state after an accepted publish.\<close>

definition published :: "publish_commit \<Rightarrow> body \<Rightarrow> json option \<Rightarrow> inner \<Rightarrow> inner" where
  "published commit b receipt g =
     (let g1 = push_lineage (b_lineage_id b) (b_ctx_id b) (insert_ctx (b_ctx_id b) (fresh_context b receipt) g)
      in case pr_supersedes (pc_req commit) of None \<Rightarrow> g1 | Some prev \<Rightarrow> mark_superseded prev g1)"

lemma commit_publish_cases:
  assumes "commit_publish sha256 uuid commit now g = (r, g')"
  obtains "g' = g" "\<nexists>resp. r = Inr (Inserted resp)"
  | b receipt where "idempotency_answer commit now g = None"
      "prepare_publish sha256 uuid commit now g = Inr (b, receipt)"
      "by_ctx g' = by_ctx (published commit b receipt g)" "lineages g' = lineages (published commit b receipt g)"
      "r = Inr (Inserted (publish_response_of (pc_req commit) b receipt))"
proof (cases "idempotency_answer commit now g")
  case (Some answer)
  moreover have "\<nexists>resp. answer = Inr (Inserted resp)"
    using Some by (auto simp: idempotency_answer_def split: option.splits if_splits)
  ultimately show ?thesis using assms that(1) by (simp add: commit_publish_def)
next
  case None
  show ?thesis
  proof (cases "prepare_publish sha256 uuid commit now g")
    case (Inl e)
    then show ?thesis using assms that(1) None by (auto simp: commit_publish_def)
  next
    case (Inr br)
    obtain b receipt where br: "br = (b, receipt)" by (cases br)
    show ?thesis
      using assms that(2)[OF None] None Inr br
      by (auto simp: commit_publish_def published_def Let_def split: option.splits)
  qed
qed

lemma ctx_at_published:
  "ctx_at (published commit b receipt g) =
     (case pr_supersedes (pc_req commit) of
        None \<Rightarrow> (ctx_at g)(b_ctx_id b \<mapsto> fresh_context b receipt)
      | Some prev \<Rightarrow> (\<lambda>i. if i = prev then map_option supersede (((ctx_at g)(b_ctx_id b \<mapsto> fresh_context b receipt)) prev)
          else ((ctx_at g)(b_ctx_id b \<mapsto> fresh_context b receipt)) i))"
  by (auto simp: published_def Let_def ctx_at_mark fun_eq_iff split: option.split)

lemma lineage_at_published:
  "lineage_at (published commit b receipt g) =
     (lineage_at g)(b_lineage_id b \<mapsto> (case lineage_at g (b_lineage_id b) of None \<Rightarrow> [] | Some ids \<Rightarrow> ids) @ [b_ctx_id b])"
  by (simp add: published_def Let_def split: option.split)

lemma published_grows:
  "ctx_at g (b_ctx_id b) = None \<Longrightarrow> store_grows g (published commit b receipt g)"
  by (auto simp: store_grows_def ctx_at_published split: option.split)

lemma chain_member_stored: "chain g l ids \<Longrightarrow> i \<in> set ids \<Longrightarrow> ctx_at g i \<noteq> None"
  by (auto simp: chain_def)

lemma last_in_chain: "chain g l ids \<Longrightarrow> last ids \<in> set ids"
  by (simp add: chain_def)

text \<open>Chains of different lineages share no member.\<close>

lemma chain_disjoint: "chain g l ids \<Longrightarrow> chain g l' ids' \<Longrightarrow> i \<in> set ids \<Longrightarrow> i \<in> set ids' \<Longrightarrow> l = l'"
  unfolding chain_def by (metis option.inject)

lemma chain_activeD:
  "chain g l ids \<Longrightarrow> \<exists>x. ctx_at g (last ids) = Some x \<and> rs_status (fc_registry_state x) = Active"
  by (simp add: chain_def)

text \<open>The predecessor of an accepted supersession is the head of its lineage.\<close>

lemma predecessor_is_last:
  assumes inv: "store_inv sha256 g" and x: "ctx_at g prev = Some x" "rs_status (fc_registry_state x) \<noteq> Superseded"
  obtains ids where "lineage_at g (b_lineage_id (fc_body x)) = Some ids" "chain g (b_lineage_id (fc_body x)) ids"
    "last ids = prev" "first_version_ctx_id (b_lineage_id (fc_body x)) g = Some (hd ids)"
    "derive_lineage_id sha256 (hd ids) = b_lineage_id (fc_body x)"
proof -
  obtain ids where ids: "lineage_at g (b_lineage_id (fc_body x)) = Some ids" "prev \<in> set ids"
    using store_inv_contextD[OF inv x(1)] by (auto simp: context_ok_def)
  note ch = store_inv_chainD[OF inv ids(1)]
  have "last ids = prev" using chain_unsuperseded_last[of g _ ids prev x] ch ids(2) x by auto
  moreover have "first_version_ctx_id (b_lineage_id (fc_body x)) g = Some (hd ids)"
    using ids by (cases ids) (auto simp: first_version_ctx_id_def)
  ultimately show ?thesis using that[OF ids(1)] ch by metis
qed

lemma published_context_ok:
  assumes inv: "store_inv sha256 g" and b: "b_ctx_id b = c" "trunc_ms (b_created_at b) = b_created_at b"
    and y: "ctx_at (published commit b receipt g) i = Some y"
  shows "context_ok (published commit b receipt g) i y"
proof -
  let ?G = "published commit b receipt g"
  obtain z where z: "z = fresh_context b receipt \<and> i = c \<or> ctx_at g i = Some z \<and> i \<noteq> c" "y = z \<or> y = supersede z"
    using y b(1) by (auto simp: ctx_at_published split: option.splits if_splits)
  have "context_ok ?G i z"
  proof (cases "i = c")
    case True
    then have "z = fresh_context b receipt" using z(1) by blast
    then show ?thesis using True b by (simp add: context_ok_def lineage_at_published alternating_def)
  next
    case False
    then have "context_ok g i z" using z(1) store_inv_contextD[OF inv] by blast
    then show ?thesis by (auto simp: context_ok_def lineage_at_published)
  qed
  then show ?thesis using z(2) by (auto simp: context_ok_def)
qed

lemma published_chain_first:
  assumes inv: "store_inv sha256 g" and none: "pr_supersedes (pc_req commit) = None" "b_supersedes b = None"
    and fresh: "ctx_at g (b_ctx_id b) = None" "lineage_at g (b_lineage_id b) = None"
    and ids: "lineage_at (published commit b receipt g) l = Some ids"
  shows "chain (published commit b receipt g) l ids \<and>
    (l = b_lineage_id b \<and> ids = [b_ctx_id b] \<or> lineage_at g l = Some ids)"
proof (cases "l = b_lineage_id b")
  case True
  then have "ids = [b_ctx_id b]" using ids fresh(2) by (simp add: lineage_at_published)
  then show ?thesis using True none by (simp add: chain_def ctx_at_published)
next
  case False
  then have old: "lineage_at g l = Some ids" using ids by (simp add: lineage_at_published)
  note ch = store_inv_chainD[OF inv old, THEN conjunct1]
  have "last ids \<noteq> b_ctx_id b" using chain_member_stored[OF ch last_in_chain[OF ch]] fresh(1) by auto
  then have "chain (published commit b receipt g) l ids"
    using chain_activeD[OF ch] by (intro chain_grows[OF published_grows[OF fresh(1)] ch]) (simp add: ctx_at_published none)
  then show ?thesis using old by blast
qed

lemma published_chain_next:
  assumes inv: "store_inv sha256 g" and some: "pr_supersedes (pc_req commit) = Some prev" "b_supersedes b = Some prev"
    and x: "ctx_at g prev = Some x" "rs_status (fc_registry_state x) \<noteq> Superseded"
      "owns (b_agent_id b) (fc_body x)" "b_version b = b_version (fc_body x) + 1"
    and fresh: "ctx_at g (b_ctx_id b) = None" and lin: "b_lineage_id b = b_lineage_id (fc_body x)"
    and old: "lineage_at g (b_lineage_id b) = Some olds" "last olds = prev"
    and ids: "lineage_at (published commit b receipt g) l = Some ids"
  shows "chain (published commit b receipt g) l ids \<and>
    (l = b_lineage_id b \<and> ids = olds @ [b_ctx_id b] \<or> lineage_at g l = Some ids)"
proof -
  let ?G = "published commit b receipt g"
  note grows = published_grows[OF fresh, of commit receipt]
  note cold = store_inv_chainD[OF inv old(1), THEN conjunct1]
  have pc: "prev \<noteq> b_ctx_id b" using x(1) fresh by auto
  show ?thesis
  proof (cases "l = b_lineage_id b")
    case True
    then have eq: "ids = olds @ [b_ctx_id b]" using ids old(1) by (simp add: lineage_at_published)
    have "b_ctx_id b \<notin> set olds" using chain_member_stored[OF cold] fresh by blast
    moreover have "successively (link ?G) olds"
      using cold successively_mono_rel[of "link g" "link ?G", OF link_grows[OF grows]] by (simp add: chain_def)
    moreover have "link ?G prev (b_ctx_id b)"
      using x pc some by (simp add: link_def ctx_at_published succeeds_def)
    ultimately have "chain ?G l ids"
      using cold members_grow[OF grows, of olds] root_grows[OF grows, of "hd olds"] old(2) True eq lin some pc
      unfolding chain_def by (auto simp: successively_append_iff ctx_at_published)
    then show ?thesis using True eq by blast
  next
    case False
    then have o: "lineage_at g l = Some ids" using ids by (simp add: lineage_at_published)
    note ch = store_inv_chainD[OF inv o, THEN conjunct1]
    have "last ids \<noteq> b_ctx_id b" using chain_member_stored[OF ch last_in_chain[OF ch]] fresh by auto
    moreover have "last ids \<noteq> prev"
      using chain_disjoint[OF ch cold last_in_chain[OF ch]] last_in_chain[OF cold] old(2) False by auto
    ultimately have "chain ?G l ids"
      using chain_activeD[OF ch] by (intro chain_grows[OF grows ch]) (simp add: ctx_at_published some)
    then show ?thesis using o by blast
  qed
qed

text \<open>
  A first version is assigned the lineage derived from its own identifier; the step relation below
  excludes the one case in which that lineage already exists, a SHA-256 collision with a stored one.
\<close>

definition lineage_fresh :: "(bytes \<Rightarrow> bytes) \<Rightarrow> string \<Rightarrow> publish_commit \<Rightarrow> inner \<Rightarrow> bool" where
  "lineage_fresh sha256 uuid commit g \<longleftrightarrow>
     (pr_supersedes (pc_req commit) = None \<longrightarrow> lineage_at g (derive_lineage_id sha256 (new_ctx_id uuid commit)) = None)"

lemma published_inv:
  assumes inv: "store_inv sha256 g" and prep: "prepare_publish sha256 uuid commit now g = Inr (b, receipt)"
    and fresh: "lineage_fresh sha256 uuid commit g"
  shows "store_inv sha256 (published commit b receipt g)"
proof -
  let ?G = "published commit b receipt g"
  from prep obtain v l where v: "supersession_check commit g = Inr v"
    "assign_identifiers sha256 uuid (pc_authority commit) (pr_supersedes (pc_req commit)) v = Inr (new_ctx_id uuid commit, l)"
    and b: "b = from_publish_request (pc_req commit) (new_ctx_id uuid commit) l (pc_authority commit) now"
    and new: "ctx_at g (new_ctx_id uuid commit) = None"
    by (rule prepare_publishD)
  have bc: "b_ctx_id b = new_ctx_id uuid commit" "b_lineage_id b = l" "b_supersedes b = pr_supersedes (pc_req commit)"
    "trunc_ms (b_created_at b) = b_created_at b" "ctx_at g (b_ctx_id b) = None"
    using b new by simp_all
  have "chain ?G m ids \<and> m = derive_lineage_id sha256 (hd ids)" if ids: "lineage_at ?G m = Some ids" for m ids
  proof (cases "pr_supersedes (pc_req commit)")
    case None
    then have l: "l = derive_lineage_id sha256 (new_ctx_id uuid commit)"
      using v(2) by (auto simp: assign_identifiers_def Let_def new_ctx_id_def)
    then show ?thesis
      using published_chain_first[OF inv None _ bc(5) _ ids] fresh None bc store_inv_chainD[OF inv]
      by (auto simp: lineage_fresh_def)
  next
    case (Some prev)
    from v(1) Some obtain x where x: "ctx_at g prev = Some x" "owns (pr_agent_id (pc_req commit)) (fc_body x)"
      "pr_version (pc_req commit) = b_version (fc_body x) + 1" "rs_status (fc_registry_state x) \<noteq> Superseded"
      and fv: "v = first_version_ctx_id (b_lineage_id (fc_body x)) g"
      by (rule supersession_checkD)
    from inv x(1,4) obtain olds where olds: "lineage_at g (b_lineage_id (fc_body x)) = Some olds"
      "chain g (b_lineage_id (fc_body x)) olds" "last olds = prev" "v = Some (hd olds)"
      "derive_lineage_id sha256 (hd olds) = b_lineage_id (fc_body x)"
      by (rule predecessor_is_last) (use fv in simp)
    have l: "l = b_lineage_id (fc_body x)" using v(2) Some olds by (simp add: assign_identifiers_def Let_def)
    have "olds \<noteq> []" using olds(2) by (simp add: chain_def)
    then show ?thesis
      using published_chain_next[OF inv Some _ x(1,4) _ _ bc(5) _ _ olds(3) ids] x b bc Some l olds
        store_inv_chainD[OF inv] by auto
  qed
  moreover have "context_ok ?G i y" if "ctx_at ?G i = Some y" for i y
    using published_context_ok[OF inv refl bc(4) that] .
  ultimately show ?thesis by (simp add: store_inv_def)
qed

lemma store_inv_cong: "by_ctx g' = by_ctx g \<Longrightarrow> lineages g' = lineages g \<Longrightarrow> store_inv sha256 g' = store_inv sha256 g"
  by (simp add: store_inv_def context_ok_def chain_def link_def[abs_def])

lemma store_grows_cong: "by_ctx g' = by_ctx h \<Longrightarrow> store_grows g h \<Longrightarrow> store_grows g g'"
  by (simp add: store_grows_def)

lemma commit_publish_inv:
  assumes "commit_publish sha256 uuid commit now g = (r, g')" "store_inv sha256 g" "lineage_fresh sha256 uuid commit g"
  shows "store_inv sha256 g'"
  using assms(1)
proof (cases rule: commit_publish_cases)
  case (2 b receipt)
  then show ?thesis using published_inv[OF assms(2) _ assms(3)] store_inv_cong by blast
qed (use assms in simp)

lemma commit_publish_grows:
  assumes "commit_publish sha256 uuid commit now g = (r, g')"
  shows "store_grows g g'"
  using assms
proof (cases rule: commit_publish_cases)
  case (2 b receipt)
  have "ctx_at g (b_ctx_id b) = None" by (rule prepare_publishD[OF 2(2)]) simp
  then show ?thesis using published_grows store_grows_cong[OF 2(3)] by blast
qed (simp add: store_grows_refl)

section \<open>The step relation\<close>

inductive store_step :: "(bytes \<Rightarrow> bytes) \<Rightarrow> instant \<Rightarrow> inner \<Rightarrow> inner \<Rightarrow> bool" for sha256 now g where
  publish: "commit_publish sha256 uuid commit now g = (r, g') \<Longrightarrow> lineage_fresh sha256 uuid commit g \<Longrightarrow>
     store_step sha256 now g g'"
| lifecycle: "commit_lifecycle_event e now g = (r', g') \<Longrightarrow> store_step sha256 now g g'"
| idempotency_read: "idempotency_lookup agent key now g = (r'', g') \<Longrightarrow> store_step sha256 now g g'"
| evict: "store_step sha256 now g (idempotency_evict_expired now g)"

inductive_cases store_stepE: "store_step sha256 now g g'"

definition any_step :: "(bytes \<Rightarrow> bytes) \<Rightarrow> inner \<Rightarrow> inner \<Rightarrow> bool" where
  "any_step sha256 g g' \<longleftrightarrow> (\<exists>now. store_step sha256 now g g')"

definition reachable :: "(bytes \<Rightarrow> bytes) \<Rightarrow> inner \<Rightarrow> bool" where
  "reachable sha256 g \<longleftrightarrow> (any_step sha256)\<^sup>*\<^sup>* new_store g"

lemma step_store_inv: "store_inv sha256 g \<Longrightarrow> store_step sha256 now g g' \<Longrightarrow> store_inv sha256 g'"
  by (erule store_stepE)
    (auto simp: idempotency_lookup_def Let_def store_inv_cong[of "idempotency_evict_expired now g" g]
      intro: commit_publish_inv lifecycle_inv)

lemma step_store_grows: "store_step sha256 now g g' \<Longrightarrow> store_grows g g'"
  by (erule store_stepE)
    (auto simp: idempotency_lookup_def Let_def intro: commit_publish_grows lifecycle_grows store_grows_cong store_grows_refl)

interpretation store: growing_system "any_step sha256" "store_inv sha256" store_grows for sha256
  by unfold_locales
    (auto simp: any_step_def intro: step_store_inv store_grows_refl store_grows_trans step_store_grows)

lemma reachable_new: "reachable sha256 new_store"
  by (simp add: reachable_def)

lemma reachable_step: "reachable sha256 g \<Longrightarrow> store_step sha256 now g g' \<Longrightarrow> reachable sha256 g'"
  unfolding reachable_def by (rule rtranclp.rtrancl_into_rtrancl) (auto simp: any_step_def)

lemma reachable_inv: "reachable sha256 g \<Longrightarrow> store_inv sha256 g"
  using store.steps_inv store_inv_new by (auto simp: reachable_def)

section \<open>Properties of reachable stores\<close>

text \<open>A store with one two-version lineage, for the witnesses below.\<close>

definition demo_request :: "ctx_id option \<Rightarrow> u32 \<Rightarrow> content_hash \<Rightarrow> publish_request" where
  "demo_request prev v h =
     \<lparr>pr_version = v, pr_supersedes = prev, pr_agent_id = ''did:web:a'', pr_contributors = [],
      pr_title = ''t'', pr_context_type = DataSnapshot, pr_data_refs = [], pr_derived_from = [],
      pr_visibility = Public, pr_content_hash = h,
      pr_signature = \<lparr>sig_algorithm = ''ed25519'', sig_key_id = ''did:web:a#k'', sig_value = ''''\<rparr>,
      pr_audience = None, pr_acdp_version = None, pr_description = None, pr_summary = None,
      pr_lineage_id = None, pr_tags = None, pr_domain = None, pr_expires_at = None,
      pr_data_period = None, pr_metadata = None, pr_schema_uri = None, pr_anchors = None,
      pr_key_attestation = None\<rparr>"

definition demo_commit :: "ctx_id option \<Rightarrow> u32 \<Rightarrow> string option \<Rightarrow> publish_commit" where
  "demo_commit prev v key =
     \<lparr>pc_req = demo_request prev v ''sha256:00'', pc_authority = ''r'',
      pc_idempotency = map_option (\<lambda>k. \<lparr>pi_key = k, pi_ttl = 100\<rparr>) key,
      pc_receipt_minter = None, pc_predecessor_admission = None\<rparr>"

definition demo_sha :: "bytes \<Rightarrow> bytes" where
  "demo_sha b = b"

definition demo_v1 :: ctx_id where
  "demo_v1 = ''acdp://r/1''"

definition demo_v2 :: ctx_id where
  "demo_v2 = ''acdp://r/2''"

definition demo_store1 :: inner where
  "demo_store1 = snd (commit_publish demo_sha ''1'' (demo_commit None 1 (Some ''k'')) 5 new_store)"

definition demo_store2 :: inner where
  "demo_store2 = snd (commit_publish demo_sha ''2'' (demo_commit (Some demo_v1) 2 None) 6 demo_store1)"

lemmas demo_defs = demo_request_def demo_commit_def demo_v1_def demo_v2_def demo_store1_def demo_store2_def

definition demo_body1 :: body where
  "demo_body1 = from_publish_request (demo_request None 1 ''sha256:00'') demo_v1 (derive_lineage_id demo_sha demo_v1) ''r'' 5"

definition demo_body2 :: body where
  "demo_body2 = from_publish_request (demo_request (Some demo_v1) 2 ''sha256:00'') demo_v2 (derive_lineage_id demo_sha demo_v1) ''r'' 6"

lemma demo_commit_simps [simp]:
  "pr_supersedes (pc_req (demo_commit p v k)) = p" "pr_version (pc_req (demo_commit p v k)) = v"
  "pr_agent_id (pc_req (demo_commit p v k)) = ''did:web:a''" "pr_lineage_id (pc_req (demo_commit p v k)) = None"
  "pr_content_hash (pc_req (demo_commit p v k)) = ''sha256:00''"
  "pc_authority (demo_commit p v k) = ''r''" "pc_receipt_minter (demo_commit p v k) = None"
  "pc_predecessor_admission (demo_commit p v k) = None"
  "pc_idempotency (demo_commit p v k) = map_option (\<lambda>k. \<lparr>pi_key = k, pi_ttl = 100\<rparr>) k"
  "pc_req (demo_commit p v k) = demo_request p v ''sha256:00''"
  by (simp_all add: demo_commit_def demo_request_def)

lemma demo_request_simps [simp]:
  "pr_supersedes (demo_request p v h) = p" "pr_version (demo_request p v h) = v"
  "pr_agent_id (demo_request p v h) = ''did:web:a''" "pr_lineage_id (demo_request p v h) = None"
  "pr_content_hash (demo_request p v h) = h"
  by (simp_all add: demo_request_def)

lemmas publish_eval = commit_publish_def idempotency_answer_def prepare_publish_def supersession_check_def
  assign_identifiers_def first_version_ctx_id_def Let_def

lemma demo_store1_eval:
  "by_ctx demo_store1 = [(demo_v1, fresh_context demo_body1 None)]"
  "lineages demo_store1 = [(derive_lineage_id demo_sha demo_v1, [demo_v1])]"
  by (simp_all add: demo_store1_def publish_eval demo_body1_def demo_v1_def new_store_def insert_ctx_def push_lineage_def)

lemma demo_body_simps [simp]:
  "b_ctx_id demo_body1 = demo_v1" "b_lineage_id demo_body1 = derive_lineage_id demo_sha demo_v1"
  "b_version demo_body1 = 1" "b_agent_id demo_body1 = ''did:web:a''" "b_supersedes demo_body1 = None"
  "b_ctx_id demo_body2 = demo_v2" "b_supersedes demo_body2 = Some demo_v1"
  "b_lineage_id demo_body2 = derive_lineage_id demo_sha demo_v1"
  by (simp_all add: demo_body1_def demo_body2_def)

lemma demo_ids [simp]: "demo_v1 \<noteq> demo_v2" "demo_v2 \<noteq> demo_v1"
  by (simp_all add: demo_v1_def demo_v2_def)

lemma demo_store2_eval:
  "by_ctx demo_store2 = [(demo_v1, supersede (fresh_context demo_body1 None)), (demo_v2, fresh_context demo_body2 None)]"
  "lineages demo_store2 = [(derive_lineage_id demo_sha demo_v1, [demo_v1, demo_v2])]"
proof -
  have c: "''acdp://r/2'' = demo_v2" by (simp add: demo_v2_def)
  have p: "prepare_publish demo_sha ''2'' (demo_commit (Some demo_v1) 2 None) 6 demo_store1 = Inr (demo_body2, None)"
    using c by (simp add: prepare_publish_def supersession_check_def assign_identifiers_def first_version_ctx_id_def
        Let_def demo_store1_eval demo_body2_def)
  show "by_ctx demo_store2 = [(demo_v1, supersede (fresh_context demo_body1 None)), (demo_v2, fresh_context demo_body2 None)]"
    "lineages demo_store2 = [(derive_lineage_id demo_sha demo_v1, [demo_v1, demo_v2])]"
    by (simp_all add: demo_store2_def commit_publish_def idempotency_answer_def p Let_def insert_ctx_def
        push_lineage_def mark_superseded_def demo_store1_eval supersede_def)
qed

lemma demo_store1_reachable: "reachable demo_sha demo_store1"
proof -
  have "lineage_fresh demo_sha ''1'' (demo_commit None 1 (Some ''k'')) new_store"
    by (simp add: lineage_fresh_def new_store_def)
  then have "store_step demo_sha 5 new_store demo_store1"
    unfolding demo_store1_def by (intro publish[OF prod.collapse[symmetric]])
  then show ?thesis by (rule reachable_step[OF reachable_new])
qed

lemma demo_store2_reachable: "reachable demo_sha demo_store2"
proof -
  have "lineage_fresh demo_sha ''2'' (demo_commit (Some demo_v1) 2 None) demo_store1"
    by (simp add: lineage_fresh_def demo_defs)
  then have "store_step demo_sha 6 demo_store1 demo_store2"
    unfolding demo_store2_def by (intro publish[OF prod.collapse[symmetric]])
  then show ?thesis by (rule reachable_step[OF demo_store1_reachable])
qed

text \<open>Uniqueness of successors, from the chain structure.\<close>

lemma link_unique:
  assumes "successively (link g) ids" "distinct ids" "j \<in> set ids" "j \<noteq> hd ids" "ctx_at g j = Some y"
    and "b_supersedes (fc_body y) = Some i"
  shows "\<exists>xs ys. ids = xs @ i # j # ys"
  using assms
proof (induction "link g" ids rule: successively.induct)
  case (3 a b xs)
  show ?case
  proof (cases "j = b")
    case True
    then have "i = a" using 3 by (auto simp: link_def succeeds_def)
    then show ?thesis using True by (metis append_Nil)
  next
    case False
    then have "\<exists>us vs. b # xs = us @ i # j # vs" using 3 by auto
    then show ?thesis by (metis append_Cons)
  qed
qed auto

lemma successor_in_chain:
  assumes inv: "store_inv sha256 g" and y: "ctx_at g j = Some y" "b_supersedes (fc_body y) = Some i"
  shows "\<exists>xs ys. lineage_at g (b_lineage_id (fc_body y)) = Some (xs @ i # j # ys) \<and>
    chain g (b_lineage_id (fc_body y)) (xs @ i # j # ys)"
proof -
  obtain ids where ids: "lineage_at g (b_lineage_id (fc_body y)) = Some ids" "j \<in> set ids"
    using store_inv_contextD[OF inv y(1)] by (auto simp: context_ok_def)
  note ch = store_inv_chainD[OF inv ids(1), THEN conjunct1]
  then have "j \<noteq> hd ids" using y by (auto simp: chain_def)
  then obtain xs ys where "ids = xs @ i # j # ys"
    using link_unique[of g ids j y i] ch ids(2) y by (auto simp: chain_def)
  then show ?thesis using ids ch by auto
qed

text \<open>
  Lineages are linear: in every reachable store, whatever the interleaving of publishes,
  lifecycle events and evictions, two stored contexts never supersede the same predecessor.
\<close>

theorem unique_successor:
  assumes "reachable sha256 g" "ctx_at g j = Some y" "ctx_at g k = Some z"
    and "b_supersedes (fc_body y) = Some i" "b_supersedes (fc_body z) = Some i"
  shows "j = k"
proof -
  note inv = reachable_inv[OF assms(1)]
  obtain xs ys where 1: "lineage_at g (b_lineage_id (fc_body y)) = Some (xs @ i # j # ys)"
      "chain g (b_lineage_id (fc_body y)) (xs @ i # j # ys)"
    using successor_in_chain[OF inv assms(2,4)] by blast
  obtain us vs where 2: "lineage_at g (b_lineage_id (fc_body z)) = Some (us @ i # k # vs)"
      "chain g (b_lineage_id (fc_body z)) (us @ i # k # vs)"
    using successor_in_chain[OF inv assms(3,5)] by blast
  have "b_lineage_id (fc_body y) = b_lineage_id (fc_body z)"
    using chain_disjoint[OF 1(2) 2(2), of i] by simp
  then have eq: "xs @ i # j # ys = us @ i # k # vs" using 1(1) 2(1) by simp
  have "distinct (xs @ i # j # ys)" using 1(2) by (simp add: chain_def)
  then have "xs = us" using eq by (auto simp: append_eq_append_conv2 Cons_eq_append_conv append_eq_Cons_conv)
  then show ?thesis using eq by simp
qed

lemma unique_successor_witness:
  "\<exists>y. ctx_at demo_store2 demo_v2 = Some y \<and> b_supersedes (fc_body y) = Some demo_v1 \<and> demo_v2 = demo_v2"
proof -
  obtain y where y: "ctx_at demo_store2 demo_v2 = Some y" "b_supersedes (fc_body y) = Some demo_v1"
    by (simp add: demo_store2_eval)
  from unique_successor[OF demo_store2_reachable y(1) y(1) y(2) y(2)] y show ?thesis by blast
qed

text \<open>
  C2. A lineage is one chain of custody: its identifier is derived from its first version, which
  supersedes nothing; each later version supersedes the one before it, has the next version number
  and was published by the producer or a contributor of the version before; all versions but the
  newest are superseded and the newest is not.
\<close>

theorem lineage_is_chain_of_custody:
  assumes "reachable sha256 g" "lineage_at g l = Some ids"
  shows "ids \<noteq> [] \<and> distinct ids \<and> l = derive_lineage_id sha256 (hd ids) \<and>
    (\<exists>x. ctx_at g (hd ids) = Some x \<and> b_supersedes (fc_body x) = None) \<and>
    (\<exists>x. ctx_at g (last ids) = Some x \<and> rs_status (fc_registry_state x) = Active) \<and>
    (\<forall>i. Suc i < length ids \<longrightarrow>
      (\<exists>x y. ctx_at g (ids ! i) = Some x \<and> ctx_at g (ids ! Suc i) = Some y \<and>
        rs_status (fc_registry_state x) = Superseded \<and> b_supersedes (fc_body y) = Some (ids ! i) \<and>
        b_version (fc_body y) = b_version (fc_body x) + 1 \<and> owns (b_agent_id (fc_body y)) (fc_body x)))"
  using store_inv_chainD[OF reachable_inv[OF assms(1)] assms(2)]
  by (simp add: chain_def successively_conv_nth link_def succeeds_def)

lemma lineage_is_chain_of_custody_witness:
  "lineage_at demo_store2 (derive_lineage_id demo_sha demo_v1) = Some [demo_v1, demo_v2] \<and>
   (\<exists>x. ctx_at demo_store2 (last [demo_v1, demo_v2]) = Some x \<and> rs_status (fc_registry_state x) = Active)"
proof -
  have l: "lineage_at demo_store2 (derive_lineage_id demo_sha demo_v1) = Some [demo_v1, demo_v2]"
    by (simp add: demo_store2_eval)
  from lineage_is_chain_of_custody[OF demo_store2_reachable l] l show ?thesis by blast
qed

text \<open>The projected status of a stored chain member.\<close>

lemma project_status_superseded:
  "rs_status st = Superseded \<Longrightarrow> project_status st b now \<in> {Superseded, Retracted}"
  by (simp add: project_status_def)

lemma project_status_active:
  "rs_status st = Active \<Longrightarrow> project_status st b now \<in> {Superseded, Retracted} \<longleftrightarrow> is_retracted st"
  by (simp add: project_status_def split: option.split)

lemma projected_status [simp]:
  "rs_status (fc_registry_state (project_context x now)) = project_status (fc_registry_state x) (fc_body x) now"
  by (simp add: project_context_def)

lemma current_loop_none:
  "(\<And>i x. i \<in> set ids \<Longrightarrow> ctx_at g i = Some x \<Longrightarrow> rs_status (fc_registry_state x) = Superseded) \<Longrightarrow>
     current_loop ids now g = None"
proof (induction ids)
  case (Cons i ids)
  have "current_loop ids now g = None" by (rule Cons.IH) (auto intro: Cons.prems)
  moreover have "project_status (fc_registry_state x) (fc_body x) now \<in> {Superseded, Retracted}" if "ctx_at g i = Some x" for x
    by (rule project_status_superseded[OF Cons.prems[OF _ that]]) simp
  ultimately show ?case by (cases "ctx_at g i") (auto simp: Let_def)
qed simp

text \<open>
  The head of a lineage: \<open>current\<close> answers the newest version, with its projected status, unless
  that version is retracted, in which case it answers nothing; it never falls back to a superseded
  version and never serves a retracted one.
\<close>

theorem current_is_newest_unless_retracted:
  assumes "reachable sha256 g"
  shows "store_current l now g =
    (case lineage_at g l of
       None \<Rightarrow> None
     | Some ids \<Rightarrow>
         (case ctx_at g (last ids) of
            None \<Rightarrow> None
          | Some x \<Rightarrow> if is_retracted (fc_registry_state x) then None else Some (project_context x now)))"
proof (cases "lineage_at g l")
  case (Some ids)
  note ch = store_inv_chainD[OF reachable_inv[OF assms] Some, THEN conjunct1]
  obtain x where x: "ctx_at g (last ids) = Some x" "rs_status (fc_registry_state x) = Active"
    using chain_activeD[OF ch] by blast
  have ids: "rev ids = last ids # rev (butlast ids)"
    using ch by (metis append_butlast_last_id chain_def rev.simps(2) rev_rev_ident)
  have "distinct (butlast ids @ [last ids])" using ch by (simp add: chain_def)
  then have older: "current_loop (rev (butlast ids)) now g = None"
    using chain_unsuperseded_last[OF ch] by (intro current_loop_none) (auto dest: in_set_butlastD)
  show ?thesis
    using project_status_active[OF x(2), of "fc_body x" now] by (auto simp: store_current_def Some ids x(1) older Let_def)
qed (simp add: store_current_def)

lemma current_is_newest_unless_retracted_witness:
  "store_current (derive_lineage_id demo_sha demo_v1) 7 demo_store2 =
     Some (project_context (fresh_context demo_body2 None) 7)"
  by (subst current_is_newest_unless_retracted[OF demo_store2_reachable])
    (simp add: demo_store2_eval is_retracted_def fresh_context_def active_state_def)

text \<open>
  C4. Compare-and-swap on the predecessor: once a successor of a context has been accepted, no later
  publish, by whatever client and after whatever other operations, is accepted against the same
  predecessor.
\<close>

theorem predecessor_taken_once:
  assumes "commit_publish sha256 uuid commit now g = (Inr (Inserted resp), g')"
    and "pr_supersedes (pc_req commit) = Some prev"
    and "(any_step sha256)\<^sup>*\<^sup>* g' h" "store_inv sha256 g'"
    and "commit_publish sha256 uuid' commit' now' h = (r, h')" "pr_supersedes (pc_req commit') = Some prev"
  shows "\<nexists>resp'. r = Inr (Inserted resp')"
proof -
  from assms(1) obtain b receipt where b: "prepare_publish sha256 uuid commit now g = Inr (b, receipt)"
    "by_ctx g' = by_ctx (published commit b receipt g)"
    by (rule commit_publish_cases) auto
  have fresh: "ctx_at g (b_ctx_id b) = None" by (rule prepare_publishD[OF b(1)]) simp
  obtain v where "supersession_check commit g = Inr v" by (rule prepare_publishD[OF b(1)])
  then obtain x where "ctx_at g prev = Some x" using assms(2) by (rule supersession_checkD)
  then have "ctx_at g' prev = Some (supersede x)"
    using b(2) fresh assms(2) by (auto simp: ctx_at_published)
  then obtain y where y: "ctx_at h prev = Some y" "rs_status (fc_registry_state y) = Superseded"
    using store_growsD[OF store.steps_grow[OF assms(3,4)]] by (force simp: evolves_def)
  show ?thesis
  proof
    assume "\<exists>resp'. r = Inr (Inserted resp')"
    with assms(5) obtain b' receipt' where "prepare_publish sha256 uuid' commit' now' h = Inr (b', receipt')"
      by (auto elim: commit_publish_cases)
    then obtain v' where "supersession_check commit' h = Inr v'" by (rule prepare_publishD)
    then show False using assms(6) y by (auto elim: supersession_checkD)
  qed
qed

lemma demo_commit2: "commit_publish demo_sha ''2'' (demo_commit (Some demo_v1) 2 None) 6 demo_store1 =
   (Inr (Inserted (publish_response_of (demo_request (Some demo_v1) 2 ''sha256:00'') demo_body2 None)), demo_store2)"
proof -
  have c: "''acdp://r/2'' = demo_v2" by (simp add: demo_v2_def)
  have "prepare_publish demo_sha ''2'' (demo_commit (Some demo_v1) 2 None) 6 demo_store1 = Inr (demo_body2, None)"
    using c by (simp add: prepare_publish_def supersession_check_def assign_identifiers_def first_version_ctx_id_def
        Let_def demo_store1_eval demo_body2_def)
  then show ?thesis by (simp add: demo_store2_def commit_publish_def idempotency_answer_def Let_def)
qed

lemma predecessor_taken_once_witness:
  "\<nexists>resp. fst (commit_publish demo_sha ''3'' (demo_commit (Some demo_v1) 2 None) 9 demo_store2) = Inr (Inserted resp)"
  using predecessor_taken_once[OF demo_commit2, of demo_v1 demo_store2 "''3''" "demo_commit (Some demo_v1) 2 None" 9]
    reachable_inv[OF demo_store2_reachable] by (metis demo_commit_simps(1) prod.collapse rtranclp.rtrancl_refl)

text \<open>
  Stored contexts are immutable and never lost: after any operations a stored context is still
  stored under its identifier with the same body and receipt, its lifecycle history is an extension
  of what it was, and a superseded context stays superseded.
\<close>

theorem stored_contexts_immutable:
  assumes "reachable sha256 g" "(any_step sha256)\<^sup>*\<^sup>* g h" "ctx_at g c = Some x"
  shows "\<exists>y. ctx_at h c = Some y \<and> fc_body y = fc_body x \<and> fc_registry_receipt y = fc_registry_receipt x \<and>
    prefix (events_of x) (events_of y) \<and>
    (rs_status (fc_registry_state x) = Superseded \<longrightarrow> rs_status (fc_registry_state y) = Superseded)"
  using store_growsD[OF store.steps_grow[OF assms(2) reachable_inv[OF assms(1)]] assms(3)]
  by (auto simp: evolves_def)

lemma stored_contexts_immutable_witness:
  "\<exists>y. ctx_at demo_store2 demo_v1 = Some y \<and> fc_body y = demo_body1"
proof -
  have "ctx_at demo_store1 demo_v1 = Some (fresh_context demo_body1 None)" by (simp add: demo_store1_eval)
  moreover have "(any_step demo_sha)\<^sup>*\<^sup>* demo_store1 demo_store2"
    using publish[OF demo_commit2] by (auto simp: any_step_def lineage_fresh_def intro!: r_into_rtranclp)
  ultimately show ?thesis using stored_contexts_immutable[OF demo_store1_reachable] by fastforce
qed

section \<open>Idempotent publishing\<close>

text \<open>Operations whose clock reads less than a record's expiry neither drop nor change the record.\<close>

definition steps_before :: "(bytes \<Rightarrow> bytes) \<Rightarrow> instant \<Rightarrow> inner \<Rightarrow> inner \<Rightarrow> bool" where
  "steps_before sha256 t = (\<lambda>g g'. \<exists>now<t. store_step sha256 now g g')\<^sup>*\<^sup>*"

lemma idempotency_frame [simp]:
  "idempotency (insert_ctx c x g) = idempotency g" "idempotency (push_lineage l c g) = idempotency g"
  "idempotency (mark_superseded c g) = idempotency g"
  by (simp_all add: insert_ctx_def push_lineage_def mark_superseded_def split: option.split)

lemma map_of_evict:
  "map_of (idempotency g) k = Some rec \<Longrightarrow> now < ir_expires_at rec \<Longrightarrow>
     map_of (idempotency (idempotency_evict_expired now g)) k = Some rec"
proof -
  have "map_of xs k = Some rec \<Longrightarrow> now < ir_expires_at rec \<Longrightarrow>
      map_of (filter (\<lambda>(_, r). now < ir_expires_at r) xs) k = Some rec" for xs :: "((agent_did \<times> string) \<times> idempotency_record) list"
    by (induction xs) (auto split: if_splits)
  then show "map_of (idempotency g) k = Some rec \<Longrightarrow> now < ir_expires_at rec \<Longrightarrow> ?thesis"
    by (simp add: idempotency_evict_expired_def)
qed

lemma commit_publish_keeps_live:
  assumes "commit_publish sha256 uuid commit now g = (r, g')"
    and "map_of (idempotency g) k = Some rec" "now < ir_expires_at rec"
  shows "map_of (idempotency g') k = Some rec"
proof (cases "\<exists>idem. pc_idempotency commit = Some idem \<and> k = (pr_agent_id (pc_req commit), pi_key idem)")
  case True
  then have "idempotency_answer commit now g \<noteq> None"
    using assms(2,3) by (auto simp: idempotency_answer_def)
  then show ?thesis using assms by (auto simp: commit_publish_def)
next
  case False
  then show ?thesis
    using assms(1,2)
    by (auto simp: commit_publish_def Let_def store_idempotency_record_def update_conv'
        split: option.splits sum.splits prod.splits)
qed

lemma step_keeps_live:
  assumes "store_step sha256 now g g'" "map_of (idempotency g) k = Some rec" "now < ir_expires_at rec"
  shows "map_of (idempotency g') k = Some rec"
  using assms(1)
proof (cases rule: store_step.cases)
  case publish
  then show ?thesis using commit_publish_keeps_live assms(2,3) by blast
next
  case lifecycle
  then show ?thesis using assms(2) by (auto elim!: lifecycle_cases)
next
  case idempotency_read
  then show ?thesis using map_of_evict[OF assms(2,3)] by (simp add: idempotency_lookup_def Let_def)
next
  case evict
  then show ?thesis using map_of_evict[OF assms(2,3)] by simp
qed

lemma steps_keep_live:
  assumes "steps_before sha256 t g g'" "map_of (idempotency g) k = Some rec" "t \<le> ir_expires_at rec"
  shows "map_of (idempotency g') k = Some rec"
  using assms(1) unfolding steps_before_def
proof (induction rule: rtranclp_induct)
  case (step h h')
  then obtain now where "now < t" "store_step sha256 now h h'" by blast
  then show ?case using step_keeps_live step.IH assms(3) by (metis order_less_le_trans)
qed (rule assms(2))

text \<open>
  Idempotent replay: after an accepted publish with an idempotency key, and until the key's time
  to live has passed, every retry of the same agent with that key, after whatever operations, changes
  nothing: it gets the original response when the content hash is the same, and
  \<open>DuplicatePublish\<close> when it differs.
\<close>

theorem idempotent_replay:
  assumes "commit_publish sha256 uuid commit now g = (Inr (Inserted resp), g')"
    and "pc_idempotency commit = Some idem" "steps_before sha256 (now + pi_ttl idem) g' h"
    and "pc_idempotency commit' = Some idem'" "pi_key idem' = pi_key idem"
    and "pr_agent_id (pc_req commit') = pr_agent_id (pc_req commit)" "now' < now + pi_ttl idem"
  shows "commit_publish sha256 uuid' commit' now' h =
    (if pr_content_hash (pc_req commit') = pr_content_hash (pc_req commit)
     then Inr (IdempotentReplay resp) else Inl DuplicatePublish, h)"
proof -
  let ?k = "(pr_agent_id (pc_req commit), pi_key idem)"
  have none: "idempotency_answer commit now g = None"
    using assms(1) by (rule commit_publish_cases) auto
  have "\<exists>rec. map_of (idempotency g') ?k = Some rec \<and> ir_content_hash rec = pr_content_hash (pc_req commit) \<and>
      ir_response rec = resp \<and> ir_expires_at rec = now + pi_ttl idem"
    using assms(1,2) none
    by (auto simp: commit_publish_def Let_def store_idempotency_record_def update_conv' split: sum.splits prod.splits)
  then obtain rec where rec: "map_of (idempotency g') ?k = Some rec"
      "ir_content_hash rec = pr_content_hash (pc_req commit)" "ir_response rec = resp"
      "ir_expires_at rec = now + pi_ttl idem" by blast
  have "map_of (idempotency h) ?k = Some rec" using steps_keep_live[OF assms(3) rec(1)] rec(4) by simp
  then show ?thesis
    using assms(4-7) rec by (simp add: commit_publish_def idempotency_answer_def)
qed

lemma demo_commit1: "commit_publish demo_sha ''1'' (demo_commit None 1 (Some ''k'')) 5 new_store =
   (Inr (Inserted (publish_response_of (demo_request None 1 ''sha256:00'') demo_body1 None)), demo_store1)"
proof -
  have c: "''acdp://r/1'' = demo_v1" by (simp add: demo_v1_def)
  have "prepare_publish demo_sha ''1'' (demo_commit None 1 (Some ''k'')) 5 new_store = Inr (demo_body1, None)"
    using c by (simp add: prepare_publish_def supersession_check_def assign_identifiers_def Let_def new_store_def demo_body1_def)
  then show ?thesis
    by (simp add: demo_store1_def commit_publish_def idempotency_answer_def Let_def new_store_def)
qed

lemma idempotent_replay_witness:
  "commit_publish demo_sha ''9'' (demo_commit None 1 (Some ''k'')) 50 demo_store1 =
     (Inr (IdempotentReplay (publish_response_of (demo_request None 1 ''sha256:00'') demo_body1 None)), demo_store1)"
  using idempotent_replay[OF demo_commit1, of "\<lparr>pi_key = ''k'', pi_ttl = 100\<rparr>" demo_store1
      "demo_commit None 1 (Some ''k'')" "\<lparr>pi_key = ''k'', pi_ttl = 100\<rparr>" 50 "''9''"]
  by (simp add: steps_before_def)

section \<open>Supersession is producer-scoped and discloses nothing\<close>

text \<open>
  No existence oracle: to a requester who neither produced nor contributed to the predecessor, a
  supersession attempt answers exactly as if the predecessor did not exist, whatever its version,
  lineage or status, and the state is unchanged.
\<close>

theorem supersession_no_oracle:
  assumes "pr_supersedes (pc_req commit) = Some prev" "pc_idempotency commit = None"
    and "ctx_at g prev = None \<or> (\<exists>x. ctx_at g prev = Some x \<and> \<not> owns (pr_agent_id (pc_req commit)) (fc_body x))"
  shows "commit_publish sha256 uuid commit now g = (Inl (SupersededTarget SR_NotFound), g)"
proof -
  have "supersession_check commit g = Inl (SupersededTarget SR_NotFound)"
    using assms by (auto simp: supersession_check_def Let_def owns_def)
  then show ?thesis
    using assms(2) by (simp add: commit_publish_def idempotency_answer_def prepare_publish_def)
qed

lemma supersession_no_oracle_witness:
  "commit_publish demo_sha ''5'' (demo_commit (Some ''acdp://r/none'') 7 None) 9 demo_store2 =
     (Inl (SupersededTarget SR_NotFound), demo_store2)"
proof (rule supersession_no_oracle)
  have "''acdp://r/none'' \<noteq> demo_v1" "''acdp://r/none'' \<noteq> demo_v2" by (simp_all add: demo_v1_def demo_v2_def)
  then show "ctx_at demo_store2 ''acdp://r/none'' = None \<or>
      (\<exists>x. ctx_at demo_store2 ''acdp://r/none'' = Some x \<and>
        \<not> owns (pr_agent_id (pc_req (demo_commit (Some ''acdp://r/none'') 7 None))) (fc_body x))"
    by (simp add: demo_store2_eval)
qed simp_all

section \<open>Lifecycle transitions\<close>

text \<open>
  Strict alternation: in every reachable store the lifecycle events of a context have distinct
  ids and alternate \<open>retracted\<close>, \<open>republished\<close>, starting with \<open>retracted\<close>; a context is retracted
  exactly when their number is odd; and a fresh event is accepted exactly when it is the next one in
  the alternation, every other one being refused without a change of state.
\<close>

theorem lifecycle_strict_alternation:
  assumes "reachable sha256 g" "ctx_at g (le_ctx_id e) = Some x"
    and "le_event_id e \<notin> le_event_id ` set (events_of x)"
  shows "(\<forall>i<length (events_of x). le_event_type (events_of x ! i) = (if even i then EvRetracted else EvRepublished)) \<and>
    distinct (map le_event_id (events_of x)) \<and>
    (is_retracted (fc_registry_state x) \<longleftrightarrow> odd (length (events_of x))) \<and>
    commit_lifecycle_event e now g =
      (if le_event_type e = (if even (length (events_of x)) then EvRetracted else EvRepublished)
       then (Inr (Applied (project_context (append_event e x) now)), insert_ctx (le_ctx_id e) (append_event e x) g)
       else (Inl (if event_type_is_registered (le_event_type e) then InvalidLifecycleTransition else SchemaViolation), g))"
proof -
  have alt: "alternating (events_of x)"
    using store_inv_contextD[OF reachable_inv[OF assms(1)] assms(2)] by (simp add: context_ok_def)
  note ret = alternating_retraction[OF alt]
  have retr: "is_retracted (fc_registry_state x) \<longleftrightarrow> odd (length (events_of x))"
    unfolding ret[symmetric] by (simp add: is_retracted_def events_of_def split: option.split)
  have find: "find (\<lambda>e'. le_event_id e' = le_event_id e) (events_of x) = None"
    using assms(3) unfolding find_None_iff by (auto intro: rev_image_eqI)
  have step: "commit_lifecycle_event e now g =
      (if le_event_type e = (if even (length (events_of x)) then EvRetracted else EvRepublished)
       then (Inr (Applied (project_context (append_event e x) now)), insert_ctx (le_ctx_id e) (append_event e x) g)
       else (Inl (if event_type_is_registered (le_event_type e) then InvalidLifecycleTransition else SchemaViolation), g))"
    unfolding commit_lifecycle_event_def assms(2) option.case find check_transition_def ret
    by (cases "le_event_type e"; cases "odd (length (events_of x))") (simp_all add: Let_def)
  show ?thesis
    using alt[unfolded alternating_def, THEN conjunct2] alt[unfolded alternating_def, THEN conjunct1] retr step
    by (intro conjI)
qed

definition demo_event :: lifecycle_event where
  "demo_event = \<lparr>le_event_id = ''e1'', le_ctx_id = demo_v1, le_event_type = EvRetracted, le_occurred_at = 0,
     le_actor = ''did:web:a'', le_reason = None, le_signature = None\<rparr>"

lemma lifecycle_strict_alternation_witness:
  "fst (commit_lifecycle_event demo_event 8 demo_store1) =
     Inr (Applied (project_context (append_event demo_event (fresh_context demo_body1 None)) 8))"
  using lifecycle_strict_alternation[OF demo_store1_reachable, of demo_event "fresh_context demo_body1 None" 8]
  by (simp add: demo_store1_eval demo_event_def)

section \<open>Refinement of a ledger of versions\<close>

text \<open>
  The abstract registry: for each lineage the list of its published bodies. It changes in two ways
  only: a first version opens a lineage, and a legitimate successor of the newest version extends it.
\<close>

type_synonym ledger = "lineage_id \<Rightarrow> body list"

inductive ledger_step :: "(bytes \<Rightarrow> bytes) \<Rightarrow> ledger \<Rightarrow> ledger \<Rightarrow> bool" for sha256 L where
  open_lineage: "L (b_lineage_id b) = [] \<Longrightarrow> b_supersedes b = None \<Longrightarrow>
     b_lineage_id b = derive_lineage_id sha256 (b_ctx_id b) \<Longrightarrow>
     ledger_step sha256 L (L(b_lineage_id b := [b]))"
| extend_lineage: "L (b_lineage_id b) = bs @ [p] \<Longrightarrow> b_supersedes b = Some (b_ctx_id p) \<Longrightarrow>
     b_version b = b_version p + 1 \<Longrightarrow> owns (b_agent_id b) p \<Longrightarrow>
     ledger_step sha256 L (L(b_lineage_id b := bs @ [p, b]))"

definition ledger_of :: "inner \<Rightarrow> ledger" where
  "ledger_of g l = (case lineage_at g l of None \<Rightarrow> [] | Some ids \<Rightarrow> map (\<lambda>i. fc_body (the (ctx_at g i))) ids)"

lemma ledger_of_cong: "by_ctx g' = by_ctx g \<Longrightarrow> lineages g' = lineages g \<Longrightarrow> ledger_of g' = ledger_of g"
  unfolding ledger_of_def[abs_def] by (simp cong: option.case_cong)

lemma body_grows:
  assumes "store_grows g g'" "ctx_at g i \<noteq> None"
  shows "fc_body (the (ctx_at g' i)) = fc_body (the (ctx_at g i))"
  using assms store_growsD[of g g' i] by (auto simp: evolves_body)

lemma ledger_of_member:
  assumes "store_inv sha256 g" "store_grows g g'" "lineage_at g l = Some ids"
  shows "map (\<lambda>i. fc_body (the (ctx_at g' i))) ids = ledger_of g l"
proof -
  have "ctx_at g i \<noteq> None" if "i \<in> set ids" for i
    using store_inv_chainD[OF assms(1,3)] chain_member_stored that by blast
  then show ?thesis using body_grows[OF assms(2)] assms(3) by (auto simp: ledger_of_def)
qed

lemma ledger_unchanged:
  assumes "store_inv sha256 g" "store_grows g g'" "lineages g' = lineages g"
  shows "ledger_of g' = ledger_of g"
proof
  fix l show "ledger_of g' l = ledger_of g l"
    using ledger_of_member[OF assms(1,2), of l] assms(3)
    by (cases "lineage_at g l") (auto simp: ledger_of_def)
qed

lemma ledger_published:
  assumes inv: "store_inv sha256 g" and fresh: "ctx_at g (b_ctx_id b) = None"
    and prev: "pr_supersedes (pc_req commit) \<noteq> Some (b_ctx_id b)"
  shows "ledger_of (published commit b receipt g) = (ledger_of g)(b_lineage_id b := ledger_of g (b_lineage_id b) @ [b])"
proof
  let ?G = "published commit b receipt g"
  have new: "fc_body (the (ctx_at ?G (b_ctx_id b))) = b"
    using prev by (auto simp: ctx_at_published split: option.split)
  fix l show "ledger_of ?G l = ((ledger_of g)(b_lineage_id b := ledger_of g (b_lineage_id b) @ [b])) l"
    using ledger_of_member[OF inv published_grows[OF fresh], of l, where commit1 = commit and receipt1 = receipt] new
    by (cases "lineage_at g l") (auto simp: ledger_of_def lineage_at_published)
qed

lemma publish_simulated:
  assumes inv: "store_inv sha256 g" and step: "commit_publish sha256 uuid commit now g = (r, g')"
    and fresh: "lineage_fresh sha256 uuid commit g"
  shows "ledger_step sha256 (ledger_of g) (ledger_of g') \<or> ledger_of g' = ledger_of g"
  using step
proof (cases rule: commit_publish_cases)
  case (2 b receipt)
  from 2(2) obtain v l where v: "supersession_check commit g = Inr v"
    "assign_identifiers sha256 uuid (pc_authority commit) (pr_supersedes (pc_req commit)) v = Inr (new_ctx_id uuid commit, l)"
    and b: "b = from_publish_request (pc_req commit) (new_ctx_id uuid commit) l (pc_authority commit) now"
    and new: "ctx_at g (new_ctx_id uuid commit) = None"
    by (rule prepare_publishD)
  have G: "ledger_of g' = ledger_of (published commit b receipt g)"
    by (rule ledger_of_cong[OF 2(3,4)])
  show ?thesis
  proof (cases "pr_supersedes (pc_req commit)")
    case None
    then have l: "l = derive_lineage_id sha256 (new_ctx_id uuid commit)"
      using v(2) by (auto simp: assign_identifiers_def Let_def new_ctx_id_def)
    then have "ledger_of g (b_lineage_id b) = []"
      using fresh None b by (simp add: lineage_fresh_def ledger_of_def)
    then show ?thesis
      using open_lineage[of "ledger_of g" b sha256] ledger_published[OF inv] None b l new G by simp
  next
    case (Some prev)
    from v(1) Some obtain x where x: "ctx_at g prev = Some x" "owns (pr_agent_id (pc_req commit)) (fc_body x)"
      "pr_version (pc_req commit) = b_version (fc_body x) + 1" "rs_status (fc_registry_state x) \<noteq> Superseded"
      and fv: "v = first_version_ctx_id (b_lineage_id (fc_body x)) g"
      by (rule supersession_checkD)
    from inv x(1,4) obtain olds where olds: "lineage_at g (b_lineage_id (fc_body x)) = Some olds"
      "chain g (b_lineage_id (fc_body x)) olds" "last olds = prev" "v = Some (hd olds)"
      "derive_lineage_id sha256 (hd olds) = b_lineage_id (fc_body x)"
      by (rule predecessor_is_last) (use fv in simp)
    have l: "l = b_lineage_id (fc_body x)" using v(2) Some olds by (simp add: assign_identifiers_def Let_def)
    have "olds = butlast olds @ [prev]" using olds(2,3) by (metis append_butlast_last_id chain_def)
    then have L: "ledger_of g (b_lineage_id b) = map (\<lambda>i. fc_body (the (ctx_at g i))) (butlast olds) @ [fc_body x]"
      using olds(1) l b x(1) by (metis (no_types, lifting) from_publish_request_simps(2) ledger_of_def list.simps(8,9)
          map_append option.sel option.simps(5))
    have px: "b_ctx_id (fc_body x) = prev" using store_inv_contextD[OF inv x(1)] by (simp add: context_ok_def)
    have ne: "pr_supersedes (pc_req commit) \<noteq> Some (b_ctx_id b)" using Some x(1) new b by auto
    show ?thesis
      using extend_lineage[of "ledger_of g" b, OF L] ledger_published[OF inv _ ne] L Some b x px new G by simp
  qed
qed simp

lemma step_simulated_ledger:
  assumes inv: "store_inv sha256 g" and step: "store_step sha256 now g g'"
  shows "ledger_step sha256 (ledger_of g) (ledger_of g') \<or> ledger_of g' = ledger_of g"
  using step
proof (cases rule: store_step.cases)
  case publish
  then show ?thesis using publish_simulated[OF inv] by blast
next
  case (lifecycle e r')
  have "lineages g' = lineages g" using lifecycle by (rule lifecycle_cases) (simp_all add: insert_ctx_def)
  then show ?thesis using ledger_unchanged[OF inv lifecycle_grows[OF lifecycle]] by blast
next
  case idempotency_read
  then have "by_ctx g' = by_ctx g" "lineages g' = lineages g" by (auto simp: idempotency_lookup_def Let_def)
  then show ?thesis using ledger_of_cong by blast
next
  case evict
  then show ?thesis using ledger_of_cong[of g' g] by simp
qed

interpretation ledger: simulation "any_step sha256" "store_inv sha256" "ledger_step sha256" ledger_of for sha256
  by unfold_locales (auto simp: any_step_def dest: step_simulated_ledger)

text \<open>
  C3. Refinement: seen through \<open>ledger_of\<close>, every run of the store from the empty state is a run of
  the abstract ledger, in which bodies are only ever appended, a lineage opens with a body that
  supersedes nothing and is extended only by a legitimate successor of its newest body.
\<close>

theorem store_refines_ledger:
  "reachable sha256 g \<Longrightarrow> (ledger_step sha256)\<^sup>*\<^sup>* (\<lambda>_. []) (ledger_of g)"
proof -
  assume "reachable sha256 g"
  then have "(ledger_step sha256)\<^sup>*\<^sup>* (ledger_of new_store) (ledger_of g)"
    using ledger.steps_simulated store_inv_new by (simp add: reachable_def)
  moreover have "ledger_of new_store = (\<lambda>_. [])" by (simp add: ledger_of_def new_store_def fun_eq_iff)
  ultimately show ?thesis by simp
qed

lemma store_refines_ledger_witness:
  "(ledger_step demo_sha)\<^sup>*\<^sup>* (\<lambda>_. []) (ledger_of demo_store2) \<and>
   ledger_of demo_store2 (derive_lineage_id demo_sha demo_v1) = [demo_body1, demo_body2]"
  using store_refines_ledger[OF demo_store2_reachable] by (simp add: ledger_of_def demo_store2_eval)

end
