(* ===== verification/Acdp_Search.thy ===== *)
theory Acdp_Search
  imports Acdp_Store_Correct
begin

text \<open>
  Keyword search of the in-memory store and its pagination cursors (\<open>search\<close>, \<open>encode_cursor\<close>,
  \<open>decode_cursor\<close> of \<open>crates/acdp-server/src/registry/store.rs\<close>).

  A \<open>search_env\<close> holds what is not this repository's code: Unicode lower-casing and trimming, the
  RFC 3339 parser of \<open>chrono\<close> and the base64 codec (its decoder yields bytes). The three clock reads
  of one call are separate arguments.
\<close>

record search_env =
  env_to_lowercase :: "string \<Rightarrow> string"
  env_trim :: "string \<Rightarrow> string"
  env_parse_rfc3339 :: "string \<Rightarrow> instant option"
  env_b64_encode :: "string \<Rightarrow> string"
  env_b64_decode :: "string \<Rightarrow> string option"

section \<open>Cursors\<close>

text \<open>\<open>str::parse::<i64>\<close>: an optional sign, at least one digit, and the value in range.\<close>

definition in_i64 :: "int \<Rightarrow> bool" where
  "in_i64 i \<longleftrightarrow> - (2 ^ 63) \<le> i \<and> i < 2 ^ 63"

definition parse_i64 :: "string \<Rightarrow> int option" where
  "parse_i64 s =
     (let (neg, ds) = (case s of
            c # r \<Rightarrow> (if c = CHR ''-'' then (True, r) else if c = CHR ''+'' then (False, r) else (False, s))
          | [] \<Rightarrow> (False, s))
      in case parse_digits ds of
           None \<Rightarrow> None
         | Some n \<Rightarrow> (let i = (if neg then - int n else int n) in if in_i64 i then Some i else None))"

definition saturating_sub :: "int \<Rightarrow> int \<Rightarrow> int" where
  "saturating_sub a b = max (- (2 ^ 63)) (min (2 ^ 63 - 1) (a - b))"

definition CURSOR_TTL_MS :: int where
  "CURSOR_TTL_MS = 3600 * 1000"

definition encode_cursor :: "search_env \<Rightarrow> instant \<Rightarrow> int \<Rightarrow> ctx_id \<Rightarrow> string" where
  "encode_cursor env now created_at_ms c =
     env_b64_encode env (show_int (timestamp_millis now) @ '':'' @ show_int created_at_ms @ '':'' @ c)"

definition decode_cursor :: "search_env \<Rightarrow> instant \<Rightarrow> string \<Rightarrow> (int \<times> ctx_id) acdp_result" where
  "decode_cursor env now s =
     rbind (ok_or (env_b64_decode env s) InvalidCursor) (\<lambda>decoded.
     rbind (require (utf8_valid decoded) InvalidCursor) (\<lambda>_.
     rbind (ok_or (split_once CHR '':'' decoded) InvalidCursor) (\<lambda>(mint_str, rest).
     rbind (ok_or (split_once CHR '':'' rest) InvalidCursor) (\<lambda>(anchor_str, c).
     rbind (ok_or (parse_i64 mint_str) InvalidCursor) (\<lambda>mint_ms.
     rbind (ok_or (parse_i64 anchor_str) InvalidCursor) (\<lambda>anchor_ms.
     rbind (require (\<not> CURSOR_TTL_MS < saturating_sub (timestamp_millis now) mint_ms) CursorExpired) (\<lambda>_.
     Inr (anchor_ms, c))))))))"

section \<open>Filters\<close>

definition opt_all :: "'a option \<Rightarrow> ('a \<Rightarrow> bool) \<Rightarrow> bool" where
  "opt_all v p = (case v of None \<Rightarrow> True | Some x \<Rightarrow> p x)"

definition parse_opt_rfc3339 :: "search_env \<Rightarrow> string option \<Rightarrow> instant option acdp_result" where
  "parse_opt_rfc3339 env s =
     (case s of
        None \<Rightarrow> Inr None
      | Some raw \<Rightarrow> rbind (ok_or (env_parse_rfc3339 env raw) SchemaViolation) (\<lambda>dt. Inr (Some dt)))"

record date_filters =
  df_created_after :: "instant option"
  df_created_before :: "instant option"
  df_dp_start_after :: "instant option"
  df_dp_end_before :: "instant option"
  df_expires_after :: "instant option"
  df_expires_before :: "instant option"

definition parse_date_filters :: "search_env \<Rightarrow> search_params \<Rightarrow> date_filters acdp_result" where
  "parse_date_filters env p =
     rbind (parse_opt_rfc3339 env (sp_created_after p)) (\<lambda>a.
     rbind (parse_opt_rfc3339 env (sp_created_before p)) (\<lambda>b.
     rbind (parse_opt_rfc3339 env (sp_data_period_start_after p)) (\<lambda>c.
     rbind (parse_opt_rfc3339 env (sp_data_period_end_before p)) (\<lambda>d.
     rbind (parse_opt_rfc3339 env (sp_expires_after p)) (\<lambda>e.
     rbind (parse_opt_rfc3339 env (sp_expires_before p)) (\<lambda>f.
     Inr \<lparr>df_created_after = a, df_created_before = b, df_dp_start_after = c, df_dp_end_before = d,
          df_expires_after = e, df_expires_before = f\<rparr>))))))"

definition or_empty :: "string option \<Rightarrow> string" where
  "or_empty s = (case s of None \<Rightarrow> [] | Some t \<Rightarrow> t)"

fun join_space :: "string list \<Rightarrow> string" where
  "join_space [] = []"
| "join_space [s] = s"
| "join_space (s # ss) = s @ '' '' @ join_space ss"

definition haystack :: "body \<Rightarrow> string" where
  "haystack b =
     b_title b @ '' '' @ or_empty (b_description b) @ '' '' @ or_empty (b_summary b) @ '' '' @
     or_empty (b_domain b) @ '' '' @ b_agent_id b @ '' '' @
     (case b_tags b of None \<Rightarrow> [] | Some ts \<Rightarrow> join_space ts)"

definition requested_tags :: "search_env \<Rightarrow> string \<Rightarrow> string list" where
  "requested_tags env s = filter (\<lambda>t. t \<noteq> []) (map (env_trim env) (split_on CHR '','' s))"

definition matches_text :: "search_env \<Rightarrow> search_params \<Rightarrow> body \<Rightarrow> bool" where
  "matches_text env p b \<longleftrightarrow>
     opt_all (sp_q p) (\<lambda>q. contains (env_to_lowercase env q) (env_to_lowercase env (haystack b))) \<and>
     opt_all (sp_domain p) (\<lambda>d. b_domain b = Some d) \<and>
     opt_all (sp_agent_id p) (\<lambda>a. b_agent_id b = a) \<and>
     opt_all (sp_context_type p) (\<lambda>t. context_type_serialize (b_context_type b) = t) \<and>
     opt_all (sp_derived_from p) (\<lambda>d. d \<in> set (b_derived_from b)) \<and>
     opt_all (sp_tags p) (\<lambda>ts. list_all (\<lambda>t. t \<in> set (case b_tags b of None \<Rightarrow> [] | Some bt \<Rightarrow> bt)) (requested_tags env ts)) \<and>
     opt_all (sp_schema_uri p) (\<lambda>u. b_schema_uri b = Some u)"

definition matches_dates :: "date_filters \<Rightarrow> body \<Rightarrow> bool" where
  "matches_dates d b \<longleftrightarrow>
     opt_all (df_created_after d) (\<lambda>after. \<not> b_created_at b < after) \<and>
     opt_all (df_created_before d) (\<lambda>before. \<not> before < b_created_at b) \<and>
     opt_all (df_dp_start_after d) (\<lambda>after. case b_data_period b of Some p \<Rightarrow> after \<le> dp_start p | None \<Rightarrow> False) \<and>
     opt_all (df_dp_end_before d) (\<lambda>before. case b_data_period b of Some p \<Rightarrow> dp_end p \<le> before | None \<Rightarrow> False) \<and>
     opt_all (df_expires_after d) (\<lambda>after. case b_expires_at b of Some e \<Rightarrow> after \<le> e | None \<Rightarrow> False) \<and>
     opt_all (df_expires_before d) (\<lambda>before. case b_expires_at b of Some e \<Rightarrow> e \<le> before | None \<Rightarrow> False)"

definition search_hit ::
  "search_env \<Rightarrow> search_params \<Rightarrow> date_filters \<Rightarrow> agent_did option \<Rightarrow> bool \<Rightarrow> instant \<Rightarrow> full_context \<Rightarrow> bool" where
  "search_hit env p d requester anonymous_public_reads now ctx \<longleftrightarrow>
     can_surface_in_search (fc_body ctx) requester anonymous_public_reads \<and>
     matches_text env p (fc_body ctx) \<and> matches_dates d (fc_body ctx) \<and>
     status_as_str (project_status (fc_registry_state ctx) (fc_body ctx) now) =
       (case sp_status p of None \<Rightarrow> ''active'' | Some s \<Rightarrow> s)"

section \<open>Search\<close>

text \<open>Newest first, ties by identifier.\<close>

definition order_key :: "full_context \<Rightarrow> int \<times> ctx_id" where
  "order_key c = (- b_created_at (fc_body c), b_ctx_id (fc_body c))"

definition search_matches ::
  "search_env \<Rightarrow> search_params \<Rightarrow> date_filters \<Rightarrow> agent_did option \<Rightarrow> bool \<Rightarrow> instant \<Rightarrow> inner \<Rightarrow> full_context list" where
  "search_matches env p d requester anonymous_public_reads now g =
     sort_key order_key
       (filter (search_hit env p d requester anonymous_public_reads now) (map snd (sort_key fst (by_ctx g))))"

definition after_anchor :: "int \<times> ctx_id \<Rightarrow> full_context \<Rightarrow> bool" where
  "after_anchor anchor c =
     (let ms = timestamp_millis (b_created_at (fc_body c)) in
      ms < fst anchor \<or> ms = fst anchor \<and> snd anchor < b_ctx_id (fc_body c))"

definition effective_limit :: "search_params \<Rightarrow> nat" where
  "effective_limit p = max 1 (min 100 (case sp_limit p of None \<Rightarrow> 50 | Some l \<Rightarrow> unat l))"

definition project_result :: "instant \<Rightarrow> full_context \<Rightarrow> search_result" where
  "project_result now ctx =
     \<lparr>sres_ctx_id = b_ctx_id (fc_body ctx), sres_lineage_id = b_lineage_id (fc_body ctx),
      sres_agent_id = b_agent_id (fc_body ctx), sres_title = b_title (fc_body ctx),
      sres_summary = b_summary (fc_body ctx), sres_context_type = b_context_type (fc_body ctx),
      sres_domain = b_domain (fc_body ctx), sres_created_at = b_created_at (fc_body ctx),
      sres_status = project_status (fc_registry_state ctx) (fc_body ctx) now,
      sres_visibility = Some (b_visibility (fc_body ctx))\<rparr>"

definition store_search ::
  "search_env \<Rightarrow> search_params \<Rightarrow> agent_did option \<Rightarrow> bool \<Rightarrow> instant \<times> instant \<times> instant \<Rightarrow> inner \<Rightarrow>
     search_response acdp_result" where
  "store_search env p requester anonymous_public_reads clocks g =
     (let (now, decode_now, mint_now) = clocks in
      rbind (parse_date_filters env p) (\<lambda>d.
      let all_matches = search_matches env p d requester anonymous_public_reads now g in
      rbind (case sp_cursor p of
               None \<Rightarrow> Inr None
             | Some s \<Rightarrow> rbind (decode_cursor env decode_now s) (\<lambda>a. Inr (Some a))) (\<lambda>cursor_anchor.
      let ms = (case cursor_anchor of None \<Rightarrow> all_matches | Some a \<Rightarrow> filter (after_anchor a) all_matches);
          limit = effective_limit p;
          next_cursor = (if limit < length ms
                         then let c = ms ! (limit - 1) in
                              Some (encode_cursor env mint_now (timestamp_millis (b_created_at (fc_body c))) (b_ctx_id (fc_body c)))
                         else None)
      in Inr \<lparr>sresp_matches = map (project_result now) (take limit ms),
              sresp_total_estimate = Some (word_of_nat (length all_matches)),
              sresp_next_cursor = next_cursor\<rparr>)))"

end
