(* ===== verification/Acdp_Server.thy ===== *)
theory Acdp_Server
  imports Acdp_Revocation Acdp_Receipt Acdp_Search
begin

text \<open>
  The registry server (\<open>crates/acdp-server/src/registry\<close>): the publish validator (\<open>validator.rs\<close>), the
  composed registry \<open>RegistryServer\<close> (\<open>server.rs\<close>) over the store of \<open>Acdp_Store\<close>, and the parsing of
  lifecycle requests (\<open>lifecycle.rs\<close>). An operation that writes is a function of the server, its inputs
  and the store's state, with the result and the next state.

  Arguments stand for the registry's environment: the clock \<open>now\<close>, the minted UUID, the rate limiter
  (a trait the deployment implements) and the answers of \<open>did:web\<close> resolution.
\<close>

record registry_server =
  srv_caps :: capabilities
  srv_authority :: string
  srv_receipt_signer :: "receipt_signer option"
  srv_mint_head_receipts :: bool
  srv_lifecycle_enabled :: bool

section \<open>Construction\<close>

definition try_new :: "capabilities \<Rightarrow> string \<Rightarrow> registry_server acdp_result" where
  "try_new caps authority =
     rbind (require (is_valid_dns_authority authority) SchemaViolation) (\<lambda>_.
     rbind (validate_capabilities caps) (\<lambda>_.
     rbind (require (cap_registry_did caps = authority_to_did_web authority) SchemaViolation) (\<lambda>_.
     Inr \<lparr>srv_caps = caps, srv_authority = authority, srv_receipt_signer = None,
          srv_mint_head_receipts = False, srv_lifecycle_enabled = False\<rparr>)))"

text \<open>Comparison of version triples is lexicographic.\<close>

definition require_min_acdp_version :: "registry_server \<Rightarrow> u64 \<times> u64 \<times> u64 \<Rightarrow> unit acdp_result" where
  "require_min_acdp_version srv m =
     (case those (map parse_u64 (split_on CHR ''.'' (cap_acdp_version (srv_caps srv)))) of
        Some [major, minor, patch] \<Rightarrow> require (\<not> (major, minor, patch) < m) SchemaViolation
      | _ \<Rightarrow> Inl SchemaViolation)"

definition add_profile :: "profile \<Rightarrow> registry_server \<Rightarrow> registry_server" where
  "add_profile p srv =
     (if claims_profile (srv_caps srv) p then srv
      else srv\<lparr>srv_caps := (srv_caps srv)\<lparr>cap_profiles := cap_profiles (srv_caps srv) @ [profile_as_str p]\<rparr>\<rparr>)"

definition with_receipt_signer :: "receipt_signer \<Rightarrow> registry_server \<Rightarrow> registry_server acdp_result" where
  "with_receipt_signer signer srv =
     rbind (require (sg_registry_did signer = cap_registry_did (srv_caps srv)) SchemaViolation) (\<lambda>_.
     rbind (require_min_acdp_version srv (0, 2, 0)) (\<lambda>_.
     Inr ((add_profile RegistryReceipts srv)\<lparr>srv_receipt_signer := Some signer\<rparr>)))"

definition with_lineage_head_receipts :: "registry_server \<Rightarrow> registry_server acdp_result" where
  "with_lineage_head_receipts srv =
     rbind (require (srv_receipt_signer srv \<noteq> None) SchemaViolation) (\<lambda>_.
     rbind (require_min_acdp_version srv (0, 3, 0)) (\<lambda>_.
     Inr ((add_profile RegistryHeadReceipts srv)\<lparr>srv_mint_head_receipts := True\<rparr>)))"

definition with_lifecycle :: "registry_server \<Rightarrow> registry_server acdp_result" where
  "with_lifecycle srv =
     rbind (require_min_acdp_version srv (0, 3, 0)) (\<lambda>_.
     Inr ((add_profile RegistryLifecycle srv)\<lparr>srv_lifecycle_enabled := True\<rparr>))"

section \<open>The publish validator\<close>

definition controller_present :: "publish_request \<Rightarrow> bool" where
  "controller_present req \<longleftrightarrow>
     (case Option.bind (pr_metadata req) as_object of
        None \<Rightarrow> False | Some m \<Rightarrow> map_of m ''revoked_key_controller'' \<noteq> None)"

definition check_revocation_controller ::
  "capabilities \<Rightarrow> publish_request \<Rightarrow> key_revocation \<Rightarrow> unit acdp_result" where
  "check_revocation_controller caps req revocation =
     (let agent_is_registry = (pr_agent_id req = cap_registry_did caps) in
      checks
       [require (\<not> (controller_present req \<and> kr_controller revocation \<noteq> pr_agent_id req \<and> \<not> agent_is_registry))
          SchemaViolation,
        require (\<not> (\<not> controller_present req \<and> agent_is_registry)) SchemaViolation])"

definition check_revocation_controller_lenient :: "capabilities \<Rightarrow> publish_request \<Rightarrow> unit acdp_result" where
  "check_revocation_controller_lenient caps req =
     (let agent_is_registry = (pr_agent_id req = cap_registry_did caps) in
      case metadata_str req ''revoked_key_controller'' of
        Some raw \<Rightarrow>
          (case agent_did_parse raw of
             Inl _ \<Rightarrow> Inr ()
           | Inr controller \<Rightarrow>
               require (\<not> (controller \<noteq> pr_agent_id req \<and> \<not> agent_is_registry)) SchemaViolation)
      | None \<Rightarrow> require (\<not> agent_is_registry) SchemaViolation)"

definition check_embedded_limit :: "ext \<Rightarrow> capabilities \<Rightarrow> data_ref \<Rightarrow> unit acdp_result" where
  "check_embedded_limit E caps dr =
     opt_check (dr_embedded dr) (\<lambda>emb.
     rbind (embedded_decoded_bytes E emb) (\<lambda>decoded.
     rbind (require (\<not> unat (lm_max_embedded_bytes (cap_limits caps)) < length decoded) EmbeddedTooLarge) (\<lambda>_.
     verify_embedded_hash E dr)))"

text \<open>\<open>splitn(3, ':').take(2)\<close> joined again: the DID method of the agent.\<close>

definition did_method_of :: "agent_did \<Rightarrow> string" where
  "did_method_of agent =
     (case split_on CHR '':'' agent of a # b # _ \<Rightarrow> a @ '':'' @ b | parts \<Rightarrow> concat parts)"

definition check_key_binding :: "publish_request \<Rightarrow> unit acdp_result" where
  "check_key_binding req =
     rbind (ok_or (split_once CHR ''#'' (sig_key_id (pr_signature req))) KeyResolution) (\<lambda>(did_part, _).
     require (did_part = pr_agent_id req) KeyNotAuthorized)"

definition check_same_registry :: "string option \<Rightarrow> publish_request \<Rightarrow> unit acdp_result" where
  "check_same_registry own_authority req =
     opt_check own_authority (\<lambda>own.
     opt_check (pr_supersedes req) (\<lambda>target.
     require (ctx_id_authority target = own) (SupersededTarget CrossRegistrySupersessionUnsupported)))"

text \<open>
  Step 4 hashes the typed request: this is the validator called without the raw request document
  (\<open>raw = None\<close>), as \<open>validate_post_schema\<close> calls it.
\<close>

definition validate_registry_limits_and_crypto ::
  "ext \<Rightarrow> capabilities \<Rightarrow> string option \<Rightarrow> publish_request \<Rightarrow> nat \<Rightarrow> unit acdp_result" where
  "validate_registry_limits_and_crypto E caps own_authority req raw_body_bytes =
     checks
      [require (\<not> unat (lm_max_payload_bytes (cap_limits caps)) < raw_body_bytes) SchemaViolation,
       each (check_embedded_limit E caps) (pr_data_refs req),
       verify_typed_publish_request_hash E req,
       require (supports_algorithm caps (sig_algorithm (pr_signature req))) SchemaViolation,
       require (supports_did_method caps (did_method_of (pr_agent_id req))) KeyResolution,
       check_key_binding req,
       check_same_registry own_authority req,
       require (\<not> (is_interim_key_revocation_form (pr_context_type req) \<and>
                  key_revocation_retirement_gate_applies (cap_acdp_version caps))) SchemaViolation,
       (if is_interim_key_revocation_form (pr_context_type req) \<and> key_revocation_gate_applies (cap_acdp_version caps)
        then checks [check_not_self_signed_did_key_lenient E req, check_revocation_controller_lenient caps req]
        else Inr ()),
       (if pr_context_type req = KeyRevocation \<and> key_revocation_gate_applies (cap_acdp_version caps)
        then rbind (revocation_from_request E req) (check_revocation_controller caps req)
        else Inr ())]"

definition validate_post_schema ::
  "ext \<Rightarrow> capabilities \<Rightarrow> string option \<Rightarrow> publish_request \<Rightarrow> nat \<Rightarrow> unit acdp_result" where
  "validate_post_schema E caps own_authority req raw_body_bytes =
     checks [validate_publish_request E req,
             validate_registry_limits_and_crypto E caps own_authority req raw_body_bytes]"

section \<open>Proving publish identity\<close>

record proven =
  pv_req :: publish_request
  pv_fingerprint :: "string option"
  pv_authority :: string

definition validate_for_server ::
  "ext \<Rightarrow> (agent_did \<Rightarrow> unit acdp_result) \<Rightarrow> registry_server \<Rightarrow> publish_request \<Rightarrow> unit acdp_result" where
  "validate_for_server E limiter srv req =
     checks [limiter (pr_agent_id req),
             validate_post_schema E (srv_caps srv) (Some (srv_authority srv)) req
               (x_json_len E (publish_request_json E req))]"

definition revocation_check_needed :: "registry_server \<Rightarrow> publish_request \<Rightarrow> bool" where
  "revocation_check_needed srv req \<longleftrightarrow>
     is_key_revocation (pr_context_type req) \<and> key_revocation_gate_applies (cap_acdp_version (srv_caps srv))"

text \<open>
  The tail shared by the resolver-backed and the pinned path: fingerprint the key when a receipt or a
  revocation check needs it, then refuse a revocation signed by the key it revokes.
\<close>

definition prove_with_fingerprint ::
  "registry_server \<Rightarrow> publish_request \<Rightarrow> string acdp_result \<Rightarrow> proven acdp_result" where
  "prove_with_fingerprint srv req fingerprint_of =
     rbind (if srv_receipt_signer srv \<noteq> None \<or> revocation_check_needed srv req
            then rbind fingerprint_of (\<lambda>fp. Inr (Some fp)) else Inr None) (\<lambda>fingerprint.
     rbind (if revocation_check_needed srv req
            then rbind (ok_or fingerprint RegistryInternal) (check_not_self_signed_lenient req)
            else Inr ()) (\<lambda>_.
     Inr \<lparr>pv_req = req, pv_fingerprint = fingerprint, pv_authority = srv_authority srv\<rparr>))"

definition prove_publish_identity ::
  "ext \<Rightarrow> (agent_did \<Rightarrow> unit acdp_result) \<Rightarrow> web_resolver \<Rightarrow> web_resolver \<Rightarrow> registry_server \<Rightarrow>
     publish_request \<Rightarrow> proven acdp_result" where
  "prove_publish_identity E limiter resolve resolve_again srv req =
     rbind (validate_for_server E limiter srv req) (\<lambda>_.
     rbind (verify_publish_request_signature E resolve req) (\<lambda>_.
     prove_with_fingerprint srv req
       (fingerprint_for_key_id E resolve_again (sig_key_id (pr_signature req)) (sig_algorithm (pr_signature req)))))"

definition prove_publish_identity_did_key ::
  "ext \<Rightarrow> (agent_did \<Rightarrow> unit acdp_result) \<Rightarrow> registry_server \<Rightarrow> publish_request \<Rightarrow> proven acdp_result" where
  "prove_publish_identity_did_key E limiter srv req =
     rbind (validate_for_server E limiter srv req) (\<lambda>_.
     rbind (verify_publish_request_signature_offline E req) (\<lambda>_.
     rbind (if srv_receipt_signer srv \<noteq> None
            then rbind (resolve_did_key E (pr_agent_id req)) (\<lambda>material.
                 rbind (fingerprint_did_key_material E material) (\<lambda>fp. Inr (Some fp)))
            else Inr None) (\<lambda>fingerprint.
     Inr \<lparr>pv_req = req, pv_fingerprint = fingerprint, pv_authority = srv_authority srv\<rparr>)))"

definition fingerprint_pinned_key :: "ext \<Rightarrow> string \<Rightarrow> string \<Rightarrow> string acdp_result" where
  "fingerprint_pinned_key E public_key_b64 algorithm =
     rbind (ok_or (x_b64_decode E public_key_b64) KeyResolution) (\<lambda>raw.
     if algorithm = ''ed25519'' then
       rbind (require (length raw = 32) KeyResolution) (\<lambda>_. Inr (fingerprint_ed25519 E raw))
     else if algorithm = ''ecdsa-p256'' then fingerprint_p256_sec1 E raw
     else Inl UnsupportedAlgorithm)"

definition prove_publish_identity_pinned ::
  "ext \<Rightarrow> (agent_did \<Rightarrow> unit acdp_result) \<Rightarrow> registry_server \<Rightarrow> publish_request \<Rightarrow> string \<Rightarrow> string \<Rightarrow>
     proven acdp_result" where
  "prove_publish_identity_pinned E limiter srv req public_key_b64 algorithm =
     rbind (validate_for_server E limiter srv req) (\<lambda>_.
     prove_with_fingerprint srv req (fingerprint_pinned_key E public_key_b64 algorithm))"

section \<open>Committing a publish\<close>

text \<open>
  The idempotency TTL is a \<open>u32\<close> number of seconds, so its cast to \<open>i64\<close> and \<open>Duration::seconds\<close>
  are exact; times are in nanoseconds.
\<close>

definition pending_commit ::
  "ext \<Rightarrow> registry_server \<Rightarrow> publish_request \<Rightarrow> string option \<Rightarrow> string option \<Rightarrow> publish_commit" where
  "pending_commit E srv req idempotency_key fingerprint =
     \<lparr>pc_req = req,
      pc_authority = srv_authority srv,
      pc_idempotency =
        (if cap_supports_idempotency_key (srv_caps srv) then
           map_option (\<lambda>key. \<lparr>pi_key = key,
             pi_ttl = 1000000000 *
               int (unat (unwrap_or (lm_idempotency_key_ttl_seconds (cap_limits (srv_caps srv))) 86400))\<rparr>) idempotency_key
         else None),
      pc_receipt_minter =
        (case (srv_receipt_signer srv, fingerprint) of
           (Some signer, Some fp) \<Rightarrow> Some (\<lambda>b.
             rbind (mint E signer (b_ctx_id b) (b_lineage_id b) (b_origin_registry b) (b_created_at b)
                      (b_content_hash b) fp) (\<lambda>receipt. Inr (receipt_json E receipt)))
         | _ \<Rightarrow> None),
      pc_predecessor_admission =
        (if key_revocation_gate_applies (cap_acdp_version (srv_caps srv)) \<and> pr_supersedes req \<noteq> None
         then Some (check_revocation_supersession E (cap_acdp_version (srv_caps srv)) req)
         else None)\<rparr>"

definition commit_via_store ::
  "ext \<Rightarrow> registry_server \<Rightarrow> string \<Rightarrow> instant \<Rightarrow> publish_request \<Rightarrow> string option \<Rightarrow> string option \<Rightarrow>
     inner \<Rightarrow> publish_outcome acdp_result \<times> inner" where
  "commit_via_store E srv uuid now req idempotency_key fingerprint g =
     (case commit_publish (x_sha256 E) uuid (pending_commit E srv req idempotency_key fingerprint) now g of
        (Inl e, g') \<Rightarrow> (Inl e, g')
      | (Inr outcome, g') \<Rightarrow>
          (if srv_receipt_signer srv \<noteq> None \<and> \<not> is_replay outcome \<and>
              resp_registry_receipt (into_response outcome) = None
           then (Inl RegistryInternal, g') else (Inr outcome, g')))"

definition commit_proven ::
  "ext \<Rightarrow> registry_server \<Rightarrow> string \<Rightarrow> instant \<Rightarrow> proven \<Rightarrow> string option \<Rightarrow> inner \<Rightarrow>
     publish_outcome acdp_result \<times> inner" where
  "commit_proven E srv uuid now p idempotency_key g =
     (if pv_authority p \<noteq> srv_authority srv then (Inl RegistryInternal, g)
      else if srv_receipt_signer srv \<noteq> None \<and> pv_fingerprint p = None then (Inl RegistryInternal, g)
      else commit_via_store E srv uuid now (pv_req p) idempotency_key (pv_fingerprint p) g)"

definition commit_if_proven ::
  "ext \<Rightarrow> registry_server \<Rightarrow> string \<Rightarrow> instant \<Rightarrow> proven acdp_result \<Rightarrow> string option \<Rightarrow> inner \<Rightarrow>
     publish_outcome acdp_result \<times> inner" where
  "commit_if_proven E srv uuid now proven_result idempotency_key g =
     (case proven_result of
        Inl e \<Rightarrow> (Inl e, g)
      | Inr p \<Rightarrow> commit_proven E srv uuid now p idempotency_key g)"

definition publish_verified ::
  "ext \<Rightarrow> (agent_did \<Rightarrow> unit acdp_result) \<Rightarrow> web_resolver \<Rightarrow> web_resolver \<Rightarrow> registry_server \<Rightarrow> string \<Rightarrow>
     instant \<Rightarrow> publish_request \<Rightarrow> string option \<Rightarrow> inner \<Rightarrow> publish_outcome acdp_result \<times> inner" where
  "publish_verified E limiter resolve resolve_again srv uuid now req key g =
     commit_if_proven E srv uuid now (prove_publish_identity E limiter resolve resolve_again srv req) key g"

definition publish_verified_did_key ::
  "ext \<Rightarrow> (agent_did \<Rightarrow> unit acdp_result) \<Rightarrow> registry_server \<Rightarrow> string \<Rightarrow> instant \<Rightarrow> publish_request \<Rightarrow>
     string option \<Rightarrow> inner \<Rightarrow> publish_outcome acdp_result \<times> inner" where
  "publish_verified_did_key E limiter srv uuid now req key g =
     commit_if_proven E srv uuid now (prove_publish_identity_did_key E limiter srv req) key g"

definition publish_pinned_verified ::
  "ext \<Rightarrow> (agent_did \<Rightarrow> unit acdp_result) \<Rightarrow> registry_server \<Rightarrow> string \<Rightarrow> instant \<Rightarrow> publish_request \<Rightarrow>
     string option \<Rightarrow> string \<Rightarrow> string \<Rightarrow> inner \<Rightarrow> publish_outcome acdp_result \<times> inner" where
  "publish_pinned_verified E limiter srv uuid now req key public_key_b64 algorithm g =
     commit_if_proven E srv uuid now
       (prove_publish_identity_pinned E limiter srv req public_key_b64 algorithm) key g"

section \<open>Reads\<close>

definition can_retrieve :: "body \<Rightarrow> agent_did option \<Rightarrow> capabilities \<Rightarrow> bool" where
  "can_retrieve b requester caps =
     (if b_visibility b = Public then cap_anonymous_public_reads caps \<or> requester \<noteq> None
      else case requester of
        None \<Rightarrow> False
      | Some r \<Rightarrow> r = b_agent_id b \<or> (case b_audience b of None \<Rightarrow> False | Some a \<Rightarrow> r \<in> set a))"

definition retrieve :: "registry_server \<Rightarrow> ctx_id \<Rightarrow> agent_did option \<Rightarrow> instant \<Rightarrow> inner \<Rightarrow> full_context option" where
  "retrieve srv c requester now g =
     (case store_get c now g of
        None \<Rightarrow> None
      | Some ctx \<Rightarrow> if can_retrieve (fc_body ctx) requester (srv_caps srv) then Some ctx else None)"

definition retrieve_body :: "registry_server \<Rightarrow> ctx_id \<Rightarrow> agent_did option \<Rightarrow> instant \<Rightarrow> inner \<Rightarrow> body option" where
  "retrieve_body srv c requester now g = map_option fc_body (retrieve srv c requester now g)"

definition server_lineage ::
  "registry_server \<Rightarrow> lineage_id \<Rightarrow> agent_did option \<Rightarrow> instant \<Rightarrow> inner \<Rightarrow> full_context list" where
  "server_lineage srv l requester now g =
     filter (\<lambda>ctx. can_retrieve (fc_body ctx) requester (srv_caps srv)) (store_lineage l now g)"

definition server_current ::
  "ext \<Rightarrow> registry_server \<Rightarrow> lineage_id \<Rightarrow> agent_did option \<Rightarrow> instant \<Rightarrow> instant \<Rightarrow> inner \<Rightarrow> full_context option acdp_result" where
  "server_current E srv l requester now mint_now g =
     (case find (\<lambda>ctx. rs_status (fc_registry_state ctx) \<notin> {Superseded, Retracted} \<and>
                 can_retrieve (fc_body ctx) requester (srv_caps srv)) (rev (store_lineage l now g)) of
        None \<Rightarrow> Inr None
      | Some ctx \<Rightarrow>
          (if srv_mint_head_receipts srv then
             rbind (ok_or (srv_receipt_signer srv) RegistryInternal) (\<lambda>signer.
             rbind (mint_lineage_head E signer l (b_ctx_id (fc_body ctx)) (b_version (fc_body ctx))
                      (rs_status (fc_registry_state ctx)) mint_now) (\<lambda>receipt.
             Inr (Some (ctx\<lparr>fc_lineage_head_receipt := Some (head_receipt_json E receipt)\<rparr>))))
           else Inr (Some ctx)))"

definition server_search ::
  "search_env \<Rightarrow> registry_server \<Rightarrow> search_params \<Rightarrow> agent_did option \<Rightarrow> instant \<times> instant \<times> instant \<Rightarrow> inner \<Rightarrow>
     search_response acdp_result" where
  "server_search env srv params requester clocks g =
     rbind (require (\<not> (requester = None \<and> \<not> cap_anonymous_public_reads (srv_caps srv))) NotAuthorized) (\<lambda>_.
     store_search env params requester (cap_anonymous_public_reads (srv_caps srv)) clocks g)"

section \<open>Lifecycle endpoints\<close>

datatype lifecycle_endpoint = EndRetract | EndRepublish

fun expected_event_type :: "lifecycle_endpoint \<Rightarrow> lifecycle_event_type" where
  "expected_event_type EndRetract = EvRetracted"
| "expected_event_type EndRepublish = EvRepublished"

definition lifecycle_precheck ::
  "registry_server \<Rightarrow> lifecycle_event \<Rightarrow> lifecycle_event_type \<Rightarrow> agent_did option \<Rightarrow> instant \<Rightarrow> inner \<Rightarrow>
     full_context acdp_result" where
  "lifecycle_precheck srv event expected_type requester now g =
     rbind (require (srv_lifecycle_enabled srv) NotImplemented) (\<lambda>_.
     rbind (ok_or (retrieve srv (le_ctx_id event) requester now g) NotFound) (\<lambda>ctx.
     rbind (lifecycle_event_validate event) (\<lambda>_.
     rbind (require (le_event_type event = expected_type) SchemaViolation) (\<lambda>_.
     rbind (require (\<not> now + 120 * 1000000000 < le_occurred_at event) SchemaViolation) (\<lambda>_.
     rbind (require (le_actor event = b_agent_id (fc_body ctx)) NotAuthorized) (\<lambda>_.
     rbind (actor_bound_signature event) (\<lambda>_. Inr ctx)))))))"

record proven_lifecycle =
  pl_event :: lifecycle_event
  pl_endpoint :: lifecycle_endpoint
  pl_authority :: string

definition prove_lifecycle_identity ::
  "ext \<Rightarrow> web_resolver \<Rightarrow> registry_server \<Rightarrow> lifecycle_event \<Rightarrow> lifecycle_endpoint \<Rightarrow> agent_did option \<Rightarrow>
     instant \<Rightarrow> inner \<Rightarrow> proven_lifecycle acdp_result" where
  "prove_lifecycle_identity E resolve srv event endpoint requester now g =
     rbind (lifecycle_precheck srv event (expected_event_type endpoint) requester now g) (\<lambda>ctx.
     rbind (verify_lifecycle_event E resolve (event_json E event) (le_ctx_id event) (b_agent_id (fc_body ctx)) None) (\<lambda>_.
     Inr \<lparr>pl_event = event, pl_endpoint = endpoint, pl_authority = srv_authority srv\<rparr>))"

definition prove_lifecycle_identity_did_key ::
  "ext \<Rightarrow> registry_server \<Rightarrow> lifecycle_event \<Rightarrow> lifecycle_endpoint \<Rightarrow> agent_did option \<Rightarrow> instant \<Rightarrow> inner \<Rightarrow>
     proven_lifecycle acdp_result" where
  "prove_lifecycle_identity_did_key E srv event endpoint requester now g =
     rbind (lifecycle_precheck srv event (expected_event_type endpoint) requester now g) (\<lambda>ctx.
     rbind (verify_lifecycle_event_offline E (event_json E event) (le_ctx_id event) (b_agent_id (fc_body ctx)) None) (\<lambda>_.
     Inr \<lparr>pl_event = event, pl_endpoint = endpoint, pl_authority = srv_authority srv\<rparr>))"

definition commit_lifecycle_proven ::
  "registry_server \<Rightarrow> proven_lifecycle \<Rightarrow> instant \<Rightarrow> inner \<Rightarrow> lifecycle_outcome acdp_result \<times> inner" where
  "commit_lifecycle_proven srv p now g =
     (if \<not> srv_lifecycle_enabled srv then (Inl NotImplemented, g)
      else if pl_authority p \<noteq> srv_authority srv then (Inl RegistryInternal, g)
      else commit_lifecycle_event (pl_event p) now g)"

definition commit_lifecycle_if_proven ::
  "registry_server \<Rightarrow> proven_lifecycle acdp_result \<Rightarrow> instant \<Rightarrow> inner \<Rightarrow> lifecycle_outcome acdp_result \<times> inner" where
  "commit_lifecycle_if_proven srv proven_result now g =
     (case proven_result of
        Inl e \<Rightarrow> (Inl e, g)
      | Inr p \<Rightarrow> commit_lifecycle_proven srv p now g)"

definition lifecycle_verified ::
  "ext \<Rightarrow> web_resolver \<Rightarrow> registry_server \<Rightarrow> lifecycle_event \<Rightarrow> lifecycle_endpoint \<Rightarrow> agent_did option \<Rightarrow>
     instant \<Rightarrow> instant \<Rightarrow> inner \<Rightarrow> lifecycle_outcome acdp_result \<times> inner" where
  "lifecycle_verified E resolve srv event endpoint requester now now' g =
     commit_lifecycle_if_proven srv (prove_lifecycle_identity E resolve srv event endpoint requester now g) now' g"

definition lifecycle_verified_did_key ::
  "ext \<Rightarrow> registry_server \<Rightarrow> lifecycle_event \<Rightarrow> lifecycle_endpoint \<Rightarrow> agent_did option \<Rightarrow>
     instant \<Rightarrow> instant \<Rightarrow> inner \<Rightarrow> lifecycle_outcome acdp_result \<times> inner" where
  "lifecycle_verified_did_key E srv event endpoint requester now now' g =
     commit_lifecycle_if_proven srv (prove_lifecycle_identity_did_key E srv event endpoint requester now g) now' g"

definition record_registry_lifecycle_event ::
  "registry_server \<Rightarrow> lifecycle_event \<Rightarrow> instant \<Rightarrow> inner \<Rightarrow> lifecycle_outcome acdp_result \<times> inner" where
  "record_registry_lifecycle_event srv event now g =
     (case checks
        [require (srv_lifecycle_enabled srv) NotImplemented,
         lifecycle_event_validate event,
         require (event_type_is_registered (le_event_type event)) SchemaViolation,
         require (le_actor event = cap_registry_did (srv_caps srv)) NotAuthorized,
         require (\<not> (srv_receipt_signer srv \<noteq> None \<and> le_signature event = None)) SchemaViolation,
         (if le_signature event \<noteq> None then void (actor_bound_signature event) else Inr ())] of
        Inl e \<Rightarrow> (Inl e, g)
      | Inr _ \<Rightarrow> commit_lifecycle_event event now g)"

section \<open>Lifecycle requests\<close>

definition BODY_FIELD_NAMES :: "string list" where
  "BODY_FIELD_NAMES =
     [''body'', ''ctx_id'', ''lineage_id'', ''origin_registry'', ''created_at'', ''content_hash'', ''signature'',
      ''version'', ''supersedes'', ''agent_id'', ''contributors'', ''title'', ''type'', ''data_refs'',
      ''derived_from'', ''visibility'', ''audience'', ''acdp_version'', ''description'', ''summary'', ''tags'',
      ''domain'', ''expires_at'', ''data_period'', ''metadata'', ''schema_uri'', ''anchors'', ''key_attestation'']"

definition parse_lifecycle_request :: "ext \<Rightarrow> json \<Rightarrow> (lifecycle_event \<times> json) acdp_result" where
  "parse_lifecycle_request E raw =
     rbind (ok_or (as_object raw) SchemaViolation) (\<lambda>m.
     rbind (each (\<lambda>key. if key = ''event'' then Inr ()
                        else if key \<in> set BODY_FIELD_NAMES then Inl ImmutableField
                        else Inl SchemaViolation) (map fst m)) (\<lambda>_.
     rbind (ok_or (map_of m ''event'') SchemaViolation) (\<lambda>raw_event.
     rbind (event_from_value E raw_event) (\<lambda>event. Inr (event, raw_event)))))"

end
