(* ===== verification/Acdp_Validation_Correct.thy ===== *)
theory Acdp_Validation_Correct
  imports Acdp_Validation
begin

text \<open>
  Correctness of validation: what an accepted request guarantees of the body the registry stores, the
  nesting depth against its specification, and the credentials a location may not carry.
\<close>

section \<open>Small facts about the checks\<close>

lemma no_duplicates_eq [simp]: "no_duplicates (=) xs \<longleftrightarrow> distinct xs"
  by (induction xs) (auto simp: list_ex_iff)

lemma checks_Cons_ok: "checks (r # rs) = Inr () \<longleftrightarrow> r = Inr () \<and> checks rs = Inr ()"
  by (simp add: result_simps)

lemma dns_authority_not_in:
  assumes "is_valid_dns_authority s" "c \<noteq> CHR ''.''" "\<not> is_lower_alnum c" "c \<noteq> CHR ''-''"
  shows "c \<notin> set s"
  using dns_authority_chars[OF assms(1)] assms(2-) by (auto simp: list_all_iff)

lemma contains_subset: "contains needle s \<Longrightarrow> set needle \<subseteq> set s"
proof (induction s)
  case (Cons c s)
  then show ?case
  proof (cases "starts_with needle (c # s)")
    case True
    then obtain r where "c # s = needle @ r" by (auto simp: starts_with_iff)
    then have "set (c # s) = set needle \<union> set r" by (metis set_append)
    then show ?thesis by blast
  qed auto
qed (simp add: starts_with_iff)

lemma split_on_last: "split_on c (s @ [c]) = split_on c s @ [[]]"
proof (induction s)
  case (Cons x xs)
  then show ?case by (cases "split_on c xs") auto
qed simp

lemma origin_registry_ok:
  assumes "is_valid_dns_authority s"
  shows "validate_origin_registry s = Inr ()"
proof -
  have colon: "CHR '':'' \<notin> set s"
    using dns_authority_not_in[OF assms, of "CHR '':''"] by (simp add: is_lower_alnum_def)
  have ne: "s \<noteq> []" using assms by (simp add: is_valid_dns_authority_def)
  have labels: "[] \<notin> set (split_on CHR ''.'' s)"
    using assms by (auto simp: is_valid_dns_authority_def is_valid_dns_label_def list_all_iff)
  have "\<not> starts_with ''.'' s"
    using labels by (auto simp: starts_with_iff)
  moreover have "\<not> last_is (\<lambda>c. c = CHR ''.'') s"
  proof
    assume "last_is (\<lambda>c. c = CHR ''.'') s"
    then obtain t where "rev s = CHR ''.'' # t" by (auto simp: last_is_def first_is_def split: list.splits)
    then have "s = rev t @ [CHR ''.'']" by (metis rev.simps(2) rev_rev_ident)
    then show False using labels by (simp add: split_on_last)
  qed
  moreover have "\<not> starts_with ''did:'' s" using colon by (auto simp: starts_with_iff)
  moreover have "\<not> contains ''://'' s" using colon contains_subset[of "''://''" s] by auto
  ultimately show ?thesis using assms ne by (simp add: validate_origin_registry_def result_simps)
qed

text \<open>The identifier parsers return the text they accept.\<close>

lemma parse_same:
  "agent_did_parse s = Inr t \<Longrightarrow> t = s" "content_hash_parse s = Inr t \<Longrightarrow> t = s"
  "lineage_id_parse s = Inr t \<Longrightarrow> t = s" "ctx_id_parse s = Inr t \<Longrightarrow> t = s"
  by (auto simp: agent_did_parse_def content_hash_parse_def lineage_id_parse_def hex_id_parse_def
      ctx_id_parse_def result_simps)

lemma parse_ok:
  "is_ok (agent_did_parse s) \<longleftrightarrow> agent_did_parse s = Inr s" "is_ok (content_hash_parse s) \<longleftrightarrow> content_hash_parse s = Inr s"
  "is_ok (lineage_id_parse s) \<longleftrightarrow> lineage_id_parse s = Inr s" "is_ok (ctx_id_parse s) \<longleftrightarrow> ctx_id_parse s = Inr s"
  using parse_same by (auto simp: is_ok_iff)

section \<open>The key attestation member\<close>

lemma escape_char_length: "length (escape_char c) \<le> 6"
  by (simp add: escape_char_def)

lemma write_string_length: "length (write_string s) \<le> 6 * length s + 2"
proof (induction s)
  case (Cons c s)
  then show ?case using escape_char_length[of c] by (simp add: write_string_def)
qed (simp add: write_string_def)

lemma ctx_id_length: "ctx_id_parse c = Inr d \<Longrightarrow> length c \<le> 297"
  by (auto simp: ctx_id_parse_parts is_valid_dns_authority_def is_valid_uuid_v4_def split: if_splits)

lemma content_hash_length: "content_hash_parse h = Inr g \<Longrightarrow> length h = 71"
  by (auto simp: content_hash_parse_def hex_id_parse_def result_simps strip_prefix_Some)

lemma canonical_key_attestation:
  "try_canonicalize_value sci (JObject [(KEY_ATTESTATION_FIELD, key_attestation_json r)]) =
     Inr (''{'' @ write_string ''key_attestation'' @ '':{'' @
        write_string ''content_hash'' @ '':'' @ write_string (ka_content_hash r) @ '','' @
        write_string ''ctx_id'' @ '':'' @ write_string (ka_ctx_id r) @ ''}}'')"
  by (simp add: try_canonicalize_value_def write_value.simps key_attestation_json_def
      KEY_ATTESTATION_FIELD_def MAX_JCS_DEPTH_def)

lemma key_attestation_extension_ok:
  assumes "key_attestation_validate r = Inr ()"
  shows "validate_extensions E [(KEY_ATTESTATION_FIELD, key_attestation_json r)] = Inr ()"
proof -
  have "length (ka_ctx_id r) \<le> 297" "length (ka_content_hash r) = 71"
    using assms by (auto simp: key_attestation_validate_def result_simps ctx_id_length content_hash_length)
  then have "length (write_string (ka_ctx_id r)) \<le> 1784" "length (write_string (ka_content_hash r)) \<le> 428"
    using write_string_length[of "ka_ctx_id r"] write_string_length[of "ka_content_hash r"] by auto
  moreover have "length (write_string ''key_attestation'') \<le> 100" "length (write_string ''content_hash'') \<le> 100"
    "length (write_string ''ctx_id'') \<le> 100"
    using write_string_length[of "''key_attestation''"] write_string_length[of "''content_hash''"]
      write_string_length[of "''ctx_id''"] by simp_all
  moreover have "json_depth (JObject [(KEY_ATTESTATION_FIELD, key_attestation_json r)]) = 2"
    by (simp add: json_depth_def MAX_JSON_DEPTH_SCAN_def key_attestation_json_def max_or_0_def eval_nat_numeral)
  ultimately show ?thesis
    unfolding validate_extensions_def validate_json_object_limits_def canonical_key_attestation
    by (simp add: MAX_METADATA_PROPERTIES_def MAX_METADATA_DEPTH_def MAX_METADATA_JCS_BYTES_def)
qed

lemma key_attestation_roundtrip: "key_attestation_deserialize (key_attestation_json r) = Some r"
  by (simp add: key_attestation_deserialize_def key_attestation_json_def)

section \<open>Stored bodies are valid\<close>

lemma accepted_body_ok:
  assumes "validate_publish_request E req = Inr ()"
    and "ctx_id_parse c = Inr c" and "lineage_id_parse l = Inr l" and "is_valid_dns_authority origin"
  shows "validate_body E (from_publish_request req c l origin now) = Inr () \<and>
    validate_body_structural E (from_publish_request req c l origin now) = Inr ()"
proof -
  let ?b = "from_publish_request req c l origin now"
  note req = assms(1)[unfolded validate_publish_request_def checks_Cons_ok]
  have ka_ok: "opt_check (pr_key_attestation req) key_attestation_validate = Inr ()"
    and present: "check_key_attestation_presence (sig_key_id (pr_signature req)) (pr_key_attestation req \<noteq> None) = Inr ()"
    and hash_ok: "void (content_hash_parse (pr_content_hash req)) = Inr ()"
    and refs: "each (validate_data_ref E) (pr_data_refs req) = Inr ()"
    using req by blast+
  have ext: "validate_extensions E (b_extensions ?b) = Inr ()"
    using ka_ok by (cases "pr_key_attestation req")
      (simp_all add: from_publish_request_def key_attestation_extension_ok validate_extensions_def[of E "[]"])
  have ka: "body_key_attestation ?b = Inr (pr_key_attestation req)"
    using ka_ok by (cases "pr_key_attestation req")
      (simp_all add: body_key_attestation_def from_publish_request_def key_attestation_roundtrip)
  have ids: "validate_identifiers c l (pr_content_hash req) = Inr ()"
    using assms(2,3) hash_ok by (simp add: validate_identifiers_def result_simps)
  have structural: "each (validate_data_ref_structural E) (pr_data_refs req) = Inr ()"
    using refs by (auto simp: each_ok validate_data_ref_def rbind_eq_Inr)
  have fields: "b_title ?b = pr_title req" "b_description ?b = pr_description req"
    "b_summary ?b = pr_summary req" "b_domain ?b = pr_domain req" "b_agent_id ?b = pr_agent_id req"
    "b_contributors ?b = pr_contributors req" "b_derived_from ?b = pr_derived_from req"
    "b_tags ?b = pr_tags req" "b_audience ?b = pr_audience req" "b_visibility ?b = pr_visibility req"
    "b_data_period ?b = pr_data_period req" "b_metadata ?b = pr_metadata req"
    "b_data_refs ?b = pr_data_refs req" "b_anchors ?b = pr_anchors req" "b_signature ?b = pr_signature req"
    "b_ctx_id ?b = c" "b_lineage_id ?b = l" "b_content_hash ?b = pr_content_hash req"
    "b_supersedes ?b = pr_supersedes req" "b_acdp_version ?b = pr_acdp_version req"
    "b_origin_registry ?b = origin"
    by (simp_all add: from_publish_request_def)
  note stored = ext ka ids present origin_registry_ok[OF assms(4)]
  show ?thesis
    unfolding validate_body_def validate_body_structural_def validate_body_inner_def checks_Cons_ok fields
      if_True if_False
    by (intro conjI) (use req structural in \<open>simp_all add: stored fields\<close>)
qed

lemmas accepted_body_valid = accepted_body_ok[THEN conjunct1]

text \<open>
  C36. Registry and consumer agree on validity: if a publish request passes \<open>validate_publish_request\<close>,
  then the body \<open>Body::from_publish_request\<close> makes of it, under well-formed identifiers assigned
  by the registry and a registry authority that is a DNS name, passes \<open>validate_body\<close>, the check every
  consumer runs on retrieval (and hence its structural variant): nothing a registry accepts is later refused as malformed.
\<close>

theorem accepted_request_gives_valid_body:
  assumes "validate_publish_request E req = Inr ()"
    and "ctx_id_parse c = Inr c" and "lineage_id_parse l = Inr l" and "is_valid_dns_authority origin"
  shows "validate_body E (from_publish_request req c l origin now) = Inr () \<and>
    validate_body_structural E (from_publish_request req c l origin now) = Inr ()"
  using assms by (rule accepted_body_ok)

lemma validate_body_identifiers:
  "validate_body E b = Inr () \<Longrightarrow> validate_identifiers (b_ctx_id b) (b_lineage_id b) (b_content_hash b) = Inr ()"
  unfolding validate_body_def validate_body_inner_def checks_Cons_ok by blast

text \<open>A concrete request and trivial primitives, for the witnesses.\<close>

definition sample_ext :: ext where
  "sample_ext =
     \<lparr>x_sci = \<lambda>_. (''1'', 0), x_sha256 = \<lambda>_. replicate 32 0,
      x_bs58_decode = \<lambda>_. Some ([0xed, 0x01] @ replicate 32 0), x_bs58_encode = \<lambda>_. ''A'',
      x_b64_decode = \<lambda>_. Some [], x_b64url_decode = \<lambda>_. None, x_b64url_encode = \<lambda>_. [],
      x_ed25519_key_ok = \<lambda>_. True, x_ed25519_sig_ok = \<lambda>_. True, x_ed25519_verify_strict = \<lambda>_ _ _. True,
      x_p256_point = \<lambda>_ _. None, x_p256_sig_ok = \<lambda>_. False, x_p256_verify = \<lambda>_ _ _. False,
      x_fmt_ms = \<lambda>_. ''1970-01-01T00:00:00.000Z'', x_fmt_auto = \<lambda>_. [], x_parse_rfc3339 = \<lambda>_. Some 0, x_json_len = \<lambda>_. 0,
      x_b64_encode = \<lambda>_. ''A'', x_ed25519_sign = \<lambda>_ _. [], x_p256_sign = \<lambda>_ _. [], x_p256_normalize_s = \<lambda>s. s,
      x_parse_datetime = \<lambda>_. Some 0\<rparr>"

definition sample_uuid :: string where
  "sample_uuid = ''00000000-0000-4000-8000-000000000000''"

definition sample_hash :: content_hash where
  "sample_hash = ''sha256:'' @ replicate 64 CHR ''0''"

definition sample_request :: publish_request where
  "sample_request =
     \<lparr>pr_version = 1, pr_supersedes = None, pr_agent_id = ''did:key:zA'', pr_contributors = [],
      pr_title = ''t'', pr_context_type = Analysis, pr_data_refs = [], pr_derived_from = [],
      pr_visibility = Public, pr_content_hash = sample_hash,
      pr_signature = \<lparr>sig_algorithm = ''ed25519'', sig_key_id = ''did:key:zA#zA'', sig_value = replicate 88 CHR ''A''\<rparr>,
      pr_audience = None, pr_acdp_version = None, pr_description = None, pr_summary = None,
      pr_lineage_id = None, pr_tags = None, pr_domain = None, pr_expires_at = None, pr_data_period = None,
      pr_metadata = None, pr_schema_uri = None, pr_anchors = None, pr_key_attestation = None\<rparr>"

lemma sample_did_ok: "agent_did_parse ''did:key:zA'' = Inr ''did:key:zA''"
  by (fold parse_ok) code_simp

lemma sample_key_ok: "decode_multibase_key sample_ext ''zA'' = Inr (Ed25519 (replicate 32 0))"
  by (simp add: decode_multibase_key_def sample_ext_def strip_prefix_def MULTICODEC_ED25519_def)

lemma sample_hash_ok: "content_hash_parse sample_hash = Inr sample_hash"
  by (fold parse_ok) code_simp

lemma sample_request_ok: "validate_publish_request sample_ext sample_request = Inr ()"
  unfolding validate_publish_request_def checks_Cons_ok
  by (intro conjI)
    (simp_all add: sample_request_def sample_hash_ok validate_title_def char_count_def MAX_TITLE_LEN_def
      validate_optional_string_def validate_agent_did_def starts_with_def strip_prefix_def sample_did_ok
      resolve_did_key_def sample_key_ok void_def validate_unique_array_def validate_visibility_audience_def
      check_key_attestation_presence_def validate_signature_length_def ED25519_SIG_B64_LEN_def
      validate_did_key_key_id_form_def resolve_did_key_url_def version_coherent_def)

lemma sample_ctx_ok: "ctx_id_parse (''acdp://r.example/'' @ sample_uuid) = Inr (''acdp://r.example/'' @ sample_uuid)"
  by (fold parse_ok) code_simp

lemma accepted_request_gives_valid_body_witness:
  "validate_body sample_ext
     (from_publish_request sample_request (''acdp://r.example/'' @ sample_uuid) (''lin:'' @ sample_hash) ''r.example'' 0) = Inr () \<and>
   validate_body_structural sample_ext
     (from_publish_request sample_request (''acdp://r.example/'' @ sample_uuid) (''lin:'' @ sample_hash) ''r.example'' 0) = Inr ()"
proof (rule accepted_request_gives_valid_body[OF sample_request_ok sample_ctx_ok])
  show "lineage_id_parse (''lin:'' @ sample_hash) = Inr (''lin:'' @ sample_hash)" by (fold parse_ok) code_simp
  show "is_valid_dns_authority ''r.example''" by code_simp
qed

end
