(* ===== verification/Acdp_Verify_Correct.thy ===== *)
theory Acdp_Verify_Correct
  imports Acdp_Verify Acdp_Validation_Correct
begin

text \<open>
  The hash of a request is the hash of the stored body, the key an offline verification accepts is
  the one in the producer's identifier, and lifecycle events read back as they were written.
\<close>

section \<open>Producer content of requests and bodies\<close>

abbreviation producer_members :: "json_map \<Rightarrow> json_map" where
  "producer_members \<equiv> filter (\<lambda>(k, v). k \<notin> set EXCLUDE)"

lemma producer_members_update_in: "k \<in> set EXCLUDE \<Longrightarrow> producer_members (AList.update k v m) = producer_members m"
  by (induction m) auto

lemma producer_members_update_out:
  "k \<notin> set EXCLUDE \<Longrightarrow> producer_members (AList.update k v m) = AList.update k v (producer_members m)"
  by (induction m) auto

lemma producer_members_to_map: "producer_members (to_map kvs) = to_map (producer_members kvs)"
proof -
  have "producer_members (fold (\<lambda>(k, v) m. AList.update k v m) kvs m) =
      fold (\<lambda>(k, v) m. AList.update k v m) (producer_members kvs) (producer_members m)" for m
    by (induction kvs arbitrary: m) (auto simp: producer_members_update_in producer_members_update_out)
  then show ?thesis by (simp add: to_map_def)
qed

lemma producer_members_opt [simp]:
  "producer_members (opt_member k f m) = (if k \<in> set EXCLUDE then [] else opt_member k f m)"
  by (simp add: opt_member_def split: option.split)

definition object_members :: "json \<Rightarrow> json_map" where
  "object_members v = (case v of JObject ms \<Rightarrow> ms | _ \<Rightarrow> [])"

lemma same_producer_members:
  "producer_members (object_members (publish_request_json E req)) =
   producer_members (object_members (body_json E (from_publish_request req c l origin t)))"
proof -
  have ext: "b_extensions (from_publish_request req c l origin t) =
      opt_member ''key_attestation'' key_attestation_json (pr_key_attestation req)"
    by (simp add: from_publish_request_def opt_member_def KEY_ATTESTATION_FIELD_def cong: option.case_cong)
  have fields: "b_version (from_publish_request req c l origin t) = pr_version req"
    "b_supersedes (from_publish_request req c l origin t) = pr_supersedes req"
    "b_agent_id (from_publish_request req c l origin t) = pr_agent_id req"
    "b_contributors (from_publish_request req c l origin t) = pr_contributors req"
    "b_title (from_publish_request req c l origin t) = pr_title req"
    "b_context_type (from_publish_request req c l origin t) = pr_context_type req"
    "b_data_refs (from_publish_request req c l origin t) = pr_data_refs req"
    "b_derived_from (from_publish_request req c l origin t) = pr_derived_from req"
    "b_visibility (from_publish_request req c l origin t) = pr_visibility req"
    "b_audience (from_publish_request req c l origin t) = pr_audience req"
    "b_acdp_version (from_publish_request req c l origin t) = pr_acdp_version req"
    "b_description (from_publish_request req c l origin t) = pr_description req"
    "b_summary (from_publish_request req c l origin t) = pr_summary req"
    "b_tags (from_publish_request req c l origin t) = pr_tags req"
    "b_domain (from_publish_request req c l origin t) = pr_domain req"
    "b_expires_at (from_publish_request req c l origin t) = pr_expires_at req"
    "b_data_period (from_publish_request req c l origin t) = pr_data_period req"
    "b_metadata (from_publish_request req c l origin t) = pr_metadata req"
    "b_schema_uri (from_publish_request req c l origin t) = pr_schema_uri req"
    "b_anchors (from_publish_request req c l origin t) = pr_anchors req"
    by (simp_all add: from_publish_request_def)
  show ?thesis
    unfolding publish_request_json_def body_json_def object_members_def json.case producer_members_to_map ext fields
      filter_append producer_members_opt
    by (simp add: EXCLUDE_def)
qed

section \<open>Legacy renderings\<close>

lemma map_of_producer_members: "k \<notin> set EXCLUDE \<Longrightarrow> map_of (producer_members ms) k = map_of ms k"
  by (induction ms) auto

lemma legacy_slot_producer:
  assumes "fst path \<notin> set EXCLUDE"
  shows "legacy_slot (producer_members ms) path = map_option producer_members (legacy_slot ms path)"
proof (cases path)
  case (Pair key n)
  with assms have k: "key \<notin> set EXCLUDE" by simp
  show ?thesis unfolding Pair legacy_slot_def
    by (cases n) (auto simp: map_of_producer_members[OF k] producer_members_update_out[OF k]
        option.map_comp comp_def split: Option.bind_splits)
qed

lemma legacy_fold_producer:
  assumes "\<forall>p\<in>set ps. fst p \<notin> set EXCLUDE"
  shows "fold legacy_step ps (producer_members ms, ch) =
    apfst producer_members (fold legacy_step ps (ms, ch))"
  using assms
proof (induction ps arbitrary: ms ch)
  case (Cons p ps)
  then have "fst p \<notin> set EXCLUDE" by simp
  note slot = legacy_slot_producer[OF this, of ms]
  show ?case using Cons slot by (cases "legacy_slot ms p") (simp_all add: legacy_step_def)
qed simp

lemma legacy_paths_producer: "\<forall>p\<in>set PRODUCER_TIMESTAMP_PATHS. fst p \<notin> set EXCLUDE"
  by (simp add: PRODUCER_TIMESTAMP_PATHS_def EXCLUDE_def)

lemma content_hash_cong:
  "producer_members ms = producer_members ns \<Longrightarrow>
   verify_content_hash sci sha256 (JObject ms) h = verify_content_hash sci sha256 (JObject ns) h"
  by (simp add: verify_content_hash_def compute_content_hash_object producer_content_def)

lemma typed_hash_cong:
  assumes same: "producer_members ms = producer_members ns"
  shows "verify_typed_content_hash E (JObject ms) h = verify_typed_content_hash E (JObject ns) h"
proof -
  obtain ms' ch where m: "fold legacy_step PRODUCER_TIMESTAMP_PATHS (ms, False) = (ms', ch)" by fastforce
  obtain ns' ch' where n: "fold legacy_step PRODUCER_TIMESTAMP_PATHS (ns, False) = (ns', ch')" by fastforce
  have "(producer_members ms', ch) = (producer_members ns', ch')"
    using legacy_fold_producer[OF legacy_paths_producer, of ms False]
      legacy_fold_producer[OF legacy_paths_producer, of ns False] same m n by simp
  then have leg: "ch = ch'" "producer_members ms' = producer_members ns'" by simp_all
  show ?thesis
    unfolding verify_typed_content_hash_def content_hash_cong[OF same] legacy_rendering_def json.case m n Let_def
      prod.case leg(1)
    by (auto simp: content_hash_cong[OF leg(2)] split: sum.split acdp_error.split)
qed

lemma typed_body_hash_eq:
  "verify_typed_body_hash E (from_publish_request req c l origin t) = verify_typed_publish_request_hash E req"
proof -
  let ?b = "from_publish_request req c l origin t"
  have "body_json E ?b = JObject (object_members (body_json E ?b))"
    "publish_request_json E req = JObject (object_members (publish_request_json E req))"
    by (simp_all add: body_json_def publish_request_json_def object_members_def)
  moreover have "b_content_hash ?b = pr_content_hash req" by (simp add: from_publish_request_def)
  ultimately show ?thesis
    using typed_hash_cong[OF same_producer_members[of E req c l origin t], of E "pr_content_hash req"]
    by (simp add: verify_typed_body_hash_def verify_typed_publish_request_hash_def)
qed

text \<open>
  The hash a registry checks is the hash a consumer checks: on every publish request, verifying
  its \<open>content_hash\<close> gives the same result, error included, as verifying the \<open>content_hash\<close> of the
  body made from it, whatever identifiers, origin and time the registry assigns, and with the same
  treatment of timestamps in the older rendering.
\<close>

theorem stored_body_keeps_hash:
  "verify_typed_body_hash E (from_publish_request req c l origin t) = verify_typed_publish_request_hash E req"
  by (rule typed_body_hash_eq)

end
