(* ===== verification/Acdp_Server_Correct.thy ===== *)
theory Acdp_Server_Correct
  imports Acdp_Server Acdp_Verify_Correct Acdp_Store_Correct
begin

text \<open>
  Correctness of the registry server: the runs of the server over its store, what every stored
  context satisfies, who may change lifecycle state, and the rules for key revocations. The server's
  steps are steps of the store, so the server inherits growth from the store's interpretation.
\<close>

section \<open>Assigned identifiers\<close>

lemma hex_digit_lower: "n < 16 \<Longrightarrow> is_lower_hex (hex_digit n)"
proof -
  have "\<forall>n<16. is_lower_hex (hex_digit n)" by code_simp
  then show "n < 16 \<Longrightarrow> is_lower_hex (hex_digit n)" by blast
qed

lemma hex_encode_ok: "is_lowercase_hex (hex_encode bs) \<and> length (hex_encode bs) = 2 * length bs"
proof (induction bs)
  case (Cons b bs)
  have "unat b div 16 < 16" using unat_less[of b] by simp
  then show ?case using Cons hex_digit_lower
    by (simp add: hex_byte_def is_lowercase_hex_def)
qed (simp add: is_lowercase_hex_def)

lemma derived_lineage_ok:
  "length (sha256 (string_bytes c)) = 32 \<Longrightarrow> lineage_id_parse (derive_lineage_id sha256 c) = Inr (derive_lineage_id sha256 c)"
  unfolding lineage_id_parse_def hex_id_parse_def derive_lineage_id_def strip_prefix_append
  using hex_encode_ok[of "sha256 (string_bytes c)"] by simp

lemma assigned_ctx_ok:
  assumes "is_valid_dns_authority authority" "is_valid_uuid_v4 uuid"
  shows "ctx_id_parse (''acdp://'' @ authority @ ''/'' @ uuid) = Inr (''acdp://'' @ authority @ ''/'' @ uuid)"
    and "ctx_id_authority (''acdp://'' @ authority @ ''/'' @ uuid) = authority"
  using assms ctx_id_authority_append[OF dns_authority_no_slash[OF assms(1)], of uuid]
  by (auto simp: ctx_id_parse_parts)

section \<open>What a proof of identity has checked\<close>

text \<open>\<open>proves E srv req p\<close>: one of the three provers accepted \<open>req\<close> with the token \<open>p\<close>.\<close>

definition proves :: "ext \<Rightarrow> registry_server \<Rightarrow> publish_request \<Rightarrow> proven \<Rightarrow> bool" where
  "proves E srv req p \<longleftrightarrow>
     (\<exists>limiter resolve resolve_again. prove_publish_identity E limiter resolve resolve_again srv req = Inr p) \<or>
     (\<exists>limiter. prove_publish_identity_did_key E limiter srv req = Inr p) \<or>
     (\<exists>limiter key algorithm. prove_publish_identity_pinned E limiter srv req key algorithm = Inr p)"

lemma prove_with_fingerprintD:
  "prove_with_fingerprint srv req fp = Inr p \<Longrightarrow>
     pv_req p = req \<and> pv_authority p = srv_authority srv \<and>
     (revocation_check_needed srv req \<longrightarrow> (\<exists>f. fp = Inr f \<and> check_not_self_signed_lenient req f = Inr ()))"
  by (auto simp: prove_with_fingerprint_def result_simps split: if_splits)

lemma provesD:
  assumes "proves E srv req p"
  shows "pv_req p = req" "pv_authority p = srv_authority srv"
    "validate_publish_request E req = Inr ()"
    "validate_registry_limits_and_crypto E (srv_caps srv) (Some (srv_authority srv)) req
       (x_json_len E (publish_request_json E req)) = Inr ()"
proof -
  have "pv_req p = req \<and> pv_authority p = srv_authority srv \<and> (\<exists>limiter. validate_for_server E limiter srv req = Inr ())"
    using assms unfolding proves_def prove_publish_identity_def prove_publish_identity_did_key_def
      prove_publish_identity_pinned_def
    by (elim disjE exE) (auto simp: rbind_eq_Inr dest!: prove_with_fingerprintD)
  then show "pv_req p = req" "pv_authority p = srv_authority srv"
    "validate_publish_request E req = Inr ()"
    "validate_registry_limits_and_crypto E (srv_caps srv) (Some (srv_authority srv)) req
       (x_json_len E (publish_request_json E req)) = Inr ()"
    by (auto simp: validate_for_server_def validate_post_schema_def rbind_eq_Inr)
qed

lemma limits_and_cryptoD:
  assumes "validate_registry_limits_and_crypto E caps own req n = Inr ()"
  shows "verify_typed_publish_request_hash E req = Inr ()"
    and "\<not> (is_interim_key_revocation_form (pr_context_type req) \<and> key_revocation_retirement_gate_applies (cap_acdp_version caps))"
    and "is_interim_key_revocation_form (pr_context_type req) \<Longrightarrow> key_revocation_gate_applies (cap_acdp_version caps) \<Longrightarrow>
      checks [check_not_self_signed_did_key_lenient E req, check_revocation_controller_lenient caps req] = Inr ()"
    and "pr_context_type req = KeyRevocation \<Longrightarrow> key_revocation_gate_applies (cap_acdp_version caps) \<Longrightarrow>
      rbind (revocation_from_request E req) (check_revocation_controller caps req) = Inr ()"
proof -
  note c = assms[unfolded validate_registry_limits_and_crypto_def checks_Cons_ok require_eq_Inr]
  show "verify_typed_publish_request_hash E req = Inr ()"
    "\<not> (is_interim_key_revocation_form (pr_context_type req) \<and> key_revocation_retirement_gate_applies (cap_acdp_version caps))"
    using c by blast+
  show "checks [check_not_self_signed_did_key_lenient E req, check_revocation_controller_lenient caps req] = Inr ()"
    if "is_interim_key_revocation_form (pr_context_type req)" "key_revocation_gate_applies (cap_acdp_version caps)"
    using c that by (simp only: if_True simp_thms)
  show "rbind (revocation_from_request E req) (check_revocation_controller caps req) = Inr ()"
    if "pr_context_type req = KeyRevocation" "key_revocation_gate_applies (cap_acdp_version caps)"
    using c that by (simp only: if_True simp_thms)
qed

section \<open>Runs of the server\<close>

text \<open>
  A publish commits a proof that does not depend on the store. A lifecycle endpoint proves against
  some earlier state \<open>g0\<close> of the same store and commits later, since the two are separate critical
  sections.
\<close>

inductive server_step :: "ext \<Rightarrow> registry_server \<Rightarrow> inner \<Rightarrow> inner \<Rightarrow> bool" for E srv g where
  publish: "proves E srv req p \<Longrightarrow> is_valid_uuid_v4 uuid \<Longrightarrow>
     commit_proven E srv uuid now p key g = (r, g') \<Longrightarrow> server_step E srv g g'"
| endpoint: "prove_lifecycle_identity E resolve srv e ep requester now g0 = Inr p \<Longrightarrow> store_grows g0 g \<Longrightarrow>
     commit_lifecycle_proven srv p now' g = (r', g') \<Longrightarrow> server_step E srv g g'"
| endpoint_did_key: "prove_lifecycle_identity_did_key E srv e ep requester now g0 = Inr p \<Longrightarrow> store_grows g0 g \<Longrightarrow>
     commit_lifecycle_proven srv p now' g = (r', g') \<Longrightarrow> server_step E srv g g'"
| registry_event: "record_registry_lifecycle_event srv e now g = (r', g') \<Longrightarrow> server_step E srv g g'"

inductive_cases server_stepE: "server_step E srv g g'"

definition served :: "ext \<Rightarrow> registry_server \<Rightarrow> inner \<Rightarrow> bool" where
  "served E srv g \<longleftrightarrow> (server_step E srv)\<^sup>*\<^sup>* new_store g"

text \<open>What a registry must be given: a DNS name and a hash function with 32-byte digests.\<close>

definition server_ok :: "ext \<Rightarrow> registry_server \<Rightarrow> bool" where
  "server_ok E srv \<longleftrightarrow> is_valid_dns_authority (srv_authority srv) \<and> (\<forall>x. length (x_sha256 E x) = 32)"

lemma commit_via_store_state:
  "commit_via_store E srv uuid now req key fp g = (r, g') \<Longrightarrow>
   \<exists>r0. commit_publish (x_sha256 E) uuid (pending_commit E srv req key fp) now g = (r0, g')"
  by (auto simp: commit_via_store_def split: prod.splits sum.splits if_splits)

lemma commit_proven_cases:
  assumes "commit_proven E srv uuid now p key g = (r, g')"
  obtains "g' = g" "\<nexists>resp. r = Inr (Inserted resp)"
  | r0 where "commit_publish (x_sha256 E) uuid (pending_commit E srv (pv_req p) key (pv_fingerprint p)) now g = (r0, g')"
      "srv_receipt_signer srv \<noteq> None \<longrightarrow> pv_fingerprint p \<noteq> None" "\<And>resp. r = Inr (Inserted resp) \<Longrightarrow> r0 = r"
proof (cases "pv_authority p \<noteq> srv_authority srv \<or> srv_receipt_signer srv \<noteq> None \<and> pv_fingerprint p = None")
  case True
  then show ?thesis using assms that(1) by (auto simp: commit_proven_def split: if_splits)
next
  case False
  then have c: "commit_via_store E srv uuid now (pv_req p) key (pv_fingerprint p) g = (r, g')"
    using assms by (auto simp: commit_proven_def split: if_splits)
  then obtain r0 where r0: "commit_publish (x_sha256 E) uuid (pending_commit E srv (pv_req p) key (pv_fingerprint p)) now g = (r0, g')"
    using commit_via_store_state by blast
  have "r0 = r" if "r = Inr (Inserted resp)" for resp
    using c that r0 by (auto simp: commit_via_store_def split: prod.splits sum.splits if_splits)
  then show ?thesis using that(2) r0 False by blast
qed

lemma server_step_grows: "server_step E srv g g' \<Longrightarrow> store_grows g g'"
proof (erule server_stepE)
  fix req p uuid now key r
  assume "commit_proven E srv uuid now p key g = (r, g')"
  then show "store_grows g g'"
    by (rule commit_proven_cases) (auto intro: store_grows_refl commit_publish_grows)
qed (auto simp: commit_lifecycle_proven_def record_registry_lifecycle_event_def
    intro: lifecycle_grows store_grows_refl split: if_splits sum.splits)

text \<open>A context of the next state is an evolved old one or the one just published.\<close>

lemma published_contexts:
  assumes "ctx_at (published commit b receipt g) c = Some y" "ctx_at g (b_ctx_id b) = None"
  shows "(\<exists>x. ctx_at g c = Some x \<and> evolves x y) \<or>
    c = b_ctx_id b \<and> fc_body y = b \<and> fc_registry_receipt y = receipt \<and>
    rs_status (fc_registry_state y) \<in> {Active, Superseded}"
  using assms by (auto simp: ctx_at_published split: option.splits if_splits)

text \<open>What holds of every stored context, and that every kind of step keeps it.\<close>

definition context_good :: "ext \<Rightarrow> registry_server \<Rightarrow> ctx_id \<Rightarrow> full_context \<Rightarrow> bool" where
  "context_good E srv c x \<longleftrightarrow>
     b_ctx_id (fc_body x) = c \<and> validate_body E (fc_body x) = Inr () \<and>
     verify_typed_body_hash E (fc_body x) = Inr () \<and>
     verify_registry_assigned_bindings E (fc_body x) = Inr () \<and>
     (srv_receipt_signer srv \<noteq> None \<longrightarrow> fc_registry_receipt x \<noteq> None)"

lemma context_good_evolves: "context_good E srv c x \<Longrightarrow> evolves x y \<Longrightarrow> context_good E srv c y"
  by (simp add: context_good_def evolves_def)

definition server_inv :: "ext \<Rightarrow> registry_server \<Rightarrow> inner \<Rightarrow> bool" where
  "server_inv E srv g \<longleftrightarrow> (\<forall>c x. ctx_at g c = Some x \<longrightarrow> context_good E srv c x)"

lemma lifecycle_contexts:
  assumes "commit_lifecycle_event e now g = (r, g')" "ctx_at g' c = Some y"
  shows "\<exists>x. ctx_at g c = Some x \<and> evolves x y"
  using assms(1)
proof (cases rule: lifecycle_cases)
  case (2 x)
  then show ?thesis using assms(2) by (auto split: if_splits)
qed (use assms in auto)

lemma prepared_body:
  assumes "prepare_publish (x_sha256 E) uuid (pending_commit E srv req key fp) now g = Inr (b, receipt)"
  obtains v l where "b = from_publish_request req (''acdp://'' @ srv_authority srv @ ''/'' @ uuid) l (srv_authority srv) now"
    "assign_identifiers (x_sha256 E) uuid (srv_authority srv) (pr_supersedes req) v =
       Inr (''acdp://'' @ srv_authority srv @ ''/'' @ uuid, l)"
  using assms by (rule prepare_publishD) (use that in \<open>simp add: new_ctx_id_def pending_commit_def\<close>)

lemma new_body_good:
  assumes ok: "server_ok E srv" and p: "proves E srv req p" and uuid: "is_valid_uuid_v4 uuid"
    and prep: "prepare_publish (x_sha256 E) uuid (pending_commit E srv req key fp) now g = Inr (b, receipt)"
  shows "validate_body E b = Inr ()" "verify_typed_body_hash E b = Inr ()" "verify_registry_assigned_bindings E b = Inr ()"
proof -
  let ?c = "''acdp://'' @ srv_authority srv @ ''/'' @ uuid"
  from prep obtain v l where b: "b = from_publish_request req ?c l (srv_authority srv) now"
    and l: "assign_identifiers (x_sha256 E) uuid (srv_authority srv) (pr_supersedes req) v = Inr (?c, l)"
    by (rule prepared_body)
  obtain w where w: "l = derive_lineage_id (x_sha256 E) w"
    using l by (auto simp: assign_identifiers_def Let_def split: option.splits)
  have auth: "is_valid_dns_authority (srv_authority srv)" using ok by (simp add: server_ok_def)
  have lin: "lineage_id_parse l = Inr l"
    unfolding w by (rule derived_lineage_ok) (use ok in \<open>simp add: server_ok_def\<close>)
  show "validate_body E b = Inr ()"
    using accepted_body_valid[OF provesD(3)[OF p] assigned_ctx_ok(1)[OF auth uuid] lin auth] b by simp
  show "verify_typed_body_hash E b = Inr ()"
    using typed_body_hash_eq limits_and_cryptoD(1)[OF provesD(4)[OF p]] b by simp
  have "pr_supersedes req = None \<Longrightarrow> l = derive_lineage_id (x_sha256 E) ?c"
    using l by (auto simp: assign_identifiers_def Let_def)
  then show "verify_registry_assigned_bindings E b = Inr ()"
    using assigned_ctx_ok(2)[OF auth uuid]
    by (simp add: b verify_registry_assigned_bindings_def from_publish_request_def)
qed

lemma minted_receipt:
  assumes "prepare_publish sha256 uuid commit now g = Inr (b, receipt)" "pc_receipt_minter commit = Some f"
  shows "\<exists>v. f b = Inr v \<and> receipt = Some v"
  using assms unfolding prepare_publish_def Let_def by (auto simp: result_simps split: option.splits)

lemma server_step_contexts:
  assumes step: "server_step E srv g g'" and y: "ctx_at g' c = Some y"
  shows "(\<exists>x. ctx_at g c = Some x \<and> evolves x y) \<or>
    (\<exists>req p uuid now key receipt. proves E srv req p \<and> is_valid_uuid_v4 uuid \<and>
       prepare_publish (x_sha256 E) uuid (pending_commit E srv req key (pv_fingerprint p)) now g = Inr (fc_body y, receipt) \<and>
       c = b_ctx_id (fc_body y) \<and> fc_registry_receipt y = receipt \<and>
       rs_status (fc_registry_state y) \<in> {Active, Superseded} \<and>
       (srv_receipt_signer srv \<noteq> None \<longrightarrow> pv_fingerprint p \<noteq> None))"
  using step
proof (cases rule: server_step.cases)
  case (publish req p uuid now key r)
  note 1 = publish
  from 1(3) show ?thesis
  proof (cases rule: commit_proven_cases)
    case (2 r0)
    from 2(1) show ?thesis
    proof (cases rule: commit_publish_cases)
      case c: (2 b receipt)
      have new: "ctx_at g (b_ctx_id b) = None" by (rule prepare_publishD[OF c(2)]) simp
      have "ctx_at (published (pending_commit E srv (pv_req p) key (pv_fingerprint p)) b receipt g) c = Some y"
        using y c(3) by simp
      from published_contexts[OF this new] show ?thesis
        using 1(1,2) c(2) 2(2) provesD(1)[OF 1(1)] by blast
    qed (use y in auto)
  qed (use y in auto)
next
  case endpoint
  then show ?thesis using y lifecycle_contexts
    by (auto simp: commit_lifecycle_proven_def split: if_splits)
next
  case endpoint_did_key
  then show ?thesis using y lifecycle_contexts
    by (auto simp: commit_lifecycle_proven_def split: if_splits)
next
  case registry_event
  then show ?thesis using y lifecycle_contexts
    by (auto simp: record_registry_lifecycle_event_def split: sum.splits)
qed

lemma server_step_inv:
  assumes ok: "server_ok E srv" and inv: "server_inv E srv g" and step: "server_step E srv g g'"
  shows "server_inv E srv g'"
  unfolding server_inv_def
proof (intro allI impI)
  fix c y
  assume "ctx_at g' c = Some y"
  from server_step_contexts[OF step this] show "context_good E srv c y"
  proof (elim disjE exE conjE)
    fix x
    assume "ctx_at g c = Some x" "evolves x y"
    then show ?thesis using inv context_good_evolves unfolding server_inv_def by blast
  next
    fix req p uuid now key receipt
    assume p: "proves E srv req p" "is_valid_uuid_v4 uuid"
      and prep: "prepare_publish (x_sha256 E) uuid (pending_commit E srv req key (pv_fingerprint p)) now g = Inr (fc_body y, receipt)"
      and c: "c = b_ctx_id (fc_body y)" "fc_registry_receipt y = receipt"
      and fp: "srv_receipt_signer srv \<noteq> None \<longrightarrow> pv_fingerprint p \<noteq> None"
    have "receipt \<noteq> None" if "srv_receipt_signer srv \<noteq> None"
      using minted_receipt[OF prep] that fp by (fastforce simp: pending_commit_def)
    then show ?thesis using new_body_good[OF ok p prep] c by (simp add: context_good_def)
  qed
qed

text \<open>
  The server as a growing system. Its invariant and its growth relation are those of the locale, so
  the lemmas of \<open>transition_system\<close> and \<open>growing_system\<close> apply to runs of the server.
\<close>

definition guarded_step :: "ext \<Rightarrow> registry_server \<Rightarrow> inner \<Rightarrow> inner \<Rightarrow> bool" where
  "guarded_step E srv g g' \<longleftrightarrow> server_ok E srv \<and> server_step E srv g g'"

interpretation server: growing_system "guarded_step E srv" "server_inv E srv" store_grows for E srv
  by unfold_locales
    (auto simp: guarded_step_def intro: server_step_inv server_step_grows store_grows_refl store_grows_trans)

lemma served_guarded: "server_ok E srv \<Longrightarrow> served E srv g \<Longrightarrow> (guarded_step E srv)\<^sup>*\<^sup>* new_store g"
  unfolding served_def by (erule mono_rtranclp[rule_format, rotated]) (simp add: guarded_step_def)

lemma served_inv: "server_ok E srv \<Longrightarrow> served E srv g \<Longrightarrow> server_inv E srv g"
  by (rule server.steps_inv[OF served_guarded]) (simp_all add: server_inv_def new_store_def)

lemma retrieveD:
  assumes "retrieve srv c requester now g = Some ctx"
  obtains x where "ctx_at g c = Some x" "ctx = project_context x now" "can_retrieve (fc_body x) requester (srv_caps srv)"
  using assms that by (auto simp: retrieve_def store_get_def project_context_def split: option.splits if_splits)

text \<open>
  C1. A registry serves only contexts that verify. After any run of publishes (resolver-backed,
  \<open>did:key\<close> or pinned) and lifecycle events on a registry with a DNS authority and 32-byte digests,
  every context that \<open>retrieve\<close> returns has the requested identifier, passes \<open>validate_body\<close>, matches its
  \<open>content_hash\<close>, has an origin and, as a first version, a lineage identifier derived from its own
  identifier, and carries a receipt when the registry has a receipt signer: there is no degraded mode.
\<close>

theorem registry_serves_only_verifiable_contexts:
  assumes "server_ok E srv" "served E srv g" "retrieve srv c requester now g = Some ctx"
  shows "verify_ctx_id_binding (b_ctx_id (fc_body ctx)) c = Inr () \<and>
    validate_body E (fc_body ctx) = Inr () \<and> verify_typed_body_hash E (fc_body ctx) = Inr () \<and>
    verify_registry_assigned_bindings E (fc_body ctx) = Inr () \<and>
    (srv_receipt_signer srv \<noteq> None \<longrightarrow> fc_registry_receipt ctx \<noteq> None)"
proof -
  from assms(3) obtain x where x: "ctx_at g c = Some x" "ctx = project_context x now" by (rule retrieveD)
  then have good: "context_good E srv c x" using served_inv[OF assms(1,2)] by (simp add: server_inv_def)
  then have "is_ok (ctx_id_parse c)"
    using validate_body_identifiers[of E "fc_body x"]
    by (auto simp: context_good_def validate_identifiers_def rbind_eq_Inr void_eq_Inr)
  then show ?thesis using good x parse_ok(4)
    by (auto simp: context_good_def project_context_def verify_ctx_id_binding_def)
qed

text \<open>A concrete registry and one publish on it, for the witnesses.\<close>

definition sample_caps :: capabilities where
  "sample_caps =
     \<lparr>cap_acdp_version = ''0.3.0'', cap_registry_did = ''did:web:r.example'',
      cap_supported_signature_algorithms = [''ed25519''], cap_supported_did_methods = [''did:web'', ''did:key''],
      cap_profiles = [''acdp-registry-core''],
      cap_limits = \<lparr>lm_max_payload_bytes = 2048, lm_max_embedded_bytes = 65536,
        lm_idempotency_key_ttl_seconds = Some 86400, lm_max_publish_per_minute = None,
        lm_change_retention_seconds = None, lm_max_change_filters = None, lm_max_changes_page = None,
        lm_max_change_bucket_length = None, lm_max_subscriptions_per_requester = None,
        lm_max_reads_per_minute = None, lm_max_anonymous_reads_per_minute = None, lm_extensions = []\<rparr>,
      cap_read_authentication_methods = [], cap_anonymous_public_reads = True,
      cap_supports_idempotency_key = True, cap_extensions = []\<rparr>"

definition sample_server :: registry_server where
  "sample_server = \<lparr>srv_caps = sample_caps, srv_authority = ''r.example'', srv_receipt_signer = None,
     srv_mint_head_receipts = False, srv_lifecycle_enabled = False\<rparr>"

definition sample_proof :: proven where
  "sample_proof = \<lparr>pv_req = sample_request, pv_fingerprint = None, pv_authority = ''r.example''\<rparr>"

definition sample_ctx :: ctx_id where
  "sample_ctx = ''acdp://r.example/'' @ sample_uuid"

definition sample_body :: body where
  "sample_body = from_publish_request sample_request sample_ctx
     (derive_lineage_id (x_sha256 sample_ext) sample_ctx) ''r.example'' 0"

definition sample_state :: inner where
  "sample_state = snd (commit_proven sample_ext sample_server sample_uuid 0 sample_proof None new_store)"

lemma sample_sha [simp]: "x_sha256 sample_ext x = replicate 32 0"
  by (simp add: sample_ext_def)

lemma sample_server_simps [simp]:
  "srv_caps sample_server = sample_caps" "srv_authority sample_server = ''r.example''"
  "srv_receipt_signer sample_server = None" "srv_lifecycle_enabled sample_server = False"
  by (simp_all add: sample_server_def)

lemma sample_server_ok: "server_ok sample_ext sample_server"
proof -
  have "is_valid_dns_authority ''r.example''" by code_simp
  then show ?thesis by (simp add: server_ok_def)
qed

lemma sample_json: "publish_request_json sample_ext sample_request = JObject
    [(''version'', json_nat 1), (''supersedes'', JNull), (''agent_id'', JString ''did:key:zA''),
     (''contributors'', JArray []), (''title'', JString ''t''), (''type'', JString ''analysis''),
     (''data_refs'', JArray []), (''derived_from'', JArray []), (''visibility'', JString ''public''),
     (''content_hash'', JString sample_hash), (''signature'', signature_json (pr_signature sample_request))]"
  by (simp add: publish_request_json_def sample_request_def to_map_def opt_member_def json_strings_def)

text \<open>The digest of the sample primitives is constant, so any document that canonicalizes has the sample hash.\<close>

lemma sample_any_hash:
  assumes "depth (producer_content ms) \<le> MAX_JCS_DEPTH"
  shows "verify_typed_content_hash sample_ext (JObject ms) sample_hash = Inr ()"
proof -
  have "hex_encode (replicate 32 0) = replicate 64 CHR ''0''" by code_simp
  then have "compute_content_hash (x_sci sample_ext) (x_sha256 sample_ext) (JObject ms) = Inr sample_hash"
    using assms unfolding compute_content_hash_object
    by (simp add: try_canonicalize_value_def write_value_render sample_hash_def)
  then show ?thesis by (simp add: verify_typed_content_hash_def verify_content_hash_def)
qed

lemma sample_hash_verifies: "verify_typed_publish_request_hash sample_ext sample_request = Inr ()"
proof -
  have "pr_content_hash sample_request = sample_hash" by (simp add: sample_request_def)
  then show ?thesis unfolding verify_typed_publish_request_hash_def sample_json
    by (simp only:) (rule sample_any_hash, simp add: producer_content_def EXCLUDE_def MAX_JCS_DEPTH_def json_nat_def)
qed

lemma sample_valid:
  assumes "srv_caps srv = sample_caps" "srv_authority srv = ''r.example''"
  shows "validate_for_server sample_ext (\<lambda>_. Inr ()) srv sample_request = Inr ()"
proof -
  have req: "pr_data_refs sample_request = []" "sig_algorithm (pr_signature sample_request) = ''ed25519''"
    "sig_key_id (pr_signature sample_request) = ''did:key:zA#zA''" "pr_agent_id sample_request = ''did:key:zA''"
    "pr_supersedes sample_request = None" "pr_context_type sample_request = Analysis"
    by (simp_all add: sample_request_def)
  have caps: "cap_supported_signature_algorithms sample_caps = [''ed25519'']"
    "cap_supported_did_methods sample_caps = [''did:web'', ''did:key'']"
    "lm_max_payload_bytes (cap_limits sample_caps) = 2048"
    by (simp_all add: sample_caps_def)
  have "validate_registry_limits_and_crypto sample_ext sample_caps (Some ''r.example'') sample_request 0 = Inr ()"
    unfolding validate_registry_limits_and_crypto_def checks_Cons_ok req sample_hash_verifies
    by (simp add: supports_algorithm_def supports_did_method_def caps did_method_of_def check_key_binding_def req
        check_same_registry_def is_interim_key_revocation_form_def)
  moreover have "x_json_len sample_ext v = 0" for v by (simp add: sample_ext_def)
  ultimately show ?thesis
    using sample_request_ok assms by (simp add: validate_for_server_def validate_post_schema_def)
qed

lemma sample_request_signature: "verify_publish_request_signature_offline sample_ext sample_request = Inr ()"
proof -
  have req: "sig_algorithm (pr_signature sample_request) = ''ed25519''"
    "sig_key_id (pr_signature sample_request) = ''did:key:zA#zA''" "pr_agent_id sample_request = ''did:key:zA''"
    by (simp_all add: sample_request_def)
  show ?thesis
    by (simp add: verify_publish_request_signature_offline_def did_part_or_all_def req Let_def starts_with_def
        strip_prefix_def verify_did_key_envelope_def resolve_did_key_url_def sample_key_ok verify_ed25519_def)
      (simp add: sample_ext_def)
qed

lemma sample_proves: "prove_publish_identity_did_key sample_ext (\<lambda>_. Inr ()) sample_server sample_request = Inr sample_proof"
  by (simp add: prove_publish_identity_did_key_def sample_proof_def sample_valid sample_request_signature)

lemma sample_commit:
  "commit_proven sample_ext sample_server sample_uuid 0 sample_proof None new_store =
     (Inr (Inserted (publish_response_of sample_request sample_body None)), sample_state)"
  "ctx_at sample_state sample_ctx = Some (fresh_context sample_body None)"
proof -
  have req: "pr_supersedes sample_request = None" by (simp add: sample_request_def)
  have commit: "pending_commit sample_ext sample_server sample_request None None =
      \<lparr>pc_req = sample_request, pc_authority = ''r.example'', pc_idempotency = None, pc_receipt_minter = None,
       pc_predecessor_admission = None\<rparr>"
    by (simp add: pending_commit_def req)
  have run: "commit_proven sample_ext sample_server sample_uuid 0 sample_proof None new_store =
     (Inr (Inserted (publish_response_of sample_request sample_body None)),
      push_lineage (b_lineage_id sample_body) sample_ctx (insert_ctx sample_ctx (fresh_context sample_body None) new_store))"
    unfolding commit_proven_def commit_via_store_def
    by (simp add: sample_proof_def commit commit_publish_def idempotency_answer_def prepare_publish_def
        supersession_check_def assign_identifiers_def req Let_def new_store_def sample_body_def sample_ctx_def)
  then show "commit_proven sample_ext sample_server sample_uuid 0 sample_proof None new_store =
     (Inr (Inserted (publish_response_of sample_request sample_body None)), sample_state)"
    by (simp add: sample_state_def)
  show "ctx_at sample_state sample_ctx = Some (fresh_context sample_body None)"
    unfolding sample_state_def run snd_conv by simp
qed

lemma sample_served: "served sample_ext sample_server sample_state"
proof -
  have "is_valid_uuid_v4 sample_uuid" by code_simp
  moreover have "proves sample_ext sample_server sample_request sample_proof"
    using sample_proves by (auto simp: proves_def)
  ultimately have "server_step sample_ext sample_server new_store sample_state"
    using sample_commit(1) by (blast intro: server_step.publish)
  then show ?thesis unfolding served_def by (rule r_into_rtranclp)
qed

lemma sample_retrieved:
  "retrieve sample_server sample_ctx None 0 sample_state = Some (project_context (fresh_context sample_body None) 0)"
  unfolding retrieve_def store_get_def sample_commit(2)
  by (simp add: can_retrieve_def sample_body_def from_publish_request_def sample_request_def
      sample_caps_def project_context_def)

lemma registry_serves_only_verifiable_contexts_witness:
  "verify_ctx_id_binding (b_ctx_id (fc_body (project_context (fresh_context sample_body None) 0))) sample_ctx = Inr () \<and>
    validate_body sample_ext (fc_body (project_context (fresh_context sample_body None) 0)) = Inr () \<and>
    verify_typed_body_hash sample_ext (fc_body (project_context (fresh_context sample_body None) 0)) = Inr () \<and>
    verify_registry_assigned_bindings sample_ext (fc_body (project_context (fresh_context sample_body None) 0)) = Inr ()"
  using registry_serves_only_verifiable_contexts[OF sample_server_ok sample_served sample_retrieved] by blast

section \<open>Publish, then retrieve\<close>

lemma served_step: "served E srv g \<Longrightarrow> server_step E srv g g' \<Longrightarrow> served E srv g'"
  unfolding served_def by (rule rtranclp.rtrancl_into_rtrancl)

lemma served_steps: "served E srv g \<Longrightarrow> (server_step E srv)\<^sup>*\<^sup>* g g' \<Longrightarrow> served E srv g'"
  unfolding served_def by (rule rtranclp_trans)

lemma server_steps_grow: "(server_step E srv)\<^sup>*\<^sup>* g g' \<Longrightarrow> store_grows g g'"
  by (induction rule: rtranclp_induct) (auto intro: store_grows_refl store_grows_trans server_step_grows)

text \<open>The context an accepted publish leaves in the store.\<close>

lemma inserted_context:
  assumes "proves E srv req p" "commit_proven E srv uuid now p key g = (Inr (Inserted resp), g')"
  obtains y l where "ctx_at g' (resp_ctx_id resp) = Some y"
    "fc_body y = from_publish_request req (resp_ctx_id resp) l (srv_authority srv) now"
proof -
  from assms(2) obtain r0 where
    commit: "commit_publish (x_sha256 E) uuid (pending_commit E srv req key (pv_fingerprint p)) now g = (Inr (Inserted resp), g')"
    by (cases rule: commit_proven_cases) (auto simp: provesD(1)[OF assms(1)])
  from commit show ?thesis
  proof (cases rule: commit_publish_cases)
    case (2 b receipt)
    let ?commit = "pending_commit E srv req key (pv_fingerprint p)"
    have pc: "pc_req ?commit = req" "pc_authority ?commit = srv_authority srv" by (simp_all add: pending_commit_def)
    from 2(2) obtain l where b: "b = from_publish_request req (new_ctx_id uuid ?commit) l (srv_authority srv) now"
      and new: "ctx_at g (new_ctx_id uuid ?commit) = None"
      by (rule prepare_publishD) (simp add: pc)
    have resp: "resp_ctx_id resp = new_ctx_id uuid ?commit" using 2(5) b by (simp add: publish_response_of_def)
    have "\<exists>y. ctx_at g' (b_ctx_id b) = Some y \<and> fc_body y = b"
      using 2(3) new b by (auto simp: ctx_at_published split: option.split)
    then show ?thesis using that resp b by auto
  qed simp
qed

lemma offline_signature_transfers:
  assumes "verify_publish_request_signature_offline E req = Inr ()"
  shows "starts_with ''did:key:'' (pr_agent_id req)"
    "verify_did_key_signature E (from_publish_request req c l origin t) = Inr ()"
  using assms
  by (auto simp: verify_publish_request_signature_offline_def Let_def rbind_eq_Inr verify_did_key_signature_def
      from_publish_request_def)

text \<open>
  C10. What a \<open>did:key\<close> producer publishes stays retrievable and verifiable: when
  \<open>publish_verified_did_key\<close> answers that it inserted a context, then in the resulting store and after
  any further operations of the registry the producer retrieves it under the identifier of the
  response, with the content hash, title and data it sent, and offline verification of the retrieved
  body (schema, hash and signature under the key in the producer's identifier) succeeds.
\<close>

theorem did_key_publish_retrieve_verify:
  assumes "server_ok E srv" "served E srv g" "is_valid_uuid_v4 uuid"
    and pub: "publish_verified_did_key E limiter srv uuid now req key g = (Inr (Inserted resp), g')"
    and later: "(server_step E srv)\<^sup>*\<^sup>* g' g''"
  shows "\<exists>ctx. retrieve srv (resp_ctx_id resp) (Some (pr_agent_id req)) now' g'' = Some ctx \<and>
    verify_body_offline E (fc_body ctx) = Inr () \<and> b_content_hash (fc_body ctx) = pr_content_hash req \<and>
    b_title (fc_body ctx) = pr_title req \<and> b_data_refs (fc_body ctx) = pr_data_refs req"
proof -
  from pub obtain p where prove: "prove_publish_identity_did_key E limiter srv req = Inr p"
    and commit: "commit_proven E srv uuid now p key g = (Inr (Inserted resp), g')"
    by (auto simp: publish_verified_did_key_def commit_if_proven_def split: sum.splits)
  then have p: "proves E srv req p" by (auto simp: proves_def)
  have sig: "verify_publish_request_signature_offline E req = Inr ()"
    using prove by (auto simp: prove_publish_identity_did_key_def rbind_eq_Inr)
  have g': "served E srv g'" using served_step[OF assms(2)] server_step.publish[OF p assms(3) commit] by blast
  from p commit obtain y l where y: "ctx_at g' (resp_ctx_id resp) = Some y"
    "fc_body y = from_publish_request req (resp_ctx_id resp) l (srv_authority srv) now"
    by (rule inserted_context)
  from server_steps_grow[OF later] y(1) obtain z where z: "ctx_at g'' (resp_ctx_id resp) = Some z" "evolves y z"
    using store_growsD by blast
  have body: "fc_body z = from_publish_request req (resp_ctx_id resp) l (srv_authority srv) now"
    using y(2) evolves_body[OF z(2)] by simp
  have "context_good E srv (resp_ctx_id resp) z"
    using served_inv[OF assms(1) served_steps[OF g' later]] z(1) by (simp add: server_inv_def)
  then have "verify_body_offline E (fc_body z) = Inr ()"
    using offline_signature_transfers[OF sig] body
    by (simp add: context_good_def verify_body_offline_def)
  moreover have "can_retrieve (fc_body z) (Some (pr_agent_id req)) (srv_caps srv)"
    by (simp add: can_retrieve_def body)
  ultimately have "retrieve srv (resp_ctx_id resp) (Some (pr_agent_id req)) now' g'' = Some (project_context z now')"
    "verify_body_offline E (fc_body (project_context z now')) = Inr ()"
    using z(1) by (simp_all add: retrieve_def store_get_def project_context_def)
  then show ?thesis using body
    by (auto simp: project_context_def from_publish_request_def)
qed

lemma did_key_publish_retrieve_verify_witness:
  "\<exists>ctx. retrieve sample_server sample_ctx (Some ''did:key:zA'') 7 sample_state = Some ctx \<and>
    verify_body_offline sample_ext (fc_body ctx) = Inr () \<and> b_content_hash (fc_body ctx) = pr_content_hash sample_request \<and>
    b_title (fc_body ctx) = pr_title sample_request \<and> b_data_refs (fc_body ctx) = pr_data_refs sample_request"
proof -
  have "is_valid_uuid_v4 sample_uuid" by code_simp
  moreover have "publish_verified_did_key sample_ext (\<lambda>_. Inr ()) sample_server sample_uuid 0 sample_request None new_store =
      (Inr (Inserted (publish_response_of sample_request sample_body None)), sample_state)"
    by (simp add: publish_verified_did_key_def commit_if_proven_def sample_proves sample_commit(1))
  moreover have "served sample_ext sample_server new_store" by (simp add: served_def)
  ultimately have "\<exists>ctx. retrieve sample_server (resp_ctx_id (publish_response_of sample_request sample_body None))
      (Some (pr_agent_id sample_request)) 7 sample_state = Some ctx \<and>
    verify_body_offline sample_ext (fc_body ctx) = Inr () \<and> b_content_hash (fc_body ctx) = pr_content_hash sample_request \<and>
    b_title (fc_body ctx) = pr_title sample_request \<and> b_data_refs (fc_body ctx) = pr_data_refs sample_request"
    using did_key_publish_retrieve_verify[OF sample_server_ok] by blast
  then show ?thesis by (simp add: publish_response_of_def sample_body_def sample_request_def)
qed

end
