(* ===== verification/Acdp_Registry_Rules.thy ===== *)
theory Acdp_Registry_Rules
  imports Acdp_Server_Correct
begin

text \<open>
  The trust rules of the registry: the version gates against numeric versions, what every stored key
  revocation satisfies, how revocations may be superseded, and who may change the lifecycle state of
  a context.
\<close>

section \<open>Version gates\<close>

lemma parse_digits_Some: "s \<noteq> [] \<Longrightarrow> list_all is_ascii_digit s \<Longrightarrow> \<exists>n. parse_digits s = Some n"
  by (simp add: parse_digits_def list_all_iff)

text \<open>The numeric value of a decimal part, of any size.\<close>

definition part_value :: "string \<Rightarrow> nat" where
  "part_value s = (case parse_digits s of None \<Rightarrow> 0 | Some n \<Rightarrow> n)"

lemma digit_not_plus [simp]: "\<not> is_ascii_digit CHR ''+''"
  by (simp add: char_class_defs less_eq_char_def)

lemma saturated_part:
  assumes "p \<noteq> []" "list_all is_ascii_digit p" "k < 2 ^ 64"
  shows "of_nat k \<le> unwrap_or (parse_u64 p) (- 1 :: u64) \<longleftrightarrow> k \<le> part_value p"
proof -
  obtain n where n: "parse_digits p = Some n" using parse_digits_Some assms by blast
  obtain c r where p: "p = c # r" using assms(1) by (cases p) auto
  have "c \<noteq> CHR ''+''" using assms(2) p by auto
  then have parse: "parse_u64 p = (if n < 2 ^ 64 then Some (of_nat n) else None)"
    using n p by (simp add: parse_u64_def)
  have k: "unat (of_nat k :: u64) = k" using assms(3) by (simp add: unat_of_nat)
  have "unat (- 1 :: u64) = 2 ^ 64 - 1" by (simp add: unsigned_minus_1_eq_mask mask_eq_exp_minus_1)
  then show ?thesis
    using assms(3) n parse k unfolding word_le_nat_alt
    by (auto simp: part_value_def unat_of_nat)
qed

lemma well_formed_parts:
  "is_well_formed_version v \<longleftrightarrow> (\<exists>a b c. split_on CHR ''.'' v = [a, b, c] \<and>
     (\<forall>p\<in>{a, b, c}. p \<noteq> [] \<and> list_all is_ascii_digit p))"
  by (auto simp: is_well_formed_version_def Let_def length_Suc_conv numeral_3_eq_3)

text \<open>\<open>advertised v k\<close>: the numeric version is at least \<open>0.k\<close>.\<close>

definition advertised :: "string \<Rightarrow> nat \<Rightarrow> bool" where
  "advertised v k \<longleftrightarrow>
     (case map part_value (split_on CHR ''.'' v) of
        major # minor # _ \<Rightarrow> 0 < major \<or> k \<le> minor
      | _ \<Rightarrow> False)"

lemma saturated_gate:
  assumes "is_well_formed_version v" "k < 2 ^ 64"
  shows "(let (major, minor) = parse_major_minor_saturating v in 0 < major \<or> of_nat k \<le> minor) \<longleftrightarrow> advertised v k"
proof -
  obtain a b c where v: "split_on CHR ''.'' v = [a, b, c]"
    "a \<noteq> []" "list_all is_ascii_digit a" "b \<noteq> []" "list_all is_ascii_digit b"
    using assms(1) well_formed_parts by auto
  have pos: "0 < w \<longleftrightarrow> of_nat 1 \<le> w" for w :: u64
    by (simp add: word_less_nat_alt word_le_nat_alt Suc_le_eq)
  show ?thesis
    unfolding parse_major_minor_saturating_def Let_def v(1) pos prod.case advertised_def
    using saturated_part[OF v(2,3), of 1] saturated_part[OF v(4,5) assms(2)] by (simp add: Suc_le_eq)
qed

lemma gate_advertised: "key_revocation_gate_applies v \<longleftrightarrow> \<not> is_well_formed_version v \<or> advertised v 3"
  using saturated_gate[of v 3] by (simp add: key_revocation_gate_applies_def)

lemma retirement_gate_advertised:
  "key_revocation_retirement_gate_applies v \<longleftrightarrow> \<not> is_well_formed_version v \<or> advertised v 5"
  using saturated_gate[of v 5] by (simp add: key_revocation_retirement_gate_applies_def)

text \<open>
  The revocation gates are exact and fail closed. On a well-formed \<open>MAJOR.MINOR.PATCH\<close> they compare
  the numeric version, whatever the number of digits (a part beyond \<open>u64\<close> saturates), with 0.3 and
  0.5; on any other text both gates are on, while the newer error code is never claimed.
\<close>

theorem version_gates_fail_closed:
  "(key_revocation_gate_applies v \<longleftrightarrow> (if is_well_formed_version v then advertised v 3 else True)) \<and>
   (key_revocation_retirement_gate_applies v \<longleftrightarrow> (if is_well_formed_version v then advertised v 5 else True)) \<and>
   (advertises_0_5_0_or_higher v \<longleftrightarrow> is_well_formed_version v \<and> advertised v 5)"
  using saturated_gate[of v 5] gate_advertised retirement_gate_advertised
  by (simp add: advertises_0_5_0_or_higher_def)

section \<open>Stored revocations\<close>

lemma revocation_of_stored:
  "revocation_from_body E (from_publish_request req c l origin t) =
     rbind (revocation_from_request E req) (\<lambda>r. Inr (r\<lparr>kr_ctx_id := Some c\<rparr>))"
  by (simp add: revocation_from_body_def revocation_from_request_def from_publish_request_def)

lemma from_parts_ok:
  assumes "from_parts E ct vis metadata agent key_id = Inr r"
  shows "is_key_revocation ct \<and> vis = Public \<and> kr_publisher r = agent \<and>
    (\<exists>meta c. Option.bind metadata as_object = Some meta \<and> optional_str meta ''revoked_key_controller'' = Inr c \<and>
       controller_of c agent = Inr (kr_controller r, kr_trust_class r)) \<and>
    (\<forall>fp. starts_with ''did:key:'' key_id \<and>
       rbind (resolve_did_key_url E key_id) (fingerprint_did_key_material E) = Inr fp \<longrightarrow> fp \<noteq> kr_fingerprint r)"
proof -
  define K where "K = rbind (resolve_did_key_url E key_id) (fingerprint_did_key_material E)"
  show ?thesis
    using assms unfolding from_parts_def K_def[symmetric]
    by (cases K) (auto simp: rbind_eq_Inr ok_or_eq_Inr Let_def check_not_self_signed_def split: if_splits)
qed

lemma from_partsD:
  assumes "from_parts E ct vis metadata agent key_id = Inr r"
  shows "is_key_revocation ct" "vis = Public" "kr_publisher r = agent"
    "kr_trust_class r = RegistryAttested \<longleftrightarrow> kr_controller r \<noteq> agent"
    "kr_controller r \<noteq> agent \<Longrightarrow> \<exists>m. Option.bind metadata as_object = Some m \<and> map_of m ''revoked_key_controller'' \<noteq> None"
    "starts_with ''did:key:'' key_id \<Longrightarrow> rbind (resolve_did_key_url E key_id) (fingerprint_did_key_material E) = Inr fp \<Longrightarrow>
      fp \<noteq> kr_fingerprint r"
  using from_parts_ok[OF assms]
  by (auto simp: controller_of_def optional_str_def rbind_eq_Inr split: option.splits if_splits)

text \<open>What the gates guarantee of one stored body; the retirement gate (0.5.0) refuses the interim form.\<close>

definition revocation_good :: "ext \<Rightarrow> registry_server \<Rightarrow> body \<Rightarrow> bool" where
  "revocation_good E srv b \<longleftrightarrow>
     \<not> (is_interim_key_revocation_form (b_context_type b) \<and>
        key_revocation_retirement_gate_applies (cap_acdp_version (srv_caps srv))) \<and>
     (b_context_type b = KeyRevocation \<longrightarrow>
     (\<exists>r. revocation_from_body E b = Inr r \<and> b_visibility b = Public \<and>
        (kr_trust_class r = RegistryAttested \<longrightarrow> b_agent_id b = cap_registry_did (srv_caps srv)) \<and>
        (\<forall>fp. starts_with ''did:key:'' (sig_key_id (b_signature b)) \<and>
          rbind (resolve_did_key_url E (sig_key_id (b_signature b))) (fingerprint_did_key_material E) = Inr fp \<longrightarrow>
          fp \<noteq> kr_fingerprint r)))"

lemma new_revocation_good:
  assumes gate: "key_revocation_gate_applies (cap_acdp_version (srv_caps srv))" and p: "proves E srv req p"
  shows "revocation_good E srv (from_publish_request req c l origin t)"
  unfolding revocation_good_def
proof (intro conjI impI)
  show "\<not> (is_interim_key_revocation_form (b_context_type (from_publish_request req c l origin t)) \<and>
      key_revocation_retirement_gate_applies (cap_acdp_version (srv_caps srv)))"
    using limits_and_cryptoD(2)[OF provesD(4)[OF p]] by (simp add: from_publish_request_def)
next
  assume "b_context_type (from_publish_request req c l origin t) = KeyRevocation"
  then have ct: "pr_context_type req = KeyRevocation" by (simp add: from_publish_request_def)
  obtain r where r: "revocation_from_request E req = Inr r" "check_revocation_controller (srv_caps srv) req r = Inr ()"
    using limits_and_cryptoD(4)[OF provesD(4)[OF p] ct gate] by (auto simp: rbind_eq_Inr)
  note parts = from_partsD[OF r(1)[unfolded revocation_from_request_def]]
  have "pr_agent_id req = cap_registry_did (srv_caps srv)" if "kr_trust_class r = RegistryAttested"
    using that parts(4,5) r(2) by (auto simp: check_revocation_controller_def Let_def checks_Cons_ok controller_present_def
        rbind_eq_Inr split: option.splits)
  then show "\<exists>q. revocation_from_body E (from_publish_request req c l origin t) = Inr q \<and>
      b_visibility (from_publish_request req c l origin t) = Public \<and>
      (kr_trust_class q = RegistryAttested \<longrightarrow>
        b_agent_id (from_publish_request req c l origin t) = cap_registry_did (srv_caps srv)) \<and>
      (\<forall>fp. starts_with ''did:key:'' (sig_key_id (b_signature (from_publish_request req c l origin t))) \<and>
        rbind (resolve_did_key_url E (sig_key_id (b_signature (from_publish_request req c l origin t))))
          (fingerprint_did_key_material E) = Inr fp \<longrightarrow> fp \<noteq> kr_fingerprint q)"
    using r(1) parts(2,6) by (simp add: revocation_of_stored) (simp add: from_publish_request_def)
qed

section \<open>Succession of revocations\<close>

text \<open>\<open>class_kept E x y\<close>: \<open>y\<close> may replace \<open>x\<close> as the newest version as far as revocations are concerned.\<close>

definition class_kept :: "ext \<Rightarrow> body \<Rightarrow> body \<Rightarrow> bool" where
  "class_kept E x y \<longleftrightarrow> (is_key_revocation (b_context_type x) \<longrightarrow> is_key_revocation (b_context_type y) \<and>
     (\<forall>p. revocation_from_body E x = Inr p \<longrightarrow>
        (\<exists>q. revocation_from_body E y = Inr q \<and> kr_trust_class q = kr_trust_class p)))"

lemma admission_class_kept:
  assumes "check_revocation_supersession E v req prev = Inr ()"
  shows "class_kept E prev (from_publish_request req c l origin t)"
proof -
  have ct: "b_context_type (from_publish_request req c l origin t) = pr_context_type req"
    by (simp add: from_publish_request_def)
  show ?thesis
    using assms unfolding class_kept_def ct revocation_of_stored check_revocation_supersession_def
    by (auto simp: rbind_eq_Inr split: if_splits sum.splits)
qed

lemma supersession_admission:
  assumes "supersession_check commit g = Inr v" "pr_supersedes (pc_req commit) = Some prev"
    and "pc_predecessor_admission commit = Some admission"
  shows "\<exists>x. ctx_at g prev = Some x \<and> admission (fc_body x) = Inr ()"
  using assms by (auto simp: supersession_check_def Let_def rbind_eq_Inr ok_or_eq_Inr)

definition rules_inv :: "ext \<Rightarrow> registry_server \<Rightarrow> inner \<Rightarrow> bool" where
  "rules_inv E srv g \<longleftrightarrow> (\<forall>c y. ctx_at g c = Some y \<longrightarrow> revocation_good E srv (fc_body y) \<and>
     (\<forall>prev. b_supersedes (fc_body y) = Some prev \<longrightarrow>
        (\<exists>x. ctx_at g prev = Some x \<and> class_kept E (fc_body x) (fc_body y))))"

lemma rules_step:
  assumes gate: "key_revocation_gate_applies (cap_acdp_version (srv_caps srv))"
    and inv: "rules_inv E srv g" and step: "server_step E srv g g'"
  shows "rules_inv E srv g'"
  unfolding rules_inv_def
proof (intro allI impI)
  note grows = server_step_grows[OF step]
  have carry: "\<exists>x'. ctx_at g' prev = Some x' \<and> class_kept E (fc_body x') b" if "ctx_at g prev = Some x" "class_kept E (fc_body x) b"
    for prev x b using store_growsD[OF grows that(1)] that(2) by (auto simp: evolves_body)
  fix c y
  assume "ctx_at g' c = Some y"
  from server_step_contexts[OF step this]
  show "revocation_good E srv (fc_body y) \<and> (\<forall>prev. b_supersedes (fc_body y) = Some prev \<longrightarrow>
      (\<exists>x. ctx_at g' prev = Some x \<and> class_kept E (fc_body x) (fc_body y)))"
  proof (elim disjE exE conjE)
    fix x
    assume x: "ctx_at g c = Some x" "evolves x y"
    then have "revocation_good E srv (fc_body x)" "\<forall>prev. b_supersedes (fc_body x) = Some prev \<longrightarrow>
      (\<exists>z. ctx_at g prev = Some z \<and> class_kept E (fc_body z) (fc_body x))"
      using inv by (auto simp: rules_inv_def)
    then show ?thesis using carry by (simp add: evolves_body[OF x(2)]) blast
  next
    fix req and p :: proven and uuid now key receipt
    let ?commit = "pending_commit E srv req key (pv_fingerprint p)"
    assume p: "proves E srv req p" and prep: "prepare_publish (x_sha256 E) uuid ?commit now g = Inr (fc_body y, receipt)"
    have pc: "pc_req ?commit = req" by (simp add: pending_commit_def)
    from prep obtain v l where v: "supersession_check ?commit g = Inr v"
      and y: "fc_body y = from_publish_request req (new_ctx_id uuid ?commit) l (pc_authority ?commit) now"
      by (rule prepare_publishD) (simp add: pc)
    have "\<exists>x. ctx_at g' prev = Some x \<and> class_kept E (fc_body x) (fc_body y)" if prev: "pr_supersedes req = Some prev" for prev
    proof -
      have "pc_predecessor_admission ?commit = Some (check_revocation_supersession E (cap_acdp_version (srv_caps srv)) req)"
        using gate prev by (simp add: pending_commit_def)
      with v prev obtain x where "ctx_at g prev = Some x"
        "check_revocation_supersession E (cap_acdp_version (srv_caps srv)) req (fc_body x) = Inr ()"
        using supersession_admission[OF v] pc by auto
      then show ?thesis using carry admission_class_kept unfolding y by blast
    qed
    then show ?thesis using new_revocation_good[OF gate p] y by simp
  qed
qed

text \<open>Runs of a registry whose version turns the gate on, as a transition system.\<close>

definition gated_step :: "ext \<Rightarrow> registry_server \<Rightarrow> inner \<Rightarrow> inner \<Rightarrow> bool" where
  "gated_step E srv g g' \<longleftrightarrow> key_revocation_gate_applies (cap_acdp_version (srv_caps srv)) \<and> server_step E srv g g'"

interpretation rules: transition_system "gated_step E srv" "rules_inv E srv" for E srv
  by unfold_locales (auto simp: gated_step_def intro: rules_step)

lemma served_rules:
  assumes gate: "key_revocation_gate_applies (cap_acdp_version (srv_caps srv))" and served: "served E srv g"
  shows "rules_inv E srv g"
proof -
  have "(gated_step E srv)\<^sup>*\<^sup>* new_store g"
    using served unfolding served_def
    by (rule mono_rtranclp[rule_format, rotated]) (simp add: gated_step_def gate)
  then show ?thesis by (rule rules.steps_inv) (simp add: rules_inv_def new_store_def)
qed

text \<open>A revocation and its successor on the sample registry, for the witnesses.\<close>

definition sample_metadata :: json where
  "sample_metadata = JObject [(''revoked_key_fingerprint'', JString (''sha256:'' @ replicate 64 CHR ''a'')),
     (''compromised_since'', JString ''1970-01-01T00:00:00.000Z'')]"

definition sample_revocation :: "ctx_id option \<Rightarrow> u32 \<Rightarrow> publish_request" where
  "sample_revocation prev v = sample_request\<lparr>pr_context_type := KeyRevocation, pr_metadata := Some sample_metadata,
     pr_supersedes := prev, pr_version := v\<rparr>"

lemma sample_metadata_ok: "validate_metadata sample_ext sample_metadata = Inr ()"
proof -
  let ?fp = "''sha256:'' @ replicate 64 CHR ''a''"
  have canon: "try_canonicalize_value sci sample_metadata =
     Inr (''{'' @ write_string ''compromised_since'' @ '':'' @ write_string ''1970-01-01T00:00:00.000Z'' @ '','' @
        write_string ''revoked_key_fingerprint'' @ '':'' @ write_string ?fp @ ''}'')" for sci
    by (simp add: sample_metadata_def try_canonicalize_value_def write_value.simps MAX_JCS_DEPTH_def)
  have "length (write_string ''compromised_since'') \<le> 200" "length (write_string ''1970-01-01T00:00:00.000Z'') \<le> 200"
    "length (write_string ''revoked_key_fingerprint'') \<le> 200" "length (write_string ?fp) \<le> 500"
    using write_string_length[of "''compromised_since''"] write_string_length[of "''1970-01-01T00:00:00.000Z''"]
      write_string_length[of "''revoked_key_fingerprint''"] write_string_length[of ?fp] by simp_all
  moreover have "json_depth sample_metadata = 1"
    by (simp add: json_depth_def MAX_JSON_DEPTH_SCAN_def sample_metadata_def max_or_0_def eval_nat_numeral)
  ultimately show ?thesis
    unfolding validate_metadata_def validate_json_object_limits_def canon
    by (simp add: sample_metadata_def MAX_METADATA_PROPERTIES_def MAX_METADATA_DEPTH_def MAX_METADATA_JCS_BYTES_def)
qed

lemma sample_revocation_simps [simp]:
  "pr_context_type (sample_revocation prev v) = KeyRevocation" "pr_metadata (sample_revocation prev v) = Some sample_metadata"
  "pr_supersedes (sample_revocation prev v) = prev" "pr_version (sample_revocation prev v) = v"
  "pr_agent_id (sample_revocation prev v) = ''did:key:zA''" "pr_signature (sample_revocation prev v) = pr_signature sample_request"
  "pr_visibility (sample_revocation prev v) = Public" "pr_content_hash (sample_revocation prev v) = sample_hash"
  "pr_data_refs (sample_revocation prev v) = []" "pr_lineage_id (sample_revocation prev v) = None"
  by (simp_all add: sample_revocation_def sample_request_def)

lemma sample_signature [simp]:
  "sig_key_id (pr_signature sample_request) = ''did:key:zA#zA''" "sig_algorithm (pr_signature sample_request) = ''ed25519''"
  by (simp_all add: sample_request_def)

lemma sample_revocation_ok:
  assumes "version_coherent prev v = Inr ()" "opt_check prev (\<lambda>c. void (ctx_id_parse c)) = Inr ()"
  shows "validate_publish_request sample_ext (sample_revocation prev v) = Inr ()"
proof -
  note base = sample_request_ok[unfolded validate_publish_request_def checks_Cons_ok]
  show ?thesis
    unfolding validate_publish_request_def checks_Cons_ok
    by (intro conjI) (use base assms in \<open>simp_all add: sample_metadata_ok sample_revocation_def sample_request_def\<close>)
qed

lemma sample_revocation_hash: "verify_typed_publish_request_hash sample_ext (sample_revocation prev v) = Inr ()"
proof -
  have "publish_request_json sample_ext (sample_revocation prev v) = JObject
    [(''version'', json_nat (unat v)), (''supersedes'', case prev of None \<Rightarrow> JNull | Some c \<Rightarrow> JString c),
     (''agent_id'', JString ''did:key:zA''),
     (''contributors'', JArray []), (''title'', JString ''t''), (''type'', JString ''key-revocation''),
     (''data_refs'', JArray []), (''derived_from'', JArray []), (''visibility'', JString ''public''),
     (''content_hash'', JString sample_hash), (''signature'', signature_json (pr_signature sample_request)),
     (''metadata'', sample_metadata)]"
    by (simp add: publish_request_json_def sample_revocation_def sample_request_def to_map_def opt_member_def
        json_strings_def)
  then show ?thesis
    unfolding verify_typed_publish_request_hash_def
    by simp (rule sample_any_hash, simp add: producer_content_def EXCLUDE_def MAX_JCS_DEPTH_def json_nat_def
        sample_metadata_def split: option.split)
qed

lemma sample_revocation_parses:
  "\<exists>r. revocation_from_request sample_ext (sample_revocation prev v) = Inr r \<and> kr_controller r = ''did:key:zA'' \<and>
     kr_trust_class r = ProducerSigned"
proof -
  have fp: "is_sha256_fingerprint (''sha256:'' @ replicate 64 CHR ''a'')" by code_simp
  have key: "resolve_did_key_url sample_ext ''did:key:zA#zA'' = Inr (Ed25519 (replicate 32 0))"
    by (simp add: resolve_did_key_url_def strip_prefix_def sample_key_ok)
  have "parse_canonical_ms sample_ext ''1970-01-01T00:00:00.000Z'' = Some 0" by (simp add: parse_canonical_ms_def sample_ext_def)
  moreover have "fingerprint_ed25519 sample_ext (replicate 32 0) \<noteq> ''sha256:'' @ replicate 64 CHR ''a''"
    unfolding fingerprint_ed25519_def sample_sha by code_simp
  ultimately show ?thesis
    unfolding revocation_from_request_def from_parts_def using fp key
    by (simp add: sample_metadata_def required_str_def optional_str_def controller_of_def Let_def starts_with_def
        strip_prefix_def check_not_self_signed_def del: replicate.simps)
qed

definition sample_uuid2 :: string where
  "sample_uuid2 = ''00000000-0000-4000-8000-000000000001''"

definition sample_revocation_proof :: "ctx_id option \<Rightarrow> u32 \<Rightarrow> proven" where
  "sample_revocation_proof prev v =
     \<lparr>pv_req = sample_revocation prev v, pv_fingerprint = None, pv_authority = ''r.example''\<rparr>"

lemma sample_gate: "key_revocation_gate_applies (cap_acdp_version sample_caps)"
proof -
  have "advertised ''0.3.0'' 3" by code_simp
  then have "key_revocation_gate_applies ''0.3.0''" by (simp add: gate_advertised)
  then show ?thesis by (simp add: sample_caps_def)
qed

lemma sample_revocation_proved:
  assumes ok: "version_coherent prev v = Inr ()" "prev = None \<or> prev = Some sample_ctx"
  shows "proves sample_ext sample_server (sample_revocation prev v) (sample_revocation_proof prev v)"
proof -
  have authority: "ctx_id_authority sample_ctx = ''r.example''"
    unfolding sample_ctx_def by code_simp
  then have supers: "opt_check prev (\<lambda>c. void (ctx_id_parse c)) = Inr ()"
    using ok(2) sample_ctx_ok by (auto simp: void_def sample_ctx_def)
  have caps: "cap_supported_signature_algorithms sample_caps = [''ed25519'']"
    "cap_supported_did_methods sample_caps = [''did:web'', ''did:key'']"
    "lm_max_payload_bytes (cap_limits sample_caps) = 2048" "cap_registry_did sample_caps = ''did:web:r.example''"
    by (simp_all add: sample_caps_def)
  obtain r where r: "revocation_from_request sample_ext (sample_revocation prev v) = Inr r"
    "kr_controller r = ''did:key:zA''" using sample_revocation_parses by blast
  have same: "check_same_registry (Some ''r.example'') (sample_revocation prev v) = Inr ()"
    using ok(2) authority by (auto simp: check_same_registry_def)
  have ctrl: "rbind (revocation_from_request sample_ext (sample_revocation prev v))
      (check_revocation_controller sample_caps (sample_revocation prev v)) = Inr ()"
    using r by (simp add: check_revocation_controller_def caps controller_present_def sample_metadata_def)
  have "validate_registry_limits_and_crypto sample_ext sample_caps (Some ''r.example'') (sample_revocation prev v) 0 = Inr ()"
    unfolding validate_registry_limits_and_crypto_def checks_Cons_ok sample_revocation_hash same ctrl
    by (simp add: supports_algorithm_def supports_did_method_def caps did_method_of_def check_key_binding_def
        is_interim_key_revocation_form_def)
  moreover have "x_json_len sample_ext w = 0" for w by (simp add: sample_ext_def)
  ultimately have valid: "validate_for_server sample_ext (\<lambda>_. Inr ()) sample_server (sample_revocation prev v) = Inr ()"
    using sample_revocation_ok[OF ok(1) supers]
    by (simp add: validate_for_server_def validate_post_schema_def)
  have "verify_publish_request_signature_offline sample_ext (sample_revocation prev v) = Inr ()"
    by (simp add: verify_publish_request_signature_offline_def did_part_or_all_def Let_def starts_with_def
        strip_prefix_def verify_did_key_envelope_def resolve_did_key_url_def sample_key_ok verify_ed25519_def)
      (simp add: sample_ext_def)
  then have "prove_publish_identity_did_key sample_ext (\<lambda>_. Inr ()) sample_server (sample_revocation prev v) =
      Inr (sample_revocation_proof prev v)"
    using valid by (simp add: prove_publish_identity_did_key_def sample_revocation_proof_def)
  then show ?thesis unfolding proves_def by blast
qed

definition sample_revoked1 :: inner where
  "sample_revoked1 = snd (commit_proven sample_ext sample_server sample_uuid 0 (sample_revocation_proof None 1) None new_store)"

definition sample_revoked2 :: inner where
  "sample_revoked2 =
     snd (commit_proven sample_ext sample_server sample_uuid2 1 (sample_revocation_proof (Some sample_ctx) 2) None sample_revoked1)"

definition sample_ctx2 :: ctx_id where
  "sample_ctx2 = ''acdp://r.example/'' @ sample_uuid2"

definition sample_stored :: "ctx_id option \<Rightarrow> u32 \<Rightarrow> ctx_id \<Rightarrow> instant \<Rightarrow> body" where
  "sample_stored prev v c t = from_publish_request (sample_revocation prev v) c
     (derive_lineage_id (x_sha256 sample_ext) sample_ctx) ''r.example'' t"

lemma sample_stored_simps [simp]:
  "b_ctx_id (sample_stored prev v c t) = c" "b_supersedes (sample_stored prev v c t) = prev"
  "b_lineage_id (sample_stored prev v c t) = derive_lineage_id (x_sha256 sample_ext) sample_ctx"
  "b_version (sample_stored prev v c t) = v" "b_agent_id (sample_stored prev v c t) = ''did:key:zA''"
  "b_context_type (sample_stored prev v c t) = KeyRevocation"
  by (simp_all add: sample_stored_def from_publish_request_def)

lemma sample_pending:
  "pending_commit sample_ext sample_server (sample_revocation prev v) None None =
     \<lparr>pc_req = sample_revocation prev v, pc_authority = ''r.example'', pc_idempotency = None,
      pc_receipt_minter = None, pc_predecessor_admission = (if prev = None then None
        else Some (check_revocation_supersession sample_ext (cap_acdp_version sample_caps) (sample_revocation prev v)))\<rparr>"
  by (simp add: pending_commit_def sample_gate)

lemma sample_revoked1_eq:
  "sample_revoked1 = push_lineage (derive_lineage_id (x_sha256 sample_ext) sample_ctx) sample_ctx
     (insert_ctx sample_ctx (fresh_context (sample_stored None 1 sample_ctx 0) None) new_store)"
  unfolding sample_revoked1_def commit_proven_def commit_via_store_def
  by (simp add: sample_revocation_proof_def sample_pending commit_publish_def idempotency_answer_def prepare_publish_def
      supersession_check_def assign_identifiers_def Let_def new_store_def sample_stored_def sample_ctx_def)

lemma sample_class: "check_revocation_supersession sample_ext v (sample_revocation prev n) (sample_stored None 1 sample_ctx 0) = Inr ()"
  using sample_revocation_parses[of None 1] sample_revocation_parses[of prev n]
  by (auto simp: check_revocation_supersession_def sample_stored_def revocation_of_stored)

lemma sample_revoked2_ctx:
  "ctx_at sample_revoked2 sample_ctx2 = Some (fresh_context (sample_stored (Some sample_ctx) 2 sample_ctx2 1) None)"
proof -
  have ne: "sample_ctx2 \<noteq> sample_ctx" by (simp add: sample_ctx2_def sample_ctx_def sample_uuid_def sample_uuid2_def)
  have c2: "''acdp://r.example/'' @ sample_uuid2 = sample_ctx2" by (simp add: sample_ctx2_def)
  have new: "lineage_at new_store l = None" for l by (simp add: new_store_def)
  have check: "supersession_check (pending_commit sample_ext sample_server (sample_revocation (Some sample_ctx) 2) None None)
      sample_revoked1 = Inr (Some sample_ctx)"
    unfolding sample_revoked1_eq
    by (simp add: sample_pending supersession_check_def sample_class first_version_ctx_id_def new)
  have "prepare_publish (x_sha256 sample_ext) sample_uuid2
      (pending_commit sample_ext sample_server (sample_revocation (Some sample_ctx) 2) None None) 1 sample_revoked1 =
      Inr (sample_stored (Some sample_ctx) 2 sample_ctx2 1, None)"
    unfolding prepare_publish_def check
    by (simp add: sample_pending assign_identifiers_def sample_stored_def Let_def sample_ctx2_def)
      (use ne in \<open>simp add: sample_revoked1_eq sample_ctx2_def new_store_def\<close>)
  then show ?thesis
    unfolding sample_revoked2_def commit_proven_def commit_via_store_def
    using ne by (simp add: sample_revocation_proof_def commit_publish_def idempotency_answer_def Let_def)
      (simp add: sample_pending ctx_at_mark)
qed

lemma sample_revoked_step: "server_step sample_ext sample_server sample_revoked1 sample_revoked2"
proof -
  have uuid: "is_valid_uuid_v4 sample_uuid2" by code_simp
  have "proves sample_ext sample_server (sample_revocation (Some sample_ctx) 2) (sample_revocation_proof (Some sample_ctx) 2)"
    by (rule sample_revocation_proved) (simp_all add: version_coherent_def)
  then show ?thesis
    using uuid prod.collapse[symmetric] unfolding sample_revoked2_def by (rule server_step.publish)
qed

lemma sample_revoked_served: "served sample_ext sample_server sample_revoked2"
proof -
  have uuid: "is_valid_uuid_v4 sample_uuid" by code_simp
  have "proves sample_ext sample_server (sample_revocation None 1) (sample_revocation_proof None 1)"
    by (rule sample_revocation_proved) (simp_all add: version_coherent_def)
  then have "server_step sample_ext sample_server new_store sample_revoked1"
    using uuid prod.collapse[symmetric] unfolding sample_revoked1_def by (rule server_step.publish)
  then show ?thesis
    using sample_revoked_step unfolding served_def by (meson converse_rtranclp_into_rtranclp rtranclp.rtrancl_refl)
qed

lemma sample_revoked1_ctx:
  "\<exists>x. ctx_at sample_revoked2 sample_ctx = Some x \<and> fc_body x = sample_stored None 1 sample_ctx 0"
proof -
  have "ctx_at sample_revoked1 sample_ctx = Some (fresh_context (sample_stored None 1 sample_ctx 0) None)"
    by (simp add: sample_revoked1_eq)
  from store_growsD[OF server_step_grows[OF sample_revoked_step] this] show ?thesis by (auto simp: evolves_body)
qed

lemma good_standard:
  assumes "revocation_good E srv b" "is_key_revocation (b_context_type b)"
    and "b_context_type b = KeyRevocation \<or> key_revocation_retirement_gate_applies (cap_acdp_version (srv_caps srv))"
  shows "b_context_type b = KeyRevocation"
  using assms by (cases "b_context_type b") (auto simp: revocation_good_def is_interim_key_revocation_form_def)

text \<open>
  C28. Stored revocations are genuine. On a registry whose version turns the revocation gate on
  (0.3.0 and later), after any run every stored context of the standard type \<open>key-revocation\<close>
  parses as one, is public, claims to be registry-attested only if the registry itself published
  it, and was not signed with the \<open>did:key\<close> key it revokes. When the retirement gate is on too
  (0.5.0 and later) this holds of every stored key revocation, since then none has the interim
  type \<open>acdp:key-revocation\<close>; between the two versions that type is admitted without shape
  validation.
\<close>

theorem stored_revocations_genuine:
  assumes "key_revocation_gate_applies (cap_acdp_version (srv_caps srv))" "served E srv g"
    and "ctx_at g c = Some y" "is_key_revocation (b_context_type (fc_body y))"
    and "b_context_type (fc_body y) = KeyRevocation \<or>
      key_revocation_retirement_gate_applies (cap_acdp_version (srv_caps srv))"
  shows "\<exists>r. b_context_type (fc_body y) = KeyRevocation \<and>
    revocation_from_body E (fc_body y) = Inr r \<and> b_visibility (fc_body y) = Public \<and>
    (kr_trust_class r = RegistryAttested \<longrightarrow> b_agent_id (fc_body y) = cap_registry_did (srv_caps srv)) \<and>
    (\<forall>fp. starts_with ''did:key:'' (sig_key_id (b_signature (fc_body y))) \<and>
      rbind (resolve_did_key_url E (sig_key_id (b_signature (fc_body y)))) (fingerprint_did_key_material E) = Inr fp \<longrightarrow>
      fp \<noteq> kr_fingerprint r)"
proof -
  have good: "revocation_good E srv (fc_body y)"
    using served_rules[OF assms(1,2)] assms(3) unfolding rules_inv_def by blast
  from good good_standard[OF this assms(4,5)] show ?thesis unfolding revocation_good_def by blast
qed

lemma stored_revocations_genuine_witness:
  "\<exists>r. revocation_from_body sample_ext (sample_stored (Some sample_ctx) 2 sample_ctx2 1) = Inr r \<and>
    b_visibility (sample_stored (Some sample_ctx) 2 sample_ctx2 1) = Public \<and>
    kr_trust_class r \<noteq> RegistryAttested"
proof -
  have "cap_registry_did sample_caps \<noteq> ''did:key:zA''" by (simp add: sample_caps_def)
  then show ?thesis
    using stored_revocations_genuine[OF _ sample_revoked_served sample_revoked2_ctx] by (auto simp: sample_gate)
qed

text \<open>
  C27. A revocation cannot be superseded away. On a registry whose version turns the revocation
  gate on (0.3.0 and later), after any run, whatever supersedes a stored key revocation is itself
  a key revocation; if the superseded one parses, the successor parses and has the same signer
  class. The superseded one does parse when it has the standard type \<open>key-revocation\<close>, or when the
  registry's version has retired the interim type (0.5.0); a stored interim revocation that does
  not parse may be superseded by either class.
\<close>

theorem revocation_superseded_only_by_same_class:
  assumes "key_revocation_gate_applies (cap_acdp_version (srv_caps srv))" "served E srv g"
    and "ctx_at g c = Some y" "b_supersedes (fc_body y) = Some prev"
  shows "\<exists>x. ctx_at g prev = Some x \<and>
    (is_key_revocation (b_context_type (fc_body x)) \<longrightarrow> is_key_revocation (b_context_type (fc_body y)) \<and>
      (\<forall>p. revocation_from_body E (fc_body x) = Inr p \<longrightarrow>
        (\<exists>q. revocation_from_body E (fc_body y) = Inr q \<and> kr_trust_class q = kr_trust_class p)) \<and>
      (b_context_type (fc_body x) = KeyRevocation \<or>
        key_revocation_retirement_gate_applies (cap_acdp_version (srv_caps srv)) \<longrightarrow>
       (\<exists>p. revocation_from_body E (fc_body x) = Inr p)))"
proof -
  note inv = served_rules[OF assms(1,2)]
  obtain x where x: "ctx_at g prev = Some x" "class_kept E (fc_body x) (fc_body y)"
    using inv assms(3,4) unfolding rules_inv_def by blast
  then have good: "revocation_good E srv (fc_body x)" using inv unfolding rules_inv_def by blast
  have "\<exists>p. revocation_from_body E (fc_body x) = Inr p"
    if "is_key_revocation (b_context_type (fc_body x))" "b_context_type (fc_body x) = KeyRevocation \<or>
      key_revocation_retirement_gate_applies (cap_acdp_version (srv_caps srv))"
    using good good_standard[OF good that] unfolding revocation_good_def by blast
  then show ?thesis using x unfolding class_kept_def by blast
qed

lemma revocation_superseded_only_by_same_class_witness:
  "\<exists>x p q. ctx_at sample_revoked2 sample_ctx = Some x \<and> revocation_from_body sample_ext (fc_body x) = Inr p \<and>
    revocation_from_body sample_ext (sample_stored (Some sample_ctx) 2 sample_ctx2 1) = Inr q \<and>
    kr_trust_class q = kr_trust_class p"
proof -
  obtain x where x: "ctx_at sample_revoked2 sample_ctx = Some x" "fc_body x = sample_stored None 1 sample_ctx 0"
    using sample_revoked1_ctx by blast
  have "is_key_revocation (b_context_type (fc_body x))" by (simp add: x(2))
  moreover obtain p where p: "revocation_from_body sample_ext (fc_body x) = Inr p"
    using sample_revocation_parses[of None 1] by (auto simp: x(2) sample_stored_def revocation_of_stored)
  ultimately show ?thesis
    using revocation_superseded_only_by_same_class[OF _ sample_revoked_served sample_revoked2_ctx, of sample_ctx] x(1)
    by (auto simp: sample_gate)
qed

section \<open>The interim form\<close>

text \<open>
  The comment on arm 6b of \<open>check_revocation_supersession\<close> calls the arm unreachable on a registry
  that advertises 0.3.0 or later. It is reachable: between 0.3.0 and 0.5.0 the interim
  \<open>acdp:key-revocation\<close> form is admitted without shape validation, so a body that does not parse is
  stored, and any key revocation of any signer class may then supersede it.
\<close>

definition sample_interim :: publish_request where
  "sample_interim = sample_request\<lparr>pr_context_type := Custom KEY_REVOCATION_INTERIM\<rparr>"

lemma interim_revocation_escapes_class_check:
  "validate_post_schema sample_ext sample_caps (Some ''r.example'') sample_interim 0 = Inr () \<and>
   key_revocation_gate_applies (cap_acdp_version sample_caps) \<and>
   is_key_revocation (b_context_type (from_publish_request sample_interim c l origin t)) \<and>
   revocation_from_body E (from_publish_request sample_interim c l origin t) = Inl SchemaViolation \<and>
   check_revocation_supersession E v (sample_revocation prev n) (from_publish_request sample_interim c l origin t) = Inr ()"
proof -
  have req: "pr_data_refs sample_interim = []" "pr_signature sample_interim = pr_signature sample_request"
    "pr_agent_id sample_interim = ''did:key:zA''" "pr_supersedes sample_interim = None" "pr_metadata sample_interim = None"
    "pr_context_type sample_interim = Custom KEY_REVOCATION_INTERIM" "pr_content_hash sample_interim = sample_hash"
    by (simp_all add: sample_interim_def sample_request_def)
  have caps: "cap_supported_signature_algorithms sample_caps = [''ed25519'']" "cap_acdp_version sample_caps = ''0.3.0''"
    "cap_supported_did_methods sample_caps = [''did:web'', ''did:key'']"
    "lm_max_payload_bytes (cap_limits sample_caps) = 2048" "cap_registry_did sample_caps = ''did:web:r.example''"
    by (simp_all add: sample_caps_def)
  have json: "publish_request_json sample_ext sample_interim = JObject
    [(''version'', json_nat 1), (''supersedes'', JNull), (''agent_id'', JString ''did:key:zA''),
     (''contributors'', JArray []), (''title'', JString ''t''), (''type'', JString KEY_REVOCATION_INTERIM),
     (''data_refs'', JArray []), (''derived_from'', JArray []), (''visibility'', JString ''public''),
     (''content_hash'', JString sample_hash), (''signature'', signature_json (pr_signature sample_request))]"
    by (simp add: publish_request_json_def sample_interim_def sample_request_def to_map_def opt_member_def json_strings_def)
  have hash: "verify_typed_publish_request_hash sample_ext sample_interim = Inr ()"
    unfolding verify_typed_publish_request_hash_def json req
    by (rule sample_any_hash) (simp add: producer_content_def EXCLUDE_def MAX_JCS_DEPTH_def json_nat_def)
  have "\<not> advertised ''0.3.0'' 5" "is_well_formed_version ''0.3.0''" by code_simp+
  then have retired: "\<not> key_revocation_retirement_gate_applies ''0.3.0''" by (simp add: retirement_gate_advertised)
  have lenient: "check_not_self_signed_did_key_lenient sample_ext sample_interim = Inr ()"
    "check_revocation_controller_lenient sample_caps sample_interim = Inr ()"
    by (simp_all add: check_not_self_signed_did_key_lenient_def check_not_self_signed_lenient_def metadata_str_def req
        check_revocation_controller_lenient_def caps split: sum.split)
  have "is_ok (validate_namespaced_context_type KEY_REVOCATION_INTERIM)" by code_simp
  then have ns: "validate_namespaced_context_type KEY_REVOCATION_INTERIM = Inr ()" by (simp add: is_ok_iff)
  note base = sample_request_ok[unfolded validate_publish_request_def checks_Cons_ok]
  have "validate_publish_request sample_ext sample_interim = Inr ()"
    unfolding validate_publish_request_def checks_Cons_ok
    by (intro conjI) (use base ns in \<open>simp_all add: sample_interim_def\<close>)
  moreover have "validate_registry_limits_and_crypto sample_ext sample_caps (Some ''r.example'') sample_interim 0 = Inr ()"
    unfolding validate_registry_limits_and_crypto_def checks_Cons_ok hash
    by (simp add: supports_algorithm_def supports_did_method_def caps did_method_of_def check_key_binding_def req
        check_same_registry_def retired lenient)
  moreover have "revocation_from_body E (from_publish_request sample_interim c l origin t) = Inl SchemaViolation"
    by (simp add: revocation_from_body_def from_parts_def from_publish_request_def req require_def)
  ultimately show ?thesis
    by (simp add: validate_post_schema_def sample_gate check_revocation_supersession_def from_publish_request_def req)
qed

section \<open>Authority over lifecycle state\<close>

lemma signature_roundtrip: "signature_deserialize (signature_json s) = Some s"
  by (simp add: signature_deserialize_def signature_json_def struct_members_def member_str_def)

lemma event_deserialize_fields:
  assumes "event_deserialize E (event_json E e) = Some e'"
  shows "le_signature e' = le_signature e" "le_actor e' = le_actor e" "le_ctx_id e' = le_ctx_id e"
  using assms
  by (auto simp: event_deserialize_def event_json_def struct_members_def member_str_def opt_member_def de_present_def
      signature_roundtrip bind_eq_Some_conv split: option.splits)

text \<open>The event carries a signature of its actor over its own preimage.\<close>

definition actor_signed :: "ext \<Rightarrow> lifecycle_event \<Rightarrow> bool" where
  "actor_signed E e \<longleftrightarrow> (\<exists>s h. le_signature e = Some s \<and> key_id_under (le_actor e) (sig_key_id s) \<and>
     event_preimage_hash E (event_json E e) = Inr h \<and>
     (verify_did_key_envelope E s h = Inr () \<or> (\<exists>resolve. verify_signature_envelope E resolve (le_actor e) s h = Inr ())))"

lemma prechecksD:
  assumes "lifecycle_event_prechecks E (event_json E e) c producer reg = Inr (e', h)" "actor_bound_signature e' = Inr s"
  shows "le_signature e = Some s" "key_id_under (le_actor e) (sig_key_id s)"
    "event_preimage_hash E (event_json E e) = Inr h" "le_actor e' = le_actor e"
proof -
  have h: "event_preimage_hash E (event_json E e) = Inr h" "event_from_value E (event_json E e) = Inr e'"
    using assms(1) by (auto simp: lifecycle_event_prechecks_def rbind_eq_Inr)
  then have "event_deserialize E (event_json E e) = Some e'"
    by (auto simp: event_from_value_def rbind_eq_Inr ok_or_eq_Inr)
  note f = event_deserialize_fields[OF this]
  show "event_preimage_hash E (event_json E e) = Inr h" "le_actor e' = le_actor e" using h f by simp_all
  show "le_signature e = Some s" "key_id_under (le_actor e) (sig_key_id s)"
    using assms(2) f by (auto simp: actor_bound_signature_def rbind_eq_Inr ok_or_eq_Inr split: if_splits)
qed

lemma lifecycle_precheckD:
  assumes "lifecycle_precheck srv e k requester now g = Inr ctx"
  shows "srv_lifecycle_enabled srv"
    "\<exists>x. ctx_at g (le_ctx_id e) = Some x \<and> fc_body ctx = fc_body x \<and> le_actor e = b_agent_id (fc_body x)"
  using assms
  by (auto simp: lifecycle_precheck_def rbind_eq_Inr ok_or_eq_Inr project_context_def elim!: retrieveD)

text \<open>Both provers accept an event only from the producer of the context, over a signature of that producer.\<close>

definition producer_event :: "ext \<Rightarrow> registry_server \<Rightarrow> inner \<Rightarrow> lifecycle_event \<Rightarrow> bool" where
  "producer_event E srv g e \<longleftrightarrow> srv_lifecycle_enabled srv \<and> actor_signed E e \<and>
     (\<exists>x. ctx_at g (le_ctx_id e) = Some x \<and> le_actor e = b_agent_id (fc_body x))"

lemma online_producer_event:
  assumes "prove_lifecycle_identity E resolve srv e ep requester now g = Inr p"
  shows "pl_event p = e \<and> producer_event E srv g e"
proof -
  from assms obtain ctx where c: "lifecycle_precheck srv e (expected_event_type ep) requester now g = Inr ctx"
    and v: "is_ok (verify_lifecycle_event E resolve (event_json E e) (le_ctx_id e) (b_agent_id (fc_body ctx)) None)"
    and p: "pl_event p = e"
    by (auto simp: prove_lifecycle_identity_def rbind_eq_Inr)
  from v obtain e' h s where h: "lifecycle_event_prechecks E (event_json E e) (le_ctx_id e) (b_agent_id (fc_body ctx)) None = Inr (e', h)"
    "actor_bound_signature e' = Inr s" "verify_signature_envelope E resolve (le_actor e') s h = Inr ()"
    by (auto simp: verify_lifecycle_event_def rbind_eq_Inr is_ok_iff)
  then have "actor_signed E e" using prechecksD[OF h(1,2)] unfolding actor_signed_def by metis
  then show ?thesis using lifecycle_precheckD[OF c] p by (auto simp: producer_event_def)
qed

lemma offline_producer_event:
  assumes "prove_lifecycle_identity_did_key E srv e ep requester now g = Inr p"
  shows "pl_event p = e \<and> producer_event E srv g e"
proof -
  from assms obtain ctx where c: "lifecycle_precheck srv e (expected_event_type ep) requester now g = Inr ctx"
    and v: "is_ok (verify_lifecycle_event_offline E (event_json E e) (le_ctx_id e) (b_agent_id (fc_body ctx)) None)"
    and p: "pl_event p = e"
    by (auto simp: prove_lifecycle_identity_did_key_def rbind_eq_Inr)
  from v obtain e' h s where h: "lifecycle_event_prechecks E (event_json E e) (le_ctx_id e) (b_agent_id (fc_body ctx)) None = Inr (e', h)"
    "actor_bound_signature e' = Inr s" "verify_did_key_envelope E s h = Inr ()"
    by (auto simp: verify_lifecycle_event_offline_def rbind_eq_Inr is_ok_iff)
  then have "actor_signed E e" using prechecksD[OF h(1,2)] unfolding actor_signed_def by metis
  then show ?thesis using lifecycle_precheckD[OF c] p by (auto simp: producer_event_def)
qed

text \<open>Which event a step appends to the history of a context, and who is behind it.\<close>

lemma lifecycle_appends:
  assumes "commit_lifecycle_event e now g = (r, g')" "ctx_at g c = Some x" "ctx_at g' c = Some y"
    and "events_of y \<noteq> events_of x"
  shows "events_of y = events_of x @ [e] \<and> le_ctx_id e = c"
  using assms(1)
proof (cases rule: lifecycle_cases)
  case (2 z)
  then show ?thesis using assms(2-4) by (auto split: if_splits)
qed (use assms(2-4) in simp)

lemma publish_keeps_events:
  assumes "commit_proven E srv uuid now p key g = (r, g')" "ctx_at g c = Some x" "ctx_at g' c = Some y"
  shows "events_of y = events_of x"
  using assms(1)
proof (cases rule: commit_proven_cases)
  case (2 r0)
  from 2(1) show ?thesis
  proof (cases rule: commit_publish_cases)
    case c: (2 b receipt)
    have new: "ctx_at g (b_ctx_id b) = None" by (rule prepare_publishD[OF c(2)]) simp
    then show ?thesis using assms(2,3) c(3) by (auto simp: ctx_at_published split: option.splits if_splits)
  qed (use assms(2,3) in auto)
qed (use assms(2,3) in simp)

lemma producer_event_appends:
  assumes "producer_event E srv g0 (pl_event p)" "store_grows g0 g" "commit_lifecycle_proven srv p now g = (r, g')"
    and "ctx_at g c = Some x" "ctx_at g' c = Some y" "events_of y \<noteq> events_of x"
  shows "events_of y = events_of x @ [pl_event p] \<and> le_actor (pl_event p) = b_agent_id (fc_body x)"
proof -
  have "commit_lifecycle_event (pl_event p) now g = (r, g')"
    using assms(3-6) by (auto simp: commit_lifecycle_proven_def split: if_splits)
  note e = lifecycle_appends[OF this assms(4-6)]
  from assms(1) e obtain x0 where "ctx_at g0 c = Some x0" "le_actor (pl_event p) = b_agent_id (fc_body x0)"
    by (auto simp: producer_event_def)
  then show ?thesis using e store_growsD[OF assms(2)] assms(4) by (fastforce simp: evolves_body)
qed

lemma registry_eventD:
  assumes "record_registry_lifecycle_event srv e now g = (r, g')" "g' \<noteq> g"
  shows "srv_lifecycle_enabled srv" "le_actor e = cap_registry_did (srv_caps srv)"
    "commit_lifecycle_event e now g = (r, g')"
  using assms by (auto simp: record_registry_lifecycle_event_def rbind_eq_Inr require_eq_Inr split: sum.splits)

text \<open>
  C26. Only the producer or the registry changes the lifecycle state of a context. Whenever an operation
  of the registry changes the event history of a stored context, it appends one event, lifecycle
  support is enabled, and the event is either an act of the registry under its own identifier or an
  act of the context's producer, whose key signed the event's preimage; publishes never touch it.
\<close>

theorem lifecycle_changes_authorized:
  assumes "server_step E srv g g'" "ctx_at g c = Some x" "ctx_at g' c = Some y" "events_of y \<noteq> events_of x"
  shows "\<exists>e. events_of y = events_of x @ [e] \<and> srv_lifecycle_enabled srv \<and>
    (le_actor e = cap_registry_did (srv_caps srv) \<or> le_actor e = b_agent_id (fc_body x) \<and> actor_signed E e)"
  using assms(1)
proof (cases rule: server_step.cases)
  case publish
  then show ?thesis using publish_keeps_events assms(2-4) by blast
next
  case (endpoint resolve e ep requester now g0 p now' r')
  note ev = online_producer_event[OF endpoint(1)]
  then show ?thesis using producer_event_appends[OF _ endpoint(2,3) assms(2-4)] by (auto simp: producer_event_def)
next
  case (endpoint_did_key e ep requester now g0 p now' r')
  note ev = offline_producer_event[OF endpoint_did_key(1)]
  then show ?thesis using producer_event_appends[OF _ endpoint_did_key(2,3) assms(2-4)] by (auto simp: producer_event_def)
next
  case (registry_event e now r')
  have "g' \<noteq> g" using assms(2-4) by auto
  note e = registry_eventD[OF registry_event this]
  then show ?thesis using lifecycle_appends[OF e(3) assms(2-4)] by auto
qed

definition sample_act :: lifecycle_event where
  "sample_act = \<lparr>le_event_id = sample_uuid, le_ctx_id = sample_ctx, le_event_type = EvRetracted, le_occurred_at = 0,
     le_actor = ''did:web:r.example'', le_reason = None, le_signature = None\<rparr>"

lemma lifecycle_changes_authorized_witness:
  "\<exists>e. [sample_act] = [] @ [e] \<and> srv_lifecycle_enabled (sample_server\<lparr>srv_lifecycle_enabled := True\<rparr>) \<and>
    (le_actor e = cap_registry_did (srv_caps (sample_server\<lparr>srv_lifecycle_enabled := True\<rparr>)) \<or>
     le_actor e = b_agent_id (fc_body (fresh_context sample_body None)) \<and> actor_signed sample_ext e)"
proof -
  let ?srv = "sample_server\<lparr>srv_lifecycle_enabled := True\<rparr>"
  have "is_ok (lifecycle_event_validate sample_act)" by code_simp
  then have valid: "lifecycle_event_validate sample_act = Inr ()" by (simp add: is_ok_iff)
  have "commit_lifecycle_event sample_act 1 sample_state = (Inr (Applied (project_context
      (append_event sample_act (fresh_context sample_body None)) 1)),
      insert_ctx sample_ctx (append_event sample_act (fresh_context sample_body None)) sample_state)"
    unfolding commit_lifecycle_event_def
    using sample_commit(2) by (simp add: sample_act_def retraction_state_def Let_def check_transition_def)
  then have "record_registry_lifecycle_event ?srv sample_act 1 sample_state = (Inr (Applied (project_context
      (append_event sample_act (fresh_context sample_body None)) 1)),
      insert_ctx sample_ctx (append_event sample_act (fresh_context sample_body None)) sample_state)"
    using valid by (simp add: record_registry_lifecycle_event_def) (simp add: sample_act_def sample_caps_def)
  then have "server_step sample_ext ?srv sample_state
      (insert_ctx sample_ctx (append_event sample_act (fresh_context sample_body None)) sample_state)"
    by (rule server_step.registry_event)
  from lifecycle_changes_authorized[OF this sample_commit(2), of "append_event sample_act (fresh_context sample_body None)"]
  show ?thesis by simp
qed

end
