(* ===== verification/Acdp_Receipt_Correct.thy ===== *)
theory Acdp_Receipt_Correct
  imports Acdp_Registry_Rules
begin

text \<open>
  Receipts, end to end: what a registry mints is what a consumer accepts. The signature scheme and
  the date formatter are parameters; the two facts used of them are \<open>key_published\<close> (signatures of the
  key verify under the verification method that publishes it) and \<open>time_roundtrip\<close> (the formatted
  instant has the canonical form and parses back).
\<close>

section \<open>Minted receipts\<close>

definition key_published :: "ext \<Rightarrow> signing_key \<Rightarrow> verification_method \<Rightarrow> bool" where
  "key_published E k m \<longleftrightarrow>
     (case k of
        SigningKey _ \<Rightarrow> (\<exists>pk. ed25519_public_key_bytes E m = Inr pk \<and>
          (\<forall>h. verify_ed25519 E pk (snd (sign_content_hash E k h)) h = Inr ()))
      | P256SigningKey _ \<Rightarrow> (\<exists>pk. ecdsa_p256_public_key_sec1 E m = Inr pk \<and> is_ok (fingerprint_p256_sec1 E pk) \<and>
          (\<forall>h. verify_ecdsa_p256 E pk (snd (sign_content_hash E k h)) h = Inr ())))"

definition time_roundtrip :: "ext \<Rightarrow> instant \<Rightarrow> bool" where
  "time_roundtrip E t \<longleftrightarrow> is_canonical_ms_utc E (x_fmt_ms E t) \<and> x_parse_rfc3339 E (x_fmt_ms E t) = Some t"

text \<open>The registry's DID document serves the signer's key.\<close>

definition signer_published :: "ext \<Rightarrow> web_resolver \<Rightarrow> receipt_signer \<Rightarrow> bool" where
  "signer_published E resolve signer \<longleftrightarrow>
     (\<exists>fragment doc fresh m. split_once CHR ''#'' (sg_key_id signer) = Some (sg_registry_did signer, fragment) \<and>
        fragment \<noteq> [] \<and> resolve (sg_registry_did signer) = Inr (doc, fresh) \<and> find_by_fragment doc fragment = Some m \<and>
        key_published E (sg_key signer) m)"

lemma map_err_simps [simp]: "map_err e (Inr x) = Inr x" "map_err e (Inl e') = Inl e"
  by (simp_all add: map_err_def)

lemma ms_truncated_trunc [simp]: "ms_truncated (trunc_ms t)"
  by (simp add: ms_truncated_def trunc_ms_def)

lemma envelope_simps [simp]:
  "sig_key_id (signed_envelope E signer h) = sg_key_id signer"
  "sig_algorithm (signed_envelope E signer h) = key_algorithm (sg_key signer)"
  "sig_value (signed_envelope E signer h) = snd (sign_content_hash E (sg_key signer) h)"
  by (cases "sg_key signer"; simp add: signed_envelope_def unsigned_envelope_def)+

text \<open>The preimage does not depend on the signature, and it always canonicalizes.\<close>

lemma receipt_preimage_unsigned [simp]: "receipt_preimage_hash E (r\<lparr>rr_signature := s\<rparr>) = receipt_preimage_hash E r"
  by (simp add: receipt_preimage_hash_def receipt_preimage_hash_of_value_def preimage_hash_of_object_def
      preimage_hash_of_object_with_def receipt_json_def preimage_hash_of_map_def)

lemma head_preimage_unsigned [simp]:
  "head_receipt_preimage_hash E (r\<lparr>lr_signature := s\<rparr>) = head_receipt_preimage_hash E r"
  by (simp add: head_receipt_preimage_hash_def head_receipt_preimage_hash_of_value_def preimage_hash_of_object_def
      preimage_hash_of_object_with_def head_receipt_json_def preimage_hash_of_map_def)

lemma preimage_hash_total:
  "depth (JObject (filter (\<lambda>(k, _). k \<noteq> ''signature'') ms)) \<le> MAX_JCS_DEPTH \<Longrightarrow> is_ok (preimage_hash_of_map E ms)"
  by (simp add: preimage_hash_of_map_def try_canonicalize_value_def write_value_render)

lemma receipt_preimage_total: "is_ok (receipt_preimage_hash E r)"
  unfolding receipt_preimage_hash_def receipt_preimage_hash_of_value_def preimage_hash_of_object_def
    preimage_hash_of_object_with_def receipt_json_def as_object.simps ok_or_simps rbind_simps
  by (rule preimage_hash_total) (simp add: json_ms_def MAX_JCS_DEPTH_def)

lemma head_preimage_total: "is_ok (head_receipt_preimage_hash E r)"
  unfolding head_receipt_preimage_hash_def head_receipt_preimage_hash_of_value_def preimage_hash_of_object_def
    preimage_hash_of_object_with_def head_receipt_json_def as_object.simps ok_or_simps rbind_simps
  by (rule preimage_hash_total) (simp add: json_ms_def json_nat_def MAX_JCS_DEPTH_def)

lemma mint_total: "\<exists>r. mint E signer c l origin t h fp = Inr r"
  by (simp add: mint_def Let_def rbind_eq_Inr receipt_preimage_total[unfolded is_ok_iff])

lemma receipt_roundtrip:
  "time_roundtrip E (rr_created_at r) \<Longrightarrow> receipt_from_value E (receipt_json E r) = Inr r \<and>
     validate_created_at_form E (receipt_json E r) = Inr ()"
  by (simp add: receipt_from_value_def receipt_deserialize_def receipt_json_def struct_members_def member_str_def
      member_ms_def json_ms_def time_roundtrip_def signature_roundtrip validate_created_at_form_def raw_ms_form_def
      get_str_def json_get_def)

lemma u32_roundtrip: "as_u32 (json_nat (unat (n :: u32))) = Some n"
proof -
  have "unat n < 2 ^ 32" using unat_less[of n] by simp
  moreover have "unat (of_nat (unat n) :: u64) = unat n"
    unfolding unat_of_nat using unat_less[of n] by (simp del: of_nat_unat)
  ultimately show ?thesis by (simp add: as_u32_def json_nat_def)
qed

text \<open>A signature made with the signer's key over the hash of the value verifies under its method.\<close>

lemma method_verifies:
  assumes "key_published E k m" "sig_algorithm s = key_algorithm k" "sig_value s = snd (sign_content_hash E k h)"
  shows "verify_with_receipt_method E m (sig_algorithm s) err
      (\<lambda>ed p256. verify_signature_over_hash_with E s h ed p256 err') = Inr ()"
    and "is_ok (fingerprint_verification_method E m (sig_algorithm s))"
  using assms
  by (cases k; auto simp: key_published_def verify_with_receipt_method_def verify_signature_over_hash_with_def
      fingerprint_verification_method_def simp del: sign_content_hash.simps)+

lemma minted_receipt_verifies:
  assumes mint: "mint E signer c l origin t h fp = Inr r" and pub: "signer_published E resolve signer"
    and time: "time_roundtrip E (trunc_ms t)" and did: "sg_registry_did signer = authority_to_did_web origin"
    and body: "b_lineage_id b = l" "b_origin_registry b = origin" "b_created_at b = trunc_ms t"
  shows "\<exists>p. verify_receipt_placed E resolve (receipt_json E r) c b h fp origin = Inr p \<and> pp_receipt p = r"
proof -
  from mint obtain r0 hash where r: "r = r0\<lparr>rr_signature := signed_envelope E signer hash\<rparr>"
    and hash: "receipt_preimage_hash E r0 = Inr hash"
    and r0: "rr_registry_did r0 = sg_registry_did signer" "rr_ctx_id r0 = c" "rr_lineage_id r0 = l"
      "rr_origin_registry r0 = origin" "rr_created_at r0 = trunc_ms t" "rr_content_hash r0 = h" "rr_key_fingerprint r0 = fp"
    unfolding mint_def Let_def rbind_eq_Inr by fastforce
  from pub obtain fragment doc fresh m where
    k: "split_once CHR ''#'' (sg_key_id signer) = Some (sg_registry_did signer, fragment)"
      "resolve (sg_registry_did signer) = Inr (doc, fresh)" "find_by_fragment doc fragment = Some m"
      "key_published E (sg_key signer) m"
    by (auto simp: signer_published_def)
  have rt: "receipt_from_value E (receipt_json E r) = Inr r" "validate_created_at_form E (receipt_json E r) = Inr ()"
    using receipt_roundtrip[of E r] time r r0 by simp_all
  have raw: "receipt_preimage_hash_of_value E (receipt_json E r) = Inr hash"
    using hash unfolding r receipt_preimage_hash_def[symmetric] by simp
  note sig = method_verifies[OF k(4), of "rr_signature r" hash, unfolded r, simplified]
  obtain kfp where kfp: "fingerprint_verification_method E m (key_algorithm (sg_key signer)) = Inr kfp"
    using sig(2) by (auto simp: is_ok_iff)
  have "verify_with_receipt_method E m (key_algorithm (sg_key signer)) InvalidReceipt
      (receipt_verify_against_hash E r hash) = Inr ()"
    using sig(1) unfolding receipt_verify_against_hash_def verify_receipt_signature_over_hash_def r by simp
  then show ?thesis
    unfolding verify_receipt_placed_def rt raw
    by (simp add: r r0 k kfp did[symmetric] body cross_check_def cross_check_body_def resolve_receipt_key_with_status_def)
qed

section \<open>Receipts of a registry\<close>

text \<open>A registry with a receipt signer under its own identifier, as the constructors make it.\<close>

definition receipts_configured :: "registry_server \<Rightarrow> receipt_signer \<Rightarrow> bool" where
  "receipts_configured srv signer \<longleftrightarrow>
     srv_receipt_signer srv = Some signer \<and> sg_registry_did signer = authority_to_did_web (srv_authority srv)"

lemma constructed_configured:
  assumes "try_new caps authority = Inr s" "with_receipt_signer signer s = Inr srv"
  shows "receipts_configured srv signer" "is_valid_dns_authority (srv_authority srv)"
  using assms
  by (auto simp: try_new_def with_receipt_signer_def rbind_eq_Inr receipts_configured_def add_profile_def split: if_splits)

definition receipt_good :: "ext \<Rightarrow> registry_server \<Rightarrow> full_context \<Rightarrow> bool" where
  "receipt_good E srv x \<longleftrightarrow>
     rs_status (fc_registry_state x) \<in> {Active, Superseded} \<and> 1 \<le> b_version (fc_body x) \<and>
     ctx_id_authority (b_ctx_id (fc_body x)) = srv_authority srv \<and> b_origin_registry (fc_body x) = srv_authority srv \<and>
     trunc_ms (b_created_at (fc_body x)) = b_created_at (fc_body x) \<and>
     (\<forall>signer. srv_receipt_signer srv = Some signer \<longrightarrow>
        (\<exists>req p fp r. proves E srv req p \<and> pv_fingerprint p = Some fp \<and> b_signature (fc_body x) = pr_signature req \<and>
           mint E signer (b_ctx_id (fc_body x)) (b_lineage_id (fc_body x)) (b_origin_registry (fc_body x))
             (b_created_at (fc_body x)) (b_content_hash (fc_body x)) fp = Inr r \<and>
           fc_registry_receipt x = Some (receipt_json E r)))"

lemma receipt_good_evolves: "receipt_good E srv x \<Longrightarrow> evolves x y \<Longrightarrow> receipt_good E srv y"
  by (auto simp: receipt_good_def evolves_def)

lemma accepted_version:
  assumes "validate_publish_request E req = Inr ()"
  shows "1 \<le> pr_version req"
proof -
  have "version_coherent (pr_supersedes req) (pr_version req) = Inr ()"
    using assms unfolding validate_publish_request_def checks_Cons_ok by blast
  moreover have "1 \<le> v" if "2 \<le> v" for v :: u32 using that by (simp add: word_le_nat_alt)
  ultimately show ?thesis by (auto simp: version_coherent_def split: option.splits if_splits)
qed

definition receipt_inv :: "ext \<Rightarrow> registry_server \<Rightarrow> inner \<Rightarrow> bool" where
  "receipt_inv E srv g \<longleftrightarrow> (\<forall>c x. ctx_at g c = Some x \<longrightarrow> receipt_good E srv x)"

lemma new_receipt_good:
  assumes ok: "server_ok E srv" and p: "proves E srv req p" and uuid: "is_valid_uuid_v4 uuid"
    and prep: "prepare_publish (x_sha256 E) uuid (pending_commit E srv req key (pv_fingerprint p)) now g =
      Inr (fc_body y, fc_registry_receipt y)"
    and st: "rs_status (fc_registry_state y) \<in> {Active, Superseded}"
    and fp: "srv_receipt_signer srv \<noteq> None \<longrightarrow> pv_fingerprint p \<noteq> None"
  shows "receipt_good E srv y"
proof -
  from prep obtain l where b: "fc_body y = from_publish_request req (''acdp://'' @ srv_authority srv @ ''/'' @ uuid) l (srv_authority srv) now"
    by (rule prepared_body)
  have minted: "\<exists>fp r. pv_fingerprint p = Some fp \<and> mint E signer (b_ctx_id (fc_body y)) (b_lineage_id (fc_body y))
      (b_origin_registry (fc_body y)) (b_created_at (fc_body y)) (b_content_hash (fc_body y)) fp = Inr r \<and>
      fc_registry_receipt y = Some (receipt_json E r)"
    if s: "srv_receipt_signer srv = Some signer" for signer
  proof -
    from s fp obtain f where f: "pv_fingerprint p = Some f" by auto
    then show ?thesis using minted_receipt[OF prep] s by (fastforce simp: pending_commit_def rbind_eq_Inr)
  qed
  have "ctx_id_authority (''acdp://'' @ srv_authority srv @ ''/'' @ uuid) = srv_authority srv"
    using assigned_ctx_ok(2)[OF _ uuid] ok by (simp add: server_ok_def)
  then have "1 \<le> b_version (fc_body y)" "ctx_id_authority (b_ctx_id (fc_body y)) = srv_authority srv"
    "b_origin_registry (fc_body y) = srv_authority srv" "trunc_ms (b_created_at (fc_body y)) = b_created_at (fc_body y)"
    "b_signature (fc_body y) = pr_signature req"
    using accepted_version[OF provesD(3)[OF p]] by (simp_all add: b from_publish_request_def)
  then show ?thesis unfolding receipt_good_def using st minted p by metis
qed

lemma receipt_step:
  assumes ok: "server_ok E srv" and inv: "receipt_inv E srv g" and step: "server_step E srv g g'"
  shows "receipt_inv E srv g'"
  unfolding receipt_inv_def
proof (intro allI impI)
  fix c y
  assume "ctx_at g' c = Some y"
  from server_step_contexts[OF step this] show "receipt_good E srv y"
  proof (elim disjE exE conjE)
    fix x
    assume "ctx_at g c = Some x" "evolves x y"
    then show ?thesis using inv receipt_good_evolves unfolding receipt_inv_def by blast
  qed (use new_receipt_good[OF ok] in blast)
qed

interpretation receipts: transition_system "guarded_step E srv" "receipt_inv E srv" for E srv
  by unfold_locales (auto simp: guarded_step_def intro: receipt_step)

lemma served_receipts: "server_ok E srv \<Longrightarrow> served E srv g \<Longrightarrow> ctx_at g c = Some x \<Longrightarrow> receipt_good E srv x"
  using receipts.steps_inv[OF served_guarded, of E srv g] by (simp add: receipt_inv_def new_store_def)

text \<open>A registry with a receipt key, one publish on it and the registry's DID document, for the witnesses.\<close>

definition sample_signer :: receipt_signer where
  "sample_signer = \<lparr>sg_key = SigningKey [], sg_key_id = ''did:web:r.example#k'', sg_registry_did = ''did:web:r.example''\<rparr>"

definition sample_attesting :: registry_server where
  "sample_attesting = sample_server\<lparr>srv_receipt_signer := Some sample_signer, srv_mint_head_receipts := True\<rparr>"

definition sample_fp :: string where
  "sample_fp = fingerprint_ed25519 sample_ext (replicate 32 0)"

text \<open>The store of the attesting registry after one publish, and the body it then holds.\<close>

definition attested_proof :: "publish_request \<Rightarrow> proven" where
  "attested_proof req = \<lparr>pv_req = req, pv_fingerprint = Some sample_fp, pv_authority = ''r.example''\<rparr>"

definition attested_store :: "publish_request \<Rightarrow> inner" where
  "attested_store req = snd (commit_proven sample_ext sample_attesting sample_uuid 0 (attested_proof req) None new_store)"

definition attested_body :: "publish_request \<Rightarrow> body" where
  "attested_body req = from_publish_request req sample_ctx (derive_lineage_id (x_sha256 sample_ext) sample_ctx) ''r.example'' 0"

definition sample_attested :: inner where
  "sample_attested = attested_store sample_request"

definition sample_resolver :: web_resolver where
  "sample_resolver did =
     Inr (\<lparr>doc_id = ''did:web:r.example'', doc_methods = [\<lparr>vm_id = ''did:web:r.example#k'', vm_type = ''Multikey'',
       vm_controller = ''did:web:r.example'', vm_public_key_jwk = None, vm_public_key_multibase = Some ''zA''\<rparr>],
       doc_assertion = [MethodId ''did:web:r.example#k''], doc_services = []\<rparr>, True)"

lemma sample_attesting_simps [simp]:
  "srv_caps sample_attesting = sample_caps" "srv_authority sample_attesting = ''r.example''"
  "srv_receipt_signer sample_attesting = Some sample_signer" "srv_mint_head_receipts sample_attesting"
  by (simp_all add: sample_attesting_def)

lemma sample_attesting_ok: "server_ok sample_ext sample_attesting" "receipts_configured sample_attesting sample_signer"
  using sample_server_ok
  by (simp_all add: server_ok_def receipts_configured_def sample_signer_def authority_to_did_web_def)

lemma sample_time: "time_roundtrip sample_ext 0"
  by (simp add: time_roundtrip_def is_canonical_ms_utc_def sample_ext_def)

lemma sample_published: "signer_published sample_ext sample_resolver sample_signer"
proof -
  have "key_published sample_ext (SigningKey [])
      \<lparr>vm_id = ''did:web:r.example#k'', vm_type = ''Multikey'', vm_controller = ''did:web:r.example'',
       vm_public_key_jwk = None, vm_public_key_multibase = Some ''zA''\<rparr>"
    by (simp add: key_published_def ed25519_public_key_bytes_def extract_from_multibase_def sample_ext_def starts_with_def
        strip_prefix_def verify_ed25519_def)
  moreover have "split_once CHR ''#'' ''did:web:r.example#k'' = Some (''did:web:r.example'', ''k'')"
    "fragment_of ''did:web:r.example#k'' = Some ''k''" "\<not> starts_with KEYLESS_FRAGMENT_PREFIX ''k''" by code_simp+
  ultimately show ?thesis
    by (auto simp: signer_published_def sample_signer_def sample_resolver_def find_by_fragment_def)
qed

lemma attested_store_state:
  assumes req: "pr_supersedes req = None"
  shows "\<exists>v. ctx_at (attested_store req) sample_ctx = Some (fresh_context (attested_body req) (Some v)) \<and>
     lineage_at (attested_store req) (b_lineage_id (attested_body req)) = Some [sample_ctx]"
proof -
  have c: "''acdp://r.example/'' @ sample_uuid = sample_ctx" by (simp add: sample_ctx_def)
  let ?b = "from_publish_request req sample_ctx (derive_lineage_id (x_sha256 sample_ext) sample_ctx) ''r.example'' 0"
  obtain r where r: "mint sample_ext sample_signer (b_ctx_id ?b) (b_lineage_id ?b) (b_origin_registry ?b) (b_created_at ?b)
      (b_content_hash ?b) sample_fp = Inr r"
    using mint_total by blast
  let ?c = "pending_commit sample_ext sample_attesting req None (Some sample_fp)"
  have pc: "pc_req ?c = req" "pc_authority ?c = ''r.example''" "pc_idempotency ?c = None"
    by (simp_all add: pending_commit_def)
  have "prepare_publish (x_sha256 sample_ext) sample_uuid ?c 0 new_store = Inr (?b, Some (receipt_json sample_ext r))"
    using r unfolding prepare_publish_def supersession_check_def assign_identifiers_def pc req
    by (simp add: Let_def c[simplified] new_store_def req) (simp add: pending_commit_def)
  then show ?thesis
    unfolding attested_store_def attested_proof_def commit_proven_def commit_via_store_def
    by (simp add: pc req commit_publish_def idempotency_answer_def Let_def attested_body_def) (auto simp: new_store_def)
qed

lemma attested_store_served:
  assumes "validate_for_server sample_ext (\<lambda>_. Inr ()) sample_attesting req = Inr ()"
    and "verify_publish_request_signature_offline sample_ext req = Inr ()" "pr_agent_id req = ''did:key:zA''"
  shows "served sample_ext sample_attesting (attested_store req)"
proof -
  have "prove_publish_identity_did_key sample_ext (\<lambda>_. Inr ()) sample_attesting req = Inr (attested_proof req)"
    using assms by (simp add: prove_publish_identity_did_key_def resolve_did_key_def strip_prefix_def
        sample_key_ok sample_fp_def attested_proof_def)
  then have "proves sample_ext sample_attesting req (attested_proof req)" by (auto simp: proves_def)
  moreover have "is_valid_uuid_v4 sample_uuid" by code_simp
  ultimately have "server_step sample_ext sample_attesting new_store (attested_store req)"
    using prod.collapse[symmetric] unfolding attested_store_def by (rule server_step.publish)
  then show ?thesis unfolding served_def by (rule r_into_rtranclp)
qed

lemma sample_attested_state:
  "\<exists>v. ctx_at sample_attested sample_ctx = Some (fresh_context sample_body (Some v)) \<and>
     lineage_at sample_attested (b_lineage_id sample_body) = Some [sample_ctx]"
  using attested_store_state[of sample_request]
  by (simp add: sample_attested_def sample_body_def attested_body_def sample_request_def)

lemma sample_attested_served: "served sample_ext sample_attesting sample_attested"
  unfolding sample_attested_def
  by (rule attested_store_served[OF _ sample_request_signature]) (simp_all add: sample_valid, simp add: sample_request_def)

lemma sample_attested_retrieved:
  "\<exists>v. retrieve sample_attesting sample_ctx None 0 sample_attested = Some (project_context (fresh_context sample_body (Some v)) 0)"
  using sample_attested_state
  by (auto simp: retrieve_def store_get_def can_retrieve_def sample_body_def from_publish_request_def sample_request_def
      sample_caps_def project_context_def)

lemma served_receipt_accepted:
  assumes "server_ok E srv" "receipts_configured srv signer" "served E srv g" "retrieve srv c requester now g = Some ctx"
    and "signer_published E resolve signer" "time_roundtrip E (b_created_at (fc_body ctx))"
  shows "\<exists>v fp placed req p. fc_registry_receipt ctx = Some v \<and>
    proves E srv req p \<and> pv_fingerprint p = Some fp \<and> pr_signature req = b_signature (fc_body ctx) \<and>
    verify_receipt_placed E resolve v c (fc_body ctx) (b_content_hash (fc_body ctx)) fp (srv_authority srv) = Inr placed"
proof -
  from assms(4) obtain x where x: "ctx_at g c = Some x" "ctx = project_context x now" by (rule retrieveD)
  have body: "fc_body ctx = fc_body x" "fc_registry_receipt ctx = fc_registry_receipt x"
    using x(2) by (simp_all add: project_context_def)
  have c: "b_ctx_id (fc_body x) = c" using served_inv[OF assms(1,3)] x(1) by (simp add: server_inv_def context_good_def)
  have srv: "srv_receipt_signer srv = Some signer" "sg_registry_did signer = authority_to_did_web (srv_authority srv)"
    using assms(2) by (simp_all add: receipts_configured_def)
  have good: "receipt_good E srv x" by (rule served_receipts[OF assms(1,3) x(1)])
  then obtain req p fp r where r: "proves E srv req p" "pv_fingerprint p = Some fp" "b_signature (fc_body x) = pr_signature req"
      "mint E signer c (b_lineage_id (fc_body x)) (srv_authority srv) (b_created_at (fc_body x)) (b_content_hash (fc_body x)) fp = Inr r"
      "fc_registry_receipt x = Some (receipt_json E r)"
    unfolding receipt_good_def using srv(1) c by auto
  have "\<exists>q. verify_receipt_placed E resolve (receipt_json E r) c (fc_body x) (b_content_hash (fc_body x)) fp (srv_authority srv) = Inr q \<and>
      pp_receipt q = r"
    by (rule minted_receipt_verifies[OF r(4) assms(5)])
      (use assms(6) good srv(2) body in \<open>auto simp: receipt_good_def\<close>)
  then show ?thesis using r body by metis
qed

text \<open>
  C12. Served receipts verify. On a registry with a receipt signer under its own identifier, after any
  run, every retrieved context carries a receipt that a consumer accepts: the closed parse, all
  cross-checks against the retrieved body and its content hash, the served authority, and the signature
  under the key in the registry's DID document; the key fingerprint it binds is the one the registry
  established when it proved the publish request with that signature.
\<close>

theorem served_receipts_verify:
  assumes "server_ok E srv" "receipts_configured srv signer" "served E srv g" "retrieve srv c requester now g = Some ctx"
    and "signer_published E resolve signer" "time_roundtrip E (b_created_at (fc_body ctx))"
  shows "\<exists>v fp placed req p. fc_registry_receipt ctx = Some v \<and>
    proves E srv req p \<and> pv_fingerprint p = Some fp \<and> pr_signature req = b_signature (fc_body ctx) \<and>
    verify_receipt_placed E resolve v c (fc_body ctx) (b_content_hash (fc_body ctx)) fp (srv_authority srv) = Inr placed"
  by (rule served_receipt_accepted[OF assms])

lemma served_receipts_verify_witness:
  "\<exists>v fp placed. verify_receipt_placed sample_ext sample_resolver v sample_ctx sample_body
     (b_content_hash sample_body) fp ''r.example'' = Inr placed"
proof -
  obtain v where v: "retrieve sample_attesting sample_ctx None 0 sample_attested =
      Some (project_context (fresh_context sample_body (Some v)) 0)"
    using sample_attested_retrieved by blast
  have body: "fc_body (project_context (fresh_context sample_body (Some v)) 0) = sample_body"
    by (simp add: project_context_def)
  have "b_created_at sample_body = 0"
    by (simp add: sample_body_def from_publish_request_def trunc_ms_def timestamp_millis_def)
  then show ?thesis
    using served_receipts_verify[OF sample_attesting_ok sample_attested_served v sample_published]
    by (auto simp: body sample_time)
qed

section \<open>Head receipts\<close>

lemma did_web_prefix: "starts_with ''did:web:'' (authority_to_did_web a)"
  unfolding authority_to_did_web_def starts_with_def strip_prefix_append by simp

lemma minted_head_verifies:
  assumes mint: "mint_lineage_head E signer l c n st t = Inr r" and pub: "signer_published E resolve signer"
    and time: "time_roundtrip E (trunc_ms t)" and did: "sg_registry_did signer = authority_to_did_web authority"
    and st: "status_parse (status_as_str st) = Inr st" and skew: "trunc_ms t \<le> now + skew"
  shows "verify_lineage_head_receipt_value E resolve (head_receipt_json E r) l c n st True authority
    (sg_registry_did signer) skew now = Inr r"
proof -
  have ok: "st \<notin> {Superseded, Retracted}" "\<not> n < 1" "authority_to_did_web (ctx_id_authority c) = sg_registry_did signer"
    using mint by (auto simp: mint_lineage_head_def rbind_eq_Inr)
  from mint obtain r0 hash where r: "r = r0\<lparr>lr_signature := signed_envelope E signer hash\<rparr>"
    and hash: "head_receipt_preimage_hash E r0 = Inr hash"
    and r0: "lr_receipt_version r0 = LINEAGE_HEAD_RECEIPT_VERSION" "lr_registry_did r0 = sg_registry_did signer"
      "lr_lineage_id r0 = l" "lr_head_ctx_id r0 = c" "lr_head_version r0 = n" "lr_head_status r0 = status_as_str st"
      "lr_as_of r0 = trunc_ms t"
    unfolding mint_lineage_head_def Let_def rbind_eq_Inr by fastforce
  from pub obtain fragment doc fresh m where
    k: "split_once CHR ''#'' (sg_key_id signer) = Some (sg_registry_did signer, fragment)" "fragment \<noteq> []"
      "resolve (sg_registry_did signer) = Inr (doc, fresh)" "find_by_fragment doc fragment = Some m"
      "key_published E (sg_key signer) m"
    by (auto simp: signer_published_def)
  have "head_receipt_deserialize E (head_receipt_json E r) = Some r"
    using time u32_roundtrip[of n]
    by (simp add: head_receipt_deserialize_def head_receipt_json_def struct_members_def member_str_def member_ms_def
        json_ms_def time_roundtrip_def signature_roundtrip r r0)
  moreover have "validate_as_of_form E (head_receipt_json E r) = Inr ()"
    using time by (simp add: validate_as_of_form_def raw_ms_form_def get_str_def json_get_def head_receipt_json_def
        json_ms_def time_roundtrip_def r r0)
  ultimately have parse: "head_receipt_from_value E (head_receipt_json E r) = Inr r"
    using ok st did_web_prefix by (simp add: head_receipt_from_value_def r r0 did)
  have raw: "head_receipt_preimage_hash_of_value E (head_receipt_json E r) = Inr hash"
    using hash unfolding r head_receipt_preimage_hash_def[symmetric] by simp
  have "verify_with_receipt_method E m (key_algorithm (sg_key signer)) InvalidReceipt
      (head_receipt_verify_against_hash E r hash) = Inr ()"
    using method_verifies(1)[OF k(5), of "lr_signature r" hash, unfolded r, simplified]
    unfolding head_receipt_verify_against_hash_def verify_receipt_signature_over_hash_def r by simp
  then show ?thesis
    unfolding verify_lineage_head_receipt_value_def parse raw
    using ok(3) skew
    by (simp add: r r0 k did[symmetric] head_cross_check_registry_binding_def cross_check_lineage_def cross_check_head_def
        resolve_receipt_key_doc_def resolve_with_fragment_def check_as_of_skew_def key_id_under_def)
qed

text \<open>The candidate \<open>current\<close> picks is a projected stored context of the requested lineage.\<close>

lemma lineage_members:
  "ctx \<in> set (store_lineage l now g) \<Longrightarrow> \<exists>c x. ctx_at g c = Some x \<and> ctx = project_context x now"
  by (fastforce simp: store_lineage_def List.map_filter_def split: option.splits)

lemma head_mintable:
  assumes "receipts_configured srv signer" "receipt_good E srv x" "st \<notin> {Superseded, Retracted}"
  shows "\<exists>r. mint_lineage_head E signer l (b_ctx_id (fc_body x)) (b_version (fc_body x)) st t = Inr r"
  using assms head_preimage_total
  by (auto simp: mint_lineage_head_def Let_def receipts_configured_def receipt_good_def is_ok_iff rbind_eq_Inr
      linorder_not_less[symmetric])

text \<open>
  The current version is always served with a head receipt that verifies. On a registry that
  mints head receipts, after any run, \<open>current\<close> never fails, and when it answers with a context, that
  context carries a head receipt which a consumer accepts as describing exactly the served version,
  number and status of the requested lineage, within the allowed clock skew.
\<close>

theorem current_head_receipt_verifies:
  assumes "server_ok E srv" "receipts_configured srv signer" "srv_mint_head_receipts srv" "served E srv g"
    and "signer_published E resolve signer" "time_roundtrip E (trunc_ms mint_now)" "trunc_ms mint_now \<le> now' + skew"
  shows "\<exists>answer. server_current E srv l requester now mint_now g = Inr answer \<and>
    (\<forall>ctx. answer = Some ctx \<longrightarrow> (\<exists>v r. fc_lineage_head_receipt ctx = Some v \<and>
      verify_lineage_head_receipt_value E resolve v l (b_ctx_id (fc_body ctx)) (b_version (fc_body ctx))
        (rs_status (fc_registry_state ctx)) True (srv_authority srv) (sg_registry_did signer) skew now' = Inr r))"
proof (cases "find (\<lambda>ctx. rs_status (fc_registry_state ctx) \<notin> {Superseded, Retracted} \<and>
    can_retrieve (fc_body ctx) requester (srv_caps srv)) (rev (store_lineage l now g))")
  case None
  then show ?thesis by (simp add: server_current_def)
next
  case (Some ctx)
  let ?st = "rs_status (fc_registry_state ctx)"
  have live: "?st \<notin> {Superseded, Retracted}" and "ctx \<in> set (store_lineage l now g)"
    using Some by (auto simp: find_Some_iff) (metis nth_mem set_rev length_rev)
  then obtain c x where x: "ctx_at g c = Some x" "ctx = project_context x now" using lineage_members by blast
  have good: "receipt_good E srv x" by (rule served_receipts[OF assms(1,4) x(1)])
  have body: "fc_body ctx = fc_body x" by (simp add: x(2) project_context_def)
  have "?st \<in> {Active, Expired}"
    using good live by (auto simp: x(2) project_context_def receipt_good_def project_status_def split: option.splits if_splits)
  then have st: "status_parse (status_as_str ?st) = Inr ?st" by (auto simp: status_parse_def)
  have srv: "srv_receipt_signer srv = Some signer" "sg_registry_did signer = authority_to_did_web (srv_authority srv)"
    using assms(2) by (simp_all add: receipts_configured_def)
  obtain r where r: "mint_lineage_head E signer l (b_ctx_id (fc_body x)) (b_version (fc_body x)) ?st mint_now = Inr r"
    using head_mintable[OF assms(2) good live] by blast
  have "server_current E srv l requester now mint_now g = Inr (Some (ctx\<lparr>fc_lineage_head_receipt := Some (head_receipt_json E r)\<rparr>))"
    using Some assms(3) srv(1) r by (simp add: server_current_def body)
  then show ?thesis
    using minted_head_verifies[OF r assms(5,6) srv(2) st assms(7)] by (simp add: body)
qed

lemma current_head_receipt_verifies_witness:
  "\<exists>ctx v r. server_current sample_ext sample_attesting (b_lineage_id sample_body) None 0 0 sample_attested = Inr (Some ctx) \<and>
     verify_lineage_head_receipt_value sample_ext sample_resolver v (b_lineage_id sample_body) (b_ctx_id (fc_body ctx))
       (b_version (fc_body ctx)) (rs_status (fc_registry_state ctx)) True ''r.example'' ''did:web:r.example'' 120 0 = Inr r"
proof -
  have t: "trunc_ms 0 = 0" by (simp add: trunc_ms_def timestamp_millis_def)
  obtain answer where a: "server_current sample_ext sample_attesting (b_lineage_id sample_body) None 0 0 sample_attested = Inr answer"
    "\<forall>ctx. answer = Some ctx \<longrightarrow> (\<exists>v r. fc_lineage_head_receipt ctx = Some v \<and>
      verify_lineage_head_receipt_value sample_ext sample_resolver v (b_lineage_id sample_body) (b_ctx_id (fc_body ctx))
       (b_version (fc_body ctx)) (rs_status (fc_registry_state ctx)) True ''r.example'' ''did:web:r.example'' 120 0 = Inr r)"
    using current_head_receipt_verifies[OF sample_attesting_ok _ sample_attested_served sample_published, of 0 0 120
        "b_lineage_id sample_body" None 0]
    by (auto simp: t sample_time sample_signer_def)
  have "answer \<noteq> None"
    using a(1) sample_attested_state
    by (auto simp: server_current_def store_lineage_def List.map_filter_def can_retrieve_def project_context_def
        sample_body_def from_publish_request_def sample_request_def sample_caps_def project_status_def is_retracted_def
        fresh_context_def active_state_def rbind_eq_Inr split: if_splits)
  then show ?thesis using a by blast
qed

end
