(* ===== verification/Acdp_Log_Correct.thy ===== *)
theory Acdp_Log_Correct
  imports Acdp_Log Acdp_Receipt_Correct Acdp_Merkle_Correct
begin

text \<open>
  The transparency log, end to end: the log only grows and holds one leaf per context; every
  checkpoint and proof it serves is accepted by a consumer; and a leaf a consumer accepts under a
  genuine root is the logged leaf, or two explicit SHA-256 inputs collide.
\<close>

section \<open>Digests in hexadecimal\<close>

lemma hex_value_digit: "n < 16 \<Longrightarrow> hex_value (hex_digit n) = n"
proof -
  have "\<forall>n<16. hex_value (hex_digit n) = n" by code_simp
  then show "n < 16 \<Longrightarrow> hex_value (hex_digit n) = n" by blast
qed

lemma hex_decode_encode: "hex_decode (hex_encode bs) = bs"
proof (induction bs)
  case (Cons b bs)
  have "unat b div 16 < 16" using unat_less[of b] by simp
  then have "of_nat (16 * hex_value (hex_digit (unat b div 16)) + hex_value (hex_digit (unat b mod 16))) = b"
    by (simp only: hex_value_digit[of "unat b div 16"] hex_value_digit[of "unat b mod 16"] mod_less_divisor zero_less_numeral
        mult_div_mod_eq) simp
  then show ?case using Cons by (simp add: hex_byte_def)
qed simp

lemma decode_encode: "length d = 32 \<Longrightarrow> decode_sha256_hex (encode_sha256_hex d) = Inr d"
  using hex_encode_ok[of d]
  by (simp add: decode_sha256_hex_def encode_sha256_hex_def strip_prefix_append[of "''sha256:''", simplified]
      hex_decode_encode is_lowercase_hex_def)

lemma hex_decode_length: "length (hex_decode s) = length s div 2"
  by (induction s rule: hex_decode.induct) auto

lemma decode_length: "decode_sha256_hex s = Inr d \<Longrightarrow> length d = 32"
  by (auto simp: decode_sha256_hex_def rbind_eq_Inr hex_decode_length)

lemma decode_path_digests: "decode_path ps = Inr ds \<Longrightarrow> digests ds"
  by (induction ps arbitrary: ds) (auto simp: rbind_eq_Inr decode_length)

lemma decode_path_encode: "digests ds \<Longrightarrow> decode_path (map encode_sha256_hex ds) = Inr ds"
  by (induction ds) (auto simp: decode_encode)

section \<open>Runs of a log\<close>

lemma leaf_json_total: "\<exists>h. log_leaf_hash E l = Inr h"
  by (simp add: log_leaf_hash_def canonical_bytes_def leaf_json_def try_canonicalize_value_def write_value_render json_ms_def
      MAX_JCS_DEPTH_def)

definition log_inv :: "ext \<Rightarrow> merkle_log \<Rightarrow> bool" where
  "log_inv E lg \<longleftrightarrow> is_ok (parse_log_id (ml_log_id lg)) \<and>
     map (log_leaf_hash E) (ml_leaves lg) = map Inr (ml_leaf_hashes lg) \<and>
     ml_ctx_ids lg = ll_ctx_id ` set (ml_leaves lg) \<and> distinct (map ll_ctx_id (ml_leaves lg)) \<and>
     (\<forall>l\<in>set (ml_leaves lg). ll_leaf_version l = LOG_LEAF_VERSION \<and>
        ctx_id_authority (ll_ctx_id l) = ll_origin_registry l \<and>
        (\<exists>inst. parse_log_id (ml_log_id lg) = Inr (authority_to_did_web (ll_origin_registry l), inst)))"

definition log_grows :: "merkle_log \<Rightarrow> merkle_log \<Rightarrow> bool" where
  "log_grows lg lg' \<longleftrightarrow> ml_log_id lg' = ml_log_id lg \<and> prefix (ml_leaves lg) (ml_leaves lg') \<and>
     prefix (ml_leaf_hashes lg) (ml_leaf_hashes lg')"

definition log_step :: "ext \<Rightarrow> merkle_log \<Rightarrow> merkle_log \<Rightarrow> bool" where
  "log_step E lg lg' \<longleftrightarrow> (\<exists>leaf r. log_append E leaf lg = (r, lg'))"

lemma admitD:
  assumes "log_admit E leaf0 lg = Inr (leaf, hash)"
  shows "leaf_from_value E (leaf_json E leaf0) = Inr leaf" "ll_ctx_id leaf \<notin> ml_ctx_ids lg"
    "ctx_id_authority (ll_ctx_id leaf) = ll_origin_registry leaf"
    "\<exists>inst. parse_log_id (ml_log_id lg) = Inr (authority_to_did_web (ll_origin_registry leaf), inst)"
    "log_leaf_hash E leaf = Inr hash" "ll_leaf_version leaf = LOG_LEAF_VERSION"
proof -
  have 1: "leaf_from_value E (leaf_json E leaf0) = Inr leaf" using assms by (auto simp: log_admit_def rbind_eq_Inr)
  then show "leaf_from_value E (leaf_json E leaf0) = Inr leaf" "ll_leaf_version leaf = LOG_LEAF_VERSION"
    by (auto simp: leaf_from_value_def rbind_eq_Inr)
  show "ll_ctx_id leaf \<notin> ml_ctx_ids lg" "ctx_id_authority (ll_ctx_id leaf) = ll_origin_registry leaf"
    "\<exists>inst. parse_log_id (ml_log_id lg) = Inr (authority_to_did_web (ll_origin_registry leaf), inst)"
    "log_leaf_hash E leaf = Inr hash"
    using assms 1 by (auto simp: log_admit_def rbind_eq_Inr)
qed

lemma append_cases:
  assumes "log_append E leaf0 lg = (r, lg')"
  obtains e where "r = Inl e" "lg' = lg"
  | leaf hash where "log_admit E leaf0 lg = Inr (leaf, hash)" "r = Inr (of_nat (length (ml_leaves lg)))"
      "lg' = log_push leaf hash lg"
  using assms by (cases "log_admit E leaf0 lg") (auto simp: log_append_def split: prod.splits)

lemma push_simps [simp]:
  "ml_leaves (log_push l h lg) = ml_leaves lg @ [l]" "ml_leaf_hashes (log_push l h lg) = ml_leaf_hashes lg @ [h]"
  "ml_ctx_ids (log_push l h lg) = insert (ll_ctx_id l) (ml_ctx_ids lg)" "ml_log_id (log_push l h lg) = ml_log_id lg"
  by (simp_all add: log_push_def)

lemma log_step_inv: "log_inv E lg \<Longrightarrow> log_step E lg lg' \<Longrightarrow> log_inv E lg'"
  unfolding log_step_def
proof (elim exE)
  fix leaf0 r
  assume inv: "log_inv E lg" and step: "log_append E leaf0 lg = (r, lg')"
  from step show "log_inv E lg'"
  proof (cases rule: append_cases)
    case (2 leaf hash)
    note a = admitD[OF 2(1)]
    then show ?thesis using inv unfolding 2(3) log_inv_def push_simps by auto
  qed (use inv in simp)
qed

lemma log_step_grows: "log_step E lg lg' \<Longrightarrow> log_grows lg lg'"
  by (auto simp: log_step_def log_grows_def elim!: append_cases)

interpretation transparency: growing_system "log_step E" "log_inv E" log_grows for E
  by unfold_locales
    (auto simp: log_grows_def intro: log_step_inv dest: log_step_grows prefix_order.trans)

lemma new_log_inv: "merkle_log_new i = Inr lg \<Longrightarrow> log_inv E lg"
  by (auto simp: merkle_log_new_def rbind_eq_Inr log_inv_def)

lemma log_hashes:
  assumes "log_inv E lg"
  shows "length (ml_leaf_hashes lg) = length (ml_leaves lg)"
    "k < length (ml_leaves lg) \<Longrightarrow> log_leaf_hash E (ml_leaves lg ! k) = Inr (ml_leaf_hashes lg ! k)"
proof -
  have m: "map (log_leaf_hash E) (ml_leaves lg) = map Inr (ml_leaf_hashes lg)" using assms by (simp add: log_inv_def)
  then show len: "length (ml_leaf_hashes lg) = length (ml_leaves lg)" by (metis length_map)
  show "k < length (ml_leaves lg) \<Longrightarrow> log_leaf_hash E (ml_leaves lg ! k) = Inr (ml_leaf_hashes lg ! k)"
    using m len by (metis nth_map)
qed

lemma log_digests:
  assumes "\<And>x. length (x_sha256 E x) = 32" "log_inv E lg"
  shows "digests (ml_leaf_hashes lg)"
proof -
  have "length h = 32" if "log_leaf_hash E l = Inr h" for l h
    using that assms(1) by (auto simp: log_leaf_hash_def leaf_hash_def rbind_eq_Inr)
  then show ?thesis
    using log_hashes[OF assms(2)] by (metis digests_def in_set_conv_nth)
qed

text \<open>A log of one leaf, for the witnesses.\<close>

definition sample_leaf :: log_leaf where
  "sample_leaf = \<lparr>ll_leaf_version = LOG_LEAF_VERSION, ll_ctx_id = ''acdp://r.example/1'', ll_lineage_id = [],
     ll_origin_registry = ''r.example'', ll_created_at = 0, ll_content_hash = [], ll_key_fingerprint = [], ll_receipt_hash = []\<rparr>"

definition sample_log_id :: string where
  "sample_log_id = ''did:web:r.example/log/a''"

definition sample_empty_log :: merkle_log where
  "sample_empty_log = \<lparr>ml_log_id = sample_log_id, ml_leaves = [], ml_leaf_hashes = [], ml_ctx_ids = {}\<rparr>"

text \<open>The log after one append of a leaf to the sample log.\<close>

definition log_of :: "log_leaf \<Rightarrow> merkle_log" where
  "log_of l = log_push l (replicate 32 0) sample_empty_log"

definition sample_log :: merkle_log where
  "sample_log = log_of sample_leaf"

lemma sample_log_id_parsed: "parse_log_id sample_log_id = Inr (''did:web:r.example'', ''a'')"
proof -
  have "is_ok (parse_log_id sample_log_id) \<and> projr (parse_log_id sample_log_id) = (''did:web:r.example'', ''a'')" by code_simp
  then show ?thesis by (cases "parse_log_id sample_log_id") simp_all
qed

lemma sample_log_new: "merkle_log_new sample_log_id = Inr sample_empty_log"
  by (simp add: merkle_log_new_def sample_log_id_parsed sample_empty_log_def)

lemma sample_leaf_hash: "log_leaf_hash sample_ext l = Inr (replicate 32 0)"
  using leaf_json_total[of sample_ext l]
  by (auto simp: log_leaf_hash_def leaf_hash_def sample_ext_def rbind_eq_Inr)

lemma leaf_roundtrip:
  assumes "time_roundtrip E (ll_created_at l)" "ll_leaf_version l = LOG_LEAF_VERSION"
  shows "leaf_from_value E (leaf_json E l) = Inr l"
  using assms
  by (simp add: leaf_from_value_def leaf_deserialize_def leaf_json_def struct_members_def member_str_def member_ms_def
      json_ms_def time_roundtrip_def raw_ms_form_def get_str_def json_get_def)

lemma log_of_run:
  assumes "ll_leaf_version l = LOG_LEAF_VERSION" "ll_created_at l = 0" "ctx_id_authority (ll_ctx_id l) = ''r.example''"
    "ll_origin_registry l = ''r.example''"
  shows "(log_step sample_ext)\<^sup>*\<^sup>* sample_empty_log (log_of l)"
proof -
  have "log_admit sample_ext l sample_empty_log = Inr (l, replicate 32 0)"
    using leaf_roundtrip[of sample_ext l] sample_time assms
    by (simp add: log_admit_def sample_empty_log_def sample_log_id_parsed sample_leaf_hash require_def authority_to_did_web_def)
  then have "log_append sample_ext l sample_empty_log = (Inr (of_nat (length (ml_leaves sample_empty_log))), log_of l)"
    by (simp add: log_append_def log_of_def)
  then have "log_step sample_ext sample_empty_log (log_of l)" unfolding log_step_def by blast
  then show ?thesis by (rule r_into_rtranclp)
qed

lemma sample_log_run: "(log_step sample_ext)\<^sup>*\<^sup>* sample_empty_log sample_log"
proof -
  have "ctx_id_authority ''acdp://r.example/1'' = ''r.example''" by code_simp
  then show ?thesis unfolding sample_log_def by (intro log_of_run) (simp_all add: sample_leaf_def)
qed

lemma log_of_simps [simp]:
  "ml_leaves (log_of l) = [l]" "ml_leaf_hashes (log_of l) = [replicate 32 0]" "ml_log_id (log_of l) = sample_log_id"
  "ml_leaves sample_empty_log = []"
  by (simp_all add: log_of_def sample_empty_log_def)

lemma sample_log_simps [simp]:
  "ml_leaves sample_log = [sample_leaf]" "ml_leaf_hashes sample_log = [replicate 32 0]" "ml_log_id sample_log = sample_log_id"
  by (simp_all add: sample_log_def)

text \<open>
  C15. The log is append-only, with one leaf per context: after any appends, accepted or refused, every
  leaf keeps its index and content, the stored hash of a leaf is the hash of its canonical text, no
  context has two leaves, and every leaf names this log's registry as its origin.
\<close>

theorem log_append_only:
  assumes "merkle_log_new i = Inr start" "(log_step E)\<^sup>*\<^sup>* start lg" "(log_step E)\<^sup>*\<^sup>* lg lg'" "k < length (ml_leaves lg)"
  shows "ml_log_id lg' = i \<and> k < length (ml_leaves lg') \<and> ml_leaves lg' ! k = ml_leaves lg ! k \<and>
    log_leaf_hash E (ml_leaves lg' ! k) = Inr (ml_leaf_hashes lg' ! k) \<and>
    distinct (map ll_ctx_id (ml_leaves lg')) \<and> ctx_id_authority (ll_ctx_id (ml_leaves lg' ! k)) = ll_origin_registry (ml_leaves lg' ! k) \<and>
    (\<exists>inst. parse_log_id i = Inr (authority_to_did_web (ll_origin_registry (ml_leaves lg' ! k)), inst))"
proof -
  note start = new_log_inv[OF assms(1), of E]
  have inv: "log_inv E lg" by (rule transparency.steps_inv[OF assms(2) start])
  then have inv': "log_inv E lg'" by (rule transparency.steps_inv[OF assms(3)])
  have "log_grows start lg" "log_grows lg lg'"
    using transparency.steps_grow assms(2,3) start inv by blast+
  moreover have "ml_log_id start = i" using assms(1) by (auto simp: merkle_log_new_def rbind_eq_Inr)
  ultimately have g: "ml_log_id lg' = i" "prefix (ml_leaves lg) (ml_leaves lg')" by (auto simp: log_grows_def)
  then have k: "k < length (ml_leaves lg')" "ml_leaves lg' ! k = ml_leaves lg ! k"
    using assms(4) by (auto simp: prefix_def nth_append)
  have "\<forall>l\<in>set (ml_leaves lg'). ctx_id_authority (ll_ctx_id l) = ll_origin_registry l \<and>
      (\<exists>inst. parse_log_id i = Inr (authority_to_did_web (ll_origin_registry l), inst))"
    using inv' g(1) by (simp add: log_inv_def)
  then show ?thesis
    using g(1) k log_hashes(2)[OF inv' k(1)] nth_mem[OF k(1)] inv' by (simp add: log_inv_def)
qed

theorem log_append_only_witness:
  "ml_log_id sample_log = sample_log_id \<and> distinct (map ll_ctx_id (ml_leaves sample_log)) \<and>
   log_leaf_hash sample_ext sample_leaf = Inr (replicate 32 0) \<and> 0 < length (ml_leaves sample_log)"
  using log_append_only[OF sample_log_new sample_log_run rtranclp.rtrancl_refl, of 0] by simp

section \<open>Served checkpoints and proofs\<close>

lemma checkpoint_preimage_unsigned [simp]:
  "checkpoint_preimage_hash E (c\<lparr>lc_signature := s\<rparr>) = checkpoint_preimage_hash E c"
  by (simp add: checkpoint_preimage_hash_def checkpoint_preimage_hash_of_value_def preimage_hash_of_object_with_def
      checkpoint_json_def preimage_hash_of_map_def)

lemma checkpoint_preimage_total: "\<exists>h. checkpoint_preimage_hash E c = Inr h"
  unfolding checkpoint_preimage_hash_def checkpoint_preimage_hash_of_value_def preimage_hash_of_object_with_def
    checkpoint_json_def as_object.simps ok_or_simps rbind_simps is_ok_iff[symmetric]
  by (rule preimage_hash_total) (simp add: json_ms_def MAX_JCS_DEPTH_def)

lemma checkpoint_roundtrip:
  "time_roundtrip E (lc_timestamp c) \<Longrightarrow> checkpoint_deserialize E (checkpoint_json E c) = Some c \<and>
     raw_ms_form E (checkpoint_json E c) ''timestamp'' e = Inr ()"
  by (simp add: checkpoint_deserialize_def checkpoint_json_def struct_members_def member_str_def member_ms_def json_ms_def
      time_roundtrip_def signature_roundtrip raw_ms_form_def get_str_def json_get_def)

text \<open>A checkpoint that was minted for a log under the registry's own identifier verifies.\<close>

lemma minted_checkpoint:
  assumes pid: "parse_log_id i = Inr (sg_registry_did signer, inst)" and len: "length rt = 32"
    and pub: "signer_published E resolve signer" and time: "time_roundtrip E (trunc_ms t)"
    and did: "sg_registry_did signer = authority_to_did_web authority" and skew: "trunc_ms t \<le> now + skew"
  obtains cp where "mint_log_checkpoint E signer i n (encode_sha256_hex rt) t = Inr cp"
    "lc_log_id cp = i" "lc_tree_size cp = n" "root_hash_bytes cp = Inr rt" "lc_root_hash cp = encode_sha256_hex rt"
    "lc_timestamp cp = trunc_ms t" "checkpoint_from_value E (checkpoint_json E cp) = Inr cp"
    "verify_log_checkpoint_value E resolve (checkpoint_json E cp) authority (sg_registry_did signer) skew now = Inr cp"
proof -
  define c0 where "c0 = \<lparr>lc_checkpoint_version = LOG_CHECKPOINT_VERSION, lc_log_id = i, lc_tree_size = n,
    lc_root_hash = encode_sha256_hex rt, lc_timestamp = trunc_ms t, lc_signature = unsigned_envelope signer\<rparr>"
  obtain hash where hash: "checkpoint_preimage_hash E c0 = Inr hash" using checkpoint_preimage_total by blast
  define cp where "cp = c0\<lparr>lc_signature := signed_envelope E signer hash\<rparr>"
  have mint: "mint_log_checkpoint E signer i n (encode_sha256_hex rt) t = Inr cp"
    using hash by (simp add: mint_log_checkpoint_def pid decode_encode[OF len] cp_def c0_def Let_def)
  from pub obtain fragment doc fresh m where
    k: "split_once CHR ''#'' (sg_key_id signer) = Some (sg_registry_did signer, fragment)" "fragment \<noteq> []"
      "resolve (sg_registry_did signer) = Inr (doc, fresh)" "find_by_fragment doc fragment = Some m"
      "key_published E (sg_key signer) m"
    by (auto simp: signer_published_def)
  have did_of: "checkpoint_registry_did cp = Inr (sg_registry_did signer)"
    using k(1,2) pid by (simp add: checkpoint_registry_did_def cp_def c0_def key_id_under_def)
  have parse: "checkpoint_from_value E (checkpoint_json E cp) = Inr cp"
    using checkpoint_roundtrip[of E cp InvalidLogProof] time did_of pid
    by (simp add: checkpoint_from_value_def cp_def c0_def decode_encode[OF len])
  have raw: "checkpoint_preimage_hash_of_value E (checkpoint_json E cp) = Inr hash"
    using hash unfolding cp_def checkpoint_preimage_hash_def[symmetric] by simp
  have "verify_with_receipt_method E m (key_algorithm (sg_key signer)) InvalidLogProof
      (checkpoint_verify_against_hash E cp hash) = Inr ()"
    using method_verifies(1)[OF k(5), of "lc_signature cp" hash, unfolded cp_def, simplified]
    unfolding checkpoint_verify_against_hash_def cp_def by simp
  moreover have "sig_key_id (lc_signature cp) = sg_key_id signer" "sig_algorithm (lc_signature cp) = key_algorithm (sg_key signer)"
    "lc_timestamp cp = trunc_ms t"
    by (simp_all add: cp_def c0_def)
  moreover have "checkpoint_cross_check cp authority (sg_registry_did signer) = Inr ()"
    by (simp add: checkpoint_cross_check_def did_of did[symmetric] require_def)
  ultimately have "verify_log_checkpoint_value E resolve (checkpoint_json E cp) authority (sg_registry_did signer) skew now = Inr cp"
    unfolding verify_log_checkpoint_value_def parse rbind_simps raw
    using skew k by (simp add: check_timestamp_skew_def require_def)
  then show thesis
    using that[OF mint _ _ _ _ _ parse] by (simp add: cp_def c0_def root_hash_bytes_def decode_encode[OF len])
qed

lemma digests_subproof:
  assumes "\<And>x. length (sha256 x) = 32"
  shows "digests d \<Longrightarrow> digests (subproof sha256 m d b)"
  using assms
proof (induction sha256 m d b rule: subproof.induct)
  case (1 sha256 m d b)
  then show ?case
    using length_merkle_tree_hash[of sha256]
    by (subst subproof.simps) (simp add: Let_def)
qed

lemma strings_roundtrip: "as_strings (json_strings xs) = Some xs"
  by (induction xs) (auto simp: json_strings_def)

lemma inclusion_roundtrip:
  assumes "checkpoint_from_value E (checkpoint_json E (li_log_checkpoint i)) = Inr (li_log_checkpoint i)"
    and "li_leaf i = None" "li_tree_size i \<noteq> 0"
  shows "inclusion_from_value E (inclusion_json E i) = Inr i \<and>
    json_get (inclusion_json E i) ''log_checkpoint'' = Some (checkpoint_json E (li_log_checkpoint i))"
proof -
  have "checkpoint_deserialize E (checkpoint_json E (li_log_checkpoint i)) = Some (li_log_checkpoint i)"
    using assms(1) by (auto simp: checkpoint_from_value_def rbind_eq_Inr ok_or_eq_Inr)
  then have "inclusion_deserialize E (inclusion_json E i) = Some i"
    using assms(2) by (simp add: inclusion_deserialize_def inclusion_json_def struct_members_def member_str_def opt_member_def
        strings_roundtrip de_default_def)
  then show ?thesis
    using assms by (simp add: inclusion_from_value_def json_get_def inclusion_json_def opt_member_def void_def
        linorder_not_less require_def)
qed

lemma consistency_roundtrip:
  assumes "checkpoint_from_value E (checkpoint_json E (lp_log_checkpoint p)) = Inr (lp_log_checkpoint p)"
  shows "consistency_from_value E (consistency_json E p) = Inr p"
proof -
  have "checkpoint_deserialize E (checkpoint_json E (lp_log_checkpoint p)) = Some (lp_log_checkpoint p)"
    using assms by (auto simp: checkpoint_from_value_def rbind_eq_Inr ok_or_eq_Inr)
  then have "consistency_deserialize E (consistency_json E p) = Some p"
    by (simp add: consistency_deserialize_def consistency_json_def struct_members_def member_str_def strings_roundtrip)
  then show ?thesis
    using assms by (simp add: consistency_from_value_def json_get_def consistency_json_def void_def)
qed

text \<open>The paths a log answers with, for a checkpoint of its first \<open>n\<close> leaves.\<close>

lemma served_inclusion:
  assumes sha: "\<And>x. length (x_sha256 E x) = 32" and inv: "log_inv E lg" and size: "length (ml_leaves lg) < 2 ^ 64"
    and n: "k < n" "n \<le> length (ml_leaves lg)"
    and cp: "lc_log_id cp = ml_log_id lg" "lc_tree_size cp = of_nat n"
      "root_hash_bytes cp = Inr (merkle_tree_hash (x_sha256 E) (take n (ml_leaf_hashes lg)))"
  obtains inc where "log_inclusion_proof E lg (of_nat k) cp = Some (Inr inc)" "li_log_checkpoint inc = cp"
    "li_leaf inc = None" "li_tree_size inc = of_nat n" "verify_reconstructed_leaf E inc (ml_leaves lg ! k) = Inr ()"
    "li_leaf_index inc = of_nat k"
proof -
  let ?ls = "take n (ml_leaf_hashes lg)"
  have len: "length ?ls = n" "k < length ?ls" "length ?ls < 2 ^ 64" using n size log_hashes(1)[OF inv] by simp_all
  have w: "unat (of_nat k :: u64) = k" "unat (of_nat n :: u64) = n" using n size by (simp_all add: unat_of_nat_u64)
  define path where "path = siblings (merkle_tree_hash (x_sha256 E)) single_leaf k ?ls"
  have path: "inclusion_path (x_sha256 E) k ?ls = Some path"
    using inclusion_path_siblings[OF len(2)] by (simp add: path_def)
  have dec: "decode_path (map encode_sha256_hex path) = Inr path"
    using digests_siblings[OF sha] log_digests[OF sha inv] by (simp add: path_def decode_path_encode)
  define inc where "inc = \<lparr>li_log_id = ml_log_id lg, li_leaf_index = of_nat k, li_tree_size = lc_tree_size cp,
    li_inclusion_path = map encode_sha256_hex path, li_log_checkpoint = cp, li_leaf = None\<rparr>"
  have served: "log_inclusion_proof E lg (of_nat k) cp = Some (Inr inc)"
    using path w n cp by (simp add: log_inclusion_proof_def checked_size_def require_def inc_def)
  have leaf: "log_leaf_hash E (ml_leaves lg ! k) = Inr (?ls ! k)" using log_hashes(2)[OF inv] n by simp
  have "cross_check_binding inc = Inr ()"
    using cp w n by (simp add: cross_check_binding_def inc_def require_def word_le_nat_alt)
  moreover have "verify_inclusion (x_sha256 E) (?ls ! k) (of_nat k) (of_nat n) path (merkle_tree_hash (x_sha256 E) ?ls)"
    using inclusion_path_accepted[OF len(2,3) path] len(1) by simp
  ultimately have "verify_reconstructed_leaf E inc (ml_leaves lg ! k) = Inr ()"
    unfolding verify_reconstructed_leaf_def leaf verify_leaf_hash_def rbind_simps
    using dec cp by (simp add: inc_def require_def)
  then show thesis using that[OF served] cp by (simp add: inc_def)
qed

lemma served_consistency:
  assumes sha: "\<And>x. length (x_sha256 E x) = 32" and inv: "log_inv E lg" and size: "length (ml_leaves lg) < 2 ^ 64"
    and n: "0 < m" "m \<le> n" "n \<le> length (ml_leaves lg)"
    and cp: "lc_log_id cp = ml_log_id lg" "lc_tree_size cp = of_nat n"
      "root_hash_bytes cp = Inr (merkle_tree_hash (x_sha256 E) (take n (ml_leaf_hashes lg)))"
  obtains con r where "consistency_proof_response E lg (of_nat m) cp = Some (Inr con)" "lp_log_checkpoint con = cp"
    "root_at E lg (of_nat m) = Inr r" "verify_against_first_root E con (encode_sha256_hex r) = Inr ()"
proof -
  let ?ls = "take n (ml_leaf_hashes lg)"
  have len: "length ?ls = n" "m \<le> length ?ls" "length ?ls < 2 ^ 64" using n size log_hashes(1)[OF inv] by simp_all
  have w: "unat (of_nat m :: u64) = m" "unat (of_nat n :: u64) = n" using n size by (simp_all add: unat_of_nat_u64)
  then have nz: "(of_nat m :: u64) \<noteq> 0" "\<not> (of_nat n :: u64) < of_nat m"
    using n by (auto simp: word_less_nat_alt)
  define path where "path = subproof (x_sha256 E) m ?ls True"
  define r where "r = merkle_tree_hash (x_sha256 E) (take m ?ls)"
  have path: "consistency_proof (x_sha256 E) m ?ls = Some path" using n len by (simp add: consistency_proof_def path_def)
  have dec: "decode_path (map encode_sha256_hex path) = Inr path"
    using digests_subproof[OF sha] log_digests[OF sha inv] by (simp add: path_def decode_path_encode)
  have r: "length r = 32" using length_merkle_tree_hash[OF sha] log_digests[OF sha inv] by (simp add: r_def)
  define con where "con = \<lparr>lp_log_id = ml_log_id lg, lp_first_tree_size = of_nat m, lp_second_tree_size = lc_tree_size cp,
    lp_consistency_path = map encode_sha256_hex path, lp_log_checkpoint = cp\<rparr>"
  have served: "consistency_proof_response E lg (of_nat m) cp = Some (Inr con)"
    using path w n nz cp
    by (simp add: consistency_proof_response_def log_consistency_path_def checked_size_def require_def con_def)
  have at: "root_at E lg (of_nat m) = Inr r" using w n by (simp add: root_at_def checked_size_def r_def min_def)
  have "verify_consistency (x_sha256 E) (of_nat m) (of_nat n) path r (merkle_tree_hash (x_sha256 E) ?ls)"
    using consistency_proof_accepted[OF n(1) len(2,3)] len(1) by (simp add: path_def r_def)
  then have "verify_against_first_root E con (encode_sha256_hex r) = Inr ()"
    unfolding verify_against_first_root_def using dec cp by (simp add: con_def require_def decode_encode[OF r])
  then show thesis using that[OF served _ at] by (simp add: con_def)
qed

text \<open>
  C13. What the log serves is accepted. For a log of this registry after any appends, every size \<open>n\<close> up
  to the current one, every leaf \<open>k\<close> below it and every earlier size \<open>m\<close>: the checkpoint at \<open>n\<close> is minted,
  the inclusion proof of leaf \<open>k\<close> is produced (the \<open>expect\<close> in the code never fires) and its JSON passes
  the consumer's checkpoint, binding and Merkle checks for that leaf; and the consistency response from
  \<open>m\<close> reads back and verifies against the root the log had at \<open>m\<close>. Hypotheses: SHA-256 yields 32
  bytes, the registry's DID document publishes its key, and the clock readings are within the skew.
\<close>

theorem log_proofs_accepted:
  assumes sha: "\<And>x. length (x_sha256 E x) = 32"
    and run: "merkle_log_new i = Inr start" "(log_step E)\<^sup>*\<^sup>* start lg" "length (ml_leaves lg) < 2 ^ 64"
    and reg: "parse_log_id i = Inr (sg_registry_did signer, inst)" "sg_registry_did signer = authority_to_did_web authority"
      "signer_published E resolve signer"
    and clock: "time_roundtrip E (trunc_ms t)" "trunc_ms t \<le> now + skew"
    and n: "k < n" "0 < m" "m \<le> n" "n \<le> length (ml_leaves lg)"
  shows "\<exists>cp inc con earlier. checkpoint_at E signer lg (of_nat n) t = Inr cp \<and>
    log_inclusion_proof E lg (of_nat k) cp = Some (Inr inc) \<and>
    verify_log_inclusion_value E resolve (inclusion_json E inc) (ml_leaves lg ! k) authority (sg_registry_did signer) skew now = Inr inc \<and>
    consistency_proof_response E lg (of_nat m) cp = Some (Inr con) \<and>
    consistency_from_value E (consistency_json E con) = Inr con \<and>
    root_at E lg (of_nat m) = Inr earlier \<and> verify_against_first_root E con (encode_sha256_hex earlier) = Inr ()"
proof -
  note start = new_log_inv[OF run(1), of E]
  have inv: "log_inv E lg" by (rule transparency.steps_inv[OF run(2) start])
  have "log_grows start lg" using transparency.steps_grow run(2) start by blast
  then have i: "ml_log_id lg = i" using run(1) by (auto simp: merkle_log_new_def rbind_eq_Inr log_grows_def)
  let ?root = "merkle_tree_hash (x_sha256 E) (take n (ml_leaf_hashes lg))"
  have "length ?root = 32" using length_merkle_tree_hash[OF sha] log_digests[OF sha inv] by simp
  from minted_checkpoint[OF reg(1) this reg(3) clock(1) reg(2) clock(2), of "of_nat n"] obtain cp where
    cp: "mint_log_checkpoint E signer i (of_nat n) (encode_sha256_hex ?root) t = Inr cp" "lc_log_id cp = ml_log_id lg"
      "lc_tree_size cp = of_nat n" "root_hash_bytes cp = Inr ?root" "checkpoint_from_value E (checkpoint_json E cp) = Inr cp"
      "verify_log_checkpoint_value E resolve (checkpoint_json E cp) authority (sg_registry_did signer) skew now = Inr cp"
    using i by metis
  have w: "unat (of_nat n :: u64) = n" using n run(3) by (simp add: unat_of_nat_u64)
  then have nz: "(of_nat n :: u64) \<noteq> 0" using n by auto
  have at: "checkpoint_at E signer lg (of_nat n) t = Inr cp"
    using cp(1) i w n by (simp add: checkpoint_at_def root_at_def checked_size_def)
  obtain inc where inc: "log_inclusion_proof E lg (of_nat k) cp = Some (Inr inc)" "li_log_checkpoint inc = cp"
      "li_leaf inc = None" "li_tree_size inc = of_nat n" "verify_reconstructed_leaf E inc (ml_leaves lg ! k) = Inr ()"
    using served_inclusion[OF sha inv run(3) n(1,4) cp(2-4)] by blast
  obtain con r where con: "consistency_proof_response E lg (of_nat m) cp = Some (Inr con)" "lp_log_checkpoint con = cp"
      "root_at E lg (of_nat m) = Inr r" "verify_against_first_root E con (encode_sha256_hex r) = Inr ()"
    using served_consistency[OF sha inv run(3) n(2-4) cp(2-4)] by blast
  have "inclusion_from_value E (inclusion_json E inc) = Inr inc \<and>
      json_get (inclusion_json E inc) ''log_checkpoint'' = Some (checkpoint_json E cp)"
    using inclusion_roundtrip[of E inc] inc(2-4) cp(5) nz by simp
  then have "verify_log_inclusion_value E resolve (inclusion_json E inc) (ml_leaves lg ! k) authority (sg_registry_did signer)
      skew now = Inr inc"
    by (simp add: verify_log_inclusion_value_def cp(6) inc(5))
  with at inc(1) con consistency_roundtrip[of E con] cp(5) show ?thesis by auto
qed

theorem log_proofs_accepted_witness:
  "\<exists>cp inc con earlier. checkpoint_at sample_ext sample_signer sample_log 1 0 = Inr cp \<and>
    log_inclusion_proof sample_ext sample_log 0 cp = Some (Inr inc) \<and>
    verify_log_inclusion_value sample_ext sample_resolver (inclusion_json sample_ext inc) sample_leaf ''r.example''
      ''did:web:r.example'' 0 0 = Inr inc \<and>
    consistency_proof_response sample_ext sample_log 1 cp = Some (Inr con) \<and>
    consistency_from_value sample_ext (consistency_json sample_ext con) = Inr con \<and>
    root_at sample_ext sample_log 1 = Inr earlier \<and>
    verify_against_first_root sample_ext con (encode_sha256_hex earlier) = Inr ()"
proof -
  have did: "sg_registry_did sample_signer = ''did:web:r.example''" by (simp add: sample_signer_def)
  have "length (x_sha256 sample_ext x) = 32" for x by (simp add: sample_ext_def)
  moreover have "parse_log_id sample_log_id = Inr (sg_registry_did sample_signer, ''a'')"
    by (simp add: did sample_log_id_parsed)
  moreover have "sg_registry_did sample_signer = authority_to_did_web ''r.example''"
    by (simp add: did authority_to_did_web_def)
  moreover have "time_roundtrip sample_ext (trunc_ms 0)" "trunc_ms 0 \<le> 0 + (0 :: int)"
    using sample_time by (simp_all add: trunc_ms_def timestamp_millis_def)
  ultimately show ?thesis
    using log_proofs_accepted[of sample_ext sample_log_id sample_empty_log sample_log sample_signer "''a''" "''r.example''"
        sample_resolver 0 0 0 0 1 1] sample_log_new sample_log_run sample_published did by simp
qed

section \<open>Leaves a consumer accepts\<close>

lemma leaf_text_inj:
  assumes "sci_ok (x_sci E)" "canonical_bytes E a = canonical_bytes E b"
    and "time_roundtrip E (ll_created_at a)" "time_roundtrip E (ll_created_at b)"
  shows "a = b"
proof -
  have ok: "wf_json (leaf_json E l)" "depth (leaf_json E l) \<le> MAX_JCS_DEPTH" for l
    by (simp_all add: leaf_json_def json_ms_def MAX_JCS_DEPTH_def)
  have total: "\<exists>c. try_canonicalize_value (x_sci E) (leaf_json E l) = Inr c" for l
    using leaf_json_total[of E l] by (auto simp: log_leaf_hash_def canonical_bytes_def rbind_eq_Inr)
  obtain c d where "try_canonicalize_value (x_sci E) (leaf_json E a) = Inr c"
      "try_canonicalize_value (x_sci E) (leaf_json E b) = Inr d"
    using total[of a] total[of b] by blast
  then have "try_canonicalize_value (x_sci E) (leaf_json E a) = try_canonicalize_value (x_sci E) (leaf_json E b)"
    using assms(2) by (simp add: canonical_bytes_def)
  then have "written_alike (x_sci E) (leaf_json E a) (leaf_json E b)"
    using canonical_text_eq_alike[OF assms(1) ok(1) ok(1) ok(2) ok(2)] by blast
  then have eq: "rel_option (written_alike (x_sci E)) (json_get (leaf_json E a) k) (json_get (leaf_json E b) k)" for k
    by (auto simp: leaf_json_def json_get_def)
  have "x_fmt_ms E (ll_created_at a) = x_fmt_ms E (ll_created_at b)"
    using eq[of "''created_at''"] by (simp add: leaf_json_def json_get_def json_ms_def)
  then have "ll_created_at a = ll_created_at b" using assms(3,4) by (metis option.inject time_roundtrip_def)
  then show ?thesis
    using eq[of "''leaf_version''"] eq[of "''ctx_id''"] eq[of "''lineage_id''"] eq[of "''origin_registry''"]
      eq[of "''content_hash''"] eq[of "''key_fingerprint''"] eq[of "''receipt_hash''"]
    by (simp add: leaf_json_def json_get_def)
qed

lemma reconstructedD:
  assumes "verify_reconstructed_leaf E i leaf = Inr ()"
  obtains bs path r where "canonical_bytes E leaf = Inr bs" "decode_path (li_inclusion_path i) = Inr path"
    "root_hash_bytes (li_log_checkpoint i) = Inr r"
    "verify_inclusion (x_sha256 E) (leaf_hash (x_sha256 E) bs) (li_leaf_index i) (li_tree_size i) path r"
    "li_leaf_index i < li_tree_size i"
proof -
  obtain h where h: "log_leaf_hash E leaf = Inr h" "verify_leaf_hash E i h = Inr ()"
    using assms unfolding verify_reconstructed_leaf_def rbind_eq_Inr by blast
  from h(2) have "cross_check_binding i = Inr ()" by (auto simp: verify_leaf_hash_def rbind_eq_Inr)
  then have "li_leaf_index i < li_tree_size i" by (auto simp: cross_check_binding_def rbind_eq_Inr not_le)
  with h that show thesis by (auto simp: log_leaf_hash_def verify_leaf_hash_def rbind_eq_Inr)
qed

text \<open>
  The two ways a forged leaf gets through: the canonical texts of the leaf and of the logged one are
  different but have one leaf hash, or the verifier's runs on the offered and on the honest path contain
  two different inputs with one digest.
\<close>

definition leaf_collision :: "ext \<Rightarrow> merkle_log \<Rightarrow> log_inclusion \<Rightarrow> log_leaf \<Rightarrow> bool" where
  "leaf_collision E lg i leaf \<longleftrightarrow>
    (\<exists>bs bs'. canonical_bytes E leaf = Inr bs \<and> canonical_bytes E (ml_leaves lg ! unat (li_leaf_index i)) = Inr bs' \<and>
       bs \<noteq> bs' \<and> leaf_hash (x_sha256 E) bs = leaf_hash (x_sha256 E) bs') \<or>
    (\<exists>bs path honest. canonical_bytes E leaf = Inr bs \<and> decode_path (li_inclusion_path i) = Inr path \<and>
       inclusion_path (x_sha256 E) (unat (li_leaf_index i)) (take (unat (li_tree_size i)) (ml_leaf_hashes lg)) = Some honest \<and>
       collides (x_sha256 E)
         (inclusion_inputs (x_sha256 E) path (li_leaf_index i) (li_tree_size i - 1) (leaf_hash (x_sha256 E) bs))
         (inclusion_inputs (x_sha256 E) honest (li_leaf_index i) (li_tree_size i - 1)
            (ml_leaf_hashes lg ! unat (li_leaf_index i))))"

lemma reconstructed_leaf_logged:
  assumes sha: "\<And>x. length (x_sha256 E x) = 32" and sci: "sci_ok (x_sci E)"
    and run: "merkle_log_new log_id = Inr start" "(log_step E)\<^sup>*\<^sup>* start lg" "length (ml_leaves lg) < 2 ^ 64"
    and size: "unat (li_tree_size i) \<le> length (ml_leaves lg)"
    and genuine: "root_hash_bytes (li_log_checkpoint i) = root_at E lg (li_tree_size i)"
    and acc: "verify_reconstructed_leaf E i leaf = Inr ()"
    and times: "time_roundtrip E (ll_created_at leaf)" "time_roundtrip E (ll_created_at (ml_leaves lg ! unat (li_leaf_index i)))"
  shows "leaf = ml_leaves lg ! unat (li_leaf_index i) \<or> leaf_collision E lg i leaf"
proof -
  have inv: "log_inv E lg" by (rule transparency.steps_inv[OF run(2) new_log_inv[OF run(1)]])
  let ?n = "unat (li_tree_size i)" and ?k = "unat (li_leaf_index i)"
  let ?ls = "take ?n (ml_leaf_hashes lg)"
  have r: "root_hash_bytes (li_log_checkpoint i) = Inr (merkle_tree_hash (x_sha256 E) ?ls)"
    using genuine size by (simp add: root_at_def checked_size_def)
  obtain bs path where acc':
    "canonical_bytes E leaf = Inr bs" "decode_path (li_inclusion_path i) = Inr path" "li_leaf_index i < li_tree_size i"
    "verify_inclusion (x_sha256 E) (leaf_hash (x_sha256 E) bs) (li_leaf_index i) (li_tree_size i) path (merkle_tree_hash (x_sha256 E) ?ls)"
    using reconstructedD[OF acc] r by (metis sum.inject(2))
  have k: "?k < ?n" using acc'(3) by (simp add: word_less_nat_alt)
  have len: "length ?ls = ?n" "of_nat (length ?ls) = li_tree_size i" "length ?ls < 2 ^ 64"
    using size log_hashes(1)[OF inv] run(3) by simp_all
  have nth: "?ls ! ?k = ml_leaf_hashes lg ! ?k" using k by simp
  have logged: "log_leaf_hash E (ml_leaves lg ! ?k) = Inr (?ls ! ?k)" using log_hashes(2)[OF inv] k size by simp
  then obtain bs' where bs': "canonical_bytes E (ml_leaves lg ! ?k) = Inr bs'" "?ls ! ?k = leaf_hash (x_sha256 E) bs'"
    by (auto simp: log_leaf_hash_def rbind_eq_Inr)
  show ?thesis
  proof (cases "leaf_hash (x_sha256 E) bs = ?ls ! ?k")
    case True
    then show ?thesis
      using bs' acc'(1) leaf_text_inj[OF sci _ times] by (cases "bs = bs'") (auto simp: leaf_collision_def)
  next
    case False
    have "digests ?ls" "digests (leaf_hash (x_sha256 E) bs # path)"
      using log_digests[OF sha inv] decode_path_digests[OF acc'(2)] sha by (simp_all add: leaf_hash_def)
    from forged_inclusion[OF sha this(1) len(3) _ this(2) False] acc'(4) len(2) show ?thesis
      using acc'(1,2) nth by (auto simp: leaf_collision_def)
  qed
qed

text \<open>
  C14. A consumer cannot be shown a leaf the log does not hold. When \<open>verify_reconstructed_leaf\<close> accepts a
  leaf under a checkpoint whose root is the log's root at that size, the leaf is the one logged at that
  index, field by field; or the two canonical texts collide under the leaf hash; or the verifier's run on
  the offered path and its run on the honest one contain two different SHA-256 inputs with one digest.
\<close>

theorem accepted_leaf_is_logged:
  assumes sha: "\<And>x. length (x_sha256 E x) = 32" and sci: "sci_ok (x_sci E)"
    and run: "merkle_log_new log_id = Inr start" "(log_step E)\<^sup>*\<^sup>* start lg" "length (ml_leaves lg) < 2 ^ 64"
    and size: "unat (li_tree_size i) \<le> length (ml_leaves lg)"
    and genuine: "root_hash_bytes (li_log_checkpoint i) = root_at E lg (li_tree_size i)"
    and acc: "verify_reconstructed_leaf E i leaf = Inr ()"
    and times: "time_roundtrip E (ll_created_at leaf)" "time_roundtrip E (ll_created_at (ml_leaves lg ! unat (li_leaf_index i)))"
  shows "leaf = ml_leaves lg ! unat (li_leaf_index i) \<or> leaf_collision E lg i leaf"
  using assms by (rule reconstructed_leaf_logged)

text \<open>The checkpoint's signature plays no part in the leaf check, so the sample one is unsigned.\<close>

definition sample_checkpoint :: log_checkpoint where
  "sample_checkpoint = \<lparr>lc_checkpoint_version = LOG_CHECKPOINT_VERSION, lc_log_id = sample_log_id, lc_tree_size = 1,
     lc_root_hash = encode_sha256_hex (replicate 32 0), lc_timestamp = 0, lc_signature = unsigned_envelope sample_signer\<rparr>"

definition sample_inclusion :: log_inclusion where
  "sample_inclusion = \<lparr>li_log_id = sample_log_id, li_leaf_index = 0, li_tree_size = 1, li_inclusion_path = [],
     li_log_checkpoint = sample_checkpoint, li_leaf = None\<rparr>"

theorem accepted_leaf_is_logged_witness:
  "verify_reconstructed_leaf sample_ext sample_inclusion sample_leaf = Inr () \<and>
   (sample_leaf = ml_leaves sample_log ! unat (li_leaf_index sample_inclusion) \<or>
    leaf_collision sample_ext sample_log sample_inclusion sample_leaf)"
proof -
  have r: "root_hash_bytes sample_checkpoint = Inr (replicate 32 0)"
    by (simp add: root_hash_bytes_def sample_checkpoint_def decode_encode)
  have i: "li_leaf_index sample_inclusion = 0" "li_tree_size sample_inclusion = 1" "li_log_checkpoint sample_inclusion = sample_checkpoint"
    "li_inclusion_path sample_inclusion = []"
    by (simp_all add: sample_inclusion_def)
  have acc: "verify_reconstructed_leaf sample_ext sample_inclusion sample_leaf = Inr ()"
    by (simp add: verify_reconstructed_leaf_def sample_leaf_hash verify_leaf_hash_def cross_check_binding_def r i
        verify_inclusion_iff require_def) (simp add: sample_inclusion_def sample_checkpoint_def)
  show ?thesis
  proof (rule conjI[OF acc], rule accepted_leaf_is_logged[OF _ _ sample_log_new sample_log_run _ _ _ acc])
    show "root_hash_bytes (li_log_checkpoint sample_inclusion) = root_at sample_ext sample_log (li_tree_size sample_inclusion)"
      by (simp add: r i root_at_def checked_size_def merkle_tree_hash.simps)
    show "sci_ok (x_sci sample_ext)" by (simp add: sample_ext_def sci_ok_def char_class_defs)
    show "length (x_sha256 sample_ext x) = 32" for x by (simp add: sample_ext_def)
  qed (use sample_time in \<open>simp_all add: i sample_leaf_def\<close>)
qed

end
