(* ===== verification/Acdp_Witness_Correct.thy ===== *)
theory Acdp_Witness_Correct
  imports Acdp_Witness Acdp_Log_Correct
begin

text \<open>
  Witnesses: the quorum counts every trusted witness with a good cosignature once and nothing else;
  what a witness mints is counted; a witness only cosigns extensions of the history it retained; and a
  context that a consumer reports as included is in the log.
\<close>

section \<open>Counting\<close>

definition counted ::
  "ext \<Rightarrow> (string \<Rightarrow> json option) \<Rightarrow> string set \<Rightarrow> log_checkpoint \<Rightarrow> witness_policy \<Rightarrow> instant \<Rightarrow> json \<Rightarrow> log_cosignature \<Rightarrow> bool" where
  "counted E docs trusted cp policy now v c \<longleftrightarrow> cs_witness_id c \<in> trusted \<and>
     (\<exists>doc. docs (cs_witness_id c) = Some doc \<and>
        verify_witness_cosignature_value E v doc cp now (Some (wp_max_clock_skew_seconds policy)) = Inr c)"

lemma cosignature_valueD:
  assumes "verify_witness_cosignature_value E v doc cp now skew = Inr c"
  shows "cosignature_from_value E v = Inr c" "checkpoint_tuple c = (lc_log_id cp, lc_tree_size cp, lc_root_hash cp)"
proof -
  show 1: "cosignature_from_value E v = Inr c"
    using assms by (auto simp: verify_witness_cosignature_value_def rbind_eq_Inr)
  then have "cross_check_against_checkpoint c cp = Inr ()"
    using assms by (auto simp: verify_witness_cosignature_value_def rbind_eq_Inr)
  then show "checkpoint_tuple c = (lc_log_id cp, lc_tree_size cp, lc_root_hash cp)"
    by (auto simp: cross_check_against_checkpoint_def checkpoint_tuple_def rbind_eq_Inr Let_def)
qed

lemma counted_iff:
  "counted E docs trusted cp policy now v c \<longleftrightarrow>
     cosignature_from_value E v = Inr c \<and> checkpoint_tuple c = (lc_log_id cp, lc_tree_size cp, lc_root_hash cp) \<and>
     cs_witness_id c \<in> trusted \<and>
     (\<exists>doc. docs (cs_witness_id c) = Some doc \<and>
        (\<exists>c'. verify_witness_cosignature_value E v doc cp now (Some (wp_max_clock_skew_seconds policy)) = Inr c'))"
  using cosignature_valueD by (fastforce simp: counted_def)

lemma quorum_step_sets:
  assumes "quorum_step E docs trusted cp policy now v (V, F, e) = (V', F', e')"
  shows "V' = V \<union> {w. \<exists>c. counted E docs trusted cp policy now v c \<and> w = cs_witness_id c} \<and>
    F' = F \<union> {w. \<exists>c. counted E docs trusted cp policy now v c \<and> within_age policy now c \<and> w = cs_witness_id c}"
proof (cases "\<exists>c. counted E docs trusted cp policy now v c")
  case False
  then show ?thesis
    using assms by (auto simp: quorum_step_def counted_iff split: sum.splits if_splits option.splits)
next
  case True
  then obtain c where c: "counted E docs trusted cp policy now v c" by blast
  then have only: "counted E docs trusted cp policy now v c' \<longleftrightarrow> c' = c" for c' by (auto simp: counted_iff)
  obtain doc where "docs (cs_witness_id c) = Some doc"
      "verify_witness_cosignature_value E v doc cp now (Some (wp_max_clock_skew_seconds policy)) = Inr c"
    using c by (auto simp: counted_def)
  moreover have "cosignature_from_value E v = Inr c" "cs_witness_id c \<in> trusted"
      "checkpoint_tuple c = (lc_log_id cp, lc_tree_size cp, lc_root_hash cp)"
    using c by (auto simp: counted_iff)
  ultimately show ?thesis using assms unfolding only by (simp add: quorum_step_def) (auto split: if_splits)
qed

lemma quorum_fold_sets:
  assumes "fold (quorum_step E docs trusted cp policy now) vs (V, F, e) = (V', F', e')"
  shows "V' = V \<union> {w. \<exists>v\<in>set vs. \<exists>c. counted E docs trusted cp policy now v c \<and> w = cs_witness_id c} \<and>
    F' = F \<union> {w. \<exists>v\<in>set vs. \<exists>c. counted E docs trusted cp policy now v c \<and> within_age policy now c \<and> w = cs_witness_id c}"
  using assms
proof (induction vs arbitrary: V F e)
  case (Cons v vs)
  obtain V1 F1 e1 where s: "quorum_step E docs trusted cp policy now v (V, F, e) = (V1, F1, e1)"
    by (metis prod_cases3)
  show ?case using Cons.IH[of V1 F1 e1] Cons.prems quorum_step_sets[OF s] s by auto
qed simp

text \<open>The witnesses with a cosignature that counts, and those with one that is fresh as well.\<close>

definition good_witnesses ::
  "ext \<Rightarrow> json list \<Rightarrow> (string \<Rightarrow> json option) \<Rightarrow> string set \<Rightarrow> log_checkpoint \<Rightarrow> witness_policy \<Rightarrow> instant \<Rightarrow>
     (log_cosignature \<Rightarrow> bool) \<Rightarrow> string set" where
  "good_witnesses E vs docs trusted cp policy now ok =
     {w \<in> trusted. \<exists>v doc c. v \<in> set vs \<and> docs w = Some doc \<and> cs_witness_id c = w \<and> ok c \<and>
        verify_witness_cosignature_value E v doc cp now (Some (wp_max_clock_skew_seconds policy)) = Inr c}"

lemma good_witnesses_counted:
  "good_witnesses E vs docs trusted cp policy now ok =
     {w. \<exists>v\<in>set vs. \<exists>c. counted E docs trusted cp policy now v c \<and> ok c \<and> w = cs_witness_id c}"
  by (auto simp: good_witnesses_def counted_def)

lemma good_witnesses_finite: "finite (good_witnesses E vs docs trusted cp policy now ok)"
proof -
  have "good_witnesses E vs docs trusted cp policy now ok \<subseteq>
      (\<lambda>v. cs_witness_id (projr (cosignature_from_value E v))) ` set vs"
    unfolding good_witnesses_counted by (auto simp: counted_iff) force
  then show ?thesis by (rule finite_subset) simp
qed

lemma quorum_report:
  "let r = evaluate_witness_quorum E vs docs trusted cp policy now;
       good = good_witnesses E vs docs trusted cp policy now (\<lambda>_. True);
       fresh = good_witnesses E vs docs trusted cp policy now (within_age policy now) in
   set (wq_witnesses r) = good \<and> sorted_wrt (<) (wq_witnesses r) \<and> wq_witnessed_count r = card good \<and>
   wq_fresh_witnessed_count r = card fresh \<and>
   wq_meets_quorum r = (unat (wp_min_witnesses policy) \<le> card good) \<and>
   wq_meets_fresh_quorum r = (unat (wp_min_witnesses policy) \<le> card fresh)"
proof -
  obtain V F e where s: "fold (quorum_step E docs trusted cp policy now) vs ({}, {}, []) = (V, F, e)" by (metis prod_cases3)
  have V: "V = good_witnesses E vs docs trusted cp policy now (\<lambda>_. True)"
    "F = good_witnesses E vs docs trusted cp policy now (within_age policy now)"
    using quorum_fold_sets[OF s] by (auto simp: good_witnesses_counted)
  then have "finite V" using good_witnesses_finite by simp
  then show ?thesis using s by (simp add: evaluate_witness_quorum_def Let_def V)
qed

text \<open>
  C24. The witness quorum is exact: whatever cosignatures are offered, in whatever order and however
  often repeated, the report lists every trusted witness with a cosignature that passes the full check
  over this checkpoint, in order and once, and nothing else; both counts are the sizes of these sets,
  the fresh count is at most the other, and the quorum flags compare them with the policy's minimum.
\<close>

theorem quorum_counts_distinct_trusted:
  "let r = evaluate_witness_quorum E vs docs trusted cp policy now;
       good = good_witnesses E vs docs trusted cp policy now (\<lambda>_. True);
       fresh = good_witnesses E vs docs trusted cp policy now (within_age policy now) in
   set (wq_witnesses r) = good \<and> sorted_wrt (<) (wq_witnesses r) \<and> wq_witnessed_count r = card good \<and>
   wq_fresh_witnessed_count r = card fresh \<and> card fresh \<le> card good \<and>
   wq_meets_quorum r = (unat (wp_min_witnesses policy) \<le> card good) \<and>
   wq_meets_fresh_quorum r = (unat (wp_min_witnesses policy) \<le> card fresh)"
proof -
  have "card (good_witnesses E vs docs trusted cp policy now (within_age policy now)) \<le>
      card (good_witnesses E vs docs trusted cp policy now (\<lambda>_. True))"
    by (rule card_mono[OF good_witnesses_finite]) (auto simp: good_witnesses_def)
  with quorum_report[of E vs docs trusted cp policy now] show ?thesis by (simp add: Let_def)
qed

section \<open>Cosignatures that are minted count\<close>

text \<open>The witness's document lists the key it signs with.\<close>

definition witness_published :: "ext \<Rightarrow> did_document \<Rightarrow> witness_signer \<Rightarrow> bool" where
  "witness_published E doc signer \<longleftrightarrow> doc_id doc = ws_witness_id signer \<and>
     (\<exists>fragment m. split_once CHR ''#'' (ws_key_id signer) = Some (ws_witness_id signer, fragment) \<and>
        find_by_fragment doc fragment = Some m \<and> key_published E (ws_key signer) m)"

lemma cosignature_preimage_unsigned [simp]:
  "cosignature_preimage_hash E (c\<lparr>cs_signature := s\<rparr>) = cosignature_preimage_hash E c"
  by (simp add: cosignature_preimage_hash_def cosignature_preimage_hash_of_value_def preimage_hash_of_object_with_def
      cosignature_json_def preimage_hash_of_map_def)

lemma cosignature_preimage_total: "\<exists>h. cosignature_preimage_hash E c = Inr h"
  unfolding cosignature_preimage_hash_def cosignature_preimage_hash_of_value_def preimage_hash_of_object_with_def
    cosignature_json_def as_object.simps ok_or_simps rbind_simps is_ok_iff[symmetric]
  by (rule preimage_hash_total) (simp add: json_ms_def witnessed_json_def MAX_JCS_DEPTH_def)

lemma cosignature_roundtrip:
  assumes "time_roundtrip E (wc_timestamp (cs_witnessed_checkpoint c))" "time_roundtrip E (cs_witnessed_at c)"
  shows "cosignature_deserialize E (cosignature_json E c) = Some c"
    "raw_ms_form E (cosignature_json E c) ''witnessed_at'' e = Inr ()"
    "json_get (cosignature_json E c) ''witnessed_checkpoint'' = Some (witnessed_json E (cs_witnessed_checkpoint c))"
    "raw_ms_form E (witnessed_json E (cs_witnessed_checkpoint c)) ''timestamp'' e = Inr ()"
proof -
  have "witnessed_deserialize E (witnessed_json E (cs_witnessed_checkpoint c)) = Some (cs_witnessed_checkpoint c)"
    using assms(1) by (simp add: witnessed_deserialize_def witnessed_json_def struct_members_def member_str_def member_ms_def
        json_ms_def time_roundtrip_def)
  then show "cosignature_deserialize E (cosignature_json E c) = Some c"
    using assms(2) by (simp add: cosignature_deserialize_def cosignature_json_def struct_members_def member_str_def
        member_ms_def json_ms_def time_roundtrip_def signature_roundtrip)
qed (use assms in \<open>simp_all add: raw_ms_form_def get_str_def json_get_def cosignature_json_def witnessed_json_def json_ms_def
      time_roundtrip_def\<close>)

lemma signer_newD:
  assumes "witness_signer_new key wid kid = Inr signer"
  shows "ws_witness_id signer = wid" "is_witness_did wid"
    "\<exists>frag. split_once CHR ''#'' (ws_key_id signer) = Some (wid, frag) \<and> frag \<noteq> []"
  using assms by (auto simp: witness_signer_new_def rbind_eq_Inr split: option.splits if_splits)

lemma verified_checkpointD:
  assumes "verify_log_checkpoint_value E resolve v authority did skew now = Inr cp"
  shows "is_ok (parse_log_id (lc_log_id cp))" "is_ok (decode_sha256_hex (lc_root_hash cp))"
proof -
  have "checkpoint_from_value E v = Inr cp"
    using assms by (auto simp: verify_log_checkpoint_value_def rbind_eq_Inr)
  then show "is_ok (parse_log_id (lc_log_id cp))" "is_ok (decode_sha256_hex (lc_root_hash cp))"
    by (auto simp: checkpoint_from_value_def rbind_eq_Inr is_ok_iff)
qed

lemma minted_cosignature_verifies:
  assumes new: "witness_signer_new key wid kid = Inr signer" and mint: "witness_mint E signer cp t = Inr c"
    and cp: "is_ok (parse_log_id (lc_log_id cp))" "is_ok (decode_sha256_hex (lc_root_hash cp))"
    and pub: "witness_published E doc signer" "document_deserialize dv = Some doc"
    and time: "time_roundtrip E (lc_timestamp cp)" "time_roundtrip E (trunc_ms t)" "trunc_ms t \<le> now + seconds skew"
  shows "verify_witness_cosignature_value E (cosignature_json E c) dv cp now (Some skew) = Inr c \<and> cs_witness_id c = wid"
proof -
  note signer = signer_newD[OF new]
  define c0 where "c0 = \<lparr>cs_cosignature_version = COSIGNATURE_VERSION, cs_witness_id = ws_witness_id signer,
    cs_witnessed_checkpoint = from_checkpoint cp, cs_witnessed_at = trunc_ms t,
    cs_signature = \<lparr>sig_algorithm = key_algorithm (ws_key signer), sig_key_id = ws_key_id signer, sig_value = []\<rparr>\<rparr>"
  from mint obtain hash where hash: "cosignature_preimage_hash E c0 = Inr hash"
    and c: "c = c0\<lparr>cs_signature := \<lparr>sig_algorithm = fst (sign_content_hash E (ws_key signer) hash),
      sig_key_id = ws_key_id signer, sig_value = snd (sign_content_hash E (ws_key signer) hash)\<rparr>\<rparr>"
    unfolding witness_mint_def c0_def[symmetric] Let_def rbind_eq_Inr by (auto simp: case_prod_beta)
  have alg: "fst (sign_content_hash E (ws_key signer) hash) = key_algorithm (ws_key signer)"
    by (cases "ws_key signer") simp_all
  obtain fragment m where k: "split_once CHR ''#'' (ws_key_id signer) = Some (wid, fragment)" "fragment \<noteq> []"
      "find_by_fragment doc fragment = Some m" "key_published E (ws_key signer) m" "doc_id doc = wid"
    using pub(1) signer by (auto simp: witness_published_def)
  have f: "cs_witness_id c = wid" "cs_witnessed_at c = trunc_ms t" "cs_witnessed_checkpoint c = from_checkpoint cp"
      "sig_key_id (cs_signature c) = ws_key_id signer" "sig_algorithm (cs_signature c) = key_algorithm (ws_key signer)"
      "cs_cosignature_version c = COSIGNATURE_VERSION"
    using signer(1) alg by (simp_all add: c c0_def)
  have rt: "cosignature_deserialize E (cosignature_json E c) = Some c"
      "raw_ms_form E (cosignature_json E c) ''witnessed_at'' e = Inr ()"
      "json_get (cosignature_json E c) ''witnessed_checkpoint'' = Some (witnessed_json E (from_checkpoint cp))"
      "raw_ms_form E (witnessed_json E (from_checkpoint cp)) ''timestamp'' e = Inr ()" for e
    using cosignature_roundtrip[of E c] time f by (simp_all add: from_checkpoint_def)
  have parse: "cosignature_from_value E (cosignature_json E c) = Inr c"
    using rt signer(2) cp k(1,2) f
    by (auto simp: cosignature_from_value_def witness_key_did_def void_def from_checkpoint_def is_ok_iff)
  have raw: "cosignature_preimage_hash_of_value E (cosignature_json E c) = Inr hash"
    using hash unfolding c cosignature_preimage_hash_def[symmetric] by simp
  have sig: "verify_with_receipt_method E m (key_algorithm (ws_key signer)) InvalidWitnessCosignature
      (cosignature_verify_against_hash E c hash) = Inr ()"
    using method_verifies(1)[OF k(4), of "cs_signature c" hash] f(5)
    unfolding cosignature_verify_against_hash_def by (simp add: c)
  have "cross_check_against_checkpoint c cp = Inr ()" "check_witnessed_at_skew c now (seconds skew) = Inr ()"
    using time(3) f by (simp_all add: cross_check_against_checkpoint_def from_checkpoint_def check_witnessed_at_skew_def require_def)
  then show ?thesis
    unfolding verify_witness_cosignature_value_def parse raw using pub(2) k f sig by (simp add: unwrap_or_def)
qed

text \<open>
  An honest witness is heard. A cosignature minted by \<open>mint_cosignature_checked\<close> is counted by every
  consumer that verified the same checkpoint, trusts the witness and holds its DID document, whatever
  else is offered beside it; so the default quorum of one witness is met.
\<close>

theorem minted_cosignature_counts:
  assumes "witness_signer_new key wid kid = Inr signer"
    and mint: "mint_cosignature_checked E resolve signer v authority did consistency t skew now0 = Inr c"
    and cp: "verify_log_checkpoint_value E resolve v authority did skew now0 = Inr cp"
    and doc: "witness_published E doc signer" "document_deserialize dv = Some doc" "docs wid = Some dv" "wid \<in> trusted"
    and offered: "cosignature_json E c \<in> set vs"
    and time: "time_roundtrip E (lc_timestamp cp)" "time_roundtrip E (trunc_ms t)"
      "trunc_ms t \<le> now + seconds (wp_max_clock_skew_seconds policy)"
    and minimum: "wp_min_witnesses policy \<le> 1"
  shows "let r = evaluate_witness_quorum E vs docs trusted cp policy now in wid \<in> set (wq_witnesses r) \<and> wq_meets_quorum r"
proof -
  have "witness_mint E signer cp t = Inr c"
    using mint cp by (auto simp: mint_cosignature_checked_def rbind_eq_Inr)
  from minted_cosignature_verifies[OF assms(1) this verified_checkpointD[OF cp] doc(1,2) time]
  have good: "wid \<in> good_witnesses E vs docs trusted cp policy now (\<lambda>_. True)"
    using doc(3,4) offered by (auto simp: good_witnesses_def)
  then have "0 < card (good_witnesses E vs docs trusted cp policy now (\<lambda>_. True))"
    using good_witnesses_finite by (metis card_gt_0_iff empty_iff)
  moreover have "unat (wp_min_witnesses policy) \<le> 1" using minimum by (simp add: word_le_nat_alt)
  ultimately show ?thesis
    using good quorum_report[of E vs docs trusted cp policy now] by (simp add: Let_def)
qed

text \<open>A witness, its DID document and the sample log's checkpoint, for the witnesses.\<close>

definition sample_method :: verification_method where
  "sample_method = \<lparr>vm_id = ''did:web:r.example#k'', vm_type = ''Multikey'', vm_controller = ''did:web:r.example'',
     vm_public_key_jwk = None, vm_public_key_multibase = Some ''zA''\<rparr>"

definition sample_witness_document :: did_document where
  "sample_witness_document = \<lparr>doc_id = ''did:web:w.example'', doc_methods = [sample_method\<lparr>vm_id := ''did:web:w.example#k''\<rparr>],
     doc_assertion = [], doc_services = []\<rparr>"

definition sample_witness_signer :: witness_signer where
  "sample_witness_signer = \<lparr>ws_key = SigningKey [], ws_key_id = ''did:web:w.example#k'', ws_witness_id = ''did:web:w.example''\<rparr>"

lemma sample_witness_new:
  "witness_signer_new (SigningKey []) ''did:web:w.example'' ''did:web:w.example#k'' = Inr sample_witness_signer"
proof -
  have "is_witness_did ''did:web:w.example''"
    "split_once CHR ''#'' ''did:web:w.example#k'' = Some (''did:web:w.example'', ''k'')" by code_simp+
  then show ?thesis by (simp add: witness_signer_new_def sample_witness_signer_def)
qed

lemma sample_witness_published:
  "witness_published sample_ext sample_witness_document sample_witness_signer"
  "document_deserialize (document_json sample_witness_document) = Some sample_witness_document"
proof -
  have "key_published sample_ext (SigningKey []) (sample_method\<lparr>vm_id := ''did:web:w.example#k''\<rparr>)"
    by (simp add: key_published_def ed25519_public_key_bytes_def extract_from_multibase_def sample_ext_def starts_with_def
        strip_prefix_def verify_ed25519_def sample_method_def)
  moreover have "split_once CHR ''#'' ''did:web:w.example#k'' = Some (''did:web:w.example'', ''k'')"
    "fragment_of ''did:web:w.example#k'' = Some ''k''" "\<not> starts_with KEYLESS_FRAGMENT_PREFIX ''k''" by code_simp+
  ultimately show "witness_published sample_ext sample_witness_document sample_witness_signer"
    by (auto simp: witness_published_def sample_witness_signer_def sample_witness_document_def find_by_fragment_def)
  show "document_deserialize (document_json sample_witness_document) = Some sample_witness_document"
    by (simp add: document_deserialize_def document_json_def open_members_def member_str_def de_vec_def method_deserialize_def
        method_json_def opt_member_def de_default_def sample_witness_document_def sample_method_def)
qed

lemma sample_clock: "time_roundtrip sample_ext (trunc_ms 0)" "trunc_ms 0 = 0"
  using sample_time by (simp_all add: trunc_ms_def timestamp_millis_def)

lemma sample_log_inv: "log_inv sample_ext sample_log"
  by (rule transparency.steps_inv[OF sample_log_run new_log_inv[OF sample_log_new]])

text \<open>The checkpoint of the sample log, with its consistency proof from size one.\<close>

lemma sample_log_served:
  obtains cp con where "verify_log_checkpoint_value sample_ext sample_resolver (checkpoint_json sample_ext cp) ''r.example''
      ''did:web:r.example'' 0 0 = Inr cp" "lc_timestamp cp = 0"
    "lc_tree_size cp = 1" "lc_root_hash cp = encode_sha256_hex (replicate 32 0)" "lc_log_id cp = sample_log_id"
    "consistency_from_value sample_ext (consistency_json sample_ext con) = Inr con" "lp_first_tree_size con = 1"
    "lp_log_checkpoint con = cp" "verify_against_first_root sample_ext con (encode_sha256_hex (replicate 32 0)) = Inr ()"
    "lp_log_id con = sample_log_id" "lp_second_tree_size con = 1"
proof -
  have did: "sg_registry_did sample_signer = ''did:web:r.example''" by (simp add: sample_signer_def)
  have auth: "sg_registry_did sample_signer = authority_to_did_web ''r.example''" by (simp add: did authority_to_did_web_def)
  have pid: "parse_log_id sample_log_id = Inr (sg_registry_did sample_signer, ''a'')" by (simp add: did sample_log_id_parsed)
  obtain cp where cp: "lc_log_id cp = sample_log_id" "lc_tree_size cp = 1"
      "root_hash_bytes cp = Inr (replicate 32 0)" "lc_root_hash cp = encode_sha256_hex (replicate 32 0)"
      "lc_timestamp cp = 0" "checkpoint_from_value sample_ext (checkpoint_json sample_ext cp) = Inr cp"
      "verify_log_checkpoint_value sample_ext sample_resolver (checkpoint_json sample_ext cp) ''r.example''
        ''did:web:r.example'' 0 0 = Inr cp"
    using minted_checkpoint[OF pid _ sample_published sample_clock(1) auth, of "replicate 32 0" 0 0 1] sample_clock(2) did
    by (metis add_0 length_replicate order_refl)
  define con where "con = \<lparr>lp_log_id = sample_log_id, lp_first_tree_size = 1, lp_second_tree_size = 1,
    lp_consistency_path = [], lp_log_checkpoint = cp\<rparr>"
  have "verify_against_first_root sample_ext con (encode_sha256_hex (replicate 32 0)) = Inr ()"
    using cp by (simp add: verify_against_first_root_def con_def decode_encode verify_consistency_def)
  then show thesis
    using that[OF cp(7,5,2,4,1), of con] consistency_roundtrip[of sample_ext con] cp(6) by (simp add: con_def)
qed

theorem minted_cosignature_counts_witness:
  "\<exists>cp c. mint_cosignature_checked sample_ext sample_resolver sample_witness_signer (checkpoint_json sample_ext cp) ''r.example''
      ''did:web:r.example'' None 0 0 0 = Inr c \<and>
    (let r = evaluate_witness_quorum sample_ext [JNull, cosignature_json sample_ext c]
       [''did:web:w.example'' \<mapsto> document_json sample_witness_document] {''did:web:w.example''} cp default_witness_policy 0 in
     ''did:web:w.example'' \<in> set (wq_witnesses r) \<and> wq_meets_quorum r)"
proof -
  obtain cp where cp: "verify_log_checkpoint_value sample_ext sample_resolver (checkpoint_json sample_ext cp) ''r.example''
      ''did:web:r.example'' 0 0 = Inr cp" "lc_timestamp cp = 0"
    using sample_log_served by metis
  have "\<exists>c. witness_mint sample_ext sample_witness_signer cp 0 = Inr c"
    unfolding witness_mint_def Let_def rbind_eq_Inr using cosignature_preimage_total by (auto simp: case_prod_beta)
  then obtain c where c: "mint_cosignature_checked sample_ext sample_resolver sample_witness_signer (checkpoint_json sample_ext cp)
      ''r.example'' ''did:web:r.example'' None 0 0 0 = Inr c"
    using cp by (auto simp: mint_cosignature_checked_def)
  have pol: "trunc_ms 0 \<le> 0 + seconds (wp_max_clock_skew_seconds default_witness_policy)" "wp_min_witnesses default_witness_policy \<le> 1"
    by (simp_all add: sample_clock seconds_def default_witness_policy_def)
  from c minted_cosignature_counts[OF sample_witness_new c cp(1) sample_witness_published _ _ _ _ sample_clock(1) pol,
      where docs = "[''did:web:w.example'' \<mapsto> document_json sample_witness_document]" and trusted = "{''did:web:w.example''}"
      and vs = "[JNull, cosignature_json sample_ext c]"]
  show ?thesis using cp(2) sample_time by auto
qed

section \<open>Split views\<close>

text \<open>Two lists of leaf hashes whose audit paths at one index hash two different inputs to one digest.\<close>

definition tree_collision :: "(bytes \<Rightarrow> digest) \<Rightarrow> digest list \<Rightarrow> digest list \<Rightarrow> bool" where
  "tree_collision sha256 ls ls' \<longleftrightarrow>
     (\<exists>k p p'. inclusion_path sha256 k ls = Some p \<and> inclusion_path sha256 k ls' = Some p' \<and>
        collides sha256 (inclusion_inputs sha256 p (of_nat k) (of_nat (length ls) - 1) (ls ! k))
          (inclusion_inputs sha256 p' (of_nat k) (of_nat (length ls') - 1) (ls' ! k)))"

lemma root_binds_leaves:
  assumes sha: "\<And>x. length (sha256 x) = 32" and d: "digests ls" "digests ls'" and len: "length ls = length ls'" "length ls' < 2 ^ 64"
    and root: "merkle_tree_hash sha256 ls = merkle_tree_hash sha256 ls'" and "ls \<noteq> ls'"
  shows "tree_collision sha256 ls ls'"
proof -
  obtain k where k: "k < length ls" "ls ! k \<noteq> ls' ! k" using len(1) assms(7) nth_equalityI by blast
  define p where "p = siblings (merkle_tree_hash sha256) single_leaf k ls"
  have p: "inclusion_path sha256 k ls = Some p" using inclusion_path_siblings[OF k(1)] by (simp add: p_def)
  have w: "unat (of_nat k :: u64) = k" using k len by (intro unat_of_nat_u64) linarith
  have acc: "verify_inclusion sha256 (ls ! k) (of_nat k) (of_nat (length ls')) p (merkle_tree_hash sha256 ls')"
    using inclusion_path_accepted[OF k(1) _ p] len root by simp
  have "digests (ls ! k # p)" using d(1) k(1) digests_siblings[OF sha d(1)] by (simp add: p_def digests_def)
  from forged_inclusion[OF sha d(2) len(2) acc this] w k p len(1) show ?thesis
    unfolding tree_collision_def by auto
qed

lemma obligationD:
  assumes "mint_cosignature_checked E resolve signer v authority did (Some cc) t skew now = Inr c"
    and "consistency_from_value E (wk_consistency_proof cc) = Inr p"
    and "decode_sha256_hex (wk_retained_root_hash cc) = Inr old"
  obtains path r where "decode_path (lp_consistency_path p) = Inr path"
    "decode_sha256_hex (wc_root_hash (cs_witnessed_checkpoint c)) = Inr r"
    "verify_consistency (x_sha256 E) (lp_first_tree_size p) (wc_tree_size (cs_witnessed_checkpoint c)) path old r"
proof -
  obtain cp where cp: "consistency_obligation E cp cc = Inr ()" "witness_mint E signer cp t = Inr c"
    using assms(1) by (auto simp: mint_cosignature_checked_def rbind_eq_Inr)
  then have w: "cs_witnessed_checkpoint c = from_checkpoint cp"
    by (auto simp: witness_mint_def Let_def rbind_eq_Inr case_prod_beta)
  have "lp_second_tree_size p = lc_tree_size cp" "lc_root_hash (lp_log_checkpoint p) = lc_root_hash cp"
      "verify_against_first_root E p (wk_retained_root_hash cc) = Inr ()"
    using cp(1) assms(2) by (auto simp: consistency_obligation_def rbind_eq_Inr)
  with that show thesis
    using assms(3) by (auto simp: verify_against_first_root_def rbind_eq_Inr root_hash_bytes_def w from_checkpoint_def)
qed

text \<open>
  C23. A witness only cosigns extensions of what it retained. Let \<open>old\<close> be the leaf hashes under the
  root the witness retained, at the proof's first size, and \<open>new\<close> any leaf hashes under the root it
  cosigns, at the cosigned size. If \<open>mint_cosignature_checked\<close> returns a cosignature, then \<open>old\<close> is a
  prefix of \<open>new\<close>; or explicit SHA-256 inputs collide, either in the audit paths of the two histories
  or in the run of the consistency check against the honest proof. So a registry that rewrites its
  log, or shows different logs to different parties, does not get it cosigned.
\<close>

theorem cosigned_checkpoint_extends_retained:
  assumes sha: "\<And>x. length (x_sha256 E x) = 32"
    and mint: "mint_cosignature_checked E resolve signer v authority did (Some cc) t skew now = Inr c"
    and p: "consistency_from_value E (wk_consistency_proof cc) = Inr p"
    and old: "decode_sha256_hex (wk_retained_root_hash cc) = Inr (merkle_tree_hash (x_sha256 E) old)" "digests old"
      "length old = unat (lp_first_tree_size p)"
    and new: "decode_sha256_hex (wc_root_hash (cs_witnessed_checkpoint c)) = Inr (merkle_tree_hash (x_sha256 E) new)"
      "digests new" "length new = unat (wc_tree_size (cs_witnessed_checkpoint c))"
  shows "prefix old new \<or> tree_collision (x_sha256 E) old (take (length old) new) \<or>
    (\<exists>path honest. decode_path (lp_consistency_path p) = Inr path \<and>
       consistency_proof (x_sha256 E) (length old) new = Some honest \<and>
       collides (x_sha256 E)
         (consistency_inputs (x_sha256 E) (lp_first_tree_size p) (of_nat (length new)) path (merkle_tree_hash (x_sha256 E) old))
         (consistency_inputs (x_sha256 E) (lp_first_tree_size p) (of_nat (length new)) honest
            (merkle_tree_hash (x_sha256 E) (take (length old) new))))"
proof -
  let ?m = "lp_first_tree_size p" and ?n = "wc_tree_size (cs_witnessed_checkpoint c)"
  obtain path where path: "decode_path (lp_consistency_path p) = Inr path"
      "verify_consistency (x_sha256 E) ?m ?n path (merkle_tree_hash (x_sha256 E) old) (merkle_tree_hash (x_sha256 E) new)"
    using obligationD[OF mint p old(1)] new(1) by (metis sum.inject(2))
  have n: "?n = of_nat (length new)" "length new < 2 ^ 64" using new(3) unat_less[of ?n] by simp_all
  have "?m \<le> ?n" using path(2) by (auto simp: verify_consistency_def split: if_splits)
  then have le: "length old \<le> length new" using old(3) new(3) by (simp add: word_le_nat_alt)
  show ?thesis
  proof (cases "merkle_tree_hash (x_sha256 E) old = merkle_tree_hash (x_sha256 E) (take (length old) new)")
    case True
    have "old = take (length old) new \<or> tree_collision (x_sha256 E) old (take (length old) new)"
      using root_binds_leaves[OF sha old(2) digests_take[OF new(2)] _ _ True] le n(2) by fastforce
    then show ?thesis by (metis take_is_prefix)
  next
    case False
    have "digests (merkle_tree_hash (x_sha256 E) old # path)"
      using length_merkle_tree_hash[OF sha old(2)] decode_path_digests[OF path(1)] by simp
    from forged_consistency[OF sha new(2) n(2) _ this] path False old(3) n(1) show ?thesis by auto
  qed
qed

theorem cosigned_checkpoint_extends_retained_witness:
  "\<exists>cp con c. mint_cosignature_checked sample_ext sample_resolver sample_witness_signer (checkpoint_json sample_ext cp) ''r.example''
      ''did:web:r.example''
      (Some \<lparr>wk_retained_root_hash = encode_sha256_hex (replicate 32 0), wk_consistency_proof = consistency_json sample_ext con\<rparr>)
      0 0 0 = Inr c \<and>
    (prefix [replicate 32 0] [replicate 32 (0::u8)] \<or>
     tree_collision (x_sha256 sample_ext) [replicate 32 0] (take (length [replicate 32 (0::u8)]) [replicate 32 0]) \<or>
     (\<exists>path honest. decode_path (lp_consistency_path con) = Inr path \<and>
       consistency_proof (x_sha256 sample_ext) (length [replicate 32 (0::u8)]) [replicate 32 0] = Some honest \<and>
       collides (x_sha256 sample_ext)
         (consistency_inputs (x_sha256 sample_ext) (lp_first_tree_size con) (of_nat (length [replicate 32 (0::u8)])) path
            (merkle_tree_hash (x_sha256 sample_ext) [replicate 32 0]))
         (consistency_inputs (x_sha256 sample_ext) (lp_first_tree_size con) (of_nat (length [replicate 32 (0::u8)])) honest
            (merkle_tree_hash (x_sha256 sample_ext) (take (length [replicate 32 (0::u8)]) [replicate 32 0])))))"
proof -
  obtain cp con where s: "verify_log_checkpoint_value sample_ext sample_resolver (checkpoint_json sample_ext cp) ''r.example''
      ''did:web:r.example'' 0 0 = Inr cp"
    "lc_tree_size cp = 1" "lc_root_hash cp = encode_sha256_hex (replicate 32 0)" "lc_log_id cp = sample_log_id"
    "consistency_from_value sample_ext (consistency_json sample_ext con) = Inr con" "lp_first_tree_size con = 1"
    "lp_log_checkpoint con = cp" "verify_against_first_root sample_ext con (encode_sha256_hex (replicate 32 0)) = Inr ()"
    "lp_log_id con = sample_log_id" "lp_second_tree_size con = 1"
    using sample_log_served by metis
  define cc where "cc = \<lparr>wk_retained_root_hash = encode_sha256_hex (replicate 32 0),
    wk_consistency_proof = consistency_json sample_ext con\<rparr>"
  have ob: "consistency_obligation sample_ext cp cc = Inr ()" using s by (simp add: consistency_obligation_def cc_def)
  obtain h where "cosignature_preimage_hash sample_ext \<lparr>cs_cosignature_version = COSIGNATURE_VERSION,
      cs_witness_id = ws_witness_id sample_witness_signer, cs_witnessed_checkpoint = from_checkpoint cp, cs_witnessed_at = trunc_ms 0,
      cs_signature = \<lparr>sig_algorithm = key_algorithm (ws_key sample_witness_signer), sig_key_id = ws_key_id sample_witness_signer,
        sig_value = []\<rparr>\<rparr> = Inr h"
    using cosignature_preimage_total by blast
  then obtain c where m: "witness_mint sample_ext sample_witness_signer cp 0 = Inr c" "cs_witnessed_checkpoint c = from_checkpoint cp"
    by (simp add: witness_mint_def Let_def case_prod_beta)
  then have c: "mint_cosignature_checked sample_ext sample_resolver sample_witness_signer (checkpoint_json sample_ext cp)
      ''r.example'' ''did:web:r.example'' (Some cc) 0 0 0 = Inr c"
    using s(1) ob by (simp add: mint_cosignature_checked_def)
  have "merkle_tree_hash (x_sha256 sample_ext) [replicate 32 0] = replicate 32 0" by (simp add: merkle_tree_hash.simps)
  with cosigned_checkpoint_extends_retained[OF _ c, of con "[replicate 32 0]" "[replicate 32 0]"] c s m(2)
  show ?thesis
    by (intro exI[of _ cp] exI[of _ con] exI[of _ c])
      (simp add: cc_def decode_encode from_checkpoint_def sample_ext_def)
qed

section \<open>Inclusion verdicts\<close>

lemma includedD:
  assumes "evaluate E resolve caps_did ctx (Inr lm) authority pol wp now = Inr tv" "tv_log tv = Some (Included i)"
  obtains raw cp leaf where "fc_log_inclusion ctx = Some raw" "verify_checkpoint E resolve caps_did raw authority now = Inr cp"
    "for_publish E (fc_body ctx) (b_content_hash (fc_body ctx)) (rr_key_fingerprint (lm_receipt lm)) (lm_receipt_value lm) = Inr leaf"
    "inclusion_from_value E raw = Inr i" "verify_reconstructed_leaf E i leaf = Inr ()"
proof -
  obtain lv ck where e: "evaluate_log E resolve caps_did ctx (Inr lm) authority pol (wp \<noteq> None) now = Inr (lv, ck)"
    using assms(1) by (cases "evaluate_log E resolve caps_did ctx (Inr lm) authority pol (wp \<noteq> None) now") (auto simp: evaluate_def)
  have "tv_log tv = lv" using assms(1) unfolding evaluate_def e rbind_simps
    by (cases wp) (auto simp: rbind_eq_Inr Let_def)
  with e assms(2) have "evaluate_log E resolve caps_did ctx (Inr lm) authority pol (wp \<noteq> None) now = Inr (Some (Included i), ck)"
    by simp
  then obtain raw where v: "fc_log_inclusion ctx = Some raw"
      "fst (inclusion_verdict E resolve caps_did ctx raw (Inr lm) authority (wp \<noteq> None) now) = Included i"
    by (auto simp: evaluate_log_def Let_def split: if_splits option.splits prod.splits log_inclusion_verdict.splits)
  then obtain cp where cp: "verify_checkpoint E resolve caps_did raw authority now = Inr cp" "check_leaf E ctx raw lm = Inr i"
    by (auto simp: inclusion_verdict_def Let_def split: sum.splits)
  from cp(2) obtain leaf where
    "for_publish E (fc_body ctx) (b_content_hash (fc_body ctx)) (rr_key_fingerprint (lm_receipt lm)) (lm_receipt_value lm) = Inr leaf"
    "inclusion_from_value E raw = Inr i" "verify_reconstructed_leaf E i leaf = Inr ()"
    by (auto simp: check_leaf_def rbind_eq_Inr)
  with that v(1) cp(1) show thesis by blast
qed

lemma for_publishD:
  assumes "for_publish E b h fp rv = Inr leaf"
  shows "ll_ctx_id leaf = b_ctx_id b" "ll_lineage_id leaf = b_lineage_id b" "ll_origin_registry leaf = b_origin_registry b"
    "ll_created_at leaf = b_created_at b" "ll_content_hash leaf = h" "ll_key_fingerprint leaf = fp"
  using assms by (auto simp: for_publish_def rbind_eq_Inr)

text \<open>
  Verdict \<open>included\<close> means logged. When a verification, under any log and witness policy, reports a
  context as included, and the checkpoint's root is the root of the registry's log at that size, then the
  log holds at that index a leaf with this context's identifiers, creation time, content hash and the
  receipt's key fingerprint; or explicit SHA-256 inputs collide.
\<close>

theorem included_context_is_logged:
  assumes sha: "\<And>x. length (x_sha256 E x) = 32" and sci: "sci_ok (x_sci E)"
    and run: "merkle_log_new log_id = Inr start" "(log_step E)\<^sup>*\<^sup>* start lg" "length (ml_leaves lg) < 2 ^ 64"
    and verdict: "evaluate E resolve caps_did ctx (Inr lm) authority pol wp now = Inr tv" "tv_log tv = Some (Included i)"
    and genuine: "unat (li_tree_size i) \<le> length (ml_leaves lg)"
      "root_hash_bytes (li_log_checkpoint i) = root_at E lg (li_tree_size i)"
    and times: "time_roundtrip E (b_created_at (fc_body ctx))"
      "time_roundtrip E (ll_created_at (ml_leaves lg ! unat (li_leaf_index i)))"
  shows "(let l = ml_leaves lg ! unat (li_leaf_index i); b = fc_body ctx in
      unat (li_leaf_index i) < length (ml_leaves lg) \<and>
      ll_ctx_id l = b_ctx_id b \<and> ll_lineage_id l = b_lineage_id b \<and> ll_origin_registry l = b_origin_registry b \<and>
      ll_created_at l = b_created_at b \<and> ll_content_hash l = b_content_hash b \<and>
      ll_key_fingerprint l = rr_key_fingerprint (lm_receipt lm)) \<or>
    (\<exists>leaf. for_publish E (fc_body ctx) (b_content_hash (fc_body ctx)) (rr_key_fingerprint (lm_receipt lm)) (lm_receipt_value lm)
        = Inr leaf \<and> leaf_collision E lg i leaf)"
proof -
  obtain leaf where
    v: "for_publish E (fc_body ctx) (b_content_hash (fc_body ctx)) (rr_key_fingerprint (lm_receipt lm)) (lm_receipt_value lm)
        = Inr leaf" "verify_reconstructed_leaf E i leaf = Inr ()"
    using includedD[OF verdict] by metis
  note f = for_publishD[OF v(1)]
  have "li_leaf_index i < li_tree_size i" using reconstructedD[OF v(2)] by metis
  then have "unat (li_leaf_index i) < length (ml_leaves lg)" using genuine(1) by (simp add: word_less_nat_alt)
  moreover have "leaf = ml_leaves lg ! unat (li_leaf_index i) \<or> leaf_collision E lg i leaf"
    using reconstructed_leaf_logged[OF sha sci run genuine v(2) _ times(2)] times(1) f(4) by simp
  ultimately show ?thesis using f v(1) by (auto simp: Let_def)
qed

definition sample_receipt :: registry_receipt where
  "sample_receipt = \<lparr>rr_registry_did = ''did:web:r.example'', rr_ctx_id = sample_ctx, rr_lineage_id = [], rr_origin_registry = ''r.example'',
     rr_created_at = 0, rr_content_hash = sample_hash, rr_key_fingerprint = sample_fp, rr_signature = unsigned_envelope sample_signer\<rparr>"

definition sample_material :: leaf_material where
  "sample_material = \<lparr>lm_receipt = sample_receipt, lm_receipt_value = receipt_json sample_ext sample_receipt\<rparr>"

theorem included_context_is_logged_witness:
  "\<exists>ctx tv i leaf. fc_body ctx = sample_body \<and>
    evaluate sample_ext sample_resolver (Inr ''did:web:r.example'') ctx (Inr sample_material) ''r.example'' LP_Require None 0 = Inr tv \<and>
    tv_log tv = Some (Included i) \<and>
    ((let l = ml_leaves (log_of leaf) ! unat (li_leaf_index i); b = fc_body ctx in
      unat (li_leaf_index i) < length (ml_leaves (log_of leaf)) \<and>
      ll_ctx_id l = b_ctx_id b \<and> ll_lineage_id l = b_lineage_id b \<and> ll_origin_registry l = b_origin_registry b \<and>
      ll_created_at l = b_created_at b \<and> ll_content_hash l = b_content_hash b \<and>
      ll_key_fingerprint l = rr_key_fingerprint (lm_receipt sample_material)) \<or>
    (\<exists>leaf'. for_publish sample_ext (fc_body ctx) (b_content_hash (fc_body ctx)) (rr_key_fingerprint (lm_receipt sample_material))
        (lm_receipt_value sample_material) = Inr leaf' \<and> leaf_collision sample_ext (log_of leaf) i leaf'))"
proof -
  have sha: "\<And>x. length (x_sha256 sample_ext x) = 32" by (simp add: sample_ext_def)
  obtain h where "receipt_preimage_hash sample_ext sample_receipt = Inr h" using receipt_preimage_total by (auto simp: is_ok_iff)
  then obtain leaf where leaf: "for_publish sample_ext sample_body (b_content_hash sample_body) sample_fp
      (receipt_json sample_ext sample_receipt) = Inr leaf" "ll_leaf_version leaf = LOG_LEAF_VERSION"
    by (simp add: for_publish_def receipt_preimage_hash_def)
  note f = for_publishD[OF leaf(1)]
  have b: "b_created_at sample_body = 0" "b_ctx_id sample_body = sample_ctx" "b_origin_registry sample_body = ''r.example''"
    by (simp_all add: sample_body_def from_publish_request_def sample_clock)
  have "ctx_id_authority sample_ctx = ''r.example''" by code_simp
  then have run: "(log_step sample_ext)\<^sup>*\<^sup>* sample_empty_log (log_of leaf)"
    using leaf(2) f b by (intro log_of_run) simp_all
  have inv: "log_inv sample_ext (log_of leaf)" by (rule transparency.steps_inv[OF run new_log_inv[OF sample_log_new]])
  have root: "merkle_tree_hash (x_sha256 sample_ext) [replicate 32 0] = replicate 32 0" by (simp add: merkle_tree_hash.simps)
  have pid: "parse_log_id sample_log_id = Inr (sg_registry_did sample_signer, ''a'')"
    "sg_registry_did sample_signer = authority_to_did_web ''r.example''" "sg_registry_did sample_signer = ''did:web:r.example''"
    by (simp_all add: sample_signer_def sample_log_id_parsed authority_to_did_web_def)
  obtain cp where cp: "lc_log_id cp = sample_log_id" "lc_tree_size cp = 1" "root_hash_bytes cp = Inr (replicate 32 0)"
      "checkpoint_from_value sample_ext (checkpoint_json sample_ext cp) = Inr cp"
      "verify_log_checkpoint_value sample_ext sample_resolver (checkpoint_json sample_ext cp) ''r.example''
        ''did:web:r.example'' (seconds DEFAULT_LOG_MAX_CLOCK_SKEW_SECONDS) 0 = Inr cp"
    using minted_checkpoint[OF pid(1) _ sample_published sample_clock(1) pid(2), of "replicate 32 0" 0
        "seconds DEFAULT_LOG_MAX_CLOCK_SKEW_SECONDS" 1] sample_clock(2) pid(3)
    by (auto simp: seconds_def DEFAULT_LOG_MAX_CLOCK_SKEW_SECONDS_def)
  obtain i where i: "log_inclusion_proof sample_ext (log_of leaf) (of_nat 0) cp = Some (Inr i)" "li_log_checkpoint i = cp"
      "li_leaf i = None" "li_tree_size i = 1" "verify_reconstructed_leaf sample_ext i leaf = Inr ()" "li_leaf_index i = 0"
    using served_inclusion[OF sha inv, of 0 1 cp] cp root by auto
  define ctx where "ctx = (fresh_context sample_body None)\<lparr>fc_log_inclusion := Some (inclusion_json sample_ext i)\<rparr>"
  have rt: "inclusion_from_value sample_ext (inclusion_json sample_ext i) = Inr i"
      "json_get (inclusion_json sample_ext i) ''log_checkpoint'' = Some (checkpoint_json sample_ext cp)"
    using inclusion_roundtrip[of sample_ext i] i cp(4) by simp_all
  have ctx: "fc_body ctx = sample_body" "fc_log_inclusion ctx = Some (inclusion_json sample_ext i)"
    by (simp_all add: ctx_def fresh_context_def)
  have mat: "rr_key_fingerprint (lm_receipt sample_material) = sample_fp"
      "lm_receipt_value sample_material = receipt_json sample_ext sample_receipt"
    by (simp_all add: sample_material_def sample_receipt_def)
  define tv where "tv = \<lparr>tv_log = Some (Included i), tv_witness = None\<rparr>"
  have ev: "evaluate sample_ext sample_resolver (Inr ''did:web:r.example'') ctx (Inr sample_material) ''r.example'' LP_Require None 0
      = Inr tv"
    using rt i cp(5) leaf ctx mat
    by (simp add: evaluate_def evaluate_log_def inclusion_verdict_def verify_checkpoint_def check_leaf_def tv_def)
  have "sci_ok (x_sci sample_ext)" by (simp add: sample_ext_def sci_ok_def char_class_defs)
  from included_context_is_logged[OF sha this sample_log_new run _ ev, of i] show ?thesis
    using ctx ev f b cp i root sample_time
    by (intro exI[of _ ctx] exI[of _ tv] exI[of _ i] exI[of _ leaf])
      (simp add: tv_def root_at_def checked_size_def)
qed

end
