(* ===== verification/Acdp_Wire.thy ===== *)
theory Acdp_Wire
  imports Acdp_Witness
begin

text \<open>
  Contexts as they travel: event receipts (\<open>crates/acdp-types/src/event_receipt.rs\<close>), the derived
  reading and writing of bodies, registry state and full contexts (\<open>body.rs\<close>, \<open>data_ref.rs\<close>,
  \<open>anchor.rs\<close>), and the checks a consumer makes over the JSON it received
  (\<open>crates/acdp-verify/src/raw_hash.rs\<close>, \<open>lib.rs\<close>).
\<close>

section \<open>Event receipts\<close>

definition EVENT_RECEIPT_TYPE :: string where
  "EVENT_RECEIPT_TYPE = ''acdp-event-receipt/1''"

record event_receipt =
  er_receipt_type :: string
  er_registry_did :: string
  er_ctx_id :: ctx_id
  er_event_id :: string
  er_event_hash :: string
  er_index :: u64
  er_accepted_at :: instant
  er_signature :: signature

definition event_receipt_json :: "ext \<Rightarrow> event_receipt \<Rightarrow> json" where
  "event_receipt_json E r = JObject
     [(''receipt_type'', JString (er_receipt_type r)), (''registry_did'', JString (er_registry_did r)),
      (''ctx_id'', JString (er_ctx_id r)), (''event_id'', JString (er_event_id r)), (''event_hash'', JString (er_event_hash r)),
      (''index'', JNumber (PosInt (er_index r))), (''accepted_at'', json_ms E (er_accepted_at r)),
      (''signature'', signature_json (er_signature r))]"

definition event_receipt_deserialize :: "ext \<Rightarrow> json \<Rightarrow> event_receipt option" where
  "event_receipt_deserialize E v =
     Option.bind (struct_members [''receipt_type'', ''registry_did'', ''ctx_id'', ''event_id'', ''event_hash'', ''index'',
         ''accepted_at'', ''signature''] v) (\<lambda>ms.
     Option.bind (member_str ms ''receipt_type'') (\<lambda>ty.
     Option.bind (member_str ms ''registry_did'') (\<lambda>did.
     Option.bind (member_str ms ''ctx_id'') (\<lambda>c.
     Option.bind (member_str ms ''event_id'') (\<lambda>i.
     Option.bind (member_str ms ''event_hash'') (\<lambda>h.
     Option.bind (Option.bind (map_of ms ''index'') as_u64) (\<lambda>n.
     Option.bind (member_ms E ms ''accepted_at'') (\<lambda>t.
     Option.bind (Option.bind (map_of ms ''signature'') signature_deserialize) (\<lambda>s.
     Some \<lparr>er_receipt_type = ty, er_registry_did = did, er_ctx_id = c, er_event_id = i, er_event_hash = h, er_index = n,
           er_accepted_at = t, er_signature = s\<rparr>)))))))))"

definition is_canonical_uuid :: "string \<Rightarrow> bool" where
  "is_canonical_uuid s \<longleftrightarrow>
     length s = 36 \<and> list_all (\<lambda>(i, c). if i \<in> {8, 13, 18, 23} then c = CHR ''-'' else is_lower_hex c) (enumerate 0 s)"

definition is_sha256_digest :: "string \<Rightarrow> bool" where
  "is_sha256_digest s =
     (case strip_prefix ''sha256:'' s of None \<Rightarrow> False | Some hex \<Rightarrow> length hex = 64 \<and> list_all is_lower_hex hex)"

definition event_receipt_validate :: "event_receipt \<Rightarrow> unit acdp_result" where
  "event_receipt_validate r =
     checks [require (er_receipt_type r = EVENT_RECEIPT_TYPE) InvalidReceipt,
             map_err InvalidReceipt (void (ctx_id_parse (er_ctx_id r))),
             require (is_canonical_uuid (er_event_id r)) InvalidReceipt,
             require (is_sha256_digest (er_event_hash r)) InvalidReceipt,
             require (key_id_under (er_registry_did r) (sig_key_id (er_signature r))) InvalidReceipt]"

definition event_receipt_from_value :: "ext \<Rightarrow> json \<Rightarrow> event_receipt acdp_result" where
  "event_receipt_from_value E v =
     rbind (raw_ms_form E v ''accepted_at'' InvalidReceipt) (\<lambda>_.
     rbind (ok_or (event_receipt_deserialize E v) InvalidReceipt) (\<lambda>r.
     rbind (event_receipt_validate r) (\<lambda>_. Inr r)))"

definition event_hash_of_value :: "ext \<Rightarrow> json \<Rightarrow> string acdp_result" where
  "event_hash_of_value E raw_event =
     rbind (try_canonicalize_value (x_sci E) raw_event) (\<lambda>canonical.
     Inr (''sha256:'' @ hex_encode (x_sha256 E (string_bytes canonical))))"

definition check_binding ::
  "ext \<Rightarrow> event_receipt \<Rightarrow> string \<Rightarrow> ctx_id \<Rightarrow> json \<Rightarrow> u64 \<Rightarrow> instant \<Rightarrow> unit acdp_result" where
  "check_binding E r origin_registry c raw_event index created_at =
     checks [require (er_registry_did r = authority_to_did_web origin_registry) InvalidReceipt,
             require (er_ctx_id r = c) InvalidReceipt,
             require (get_str raw_event ''event_id'' = Some (er_event_id r)) InvalidReceipt,
             require (er_index r = index) InvalidReceipt,
             rbind (event_hash_of_value E raw_event) (\<lambda>h. require (h = er_event_hash r) InvalidReceipt),
             require (\<not> er_accepted_at r < created_at) InvalidReceipt]"

definition event_receipt_preimage_hash_of_value :: "ext \<Rightarrow> json \<Rightarrow> content_hash acdp_result" where
  "event_receipt_preimage_hash_of_value E v = preimage_hash_of_object E v"

definition event_receipt_preimage_hash :: "ext \<Rightarrow> event_receipt \<Rightarrow> content_hash acdp_result" where
  "event_receipt_preimage_hash E r = event_receipt_preimage_hash_of_value E (event_receipt_json E r)"

definition event_receipt_verify_against_hash ::
  "ext \<Rightarrow> event_receipt \<Rightarrow> content_hash \<Rightarrow> bytes option \<Rightarrow> bytes option \<Rightarrow> unit acdp_result" where
  "event_receipt_verify_against_hash E r h ed p256 = verify_signature_over_hash_with E (er_signature r) h ed p256 InvalidReceipt"

definition mint_event_receipt ::
  "ext \<Rightarrow> receipt_signer \<Rightarrow> ctx_id \<Rightarrow> json \<Rightarrow> u64 \<Rightarrow> instant \<Rightarrow> event_receipt acdp_result" where
  "mint_event_receipt E signer c raw_event index accepted_at =
     rbind (ok_or (get_str raw_event ''event_id'') SchemaViolation) (\<lambda>i.
     rbind (event_hash_of_value E raw_event) (\<lambda>h.
     (let r = \<lparr>er_receipt_type = EVENT_RECEIPT_TYPE, er_registry_did = sg_registry_did signer, er_ctx_id = c, er_event_id = i,
               er_event_hash = h, er_index = index, er_accepted_at = trunc_ms accepted_at,
               er_signature = unsigned_envelope signer\<rparr> in
      rbind (event_receipt_validate r) (\<lambda>_.
      rbind (event_receipt_preimage_hash E r) (\<lambda>hash. Inr (r\<lparr>er_signature := signed_envelope E signer hash\<rparr>))))))"

definition verify_event_receipt_value ::
  "ext \<Rightarrow> web_resolver \<Rightarrow> json \<Rightarrow> string \<Rightarrow> ctx_id \<Rightarrow> json \<Rightarrow> u64 \<Rightarrow> instant \<Rightarrow> (event_receipt \<times> receipt_key_status) acdp_result" where
  "verify_event_receipt_value E resolve value origin_registry c raw_event index created_at =
     rbind (event_receipt_from_value E value) (\<lambda>r.
     rbind (check_binding E r origin_registry c raw_event index created_at) (\<lambda>_.
     rbind (ok_or (split_once CHR ''#'' (sig_key_id (er_signature r))) InvalidReceipt) (\<lambda>(did_part, fragment).
     rbind (require (did_part = er_registry_did r) InvalidReceipt) (\<lambda>_.
     rbind (resolve_receipt_key_with_status resolve did_part fragment) (\<lambda>(m, status).
     rbind (event_receipt_preimage_hash_of_value E value) (\<lambda>raw_hash.
     rbind (verify_with_receipt_method E m (sig_algorithm (er_signature r)) InvalidReceipt
              (event_receipt_verify_against_hash E r raw_hash)) (\<lambda>_.
     Inr (r, status))))))))"

section \<open>Reading bodies\<close>

text \<open>
  A derived enumeration of unit variants reads a string, or an object whose only member is the name
  with a null. A plain \<open>Option\<close> member is absent or null; a struct with a flattened map reads objects
  only and keeps the members it does not name.
\<close>

fun unit_variant :: "json \<Rightarrow> string option" where
  "unit_variant (JString s) = Some s"
| "unit_variant (JObject [(k, JNull)]) = Some k"
| "unit_variant _ = None"

definition de_nullable :: "(json \<Rightarrow> 'a option) \<Rightarrow> json option \<Rightarrow> 'a option option" where
  "de_nullable f m = (case m of None \<Rightarrow> Some None | Some JNull \<Rightarrow> Some None | Some v \<Rightarrow> map_option Some (f v))"

definition de_list :: "(json \<Rightarrow> 'a option) \<Rightarrow> json \<Rightarrow> 'a list option" where
  "de_list f v = (case v of JArray vs \<Rightarrow> those (map f vs) | _ \<Rightarrow> None)"

definition unnamed :: "string list \<Rightarrow> json_map \<Rightarrow> json_map" where
  "unnamed names ms = filter (\<lambda>(k, _). k \<notin> set names) ms"

definition datetime_deserialize :: "ext \<Rightarrow> json \<Rightarrow> instant option" where
  "datetime_deserialize E v = Option.bind (as_str v) (x_parse_datetime E)"

definition visibility_deserialize :: "json \<Rightarrow> visibility option" where
  "visibility_deserialize v = Option.bind (unit_variant v)
     (\<lambda>s. map_of [(''public'', Public), (''restricted'', Restricted), (''private'', Private)] s)"

definition data_ref_type_deserialize :: "json \<Rightarrow> data_ref_type option" where
  "data_ref_type_deserialize v = Option.bind (unit_variant v)
     (\<lambda>s. map_of [(''primary_result'', PrimaryResult), (''raw_data'', RawData), (''supporting_info'', SupportingInfo),
                 (''derived_data'', DerivedData)] s)"

definition encoding_deserialize :: "json \<Rightarrow> embedded_encoding option" where
  "encoding_deserialize v = Option.bind (unit_variant v)
     (\<lambda>s. map_of [(''json'', EncJson), (''utf8'', EncUtf8), (''base64'', EncBase64)] s)"

definition context_type_of_value :: "json \<Rightarrow> context_type option" where
  "context_type_of_value v = Option.bind (as_str v)
     (\<lambda>s. case context_type_deserialize s of Inl _ \<Rightarrow> None | Inr t \<Rightarrow> Some t)"

fun location_deserialize :: "json \<Rightarrow> location option" where
  "location_deserialize (JString u) = Some (Uri u)"
| "location_deserialize (JObject m) = Some (Structured m)"
| "location_deserialize _ = None"

definition data_period_deserialize :: "ext \<Rightarrow> json \<Rightarrow> data_period option" where
  "data_period_deserialize E v =
     Option.bind (struct_members [''start'', ''end''] v) (\<lambda>ms.
     Option.bind (Option.bind (map_of ms ''start'') (datetime_deserialize E)) (\<lambda>a.
     Option.bind (Option.bind (map_of ms ''end'') (datetime_deserialize E)) (\<lambda>b.
     Some \<lparr>dp_start = a, dp_end = b\<rparr>)))"

definition embedded_deserialize :: "json \<Rightarrow> embedded_content option" where
  "embedded_deserialize v =
     Option.bind (struct_members [''encoding'', ''content'', ''content_hash''] v) (\<lambda>ms.
     Option.bind (Option.bind (map_of ms ''encoding'') encoding_deserialize) (\<lambda>e.
     Option.bind (map_of ms ''content'') (\<lambda>c.
     Option.bind (de_present as_str (map_of ms ''content_hash'')) (\<lambda>h.
     Some \<lparr>em_encoding = e, em_content = c, em_content_hash = h\<rparr>))))"

definition ANCHOR_FIELDS :: "string list" where
  "ANCHOR_FIELDS = [''scheme'', ''content_hash'', ''uri'']"

definition anchor_deserialize :: "json \<Rightarrow> anchor_entry option" where
  "anchor_deserialize v =
     Option.bind (as_object v) (\<lambda>ms.
     Option.bind (member_str ms ''scheme'') (\<lambda>s.
     Option.bind (member_str ms ''content_hash'') (\<lambda>h.
     Option.bind (de_nullable as_str (map_of ms ''uri'')) (\<lambda>u.
     Some \<lparr>an_scheme = s, an_content_hash = h, an_uri = u, an_extensions = unnamed ANCHOR_FIELDS ms\<rparr>))))"

definition DATA_REF_FIELDS :: "string list" where
  "DATA_REF_FIELDS = [''type'', ''description'', ''size_bytes'', ''format'', ''schema_version'', ''content_hash'', ''location'', ''embedded'']"

definition data_ref_deserialize :: "json \<Rightarrow> data_ref option" where
  "data_ref_deserialize v =
     Option.bind (as_object v) (\<lambda>ms.
     Option.bind (Option.bind (map_of ms ''type'') data_ref_type_deserialize) (\<lambda>t.
     Option.bind (de_present as_str (map_of ms ''description'')) (\<lambda>d.
     Option.bind (de_present as_u64 (map_of ms ''size_bytes'')) (\<lambda>n.
     Option.bind (de_present as_str (map_of ms ''format'')) (\<lambda>f.
     Option.bind (de_present as_str (map_of ms ''schema_version'')) (\<lambda>sv.
     Option.bind (de_present as_str (map_of ms ''content_hash'')) (\<lambda>h.
     Option.bind (de_present location_deserialize (map_of ms ''location'')) (\<lambda>l.
     Option.bind (de_present embedded_deserialize (map_of ms ''embedded'')) (\<lambda>e.
     Some \<lparr>dr_ref_type = t, dr_description = d, dr_size_bytes = n, dr_format = f, dr_schema_version = sv, dr_content_hash = h,
           dr_location = l, dr_embedded = e, dr_extensions = unnamed DATA_REF_FIELDS ms\<rparr>)))))))))"

definition BODY_FIELDS :: "string list" where
  "BODY_FIELDS =
     [''ctx_id'', ''lineage_id'', ''origin_registry'', ''created_at'', ''content_hash'', ''signature'', ''version'', ''supersedes'',
      ''agent_id'', ''contributors'', ''title'', ''type'', ''data_refs'', ''derived_from'', ''visibility'', ''audience'',
      ''acdp_version'', ''description'', ''summary'', ''tags'', ''domain'', ''expires_at'', ''data_period'', ''metadata'',
      ''schema_uri'', ''anchors'']"

definition body_deserialize :: "ext \<Rightarrow> json \<Rightarrow> body option" where
  "body_deserialize E v =
     Option.bind (as_object v) (\<lambda>ms.
     Option.bind (member_str ms ''ctx_id'') (\<lambda>c.
     Option.bind (member_str ms ''lineage_id'') (\<lambda>l.
     Option.bind (member_str ms ''origin_registry'') (\<lambda>o_reg.
     Option.bind (Option.bind (map_of ms ''created_at'') (datetime_deserialize E)) (\<lambda>t.
     Option.bind (member_str ms ''content_hash'') (\<lambda>h.
     Option.bind (Option.bind (map_of ms ''signature'') signature_deserialize) (\<lambda>s.
     Option.bind (Option.bind (map_of ms ''version'') as_u32) (\<lambda>n.
     Option.bind (de_nullable as_str (map_of ms ''supersedes'')) (\<lambda>sup.
     Option.bind (member_str ms ''agent_id'') (\<lambda>a.
     Option.bind (Option.bind (map_of ms ''contributors'') as_strings) (\<lambda>con.
     Option.bind (member_str ms ''title'') (\<lambda>ti.
     Option.bind (Option.bind (map_of ms ''type'') context_type_of_value) (\<lambda>ty.
     Option.bind (Option.bind (map_of ms ''data_refs'') (de_list data_ref_deserialize)) (\<lambda>drs.
     Option.bind (Option.bind (map_of ms ''derived_from'') as_strings) (\<lambda>df.
     Option.bind (Option.bind (map_of ms ''visibility'') visibility_deserialize) (\<lambda>vis.
     Option.bind (de_nullable as_strings (map_of ms ''audience'')) (\<lambda>au.
     Option.bind (de_present as_str (map_of ms ''acdp_version'')) (\<lambda>av.
     Option.bind (de_present as_str (map_of ms ''description'')) (\<lambda>de.
     Option.bind (de_present as_str (map_of ms ''summary'')) (\<lambda>su.
     Option.bind (de_present as_strings (map_of ms ''tags'')) (\<lambda>ta.
     Option.bind (de_present as_str (map_of ms ''domain'')) (\<lambda>dom.
     Option.bind (de_nullable (datetime_deserialize E) (map_of ms ''expires_at'')) (\<lambda>ex.
     Option.bind (de_nullable (data_period_deserialize E) (map_of ms ''data_period'')) (\<lambda>dp.
     Option.bind (de_nullable Some (map_of ms ''metadata'')) (\<lambda>me.
     Option.bind (de_present as_str (map_of ms ''schema_uri'')) (\<lambda>sch.
     Option.bind (de_present (de_list anchor_deserialize) (map_of ms ''anchors'')) (\<lambda>an.
     Some \<lparr>b_ctx_id = c, b_lineage_id = l, b_origin_registry = o_reg, b_created_at = t, b_content_hash = h, b_signature = s,
           b_version = n, b_supersedes = sup, b_agent_id = a, b_contributors = con, b_title = ti, b_context_type = ty,
           b_data_refs = drs, b_derived_from = df, b_visibility = vis, b_audience = au, b_acdp_version = av, b_description = de,
           b_summary = su, b_tags = ta, b_domain = dom, b_expires_at = ex, b_data_period = dp, b_metadata = me,
           b_schema_uri = sch, b_anchors = an, b_extensions = unnamed BODY_FIELDS ms\<rparr>)))))))))))))))))))))))))))"

section \<open>Registry state and full contexts\<close>

text \<open>Event receipts are kept in their serialized form.\<close>

definition STATE_FIELDS :: "string list" where
  "STATE_FIELDS = [''status'', ''lifecycle_events'', ''event_receipts'']"

definition de_event_receipts :: "ext \<Rightarrow> json \<Rightarrow> json list option" where
  "de_event_receipts E v = de_list (\<lambda>x. case event_receipt_from_value E x of Inl _ \<Rightarrow> None | Inr r \<Rightarrow> Some (event_receipt_json E r)) v"

definition state_json :: "ext \<Rightarrow> registry_state \<Rightarrow> json" where
  "state_json E s = JObject (to_map
     ([(''status'', JString (status_as_str (rs_status s)))] @
      opt_member ''lifecycle_events'' (\<lambda>es. JArray (map (event_json E) es)) (rs_lifecycle_events s) @
      opt_member ''event_receipts'' JArray (rs_event_receipts s) @ rs_extensions s))"

definition state_deserialize :: "ext \<Rightarrow> json \<Rightarrow> registry_state option" where
  "state_deserialize E v =
     Option.bind (as_object v) (\<lambda>ms.
     Option.bind (Option.bind (member_str ms ''status'') (\<lambda>s. case status_parse s of Inl _ \<Rightarrow> None | Inr st \<Rightarrow> Some st)) (\<lambda>st.
     Option.bind (de_nullable (de_list (event_deserialize E)) (map_of ms ''lifecycle_events'')) (\<lambda>es.
     Option.bind (de_present (de_event_receipts E) (map_of ms ''event_receipts'')) (\<lambda>rs.
     Some \<lparr>rs_status = st, rs_lifecycle_events = es, rs_event_receipts = rs, rs_extensions = unnamed STATE_FIELDS ms\<rparr>))))"

definition CONTEXT_FIELDS :: "string list" where
  "CONTEXT_FIELDS = [''body'', ''registry_state'', ''registry_receipt'', ''lineage_head_receipt'', ''log_inclusion'']"

definition context_json :: "ext \<Rightarrow> full_context \<Rightarrow> json" where
  "context_json E c = JObject (to_map
     ([(''body'', body_json E (fc_body c)), (''registry_state'', state_json E (fc_registry_state c))] @
      opt_member ''registry_receipt'' (\<lambda>v. v) (fc_registry_receipt c) @
      opt_member ''lineage_head_receipt'' (\<lambda>v. v) (fc_lineage_head_receipt c) @
      opt_member ''log_inclusion'' (\<lambda>v. v) (fc_log_inclusion c) @ fc_extensions c))"

definition context_deserialize :: "ext \<Rightarrow> json \<Rightarrow> full_context option" where
  "context_deserialize E v =
     Option.bind (as_object v) (\<lambda>ms.
     Option.bind (map_of ms ''body'') (\<lambda>raw.
     Option.bind (Option.bind (map_of ms ''registry_state'') (state_deserialize E)) (\<lambda>st.
     Option.bind (de_nullable Some (map_of ms ''registry_receipt'')) (\<lambda>rr.
     Option.bind (de_nullable Some (map_of ms ''lineage_head_receipt'')) (\<lambda>hr.
     Option.bind (de_nullable Some (map_of ms ''log_inclusion'')) (\<lambda>li.
     Option.bind (body_deserialize E raw) (\<lambda>b.
     Some \<lparr>fc_body = b, fc_registry_state = st, fc_registry_receipt = rr, fc_lineage_head_receipt = hr, fc_log_inclusion = li,
           fc_extensions = unnamed CONTEXT_FIELDS ms, fc_raw_body = Some raw\<rparr>)))))))"

section \<open>Hashes and signatures over what was received\<close>

definition raw_describes_body :: "ext \<Rightarrow> json \<Rightarrow> body \<Rightarrow> bool" where
  "raw_describes_body E raw b =
     (case body_deserialize E raw of None \<Rightarrow> False | Some reparsed \<Rightarrow> value_eq (body_json E reparsed) (body_json E b))"

definition verify_raw_body_hash :: "ext \<Rightarrow> json \<Rightarrow> body \<Rightarrow> unit acdp_result" where
  "verify_raw_body_hash E raw b =
     (if raw_describes_body E raw b then verify_content_hash (x_sci E) (x_sha256 E) raw (b_content_hash b)
      else verify_typed_body_hash E b)"

definition verify_context_hash :: "ext \<Rightarrow> full_context \<Rightarrow> unit acdp_result" where
  "verify_context_hash E ctx =
     (case fc_raw_body ctx of Some raw \<Rightarrow> verify_raw_body_hash E raw (fc_body ctx) | None \<Rightarrow> verify_typed_body_hash E (fc_body ctx))"

definition verify_context :: "ext \<Rightarrow> web_resolver \<Rightarrow> full_context \<Rightarrow> unit acdp_result" where
  "verify_context E resolve ctx =
     checks [validate_body E (fc_body ctx), verify_context_hash E ctx, verify_body_signature E resolve (fc_body ctx)]"

definition verify_body_value_offline :: "ext \<Rightarrow> json \<Rightarrow> body acdp_result" where
  "verify_body_value_offline E raw =
     rbind (ok_or (body_deserialize E raw) SchemaViolation) (\<lambda>b.
     rbind (validate_body E b) (\<lambda>_.
     rbind (require (starts_with ''did:key:'' (b_agent_id b)) KeyResolution) (\<lambda>_.
     rbind (verify_content_hash (x_sci E) (x_sha256 E) raw (b_content_hash b)) (\<lambda>_.
     rbind (verify_did_key_signature E b) (\<lambda>_. Inr b)))))"

text \<open>As the envelope check, without membership in \<open>assertionMethod\<close>.\<close>

definition verify_body_signature_historical :: "ext \<Rightarrow> web_resolver \<Rightarrow> body \<Rightarrow> unit acdp_result" where
  "verify_body_signature_historical E resolve b =
     rbind (ok_or (split_once CHR ''#'' (sig_key_id (b_signature b))) KeyResolution) (\<lambda>(did_part, fragment).
     rbind (refuse_keyless_fragment fragment) (\<lambda>_.
     rbind (require (did_part = b_agent_id b) KeyNotAuthorized) (\<lambda>_.
     rbind (require (starts_with ''did:web:'' did_part) KeyResolution) (\<lambda>_.
     rbind (resolve_with_fragment resolve did_part fragment) (\<lambda>m.
     verify_signature_with_method E m (b_signature b) (b_content_hash b))))))"

end
