(* ===== verification/Acdp_Verdict.thy ===== *)
theory Acdp_Verdict
  imports Acdp_Receipt Acdp_Revocation "HOL-Library.Product_Lexorder"
begin

text \<open>
  What a consumer concludes about a signing key: the cache of revocation facts and absences
  (\<open>crates/acdp-client/src/revocation_cache.rs\<close>), the verdict over the revocations it has gathered
  (\<open>crates/acdp-client/src/revocation_verdict.rs\<close>) and the boundary rule of
  \<open>crates/acdp-client/src/revocation.rs\<close>. Poisoned locks are not modelled.
\<close>

section \<open>The cache\<close>

definition MAX_MARKERS :: nat where
  "MAX_MARKERS = 4096"

definition MAX_FACTS_PER_CLASS :: nat where
  "MAX_FACTS_PER_CLASS = 256"

record stored_fact =
  sf_rev :: key_revocation
  sf_origin :: string

record fact_set =
  fs_facts :: "stored_fact list"
  fs_producer_signed_full :: bool
  fs_attested_full :: "string set"

definition fs_count :: "fact_set \<Rightarrow> revocation_trust_class \<Rightarrow> string \<Rightarrow> nat" where
  "fs_count s cls origin =
     length (filter (\<lambda>f. kr_trust_class (sf_rev f) = cls \<and> (cls = ProducerSigned \<or> sf_origin f = origin)) (fs_facts s))"

fun fs_full :: "fact_set \<Rightarrow> revocation_trust_class \<Rightarrow> string \<Rightarrow> bool" where
  "fs_full s ProducerSigned origin = fs_producer_signed_full s"
| "fs_full s RegistryAttested origin = (origin \<in> fs_attested_full s)"

fun fs_mark_full :: "fact_set \<Rightarrow> revocation_trust_class \<Rightarrow> string \<Rightarrow> fact_set" where
  "fs_mark_full s ProducerSigned origin = s\<lparr>fs_producer_signed_full := True\<rparr>"
| "fs_mark_full s RegistryAttested origin = s\<lparr>fs_attested_full := insert origin (fs_attested_full s)\<rparr>"

text \<open>The key of a marker: agent, authority, and whether the class is the registry-attested one.\<close>

type_synonym marker_key = "string \<times> string \<times> bool"

text \<open>\<open>minted\<close> is on the monotonic clock, \<open>observed\<close> on the wall clock.\<close>

record marker =
  mk_minted :: int
  mk_observed :: int

text \<open>The markers are listed in the iteration order of the hash map; no key occurs twice.\<close>

record revocation_cache =
  ch_facts :: "string \<Rightarrow> fact_set option"
  ch_markers :: "(marker_key \<times> marker) list"

definition cache_new :: revocation_cache where
  "cache_new = \<lparr>ch_facts = (\<lambda>_. None), ch_markers = []\<rparr>"

fun class_key :: "revocation_trust_class \<Rightarrow> bool" where
  "class_key ProducerSigned = False"
| "class_key RegistryAttested = True"

definition facts_for :: "revocation_cache \<Rightarrow> string \<Rightarrow> bool \<Rightarrow> string option \<Rightarrow> (key_revocation \<times> string) list" where
  "facts_for c agent_id include_registry_attested current_vantage =
     (case ch_facts c agent_id of
        None \<Rightarrow> []
      | Some s \<Rightarrow>
          map (\<lambda>f. (sf_rev f, sf_origin f))
            (filter (\<lambda>f. case kr_trust_class (sf_rev f) of
                 ProducerSigned \<Rightarrow> True
               | RegistryAttested \<Rightarrow> include_registry_attested \<and> current_vantage = Some (sf_origin f)) (fs_facts s)))"

definition fresh_marker ::
  "revocation_cache \<Rightarrow> string \<Rightarrow> string \<Rightarrow> revocation_trust_class \<Rightarrow> int \<Rightarrow> int \<Rightarrow> int option" where
  "fresh_marker c authority agent_id cls freshness now =
     (if freshness = 0 then None
      else case map_of (ch_markers c) (agent_id, authority, class_key cls) of
        None \<Rightarrow> None
      | Some m \<Rightarrow> if now - mk_minted m < freshness then Some (mk_observed m) else None)"

text \<open>\<open>Iterator::min_by_key\<close>: the first of the least elements.\<close>

primrec min_by_key :: "('a \<Rightarrow> 'k :: linorder) \<Rightarrow> 'a list \<Rightarrow> 'a option" where
  "min_by_key f [] = None"
| "min_by_key f (x # xs) =
     (case min_by_key f xs of None \<Rightarrow> Some x | Some y \<Rightarrow> if f x \<le> f y then Some x else Some y)"

definition admit_fact :: "string \<Rightarrow> key_revocation \<Rightarrow> fact_set \<Rightarrow> fact_set" where
  "admit_fact authority f s =
     (if f \<in> sf_rev ` set (fs_facts s) then s
      else if MAX_FACTS_PER_CLASS \<le> fs_count s (kr_trust_class f) authority then fs_mark_full s (kr_trust_class f) authority
      else s\<lparr>fs_facts := fs_facts s @ [\<lparr>sf_rev = f, sf_origin = authority\<rparr>]\<rparr>)"

definition evict_oldest :: "marker_key \<Rightarrow> (marker_key \<times> marker) list \<Rightarrow> (marker_key \<times> marker) list" where
  "evict_oldest key ms =
     (if key \<notin> fst ` set ms \<and> MAX_MARKERS \<le> length ms then
        (case min_by_key (\<lambda>(_, m). mk_minted m) ms of
           Some (oldest, _) \<Rightarrow> filter (\<lambda>(k, _). k \<noteq> oldest) ms
         | None \<Rightarrow> ms)
      else ms)"

text \<open>\<open>HashMap::insert\<close>: an existing entry keeps its place.\<close>

definition insert_marker :: "marker_key \<Rightarrow> marker \<Rightarrow> (marker_key \<times> marker) list \<Rightarrow> (marker_key \<times> marker) list" where
  "insert_marker key m ms =
     (if key \<in> fst ` set ms then map (\<lambda>(k, x). if k = key then (k, m) else (k, x)) ms else ms @ [(key, m)])"

definition record_success ::
  "string \<Rightarrow> string \<Rightarrow> revocation_trust_class \<Rightarrow> key_revocation list \<Rightarrow> int \<Rightarrow> int \<Rightarrow> revocation_cache \<Rightarrow> revocation_cache" where
  "record_success authority agent_id cls facts now wall c =
     (let s0 = (case ch_facts c agent_id of
                  Some s \<Rightarrow> s
                | None \<Rightarrow> \<lparr>fs_facts = [], fs_producer_signed_full = False, fs_attested_full = {}\<rparr>);
          s = fold (admit_fact authority) facts s0;
          c' = c\<lparr>ch_facts := (ch_facts c)(agent_id \<mapsto> s)\<rparr>;
          key = (agent_id, authority, class_key cls) in
      if fs_full s cls authority then c'\<lparr>ch_markers := filter (\<lambda>(k, _). k \<noteq> key) (ch_markers c)\<rparr>
      else c'\<lparr>ch_markers := insert_marker key \<lparr>mk_minted = now, mk_observed = wall\<rparr> (evict_oldest key (ch_markers c))\<rparr>)"

section \<open>Policies and verdicts\<close>

datatype discovery_failure_policy = FailClosed | ProceedWithKnown

record revocation_discovery =
  rd_include_registry_attested :: bool
  rd_on_failure :: discovery_failure_policy
  rd_total_timeout :: int
  rd_max_requests :: "nat option"
  rd_max_bytes :: "u64 option"
  rd_freshness :: int

definition RECOMMENDED_NEGATIVE_FRESHNESS :: int where
  "RECOMMENDED_NEGATIVE_FRESHNESS = 300 * 1000000000"

definition producer_signed_only :: revocation_discovery where
  "producer_signed_only =
     \<lparr>rd_include_registry_attested = False, rd_on_failure = FailClosed, rd_total_timeout = 30 * 1000000000,
      rd_max_requests = None, rd_max_bytes = None, rd_freshness = RECOMMENDED_NEGATIVE_FRESHNESS\<rparr>"

definition all_trust_classes :: revocation_discovery where
  "all_trust_classes =
     \<lparr>rd_include_registry_attested = True, rd_on_failure = FailClosed, rd_total_timeout = 30 * 1000000000,
      rd_max_requests = None, rd_max_bytes = None, rd_freshness = RECOMMENDED_NEGATIVE_FRESHNESS\<rparr>"

record revocation_policy =
  rp_known :: "key_revocation list"
  rp_discover :: "revocation_discovery option"
  rp_accept_historical_receipt_key_for_pre_t :: bool

record discovery_outcome =
  do_producer_signed :: nat
  do_registry_attested :: "nat option"

datatype key_authorization = CurrentlyAuthorized | HistoricallyAuthorized | HistoricallyAuthorizedPreCompromise

datatype revocation_verdict =
    RV_Revoked revocation_effect instant sourced_revocation "instant option"
  | RV_NotRevoked bool bool "int option"
  | RV_Unknown unknown_reason

fun is_refusal :: "revocation_verdict \<Rightarrow> bool" where
  "is_refusal (RV_Revoked effect _ _ _) = (effect \<in> {Revoked, Unplaceable})"
| "is_refusal _ = False"

fun is_unknown :: "revocation_verdict \<Rightarrow> bool" where
  "is_unknown (RV_Unknown _) = True"
| "is_unknown _ = False"

fun verdict_unknown_reason :: "revocation_verdict \<Rightarrow> unknown_reason option" where
  "verdict_unknown_reason (RV_Unknown r) = Some r"
| "verdict_unknown_reason _ = None"

record revocation_assessment =
  ra_verdict :: revocation_verdict
  ra_hints :: "sourced_revocation list"
  ra_discovery :: "discovery_outcome acdp_result option"
  ra_pre_compromise :: bool
  ra_on_failure :: discovery_failure_policy

definition enforce :: "revocation_assessment \<Rightarrow> revocation_assessment acdp_result" where
  "enforce a =
     (case ra_verdict a of
        RV_Revoked effect boundary r placement \<Rightarrow>
          if effect \<in> {Revoked, Unplaceable} then
            Inl (KeyRevoked \<lparr>rr_effect = effect, rr_signing_key_fingerprint = sr_revoked_key_fingerprint r,
                             rr_boundary = boundary, rr_revocation = r, rr_placement = placement\<rparr>)
          else Inr a
      | v \<Rightarrow>
          if is_unknown v \<and> ra_on_failure a = FailClosed then
            (case ra_discovery a of Some (Inl e) \<Rightarrow> Inl e | _ \<Rightarrow> Inr a)
          else Inr a)"

section \<open>Gathering\<close>

record lookup =
  lk_revocations :: "key_revocation list"
  lk_deferred :: "full_context list"
  lk_cached_since :: "int option"

definition lookup_live :: "key_revocation list \<Rightarrow> full_context list \<Rightarrow> lookup" where
  "lookup_live rs d = \<lparr>lk_revocations = rs, lk_deferred = d, lk_cached_since = None\<rparr>"

definition lookup_cached :: "int \<Rightarrow> lookup" where
  "lookup_cached observed = \<lparr>lk_revocations = [], lk_deferred = [], lk_cached_since = Some observed\<rparr>"

text \<open>
  \<open>evaluate_revocations\<close> of \<open>keyless.rs\<close> in the default build, without the keyless feature: a candidate
  of this producer is never evaluated, and only its fingerprint is kept.
\<close>

definition evaluate_revocations :: "ext \<Rightarrow> agent_did \<Rightarrow> full_context list \<Rightarrow> string list" where
  "evaluate_revocations E agent_id deferred =
     List.map_filter (\<lambda>ctx. case revocation_from_body E (fc_body ctx) of
         Inl _ \<Rightarrow> None
       | Inr r \<Rightarrow> if kr_publisher r \<noteq> agent_id \<or> kr_trust_class r \<noteq> ProducerSigned then None else Some (kr_fingerprint r)) deferred"

record gathered =
  ga_in_scope :: "sourced_revocation list"
  ga_hints :: "sourced_revocation list"
  ga_discovery :: "discovery_outcome acdp_result option"
  ga_complete :: bool
  ga_registry_attested_checked :: bool
  ga_observed_at :: "int option"
  ga_on_failure :: discovery_failure_policy
  ga_unevaluated :: "string list"

definition has_in_scope :: "gathered \<Rightarrow> bool" where
  "has_in_scope g \<longleftrightarrow> ga_in_scope g \<noteq> [] \<or> ga_unevaluated g \<noteq> []"

fun source_rank :: "revocation_source \<Rightarrow> nat" where
  "source_rank Known = 0"
| "source_rank (Discovered _) = 1"
| "source_rank (Cached _) = 2"

definition scope_step ::
  "agent_did \<Rightarrow> sourced_revocation \<Rightarrow> sourced_revocation list \<times> sourced_revocation list \<Rightarrow>
     sourced_revocation list \<times> sourced_revocation list" where
  "scope_step agent_id r = (\<lambda>(in_scope, hints).
     if speaks_for r agent_id then (in_scope @ [r], hints)
     else if r \<in> set hints then (in_scope, hints) else (in_scope, hints @ [r]))"

definition scope :: "sourced_revocation list \<Rightarrow> agent_did \<Rightarrow> sourced_revocation list \<times> sourced_revocation list" where
  "scope all_revs agent_id = fold (scope_step agent_id) all_revs ([], [])"

text \<open>
  \<open>gather\<close>: \<open>cache\<close> is the attached cache as read before discovery, \<open>vantage\<close> the client's authority, and
  \<open>run\<close> the joined outcome of the two lookups, the elapsed timeout included.
\<close>

definition known_revocations ::
  "revocation_cache option \<Rightarrow> string option \<Rightarrow> agent_did \<Rightarrow> revocation_policy \<Rightarrow> sourced_revocation list" where
  "known_revocations cache vantage agent_id policy =
     map (\<lambda>r. sourced r Known) (rp_known policy) @
     (case cache of
        None \<Rightarrow> []
      | Some c \<Rightarrow> map (\<lambda>(r, origin). sourced r (Cached origin))
          (facts_for c agent_id
             (case rp_discover policy of None \<Rightarrow> False | Some d \<Rightarrow> rd_include_registry_attested d) vantage))"

definition discovered_revocations :: "string \<Rightarrow> lookup \<Rightarrow> lookup option \<Rightarrow> sourced_revocation list" where
  "discovered_revocations authority lsigned lattested =
     map (\<lambda>r. sourced r (Discovered authority))
       (lk_revocations lsigned @ (case lattested of None \<Rightarrow> [] | Some l \<Rightarrow> lk_revocations l))"

definition gather ::
  "ext \<Rightarrow> revocation_cache option \<Rightarrow> string option \<Rightarrow> agent_did \<Rightarrow> revocation_policy \<Rightarrow>
     (lookup \<times> lookup option) acdp_result \<Rightarrow> gathered" where
  "gather E cache vantage agent_id policy run =
     (let known = known_revocations cache vantage agent_id policy;
          g0 = \<lparr>ga_in_scope = [], ga_hints = [], ga_discovery = None, ga_complete = False, ga_registry_attested_checked = False,
                ga_observed_at = None,
                ga_on_failure = (case rp_discover policy of None \<Rightarrow> FailClosed | Some d \<Rightarrow> rd_on_failure d),
                ga_unevaluated = []\<rparr>;
          (found, g1) =
            (case rp_discover policy of
               None \<Rightarrow> ([], g0)
             | Some _ \<Rightarrow>
                 (case run of
                    Inl e \<Rightarrow> ([], g0\<lparr>ga_discovery := Some (Inl (RevocationUnknown (error_unknown_reason e) e))\<rparr>)
                  | Inr (lsigned, lattested) \<Rightarrow>
                      (discovered_revocations (case vantage of None \<Rightarrow> [] | Some v \<Rightarrow> v) lsigned lattested,
                       g0\<lparr>ga_discovery := Some (Inr \<lparr>do_producer_signed = length (lk_revocations lsigned),
                              do_registry_attested = map_option (\<lambda>l. length (lk_revocations l)) lattested\<rparr>),
                          ga_complete := True, ga_registry_attested_checked := (lattested \<noteq> None),
                          ga_observed_at := min_by_key (\<lambda>t. t)
                            (List.map_filter lk_cached_since (lsigned # (case lattested of None \<Rightarrow> [] | Some l \<Rightarrow> [l]))),
                          ga_unevaluated := evaluate_revocations E agent_id (lk_deferred lsigned)\<rparr>)));
          (in_scope, hints) = scope (known @ found) agent_id in
      g1\<lparr>ga_in_scope := in_scope, ga_hints := hints\<rparr>)"

section \<open>Deciding\<close>

definition fixing_revocation :: "sourced_revocation list \<Rightarrow> string \<Rightarrow> sourced_revocation option" where
  "fixing_revocation in_scope fp =
     min_by_key (\<lambda>r. (sr_compromised_since r, sr_trust_class r \<noteq> ProducerSigned, source_rank (sr_source r)))
       (filter (\<lambda>r. sr_revoked_key_fingerprint r = fp) in_scope)"

definition named_verdict ::
  "sourced_revocation \<Rightarrow> (instant \<times> receipt_key_status) option \<Rightarrow> bool \<Rightarrow> revocation_verdict" where
  "named_verdict r receipt_placement accept_historical_receipt_key =
     (let boundary = sr_compromised_since r in
      case receipt_placement of
        None \<Rightarrow> RV_Revoked Unplaceable boundary r None
      | Some (t, status) \<Rightarrow>
          if status = Historical \<and> \<not> accept_historical_receipt_key then RV_Revoked Unplaceable boundary r (Some t)
          else if t < boundary then RV_Revoked PreCompromise boundary r (Some t)
          else RV_Revoked Revoked boundary r (Some t))"

text \<open>A keyless-signed revocation of this key that could not be evaluated leaves the answer unknown.\<close>

definition final_discovery :: "gathered \<Rightarrow> string option \<Rightarrow> discovery_outcome acdp_result option" where
  "final_discovery g signing_key_fingerprint =
     (case ga_discovery g of
        Some (Inl e) \<Rightarrow> Some (Inl e)
      | d \<Rightarrow>
          (case signing_key_fingerprint of
             Some fp \<Rightarrow>
               if fp \<in> set (ga_unevaluated g)
               then Some (Inl (RevocationUnknown UnverifiableCandidate RevocationCandidateUnverifiable)) else d
           | None \<Rightarrow> d))"

definition decide ::
  "gathered \<Rightarrow> string option \<Rightarrow> (instant \<times> receipt_key_status) option \<Rightarrow> bool \<Rightarrow> revocation_assessment" where
  "decide g signing_key_fingerprint receipt_placement accept_historical_receipt_key =
     (let fixing = Option.bind signing_key_fingerprint (fixing_revocation (ga_in_scope g));
          named = map_option (\<lambda>r. named_verdict r receipt_placement accept_historical_receipt_key) fixing;
          pre_compromise = (case named of Some (RV_Revoked PreCompromise _ _ _) \<Rightarrow> True | _ \<Rightarrow> False);
          discovery = final_discovery g signing_key_fingerprint;
          unknown = (case discovery of Some (Inl (RevocationUnknown reason _)) \<Rightarrow> Some (RV_Unknown reason) | _ \<Rightarrow> None);
          verdict =
            (case (named, unknown) of
               (Some v, u) \<Rightarrow> if is_refusal v then v else (case u of Some uv \<Rightarrow> uv | None \<Rightarrow> v)
             | (None, Some uv) \<Rightarrow> uv
             | (None, None) \<Rightarrow> RV_NotRevoked (ga_complete g) (ga_registry_attested_checked g) (ga_observed_at g)) in
      \<lparr>ra_verdict = verdict, ra_hints = ga_hints g, ra_discovery = discovery, ra_pre_compromise = pre_compromise,
       ra_on_failure = ga_on_failure g\<rparr>)"

definition find_revocations_verdict ::
  "ext \<Rightarrow> revocation_cache option \<Rightarrow> string option \<Rightarrow> string \<Rightarrow> string \<Rightarrow> (instant \<times> receipt_key_status) option \<Rightarrow>
     revocation_policy \<Rightarrow> (lookup \<times> lookup option) acdp_result \<Rightarrow> revocation_assessment acdp_result" where
  "find_revocations_verdict E cache vantage agent_id signing_key_fingerprint receipt_placement policy run =
     rbind (agent_did_parse agent_id) (\<lambda>a.
     Inr (decide (gather E cache vantage a policy run) (Some signing_key_fingerprint) receipt_placement
            (rp_accept_historical_receipt_key_for_pre_t policy)))"

definition decide_known ::
  "key_revocation list \<Rightarrow> string \<Rightarrow> (instant \<times> receipt_key_status) option \<Rightarrow> bool \<Rightarrow> revocation_assessment" where
  "decide_known revocations signing_key_fingerprint receipt_placement accept_historical_receipt_key =
     decide \<lparr>ga_in_scope = map (\<lambda>r. sourced r Known) revocations, ga_hints = [], ga_discovery = None, ga_complete = False,
             ga_registry_attested_checked = False, ga_observed_at = None, ga_on_failure = FailClosed, ga_unevaluated = []\<rparr>
       (Some signing_key_fingerprint) receipt_placement accept_historical_receipt_key"

definition classify_under_revocation_placed ::
  "key_revocation list \<Rightarrow> string \<Rightarrow> (instant \<times> receipt_key_status) option \<Rightarrow> bool \<Rightarrow> key_authorization option acdp_result" where
  "classify_under_revocation_placed revocations signing_key_fingerprint receipt_placement accept_historical_receipt_key =
     (let a = decide_known revocations signing_key_fingerprint receipt_placement accept_historical_receipt_key in
      case ra_verdict a of
        RV_NotRevoked _ _ _ \<Rightarrow> Inr None
      | RV_Revoked PreCompromise _ _ _ \<Rightarrow> Inr (Some HistoricallyAuthorizedPreCompromise)
      | _ \<Rightarrow> rbind (enforce a) (\<lambda>_. Inr None))"

definition classify_under_revocation ::
  "key_revocation list \<Rightarrow> string \<Rightarrow> instant option \<Rightarrow> key_authorization option acdp_result" where
  "classify_under_revocation revocations signing_key_fingerprint receipt_attested_created_at =
     classify_under_revocation_placed revocations signing_key_fingerprint
       (map_option (\<lambda>t. (t, Current)) receipt_attested_created_at) False"

end
