(* ===== verification/Acdp_Client.thy ===== *)
theory Acdp_Client
  imports Acdp_Wire Acdp_Verdict
begin

text \<open>
  The registry client (\<open>crates/acdp-client/src/registry.rs\<close>): capped reading of responses, the mapping of
  failures, bearer tokens, the request and byte budget of a discovery, the read operations and
  publishing with retries.

  A client carries the trace of what it did. The registry is a function of that trace and of the
  request, so it may answer every request differently. The decoders of \<open>serde_json\<close>, the URL parser, the
  date parsers of \<open>chrono\<close>, the token provider and the clocks are parameters in \<open>net\<close>. Paths and query
  strings are not spelled out: a request names the endpoint and its arguments.
\<close>

section \<open>Requests, responses and the trace\<close>

definition MAX_CONTEXT_BYTES :: nat where
  "MAX_CONTEXT_BYTES = 1048576"

definition MAX_METADATA_BYTES :: nat where
  "MAX_METADATA_BYTES = 65536"

definition MAX_CHANGES_PAGE_BYTES :: nat where
  "MAX_CHANGES_PAGE_BYTES = 1048576"

datatype request =
    GetCapabilities
  | PostContext publish_request "string option"
  | GetContext ctx_id "string option"
  | GetBody ctx_id
  | GetLineage lineage_id
  | GetCurrent lineage_id
  | GetSearch search_params
  | GetChanges "(string \<times> string) list"

record http_response =
  hr_status :: nat
  hr_content_length :: "u64 option"
  hr_chunks :: "bytes acdp_result list"
  hr_retry_after :: "string option"
  hr_cache_control :: "string option"
  hr_etag :: "string option"
  hr_last_modified :: "string option"

datatype client_event =
    Sent request "string option"
  | Slept nat
  | TokenRejected string

record net =
  nt_send :: "client_event list \<Rightarrow> request \<Rightarrow> string option \<Rightarrow> http_response acdp_result"
  nt_authority :: "string \<Rightarrow> string option"
  nt_bearer_token :: "client_event list \<Rightarrow> string \<Rightarrow> string option acdp_result"
  nt_now :: "client_event list \<Rightarrow> int"
  nt_wall :: "client_event list \<Rightarrow> int"
  nt_value :: "bytes \<Rightarrow> json option"
  nt_context :: "bytes \<Rightarrow> full_context option"
  nt_body :: "bytes \<Rightarrow> body option"
  nt_search_response :: "bytes \<Rightarrow> search_response option"
  nt_capabilities :: "bytes \<Rightarrow> capabilities option"
  nt_publish_response :: "bytes \<Rightarrow> publish_response option"
  nt_wire_error :: "bytes \<Rightarrow> wire_error option"
  nt_rfc2822 :: "string \<Rightarrow> instant option"
  nt_naive_date :: "string \<Rightarrow> string \<Rightarrow> instant option"

section \<open>The discovery budget\<close>

record discovery_budget =
  bg_max_requests :: "nat option"
  bg_max_bytes :: "u64 option"
  bg_requests_used :: nat
  bg_bytes_used :: u64

definition budget_new :: "nat option \<Rightarrow> u64 option \<Rightarrow> discovery_budget" where
  "budget_new max_requests max_bytes =
     \<lparr>bg_max_requests = max_requests, bg_max_bytes = max_bytes, bg_requests_used = 0, bg_bytes_used = 0\<rparr>"

definition check_before_request :: "discovery_budget \<Rightarrow> unit acdp_result \<times> discovery_budget" where
  "check_before_request b =
     (if (case bg_max_bytes b of Some m \<Rightarrow> m \<le> bg_bytes_used b | None \<Rightarrow> False)
      then (Inl RevocationDiscoveryBudgetExceeded, b)
      else case bg_max_requests b of
        None \<Rightarrow> (Inr (), b)
      | Some m \<Rightarrow>
          if bg_requests_used b < m then (Inr (), b\<lparr>bg_requests_used := bg_requests_used b + 1\<rparr>)
          else (Inl RevocationDiscoveryBudgetExceeded, b))"

definition record_bytes :: "nat \<Rightarrow> discovery_budget \<Rightarrow> discovery_budget" where
  "record_bytes n b = b\<lparr>bg_bytes_used := bg_bytes_used b + word_of_nat n\<rparr>"

section \<open>The client\<close>

record change_filter_limits =
  cf_max_bucket_length :: "u16 option"
  cf_max_filters :: "u64 option"
  cf_expires :: int

record client =
  cl_base :: string
  cl_change_limits :: "change_filter_limits option"
  cl_budget :: "discovery_budget option"
  cl_cache :: "revocation_cache option"
  cl_freshness :: int
  cl_auth :: bool
  cl_trace :: "client_event list"

type_synonym 'a client_op = "client \<Rightarrow> 'a acdp_result \<times> client"

definition cret :: "'a \<Rightarrow> 'a client_op" where
  "cret x s = (Inr x, s)"

definition clift :: "'a acdp_result \<Rightarrow> 'a client_op" where
  "clift r s = (r, s)"

definition cbind :: "'a client_op \<Rightarrow> ('a \<Rightarrow> 'b client_op) \<Rightarrow> 'b client_op" where
  "cbind m f s = (case m s of (Inl e, s') \<Rightarrow> (Inl e, s') | (Inr x, s') \<Rightarrow> f x s')"

primrec cfold :: "('x \<Rightarrow> 'a \<Rightarrow> 'a client_op) \<Rightarrow> 'x list \<Rightarrow> 'a \<Rightarrow> 'a client_op" where
  "cfold f [] a = cret a"
| "cfold f (x # xs) a = cbind (f x a) (cfold f xs)"

definition client_authority :: "net \<Rightarrow> client \<Rightarrow> string option" where
  "client_authority N s = nt_authority N (cl_base s)"

definition with_discovery_budget :: "discovery_budget \<Rightarrow> client \<Rightarrow> client" where
  "with_discovery_budget b s = s\<lparr>cl_budget := Some b\<rparr>"

definition with_revocation_cache :: "revocation_cache \<Rightarrow> client \<Rightarrow> client" where
  "with_revocation_cache c s = s\<lparr>cl_cache := Some c, cl_freshness := 0\<rparr>"

definition with_revocation_freshness :: "int \<Rightarrow> client \<Rightarrow> client" where
  "with_revocation_freshness f s = s\<lparr>cl_freshness := f\<rparr>"

definition check_discovery_budget :: "unit client_op" where
  "check_discovery_budget s =
     (case cl_budget s of
        None \<Rightarrow> (Inr (), s)
      | Some b \<Rightarrow> (let (r, b') = check_before_request b in (r, s\<lparr>cl_budget := Some b'\<rparr>)))"

definition record_discovery_bytes :: "nat \<Rightarrow> unit client_op" where
  "record_discovery_bytes n s = (Inr (), s\<lparr>cl_budget := map_option (record_bytes n) (cl_budget s)\<rparr>)"

definition emit :: "client_event \<Rightarrow> client \<Rightarrow> client" where
  "emit e s = s\<lparr>cl_trace := cl_trace s @ [e]\<rparr>"

definition transmit :: "net \<Rightarrow> request \<Rightarrow> string option \<Rightarrow> http_response client_op" where
  "transmit N req token s = (nt_send N (cl_trace s) req token, emit (Sent req token) s)"

definition send_read :: "net \<Rightarrow> request \<Rightarrow> http_response client_op" where
  "send_read N req s =
     (case (cl_auth s, client_authority N s) of
        (True, Some authority) \<Rightarrow>
          if starts_with ''https://'' (cl_base s) then
            (case nt_bearer_token N (cl_trace s) authority of
               Inl e \<Rightarrow> (Inl e, s)
             | Inr None \<Rightarrow> transmit N req None s
             | Inr (Some token) \<Rightarrow>
                 cbind (transmit N req (Some token)) (\<lambda>resp s'.
                   (Inr resp, if hr_status resp \<in> {401, 403} then emit (TokenRejected authority) s' else s')) s)
          else transmit N req None s
      | _ \<Rightarrow> transmit N req None s)"

section \<open>Reading responses\<close>

fun read_chunks :: "nat \<Rightarrow> bytes \<Rightarrow> bytes acdp_result list \<Rightarrow> bytes acdp_result" where
  "read_chunks max_bytes buf [] = Inr buf"
| "read_chunks max_bytes buf (Inl _ # cs) = Inl Http"
| "read_chunks max_bytes buf (Inr chunk # cs) =
     (if max_bytes < length buf + length chunk then Inl PayloadTooLarge else read_chunks max_bytes (buf @ chunk) cs)"

definition read_body_capped :: "http_response \<Rightarrow> nat \<Rightarrow> bytes acdp_result" where
  "read_body_capped resp max_bytes =
     (if (case hr_content_length resp of Some len \<Rightarrow> max_bytes < unat len | None \<Rightarrow> False) then Inl PayloadTooLarge
      else read_chunks max_bytes [] (hr_chunks resp))"

text \<open>Header values are visible ASCII, where \<open>trim\<close> and \<open>split_whitespace\<close> see spaces and tabs.\<close>

definition is_blank :: "char \<Rightarrow> bool" where
  "is_blank c \<longleftrightarrow> c = CHR '' '' \<or> c = CHR 0x09"

definition header_trim :: "string \<Rightarrow> string" where
  "header_trim s = rev (dropWhile is_blank (rev (dropWhile is_blank s)))"

definition split_whitespace :: "string \<Rightarrow> string list" where
  "split_whitespace s = filter (\<lambda>w. w \<noteq> []) (split_on CHR '' '' (map (\<lambda>c. if is_blank c then CHR '' '' else c) s))"

definition unspace :: "string list \<Rightarrow> string" where
  "unspace ws = (case ws of [] \<Rightarrow> [] | w # rest \<Rightarrow> w @ concat (map (\<lambda>v. '' '' @ v) rest))"

definition parse_http_date :: "net \<Rightarrow> string \<Rightarrow> instant option" where
  "parse_http_date N v =
     (case nt_rfc2822 N v of
        Some t \<Rightarrow> Some t
      | None \<Rightarrow>
          (case Option.bind (Option.bind (strip_suffix '' GMT'' v) (split_once_str '', ''))
                  (\<lambda>(_, tail). nt_naive_date N ''%d-%b-%y %H:%M:%S'' tail) of
             Some t \<Rightarrow> Some t
           | None \<Rightarrow> nt_naive_date N ''%a %b %e %H:%M:%S %Y'' (unspace (split_whitespace v))))"

text \<open>Durations are nanoseconds.\<close>

definition parse_retry_after :: "net \<Rightarrow> string \<Rightarrow> instant \<Rightarrow> nat option" where
  "parse_retry_after N s now =
     (let v = header_trim s in
      if v = [] then None
      else if list_all is_ascii_digit v then
        Some ((case parse_digits v of Some n \<Rightarrow> min n (2 ^ 64 - 1) | None \<Rightarrow> 2 ^ 64 - 1) * 10 ^ 9)
      else map_option (\<lambda>t. nat (t - now)) (parse_http_date N v))"

definition response_error :: "net \<Rightarrow> int \<Rightarrow> http_response \<Rightarrow> acdp_error" where
  "response_error N now resp =
     (let too_many = hr_status resp = 429;
          retry = (if too_many then Option.bind (hr_retry_after resp) (\<lambda>v. parse_retry_after N v now) else None);
          wire = (case read_body_capped resp MAX_METADATA_BYTES of Inl _ \<Rightarrow> None | Inr bs \<Rightarrow> nt_wire_error N bs);
          err = (case wire of
                   Some w \<Rightarrow> from_wire_error w
                 | None \<Rightarrow>
                     if too_many then RateLimited None
                     else from_wire_error
                       \<lparr>we_code = ''unknown'', we_message = ''could not read or parse registry error response'', we_details = None\<rparr>) in
      case err of RateLimited _ \<Rightarrow> RateLimited retry | other \<Rightarrow> other)"

definition parse_success ::
  "net \<Rightarrow> (bytes \<Rightarrow> 'a option) \<Rightarrow> int \<Rightarrow> http_response \<Rightarrow> nat \<Rightarrow> ('a \<times> nat) acdp_result" where
  "parse_success N decode now resp max_bytes =
     (if 200 \<le> hr_status resp \<and> hr_status resp < 300 then
        rbind (read_body_capped resp max_bytes) (\<lambda>bs.
        rbind (ok_or (decode bs) SchemaViolation) (\<lambda>v. Inr (v, length bs)))
      else Inl (response_error N now resp))"

definition parse_response :: "net \<Rightarrow> (bytes \<Rightarrow> 'a option) \<Rightarrow> nat \<Rightarrow> http_response \<Rightarrow> ('a \<times> nat) client_op" where
  "parse_response N decode max_bytes resp s = (parse_success N decode (nt_wall N (cl_trace s)) resp max_bytes, s)"

definition cache_ttl_from_response :: "http_response \<Rightarrow> nat" where
  "cache_ttl_from_response resp =
     (case hr_cache_control resp of
        None \<Rightarrow> 300
      | Some cc \<Rightarrow>
          (case List.map_filter (\<lambda>d. let d = header_trim d in
                   Option.bind (case strip_prefix ''max-age='' d of Some v \<Rightarrow> Some v | None \<Rightarrow> strip_prefix ''s-maxage='' d)
                     parse_u64) (split_on CHR '','' cc) of
             [] \<Rightarrow> 300
           | n # _ \<Rightarrow> min (unat n) 3600))"

record retrieval_metadata =
  rm_etag :: "string option"
  rm_cache_control :: "string option"
  rm_last_modified :: "instant option"

definition parse_retrieval_metadata :: "net \<Rightarrow> http_response \<Rightarrow> retrieval_metadata" where
  "parse_retrieval_metadata N resp =
     \<lparr>rm_etag = hr_etag resp, rm_cache_control = hr_cache_control resp,
      rm_last_modified = Option.bind (hr_last_modified resp) (nt_rfc2822 N)\<rparr>"

section \<open>Reads\<close>

definition capabilities_with_ttl :: "net \<Rightarrow> (capabilities \<times> nat) client_op" where
  "capabilities_with_ttl N =
     cbind check_discovery_budget (\<lambda>_.
     cbind (transmit N GetCapabilities None) (\<lambda>resp.
     cbind (parse_response N (nt_capabilities N) MAX_METADATA_BYTES resp) (\<lambda>(caps, nbytes).
     cbind (record_discovery_bytes nbytes) (\<lambda>_.
     cbind (clift (validate_capabilities caps)) (\<lambda>_.
     cret (caps, cache_ttl_from_response resp))))))"

definition client_capabilities :: "net \<Rightarrow> capabilities client_op" where
  "client_capabilities N = cbind (capabilities_with_ttl N) (\<lambda>(caps, _). cret caps)"

definition client_retrieve :: "net \<Rightarrow> ctx_id \<Rightarrow> full_context client_op" where
  "client_retrieve N c =
     cbind check_discovery_budget (\<lambda>_.
     cbind (send_read N (GetContext c None)) (\<lambda>resp.
     cbind (parse_response N (nt_context N) MAX_CONTEXT_BYTES resp) (\<lambda>(ctx, nbytes).
     cbind (record_discovery_bytes nbytes) (\<lambda>_. cret ctx))))"

definition retrieve_with_metadata :: "net \<Rightarrow> ctx_id \<Rightarrow> (full_context \<times> retrieval_metadata) client_op" where
  "retrieve_with_metadata N c =
     cbind (send_read N (GetContext c None)) (\<lambda>resp.
     cbind (parse_response N (nt_context N) MAX_CONTEXT_BYTES resp) (\<lambda>(ctx, _).
     cret (ctx, parse_retrieval_metadata N resp)))"

definition retrieve_if_none_match ::
  "net \<Rightarrow> ctx_id \<Rightarrow> string \<Rightarrow> (full_context \<times> retrieval_metadata) option client_op" where
  "retrieve_if_none_match N c etag =
     cbind (send_read N (GetContext c (Some etag))) (\<lambda>resp.
     if hr_status resp = 304 then cret None
     else cbind (parse_response N (nt_context N) MAX_CONTEXT_BYTES resp) (\<lambda>(ctx, _).
       cret (Some (ctx, parse_retrieval_metadata N resp))))"

definition client_retrieve_body :: "net \<Rightarrow> ctx_id \<Rightarrow> body client_op" where
  "client_retrieve_body N c =
     cbind (send_read N (GetBody c)) (\<lambda>resp.
     cbind (parse_response N (nt_body N) MAX_CONTEXT_BYTES resp) (\<lambda>(b, _). cret b))"

definition client_lineage :: "ext \<Rightarrow> net \<Rightarrow> lineage_id \<Rightarrow> full_context list client_op" where
  "client_lineage E N l =
     cbind check_discovery_budget (\<lambda>_.
     cbind (send_read N (GetLineage l)) (\<lambda>resp.
     cbind (parse_response N (nt_value N) MAX_CONTEXT_BYTES resp) (\<lambda>(v, nbytes).
     cbind (record_discovery_bytes nbytes) (\<lambda>_.
     clift (ok_or (de_list (context_deserialize E) v) SchemaViolation)))))"

definition client_current :: "net \<Rightarrow> lineage_id \<Rightarrow> full_context client_op" where
  "client_current N l =
     cbind (send_read N (GetCurrent l)) (\<lambda>resp.
     cbind (parse_response N (nt_context N) MAX_CONTEXT_BYTES resp) (\<lambda>(ctx, _). cret ctx))"

definition client_search :: "net \<Rightarrow> search_params \<Rightarrow> search_response client_op" where
  "client_search N p =
     cbind check_discovery_budget (\<lambda>_.
     cbind (send_read N (GetSearch p)) (\<lambda>resp.
     cbind (parse_response N (nt_search_response N) MAX_METADATA_BYTES resp) (\<lambda>(r, nbytes).
     cbind (record_discovery_bytes nbytes) (\<lambda>_. cret r))))"

section \<open>Publishing\<close>

definition post_context :: "net \<Rightarrow> publish_request \<Rightarrow> string option \<Rightarrow> publish_response client_op" where
  "post_context N req key =
     cbind (transmit N (PostContext req key) None) (\<lambda>resp.
     cbind (parse_response N (nt_publish_response N) MAX_METADATA_BYTES resp) (\<lambda>(v, _). cret v))"

definition client_publish :: "net \<Rightarrow> publish_request \<Rightarrow> publish_response client_op" where
  "client_publish N req = post_context N req None"

definition publish_idempotent :: "net \<Rightarrow> publish_request \<Rightarrow> string \<Rightarrow> publish_response client_op" where
  "publish_idempotent N req key = post_context N req (Some key)"

definition MAX_RETRY_AFTER_WAIT :: nat where
  "MAX_RETRY_AFTER_WAIT = 60 * 10 ^ 9"

definition backoff :: "nat \<Rightarrow> nat" where
  "backoff attempt = 250 * 10 ^ 6 * 2 ^ min attempt 3"

text \<open>The wait before the next attempt; none when the registry asks for more than the limit.\<close>

definition retry_wait :: "acdp_error \<Rightarrow> nat \<Rightarrow> nat option" where
  "retry_wait e attempt =
     (case retry_after e of
        Some ra \<Rightarrow> if MAX_RETRY_AFTER_WAIT < ra then None else Some (max ra (backoff attempt))
      | None \<Rightarrow> Some (backoff attempt))"

fun publish_attempts ::
  "net \<Rightarrow> publish_request \<Rightarrow> string \<Rightarrow> nat \<Rightarrow> nat \<Rightarrow> acdp_error option \<Rightarrow> publish_response client_op" where
  "publish_attempts N req key 0 attempt last_err s = (Inl (case last_err of Some e \<Rightarrow> e | None \<Rightarrow> Http), s)"
| "publish_attempts N req key (Suc left) attempt last_err s =
     (case publish_idempotent N req key s of
        (Inr resp, s') \<Rightarrow> (Inr resp, s')
      | (Inl e, s') \<Rightarrow>
          if is_transient e \<and> 0 < left then
            (case retry_wait e attempt of
               None \<Rightarrow> (Inl e, s')
             | Some w \<Rightarrow> publish_attempts N req key left (attempt + 1) (Some e) (emit (Slept w) s'))
          else (Inl e, s'))"

definition publish_with_retry :: "net \<Rightarrow> publish_request \<Rightarrow> string \<Rightarrow> u32 \<Rightarrow> publish_response client_op" where
  "publish_with_retry N req key max_attempts = publish_attempts N req key (max (unat max_attempts) 1) 0 None"

end
