(* ===== verification/Acdp_Discovery.thy ===== *)
theory Acdp_Discovery
  imports Acdp_Client
begin

text \<open>
  Discovery of revocations on a registry (\<open>crates/acdp-client/src/revocation.rs\<close>): verification of one
  candidate with its historical arm, the walk over a lineage, the search over type forms, statuses and
  pages, and the two lookups with their use of the cache.

  The resolver of DID documents is the argument \<open>resolve\<close>; it answers the same within one run, as the
  freshness scope of the run makes one fetch serve every candidate.
\<close>

definition MAX_SEARCH_PAGES :: nat where
  "MAX_SEARCH_PAGES = 10"

definition MAX_LINEAGE_WALKS :: nat where
  "MAX_LINEAGE_WALKS = 100"

section \<open>Candidates\<close>

definition checked_revocation :: "ext \<Rightarrow> web_resolver \<Rightarrow> body \<Rightarrow> key_revocation acdp_result" where
  "checked_revocation E resolve b =
     rbind (revocation_from_body E b) (\<lambda>r.
     rbind (fingerprint_for_key_id E resolve (sig_key_id (b_signature b)) (sig_algorithm (b_signature b))) (\<lambda>fp.
     rbind (check_not_self_signed r fp) (\<lambda>_. Inr r)))"

definition verify_revocation_body :: "ext \<Rightarrow> web_resolver \<Rightarrow> body \<Rightarrow> key_revocation acdp_result" where
  "verify_revocation_body E resolve b = rbind (verify_body E resolve b) (\<lambda>_. checked_revocation E resolve b)"

definition verify_revocation_context :: "ext \<Rightarrow> web_resolver \<Rightarrow> full_context \<Rightarrow> key_revocation acdp_result" where
  "verify_revocation_context E resolve ctx =
     rbind (verify_context E resolve ctx) (\<lambda>_. checked_revocation E resolve (fc_body ctx))"

fun is_discovery_fatal :: "acdp_error \<Rightarrow> bool" where
  "is_discovery_fatal RevocationCandidateUnverifiable = True"
| "is_discovery_fatal RevocationDiscoveryBudgetExceeded = True"
| "is_discovery_fatal e = is_transient e"

definition same_producer :: "body \<Rightarrow> bool" where
  "same_producer b =
     (case split_once CHR ''#'' (sig_key_id (b_signature b)) of
        Some (did, _) \<Rightarrow> did = b_agent_id b \<and> starts_with ''did:web:'' did
      | None \<Rightarrow> False)"

definition candidate_receipt :: "net \<Rightarrow> full_context \<Rightarrow> json client_op" where
  "candidate_receipt N ctx s =
     (case fc_registry_receipt ctx of
        Some v \<Rightarrow> (Inr v, s)
      | None \<Rightarrow>
          (case client_retrieve N (b_ctx_id (fc_body ctx)) s of
             (Inl e, s') \<Rightarrow> (Inl (if is_discovery_fatal e then e else RevocationCandidateUnverifiable), s')
           | (Inr refetched, s') \<Rightarrow>
               if b_ctx_id (fc_body refetched) \<noteq> b_ctx_id (fc_body ctx) \<or>
                  b_content_hash (fc_body refetched) \<noteq> b_content_hash (fc_body ctx)
               then (Inl RevocationCandidateUnverifiable, s')
               else case fc_registry_receipt refetched of
                 Some v \<Rightarrow> (Inr v, s')
               | None \<Rightarrow> (Inl RevocationCandidateUnverifiable, s')))"

definition verify_under_receipt :: "ext \<Rightarrow> web_resolver \<Rightarrow> body \<Rightarrow> string \<Rightarrow> json \<Rightarrow> unit acdp_result" where
  "verify_under_receipt E resolve b serving_authority receipt_value =
     rbind (fingerprint_for_key_id E resolve (sig_key_id (b_signature b)) (sig_algorithm (b_signature b))) (\<lambda>producer_fp.
     case verify_receipt_value E resolve receipt_value (b_ctx_id b) b (b_content_hash b) producer_fp serving_authority of
       Inr _ \<Rightarrow> verify_body_signature_historical E resolve b
     | Inl e \<Rightarrow> Inl (if is_transient e then e else RevocationCandidateUnverifiable))"

definition verify_candidate_historically :: "ext \<Rightarrow> net \<Rightarrow> web_resolver \<Rightarrow> full_context \<Rightarrow> unit client_op" where
  "verify_candidate_historically E N resolve ctx =
     (if same_producer (fc_body ctx) then
        cbind (candidate_receipt N ctx) (\<lambda>v s.
          (verify_under_receipt E resolve (fc_body ctx)
             (case client_authority N s of Some a \<Rightarrow> a | None \<Rightarrow> ctx_id_authority (b_ctx_id (fc_body ctx))) v, s))
      else clift (Inl KeyNotAuthorized))"

definition verify_revocation_candidate :: "ext \<Rightarrow> net \<Rightarrow> web_resolver \<Rightarrow> full_context \<Rightarrow> key_revocation client_op" where
  "verify_revocation_candidate E N resolve ctx =
     (if is_keyless_key_id (sig_key_id (b_signature (fc_body ctx))) then clift (Inl RevocationCandidateUnverifiable)
      else cbind (case verify_context E resolve ctx of
                    Inr _ \<Rightarrow> cret ()
                  | Inl KeyNotAuthorized \<Rightarrow> verify_candidate_historically E N resolve ctx
                  | Inl e \<Rightarrow> clift (Inl e)) (\<lambda>_.
           clift (checked_revocation E resolve (fc_body ctx))))"

definition refuse_deferred :: "full_context list \<Rightarrow> unit acdp_result" where
  "refuse_deferred deferred = require (deferred = []) RevocationCandidateUnverifiable"

text \<open>A candidate that fails for good is dropped; a failure that leaves its content unknown ends the run.\<close>

definition judge_candidate :: "ext \<Rightarrow> net \<Rightarrow> web_resolver \<Rightarrow> full_context \<Rightarrow> key_revocation option client_op" where
  "judge_candidate E N resolve ctx s =
     (case verify_revocation_candidate E N resolve ctx s of
        (Inr r, s') \<Rightarrow> (Inr (Some r), s')
      | (Inl e, s') \<Rightarrow> if is_discovery_fatal e then (Inl e, s') else (Inr None, s'))"

section \<open>Walking a lineage\<close>

record walked =
  wk_verified :: "(ctx_id \<times> key_revocation) list"
  wk_deferred :: "full_context list"

definition walk_member :: "ext \<Rightarrow> net \<Rightarrow> web_resolver \<Rightarrow> full_context \<Rightarrow> walked \<Rightarrow> walked client_op" where
  "walk_member E N resolve ctx w =
     (if is_keyless_key_id (sig_key_id (b_signature (fc_body ctx))) then cret (w\<lparr>wk_deferred := wk_deferred w @ [ctx]\<rparr>)
      else cbind (judge_candidate E N resolve ctx) (\<lambda>j. cret
        (case j of
           Some r \<Rightarrow> w\<lparr>wk_verified := wk_verified w @ [(b_ctx_id (fc_body ctx), r)]\<rparr>
         | None \<Rightarrow> w)))"

definition walk_revocation_lineage ::
  "ext \<Rightarrow> net \<Rightarrow> web_resolver \<Rightarrow> lineage_id \<Rightarrow> ctx_id option \<Rightarrow> walked client_op" where
  "walk_revocation_lineage E N resolve l expect_member =
     cbind (client_lineage E N l) (\<lambda>members.
     cbind (clift (require (members \<noteq> []) (IncompleteLineage l expect_member))) (\<lambda>_.
     cbind (clift (opt_check expect_member (\<lambda>c.
              require (c \<in> (b_ctx_id \<circ> fc_body) ` set members) (IncompleteLineage l (Some c))))) (\<lambda>_.
     cfold (walk_member E N resolve) members \<lparr>wk_verified = [], wk_deferred = []\<rparr>)))"

definition find_revocations_in_lineage :: "ext \<Rightarrow> net \<Rightarrow> web_resolver \<Rightarrow> lineage_id \<Rightarrow> key_revocation list client_op" where
  "find_revocations_in_lineage E N resolve l =
     cbind (walk_revocation_lineage E N resolve l None) (\<lambda>w.
     cbind (clift (refuse_deferred (wk_deferred w))) (\<lambda>_.
     cret (map snd (wk_verified w))))"

section \<open>The discovery engine\<close>

text \<open>\<open>ds_lineages\<close> lists each lineage once, in the order found, with the first match that named it.\<close>

record discovery_state =
  ds_revocations :: "key_revocation list"
  ds_deferred :: "full_context list"
  ds_seen :: "ctx_id set"
  ds_lineages :: "(lineage_id \<times> ctx_id) list"

definition note_lineage :: "search_result \<Rightarrow> discovery_state \<Rightarrow> discovery_state" where
  "note_lineage m d =
     (if sres_lineage_id m \<in> fst ` set (ds_lineages d) then d
      else d\<lparr>ds_lineages := ds_lineages d @ [(sres_lineage_id m, sres_ctx_id m)]\<rparr>)"

definition keep_revocation :: "(key_revocation \<Rightarrow> bool) \<Rightarrow> key_revocation \<Rightarrow> discovery_state \<Rightarrow> discovery_state" where
  "keep_revocation keep r d = (if keep r then d\<lparr>ds_revocations := ds_revocations d @ [r]\<rparr> else d)"

definition visit_match ::
  "ext \<Rightarrow> net \<Rightarrow> web_resolver \<Rightarrow> (key_revocation \<Rightarrow> bool) \<Rightarrow> search_result \<Rightarrow> discovery_state \<Rightarrow> discovery_state client_op" where
  "visit_match E N resolve keep m d0 =
     (let d = note_lineage m d0 in
      if sres_ctx_id m \<in> ds_seen d then cret d
      else let d = d\<lparr>ds_seen := insert (sres_ctx_id m) (ds_seen d)\<rparr> in
        cbind (client_retrieve N (sres_ctx_id m)) (\<lambda>ctx.
          if is_keyless_key_id (sig_key_id (b_signature (fc_body ctx)))
          then cret (d\<lparr>ds_deferred := ds_deferred d @ [ctx]\<rparr>)
          else cbind (judge_candidate E N resolve ctx) (\<lambda>j. cret
            (case j of Some r \<Rightarrow> keep_revocation keep r d | None \<Rightarrow> d))))"

primrec search_pages ::
  "nat \<Rightarrow> ext \<Rightarrow> net \<Rightarrow> web_resolver \<Rightarrow> (key_revocation \<Rightarrow> bool) \<Rightarrow> search_params \<Rightarrow> discovery_state \<Rightarrow>
     discovery_state client_op" where
  "search_pages 0 E N resolve keep p d = clift (Inl SearchTruncated)"
| "search_pages (Suc pages) E N resolve keep p d =
     cbind (client_search N p) (\<lambda>resp.
     cbind (cfold (visit_match E N resolve keep) (sresp_matches resp) d) (\<lambda>d'.
     case sresp_next_cursor resp of
       Some cursor \<Rightarrow> search_pages pages E N resolve keep (p\<lparr>sp_cursor := Some cursor\<rparr>) d'
     | None \<Rightarrow> cret d'))"

definition revocation_search :: "string \<Rightarrow> string \<times> string \<Rightarrow> search_params" where
  "revocation_search agent = (\<lambda>(type_form, st).
     \<lparr>sp_q = None, sp_context_type = Some type_form, sp_domain = None, sp_tags = None, sp_agent_id = Some agent,
      sp_schema_uri = None, sp_derived_from = None, sp_created_after = None, sp_created_before = None,
      sp_data_period_start_after = None, sp_data_period_end_before = None, sp_expires_after = None,
      sp_expires_before = None, sp_status = Some st, sp_limit = Some 100, sp_cursor = None\<rparr>)"

definition search_passes :: "(string \<times> string) list" where
  "search_passes =
     List.product [''key-revocation'', ''acdp:key-revocation''] [''active'', ''superseded'', ''retracted'']"

definition absorb_deferred :: "full_context \<Rightarrow> discovery_state \<Rightarrow> discovery_state" where
  "absorb_deferred ctx d =
     (let c = b_ctx_id (fc_body ctx) in
      if c \<in> ds_seen d then d else d\<lparr>ds_seen := insert c (ds_seen d), ds_deferred := ds_deferred d @ [ctx]\<rparr>)"

definition absorb_verified ::
  "(key_revocation \<Rightarrow> bool) \<Rightarrow> ctx_id \<times> key_revocation \<Rightarrow> discovery_state \<Rightarrow> discovery_state" where
  "absorb_verified keep = (\<lambda>(c, r) d.
     if c \<in> ds_seen d then d else keep_revocation keep r (d\<lparr>ds_seen := insert c (ds_seen d)\<rparr>))"

definition walk_lineage ::
  "ext \<Rightarrow> net \<Rightarrow> web_resolver \<Rightarrow> (key_revocation \<Rightarrow> bool) \<Rightarrow> lineage_id \<times> ctx_id \<Rightarrow> discovery_state \<Rightarrow>
     discovery_state client_op" where
  "walk_lineage E N resolve keep = (\<lambda>(l, expected) d.
     cbind (walk_revocation_lineage E N resolve l (Some expected)) (\<lambda>w.
     cret (fold (absorb_verified keep) (wk_verified w) (fold absorb_deferred (wk_deferred w) d))))"

definition discover_revocations ::
  "ext \<Rightarrow> net \<Rightarrow> web_resolver \<Rightarrow> string \<Rightarrow> (key_revocation \<Rightarrow> bool) \<Rightarrow> (key_revocation list \<times> full_context list) client_op" where
  "discover_revocations E N resolve search_agent_id keep =
     cbind (cfold (\<lambda>pass. search_pages MAX_SEARCH_PAGES E N resolve keep (revocation_search search_agent_id pass)) search_passes
              \<lparr>ds_revocations = [], ds_deferred = [], ds_seen = {}, ds_lineages = []\<rparr>) (\<lambda>d.
     cbind (clift (require (\<not> MAX_LINEAGE_WALKS < length (ds_lineages d)) SearchTruncated)) (\<lambda>_.
     cbind (cfold (walk_lineage E N resolve keep) (ds_lineages d) d) (\<lambda>d'.
     cret (ds_revocations d', ds_deferred d'))))"

section \<open>Lookups\<close>

definition marker_lookup :: "net \<Rightarrow> string \<Rightarrow> revocation_trust_class \<Rightarrow> client \<Rightarrow> int option" where
  "marker_lookup N agent cls s =
     (case (cl_cache s, client_authority N s) of
        (Some cache, Some vantage) \<Rightarrow> fresh_marker cache vantage agent cls (cl_freshness s) (nt_now N (cl_trace s))
      | _ \<Rightarrow> None)"

definition record_lookup :: "net \<Rightarrow> string \<Rightarrow> revocation_trust_class \<Rightarrow> key_revocation list \<Rightarrow> unit client_op" where
  "record_lookup N agent cls revocations s =
     (Inr (),
      case (cl_cache s, client_authority N s) of
        (Some cache, Some vantage) \<Rightarrow>
          s\<lparr>cl_cache := Some (record_success vantage agent cls revocations (nt_now N (cl_trace s)) (nt_wall N (cl_trace s)) cache)\<rparr>
      | _ \<Rightarrow> s)"

definition keeps_signed :: "agent_did \<Rightarrow> key_revocation \<Rightarrow> bool" where
  "keeps_signed agent r \<longleftrightarrow> kr_publisher r = agent \<and> kr_trust_class r = ProducerSigned"

definition find_revocations_lookup :: "ext \<Rightarrow> net \<Rightarrow> web_resolver \<Rightarrow> agent_did \<Rightarrow> lookup client_op" where
  "find_revocations_lookup E N resolve agent_id =
     cbind (clift (agent_did_parse agent_id)) (\<lambda>agent s.
       case marker_lookup N agent ProducerSigned s of
         Some observed \<Rightarrow> (Inr (lookup_cached observed), s)
       | None \<Rightarrow>
           cbind (discover_revocations E N resolve agent (keeps_signed agent)) (\<lambda>(revocations, deferred).
           cbind (if deferred = [] then record_lookup N agent ProducerSigned revocations else cret ()) (\<lambda>_.
           cret (lookup_live revocations deferred))) s)"

definition find_revocations :: "ext \<Rightarrow> net \<Rightarrow> web_resolver \<Rightarrow> agent_did \<Rightarrow> key_revocation list client_op" where
  "find_revocations E N resolve agent_id =
     cbind (find_revocations_lookup E N resolve agent_id) (\<lambda>l.
     cbind (clift (refuse_deferred (lk_deferred l))) (\<lambda>_. cret (lk_revocations l)))"

definition keeps_attested :: "agent_did \<Rightarrow> string \<Rightarrow> string \<Rightarrow> key_revocation \<Rightarrow> bool" where
  "keeps_attested controller serving_authority registry_did r \<longleftrightarrow>
     kr_controller r = controller \<and> is_ok (cross_check_registry_binding r serving_authority registry_did)"

definition find_registry_attested_lookup :: "ext \<Rightarrow> net \<Rightarrow> web_resolver \<Rightarrow> agent_did \<Rightarrow> lookup client_op" where
  "find_registry_attested_lookup E N resolve controller_id =
     cbind (clift (agent_did_parse controller_id)) (\<lambda>controller s.
       case marker_lookup N controller RegistryAttested s of
         Some observed \<Rightarrow> (Inr (lookup_cached observed), s)
       | None \<Rightarrow>
           cbind (client_capabilities N) (\<lambda>caps.
           cbind (clift (agent_did_parse (cap_registry_did caps))) (\<lambda>registry_agent.
           cbind (\<lambda>s. (ok_or (client_authority N s) SchemaViolation, s)) (\<lambda>serving_authority.
           cbind (discover_revocations E N resolve registry_agent
                    (keeps_attested controller serving_authority (cap_registry_did caps))) (\<lambda>(revocations, _).
           cbind (record_lookup N controller RegistryAttested revocations) (\<lambda>_.
           cret (lookup_live revocations [])))))) s)"

definition find_registry_attested_revocations ::
  "ext \<Rightarrow> net \<Rightarrow> web_resolver \<Rightarrow> agent_did \<Rightarrow> key_revocation list client_op" where
  "find_registry_attested_revocations E N resolve controller =
     cbind (find_registry_attested_lookup E N resolve controller) (\<lambda>l. cret (lk_revocations l))"

end
