(* ===== verification/Acdp_Discovery_Correct.thy ===== *)
theory Acdp_Discovery_Correct
  imports Acdp_Discovery Acdp_Registry_Rules
begin

text \<open>
  Discovery against any registry: what it returns is genuine, and what it costs stays within the
  budget. Both rest on one locale over an invariant of the client that every request keeps.
\<close>

section \<open>Reasoning about client operations\<close>

lemma agent_did_parse_same: "agent_did_parse a = Inr b \<Longrightarrow> b = a"
  by (auto simp: agent_did_parse_def rbind_eq_Inr)

definition yields :: "(client \<Rightarrow> bool) \<Rightarrow> 'a client_op \<Rightarrow> ('a \<Rightarrow> bool) \<Rightarrow> bool" where
  "yields I m P \<longleftrightarrow> (\<forall>s. I s \<longrightarrow> I (snd (m s)) \<and> (\<forall>x. fst (m s) = Inr x \<longrightarrow> P x))"

lemma cbind_run:
  "fst (m s) = Inl e \<Longrightarrow> cbind m f s = (Inl e, snd (m s))"
  "fst (m s) = Inr x \<Longrightarrow> cbind m f s = f x (snd (m s))"
  by (cases "m s", simp add: cbind_def)+

lemma yields_cbind:
  assumes "yields I m P" and "\<And>x. P x \<Longrightarrow> yields I (f x) Q"
  shows "yields I (cbind m f) Q"
  unfolding yields_def
proof (intro allI impI)
  fix s assume "I s"
  then have "I (snd (m s))" and P: "\<And>x. fst (m s) = Inr x \<Longrightarrow> P x" using assms(1) by (auto simp: yields_def)
  then show "I (snd (cbind m f s)) \<and> (\<forall>x. fst (cbind m f s) = Inr x \<longrightarrow> Q x)"
    using assms(2) by (cases "fst (m s)") (auto simp: cbind_run yields_def)
qed

lemma yields_cret: "P x \<Longrightarrow> yields I (cret x) P"
  by (simp add: yields_def cret_def)

lemma yields_clift: "(\<And>x. r = Inr x \<Longrightarrow> P x) \<Longrightarrow> yields I (clift r) P"
  by (simp add: yields_def clift_def)

lemma yields_weaken: "yields I m P \<Longrightarrow> (\<And>x. P x \<Longrightarrow> Q x) \<Longrightarrow> yields I m Q"
  by (auto simp: yields_def)

lemma yields_cfold:
  assumes "Q a" and "\<And>x a. x \<in> set xs \<Longrightarrow> Q a \<Longrightarrow> yields I (f x a) Q"
  shows "yields I (cfold f xs a) Q"
  using assms by (induction xs arbitrary: a) (auto intro!: yields_cret yields_cbind[of I _ Q])

locale client_invariant =
  fixes E :: ext and N :: net and resolve :: web_resolver
    and authority :: "string option" and I :: "client \<Rightarrow> bool" and good :: "full_context \<Rightarrow> key_revocation \<Rightarrow> bool"
  assumes same_authority: "I s \<Longrightarrow> client_authority N s = authority"
    and retrieve_keeps: "I s \<Longrightarrow> I (snd (client_retrieve N c s))"
    and search_keeps: "I s \<Longrightarrow> I (snd (client_search N p s))"
    and lineage_keeps: "I s \<Longrightarrow> I (snd (client_lineage E N l s))"
    and capabilities_keeps: "I s \<Longrightarrow> I (snd (client_capabilities N s))"
    and record_keeps: "I s \<Longrightarrow> I (snd (record_lookup N a cls rs s))"
    and candidate_good: "I s \<Longrightarrow> fst (verify_revocation_candidate E N resolve ctx s) = Inr r \<Longrightarrow> good ctx r"
begin

lemma retrieve_yields: "yields I (client_retrieve N c) (\<lambda>_. True)"
  by (simp add: yields_def retrieve_keeps)

lemma receipt_keeps: "I s \<Longrightarrow> I (snd (candidate_receipt N ctx s))"
  using retrieve_keeps[of s "b_ctx_id (fc_body ctx)"]
  by (cases "client_retrieve N (b_ctx_id (fc_body ctx)) s") (auto simp: candidate_receipt_def split: option.split sum.split)

lemma historical_keeps: "I s \<Longrightarrow> I (snd (verify_candidate_historically E N resolve ctx s))"
  using receipt_keeps[of s ctx]
  by (auto simp: verify_candidate_historically_def clift_def cbind_def split: prod.split sum.split)

lemma candidate_keeps: "I s \<Longrightarrow> I (snd (verify_revocation_candidate E N resolve ctx s))"
  using historical_keeps[of s ctx]
  by (auto simp: verify_revocation_candidate_def clift_def cret_def cbind_def split: prod.split sum.split acdp_error.split)

lemma candidate_yields: "yields I (verify_revocation_candidate E N resolve ctx) (good ctx)"
  using candidate_keeps candidate_good by (auto simp: yields_def)

lemma judge_yields: "yields I (judge_candidate E N resolve ctx) (\<lambda>j. \<forall>r. j = Some r \<longrightarrow> good ctx r)"
  unfolding yields_def
proof (intro allI impI)
  fix s assume "I s"
  then show "I (snd (judge_candidate E N resolve ctx s)) \<and>
      (\<forall>x. fst (judge_candidate E N resolve ctx s) = Inr x \<longrightarrow> (\<forall>r. x = Some r \<longrightarrow> good ctx r))"
    using candidate_keeps[of s ctx] candidate_good[of s ctx]
    by (cases "verify_revocation_candidate E N resolve ctx s") (auto simp: judge_candidate_def split: sum.split)
qed

definition walk_good :: "walked \<Rightarrow> bool" where
  "walk_good w \<longleftrightarrow> (\<forall>(c, r)\<in>set (wk_verified w). \<exists>ctx. good ctx r)"

lemma member_yields: "walk_good w \<Longrightarrow> yields I (walk_member E N resolve ctx w) walk_good"
  unfolding walk_member_def
  by (fastforce simp: walk_good_def intro!: yields_cret yields_cbind[OF judge_yields] split: option.split)

lemma walk_yields: "yields I (walk_revocation_lineage E N resolve l expect) walk_good"
  unfolding walk_revocation_lineage_def
  using lineage_keeps
  by (intro yields_cbind[where P = "\<lambda>_. True"] yields_clift yields_cfold member_yields)
    (auto simp: yields_def walk_good_def)

definition found_good :: "(key_revocation \<Rightarrow> bool) \<Rightarrow> discovery_state \<Rightarrow> bool" where
  "found_good keep d \<longleftrightarrow> (\<forall>r\<in>set (ds_revocations d). keep r \<and> (\<exists>ctx. good ctx r))"

lemma keep_good: "found_good keep d \<Longrightarrow> good ctx r \<Longrightarrow> found_good keep (keep_revocation keep r d)"
  by (auto simp: found_good_def keep_revocation_def)

lemma found_good_fields [simp]:
  "found_good keep (d\<lparr>ds_seen := A\<rparr>) = found_good keep d" "found_good keep (d\<lparr>ds_deferred := xs\<rparr>) = found_good keep d"
  "found_good keep (d\<lparr>ds_lineages := ls\<rparr>) = found_good keep d"
  by (simp_all add: found_good_def)

lemma note_good [simp]: "found_good keep (note_lineage m d) = found_good keep d"
  by (simp add: note_lineage_def)

lemma visit_yields: "found_good keep d \<Longrightarrow> yields I (visit_match E N resolve keep m d) (found_good keep)"
  unfolding visit_match_def Let_def
  by (auto intro!: yields_cret yields_cbind[OF retrieve_yields] yields_cbind[OF judge_yields] keep_good split: option.split)

lemma pages_yield: "found_good keep d \<Longrightarrow> yields I (search_pages n E N resolve keep p d) (found_good keep)"
proof (induction n arbitrary: p d)
  case 0
  show ?case by (simp add: yields_def clift_def)
next
  case (Suc n)
  have search: "yields I (client_search N p) (\<lambda>_. True)" by (simp add: yields_def search_keeps)
  have visits: "yields I (cfold (visit_match E N resolve keep) ms d) (found_good keep)" for ms
    using Suc.prems by (intro yields_cfold visit_yields)
  show ?case
    unfolding search_pages.simps
    by (rule yields_cbind[OF search], rule yields_cbind[OF visits])
      (use Suc.IH in \<open>auto intro: yields_cret split: option.split\<close>)
qed

lemma absorb_one_good: "found_good keep d \<Longrightarrow> good ctx r \<Longrightarrow> found_good keep (absorb_verified keep (c, r) d)"
  by (auto simp: absorb_verified_def intro!: keep_good)

lemma absorb_good:
  "found_good keep d \<Longrightarrow> \<forall>(c, r)\<in>set vs. \<exists>ctx. good ctx r \<Longrightarrow> found_good keep (fold (absorb_verified keep) vs d)"
  by (induction vs arbitrary: d) (auto intro: absorb_one_good)

lemma absorb_deferred_good [simp]: "found_good keep (fold absorb_deferred cs d) = found_good keep d"
  by (induction cs arbitrary: d) (auto simp: absorb_deferred_def Let_def)

lemma walks_yield: "found_good keep d \<Longrightarrow> yields I (walk_lineage E N resolve keep le d) (found_good keep)"
  unfolding walk_lineage_def
  by (cases le) (auto intro!: yields_cbind[OF walk_yields] yields_cret absorb_good simp: walk_good_def)

lemma discover_yields:
  "yields I (discover_revocations E N resolve agent keep) (\<lambda>(rs, _). \<forall>r\<in>set rs. keep r \<and> (\<exists>ctx. good ctx r))"
  unfolding discover_revocations_def
  by (intro yields_cbind[OF yields_cfold[of "found_good keep"]] yields_cbind[of I _ "\<lambda>_. True"]
      yields_clift yields_cret pages_yield walks_yield) (auto simp: found_good_def)

lemma record_yields: "yields I (record_lookup N a cls rs) (\<lambda>_. True)"
  by (simp add: yields_def record_keeps)

lemma lookup_yields:
  "yields I (find_revocations_lookup E N resolve agent)
     (\<lambda>l. \<forall>r\<in>set (lk_revocations l). keeps_signed agent r \<and> (\<exists>ctx. good ctx r))"
proof -
  have found: "yields I (cbind (discover_revocations E N resolve agent (keeps_signed agent)) (\<lambda>(revocations, deferred).
           cbind (if deferred = [] then record_lookup N agent ProducerSigned revocations else cret ()) (\<lambda>_.
           cret (lookup_live revocations deferred))))
     (\<lambda>l. \<forall>r\<in>set (lk_revocations l). keeps_signed agent r \<and> (\<exists>ctx. good ctx r))"
    by (intro yields_cbind[OF discover_yields])
      (auto simp: lookup_live_def intro!: yields_cbind[of I _ "\<lambda>_. True"] yields_cret record_yields)
  show ?thesis
    unfolding find_revocations_lookup_def
    by (rule yields_cbind[OF yields_clift[of _ "\<lambda>a. a = agent"]])
      (use found in \<open>auto simp: agent_did_parse_same yields_def lookup_cached_def split: option.split\<close>)
qed

lemma capabilities_yield: "yields I (client_capabilities N) (\<lambda>_. True)"
  by (simp add: yields_def capabilities_keeps)

lemma authority_yields: "yields I (\<lambda>s. (ok_or (client_authority N s) SchemaViolation, s)) (\<lambda>a. authority = Some a)"
  by (auto simp: yields_def same_authority ok_or_eq_Inr)

lemma attested_yields:
  "yields I (find_registry_attested_lookup E N resolve controller)
     (\<lambda>l. \<forall>r\<in>set (lk_revocations l). kr_controller r = controller \<and>
        (\<exists>a. authority = Some a \<and> kr_publisher r = authority_to_did_web a) \<and> (\<exists>ctx. good ctx r))"
  (is "yields I _ ?P")
proof -
  have found: "yields I
       (cbind (client_capabilities N) (\<lambda>caps.
        cbind (clift (agent_did_parse (cap_registry_did caps))) (\<lambda>registry_agent.
        cbind (\<lambda>s. (ok_or (client_authority N s) SchemaViolation, s)) (\<lambda>serving_authority.
        cbind (discover_revocations E N resolve registry_agent
                 (keeps_attested controller serving_authority (cap_registry_did caps))) (\<lambda>(revocations, _).
        cbind (record_lookup N controller RegistryAttested revocations) (\<lambda>_.
        cret (lookup_live revocations []))))))) ?P"
    by (rule yields_cbind[OF capabilities_yield], rule yields_cbind[OF yields_clift[of _ "\<lambda>_. True"]], simp,
        rule yields_cbind[OF authority_yields], rule yields_cbind[OF discover_yields])
      (fastforce simp: lookup_live_def keeps_attested_def cross_check_registry_binding_def is_ok_iff rbind_eq_Inr
         intro!: yields_cbind[OF record_yields] yields_cret)
  show ?thesis
    unfolding find_registry_attested_lookup_def
    by (rule yields_cbind[OF yields_clift[of _ "\<lambda>a. a = controller"]])
      (use found in \<open>auto simp: agent_did_parse_same yields_def lookup_cached_def split: option.split\<close>)
qed

end

section \<open>One request\<close>

text \<open>
  What a charged request does to the client: nothing when refused, otherwise it reserves a slot, sends
  at most once and accounts for what it accepted.
\<close>

fun is_sent :: "client_event \<Rightarrow> bool" where
  "is_sent (Sent _ _) = True"
| "is_sent _ = False"

definition sent_count :: "client_event list \<Rightarrow> nat" where
  "sent_count evs = length (filter is_sent evs)"

lemma sent_count_simps [simp]: "sent_count [] = 0" "sent_count (e # evs) = (if is_sent e then 1 else 0) + sent_count evs"
  "sent_count (evs @ evs') = sent_count evs + sent_count evs'"
  by (simp_all add: sent_count_def)

definition charged :: "client \<Rightarrow> client \<Rightarrow> bool" where
  "charged s s' \<longleftrightarrow> s' = s \<or>
     (\<exists>s1 evs n. check_discovery_budget s = (Inr (), s1) \<and> n \<le> MAX_CONTEXT_BYTES \<and> sent_count evs \<le> 1 \<and>
        s' = s1\<lparr>cl_trace := cl_trace s1 @ evs, cl_budget := map_option (record_bytes n) (cl_budget s1)\<rparr>)"

lemma transmit_state: "snd (transmit N req token s) = s\<lparr>cl_trace := cl_trace s @ [Sent req token]\<rparr>"
  by (simp add: transmit_def emit_def)

lemma send_read_state: "\<exists>evs. sent_count evs \<le> 1 \<and> snd (send_read N req s) = s\<lparr>cl_trace := cl_trace s @ evs\<rparr>"
proof -
  have plain: "\<exists>evs. sent_count evs \<le> 1 \<and> snd (transmit N req token s) = s\<lparr>cl_trace := cl_trace s @ evs\<rparr>" for token
    by (rule exI[of _ "[Sent req token]"]) (simp add: transmit_state)
  have reported: "\<exists>evs. sent_count evs \<le> 1 \<and>
      emit (TokenRejected a) (snd (transmit N req token s)) = s\<lparr>cl_trace := cl_trace s @ evs\<rparr>" for token a
    by (rule exI[of _ "[Sent req token, TokenRejected a]"]) (simp add: transmit_state emit_def)
  have refused: "\<exists>evs. sent_count evs \<le> 1 \<and> s = s\<lparr>cl_trace := cl_trace s @ evs\<rparr>"
    by (rule exI[of _ "[]"]) simp
  show ?thesis
    using plain reported refused
    by (auto simp: send_read_def cbind_def transmit_def split: option.split bool.split sum.split)
qed

lemma capped_length:
  assumes "read_body_capped resp cap = Inr bs"
  shows "length bs \<le> cap"
proof -
  have "read_chunks cap buf cs = Inr bs \<Longrightarrow> length buf \<le> cap \<Longrightarrow> length bs \<le> cap" for buf cs
    by (induction cap buf cs rule: read_chunks.induct) (auto split: if_splits)
  from this[of "[]"] assms show ?thesis by (auto simp: read_body_capped_def split: if_splits)
qed

lemma parse_success_length: "parse_success N decode now resp cap = Inr (v, n) \<Longrightarrow> n \<le> cap"
  by (auto simp: parse_success_def rbind_eq_Inr dest: capped_length split: if_splits)

lemma record_no_bytes: "map_option (record_bytes 0) b = b"
  by (cases b) (simp_all add: record_bytes_def)

lemma refused_unchanged: "check_discovery_budget s = (Inl e, s1) \<Longrightarrow> s1 = s"
  by (auto simp: check_discovery_budget_def check_before_request_def split: option.splits if_splits)

lemma charged_read:
  assumes sends: "\<And>s. \<exists>evs. sent_count evs \<le> 1 \<and> snd (send s) = s\<lparr>cl_trace := cl_trace s @ evs\<rparr>"
    and cap: "cap \<le> MAX_CONTEXT_BYTES" and rest: "\<And>resp v s. snd (rest resp v s) = s"
  shows "charged s (snd (cbind check_discovery_budget (\<lambda>_. cbind send (\<lambda>resp.
           cbind (parse_response N decode cap resp) (\<lambda>(v, n). cbind (record_discovery_bytes n) (\<lambda>_. rest resp v)))) s))"
proof (cases "check_discovery_budget s")
  case (Pair r s1)
  show ?thesis
  proof (cases r)
    case (Inl e)
    then show ?thesis using Pair refused_unchanged by (simp add: cbind_def charged_def)
  next
    case (Inr u)
    obtain r2 s2 where send: "send s1 = (r2, s2)" by (cases "send s1")
    obtain evs where evs: "sent_count evs \<le> 1" "s2 = s1\<lparr>cl_trace := cl_trace s1 @ evs\<rparr>"
      using sends[of s1] send by auto
    have stop: "charged s s2"
      unfolding charged_def using Pair Inr evs record_no_bytes[of "cl_budget s1"]
      by (intro disjI2 exI[of _ s1] exI[of _ evs] exI[of _ 0]) simp
    show ?thesis
    proof (cases "\<exists>resp v n. r2 = Inr resp \<and> parse_success N decode (nt_wall N (cl_trace s2)) resp cap = Inr (v, n)")
      case True
      then obtain resp v n where accepted: "r2 = Inr resp" "parse_success N decode (nt_wall N (cl_trace s2)) resp cap = Inr (v, n)"
        by blast
      then have "n \<le> MAX_CONTEXT_BYTES" using parse_success_length cap by fastforce
      then show ?thesis
        unfolding charged_def using Pair Inr send evs accepted rest
        by (intro disjI2 exI[of _ s1] exI[of _ evs] exI[of _ n]) (simp add: cbind_def parse_response_def record_discovery_bytes_def)
    next
      case False
      then show ?thesis
        using Pair Inr send stop by (auto simp: cbind_def parse_response_def split: sum.split)
    qed
  qed
qed

lemma transmit_sends: "\<exists>evs. sent_count evs \<le> 1 \<and> snd (transmit N req token s) = s\<lparr>cl_trace := cl_trace s @ evs\<rparr>"
  by (rule exI[of _ "[Sent req token]"]) (simp add: transmit_state)

lemma caps_le: "MAX_METADATA_BYTES \<le> MAX_CONTEXT_BYTES" "MAX_CONTEXT_BYTES \<le> MAX_CONTEXT_BYTES"
  by (simp_all add: MAX_METADATA_BYTES_def MAX_CONTEXT_BYTES_def)

lemma retrieve_charged: "charged s (snd (client_retrieve N c s))"
  unfolding client_retrieve_def by (intro charged_read send_read_state caps_le) (simp add: cret_def)

lemma search_charged: "charged s (snd (client_search N p s))"
  unfolding client_search_def by (intro charged_read send_read_state caps_le) (simp add: cret_def)

lemma lineage_charged: "charged s (snd (client_lineage E N l s))"
  unfolding client_lineage_def by (intro charged_read send_read_state caps_le) (simp add: clift_def)

lemma capabilities_charged: "charged s (snd (client_capabilities N s))"
proof -
  have "charged s (snd (capabilities_with_ttl N s))"
    unfolding capabilities_with_ttl_def
    by (intro charged_read transmit_sends caps_le) (simp add: cbind_def clift_def cret_def split: sum.split)
  then show ?thesis
    by (cases "capabilities_with_ttl N s") (auto simp: client_capabilities_def cbind_def cret_def split: sum.split)
qed

lemma charged_base:
  assumes "charged s s'"
  shows "cl_base s' = cl_base s"
proof -
  have "cl_base s1 = cl_base s" if "check_discovery_budget s = (r, s1)" for r s1
    using that by (auto simp: check_discovery_budget_def split: option.splits prod.splits)
  then show ?thesis using assms by (auto simp: charged_def)
qed

lemma charged_authority: "charged s s' \<Longrightarrow> client_authority N s' = client_authority N s"
  by (simp add: client_authority_def charged_base)

lemma record_lookup_fields:
  "client_authority N (snd (record_lookup N a cls rs s)) = client_authority N s"
  "cl_budget (snd (record_lookup N a cls rs s)) = cl_budget s" "cl_trace (snd (record_lookup N a cls rs s)) = cl_trace s"
  by (auto simp: record_lookup_def client_authority_def split: option.split)

section \<open>Only the signature check denies a key\<close>

text \<open>Schema and hash failures never take the form that opens the historical arm.\<close>

definition undenied :: "'a acdp_result \<Rightarrow> bool" where
  "undenied r \<longleftrightarrow> r \<noteq> Inl KeyNotAuthorized"

lemma undenied_values [simp]: "undenied (Inr x)" "undenied (Inl e) \<longleftrightarrow> e \<noteq> KeyNotAuthorized"
  by (simp_all add: undenied_def)

lemma undenied_rbind: "undenied r \<Longrightarrow> (\<And>x. undenied (f x)) \<Longrightarrow> undenied (rbind r f)"
  by (cases r) auto

lemma undenied_require: "e \<noteq> KeyNotAuthorized \<Longrightarrow> undenied (require c e)"
  by (simp add: require_def)

lemma undenied_ok_or: "e \<noteq> KeyNotAuthorized \<Longrightarrow> undenied (ok_or m e)"
  by (cases m) simp_all

lemma undenied_each: "(\<And>x. undenied (f x)) \<Longrightarrow> undenied (each f xs)"
  by (induction xs) (auto intro: undenied_rbind)

lemma undenied_opt_check: "(\<And>x. undenied (f x)) \<Longrightarrow> undenied (opt_check m f)"
  by (cases m) auto

lemma undenied_void: "undenied r \<Longrightarrow> undenied (void r)"
  by (cases r) (simp_all add: void_def)

lemma undenied_checks: "(\<And>r. r \<in> set rs \<Longrightarrow> undenied r) \<Longrightarrow> undenied (checks rs)"
  by (induction rs) (auto intro: undenied_rbind)

lemmas undenied_intros = undenied_rbind undenied_require undenied_ok_or undenied_each undenied_opt_check undenied_void undenied_checks

lemma undenied_canonical: "undenied (try_canonicalize_value sci v)"
  by (simp add: try_canonicalize_value_def write_value_render)

lemma undenied_ids:
  "undenied (ctx_id_parse s)" "undenied (hex_id_parse pre s)" "undenied (lineage_id_parse s)" "undenied (content_hash_parse s)"
  "undenied (agent_did_parse s)" "undenied (agent_did_parse_web s)"
  by (auto simp: ctx_id_parse_def hex_id_parse_def lineage_id_parse_def content_hash_parse_def agent_did_parse_def
      agent_did_parse_web_def intro!: undenied_intros)

lemma undenied_did_keys:
  "undenied (decode_multibase_key E m)" "undenied (resolve_did_key E d)" "undenied (resolve_did_key_url E k)"
  by (auto simp: decode_multibase_key_def resolve_did_key_def resolve_did_key_url_def Let_def intro!: undenied_intros)

lemma undenied_strings:
  "undenied (validate_title t)" "undenied (validate_optional_string o1 n)" "undenied (validate_unique_array eq xs n)"
  "undenied (validate_tags ts)" "undenied (validate_visibility_audience v au)" "undenied (validate_signature_length alg val)"
  "undenied (validate_data_period dp)" "undenied (validate_semver_pattern ver)" "undenied (validate_origin_registry s)"
  by (auto simp: validate_title_def validate_optional_string_def validate_unique_array_def validate_tags_def validate_tag_def
      validate_visibility_audience_def validate_signature_length_def validate_data_period_def validate_semver_pattern_def
      validate_origin_registry_def Let_def intro!: undenied_intros split: visibility.split)

lemma undenied_identifiers:
  "undenied (validate_did_key_key_id_form E k)" "undenied (validate_agent_did E d b)" "undenied (validate_loose_did d)"
  "undenied (validate_identifiers c l h)" "undenied (validate_audience ds)" "undenied (check_key_attestation_presence k p)"
  by (auto simp: validate_did_key_key_id_form_def validate_agent_did_def validate_loose_did_def validate_identifiers_def
      validate_audience_def check_key_attestation_presence_def intro!: undenied_intros undenied_ids undenied_did_keys undenied_strings)

lemma undenied_attestation: "undenied (body_key_attestation b)"
  by (auto simp: body_key_attestation_def key_attestation_validate_def intro!: undenied_intros undenied_ids split: option.split)

lemma undenied_json:
  "undenied (validate_json_object_limits E v)" "undenied (validate_metadata E v)" "undenied (validate_extensions E m)"
  "undenied (validate_anchors xs)"
  by (auto simp: validate_json_object_limits_def validate_metadata_def validate_extensions_def validate_anchors_def
      intro!: undenied_intros undenied_canonical undenied_ids undenied_strings)

lemma undenied_embedded: "undenied (embedded_decoded_bytes E emb)"
  by (auto simp: embedded_decoded_bytes_def intro!: undenied_intros undenied_canonical split: embedded_encoding.split)

lemma undenied_data_ref: "undenied (validate_data_ref E dr)"
  by (auto simp: validate_data_ref_def validate_data_ref_structural_def verify_embedded_hash_def compute_embedded_hash_def
      validate_embedded_def validate_location_def validate_uri_location_def validate_structured_locator_def
      intro!: undenied_intros undenied_embedded undenied_ids split: location.split)

lemma undenied_body: "undenied (validate_body E b)"
  unfolding validate_body_def validate_body_inner_def if_True
  by (rule undenied_checks)
    (auto intro!: undenied_strings undenied_identifiers undenied_attestation undenied_json undenied_data_ref undenied_ids undenied_intros)

lemma undenied_content_hash: "undenied (verify_content_hash sci sha v h)"
  by (auto simp: verify_content_hash_def compute_content_hash_def canonical_preimage_def
      intro!: undenied_intros undenied_canonical split: json.split)

lemma undenied_context_hash: "undenied (verify_context_hash E ctx)"
  using undenied_content_hash
  by (auto simp: verify_context_hash_def verify_raw_body_hash_def verify_typed_body_hash_def verify_typed_content_hash_def undenied_def
      split: option.split sum.split acdp_error.split)

lemma denied_only_by_signature:
  assumes "verify_context E resolve ctx = Inl KeyNotAuthorized"
  shows "validate_body E (fc_body ctx) = Inr () \<and> verify_context_hash E ctx = Inr ()"
  using assms undenied_body[of E "fc_body ctx"] undenied_context_hash[of E ctx]
  by (auto simp: verify_context_def rbind_eq_Inl undenied_def)

section \<open>What discovery returns is genuine\<close>

text \<open>
  A genuine revocation: a well-formed body whose hash fits and that parses to the revocation, signed
  by another key than the one it revokes, the signing key being authorized now, or retained in the
  producer's document and attested by a receipt that verifies for the serving authority.
\<close>

definition attested_by_receipt :: "ext \<Rightarrow> web_resolver \<Rightarrow> string option \<Rightarrow> body \<Rightarrow> string \<Rightarrow> bool" where
  "attested_by_receipt E resolve authority b fp \<longleftrightarrow>
     (\<exists>v receipt. verify_receipt_value E resolve v (b_ctx_id b) b (b_content_hash b) fp
        (case authority of Some a \<Rightarrow> a | None \<Rightarrow> ctx_id_authority (b_ctx_id b)) = Inr receipt)"

definition genuine :: "ext \<Rightarrow> web_resolver \<Rightarrow> string option \<Rightarrow> full_context \<Rightarrow> key_revocation \<Rightarrow> bool" where
  "genuine E resolve authority ctx r \<longleftrightarrow>
     (let b = fc_body ctx in
      validate_body E b = Inr () \<and> verify_context_hash E ctx = Inr () \<and> revocation_from_body E b = Inr r \<and>
      (\<exists>fp. fingerprint_for_key_id E resolve (sig_key_id (b_signature b)) (sig_algorithm (b_signature b)) = Inr fp \<and>
         fp \<noteq> kr_fingerprint r \<and>
         (verify_body_signature E resolve b = Inr () \<or>
          same_producer b \<and> verify_body_signature_historical E resolve b = Inr () \<and> attested_by_receipt E resolve authority b fp)))"

lemma checked_revocationD:
  assumes "checked_revocation E resolve b = Inr r"
  shows "revocation_from_body E b = Inr r \<and>
    (\<exists>fp. fingerprint_for_key_id E resolve (sig_key_id (b_signature b)) (sig_algorithm (b_signature b)) = Inr fp \<and> fp \<noteq> kr_fingerprint r)"
  using assms by (auto simp: checked_revocation_def rbind_eq_Inr check_not_self_signed_def)

lemma candidate_receipt_authority: "client_authority N (snd (candidate_receipt N ctx s)) = client_authority N s"
  using charged_base[OF retrieve_charged, of N "b_ctx_id (fc_body ctx)" s]
  by (cases "client_retrieve N (b_ctx_id (fc_body ctx)) s")
    (auto simp: candidate_receipt_def client_authority_def split: option.split sum.split)

lemma historical_genuine:
  assumes "fst (verify_candidate_historically E N resolve ctx s) = Inr ()"
    and "fingerprint_for_key_id E resolve (sig_key_id (b_signature (fc_body ctx))) (sig_algorithm (b_signature (fc_body ctx))) = Inr fp"
  shows "same_producer (fc_body ctx) \<and> verify_body_signature_historical E resolve (fc_body ctx) = Inr () \<and>
    attested_by_receipt E resolve (client_authority N s) (fc_body ctx) fp"
proof -
  have same: "same_producer (fc_body ctx)"
    using assms(1) by (auto simp: verify_candidate_historically_def clift_def split: if_splits)
  obtain r s' where receipt: "candidate_receipt N ctx s = (r, s')" by (cases "candidate_receipt N ctx s")
  then obtain v where "r = Inr v"
    using assms(1) same by (cases r) (auto simp: verify_candidate_historically_def cbind_def)
  moreover have "client_authority N s' = client_authority N s" using candidate_receipt_authority[of N ctx s] receipt by simp
  ultimately show ?thesis
    using assms same receipt
    by (auto simp: verify_candidate_historically_def cbind_def verify_under_receipt_def attested_by_receipt_def split: sum.splits)
qed

lemma candidate_genuine:
  assumes "fst (verify_revocation_candidate E N resolve ctx s) = Inr r"
  shows "genuine E resolve (client_authority N s) ctx r"
proof (cases "verify_context E resolve ctx")
  case (Inr u)
  then have "checked_revocation E resolve (fc_body ctx) = Inr r"
    using assms by (auto simp: verify_revocation_candidate_def clift_def cret_def cbind_def split: if_splits)
  then show ?thesis
    using Inr checked_revocationD by (fastforce simp: genuine_def Let_def verify_context_def rbind_eq_Inr)
next
  case (Inl e)
  then have denied: "e = KeyNotAuthorized" and checked: "checked_revocation E resolve (fc_body ctx) = Inr r"
    and hist: "fst (verify_candidate_historically E N resolve ctx s) = Inr ()"
    using assms by (auto simp: verify_revocation_candidate_def clift_def cbind_def split: if_splits acdp_error.splits sum.splits prod.splits)
  then show ?thesis
    using Inl checked_revocationD[OF checked] denied_only_by_signature[of E resolve ctx] historical_genuine[OF hist]
    by (auto simp: genuine_def Let_def)
qed

interpretation genuine_run: client_invariant E N resolve authority "\<lambda>s. client_authority N s = authority" "genuine E resolve authority"
  for E N resolve authority
  using charged_authority[OF retrieve_charged] charged_authority[OF search_charged] charged_authority[OF lineage_charged]
    charged_authority[OF capabilities_charged] candidate_genuine
  by unfold_locales (auto simp: record_lookup_fields)

lemma revocation_publisher: "revocation_from_body E b = Inr r \<Longrightarrow> kr_publisher r = b_agent_id b"
  using from_partsD(3) by (auto simp: revocation_from_body_def rbind_eq_Inr)

text \<open>
  C19. Whatever a registry answers, the revocations a lookup returns for a producer are that producer's
  own: each stems from a well-formed body of the producer with a fitting hash, signed by a key other
  than the revoked one that is authorized now, or retained and attested by a verified receipt.
\<close>

theorem discovered_revocations_genuine:
  assumes "find_revocations_lookup E N resolve agent s = (Inr l, s')" and "r \<in> set (lk_revocations l)"
  shows "kr_trust_class r = ProducerSigned \<and> kr_publisher r = agent \<and>
    (\<exists>ctx. genuine E resolve (client_authority N s) ctx r \<and> b_agent_id (fc_body ctx) = agent)"
proof -
  have "keeps_signed agent r" and "\<exists>ctx. genuine E resolve (client_authority N s) ctx r"
    using genuine_run.lookup_yields[of N "client_authority N s" E resolve agent] assms by (auto simp: yields_def)
  moreover from this(2) obtain ctx where "genuine E resolve (client_authority N s) ctx r" by blast
  moreover from this have "b_agent_id (fc_body ctx) = kr_publisher r"
    using revocation_publisher[of E "fc_body ctx" r] by (simp add: genuine_def Let_def)
  ultimately show ?thesis by (auto simp: keeps_signed_def)
qed

section \<open>What discovery costs\<close>

text \<open>
  The two lookups of a discovery run concurrently on one client (\<open>tokio::try_join!\<close>) and share its
  budget. The state of such a run is the client and which of the two lookups awaits a response. A
  lookup that awaits none may pass the check and send a request, or be refused by the check, or
  record what it found in the cache; a lookup that awaits a response may receive one and have its
  bytes counted. These are the effects a client call has on the shared state (\<open>charged\<close>), cut at
  the point where the task is suspended; they may interleave in any order.
\<close>

record joint_run =
  jt_client :: client
  jt_waiting :: "revocation_trust_class \<Rightarrow> bool"

definition joint_start :: "client \<Rightarrow> joint_run" where
  "joint_start s = \<lparr>jt_client = s, jt_waiting = (\<lambda>_. False)\<rparr>"

inductive joint_step :: "joint_run \<Rightarrow> joint_run \<Rightarrow> bool" where
  issue: "\<not> jt_waiting j t \<Longrightarrow> check_discovery_budget (jt_client j) = (Inr (), s) \<Longrightarrow> sent_count evs \<le> 1 \<Longrightarrow>
    joint_step j \<lparr>jt_client = s\<lparr>cl_trace := cl_trace s @ evs\<rparr>, jt_waiting = (jt_waiting j)(t := True)\<rparr>"
| refuse: "\<not> jt_waiting j t \<Longrightarrow> check_discovery_budget (jt_client j) = (Inl e, s) \<Longrightarrow> joint_step j (j\<lparr>jt_client := s\<rparr>)"
| answer: "jt_waiting j t \<Longrightarrow> n \<le> MAX_CONTEXT_BYTES \<Longrightarrow> record_discovery_bytes n (jt_client j) = (r, s) \<Longrightarrow>
    joint_step j \<lparr>jt_client = s, jt_waiting = (jt_waiting j)(t := False)\<rparr>"
| remember: "\<not> jt_waiting j t \<Longrightarrow> joint_step j (j\<lparr>jt_client := snd (record_lookup N a cls rs (jt_client j))\<rparr>)"

definition in_flight :: "joint_run \<Rightarrow> nat" where
  "in_flight j = of_bool (jt_waiting j ProducerSigned) + of_bool (jt_waiting j RegistryAttested)"

text \<open>Each response still awaited may add its size, and there are at most two.\<close>

definition within_budget :: "nat \<Rightarrow> u64 \<Rightarrow> nat \<Rightarrow> joint_run \<Rightarrow> bool" where
  "within_budget n m k j \<longleftrightarrow>
     (\<exists>b. cl_budget (jt_client j) = Some b \<and> bg_max_requests b = Some n \<and> bg_max_bytes b = Some m \<and>
        bg_requests_used b \<le> n \<and> sent_count (cl_trace (jt_client j)) \<le> k + bg_requests_used b \<and>
        unat (bg_bytes_used b) + in_flight j * MAX_CONTEXT_BYTES < unat m + 2 * MAX_CONTEXT_BYTES)"

lemma in_flight_update:
  "\<not> jt_waiting j t \<Longrightarrow> in_flight \<lparr>jt_client = s, jt_waiting = (jt_waiting j)(t := True)\<rparr> \<le> 2"
  "jt_waiting j t \<Longrightarrow> in_flight j = Suc (in_flight \<lparr>jt_client = s, jt_waiting = (jt_waiting j)(t := False)\<rparr>)"
  "in_flight (j\<lparr>jt_client := s\<rparr>) = in_flight j"
  by (cases t; simp add: in_flight_def)+

lemma check_passed:
  assumes "check_discovery_budget c = (Inr (), s)" "cl_budget c = Some b" "bg_max_requests b = Some n" "bg_max_bytes b = Some m"
  shows "cl_budget s = Some (b\<lparr>bg_requests_used := bg_requests_used b + 1\<rparr>)" "bg_requests_used b < n"
    "unat (bg_bytes_used b) < unat m" "cl_trace s = cl_trace c"
  using assms
  by (auto simp: check_discovery_budget_def check_before_request_def not_le word_less_nat_alt split: if_splits)

lemma check_refused: "check_discovery_budget c = (Inl e, s) \<Longrightarrow> s = c"
  by (cases "cl_budget c") (auto simp: check_discovery_budget_def check_before_request_def split: if_splits option.splits)

lemma recorded_bytes:
  fixes used :: u64
  shows "unat (used + word_of_nat n) \<le> unat used + n"
proof -
  have "unat (word_of_nat n :: u64) \<le> n" by (simp add: unat_of_nat)
  moreover have "unat (used + word_of_nat n) \<le> unat used + unat (word_of_nat n :: u64)" by (simp add: unat_word_ariths)
  ultimately show ?thesis by linarith
qed

lemma joint_step_within:
  assumes "within_budget n m k j" "joint_step j j'"
  shows "within_budget n m k j'"
  using assms(2)
proof cases
  case (issue t s evs)
  obtain b where b: "cl_budget (jt_client j) = Some b" "bg_max_requests b = Some n" "bg_max_bytes b = Some m"
    "sent_count (cl_trace (jt_client j)) \<le> k + bg_requests_used b"
    using assms(1) by (auto simp: within_budget_def)
  note c = check_passed[OF issue(3) b(1-3)]
  have "in_flight j' * MAX_CONTEXT_BYTES \<le> 2 * MAX_CONTEXT_BYTES"
    unfolding issue(1) by (rule mult_le_mono1[OF in_flight_update(1)[OF issue(2)]])
  then have "unat (bg_bytes_used b) + in_flight j' * MAX_CONTEXT_BYTES < unat m + 2 * MAX_CONTEXT_BYTES"
    using c(3) by linarith
  then show ?thesis using c b issue(1,4) unfolding within_budget_def by simp
next
  case (refuse t e s)
  then show ?thesis using assms(1) check_refused[OF refuse(3)] by simp
next
  case (answer t i r s)
  obtain b where b: "cl_budget (jt_client j) = Some b" "bg_max_requests b = Some n" "bg_max_bytes b = Some m"
    "bg_requests_used b \<le> n" "sent_count (cl_trace (jt_client j)) \<le> k + bg_requests_used b"
    "unat (bg_bytes_used b) + in_flight j * MAX_CONTEXT_BYTES < unat m + 2 * MAX_CONTEXT_BYTES"
    using assms(1) by (auto simp: within_budget_def)
  have s: "cl_budget s = Some (record_bytes i b)" "cl_trace s = cl_trace (jt_client j)"
    using answer(4) b(1) by (auto simp: record_discovery_bytes_def)
  have "in_flight j = Suc (in_flight j')" unfolding answer(1) by (rule in_flight_update(2)[OF answer(2)])
  then have "unat (bg_bytes_used b) + (MAX_CONTEXT_BYTES + in_flight j' * MAX_CONTEXT_BYTES) < unat m + 2 * MAX_CONTEXT_BYTES"
    using b(6) by simp
  then have "unat (bg_bytes_used b + word_of_nat i) + in_flight j' * MAX_CONTEXT_BYTES < unat m + 2 * MAX_CONTEXT_BYTES"
    using recorded_bytes[of "bg_bytes_used b" i] answer(3) by linarith
  then show ?thesis using b s answer(1) by (simp add: within_budget_def record_bytes_def)
next
  case (remember t N a cls rs)
  then show ?thesis using assms(1) by (simp add: within_budget_def record_lookup_fields in_flight_update(3))
qed

interpretation joint: transition_system joint_step "within_budget n m k" for n m k
  by unfold_locales (auto intro: joint_step_within)

text \<open>A client call on its own is one such run: the check, the request, the response.\<close>

lemma charged_joint:
  assumes "charged s s'"
  shows "joint_step\<^sup>*\<^sup>* (joint_start s) (joint_start s')"
proof (cases "s' = s")
  case False
  then obtain s1 evs i where step: "check_discovery_budget s = (Inr (), s1)" "i \<le> MAX_CONTEXT_BYTES" "sent_count evs \<le> 1"
    and s': "s' = s1\<lparr>cl_trace := cl_trace s1 @ evs, cl_budget := map_option (record_bytes i) (cl_budget s1)\<rparr>"
    using assms by (auto simp: charged_def)
  let ?sent = "s1\<lparr>cl_trace := cl_trace s1 @ evs\<rparr>"
  let ?mid = "\<lparr>jt_client = ?sent, jt_waiting = (jt_waiting (joint_start s))(ProducerSigned := True)\<rparr>"
  have "joint_step (joint_start s) ?mid"
    by (rule joint_step.issue) (use step in \<open>simp_all add: joint_start_def\<close>)
  moreover have "joint_step ?mid \<lparr>jt_client = s', jt_waiting = (jt_waiting ?mid)(ProducerSigned := False)\<rparr>"
    by (rule joint_step.answer[of _ _ i]) (use step in \<open>simp_all add: record_discovery_bytes_def s'\<close>)
  moreover have "\<lparr>jt_client = s', jt_waiting = (jt_waiting ?mid)(ProducerSigned := False)\<rparr> = joint_start s'"
    by (simp add: joint_start_def fun_upd_idem)
  ultimately show ?thesis by (metis converse_rtranclp_into_rtranclp rtranclp.rtrancl_refl)
qed simp

lemma remember_joint: "joint_step\<^sup>*\<^sup>* (joint_start s) (joint_start (snd (record_lookup N a cls rs s)))"
  using joint_step.remember[of "joint_start s" ProducerSigned N a cls rs]
  by (simp add: joint_start_def r_into_rtranclp)

definition reached_from :: "client \<Rightarrow> client \<Rightarrow> bool" where
  "reached_from s0 s \<longleftrightarrow> joint_step\<^sup>*\<^sup>* (joint_start s0) (joint_start s)"

lemma reached_charged: "reached_from s0 s \<Longrightarrow> charged s s' \<Longrightarrow> reached_from s0 s'"
  unfolding reached_from_def using charged_joint rtranclp_trans by metis

lemma reached_remember: "reached_from s0 s \<Longrightarrow> reached_from s0 (snd (record_lookup N a cls rs s))"
  unfolding reached_from_def using remember_joint rtranclp_trans by metis

interpretation joint_lookup: client_invariant E N resolve authority
    "\<lambda>s. client_authority N s = authority \<and> reached_from s0 s" "\<lambda>_ _. True"
  for E N resolve authority s0
  using reached_charged[OF _ retrieve_charged] reached_charged[OF _ search_charged] reached_charged[OF _ lineage_charged]
    reached_charged[OF _ capabilities_charged] charged_authority[OF retrieve_charged] charged_authority[OF search_charged]
    charged_authority[OF lineage_charged] charged_authority[OF capabilities_charged] reached_remember
  by unfold_locales (auto simp: record_lookup_fields)

text \<open>
  C20. Both lookups of a discovery together stay within one budget, however the tasks interleave
  and whatever the registry answers: at every moment they have sent at most the allowed number of
  requests, and the bytes counted exceed the allowed number by less than two responses, with no
  wrap-around of the counter. (Two responses, because each lookup may have passed the check before
  the other's response was counted.) Running one lookup after the other is one of these runs.
\<close>

theorem discovery_within_budget:
  assumes "cl_budget s = Some (budget_new (Some n) (Some m))" and "unat m + 2 * MAX_CONTEXT_BYTES \<le> 2 ^ 64"
  shows "(\<forall>j. joint_step\<^sup>*\<^sup>* (joint_start s) j \<longrightarrow>
      sent_count (cl_trace (jt_client j)) \<le> sent_count (cl_trace s) + n \<and>
      (\<exists>b. cl_budget (jt_client j) = Some b \<and> unat (bg_bytes_used b) < unat m + 2 * MAX_CONTEXT_BYTES)) \<and>
    joint_step\<^sup>*\<^sup>* (joint_start s)
      (joint_start (snd (find_registry_attested_lookup E N resolve agent (snd (find_revocations_lookup E N resolve agent s)))))"
proof (intro conjI allI impI)
  fix j
  assume run: "joint_step\<^sup>*\<^sup>* (joint_start s) j"
  have "within_budget n m (sent_count (cl_trace s)) (joint_start s)"
    using assms(1) by (simp add: within_budget_def budget_new_def joint_start_def in_flight_def MAX_CONTEXT_BYTES_def)
  from joint.steps_inv[OF run this] obtain b where b: "cl_budget (jt_client j) = Some b" "bg_requests_used b \<le> n"
    "sent_count (cl_trace (jt_client j)) \<le> sent_count (cl_trace s) + bg_requests_used b"
    "unat (bg_bytes_used b) + in_flight j * MAX_CONTEXT_BYTES < unat m + 2 * MAX_CONTEXT_BYTES"
    unfolding within_budget_def by blast
  then show "sent_count (cl_trace (jt_client j)) \<le> sent_count (cl_trace s) + n" by simp
  show "\<exists>b. cl_budget (jt_client j) = Some b \<and> unat (bg_bytes_used b) < unat m + 2 * MAX_CONTEXT_BYTES"
    using b by auto
next
  let ?s1 = "snd (find_revocations_lookup E N resolve agent s)"
  have "reached_from s s" by (simp add: reached_from_def)
  then have "client_authority N ?s1 = client_authority N s \<and> reached_from s ?s1"
    using joint_lookup.lookup_yields[of N "client_authority N s" s E resolve agent] by (auto simp: yields_def)
  then have "reached_from s (snd (find_registry_attested_lookup E N resolve agent ?s1))"
    using joint_lookup.attested_yields[of N "client_authority N s" s E resolve agent] by (auto simp: yields_def)
  then show "joint_step\<^sup>*\<^sup>* (joint_start s) (joint_start (snd (find_registry_attested_lookup E N resolve agent ?s1)))"
    unfolding reached_from_def .
qed

text \<open>
  A run that exceeds the limit by more than one response: with one byte allowed, both lookups pass the
  check, then both receive a response of the largest size.
\<close>

definition overshoot_client :: client where
  "overshoot_client = \<lparr>cl_base = [], cl_change_limits = None, cl_budget = Some (budget_new (Some 2) (Some 1)), cl_cache = None,
     cl_freshness = 0, cl_auth = False, cl_trace = []\<rparr>"

definition overshoot :: "u64 \<Rightarrow> nat \<Rightarrow> (revocation_trust_class \<Rightarrow> bool) \<Rightarrow> joint_run" where
  "overshoot bytes requests w =
     \<lparr>jt_client = overshoot_client\<lparr>cl_budget := Some ((budget_new (Some 2) (Some 1))\<lparr>bg_requests_used := requests, bg_bytes_used := bytes\<rparr>)\<rparr>,
      jt_waiting = w\<rparr>"

lemmas overshoot_defs = overshoot_def overshoot_client_def budget_new_def

lemma overshoot_issue:
  "\<not> w t \<Longrightarrow> requests < 2 \<Longrightarrow> joint_step (overshoot 0 requests w) (overshoot 0 (requests + 1) (w(t := True)))"
  using joint_step.issue[of "overshoot 0 requests w" t "jt_client (overshoot 0 (requests + 1) w)" "[]"]
  by (simp add: overshoot_defs check_discovery_budget_def check_before_request_def sent_count_def)

lemma overshoot_answer:
  "w t \<Longrightarrow> joint_step (overshoot bytes 2 w) (overshoot (bytes + word_of_nat MAX_CONTEXT_BYTES) 2 (w(t := False)))"
  using joint_step.answer[of "overshoot bytes 2 w" t MAX_CONTEXT_BYTES "Inr ()"
      "jt_client (overshoot (bytes + word_of_nat MAX_CONTEXT_BYTES) 2 w)"]
  by (simp add: overshoot_defs record_discovery_bytes_def record_bytes_def)

lemma overshoot_run:
  "joint_step\<^sup>*\<^sup>* (joint_start overshoot_client) (overshoot (2 * word_of_nat MAX_CONTEXT_BYTES) 2 (\<lambda>_. False))"
proof -
  let ?w0 = "\<lambda>_. False" and ?P = ProducerSigned and ?R = RegistryAttested
  let ?w1 = "?w0(?P := True)" let ?w2 = "?w1(?R := True)" let ?w3 = "?w2(?P := False)" let ?w4 = "?w3(?R := False)"
  have start: "joint_start overshoot_client = overshoot 0 0 ?w0" by (simp add: joint_start_def overshoot_defs)
  have s1: "joint_step (overshoot 0 0 ?w0) (overshoot 0 1 ?w1)" using overshoot_issue[of ?w0 ?P 0] by simp
  have s2: "joint_step (overshoot 0 1 ?w1) (overshoot 0 2 ?w2)" using overshoot_issue[of ?w1 ?R 1] by (simp add: numeral_2_eq_2)
  have s3: "joint_step (overshoot 0 2 ?w2) (overshoot (word_of_nat MAX_CONTEXT_BYTES) 2 ?w3)"
    using overshoot_answer[of ?w2 ?P 0] by simp
  have s4: "joint_step (overshoot (word_of_nat MAX_CONTEXT_BYTES) 2 ?w3) (overshoot (2 * word_of_nat MAX_CONTEXT_BYTES) 2 ?w4)"
    using overshoot_answer[of ?w3 ?R "word_of_nat MAX_CONTEXT_BYTES"] by simp
  have "?w4 = (\<lambda>_. False)" by (rule ext) simp
  then show ?thesis
    using converse_rtranclp_into_rtranclp[of joint_step, OF s1 converse_rtranclp_into_rtranclp[of joint_step, OF s2
        converse_rtranclp_into_rtranclp[of joint_step, OF s3 r_into_rtranclp[of joint_step, OF s4]]]]
    unfolding start by (simp only:)
qed

theorem discovery_within_budget_witness:
  "\<exists>j b. joint_step\<^sup>*\<^sup>* (joint_start overshoot_client) j \<and> cl_budget (jt_client j) = Some b \<and>
     1 + MAX_CONTEXT_BYTES \<le> unat (bg_bytes_used b) \<and> unat (bg_bytes_used b) < 1 + 2 * MAX_CONTEXT_BYTES \<and>
     sent_count (cl_trace (jt_client j)) \<le> 2"
proof -
  let ?j = "overshoot (2 * word_of_nat MAX_CONTEXT_BYTES) 2 (\<lambda>_. False)"
  have "cl_budget overshoot_client = Some (budget_new (Some 2) (Some 1))" by (simp add: overshoot_client_def)
  moreover have "unat (1 :: u64) + 2 * MAX_CONTEXT_BYTES \<le> 2 ^ 64" by (simp add: MAX_CONTEXT_BYTES_def)
  ultimately have "sent_count (cl_trace (jt_client ?j)) \<le> sent_count (cl_trace overshoot_client) + 2 \<and>
      (\<exists>b. cl_budget (jt_client ?j) = Some b \<and> unat (bg_bytes_used b) < unat (1 :: u64) + 2 * MAX_CONTEXT_BYTES)"
    using discovery_within_budget[of overshoot_client 2 1, THEN conjunct1, rule_format, OF _ _ overshoot_run] by simp
  then obtain b where b: "cl_budget (jt_client ?j) = Some b" "unat (bg_bytes_used b) < 1 + 2 * MAX_CONTEXT_BYTES"
    "sent_count (cl_trace (jt_client ?j)) \<le> 2" by (auto simp: overshoot_client_def)
  have "unat (2 * word_of_nat MAX_CONTEXT_BYTES :: u64) = 2 * MAX_CONTEXT_BYTES" by (simp add: MAX_CONTEXT_BYTES_def)
  then have "1 + MAX_CONTEXT_BYTES \<le> unat (bg_bytes_used b)"
    using b(1) by (auto simp: overshoot_defs MAX_CONTEXT_BYTES_def)
  then show ?thesis using overshoot_run b by blast
qed

end
