(* ===== verification/Acdp_Search_Correct.thy ===== *)
theory Acdp_Search_Correct
  imports Acdp_Search
begin

text \<open>
  Search returns only what its caller may see, cursors read back what was written, and a client that
  follows the cursors of an unchanged store gets every match exactly once, in order.
\<close>

section \<open>Cursor texts\<close>

lemma parse_digits_show_nat [simp]: "parse_digits (show_nat n) = Some n"
proof -
  have "foldl (\<lambda>acc c. 10 * acc + digit_value c) 0 (show_nat n) = n"
  proof (induction n rule: show_nat.induct)
    case (1 n)
    show ?case
    proof (cases "n < 10")
      case True
      then show ?thesis by (subst show_nat.simps) (simp add: digit_value_digit)
    next
      case False
      then show ?thesis using 1 by (subst show_nat.simps) (simp add: digit_value_digit)
    qed
  qed
  then show ?thesis using all_digits_show_nat[of n] by (simp add: parse_digits_def all_digits_def)
qed

lemma show_nat_head: "\<exists>c s. show_nat n = c # s \<and> is_ascii_digit c"
  using all_digits_show_nat[of n] by (cases "show_nat n") (auto simp: all_digits_def)

lemma sign_not_digit: "\<not> is_ascii_digit CHR ''-''" "\<not> is_ascii_digit CHR ''+''" "\<not> is_ascii_digit CHR '':''"
  by (simp_all add: char_class_defs less_eq_char_def)

lemma parse_i64_show_int: "in_i64 i \<Longrightarrow> parse_i64 (show_int i) = Some i"
proof (cases "i < 0")
  case True
  then show "in_i64 i \<Longrightarrow> ?thesis" by (simp add: parse_i64_def show_int_def Let_def)
next
  case False
  obtain c s where c: "show_nat (nat i) = c # s" "is_ascii_digit c" using show_nat_head by blast
  then have "c \<noteq> CHR ''-''" "c \<noteq> CHR ''+''" using sign_not_digit by auto
  then show "in_i64 i \<Longrightarrow> ?thesis"
    using False c parse_digits_show_nat[of "nat i"] by (simp add: parse_i64_def show_int_def Let_def)
qed

lemma show_int_chars: "c \<in> set (show_int i) \<Longrightarrow> is_ascii_digit c \<or> c = CHR ''-''"
  using all_digits_show_nat[of "nat i"] all_digits_show_nat[of "nat (- i)"]
  by (auto simp: show_int_def all_digits_def split: if_splits)

lemma show_int_no_colon: "CHR '':'' \<notin> set (show_int i)"
  using show_int_chars[of "CHR '':''" i] sign_not_digit by auto

lemma digit_ascii: "is_ascii_digit c \<Longrightarrow> byte_in 0 0x7F c"
  by (simp add: char_class_defs byte_in_def less_eq_char_def)

lemma show_int_ascii: "list_all (byte_in 0 0x7F) (show_int i)"
proof -
  have "byte_in 0 0x7F CHR ''-''" by (simp add: byte_in_def)
  then show ?thesis unfolding list_all_iff using show_int_chars digit_ascii by blast
qed

text \<open>What the codec promises, and the ranges that make the texts readable.\<close>

definition b64_roundtrip :: "search_env \<Rightarrow> bool" where
  "b64_roundtrip env \<longleftrightarrow> (\<forall>s. env_b64_decode env (env_b64_encode env s) = Some s)"

lemma decode_encode_cursor:
  assumes "b64_roundtrip env" "utf8_valid c" "in_i64 (timestamp_millis mint)" "in_i64 ms"
  shows "decode_cursor env now (encode_cursor env mint ms c) =
    (if CURSOR_TTL_MS < saturating_sub (timestamp_millis now) (timestamp_millis mint) then Inl CursorExpired else Inr (ms, c))"
proof -
  let ?a = "show_int (timestamp_millis mint)" let ?b = "show_int ms"
  have "utf8_valid (?a @ '':'' @ ?b @ '':'' @ c)"
  proof -
    have "list_all (byte_in 0 0x7F) (?a @ '':'' @ ?b @ '':'')"
      using show_int_ascii by (simp add: byte_in_def)
    from utf8_valid_ascii_append[OF this, of c] assms(2) show ?thesis by simp
  qed
  then show ?thesis
    using assms(1,3,4) show_int_no_colon
    by (simp add: decode_cursor_def encode_cursor_def b64_roundtrip_def parse_i64_show_int)
qed

section \<open>Distinct keys\<close>

definition keys_ok :: "inner \<Rightarrow> bool" where
  "keys_ok g \<longleftrightarrow> distinct (map fst (by_ctx g))"

lemma keys_ok_insert [simp]: "keys_ok g \<Longrightarrow> keys_ok (insert_ctx c x g)"
  by (simp add: keys_ok_def insert_ctx_def distinct_update)

lemma keys_ok_mark: "keys_ok g \<Longrightarrow> keys_ok (mark_superseded c g)"
  by (simp add: mark_superseded_def split: option.split)

lemma keys_ok_push [simp]: "keys_ok (push_lineage l c g) = keys_ok g"
  by (simp add: keys_ok_def push_lineage_def)

lemma step_keys_ok: "keys_ok g \<Longrightarrow> store_step sha256 now g g' \<Longrightarrow> keys_ok g'"
proof (erule store_stepE)
  fix uuid commit r assume k: "keys_ok g" and step: "commit_publish sha256 uuid commit now g = (r, g')"
  from step show "keys_ok g'"
  proof (cases rule: commit_publish_cases)
    case (2 b receipt)
    have "keys_ok (published commit b receipt g)"
      using k by (simp add: published_def Let_def keys_ok_mark split: option.split)
    then show ?thesis using 2(3) by (simp add: keys_ok_def)
  qed (use k in simp)
next
  fix e r' assume "keys_ok g" "commit_lifecycle_event e now g = (r', g')"
  then show "keys_ok g'" by (auto elim: lifecycle_cases)
qed (auto simp: keys_ok_def idempotency_lookup_def Let_def)

interpretation keys: transition_system "any_step sha256" keys_ok for sha256
  by unfold_locales (auto simp: any_step_def intro: step_keys_ok)

lemma reachable_keys: "reachable sha256 g \<Longrightarrow> keys_ok g"
  using keys.steps_inv[of sha256 new_store g] by (simp add: reachable_def keys_ok_def new_store_def)

section \<open>Disclosure\<close>

lemma set_search_matches:
  assumes "keys_ok g"
  shows "set (search_matches env p d requester anon now g) =
    {x. (\<exists>c. ctx_at g c = Some x) \<and> search_hit env p d requester anon now x}"
  using assms by (auto simp: search_matches_def keys_ok_def) (force dest: map_of_SomeD)+

text \<open>
  C30. Search discloses only what its caller may see: every result is the projection of a stored
  context that passes all filters; a private context surfaces to its producer only, a restricted one
  to its producer or audience only, a public one to an anonymous caller only when the registry
  allows anonymous reads; and the reported status is the one that was asked for.
\<close>

theorem search_discloses_only_visible:
  assumes "reachable sha256 g" "store_search env p requester anon (now, dec, mint) g = Inr resp"
    and "r \<in> set (sresp_matches resp)"
  shows "\<exists>x. ctx_at g (sres_ctx_id r) = Some x \<and> r = project_result now x \<and>
    (b_visibility (fc_body x) = Private \<longrightarrow> requester = Some (b_agent_id (fc_body x))) \<and>
    (b_visibility (fc_body x) = Restricted \<longrightarrow>
      (\<exists>a. requester = Some a \<and> (a = b_agent_id (fc_body x) \<or> (\<exists>aud. b_audience (fc_body x) = Some aud \<and> a \<in> set aud)))) \<and>
    (b_visibility (fc_body x) = Public \<longrightarrow> anon \<or> requester \<noteq> None) \<and>
    status_as_str (sres_status r) = (case sp_status p of None \<Rightarrow> ''active'' | Some s \<Rightarrow> s)"
proof -
  obtain d x where x: "x \<in> set (search_matches env p d requester anon now g)" "r = project_result now x"
    using assms(2,3) by (auto simp: store_search_def Let_def result_simps split: option.splits dest!: in_set_takeD)
  then obtain c where c: "ctx_at g c = Some x" and hit: "search_hit env p d requester anon now x"
    using set_search_matches[OF reachable_keys[OF assms(1)]] by auto
  have "b_ctx_id (fc_body x) = c"
    using store_inv_contextD[OF reachable_inv[OF assms(1)] c] by (simp add: context_ok_def)
  then show ?thesis
    using c x(2) hit
    by (auto simp: search_hit_def can_surface_in_search_def project_result_def split: visibility.splits option.splits)
qed

definition demo_env :: search_env where
  "demo_env = \<lparr>env_to_lowercase = (\<lambda>s. s), env_trim = (\<lambda>s. s), env_parse_rfc3339 = (\<lambda>_. None),
     env_b64_encode = (\<lambda>s. s), env_b64_decode = Some\<rparr>"

definition demo_params :: search_params where
  "demo_params = \<lparr>sp_q = None, sp_context_type = None, sp_domain = None, sp_tags = None, sp_agent_id = None,
     sp_schema_uri = None, sp_derived_from = None, sp_created_after = None, sp_created_before = None,
     sp_data_period_start_after = None, sp_data_period_end_before = None, sp_expires_after = None,
     sp_expires_before = None, sp_status = None, sp_limit = Some 1, sp_cursor = None\<rparr>"

lemma demo_search_matches:
  "search_matches demo_env demo_params d None True 9 demo_store1 =
     (if matches_dates d demo_body1 then [fresh_context demo_body1 None] else [])"
  by (simp add: search_matches_def demo_store1_eval search_hit_def can_surface_in_search_def demo_body1_def
      from_publish_request_def demo_request_def matches_text_def demo_params_def opt_all_def project_status_def
      is_retracted_def fresh_context_def active_state_def)

lemma demo_search:
  "store_search demo_env demo_params None True (9, 9, 9) demo_store1 =
     Inr \<lparr>sresp_matches = [project_result 9 (fresh_context demo_body1 None)], sresp_total_estimate = Some 1,
          sresp_next_cursor = None\<rparr>"
proof -
  have "matches_dates \<lparr>df_created_after = None, df_created_before = None, df_dp_start_after = None,
      df_dp_end_before = None, df_expires_after = None, df_expires_before = None\<rparr> demo_body1"
    by (simp add: matches_dates_def opt_all_def)
  then show ?thesis
    by (simp add: store_search_def Let_def parse_date_filters_def parse_opt_rfc3339_def demo_search_matches)
      (simp add: demo_params_def parse_opt_rfc3339_def demo_search_matches effective_limit_def Let_def
        demo_search_matches[unfolded demo_params_def])
qed

lemma search_discloses_only_visible_witness:
  "\<exists>x. ctx_at demo_store1 demo_v1 = Some x \<and> (b_visibility (fc_body x) = Private \<longrightarrow> None = Some (b_agent_id (fc_body x)))"
  using search_discloses_only_visible[OF demo_store1_reachable demo_search, of "project_result 9 (fresh_context demo_body1 None)"]
  by (auto simp: project_result_def)

section \<open>Pagination\<close>

text \<open>Filtering a strictly sorted list by a bound from the list drops a prefix.\<close>

lemma filter_after_nth:
  fixes key :: "'a \<Rightarrow> 'b::linorder"
  assumes "sorted_wrt (<) (map key xs)" "k < length xs"
  shows "filter (\<lambda>x. key (xs ! k) < key x) xs = drop (Suc k) xs"
proof -
  have xs: "xs = take (Suc k) xs @ drop (Suc k) xs" by simp
  have s: "sorted_wrt (\<lambda>x y. key x < key y) xs" using assms(1) by (simp add: sorted_wrt_map)
  have lt: "key (xs ! i) < key (xs ! j)" if "i < j" "j < length xs" for i j
    using sorted_wrt_nth_less[OF s] that by simp
  have "filter (\<lambda>x. key (xs ! k) < key x) (take (Suc k) xs) = []"
  proof (rule filter_False, rule ballI)
    fix x assume "x \<in> set (take (Suc k) xs)"
    then obtain i where i: "i \<le> k" "x = xs ! i" using assms(2) by (auto simp: in_set_conv_nth less_Suc_eq_le)
    then show "\<not> key (xs ! k) < key x" using lt[of i k] assms(2) by (cases "i = k") (auto simp: less_imp_le leD)
  qed
  moreover have "filter (\<lambda>x. key (xs ! k) < key x) (drop (Suc k) xs) = drop (Suc k) xs"
    using assms(2) lt by (intro filter_True) (auto simp: in_set_conv_nth)
  ultimately show ?thesis by (metis append_Nil filter_append xs)
qed

lemma after_anchor_key:
  assumes "trunc_ms (b_created_at (fc_body a)) = b_created_at (fc_body a)"
    and "trunc_ms (b_created_at (fc_body c)) = b_created_at (fc_body c)"
  shows "after_anchor (timestamp_millis (b_created_at (fc_body a)), b_ctx_id (fc_body a)) c \<longleftrightarrow> order_key a < order_key c"
  using assms unfolding after_anchor_def order_key_def trunc_ms_def Let_def
  by (auto simp: less_prod_def)

lemma search_matches_sorted:
  assumes "store_inv sha256 g" "keys_ok g"
  shows "sorted_wrt (<) (map order_key (search_matches env p d requester anon now g))"
proof -
  let ?M = "search_matches env p d requester anon now g"
  let ?vals = "map snd (sort_key fst (by_ctx g))"
  have ids: "map (\<lambda>x. b_ctx_id (fc_body x)) ?vals = map fst (sort_key fst (by_ctx g))"
  proof (simp, intro ballI)
    fix kv assume "kv \<in> set (by_ctx g)"
    then have "ctx_at g (fst kv) = Some (snd kv)" using assms(2) by (simp add: keys_ok_def)
    then show "b_ctx_id (fc_body (snd kv)) = fst kv"
      using store_inv_contextD[OF assms(1)] by (simp add: context_ok_def)
  qed
  have "distinct (map (\<lambda>x. b_ctx_id (fc_body x)) ?vals)" unfolding ids using assms(2) by (simp add: keys_ok_def)
  then have "distinct (map order_key ?vals)"
    by (auto simp: distinct_map inj_on_def order_key_def)
  then have "distinct (map order_key ?M)"
    by (auto simp: search_matches_def distinct_map inj_on_def)
  moreover have "sorted (map order_key ?M)" by (simp add: search_matches_def)
  ultimately show ?thesis by (simp add: strict_sorted_iff)
qed

lemma search_matches_ms:
  "store_inv sha256 g \<Longrightarrow> keys_ok g \<Longrightarrow> x \<in> set (search_matches env p d requester anon now g) \<Longrightarrow>
     trunc_ms (b_created_at (fc_body x)) = b_created_at (fc_body x)"
  by (auto simp: set_search_matches context_ok_def dest: store_inv_contextD)

lemma retain_after:
  assumes "store_inv sha256 g" "keys_ok g" "k < length (search_matches env p d requester anon now g)"
  defines "M \<equiv> search_matches env p d requester anon now g"
  shows "filter (after_anchor (timestamp_millis (b_created_at (fc_body (M ! k))), b_ctx_id (fc_body (M ! k)))) M = drop (Suc k) M"
proof -
  have "filter (after_anchor (timestamp_millis (b_created_at (fc_body (M ! k))), b_ctx_id (fc_body (M ! k)))) M =
      filter (\<lambda>x. order_key (M ! k) < order_key x) M"
    using search_matches_ms[OF assms(1,2)] nth_mem[OF assms(3)] unfolding M_def
    by (intro filter_cong refl after_anchor_key) blast+
  also have "\<dots> = drop (Suc k) M"
    using search_matches_sorted[OF assms(1,2)] assms(3) unfolding M_def by (rule filter_after_nth)
  finally show ?thesis .
qed

text \<open>
  One crawl over a store that does not change: follow \<open>next_cursor\<close> until there is none. The status
  clock \<open>now\<close> is fixed; page \<open>n\<close> decodes at \<open>dec n\<close> and mints at \<open>mint n\<close>. \<open>None\<close> is out of fuel.
\<close>

fun crawl :: "nat \<Rightarrow> search_env \<Rightarrow> search_params \<Rightarrow> agent_did option \<Rightarrow> bool \<Rightarrow> instant \<Rightarrow> (nat \<Rightarrow> instant) \<Rightarrow>
    (nat \<Rightarrow> instant) \<Rightarrow> inner \<Rightarrow> nat \<Rightarrow> string option \<Rightarrow> search_result list acdp_result option" where
  "crawl 0 env p requester anon now dec mint g n cursor = None"
| "crawl (Suc fuel) env p requester anon now dec mint g n cursor =
     (case store_search env (p\<lparr>sp_cursor := cursor\<rparr>) requester anon (now, dec n, mint n) g of
        Inl e \<Rightarrow> Some (Inl e)
      | Inr resp \<Rightarrow>
          (case sresp_next_cursor resp of
             None \<Rightarrow> Some (Inr (sresp_matches resp))
           | Some c \<Rightarrow>
               (case crawl fuel env p requester anon now dec mint g (Suc n) (Some c) of
                  Some (Inr rest) \<Rightarrow> Some (Inr (sresp_matches resp @ rest))
                | other \<Rightarrow> other)))"

definition cursors_live :: "(nat \<Rightarrow> instant) \<Rightarrow> (nat \<Rightarrow> instant) \<Rightarrow> bool" where
  "cursors_live dec mint \<longleftrightarrow> (\<forall>n. in_i64 (timestamp_millis (mint n)) \<and>
     saturating_sub (timestamp_millis (dec (Suc n))) (timestamp_millis (mint n)) \<le> CURSOR_TTL_MS)"

definition texts_ok :: "inner \<Rightarrow> bool" where
  "texts_ok g \<longleftrightarrow> (\<forall>c x. ctx_at g c = Some x \<longrightarrow> utf8_valid c \<and> in_i64 (timestamp_millis (b_created_at (fc_body x))))"

text \<open>The cursor of position \<open>k\<close>: none at the start, else the one minted after match \<open>k - 1\<close>.\<close>

definition cursor_at :: "search_env \<Rightarrow> instant \<Rightarrow> full_context list \<Rightarrow> nat \<Rightarrow> string option" where
  "cursor_at env mint M k =
     (if k = 0 then None
      else Some (encode_cursor env mint (timestamp_millis (b_created_at (fc_body (M ! (k - 1))))) (b_ctx_id (fc_body (M ! (k - 1))))))"

lemma search_matches_cursor [simp]:
  "search_matches env (p\<lparr>sp_cursor := c\<rparr>) d requester anon now g = search_matches env p d requester anon now g"
  "parse_date_filters env (p\<lparr>sp_cursor := c\<rparr>) = parse_date_filters env p"
  "effective_limit (p\<lparr>sp_cursor := c\<rparr>) = effective_limit p"
  by (simp_all add: search_matches_def search_hit_def[abs_def] matches_text_def parse_date_filters_def effective_limit_def)

lemma search_page:
  assumes inv: "store_inv sha256 g" "keys_ok g" "texts_ok g" and env: "b64_roundtrip env"
    and d: "parse_date_filters env p = Inr d" and M: "M = search_matches env p d requester anon now g"
    and k: "k \<le> length M" and live: "k = 0 \<or> in_i64 (timestamp_millis m0) \<and>
      saturating_sub (timestamp_millis dec) (timestamp_millis m0) \<le> CURSOR_TTL_MS"
  shows "store_search env (p\<lparr>sp_cursor := cursor_at env m0 M k\<rparr>) requester anon (now, dec, mint) g =
    Inr \<lparr>sresp_matches = map (project_result now) (take (effective_limit p) (drop k M)),
         sresp_total_estimate = Some (word_of_nat (length M)),
         sresp_next_cursor = (if k + effective_limit p < length M then cursor_at env mint M (k + effective_limit p) else None)\<rparr>"
proof -
  have lim: "1 \<le> effective_limit p" by (simp add: effective_limit_def)
  have nth: "drop k M ! (effective_limit p - 1) = M ! (k + effective_limit p - 1)" if "k + effective_limit p < length M"
    using that lim by (simp add: nth_drop)
  show ?thesis
  proof (cases "k = 0")
    case True
    then show ?thesis
      using nth lim by (simp add: store_search_def cursor_at_def d M[symmetric] Let_def)
  next
    case False
    then have k': "k - 1 < length M" "Suc (k - 1) = k" using k by auto
    have "M ! (k - 1) \<in> set M" using k'(1) by simp
    then obtain c where c: "ctx_at g c = Some (M ! (k - 1))" unfolding M set_search_matches[OF inv(2)] by auto
    then have "b_ctx_id (fc_body (M ! (k - 1))) = c" using store_inv_contextD[OF inv(1)] by (simp add: context_ok_def)
    then have "decode_cursor env dec (the (cursor_at env m0 M k)) =
        Inr (timestamp_millis (b_created_at (fc_body (M ! (k - 1)))), b_ctx_id (fc_body (M ! (k - 1))))"
      using decode_encode_cursor[OF env] inv(3) c live False by (simp add: cursor_at_def texts_ok_def)
    moreover have "cursor_at env m0 M k = Some (the (cursor_at env m0 M k))" using False by (simp add: cursor_at_def)
    moreover note retain_after[OF inv(1,2) k'(1)[unfolded M], folded M, unfolded k'(2)]
    ultimately show ?thesis
      using nth lim False by (simp add: store_search_def d M[symmetric] Let_def cursor_at_def) linarith
  qed
qed

lemma crawl_from:
  assumes inv: "store_inv sha256 g" "keys_ok g" "texts_ok g" and env: "b64_roundtrip env"
    and d: "parse_date_filters env p = Inr d" and M: "M = search_matches env p d requester anon now g"
    and live: "k = 0 \<or> in_i64 (timestamp_millis m0) \<and>
        saturating_sub (timestamp_millis (dec n)) (timestamp_millis m0) \<le> CURSOR_TTL_MS" "cursors_live dec mint"
    and k: "k \<le> length M" and fuel: "length M - k < fuel"
  shows "crawl fuel env p requester anon now dec mint g n (cursor_at env m0 M k) = Some (Inr (map (project_result now) (drop k M)))"
  using live k fuel
proof (induction fuel arbitrary: n m0 k)
  case (Suc fuel)
  let ?lim = "effective_limit p"
  note page = search_page[OF inv env d M Suc.prems(3,1), where mint = "mint n"]
  have lim: "1 \<le> ?lim" by (simp add: effective_limit_def)
  show ?case
  proof (cases "k + ?lim < length M")
    case True
    have "crawl fuel env p requester anon now dec mint g (Suc n) (cursor_at env (mint n) M (k + ?lim)) =
        Some (Inr (map (project_result now) (drop (k + ?lim) M)))"
      using Suc.prems(2,4) True lim by (intro Suc.IH) (auto simp: cursors_live_def)
    moreover have "drop k M = take ?lim (drop k M) @ drop (k + ?lim) M"
      by (metis add.commute append_take_drop_id drop_drop)
    moreover have "cursor_at env (mint n) M (k + ?lim) \<noteq> None" using lim by (simp add: cursor_at_def)
    ultimately show ?thesis using True by (auto simp: page simp flip: map_append)
  next
    case False
    then show ?thesis by (simp add: page)
  qed
qed simp

text \<open>
  C29. Pagination is complete and terminates: a client that follows \<open>next_cursor\<close> over a store that
  does not change, within the life of each cursor, gets after finitely many pages (one more than
  there are matches is always enough) every matching context exactly once, newest first, whatever
  limit it asked for (zero and absurdly large limits included).
\<close>

theorem crawl_complete:
  assumes "reachable sha256 g" "texts_ok g" "b64_roundtrip env" "cursors_live dec mint"
    and "parse_date_filters env p = Inr d"
  shows "crawl (Suc (length (search_matches env p d requester anon now g))) env p requester anon now dec mint g 0 None =
      Some (Inr (map (project_result now) (search_matches env p d requester anon now g))) \<and>
    distinct (search_matches env p d requester anon now g) \<and>
    set (search_matches env p d requester anon now g) =
      {x. (\<exists>c. ctx_at g c = Some x) \<and> search_hit env p d requester anon now x}"
proof -
  note inv = reachable_inv[OF assms(1)] reachable_keys[OF assms(1)]
  let ?M = "search_matches env p d requester anon now g"
  have "crawl (Suc (length ?M)) env p requester anon now dec mint g 0 (cursor_at env now ?M 0) =
      Some (Inr (map (project_result now) (drop 0 ?M)))"
    by (rule crawl_from[OF inv assms(2,3,5) refl _ assms(4)]) simp_all
  moreover have "distinct ?M"
    using search_matches_sorted[OF inv, of env p d requester anon now] by (metis distinct_map strict_sorted_iff)
  ultimately show ?thesis using set_search_matches[OF inv(2)] by (simp add: cursor_at_def)
qed

lemma crawl_complete_witness:
  "crawl 2 demo_env demo_params None True 9 (\<lambda>_. 9) (\<lambda>_. 9) demo_store1 0 None =
     Some (Inr [project_result 9 (fresh_context demo_body1 None)])"
proof -
  define d :: date_filters where "d = \<lparr>df_created_after = None, df_created_before = None, df_dp_start_after = None,
      df_dp_end_before = None, df_expires_after = None, df_expires_before = None\<rparr>"
  have d: "parse_date_filters demo_env demo_params = Inr d"
    by (simp add: parse_date_filters_def parse_opt_rfc3339_def demo_params_def d_def)
  have "texts_ok demo_store1"
    by (simp add: texts_ok_def demo_store1_eval demo_v1_def utf8_valid.simps(2) byte_in_def demo_body1_def in_i64_def
        timestamp_millis_def trunc_ms_def)
  moreover have "b64_roundtrip demo_env" by (simp add: b64_roundtrip_def demo_env_def)
  moreover have "cursors_live (\<lambda>_. 9) (\<lambda>_. 9)"
    by (simp add: cursors_live_def in_i64_def timestamp_millis_def saturating_sub_def CURSOR_TTL_MS_def)
  ultimately have "crawl (Suc (length (search_matches demo_env demo_params d None True 9 demo_store1))) demo_env demo_params None True 9
      (\<lambda>_. 9) (\<lambda>_. 9) demo_store1 0 None =
      Some (Inr (map (project_result 9) (search_matches demo_env demo_params d None True 9 demo_store1)))"
    using crawl_complete[OF demo_store1_reachable _ _ _ d] by blast
  moreover have "search_matches demo_env demo_params d None True 9 demo_store1 = [fresh_context demo_body1 None]"
    by (simp add: demo_search_matches matches_dates_def opt_all_def d_def)
  ultimately show ?thesis by (simp add: numeral_2_eq_2)
qed

text \<open>
  Cursors round-trip until they expire: a cursor minted for a position decodes to that position
  for one hour and to \<open>CursorExpired\<close> afterwards, so an aged cursor is never mistaken for a bad one.
\<close>

theorem cursor_roundtrip:
  assumes "b64_roundtrip env" "utf8_valid c" "in_i64 (timestamp_millis mint)" "in_i64 ms"
  shows "decode_cursor env now (encode_cursor env mint ms c) =
    (if CURSOR_TTL_MS < saturating_sub (timestamp_millis now) (timestamp_millis mint) then Inl CursorExpired else Inr (ms, c))"
  using assms by (rule decode_encode_cursor)

lemma cursor_roundtrip_witness:
  "decode_cursor demo_env 5000000000 (encode_cursor demo_env 1000000 7 ''acdp://r/1'') = Inr (7, ''acdp://r/1'') \<and>
   decode_cursor demo_env 9000000000000000 (encode_cursor demo_env 1000000 7 ''acdp://r/1'') = Inl CursorExpired"
proof -
  have "b64_roundtrip demo_env" by (simp add: b64_roundtrip_def demo_env_def)
  moreover have "utf8_valid ''acdp://r/1''" by (simp add: utf8_valid.simps(2) byte_in_def)
  moreover have "in_i64 (timestamp_millis 1000000)" "in_i64 7" by (simp_all add: in_i64_def timestamp_millis_def)
  ultimately show ?thesis
    using cursor_roundtrip[of demo_env "''acdp://r/1''" 1000000 7]
    by (simp add: CURSOR_TTL_MS_def saturating_sub_def timestamp_millis_def)
qed

end
