(* ===== verification/Acdp_Wire_Correct.thy ===== *)
theory Acdp_Wire_Correct
  imports Acdp_Wire Acdp_Log_Correct
begin

text \<open>
  Contexts over the wire: what a registry serializes is what a consumer reads back, so a retrieved
  context verifies exactly when the canonical rendering of the stored body does. Event receipts that
  are minted verify. The two facts assumed of the date library are \<open>time_ok\<close> and \<open>time_roundtrip\<close>:
  formatted instants parse back.
\<close>

section \<open>Members\<close>

text \<open>The members of a struct, with the optional ones that are present.\<close>

definition members :: "(string \<times> json option) list \<Rightarrow> json_map" where
  "members fs = concat (map (\<lambda>(k, m). case m of None \<Rightarrow> [] | Some v \<Rightarrow> [(k, v)]) fs)"

lemma members_simps:
  "members [] = []" "members ((k, Some v) # fs) = (k, v) # members fs"
  "members ((k, map_option f m) # fs) = opt_member k f m @ members fs"
  by (simp_all add: members_def opt_member_def split: option.split)

lemma members_absent: "members ((k, None) # fs) = members fs"
  by (simp add: members_def)

lemma members_keys: "fst ` set (members fs) \<subseteq> fst ` set fs"
  by (auto simp: members_def split: option.splits intro: rev_image_eqI)

lemma members_distinct: "distinct (map fst fs) \<Longrightarrow> distinct (map fst (members fs))"
proof (induction fs)
  case (Cons f fs)
  obtain k m where f: "f = (k, m)" by (cases f)
  have "k \<notin> fst ` set (members fs)" using Cons.prems members_keys[of fs] by (auto simp: f)
  then show ?case using Cons by (cases m) (simp_all add: f members_simps members_absent)
qed (simp add: members_def)

lemma members_lookup: "distinct (map fst fs) \<Longrightarrow> map_of (members fs) k = Option.bind (map_of fs k) (\<lambda>m. m)"
proof (induction fs)
  case (Cons f fs)
  have "map_of (members fs) (fst f) = None"
    using Cons.prems members_keys[of fs] by (auto simp: map_of_eq_None_iff)
  then show ?case using Cons by (cases f) (auto simp: members_def split: option.split)
qed (simp add: members_def)

lemma unnamed_append [simp]: "unnamed names (xs @ ys) = unnamed names xs @ unnamed names ys"
  by (simp add: unnamed_def)

lemma unnamed_Cons [simp]: "unnamed names ((k, v) # xs) = (if k \<in> set names then unnamed names xs else (k, v) # unnamed names xs)"
  by (simp add: unnamed_def)

lemma unnamed_Nil [simp]: "unnamed names [] = []"
  by (simp add: unnamed_def)

text \<open>Members kept beside the named ones: distinct keys, none of them named.\<close>

definition extra_ok :: "string list \<Rightarrow> json_map \<Rightarrow> bool" where
  "extra_ok names ms \<longleftrightarrow> distinct (map fst ms) \<and> list_all (\<lambda>(k, _). k \<notin> set names) ms"

lemma extra_ok_unnamed: "extra_ok names ms \<Longrightarrow> unnamed names ms = ms"
  by (auto simp: extra_ok_def unnamed_def list_all_iff intro!: filter_True)

lemma extra_ok_lookup: "extra_ok names ms \<Longrightarrow> k \<in> set names \<Longrightarrow> map_of ms k = None"
  by (auto simp: extra_ok_def list_all_iff map_of_eq_None_iff)

lemma update_fresh: "k \<notin> fst ` set ms \<Longrightarrow> AList.update k v ms = ms @ [(k, v)]"
  by (induction ms) auto

lemma to_map_fold: "distinct (map fst (ms @ kvs)) \<Longrightarrow> fold (\<lambda>(k, v) m. AList.update k v m) kvs ms = ms @ kvs"
proof (induction kvs arbitrary: ms)
  case (Cons kv kvs)
  obtain k v where kv: "kv = (k, v)" by (cases kv)
  have "AList.update k v ms = ms @ [kv]" using Cons.prems update_fresh[of k ms v] by (auto simp: kv)
  then show ?case using Cons.IH[of "ms @ [kv]"] Cons.prems by (simp add: kv)
qed simp

lemma to_map_distinct: "distinct (map fst kvs) \<Longrightarrow> to_map kvs = kvs"
  using to_map_fold[of "[]" kvs] by (simp add: to_map_def)

text \<open>A struct with a flattened map: its own members first, then the others.\<close>

lemma struct_written:
  assumes "distinct (map fst fs)" "map fst fs = names" "extra_ok names extra"
  shows "to_map (members fs @ extra) = members fs @ extra" (is ?written)
    and "unnamed names (members fs @ extra) = extra" (is ?kept)
    and "k \<in> set names \<Longrightarrow> map_of (members fs @ extra) k = Option.bind (map_of fs k) (\<lambda>m. m)"
proof -
  have keys: "fst ` set (members fs) \<subseteq> set names" using members_keys[of fs] unfolding assms(2)[symmetric] by simp
  then have "fst ` set (members fs) \<inter> fst ` set extra = {}" using assms(3) by (fastforce simp: extra_ok_def list_all_iff)
  then show ?written using assms members_distinct[OF assms(1)] by (intro to_map_distinct) (simp add: extra_ok_def)
  have "unnamed names (members fs) = []" using keys by (auto simp: unnamed_def filter_empty_conv)
  then show ?kept using extra_ok_unnamed[OF assms(3)] by simp
  show "k \<in> set names \<Longrightarrow> map_of (members fs @ extra) k = Option.bind (map_of fs k) (\<lambda>m. m)"
    using extra_ok_lookup[OF assms(3)] members_lookup[OF assms(1)] by (simp add: map_add_def split: option.split)
qed

lemma de_present_map: "(\<And>x. m = Some x \<Longrightarrow> f (g x) = Some x) \<Longrightarrow> de_present f (map_option g m) = Some m"
  by (cases m) (simp_all add: de_present_def)

lemma de_nullable_map:
  "(\<And>x. m = Some x \<Longrightarrow> f (g x) = Some x \<and> g x \<noteq> JNull) \<Longrightarrow> de_nullable f (map_option g m) = Some m"
  by (cases m) (auto simp: de_nullable_def split: json.split)

lemma de_list_map: "(\<And>x. x \<in> set xs \<Longrightarrow> f (g x) = Some x) \<Longrightarrow> de_list f (JArray (map g xs)) = Some xs"
  by (induction xs) (auto simp: de_list_def)

section \<open>Bodies\<close>

definition time_ok :: "ext \<Rightarrow> instant \<Rightarrow> bool" where
  "time_ok E t \<longleftrightarrow> x_parse_datetime E (fmt_rfc3339_canonical E t) = Some t"

text \<open>
  A body as the types of the program allow it: a custom context type has a namespaced name, members
  kept as extensions are distinct and not named, metadata is not null, instants survive formatting.
\<close>

definition context_type_ok :: "context_type \<Rightarrow> bool" where
  "context_type_ok t = (case t of Custom s \<Rightarrow> is_namespaced_context_type s | _ \<Rightarrow> True)"

definition body_wire_ok :: "ext \<Rightarrow> body \<Rightarrow> bool" where
  "body_wire_ok E b \<longleftrightarrow>
     extra_ok BODY_FIELDS (b_extensions b) \<and>
     list_all (\<lambda>dr. extra_ok DATA_REF_FIELDS (dr_extensions dr)) (b_data_refs b) \<and>
     (case b_anchors b of None \<Rightarrow> True | Some as \<Rightarrow> list_all (\<lambda>a. extra_ok ANCHOR_FIELDS (an_extensions a)) as) \<and>
     context_type_ok (b_context_type b) \<and>
     b_metadata b \<noteq> Some JNull \<and>
     list_all (time_ok E)
       (b_created_at b # (case b_expires_at b of None \<Rightarrow> [] | Some t \<Rightarrow> [t]) @
        (case b_data_period b of None \<Rightarrow> [] | Some p \<Rightarrow> [dp_start p, dp_end p]))"

lemma json_strings_read [simp]: "as_strings (json_strings xs) = Some xs"
  by (rule strings_roundtrip)

lemma datetime_read [simp]: "time_ok E t \<Longrightarrow> datetime_deserialize E (json_time E t) = Some t"
  by (simp add: time_ok_def datetime_deserialize_def json_time_def)

lemma period_read:
  "time_ok E (dp_start p) \<Longrightarrow> time_ok E (dp_end p) \<Longrightarrow> data_period_deserialize E (data_period_json E p) = Some p"
  by (simp add: data_period_deserialize_def data_period_json_def struct_members_def)

lemma visibility_read [simp]: "visibility_deserialize (JString (visibility_as_str v)) = Some v"
  by (cases v) (simp_all add: visibility_deserialize_def)

lemma data_ref_type_read [simp]: "data_ref_type_deserialize (JString (data_ref_type_as_str t)) = Some t"
  by (cases t) (simp_all add: data_ref_type_deserialize_def)

lemma encoding_read [simp]: "encoding_deserialize (JString (encoding_as_str e)) = Some e"
  by (cases e) (simp_all add: encoding_deserialize_def)

lemma location_read [simp]: "location_deserialize (location_json l) = Some l"
  by (cases l) simp_all

lemma embedded_read [simp]: "embedded_deserialize (embedded_json e) = Some e"
  by (cases "em_content_hash e")
     (simp_all add: embedded_deserialize_def embedded_json_def struct_members_def opt_member_def de_present_def)


lemma anchor_read:
  assumes extra: "extra_ok ANCHOR_FIELDS (an_extensions a)"
  shows "anchor_deserialize (anchor_json a) = Some a"
proof -
  define fs where "fs = [(''scheme'', Some (JString (an_scheme a))), (''content_hash'', Some (JString (an_content_hash a))),
      (''uri'', map_option JString (an_uri a))]"
  have fs: "distinct (map fst fs)" "map fst fs = ANCHOR_FIELDS" by (simp_all add: fs_def ANCHOR_FIELDS_def)
  note written = struct_written[OF fs extra]
  have "anchor_json a = JObject (members fs @ an_extensions a)"
    using written(1) by (simp add: anchor_json_def fs_def members_simps)
  moreover have "map_of (members fs @ an_extensions a) k = Option.bind (map_of fs k) (\<lambda>m. m)"
    if "k \<in> {''scheme'', ''content_hash'', ''uri''}" for k
    using that by (intro written(3)) (auto simp: ANCHOR_FIELDS_def)
  ultimately show ?thesis
    by (simp add: anchor_deserialize_def member_str_def written(2) del: map_of_append unnamed_append)
       (simp add: fs_def de_nullable_map)
qed

lemma data_ref_read:
  assumes extra: "extra_ok DATA_REF_FIELDS (dr_extensions d)"
  shows "data_ref_deserialize (data_ref_json d) = Some d"
proof -
  define fs where "fs = [
    (''type'', Some (JString (data_ref_type_as_str (dr_ref_type d)))),
    (''description'', map_option JString (dr_description d)),
    (''size_bytes'', map_option (\<lambda>n. JNumber (PosInt n)) (dr_size_bytes d)),
    (''format'', map_option JString (dr_format d)), (''schema_version'', map_option JString (dr_schema_version d)),
    (''content_hash'', map_option JString (dr_content_hash d)),
    (''location'', map_option location_json (dr_location d)),
    (''embedded'', map_option embedded_json (dr_embedded d))
    ]"
  have fs: "distinct (map fst fs)" "map fst fs = DATA_REF_FIELDS" by (simp_all add: fs_def DATA_REF_FIELDS_def)
  note written = struct_written[OF fs extra]
  have "data_ref_json d = JObject (members fs @ dr_extensions d)"
    using written(1) by (simp add: data_ref_json_def fs_def members_simps)
  moreover have "map_of (members fs @ dr_extensions d) k = Option.bind (map_of fs k) (\<lambda>m. m)" if "List.member DATA_REF_FIELDS k" for k
    using that by (intro written(3)) simp
  ultimately show ?thesis
    by (simp add: data_ref_deserialize_def written(2) DATA_REF_FIELDS_def[THEN arg_cong, of List.member] del: map_of_append unnamed_append)
       (simp add: fs_def de_present_map)
qed

text \<open>The fields of a body as they are written.\<close>

definition body_fields :: "ext \<Rightarrow> body \<Rightarrow> (string \<times> json option) list" where
  "body_fields E b = [
     (''ctx_id'', Some (JString (b_ctx_id b))), (''lineage_id'', Some (JString (b_lineage_id b))),
     (''origin_registry'', Some (JString (b_origin_registry b))),
     (''created_at'', Some (json_time E (b_created_at b))), (''content_hash'', Some (JString (b_content_hash b))),
     (''signature'', Some (signature_json (b_signature b))), (''version'', Some (json_nat (unat (b_version b)))),
     (''supersedes'', Some (case b_supersedes b of None \<Rightarrow> JNull | Some c \<Rightarrow> JString c)),
     (''agent_id'', Some (JString (b_agent_id b))), (''contributors'', Some (json_strings (b_contributors b))),
     (''title'', Some (JString (b_title b))),
     (''type'', Some (JString (context_type_serialize (b_context_type b)))),
     (''data_refs'', Some (JArray (map data_ref_json (b_data_refs b)))),
     (''derived_from'', Some (json_strings (b_derived_from b))),
     (''visibility'', Some (JString (visibility_as_str (b_visibility b)))),
     (''audience'', map_option json_strings (b_audience b)),
     (''acdp_version'', map_option JString (b_acdp_version b)),
     (''description'', map_option JString (b_description b)), (''summary'', map_option JString (b_summary b)),
     (''tags'', map_option json_strings (b_tags b)), (''domain'', map_option JString (b_domain b)),
     (''expires_at'', map_option (json_time E) (b_expires_at b)),
     (''data_period'', map_option (data_period_json E) (b_data_period b)),
     (''metadata'', map_option (\<lambda>m. m) (b_metadata b)),
     (''schema_uri'', map_option JString (b_schema_uri b)),
     (''anchors'', map_option (\<lambda>as. JArray (map anchor_json as)) (b_anchors b))]"

lemma body_fields_keys: "distinct (map fst (body_fields E b))" "map fst (body_fields E b) = BODY_FIELDS"
  by (simp_all add: body_fields_def BODY_FIELDS_def)

lemma body_written:
  assumes "extra_ok BODY_FIELDS (b_extensions b)"
  shows "body_json E b = JObject (members (body_fields E b) @ b_extensions b)"
  using struct_written(1)[OF body_fields_keys assms] unfolding body_json_def by (simp add: body_fields_def members_simps)

lemma supersedes_read: "de_nullable as_str (Some (case m of None \<Rightarrow> JNull | Some c \<Rightarrow> JString c)) = Some m"
  by (cases m) (simp_all add: de_nullable_def)

lemma json_not_null [simp]:
  "json_strings xs \<noteq> JNull" "json_time E t \<noteq> JNull" "data_period_json E p \<noteq> JNull"
  by (simp_all add: json_strings_def json_time_def data_period_json_def)

lemma context_type_read:
  "context_type_ok t \<Longrightarrow> context_type_of_value (JString (context_type_serialize t)) = Some t"
  using context_type_roundtrip[of "context_type_serialize t" t]
  by (cases t) (simp_all add: context_type_of_value_def context_type_ok_def)

lemma body_read:
  assumes ok: "body_wire_ok E b"
  shows "body_deserialize E (body_json E b) = Some b"
proof -
  have extra: "extra_ok BODY_FIELDS (b_extensions b)"
    and ct: "context_type_ok (b_context_type b)"
    and me: "\<And>x. b_metadata b = Some x \<Longrightarrow> x \<noteq> JNull"
    and time: "time_ok E (b_created_at b)" "\<And>t. b_expires_at b = Some t \<Longrightarrow> time_ok E t"
    and period: "\<And>p. b_data_period b = Some p \<Longrightarrow> time_ok E (dp_start p) \<and> time_ok E (dp_end p)"
    using ok by (auto simp: body_wire_ok_def)
  have drs: "de_list data_ref_deserialize (JArray (map data_ref_json (b_data_refs b))) = Some (b_data_refs b)"
    using ok by (intro de_list_map data_ref_read) (simp add: body_wire_ok_def list_all_iff)
  have anchors: "de_list anchor_deserialize (JArray (map anchor_json as)) = Some as" if "b_anchors b = Some as" for as
    using ok that by (intro de_list_map anchor_read) (simp add: body_wire_ok_def list_all_iff)
  note written = struct_written[OF body_fields_keys extra]
  have look: "map_of (members (body_fields E b) @ b_extensions b) k = Option.bind (map_of (body_fields E b) k) (\<lambda>m. m)"
    if "List.member BODY_FIELDS k" for k
    using that by (intro written(3)) simp
  show ?thesis
    unfolding body_written[OF extra]
    apply (simp add: body_deserialize_def member_str_def look written(2) BODY_FIELDS_def[THEN arg_cong, of List.member]
        del: map_of_append unnamed_append)
    apply (simp add: body_fields_def supersedes_read de_nullable_map de_present_map time drs anchors me ct context_type_read
        period period_read signature_roundtrip u32_roundtrip)
    done
qed

section \<open>Full contexts\<close>

lemma members_eq_sub:
  "(\<And>k x. (k, x) \<in> set ms \<Longrightarrow> map_of ns k = Some x \<and> value_eq x x) \<Longrightarrow> members_eq ms ns"
  by (induction ms) force+

lemma value_eq_refl: "wf_json v \<Longrightarrow> value_eq v v"
proof (induction v)
  case (JNumber n)
  then show ?case by (cases n) simp_all
next
  case (JArray vs)
  then have "values_eq vs vs" by (induction vs) simp_all
  then show ?case by simp
next
  case (JObject ms)
  then have "value_eq x x" if "(k, x) \<in> set ms" for k x using that by fastforce
  moreover have "distinct (map fst ms)" using JObject.prems by simp
  ultimately show ?case by (auto intro!: members_eq_sub)
qed simp_all

text \<open>
  Registry state as the types of the program allow it: open enumerations hold a name outside the
  known ones that matches their pattern, and event receipts are renderings of valid receipts.
\<close>

definition status_ok :: "status \<Rightarrow> bool" where
  "status_ok st = (case st of
     Other x \<Rightarrow> status_pattern_ok x \<and> x \<notin> {''active'', ''superseded'', ''expired'', ''retracted''} | _ \<Rightarrow> True)"

definition event_type_ok :: "lifecycle_event_type \<Rightarrow> bool" where
  "event_type_ok t = (case t of
     EvOther x \<Rightarrow> event_type_pattern_ok x \<and> x \<notin> {''retracted'', ''republished''} | _ \<Rightarrow> True)"

definition event_wire_ok :: "ext \<Rightarrow> lifecycle_event \<Rightarrow> bool" where
  "event_wire_ok E e \<longleftrightarrow> event_type_ok (le_event_type e) \<and> time_roundtrip E (le_occurred_at e)"

definition receipts_wire_ok :: "ext \<Rightarrow> json list option \<Rightarrow> bool" where
  "receipts_wire_ok E m = (case m of
     None \<Rightarrow> True
   | Some vs \<Rightarrow> \<exists>rs. vs = map (event_receipt_json E) rs \<and>
       list_all (\<lambda>r. event_receipt_validate r = Inr () \<and> time_roundtrip E (er_accepted_at r)) rs)"

lemma receipts_wire_ok_None [simp, code]: "receipts_wire_ok E None = True"
  by (simp add: receipts_wire_ok_def)

definition state_wire_ok :: "ext \<Rightarrow> registry_state \<Rightarrow> bool" where
  "state_wire_ok E s \<longleftrightarrow>
     extra_ok STATE_FIELDS (rs_extensions s) \<and> status_ok (rs_status s) \<and>
     (case rs_lifecycle_events s of None \<Rightarrow> True | Some es \<Rightarrow> list_all (event_wire_ok E) es) \<and>
     receipts_wire_ok E (rs_event_receipts s)"

definition context_wire_ok :: "ext \<Rightarrow> full_context \<Rightarrow> bool" where
  "context_wire_ok E c \<longleftrightarrow>
     body_wire_ok E (fc_body c) \<and> wf_json (body_json E (fc_body c)) \<and> state_wire_ok E (fc_registry_state c) \<and>
     extra_ok CONTEXT_FIELDS (fc_extensions c) \<and>
     Some JNull \<notin> {fc_registry_receipt c, fc_lineage_head_receipt c, fc_log_inclusion c}"

lemma status_read: "status_ok st \<Longrightarrow> status_parse (status_as_str st) = Inr st"
  by (cases st) (simp_all add: status_roundtrip status_ok_def)

lemma event_type_read: "event_type_ok t \<Longrightarrow> event_type_parse (event_type_as_str t) = Inr t"
  by (cases t) (auto simp: event_type_parse_def event_type_ok_def)

lemma event_receipt_read:
  "time_roundtrip E (er_accepted_at r) \<Longrightarrow> event_receipt_validate r = Inr () \<Longrightarrow>
   event_receipt_from_value E (event_receipt_json E r) = Inr r"
  by (cases r) (simp add: event_receipt_from_value_def raw_ms_form_def event_receipt_deserialize_def event_receipt_json_def
      struct_members_def member_str_def member_ms_def json_ms_def time_roundtrip_def signature_roundtrip get_str_def json_get_def)

lemma event_receipts_read: "receipts_wire_ok E (Some vs) \<Longrightarrow> de_event_receipts E (JArray vs) = Some vs"
proof -
  assume "receipts_wire_ok E (Some vs)"
  then obtain rs where rs: "vs = map (event_receipt_json E) rs"
    "\<And>r. r \<in> set rs \<Longrightarrow> event_receipt_validate r = Inr () \<and> time_roundtrip E (er_accepted_at r)"
    by (auto simp: receipts_wire_ok_def list_all_iff)
  then have "event_receipt_from_value E (event_receipt_json E r) = Inr r" if "r \<in> set rs" for r
    using that by (intro event_receipt_read) auto
  then show ?thesis unfolding rs(1) by (induction rs) (auto simp: de_event_receipts_def de_list_def)
qed

lemma event_read: "event_wire_ok E e \<Longrightarrow> event_deserialize E (event_json E e) = Some e"
  by (cases "le_reason e"; cases "le_signature e")
     (simp_all add: event_wire_ok_def event_deserialize_def event_json_def struct_members_def member_str_def opt_member_def
        de_present_def signature_roundtrip time_roundtrip_def strict_ms_deserialize_def event_type_deserialize_def event_type_read)

lemma state_read:
  assumes ok: "state_wire_ok E s"
  shows "state_deserialize E (state_json E s) = Some s"
proof -
  define fs where "fs = [(''status'', Some (JString (status_as_str (rs_status s)))),
    (''lifecycle_events'', map_option (\<lambda>es. JArray (map (event_json E) es)) (rs_lifecycle_events s)),
    (''event_receipts'', map_option JArray (rs_event_receipts s))]"
  have extra: "extra_ok STATE_FIELDS (rs_extensions s)" using ok by (simp add: state_wire_ok_def)
  have fs: "distinct (map fst fs)" "map fst fs = STATE_FIELDS" by (simp_all add: fs_def STATE_FIELDS_def)
  note written = struct_written[OF fs extra]
  have js: "state_json E s = JObject (members fs @ rs_extensions s)"
    using written(1) by (simp add: state_json_def fs_def members_simps)
  have look: "map_of (members fs @ rs_extensions s) k = Option.bind (map_of fs k) (\<lambda>m. m)" if "List.member STATE_FIELDS k" for k
    using that by (intro written(3)) simp
  have events: "de_list (event_deserialize E) (JArray (map (event_json E) es)) = Some es" if "rs_lifecycle_events s = Some es" for es
    using ok that by (intro de_list_map event_read) (simp add: state_wire_ok_def list_all_iff)
  have receipts: "de_event_receipts E (JArray vs) = Some vs" if "rs_event_receipts s = Some vs" for vs
    using ok that by (intro event_receipts_read) (simp add: state_wire_ok_def)
  show ?thesis
    unfolding js
    apply (simp add: state_deserialize_def member_str_def look written(2) STATE_FIELDS_def[THEN arg_cong, of List.member]
        del: map_of_append unnamed_append)
    using ok apply (simp add: fs_def de_nullable_map de_present_map events receipts status_read state_wire_ok_def)
    done
qed

text \<open>What a consumer decodes: the served context, with the body as received beside it.\<close>

definition received :: "ext \<Rightarrow> full_context \<Rightarrow> full_context" where
  "received E c = c\<lparr>fc_raw_body := Some (body_json E (fc_body c))\<rparr>"

lemma context_read:
  assumes ok: "context_wire_ok E c"
  shows "context_deserialize E (context_json E c) = Some (received E c)"
proof -
  define fs where "fs = [(''body'', Some (body_json E (fc_body c))), (''registry_state'', Some (state_json E (fc_registry_state c))),
    (''registry_receipt'', map_option (\<lambda>v. v) (fc_registry_receipt c)),
    (''lineage_head_receipt'', map_option (\<lambda>v. v) (fc_lineage_head_receipt c)),
    (''log_inclusion'', map_option (\<lambda>v. v) (fc_log_inclusion c))]"
  have extra: "extra_ok CONTEXT_FIELDS (fc_extensions c)" using ok by (simp add: context_wire_ok_def)
  have fs: "distinct (map fst fs)" "map fst fs = CONTEXT_FIELDS" by (simp_all add: fs_def CONTEXT_FIELDS_def)
  note written = struct_written[OF fs extra]
  have js: "context_json E c = JObject (members fs @ fc_extensions c)"
    using written(1) unfolding context_json_def fs_def members_simps by simp
  have look: "map_of (members fs @ fc_extensions c) k = Option.bind (map_of fs k) (\<lambda>m. m)" if "List.member CONTEXT_FIELDS k" for k
    using that by (intro written(3)) simp
  have null: "x \<noteq> JNull" if "fc_registry_receipt c = Some x \<or> fc_lineage_head_receipt c = Some x \<or> fc_log_inclusion c = Some x" for x
    using ok that by (auto simp: context_wire_ok_def)
  have de: "de_nullable Some m = Some m" if "\<And>x. m = Some x \<Longrightarrow> x \<noteq> JNull" for m :: "json option"
    using de_nullable_map[of m Some "\<lambda>v. v"] that by (simp add: option.map_ident)
  show ?thesis
    unfolding js
    apply (simp add: context_deserialize_def look written(2) CONTEXT_FIELDS_def[THEN arg_cong, of List.member]
        del: map_of_append unnamed_append)
    using ok null apply (simp add: fs_def de option.map_ident state_read body_read context_wire_ok_def received_def)
    done
qed

lemma received_hash:
  assumes "context_wire_ok E c"
  shows "verify_context_hash E (received E c) =
      verify_content_hash (x_sci E) (x_sha256 E) (body_json E (fc_body c)) (b_content_hash (fc_body c))"
  using assms
  by (simp add: verify_context_hash_def received_def verify_raw_body_hash_def raw_describes_body_def context_wire_ok_def
      body_read value_eq_refl)

lemma canonical_hash_typed:
  "verify_content_hash (x_sci E) (x_sha256 E) (body_json E b) (b_content_hash b) = Inr () \<Longrightarrow> verify_typed_body_hash E b = Inr ()"
  by (simp add: verify_typed_body_hash_def verify_typed_content_hash_def)

text \<open>
  C25. A context survives the wire. What a registry serializes for a stored context whose values
  are well formed is decoded by a consumer to the same context, with the body as received kept
  beside it. The consumer's check of schema, hash and signature over the received body passes
  exactly when the typed check of the stored body passes and the canonical rendering of that body
  has the declared hash: the check over received bytes is the stricter of the two, and it refuses a
  body whose hash only fits the older spelling of timestamps.
\<close>

theorem served_context_survives_wire:
  assumes "context_wire_ok E c"
  shows "context_deserialize E (context_json E c) = Some (received E c) \<and>
    (is_ok (verify_context E resolve (received E c)) \<longleftrightarrow>
       is_ok (verify_body E resolve (fc_body c)) \<and>
       is_ok (verify_content_hash (x_sci E) (x_sha256 E) (body_json E (fc_body c)) (b_content_hash (fc_body c))))"
proof -
  have body: "fc_body (received E c) = fc_body c" by (simp add: received_def)
  show ?thesis
    using context_read[OF assms] canonical_hash_typed[of E "fc_body c"]
    by (auto simp: verify_context_def verify_body_def body received_hash[OF assms] is_ok_iff rbind_eq_Inr)
qed

text \<open>
  C39. Registry and consumer disagree on the older spelling of timestamps. A publish request whose
  declared hash fits only the rendering without milliseconds passes the registry's hash check, yet the
  context a typed store serves for it fails the hash check of every consumer that hashes the body as
  received: the registry accepts a context nobody can verify after retrieval.
\<close>

theorem legacy_spelling_accepted_but_unverifiable:
  assumes accepted: "verify_typed_publish_request_hash E req = Inr ()"
    and legacy: "verify_content_hash (x_sci E) (x_sha256 E) (publish_request_json E req) (pr_content_hash req) \<noteq> Inr ()"
    and stored: "fc_body c = from_publish_request req i l origin t" and wire: "context_wire_ok E c"
  shows "\<exists>a h. verify_context_hash E (received E c) = Inl (HashMismatch a h)"
proof -
  have "body_json E (fc_body c) = JObject (object_members (body_json E (fc_body c)))"
    "publish_request_json E req = JObject (object_members (publish_request_json E req))"
    by (simp_all add: body_json_def publish_request_json_def object_members_def)
  then have "verify_content_hash (x_sci E) (x_sha256 E) (body_json E (fc_body c)) (b_content_hash (fc_body c)) =
      verify_content_hash (x_sci E) (x_sha256 E) (publish_request_json E req) (pr_content_hash req)"
    using content_hash_cong[OF same_producer_members[of E req i l origin t], of "x_sci E" "x_sha256 E" "pr_content_hash req"] stored
    by (simp add: from_publish_request_def)
  moreover obtain a h where "verify_content_hash (x_sci E) (x_sha256 E) (publish_request_json E req) (pr_content_hash req) =
      Inl (HashMismatch a h)"
    using accepted legacy
    by (auto simp: verify_typed_publish_request_hash_def verify_typed_content_hash_def split: sum.splits acdp_error.splits)
  ultimately show ?thesis using received_hash[OF wire] by simp
qed

section \<open>Event receipts\<close>

lemma event_receipt_preimage_unsigned [simp]:
  "event_receipt_preimage_hash E (r\<lparr>er_signature := s\<rparr>) = event_receipt_preimage_hash E r"
  by (simp add: event_receipt_preimage_hash_def event_receipt_preimage_hash_of_value_def preimage_hash_of_object_def
      preimage_hash_of_object_with_def event_receipt_json_def preimage_hash_of_map_def)

text \<open>
  A minted event receipt is accepted: a consumer that reads the registry's key verifies the receipt
  minted for a lifecycle event against that event, its position and the context, as long as the
  acceptance time is not before the context was created.
\<close>

theorem minted_event_receipt_verifies:
  assumes mint: "mint_event_receipt E signer c raw_event index t = Inr r" and pub: "signer_published E resolve signer"
    and time: "time_roundtrip E (trunc_ms t)" and did: "sg_registry_did signer = authority_to_did_web origin"
    and created: "created_at \<le> trunc_ms t"
  shows "\<exists>status. verify_event_receipt_value E resolve (event_receipt_json E r) origin c raw_event index created_at = Inr (r, status)"
proof -
  from mint obtain r0 hash where r: "r = r0\<lparr>er_signature := signed_envelope E signer hash\<rparr>"
    and hash: "event_receipt_preimage_hash E r0 = Inr hash" and valid: "event_receipt_validate r0 = Inr ()"
    and ev: "get_str raw_event ''event_id'' = Some (er_event_id r0)" "event_hash_of_value E raw_event = Inr (er_event_hash r0)"
    and r0: "er_registry_did r0 = sg_registry_did signer" "er_ctx_id r0 = c" "er_index r0 = index"
      "er_accepted_at r0 = trunc_ms t" "sig_key_id (er_signature r0) = sg_key_id signer"
    unfolding mint_event_receipt_def Let_def rbind_eq_Inr ok_or_eq_Inr unsigned_envelope_def by fastforce
  from pub obtain fragment doc fresh m where
    k: "split_once CHR ''#'' (sg_key_id signer) = Some (sg_registry_did signer, fragment)"
      "resolve (sg_registry_did signer) = Inr (doc, fresh)" "find_by_fragment doc fragment = Some m"
      "key_published E (sg_key signer) m"
    by (auto simp: signer_published_def)
  have "event_receipt_validate r = event_receipt_validate r0" by (simp add: r r0 event_receipt_validate_def)
  then have parse: "event_receipt_from_value E (event_receipt_json E r) = Inr r"
    using event_receipt_read[of E r] time valid by (simp add: r r0)
  have raw: "event_receipt_preimage_hash_of_value E (event_receipt_json E r) = Inr hash"
    using hash unfolding r event_receipt_preimage_hash_def[symmetric] by simp
  have "verify_with_receipt_method E m (key_algorithm (sg_key signer)) InvalidReceipt
      (event_receipt_verify_against_hash E r hash) = Inr ()"
    using method_verifies(1)[OF k(4), of "er_signature r" hash, unfolded r, simplified]
    unfolding event_receipt_verify_against_hash_def r by simp
  then show ?thesis
    unfolding verify_event_receipt_value_def parse raw
    using created by (simp add: r r0 k ev did[symmetric] check_binding_def resolve_receipt_key_with_status_def linorder_not_less)
qed

section \<open>Witnesses\<close>

text \<open>An executable comparison with an expected result, for evaluations.\<close>

definition parses_to :: "'a acdp_result \<Rightarrow> 'a \<Rightarrow> bool" where
  "parses_to r x = (case r of Inl _ \<Rightarrow> False | Inr y \<Rightarrow> y = x)"

lemma parses_to_iff [simp]: "parses_to r x \<longleftrightarrow> r = Inr x"
  by (cases r) (auto simp: parses_to_def)

definition sample_context :: full_context where
  "sample_context =
     \<lparr>fc_body = from_publish_request sample_request (''acdp://r.example/'' @ sample_uuid) (''lin:'' @ sample_hash) ''r.example'' 0,
      fc_registry_state = \<lparr>rs_status = Active, rs_lifecycle_events = None, rs_event_receipts = None, rs_extensions = []\<rparr>,
      fc_registry_receipt = None, fc_lineage_head_receipt = None, fc_log_inclusion = None, fc_extensions = [], fc_raw_body = None\<rparr>"

lemma sample_context_wire: "context_wire_ok sample_ext sample_context"
  by code_simp

theorem served_context_survives_wire_witness:
  "context_deserialize sample_ext (context_json sample_ext sample_context) = Some (received sample_ext sample_context) \<and>
   (is_ok (verify_context sample_ext sample_resolver (received sample_ext sample_context)) \<longleftrightarrow>
      is_ok (verify_body sample_ext sample_resolver (fc_body sample_context)) \<and>
      is_ok (verify_content_hash (x_sci sample_ext) (x_sha256 sample_ext) (body_json sample_ext (fc_body sample_context))
        (b_content_hash (fc_body sample_context))))"
  by (rule served_context_survives_wire[OF sample_context_wire])

text \<open>
  A request hashed in the older spelling, with a digest that tells the two spellings apart: zero on the
  canonical text of the older one, one elsewhere.
\<close>

definition spelled :: "string \<Rightarrow> json" where
  "spelled t = JObject
     [(''version'', JNumber (PosInt 1)), (''supersedes'', JNull), (''agent_id'', JString ''did:key:zA''), (''contributors'', JArray []),
      (''title'', JString ''t''), (''type'', JString ''analysis''), (''data_refs'', JArray []), (''derived_from'', JArray []),
      (''visibility'', JString ''public''), (''expires_at'', JString t)]"

definition spelling_ext :: ext where
  "spelling_ext = sample_ext\<lparr>x_sha256 := \<lambda>bs. replicate 32
     (if bs = string_bytes (render (canon (x_sci sample_ext) (spelled ''1970-01-01T00:00:00Z''))) then 0 else 1)\<rparr>"

definition legacy_request :: publish_request where
  "legacy_request = sample_request\<lparr>pr_expires_at := Some 0\<rparr>"

definition legacy_context :: full_context where
  "legacy_context = sample_context\<lparr>fc_body :=
     from_publish_request legacy_request (''acdp://r.example/'' @ sample_uuid) (''lin:'' @ sample_hash) ''r.example'' 0\<rparr>"

lemma spelled_hash:
  assumes "producer_content ms = spelled t"
  shows "is_ok (verify_content_hash (x_sci spelling_ext) (x_sha256 spelling_ext) (JObject ms) sample_hash)
      \<longleftrightarrow> t = ''1970-01-01T00:00:00Z''"
proof -
  let ?sci = "x_sci sample_ext" and ?old = "spelled ''1970-01-01T00:00:00Z''"
  have wf: "wf_json (spelled s) \<and> depth (spelled s) \<le> MAX_JCS_DEPTH" for s by (simp add: spelled_def MAX_JCS_DEPTH_def)
  have "sci_ok ?sci" by (simp add: sci_ok_def sample_ext_def is_ascii_digit_def in_range_def)
  then have "try_canonicalize_value ?sci (spelled t) = try_canonicalize_value ?sci ?old \<longleftrightarrow> written_alike ?sci (spelled t) ?old"
    using wf by (intro canonical_text_eq_alike) simp_all
  moreover have "written_alike ?sci (spelled t) ?old \<longleftrightarrow> t = ''1970-01-01T00:00:00Z''"
    by (auto simp: spelled_def dest: spec[of _ "''expires_at''"])
  ultimately have same: "render (canon ?sci (spelled t)) = render (canon ?sci ?old) \<longleftrightarrow> t = ''1970-01-01T00:00:00Z''"
    using wf by (simp add: try_canonicalize_value_def write_value_render)
  have sci: "x_sci spelling_ext = ?sci" by (simp add: spelling_ext_def)
  have hex: "hex_encode (replicate 32 0) = replicate 64 CHR ''0''" "hex_encode (replicate 32 1) \<noteq> replicate 64 CHR ''0''"
    by code_simp+
  have "compute_content_hash (x_sci spelling_ext) (x_sha256 spelling_ext) (JObject ms) =
      Inr (''sha256:'' @ hex_encode (replicate 32 (if t = ''1970-01-01T00:00:00Z'' then 0 else 1)))"
    using wf same string_bytes_inj
    by (simp add: compute_content_hash_object assms sci try_canonicalize_value_def write_value_render) (auto simp: spelling_ext_def)
  then show ?thesis using hex by (simp add: verify_content_hash_def sample_hash_def require_def)
qed

lemma legacy_json: "publish_request_json spelling_ext legacy_request = JObject
    [(''version'', JNumber (PosInt 1)), (''supersedes'', JNull), (''agent_id'', JString ''did:key:zA''),
     (''contributors'', JArray []), (''title'', JString ''t''), (''type'', JString ''analysis''),
     (''data_refs'', JArray []), (''derived_from'', JArray []), (''visibility'', JString ''public''),
     (''content_hash'', JString sample_hash), (''signature'', signature_json (pr_signature sample_request)),
     (''expires_at'', JString ''1970-01-01T00:00:00.000Z'')]"
  by (simp add: publish_request_json_def sample_request_def legacy_request_def to_map_def opt_member_def json_strings_def
      json_nat_def json_time_def fmt_rfc3339_canonical_def spelling_ext_def sample_ext_def)

lemma spellings_differ: "''1970-01-01T00:00:00.000Z'' \<noteq> ''1970-01-01T00:00:00Z''"
  by code_simp

lemma legacy_request_hash:
  "is_ok (verify_typed_publish_request_hash spelling_ext legacy_request)"
  "\<not> is_ok (verify_content_hash (x_sci spelling_ext) (x_sha256 spelling_ext) (publish_request_json spelling_ext legacy_request)
      (pr_content_hash legacy_request))"
proof -
  have hash: "pr_content_hash legacy_request = sample_hash" by (simp add: legacy_request_def sample_request_def)
  show canonical: "\<not> is_ok (verify_content_hash (x_sci spelling_ext) (x_sha256 spelling_ext)
      (publish_request_json spelling_ext legacy_request) (pr_content_hash legacy_request))"
    unfolding legacy_json hash
    by (subst spelled_hash[of _ "''1970-01-01T00:00:00.000Z''"]) (simp_all add: producer_content_def EXCLUDE_def spelled_def spellings_differ)
  obtain ms where old: "legacy_rendering (publish_request_json spelling_ext legacy_request) = Some (JObject ms)"
      "producer_content ms = spelled ''1970-01-01T00:00:00Z''"
    unfolding legacy_json
    by (simp add: legacy_rendering_def legacy_step_def legacy_slot_def PRODUCER_TIMESTAMP_PATHS_def legacy_text_def strip_suffix_def
        strip_prefix_def producer_content_def EXCLUDE_def spelled_def)
  have "is_ok (verify_content_hash (x_sci spelling_ext) (x_sha256 spelling_ext) (JObject ms) (pr_content_hash legacy_request))"
    unfolding hash spelled_hash[OF old(2)] by simp
  moreover have "\<exists>a b. verify_content_hash (x_sci spelling_ext) (x_sha256 spelling_ext)
      (publish_request_json spelling_ext legacy_request) (pr_content_hash legacy_request) = Inl (HashMismatch a b)"
    using canonical unfolding legacy_json
    by (auto simp: verify_content_hash_def compute_content_hash_object try_canonicalize_value_def write_value_render require_def
        producer_content_def EXCLUDE_def MAX_JCS_DEPTH_def split: if_splits)
  ultimately show "is_ok (verify_typed_publish_request_hash spelling_ext legacy_request)"
    using old(1) by (auto simp: verify_typed_publish_request_hash_def verify_typed_content_hash_def)
qed

lemma legacy_context_wire: "context_wire_ok spelling_ext legacy_context"
  by code_simp

theorem legacy_spelling_accepted_but_unverifiable_witness:
  "\<exists>a h. verify_context_hash spelling_ext (received spelling_ext legacy_context) = Inl (HashMismatch a h)"
  by (rule legacy_spelling_accepted_but_unverifiable[OF _ _ _ legacy_context_wire])
     (use legacy_request_hash in \<open>auto simp: is_ok_iff legacy_context_def\<close>)

definition sample_event_json :: json where
  "sample_event_json = JObject [(''event_id'', JString sample_uuid)]"

lemma sample_event_receipt:
  "is_ok (mint_event_receipt sample_ext sample_signer (''acdp://r.example/'' @ sample_uuid) sample_event_json 0 0)"
  by code_simp

theorem minted_event_receipt_verifies_witness:
  "\<exists>r status. verify_event_receipt_value sample_ext sample_resolver (event_receipt_json sample_ext r) ''r.example''
      (''acdp://r.example/'' @ sample_uuid) sample_event_json 0 0 = Inr (r, status)"
proof -
  have "time_roundtrip sample_ext (trunc_ms 0)" "(0::instant) \<le> trunc_ms 0" using sample_time by (simp_all add: trunc_ms_def timestamp_millis_def)
  moreover have "sg_registry_did sample_signer = authority_to_did_web ''r.example''" by code_simp
  ultimately show ?thesis
    using sample_event_receipt minted_event_receipt_verifies[OF _ sample_published] unfolding is_ok_iff by blast
qed

end
