(* ===== verification/Acdp_Verdict_Correct.thy ===== *)
theory Acdp_Verdict_Correct
  imports Acdp_Verdict Acdp_Validation_Correct "HOL-Library.Sublist"
begin

text \<open>
  Revocation verdicts: a key is refused exactly when some revocation in scope is not placed after the
  context; the boundary rule equals the reference computation; the cache stays within its bounds, keeps
  every fact it has stored and caches no absence over a dropped fact, so a revocation once stored
  refuses the key ever after, whatever a registry answers later.
\<close>

section \<open>Least elements\<close>

lemma min_by_key_None [simp]: "min_by_key f xs = None \<longleftrightarrow> xs = []"
  by (cases xs) (auto split: option.splits)

lemma min_by_key_SomeD: "min_by_key f xs = Some y \<Longrightarrow> y \<in> set xs \<and> (\<forall>x\<in>set xs. f y \<le> f x)"
proof (induction xs arbitrary: y)
  case (Cons x xs)
  show ?case
  proof (cases "min_by_key f xs")
    case (Some z)
    then show ?thesis using Cons.IH[OF Some] Cons.prems by (auto split: if_splits intro: order_trans)
  qed (use Cons.prems in auto)
qed simp

lemma fixingD:
  assumes "fixing_revocation rs fp = Some r"
  shows "r \<in> set rs" "sr_revoked_key_fingerprint r = fp"
    "s \<in> set rs \<Longrightarrow> sr_revoked_key_fingerprint s = fp \<Longrightarrow> sr_compromised_since r \<le> sr_compromised_since s"
  using min_by_key_SomeD[OF assms[unfolded fixing_revocation_def]] by (auto simp: less_eq_prod_def)

lemma fixing_None: "fixing_revocation rs fp = None \<longleftrightarrow> (\<forall>r\<in>set rs. sr_revoked_key_fingerprint r \<noteq> fp)"
  by (auto simp: fixing_revocation_def filter_empty_conv)

section \<open>The boundary rule\<close>

text \<open>The context is placed strictly before \<open>T\<close> by a receipt whose key may place it.\<close>

definition placed_before :: "(instant \<times> receipt_key_status) option \<Rightarrow> bool \<Rightarrow> instant \<Rightarrow> bool" where
  "placed_before pl accept T \<longleftrightarrow> (\<exists>t status. pl = Some (t, status) \<and> t < T \<and> (status = Current \<or> accept))"

lemma named_refusal: "is_refusal (named_verdict r pl accept) \<longleftrightarrow> \<not> placed_before pl accept (sr_compromised_since r)"
proof (cases pl)
  case (Some p)
  then show ?thesis
    by (cases p; cases "snd p") (auto simp: named_verdict_def placed_before_def Let_def)
qed (simp add: named_verdict_def placed_before_def)

lemma named_shape:
  "\<exists>effect placement. named_verdict r pl accept = RV_Revoked effect (sr_compromised_since r) r placement \<and>
     (effect = PreCompromise \<longleftrightarrow> placed_before pl accept (sr_compromised_since r))"
proof (cases pl)
  case (Some p)
  then show ?thesis
    by (cases p; cases "snd p") (auto simp: named_verdict_def placed_before_def Let_def)
qed (simp add: named_verdict_def placed_before_def)

lemma named_known [simp]: "\<not> is_unknown (named_verdict r pl accept)"
  using named_shape[of r pl accept] by auto

lemma placed_before_mono: "placed_before pl accept T \<Longrightarrow> T \<le> T' \<Longrightarrow> placed_before pl accept T'"
  by (auto simp: placed_before_def)

lemma decide_refusal:
  "is_refusal (ra_verdict (decide g (Some fp) pl accept)) \<longleftrightarrow>
     (\<exists>r\<in>set (ga_in_scope g). sr_revoked_key_fingerprint r = fp \<and> \<not> placed_before pl accept (sr_compromised_since r))"
proof (cases "fixing_revocation (ga_in_scope g) fp")
  case None
  then have "\<not> is_refusal (ra_verdict (decide g (Some fp) pl accept))"
    by (simp add: decide_def Let_def split: option.splits sum.splits acdp_error.splits)
  then show ?thesis using None by (auto simp: fixing_None)
next
  case (Some r)
  have "is_refusal (ra_verdict (decide g (Some fp) pl accept)) \<longleftrightarrow> is_refusal (named_verdict r pl accept)"
    using Some by (simp add: decide_def Let_def split: option.splits sum.splits acdp_error.splits)
  then show ?thesis
    using named_refusal fixingD[OF Some] placed_before_mono by blast
qed

text \<open>Discovery of this key's revocations did not finish.\<close>

definition undecided :: "gathered \<Rightarrow> string \<Rightarrow> bool" where
  "undecided g fp \<longleftrightarrow> (\<exists>e. ga_discovery g = Some (Inl e)) \<or> fp \<in> set (ga_unevaluated g)"

definition discovery_typed :: "gathered \<Rightarrow> bool" where
  "discovery_typed g \<longleftrightarrow> (\<forall>e. ga_discovery g = Some (Inl e) \<longrightarrow> (\<exists>reason source. e = RevocationUnknown reason source))"

lemma final_discovery_typed:
  assumes "discovery_typed g" "undecided g fp"
  shows "\<exists>reason src. final_discovery g (Some fp) = Some (Inl (RevocationUnknown reason src))"
  using assms by (cases "ga_discovery g"; cases "the (ga_discovery g)")
    (auto simp: undecided_def discovery_typed_def final_discovery_def)

lemma final_discovery_decided: "\<not> undecided g fp \<Longrightarrow> final_discovery g (Some fp) \<noteq> Some (Inl e)"
  by (cases "ga_discovery g"; cases "the (ga_discovery g)") (auto simp: undecided_def final_discovery_def)

lemma enforce_refusal: "is_refusal (ra_verdict a) \<Longrightarrow> \<exists>r. enforce a = Inl (KeyRevoked r)"
  by (cases "ra_verdict a") (auto simp: enforce_def)

lemma enforce_ok:
  assumes "discovery_typed g"
  shows "is_ok (enforce (decide g (Some fp) pl accept)) \<longleftrightarrow>
    \<not> is_refusal (ra_verdict (decide g (Some fp) pl accept)) \<and> \<not> (undecided g fp \<and> ga_on_failure g = FailClosed)"
proof (cases "is_refusal (ra_verdict (decide g (Some fp) pl accept))")
  case True
  then show ?thesis using enforce_refusal by force
next
  case False
  let ?a = "decide g (Some fp) pl accept"
  have on: "ra_on_failure ?a = ga_on_failure g" by (simp add: decide_def Let_def)
  show ?thesis
  proof (cases "undecided g fp")
    case True
    then obtain reason src where d: "final_discovery g (Some fp) = Some (Inl (RevocationUnknown reason src))"
      using final_discovery_typed[OF assms] by blast
    then have "ra_verdict ?a = RV_Unknown reason"
      using False by (auto simp: decide_def Let_def split: option.splits if_splits)
    moreover have "ra_discovery ?a = final_discovery g (Some fp)" by (simp add: decide_def Let_def)
    ultimately show ?thesis using False True d on by (auto simp: enforce_def)
  next
    case undec: False
    then have "\<not> is_unknown (ra_verdict ?a)"
      using final_discovery_decided[OF undec] by (auto simp: decide_def Let_def split: option.splits sum.splits)
    then show ?thesis using False undec by (cases "ra_verdict ?a") (auto simp: enforce_def)
  qed
qed

section \<open>What is gathered\<close>

lemma scope_sets: "set (fst (fold (scope_step a) rs (is, hs))) = set is \<union> {r \<in> set rs. speaks_for r a}"
  by (induction rs arbitrary: "is" hs) (auto simp: scope_step_def)

lemma scope_set: "set (fst (scope rs a)) = {r \<in> set rs. speaks_for r a}"
  by (simp add: scope_def scope_sets)

lemma gather_scope:
  "set (ga_in_scope (gather E cache vantage a policy run)) =
     {r. speaks_for r a \<and>
         (r \<in> set (known_revocations cache vantage a policy) \<or>
          (\<exists>d s l. rp_discover policy = Some d \<and> run = Inr (s, l) \<and>
             r \<in> set (discovered_revocations (case vantage of None \<Rightarrow> [] | Some v \<Rightarrow> v) s l)))}"
  by (auto simp: gather_def Let_def scope_set case_prod_beta split: option.splits sum.splits)

lemma gather_typed: "discovery_typed (gather E cache vantage a policy run)"
  by (auto simp: gather_def discovery_typed_def Let_def case_prod_beta split: option.splits sum.splits)

lemma gather_undecided:
  "undecided (gather E cache vantage a policy run) fp \<longleftrightarrow>
     (\<exists>d. rp_discover policy = Some d \<and>
        (case run of Inl e \<Rightarrow> True | Inr (s, l) \<Rightarrow> fp \<in> set (evaluate_revocations E a (lk_deferred s))))"
  by (auto simp: gather_def undecided_def Let_def case_prod_beta split: option.splits sum.splits prod.splits)

lemma gather_on_failure:
  "ga_on_failure (gather E cache vantage a policy run) =
     (case rp_discover policy of None \<Rightarrow> FailClosed | Some d \<Rightarrow> rd_on_failure d)"
  by (auto simp: gather_def Let_def case_prod_beta split: option.splits sum.splits)

text \<open>
  C21. Revocation verdicts fail closed, and only then. For whatever the cache holds and the registry
  answers, enforcement lets a context pass exactly when every gathered revocation that speaks for the
  producer and names its signing key has a boundary strictly after the receipt's publish time (under a
  receipt key that may place it), and either discovery finished with no candidate of this key left
  unevaluated or the policy says to proceed without. Known, cached and discovered revocations count
  alike; those that do not speak for the producer never matter.
\<close>

theorem verdict_fails_closed:
  "is_ok (enforce (decide (gather E cache vantage a policy run) (Some fp) pl accept)) \<longleftrightarrow>
     (\<forall>r. speaks_for r a \<and> sr_revoked_key_fingerprint r = fp \<and>
         (r \<in> set (known_revocations cache vantage a policy) \<or>
          (\<exists>d s l. rp_discover policy = Some d \<and> run = Inr (s, l) \<and>
             r \<in> set (discovered_revocations (case vantage of None \<Rightarrow> [] | Some v \<Rightarrow> v) s l)))
       \<longrightarrow> placed_before pl accept (sr_compromised_since r)) \<and>
     (\<forall>d. rp_discover policy = Some d \<and> rd_on_failure d = FailClosed \<longrightarrow>
        (\<exists>s l. run = Inr (s, l) \<and> fp \<notin> set (evaluate_revocations E a (lk_deferred s))))"
proof -
  have und: "\<not> (undecided (gather E cache vantage a policy run) fp \<and> ga_on_failure (gather E cache vantage a policy run) = FailClosed) \<longleftrightarrow>
      (\<forall>d. rp_discover policy = Some d \<and> rd_on_failure d = FailClosed \<longrightarrow>
        (\<exists>s l. run = Inr (s, l) \<and> fp \<notin> set (evaluate_revocations E a (lk_deferred s))))"
    unfolding gather_undecided gather_on_failure by (cases run) (auto split: option.splits)
  show ?thesis
    unfolding enforce_ok[OF gather_typed] und decide_refusal gather_scope by blast
qed

section \<open>The boundary rule against its reference\<close>

lemma effective_boundary_fold:
  "fold (\<lambda>r acc. case acc of None \<Rightarrow> Some (f r) | Some t \<Rightarrow> Some (min t (f r))) rs (Some t) = Some (fold (\<lambda>r t. min t (f r)) rs t)"
  by (induction rs arbitrary: t) auto

lemma fold_min_le: "fold (\<lambda>r t. min t (f r)) rs (t :: int) \<le> t"
proof (induction rs arbitrary: t)
  case (Cons r rs)
  show ?case using Cons.IH[of "min t (f r)"] by simp
qed simp

lemma fold_min: "fold (\<lambda>r t. min t (f r)) rs (t :: int) \<in> insert t (f ` set rs) \<and>
    (\<forall>r\<in>set rs. fold (\<lambda>r t. min t (f r)) rs t \<le> f r) \<and> fold (\<lambda>r t. min t (f r)) rs t \<le> t"
proof (induction rs arbitrary: t)
  case (Cons r rs)
  show ?case using Cons.IH[of "min t (f r)"] by (auto simp: min_def split: if_splits)
qed simp

lemma effective_boundary_None: "effective_boundary rs fp = None \<longleftrightarrow> (\<forall>r\<in>set rs. kr_fingerprint r \<noteq> fp)"
proof (cases "filter (\<lambda>r. revokes r fp) rs")
  case Nil
  then show ?thesis by (auto simp: effective_boundary_def filter_empty_conv revokes_def)
next
  case (Cons r rest)
  then have "r \<in> set (filter (\<lambda>r. revokes r fp) rs)" by simp
  then show ?thesis using Cons by (auto simp: effective_boundary_def effective_boundary_fold revokes_def)
qed

lemma effective_boundary_Some:
  assumes "effective_boundary rs fp = Some T"
  shows "\<exists>r\<in>set rs. kr_fingerprint r = fp \<and> kr_compromised_since r = T"
    "r \<in> set rs \<Longrightarrow> kr_fingerprint r = fp \<Longrightarrow> T \<le> kr_compromised_since r"
proof -
  obtain q rest where q: "filter (\<lambda>r. revokes r fp) rs = q # rest"
    using assms by (cases "filter (\<lambda>r. revokes r fp) rs") (auto simp: effective_boundary_def)
  then have T: "T = fold (\<lambda>r t. min t (kr_compromised_since r)) rest (kr_compromised_since q)"
    using assms by (simp add: effective_boundary_def effective_boundary_fold)
  have sub: "x \<in> set rs \<and> kr_fingerprint x = fp \<longleftrightarrow> x \<in> set (q # rest)" for x
    unfolding q[symmetric] by (auto simp: revokes_def)
  note m = fold_min[of kr_compromised_since rest "kr_compromised_since q", folded T]
  show "\<exists>r\<in>set rs. kr_fingerprint r = fp \<and> kr_compromised_since r = T" using m sub by auto
  show "r \<in> set rs \<Longrightarrow> kr_fingerprint r = fp \<Longrightarrow> T \<le> kr_compromised_since r" using m sub[of r] by auto
qed

lemma known_fixing:
  "case fixing_revocation (map (\<lambda>r. sourced r Known) rs) fp of
     None \<Rightarrow> effective_boundary rs fp = None
   | Some r \<Rightarrow> effective_boundary rs fp = Some (sr_compromised_since r) \<and> sr_revoked_key_fingerprint r = fp"
proof (cases "fixing_revocation (map (\<lambda>r. sourced r Known) rs) fp")
  case None
  then have "effective_boundary rs fp = None" by (auto simp: fixing_None effective_boundary_None sourced_def)
  then show ?thesis using None by simp
next
  case (Some r)
  note f = fixingD[OF Some]
  then obtain T where T: "effective_boundary rs fp = Some T"
    using effective_boundary_None[of rs fp] by (cases "effective_boundary rs fp") (auto simp: sourced_def)
  obtain k where k: "k \<in> set rs" "kr_fingerprint k = fp" "kr_compromised_since k = T" using effective_boundary_Some(1)[OF T] by blast
  have "sourced k Known \<in> set (map (\<lambda>r. sourced r Known) rs)" using k(1) by simp
  from f(3)[OF this] k have "sr_compromised_since r \<le> T" by (simp add: sourced_def)
  moreover obtain k' where "k' \<in> set rs" "r = sourced k' Known" using f(1) by auto
  then have "T \<le> sr_compromised_since r" using effective_boundary_Some(2)[OF T, of k'] f(2) by (simp add: sourced_def)
  ultimately show ?thesis using Some T f(2) by simp
qed

text \<open>
  The boundary rule is the reference computation: \<open>classify_under_revocation_placed\<close> answers "no
  revocation" when \<open>effective_boundary\<close> of \<open>acdp-types\<close> is absent, accepts as pre-compromise when the
  receipt places the context strictly before that boundary, and otherwise refuses with a refusal that
  carries exactly this boundary and the signing key's fingerprint.
\<close>

theorem classify_matches_effective_boundary:
  "case effective_boundary rs fp of
     None \<Rightarrow> classify_under_revocation_placed rs fp pl accept = Inr None
   | Some T \<Rightarrow>
       if placed_before pl accept T
       then classify_under_revocation_placed rs fp pl accept = Inr (Some HistoricallyAuthorizedPreCompromise)
       else (\<exists>r. classify_under_revocation_placed rs fp pl accept = Inl (KeyRevoked r) \<and>
              rr_boundary r = T \<and> rr_signing_key_fingerprint r = fp \<and> sr_compromised_since (rr_revocation r) = T)"
proof (cases "fixing_revocation (map (\<lambda>r. sourced r Known) rs) fp")
  case None
  then show ?thesis
    using known_fixing[of rs fp]
    by (simp add: classify_under_revocation_placed_def decide_known_def decide_def final_discovery_def Let_def)
next
  case (Some r)
  obtain effect placement where n: "named_verdict r pl accept = RV_Revoked effect (sr_compromised_since r) r placement"
      "effect = PreCompromise \<longleftrightarrow> placed_before pl accept (sr_compromised_since r)"
    using named_shape by blast
  have v: "ra_verdict (decide_known rs fp pl accept) = named_verdict r pl accept"
    using Some by (simp add: decide_known_def decide_def final_discovery_def Let_def)
  show ?thesis
    using Some known_fixing[of rs fp] n v
    by (cases effect) (auto simp: classify_under_revocation_placed_def Let_def enforce_def)
qed

section \<open>The cache over time\<close>

definition cache_step :: "revocation_cache \<Rightarrow> revocation_cache \<Rightarrow> bool" where
  "cache_step c c' \<longleftrightarrow> (\<exists>authority agent cls facts now wall. c' = record_success authority agent cls facts now wall c)"

definition facts_of :: "revocation_cache \<Rightarrow> string \<Rightarrow> stored_fact list" where
  "facts_of c agent = (case ch_facts c agent of None \<Rightarrow> [] | Some s \<Rightarrow> fs_facts s)"

definition set_ok :: "fact_set \<Rightarrow> bool" where
  "set_ok s \<longleftrightarrow> distinct (map sf_rev (fs_facts s)) \<and> (\<forall>cls origin. fs_count s cls origin \<le> MAX_FACTS_PER_CLASS)"

definition cache_inv :: "revocation_cache \<Rightarrow> bool" where
  "cache_inv c \<longleftrightarrow> (\<forall>agent s. ch_facts c agent = Some s \<longrightarrow> set_ok s) \<and>
     length (ch_markers c) \<le> MAX_MARKERS \<and> distinct (map fst (ch_markers c))"

definition cache_grows :: "revocation_cache \<Rightarrow> revocation_cache \<Rightarrow> bool" where
  "cache_grows c c' \<longleftrightarrow> (\<forall>agent. prefix (facts_of c agent) (facts_of c' agent))"

lemma mark_full_simps [simp]: "fs_facts (fs_mark_full s cls origin) = fs_facts s" "fs_count (fs_mark_full s cls origin) = fs_count s"
  "fs_full (fs_mark_full s cls origin) cls origin"
  by (cases cls; simp add: fs_count_def fun_eq_iff)+

lemma admit_prefix: "prefix (fs_facts s) (fs_facts (admit_fact a f s))"
  by (auto simp: admit_fact_def)

lemma admit_full_mono: "fs_full s cls a \<Longrightarrow> fs_full (admit_fact b f s) cls a"
  by (cases cls; cases "kr_trust_class f") (auto simp: admit_fact_def)

lemma admit_kept: "f \<in> sf_rev ` set (fs_facts (admit_fact a f s)) \<or> fs_full (admit_fact a f s) (kr_trust_class f) a"
  by (auto simp: admit_fact_def)

lemma admit_set_ok: "set_ok s \<Longrightarrow> set_ok (admit_fact a f s)"
proof -
  assume ok: "set_ok s"
  have "fs_count (s\<lparr>fs_facts := fs_facts s @ [\<lparr>sf_rev = f, sf_origin = a\<rparr>]\<rparr>) cls origin \<le> MAX_FACTS_PER_CLASS"
    if "fs_count s (kr_trust_class f) a < MAX_FACTS_PER_CLASS" for cls origin
  proof (cases "kr_trust_class f = cls \<and> (cls = ProducerSigned \<or> a = origin)")
    case True
    then have "fs_count s cls origin = fs_count s (kr_trust_class f) a"
      by (auto simp: fs_count_def)
    then show ?thesis using True that by (simp add: fs_count_def)
  qed (use ok in \<open>auto simp: fs_count_def set_ok_def\<close>)
  then show ?thesis using ok by (auto simp: admit_fact_def set_ok_def not_le)
qed

lemma admits_prefix: "prefix (fs_facts s) (fs_facts (fold (admit_fact a) fs s))"
proof (induction fs arbitrary: s)
  case (Cons f fs)
  show ?case using Cons[of "admit_fact a f s"] admit_prefix[of s a f] by (auto intro: prefix_order.trans)
qed simp

lemma admits_full: "fs_full s cls a \<Longrightarrow> fs_full (fold (admit_fact a) fs s) cls a"
  by (induction fs arbitrary: s) (simp_all add: admit_full_mono)

lemma admits_set_ok: "set_ok s \<Longrightarrow> set_ok (fold (admit_fact a) fs s)"
  by (induction fs arbitrary: s) (simp_all add: admit_set_ok)

lemma admits_kept:
  "f \<in> set fs \<Longrightarrow> f \<in> sf_rev ` set (fs_facts (fold (admit_fact a) fs s)) \<or> fs_full (fold (admit_fact a) fs s) (kr_trust_class f) a"
proof (induction fs arbitrary: s)
  case (Cons g fs)
  show ?case
  proof (cases "f = g")
    case True
    have "set (fs_facts (admit_fact a g s)) \<subseteq> set (fs_facts (fold (admit_fact a) fs (admit_fact a g s)))"
      by (rule set_mono_prefix[OF admits_prefix])
    then show ?thesis using admit_kept[of f a s] admits_full True by fastforce
  qed (use Cons in auto)
qed simp

lemma record_facts:
  "ch_facts (record_success au ag cls fs now wall c) x =
     (if x = ag then Some (fold (admit_fact au) fs (case ch_facts c ag of Some s \<Rightarrow> s
        | None \<Rightarrow> \<lparr>fs_facts = [], fs_producer_signed_full = False, fs_attested_full = {}\<rparr>)) else ch_facts c x)"
  by (simp add: record_success_def Let_def)

lemma evict_length:
  assumes "length ms \<le> MAX_MARKERS" "key \<notin> fst ` set ms"
  shows "length (evict_oldest key ms) < MAX_MARKERS"
proof (cases "MAX_MARKERS \<le> length ms")
  case True
  then have "ms \<noteq> []" by (auto simp: MAX_MARKERS_def)
  then obtain o' m where o': "min_by_key (\<lambda>(_, m). mk_minted m) ms = Some (o', m)"
    by (cases "min_by_key (\<lambda>(_, m). mk_minted m) ms") auto
  then have "(o', m) \<in> set ms" by (rule min_by_key_SomeD[THEN conjunct1])
  then have "length (filter (\<lambda>(k, _). k \<noteq> o') ms) < length ms"
    by (intro length_filter_less[where x = "(o', m)"]) auto
  then show ?thesis using True assms o' by (simp add: evict_oldest_def)
qed (use assms in \<open>simp add: evict_oldest_def\<close>)

lemma evict_distinct: "distinct (map fst ms) \<Longrightarrow> distinct (map fst (evict_oldest key ms))"
  and evict_keys: "fst ` set (evict_oldest key ms) \<subseteq> fst ` set ms"
  and evict_same: "key \<in> fst ` set ms \<Longrightarrow> evict_oldest key ms = ms"
  by (auto simp: evict_oldest_def split: option.splits intro!: distinct_map_filter)

lemma markers_ok:
  assumes "length ms \<le> MAX_MARKERS" "distinct (map fst ms)"
  shows "length (insert_marker key m (evict_oldest key ms)) \<le> MAX_MARKERS \<and>
    distinct (map fst (insert_marker key m (evict_oldest key ms)))"
proof (cases "key \<in> fst ` set ms")
  case True
  have "map fst (map (\<lambda>(k, x). if k = key then (k, m) else (k, x)) ms) = map fst ms" by (auto simp: case_prod_beta)
  then show ?thesis using True assms by (simp add: evict_same insert_marker_def del: map_map)
next
  case False
  then have "key \<notin> fst ` set (evict_oldest key ms)" using evict_keys by blast
  then show ?thesis
    using evict_length[OF assms(1) False] evict_distinct[OF assms(2)] by (auto simp: insert_marker_def)
qed

interpretation cache: growing_system cache_step cache_inv cache_grows
proof
  show "cache_inv c \<Longrightarrow> cache_step c c' \<Longrightarrow> cache_inv c'" for c c'
  proof -
    assume inv: "cache_inv c" and "cache_step c c'"
    then obtain au ag cls fs now wall where c': "c' = record_success au ag cls fs now wall c" by (auto simp: cache_step_def)
    have "set_ok \<lparr>fs_facts = [], fs_producer_signed_full = False, fs_attested_full = {}\<rparr>" by (simp add: set_ok_def fs_count_def)
    then have "set_ok s" if "ch_facts c' x = Some s" for x s
      using that inv admits_set_ok unfolding c' record_facts
      by (auto simp: cache_inv_def split: if_splits option.splits)
    moreover have "length (ch_markers c') \<le> MAX_MARKERS \<and> distinct (map fst (ch_markers c'))"
      using markers_ok[of "ch_markers c"] inv
      unfolding c' by (auto simp: record_success_def Let_def cache_inv_def intro!: distinct_map_filter
          intro: order_trans[OF length_filter_le])
    ultimately show ?thesis by (simp add: cache_inv_def)
  qed
  show "cache_grows c c'" if "cache_inv c" "cache_step c c'" for c c'
    using that(2) admits_prefix[of "case ch_facts c _ of Some s \<Rightarrow> s | None \<Rightarrow> _"]
    by (fastforce simp: cache_step_def cache_grows_def facts_of_def record_facts split: option.splits)
qed (auto simp: cache_grows_def intro: prefix_order.trans)

lemma cache_new_inv: "cache_inv cache_new"
  by (simp add: cache_inv_def cache_new_def)

lemma facts_of_ok: "cache_inv c \<Longrightarrow> set_ok \<lparr>fs_facts = facts_of c agent, fs_producer_signed_full = full, fs_attested_full = A\<rparr>"
  by (cases "ch_facts c agent") (auto simp: cache_inv_def facts_of_def set_ok_def fs_count_def)

lemma record_marker:
  assumes "fresh_marker (record_success au ag cls fs now wall c) au ag cls freshness now' = Some t"
    and "f \<in> set fs" "kr_trust_class f = cls"
  shows "f \<in> sf_rev ` set (facts_of (record_success au ag cls fs now wall c) ag)"
proof -
  let ?s = "fold (admit_fact au) fs (case ch_facts c ag of Some s \<Rightarrow> s
        | None \<Rightarrow> \<lparr>fs_facts = [], fs_producer_signed_full = False, fs_attested_full = {}\<rparr>)"
  have "\<not> fs_full ?s cls au"
  proof
    assume "fs_full ?s cls au"
    then have "map_of (ch_markers (record_success au ag cls fs now wall c)) (ag, au, class_key cls) = None"
      by (auto simp: record_success_def Let_def map_of_eq_None_iff)
    then show False using assms(1) by (simp add: fresh_marker_def split: if_splits)
  qed
  then show ?thesis
    using admits_kept[OF assms(2), of au] assms(3) by (fastforce simp: facts_of_def record_facts)
qed

text \<open>
  The cache over any history of complete lookups: a stored fact stays, at its place; no fact is
  stored twice; per producer at most 256 facts of the producer-signed class and 256 registry-attested
  ones per registry are held, and at most 4096 absences, one per slot; and an absence is cached for a
  lookup only when every fact of its class that the lookup found is stored.
\<close>

theorem cache_keeps_facts_within_bounds:
  assumes "cache_step\<^sup>*\<^sup>* cache_new c" "cache_step\<^sup>*\<^sup>* c c'"
  shows "prefix (facts_of c agent) (facts_of c' agent) \<and> distinct (map sf_rev (facts_of c' agent)) \<and>
    length (filter (\<lambda>f. kr_trust_class (sf_rev f) = ProducerSigned) (facts_of c' agent)) \<le> MAX_FACTS_PER_CLASS \<and>
    length (filter (\<lambda>f. kr_trust_class (sf_rev f) = RegistryAttested \<and> sf_origin f = origin) (facts_of c' agent)) \<le> MAX_FACTS_PER_CLASS \<and>
    length (ch_markers c') \<le> MAX_MARKERS \<and> distinct (map fst (ch_markers c')) \<and>
    (fresh_marker (record_success origin agent cls fs now wall c') origin agent cls freshness now' \<noteq> None \<and> f \<in> set fs \<and>
       kr_trust_class f = cls \<longrightarrow> f \<in> sf_rev ` set (facts_of (record_success origin agent cls fs now wall c') agent))"
proof -
  have inv: "cache_inv c" by (rule cache.steps_inv[OF assms(1) cache_new_inv])
  then have inv': "cache_inv c'" by (rule cache.steps_inv[OF assms(2)])
  have "prefix (facts_of c agent) (facts_of c' agent)"
    using cache.steps_grow[OF assms(2) inv] by (simp add: cache_grows_def)
  moreover note ok = facts_of_ok[OF inv', of agent False "{}"]
  then have "fs_count \<lparr>fs_facts = facts_of c' agent, fs_producer_signed_full = False, fs_attested_full = {}\<rparr> ProducerSigned origin \<le> MAX_FACTS_PER_CLASS"
    "fs_count \<lparr>fs_facts = facts_of c' agent, fs_producer_signed_full = False, fs_attested_full = {}\<rparr> RegistryAttested origin \<le> MAX_FACTS_PER_CLASS"
    by (auto simp: set_ok_def)
  ultimately show ?thesis
    using ok inv' record_marker by (auto simp: fs_count_def set_ok_def cache_inv_def)
qed

lemma cached_facts: "(r, origin) \<in> set (facts_for c agent inc v) \<Longrightarrow> r \<in> sf_rev ` set (facts_of c agent)"
  by (auto simp: facts_for_def facts_of_def split: option.splits)

lemma stored_fact_known:
  assumes "f \<in> set (facts_of c agent)" "kr_trust_class (sf_rev f) = ProducerSigned"
  shows "sourced (sf_rev f) (Cached (sf_origin f)) \<in> set (known_revocations (Some c) vantage agent policy)"
  using assms by (force simp: facts_of_def known_revocations_def facts_for_def split: option.splits)

text \<open>
  C22. A revocation once seen is never forgotten. If the cache ever held a producer-signed revocation of
  a producer's key, then every later assessment with that cache, at any registry, under any policy and
  whatever discovery answers or fails with, refuses that key for every context not placed strictly
  before the revocation's boundary; the refusal's boundary is at or before it. A registry cannot undo
  a revocation by hiding it.
\<close>

theorem seen_revocation_never_forgotten:
  assumes run: "cache_step\<^sup>*\<^sup>* cache_new c" "cache_step\<^sup>*\<^sup>* c c'"
    and seen: "(r, origin) \<in> set (facts_for c agent inc v)" "kr_trust_class r = ProducerSigned" "kr_publisher r = agent"
    and place: "\<not> placed_before pl accept (kr_compromised_since r)"
  shows "\<exists>refusal. enforce (decide (gather E (Some c') vantage agent policy outcome) (Some (kr_fingerprint r)) pl accept)
      = Inl (KeyRevoked refusal) \<and> rr_boundary refusal \<le> kr_compromised_since r"
proof -
  have inv: "cache_inv c" by (rule cache.steps_inv[OF run(1) cache_new_inv])
  then have "set (facts_of c agent) \<subseteq> set (facts_of c' agent)"
    using cache.steps_grow[OF run(2)] by (simp add: cache_grows_def set_mono_prefix)
  then obtain f where f: "f \<in> set (facts_of c' agent)" "sf_rev f = r" using cached_facts[OF seen(1)] by auto
  define q where "q = sourced r (Cached (sf_origin f))"
  let ?g = "gather E (Some c') vantage agent policy outcome"
  have "q \<in> set (known_revocations (Some c') vantage agent policy)" "speaks_for q agent"
    using stored_fact_known[OF f(1)] f(2) seen by (simp_all add: q_def speaks_for_def sourced_def)
  then have q: "q \<in> set (ga_in_scope ?g)" "sr_revoked_key_fingerprint q = kr_fingerprint r" "sr_compromised_since q = kr_compromised_since r"
    by (auto simp: gather_scope q_def sourced_def)
  then obtain p where p: "fixing_revocation (ga_in_scope ?g) (kr_fingerprint r) = Some p"
    by (cases "fixing_revocation (ga_in_scope ?g) (kr_fingerprint r)") (auto simp: fixing_None)
  have le: "sr_compromised_since p \<le> kr_compromised_since r" using fixingD(3)[OF p q(1,2)] q(3) by simp
  then have "\<not> placed_before pl accept (sr_compromised_since p)" using place placed_before_mono by blast
  then obtain effect placement where n: "named_verdict p pl accept = RV_Revoked effect (sr_compromised_since p) p placement"
      "effect \<noteq> PreCompromise"
    using named_shape by blast
  then have "ra_verdict (decide ?g (Some (kr_fingerprint r)) pl accept) = RV_Revoked effect (sr_compromised_since p) p placement"
    using p by (cases effect) (simp_all add: decide_def Let_def)
  then show ?thesis using n(2) le by (cases effect) (auto simp: enforce_def)
qed

section \<open>Witnesses\<close>

definition sample_key_revocation :: key_revocation where
  "sample_key_revocation = \<lparr>kr_fingerprint = ''fp'', kr_compromised_since = 5, kr_reason = None, kr_key_id = None,
     kr_controller = ''p'', kr_publisher = ''p'', kr_trust_class = ProducerSigned, kr_ctx_id = None\<rparr>"

definition sample_cache :: revocation_cache where
  "sample_cache = record_success ''r.example'' ''p'' ProducerSigned [sample_key_revocation] 0 0 cache_new"

lemma sample_cache_run: "cache_step\<^sup>*\<^sup>* cache_new sample_cache"
  unfolding sample_cache_def cache_step_def by (intro r_into_rtranclp exI) (rule refl)

lemma sample_cache_fact: "(sample_key_revocation, ''r.example'') \<in> set (facts_for sample_cache ''p'' False None)"
  by (simp add: sample_cache_def facts_for_def record_facts cache_new_def admit_fact_def fs_count_def MAX_FACTS_PER_CLASS_def
      sample_key_revocation_def)

theorem cache_keeps_facts_within_bounds_witness:
  "prefix (facts_of sample_cache ''p'') (facts_of sample_cache ''p'') \<and> length (ch_markers sample_cache) \<le> MAX_MARKERS \<and>
   distinct (map sf_rev (facts_of sample_cache ''p''))"
  using cache_keeps_facts_within_bounds[OF sample_cache_run rtranclp.rtrancl_refl, of "''p''"] by simp

theorem seen_revocation_never_forgotten_witness:
  "\<exists>refusal. enforce (decide (gather sample_ext (Some sample_cache) None ''p''
      \<lparr>rp_known = [], rp_discover = Some producer_signed_only, rp_accept_historical_receipt_key_for_pre_t = False\<rparr> (Inl Http))
      (Some ''fp'') (Some (7, Current)) False) = Inl (KeyRevoked refusal) \<and> rr_boundary refusal \<le> 5"
  using seen_revocation_never_forgotten[OF sample_cache_run rtranclp.rtrancl_refl sample_cache_fact, of "Some (7, Current)" False sample_ext None
      "\<lparr>rp_known = [], rp_discover = Some producer_signed_only, rp_accept_historical_receipt_key_for_pre_t = False\<rparr>" "Inl Http"]
  by (simp add: sample_key_revocation_def placed_before_def)

theorem verdict_fails_closed_witness:
  "is_ok (enforce (decide (gather sample_ext None None ''p''
      \<lparr>rp_known = [sample_key_revocation], rp_discover = None, rp_accept_historical_receipt_key_for_pre_t = False\<rparr> (Inl Http))
      (Some ''fp'') (Some (3, Current)) False))"
  unfolding verdict_fails_closed
  by (auto simp: known_revocations_def sample_key_revocation_def sourced_def placed_before_def)

end
