(* ===== verification/Acdp_Discovery_Complete.thy ===== *)
theory Acdp_Discovery_Complete
  imports Acdp_Discovery_Correct Acdp_Search_Correct Acdp_Wire_Correct Acdp_Verdict_Correct
begin

text \<open>
  Discovery against a registry that answers truthfully from its store. It may refuse or fail at any
  time; when discovery returns a result, no listed revocation is missing from it.
\<close>

section \<open>A truthful registry\<close>

definition in_window :: "instant \<Rightarrow> instant \<Rightarrow> bool" where
  "in_window now t \<longleftrightarrow> in_i64 (timestamp_millis t) \<and> timestamp_millis now \<le> timestamp_millis t \<and>
     timestamp_millis t \<le> timestamp_millis now + CURSOR_TTL_MS"

definition truthful :: "ext \<Rightarrow> net \<Rightarrow> search_env \<Rightarrow> registry_server \<Rightarrow> inner \<Rightarrow> agent_did option \<Rightarrow> instant \<Rightarrow> bool" where
  "truthful E N env srv g requester now \<longleftrightarrow>
     (\<forall>p s resp s'. client_search N p s = (Inr resp, s') \<longrightarrow>
        (\<exists>dec mint. in_window now dec \<and> in_window now mint \<and> server_search env srv p requester (now, dec, mint) g = Inr resp)) \<and>
     (\<forall>c s x s'. client_retrieve N c s = (Inr x, s') \<longrightarrow>
        (\<exists>y. retrieve srv c requester now g = Some y \<and> x = received E y)) \<and>
     (\<forall>l s xs s'. client_lineage E N l s = (Inr xs, s') \<longrightarrow> xs = map (received E) (server_lineage srv l requester now g))"

lemma window_live: "in_window now dec \<Longrightarrow> in_window now minted \<Longrightarrow>
    in_i64 (timestamp_millis minted) \<and> saturating_sub (timestamp_millis dec) (timestamp_millis minted) \<le> CURSOR_TTL_MS"
  by (auto simp: in_window_def saturating_sub_def CURSOR_TTL_MS_def)

section \<open>Folds over client operations\<close>

lemma cfold_all:
  assumes "cfold f xs a s = (Inr b, s')" and "J a"
    and step: "\<And>x a s b s'. x \<in> set xs \<Longrightarrow> J a \<Longrightarrow> f x a s = (Inr b, s') \<Longrightarrow> J b \<and> R a b \<and> Q x b"
    and refl: "\<And>a. R a a" and trans: "\<And>a b c. R a b \<Longrightarrow> R b c \<Longrightarrow> R a c"
    and mono: "\<And>x a b. Q x a \<Longrightarrow> R a b \<Longrightarrow> Q x b"
  shows "J b \<and> R a b \<and> (\<forall>x\<in>set xs. Q x b)"
  using assms(1,2) step
proof (induction xs arbitrary: a s)
  case Nil
  then show ?case by (simp add: cret_def refl)
next
  case (Cons x xs)
  then obtain a1 s1 where first: "f x a s = (Inr a1, s1)" and rest: "cfold f xs a1 s1 = (Inr b, s')"
    by (cases "f x a s") (auto simp: cbind_def split: sum.splits)
  have one: "J a1 \<and> R a a1 \<and> Q x a1" using Cons.prems(2) Cons.prems(3)[of x a s a1 s1] first by simp
  have "J b \<and> R a b \<and> Q y b" if "y \<in> set xs" "J a" "f y a s = (Inr b, s')" for y a s b s'
    using Cons.prems(3)[of y a s b s'] that by simp
  then have "J b \<and> R a1 b \<and> (\<forall>x\<in>set xs. Q x b)" using Cons.IH[OF rest] one by blast
  then show ?case using one trans mono by (metis set_ConsD)
qed

lemma cbind_ok: "cbind m f s = (Inr y, s') \<longleftrightarrow> (\<exists>x s1. m s = (Inr x, s1) \<and> f x s1 = (Inr y, s'))"
  by (cases "m s") (auto simp: cbind_def split: sum.splits)

lemma clift_ok: "clift r s = (Inr y, s') \<longleftrightarrow> r = Inr y \<and> s' = s"
  by (auto simp: clift_def)

lemma cret_ok: "cret x s = (Inr y, s') \<longleftrightarrow> y = x \<and> s' = s"
  by (auto simp: cret_def)

section \<open>Nothing seen is lost\<close>

definition listed_revocation :: "ext \<Rightarrow> web_resolver \<Rightarrow> full_context \<Rightarrow> key_revocation \<Rightarrow> bool" where
  "listed_revocation E resolve y r \<longleftrightarrow>
     \<not> is_keyless_key_id (sig_key_id (b_signature (fc_body y))) \<and> verify_revocation_context E resolve (received E y) = Inr r"

definition settled ::
  "ext \<Rightarrow> web_resolver \<Rightarrow> registry_server \<Rightarrow> inner \<Rightarrow> agent_did option \<Rightarrow> instant \<Rightarrow> (key_revocation \<Rightarrow> bool) \<Rightarrow> discovery_state \<Rightarrow> bool" where
  "settled E resolve srv g requester now keep d \<longleftrightarrow>
     (\<forall>c\<in>ds_seen d. \<forall>y r. retrieve srv c requester now g = Some y \<and> listed_revocation E resolve y r \<and> keep r \<longrightarrow>
        r \<in> set (ds_revocations d))"

definition extends :: "discovery_state \<Rightarrow> discovery_state \<Rightarrow> bool" where
  "extends d d' \<longleftrightarrow> set (ds_revocations d) \<subseteq> set (ds_revocations d') \<and> ds_seen d \<subseteq> ds_seen d' \<and>
     fst ` set (ds_lineages d) \<subseteq> fst ` set (ds_lineages d')"

lemma extends_refl [simp]: "extends d d"
  by (simp add: extends_def)

lemma extends_trans: "extends d d' \<Longrightarrow> extends d' d'' \<Longrightarrow> extends d d''"
  by (simp add: extends_def) (meson order_trans)

definition covers :: "discovery_state \<Rightarrow> lineage_id \<Rightarrow> ctx_id \<Rightarrow> bool" where
  "covers d l c \<longleftrightarrow> l \<in> fst ` set (ds_lineages d) \<and> c \<in> ds_seen d"

lemma covers_mono: "covers d l c \<Longrightarrow> extends d d' \<Longrightarrow> covers d' l c"
  unfolding covers_def extends_def by blast

lemma keep_fields [simp]:
  "ds_seen (keep_revocation keep r d) = ds_seen d" "ds_lineages (keep_revocation keep r d) = ds_lineages d"
  "ds_revocations (keep_revocation keep r d) = ds_revocations d @ (if keep r then [r] else [])"
  by (simp_all add: keep_revocation_def)

lemma received_body [simp]: "fc_body (received E y) = fc_body y"
  by (simp add: received_def)

lemma judge_listed:
  assumes "listed_revocation E resolve y r"
  shows "judge_candidate E N resolve (received E y) s = (Inr (Some r), s)"
  using assms
  by (auto simp: listed_revocation_def judge_candidate_def verify_revocation_candidate_def verify_revocation_context_def
      rbind_eq_Inr cbind_def cret_def clift_def)

lemma visit_settles:
  assumes truthful: "truthful E N env srv g requester now" and settled: "settled E resolve srv g requester now keep d"
    and run: "visit_match E N resolve keep m d s = (Inr d', s')"
  shows "settled E resolve srv g requester now keep d' \<and> extends d d' \<and>
    covers d' (sres_lineage_id m) (sres_ctx_id m)"
proof -
  let ?d = "note_lineage m d"
  have noted: "settled E resolve srv g requester now keep ?d" "extends d ?d" "sres_lineage_id m \<in> fst ` set (ds_lineages ?d)"
    using settled by (auto simp: note_lineage_def settled_def extends_def)
  show ?thesis
  proof (cases "sres_ctx_id m \<in> ds_seen ?d")
    case True
    then show ?thesis using run noted by (simp add: visit_match_def Let_def cret_ok covers_def)
  next
    case False
    let ?e = "?d\<lparr>ds_seen := insert (sres_ctx_id m) (ds_seen ?d)\<rparr>"
    obtain ctx s1 where got: "client_retrieve N (sres_ctx_id m) s = (Inr ctx, s1)"
      and rest: "(if is_keyless_key_id (sig_key_id (b_signature (fc_body ctx)))
          then cret (?e\<lparr>ds_deferred := ds_deferred ?e @ [ctx]\<rparr>)
          else cbind (judge_candidate E N resolve ctx) (\<lambda>j. cret
            (case j of Some r \<Rightarrow> keep_revocation keep r ?e | None \<Rightarrow> ?e))) s1 = (Inr d', s')"
      using run False by (auto simp: visit_match_def Let_def cbind_ok)
    obtain y where y: "retrieve srv (sres_ctx_id m) requester now g = Some y" "ctx = received E y"
      using truthful got unfolding truthful_def by blast
    have grow: "extends ?d d'" "ds_seen d' = insert (sres_ctx_id m) (ds_seen ?d)" "ds_lineages d' = ds_lineages ?d"
      using rest by (auto simp: cbind_ok cret_ok extends_def split: if_splits option.splits)
    have "r \<in> set (ds_revocations d')" if "listed_revocation E resolve y r" "keep r" for r
      using rest judge_listed[OF that(1), of N s1] that y(2)
      by (auto simp: cbind_ok cret_ok listed_revocation_def split: if_splits)
    then have "settled E resolve srv g requester now keep d'"
      using noted(1) grow y(1) unfolding settled_def extends_def by auto
    then show ?thesis using noted(3) grow extends_trans[OF noted(2) grow(1)] by (simp add: covers_def)
  qed
qed

lemma visits_settle:
  assumes "truthful E N env srv g requester now" and "settled E resolve srv g requester now keep d"
    and "cfold (visit_match E N resolve keep) ms d s = (Inr d', s')"
  shows "settled E resolve srv g requester now keep d' \<and> extends d d' \<and>
    (\<forall>m\<in>set ms. covers d' (sres_lineage_id m) (sres_ctx_id m))"
proof (rule cfold_all[where J = "settled E resolve srv g requester now keep" and R = extends, OF assms(3,2)])
  show "settled E resolve srv g requester now keep b \<and> extends a b \<and>
      covers b (sres_lineage_id x) (sres_ctx_id x)"
    if "settled E resolve srv g requester now keep a" "visit_match E N resolve keep x a s = (Inr b, s')" for x a s b s'
    using visit_settles[OF assms(1) that] .
qed (auto intro: extends_trans covers_mono)

lemma pages_settle:
  assumes truthful: "truthful E N env srv g requester now"
    and inv: "store_inv sha256 g" "keys_ok g" "texts_ok g" and env: "b64_roundtrip env"
    and df: "parse_date_filters env p = Inr df"
    and M: "M = search_matches env p df requester (cap_anonymous_public_reads (srv_caps srv)) now g"
  shows "search_pages n E N resolve keep (p\<lparr>sp_cursor := cursor_at env m0 M k\<rparr>) d s = (Inr d', s') \<Longrightarrow>
    k \<le> length M \<Longrightarrow> k = 0 \<or> in_window now m0 \<Longrightarrow> settled E resolve srv g requester now keep d \<Longrightarrow>
    settled E resolve srv g requester now keep d' \<and> extends d d' \<and>
    (\<forall>x\<in>set (drop k M). covers d' (b_lineage_id (fc_body x)) (b_ctx_id (fc_body x)))"
proof (induction n arbitrary: m0 k d s)
  case 0
  then show ?case by (simp add: clift_def)
next
  case (Suc n)
  let ?lim = "effective_limit p"
  obtain resp s1 d1 s2 where search: "client_search N (p\<lparr>sp_cursor := cursor_at env m0 M k\<rparr>) s = (Inr resp, s1)"
    and visits: "cfold (visit_match E N resolve keep) (sresp_matches resp) d s1 = (Inr d1, s2)"
    and rest: "(case sresp_next_cursor resp of
        Some cursor \<Rightarrow> search_pages n E N resolve keep (p\<lparr>sp_cursor := Some cursor\<rparr>) d1
      | None \<Rightarrow> cret d1) s2 = (Inr d', s')"
    using Suc.prems(1) by (auto simp: cbind_ok cong: option.case_cong)
  obtain dec minted where clocks: "in_window now dec" "in_window now minted"
    and answer: "server_search env srv (p\<lparr>sp_cursor := cursor_at env m0 M k\<rparr>) requester (now, dec, minted) g = Inr resp"
    using truthful search unfolding truthful_def by blast
  have live: "k = 0 \<or> in_i64 (timestamp_millis m0) \<and>
      saturating_sub (timestamp_millis dec) (timestamp_millis m0) \<le> CURSOR_TTL_MS"
    using Suc.prems(3) clocks(1) window_live by blast
  have resp: "resp = \<lparr>sresp_matches = map (project_result now) (take ?lim (drop k M)),
      sresp_total_estimate = Some (word_of_nat (length M)),
      sresp_next_cursor = (if k + ?lim < length M then cursor_at env minted M (k + ?lim) else None)\<rparr>"
    using answer search_page[OF inv env df M Suc.prems(2) live, where mint = minted]
    by (auto simp: server_search_def rbind_eq_Inr)
  have page: "settled E resolve srv g requester now keep d1 \<and> extends d d1 \<and>
      (\<forall>x\<in>set (take ?lim (drop k M)). covers d1 (b_lineage_id (fc_body x)) (b_ctx_id (fc_body x)))"
    using visits_settle[OF truthful Suc.prems(4) visits] by (simp add: resp project_result_def)
  show ?case
  proof (cases "k + ?lim < length M")
    case True
    then have "search_pages n E N resolve keep (p\<lparr>sp_cursor := cursor_at env minted M (k + ?lim)\<rparr>) d1 s2 = (Inr d', s')"
      using rest by (auto simp: resp cursor_at_def effective_limit_def)
    then have more: "settled E resolve srv g requester now keep d' \<and> extends d1 d' \<and>
        (\<forall>x\<in>set (drop (k + ?lim) M). covers d' (b_lineage_id (fc_body x)) (b_ctx_id (fc_body x)))"
      using Suc.IH True clocks(2) page by auto
    have "set (drop k M) = set (take ?lim (drop k M)) \<union> set (drop (k + ?lim) M)"
      by (metis add.commute append_take_drop_id drop_drop set_append)
    moreover have "extends d d'" using page more extends_trans by blast
    moreover have "covers d' (b_lineage_id (fc_body x)) (b_ctx_id (fc_body x))" if "x \<in> set (take ?lim (drop k M))" for x
      using page more that covers_mono by blast
    ultimately show ?thesis using more by blast
  next
    case False
    then show ?thesis using rest page by (simp add: resp cret_ok)
  qed
qed

lemma passes_settle:
  assumes truthful: "truthful E N env srv g requester now"
    and inv: "store_inv sha256 g" "keys_ok g" "texts_ok g" and env: "b64_roundtrip env"
    and settled: "settled E resolve srv g requester now keep d"
    and run: "cfold (\<lambda>pass. search_pages n E N resolve keep (revocation_search agent pass)) passes d s = (Inr d', s')"
    and df: "\<And>pass. parse_date_filters env (revocation_search agent pass) = Inr df"
  shows "settled E resolve srv g requester now keep d' \<and> extends d d' \<and>
    (\<forall>pass\<in>set passes. \<forall>x\<in>set (search_matches env (revocation_search agent pass) df requester
        (cap_anonymous_public_reads (srv_caps srv)) now g). covers d' (b_lineage_id (fc_body x)) (b_ctx_id (fc_body x)))"
proof (rule cfold_all[where J = "settled E resolve srv g requester now keep" and R = extends, OF run settled])
  fix pass a s b s'
  assume "settled E resolve srv g requester now keep a"
    and pages: "search_pages n E N resolve keep (revocation_search agent pass) a s = (Inr b, s')"
  moreover have "(revocation_search agent pass)\<lparr>sp_cursor := cursor_at env m0 M 0\<rparr> = revocation_search agent pass" for m0 M
    by (cases pass) (simp add: revocation_search_def cursor_at_def)
  ultimately show "settled E resolve srv g requester now keep b \<and> extends a b \<and>
      (\<forall>x\<in>set (search_matches env (revocation_search agent pass) df requester
          (cap_anonymous_public_reads (srv_caps srv)) now g). covers b (b_lineage_id (fc_body x)) (b_ctx_id (fc_body x)))"
    using pages_settle[OF truthful inv env df[of pass] refl, where k = 0 and d = a and d' = b and s = s and s' = s' and n = n and
        keep = keep and resolve = resolve] by simp
qed (auto intro: extends_trans covers_mono)

section \<open>Walks\<close>

lemma member_retrieved:
  assumes "store_inv sha256 g" "y \<in> set (server_lineage srv l requester now g)"
  shows "retrieve srv (b_ctx_id (fc_body y)) requester now g = Some y"
proof -
  obtain i x where x: "ctx_at g i = Some x" "y = project_context x now" "can_retrieve (fc_body y) requester (srv_caps srv)"
    using assms(2) by (auto simp: server_lineage_def store_lineage_def map_filter_def split: option.splits)
  then have "b_ctx_id (fc_body y) = i"
    using store_inv_contextD[OF assms(1)] by (auto simp: project_context_def context_ok_def)
  then show ?thesis using x by (simp add: retrieve_def store_get_def)
qed

definition walk_sound :: "ext \<Rightarrow> web_resolver \<Rightarrow> full_context set \<Rightarrow> walked \<Rightarrow> bool" where
  "walk_sound E resolve L w \<longleftrightarrow>
     (\<forall>(c, r)\<in>set (wk_verified w). \<exists>y\<in>L. b_ctx_id (fc_body y) = c \<and> (\<forall>r'. listed_revocation E resolve y r' \<longrightarrow> r' = r)) \<and>
     (\<forall>ctx\<in>set (wk_deferred w). \<exists>y\<in>L. ctx = received E y \<and> is_keyless_key_id (sig_key_id (b_signature (fc_body y))))"

lemma member_walked:
  assumes "y \<in> L" "walk_sound E resolve L w" "walk_member E N resolve (received E y) w s = (Inr w', s')"
  shows "walk_sound E resolve L w' \<and> set (wk_verified w) \<subseteq> set (wk_verified w') \<and>
    (\<forall>r. listed_revocation E resolve y r \<longrightarrow> (b_ctx_id (fc_body y), r) \<in> set (wk_verified w'))"
proof (cases "is_keyless_key_id (sig_key_id (b_signature (fc_body y)))")
  case True
  then show ?thesis
    using assms by (auto simp: walk_member_def cret_ok walk_sound_def listed_revocation_def)
next
  case False
  obtain j where j: "judge_candidate E N resolve (received E y) s = (Inr j, s')"
    and w': "w' = (case j of Some r \<Rightarrow> w\<lparr>wk_verified := wk_verified w @ [(b_ctx_id (fc_body y), r)]\<rparr> | None \<Rightarrow> w)"
    using assms(3) False by (auto simp: walk_member_def cbind_ok cret_ok cong: option.case_cong)
  have "j = Some r" if "listed_revocation E resolve y r" for r
    using judge_listed[OF that, of N s] j by simp
  then show ?thesis using assms(1,2) w' by (auto simp: walk_sound_def split: option.splits)
qed

lemma members_walked:
  assumes "cfold (walk_member E N resolve) (map (received E) ys) \<lparr>wk_verified = [], wk_deferred = []\<rparr> s = (Inr w, s')"
  shows "walk_sound E resolve (set ys) w \<and>
    (\<forall>y\<in>set ys. \<forall>r. listed_revocation E resolve y r \<longrightarrow> (b_ctx_id (fc_body y), r) \<in> set (wk_verified w))"
proof -
  have "walk_sound E resolve L w0 \<Longrightarrow> set ys \<subseteq> L \<Longrightarrow> cfold (walk_member E N resolve) (map (received E) ys) w0 s = (Inr w, s') \<Longrightarrow>
      walk_sound E resolve L w \<and> set (wk_verified w0) \<subseteq> set (wk_verified w) \<and>
      (\<forall>y\<in>set ys. \<forall>r. listed_revocation E resolve y r \<longrightarrow> (b_ctx_id (fc_body y), r) \<in> set (wk_verified w))" for L w0 s
  proof (induction ys arbitrary: w0 s)
    case (Cons y ys)
    obtain w1 s1 where first: "walk_member E N resolve (received E y) w0 s = (Inr w1, s1)"
      and rest: "cfold (walk_member E N resolve) (map (received E) ys) w1 s1 = (Inr w, s')"
      using Cons.prems(3) by (auto simp: cbind_ok)
    have "y \<in> L" using Cons.prems(2) by simp
    note one = member_walked[OF this Cons.prems(1) first]
    show ?case using Cons.IH[of w1 s1] one rest Cons.prems(2) by auto
  qed (simp add: cret_ok)
  from this[of "set ys", OF _ subset_refl assms] show ?thesis by (simp add: walk_sound_def)
qed

lemma absorb_settles:
  assumes settled: "settled E resolve srv g requester now keep d"
    and entry: "\<And>y r'. retrieve srv c requester now g = Some y \<Longrightarrow> listed_revocation E resolve y r' \<Longrightarrow> r' = r"
  shows "settled E resolve srv g requester now keep (absorb_verified keep (c, r) d) \<and>
    extends d (absorb_verified keep (c, r) d) \<and> c \<in> ds_seen (absorb_verified keep (c, r) d)"
  using assms by (auto simp: absorb_verified_def settled_def extends_def)

lemma absorb_all_settles:
  assumes "settled E resolve srv g requester now keep d"
    and "\<And>c r y r'. (c, r) \<in> set vs \<Longrightarrow> retrieve srv c requester now g = Some y \<Longrightarrow> listed_revocation E resolve y r' \<Longrightarrow> r' = r"
  shows "settled E resolve srv g requester now keep (fold (absorb_verified keep) vs d) \<and>
    extends d (fold (absorb_verified keep) vs d) \<and> fst ` set vs \<subseteq> ds_seen (fold (absorb_verified keep) vs d)"
  using assms
proof (induction vs arbitrary: d)
  case (Cons v vs)
  obtain c r where v: "v = (c, r)" by (cases v)
  let ?d = "absorb_verified keep v d"
  have one: "settled E resolve srv g requester now keep ?d \<and> extends d ?d \<and> c \<in> ds_seen ?d"
    using absorb_settles[OF Cons.prems(1), of c r] Cons.prems(2)[of c r] v by simp
  have rest: "settled E resolve srv g requester now keep (fold (absorb_verified keep) vs ?d) \<and>
      extends ?d (fold (absorb_verified keep) vs ?d) \<and> fst ` set vs \<subseteq> ds_seen (fold (absorb_verified keep) vs ?d)"
  proof (rule Cons.IH)
    show "r' = r" if "(c, r) \<in> set vs" "retrieve srv c requester now g = Some y" "listed_revocation E resolve y r'" for c r y r'
      using Cons.prems(2)[of c r y r'] that by simp
  qed (use one in simp)
  then have "c \<in> ds_seen (fold (absorb_verified keep) vs ?d)" using one by (auto simp: extends_def)
  then show ?case using one rest v extends_trans[of d ?d] by simp
qed simp

lemma absorb_deferred_settles:
  assumes "settled E resolve srv g requester now keep d"
    and "\<And>ctx y r. ctx \<in> set cs \<Longrightarrow> retrieve srv (b_ctx_id (fc_body ctx)) requester now g = Some y \<Longrightarrow> \<not> listed_revocation E resolve y r"
  shows "settled E resolve srv g requester now keep (fold absorb_deferred cs d) \<and> extends d (fold absorb_deferred cs d)"
  using assms
proof (induction cs arbitrary: d)
  case (Cons ctx cs)
  let ?d = "absorb_deferred ctx d"
  have one: "settled E resolve srv g requester now keep ?d \<and> extends d ?d"
    using Cons.prems by (auto simp: absorb_deferred_def settled_def extends_def Let_def)
  have "settled E resolve srv g requester now keep (fold absorb_deferred cs ?d) \<and> extends ?d (fold absorb_deferred cs ?d)"
  proof (rule Cons.IH)
    show "\<not> listed_revocation E resolve y r"
      if "x \<in> set cs" "retrieve srv (b_ctx_id (fc_body x)) requester now g = Some y" for x y r
      using Cons.prems(2)[of x y r] that by simp
  qed (use one in simp)
  then show ?case using one extends_trans[of d ?d] by simp
qed simp

lemma walk_settles:
  assumes truthful: "truthful E N env srv g requester now" and inv: "store_inv sha256 g"
    and settled: "settled E resolve srv g requester now keep d"
    and run: "walk_lineage E N resolve keep (l, expected) d s = (Inr d', s')"
  shows "settled E resolve srv g requester now keep d' \<and> extends d d' \<and>
    (\<forall>y\<in>set (server_lineage srv l requester now g). \<forall>r. listed_revocation E resolve y r \<and> keep r \<longrightarrow> r \<in> set (ds_revocations d'))"
proof -
  let ?L = "server_lineage srv l requester now g"
  obtain w s1 where walk: "walk_revocation_lineage E N resolve l (Some expected) s = (Inr w, s1)"
    and d': "d' = fold (absorb_verified keep) (wk_verified w) (fold absorb_deferred (wk_deferred w) d)"
    using run by (auto simp: walk_lineage_def cbind_ok cret_ok)
  obtain members s2 s3 where "client_lineage E N l s = (Inr members, s2)"
    and fold: "cfold (walk_member E N resolve) members \<lparr>wk_verified = [], wk_deferred = []\<rparr> s3 = (Inr w, s1)"
    using walk by (auto simp: walk_revocation_lineage_def cbind_ok)
  then have "members = map (received E) ?L" using truthful unfolding truthful_def by blast
  with fold have sound: "walk_sound E resolve (set ?L) w"
    and all: "\<forall>y\<in>set ?L. \<forall>r. listed_revocation E resolve y r \<longrightarrow> (b_ctx_id (fc_body y), r) \<in> set (wk_verified w)"
    using members_walked by blast+
  note same = member_retrieved[OF inv, of _ srv l requester now]
  let ?d = "fold absorb_deferred (wk_deferred w) d"
  have deferred: "settled E resolve srv g requester now keep ?d \<and> extends d ?d"
    by (rule absorb_deferred_settles[OF settled]) (use sound same in \<open>fastforce simp: walk_sound_def listed_revocation_def\<close>)
  have absorbed: "settled E resolve srv g requester now keep d' \<and> extends ?d d' \<and> fst ` set (wk_verified w) \<subseteq> ds_seen d'"
    unfolding d' by (rule absorb_all_settles) (use deferred sound same in \<open>fastforce simp: walk_sound_def\<close>)+
  have "r \<in> set (ds_revocations d')" if "y \<in> set ?L" "listed_revocation E resolve y r" "keep r" for y r
  proof -
    have "b_ctx_id (fc_body y) \<in> ds_seen d'" using all absorbed that by force
    then show ?thesis using absorbed same[OF that(1)] that(2,3) by (auto simp: settled_def)
  qed
  then show ?thesis using deferred absorbed extends_trans by blast
qed

section \<open>Completeness\<close>

text \<open>A context that a search for revocations of \<open>agent\<close> can list.\<close>

definition searchable :: "agent_did \<Rightarrow> instant \<Rightarrow> full_context \<Rightarrow> bool" where
  "searchable agent now x \<longleftrightarrow>
     b_agent_id (fc_body x) = agent \<and> b_visibility (fc_body x) = Public \<and>
     context_type_serialize (b_context_type (fc_body x)) \<in> {''key-revocation'', ''acdp:key-revocation''} \<and>
     project_status (fc_registry_state x) (fc_body x) now \<in> {Active, Superseded, Retracted}"

lemma searchable_hit:
  assumes "searchable agent now x" "requester \<noteq> None \<or> anon"
  shows "\<exists>pass\<in>set search_passes. search_hit env (revocation_search agent pass)
    \<lparr>df_created_after = None, df_created_before = None, df_dp_start_after = None, df_dp_end_before = None,
     df_expires_after = None, df_expires_before = None\<rparr> requester anon now x"
proof -
  let ?pass = "(context_type_serialize (b_context_type (fc_body x)),
      status_as_str (project_status (fc_registry_state x) (fc_body x) now))"
  have "?pass \<in> set search_passes" using assms(1) by (auto simp: search_passes_def searchable_def)
  moreover have "search_hit env (revocation_search agent ?pass)
      \<lparr>df_created_after = None, df_created_before = None, df_dp_start_after = None, df_dp_end_before = None,
       df_expires_after = None, df_expires_before = None\<rparr> requester anon now x"
    using assms by (auto simp: search_hit_def searchable_def can_surface_in_search_def matches_text_def matches_dates_def
        opt_all_def revocation_search_def)
  ultimately show ?thesis by blast
qed

lemma discover_complete:
  assumes truthful: "truthful E N env srv g requester now" and inv: "store_inv sha256 g" "keys_ok g" "texts_ok g"
    and env: "b64_roundtrip env" and anon: "requester \<noteq> None \<or> cap_anonymous_public_reads (srv_caps srv)"
    and x: "ctx_at g c = Some x" "searchable agent now x"
    and y: "y \<in> set (server_lineage srv (b_lineage_id (fc_body x)) requester now g)" "listed_revocation E resolve y r" "keep r"
    and run: "discover_revocations E N resolve agent keep s = (Inr (rs, ds), s')"
  shows "r \<in> set rs"
proof -
  let ?df = "\<lparr>df_created_after = None, df_created_before = None, df_dp_start_after = None, df_dp_end_before = None,
     df_expires_after = None, df_expires_before = None\<rparr>"
  have df: "parse_date_filters env (revocation_search agent pass) = Inr ?df" for pass
    by (cases pass) (simp add: parse_date_filters_def parse_opt_rfc3339_def revocation_search_def)
  let ?d0 = "\<lparr>ds_revocations = [], ds_deferred = [], ds_seen = {}, ds_lineages = []\<rparr>"
  obtain d1 s1 s2 d2 where
    search: "cfold (\<lambda>pass. search_pages MAX_SEARCH_PAGES E N resolve keep (revocation_search agent pass)) search_passes ?d0 s = (Inr d1, s1)"
    and walk: "cfold (walk_lineage E N resolve keep) (ds_lineages d1) d1 s2 = (Inr d2, s')" and rs: "rs = ds_revocations d2"
    using run by (auto simp: discover_revocations_def cbind_ok cret_ok)
  have found: "settled E resolve srv g requester now keep d1 \<and> extends ?d0 d1 \<and>
      (\<forall>pass\<in>set search_passes. \<forall>x\<in>set (search_matches env (revocation_search agent pass) ?df requester
        (cap_anonymous_public_reads (srv_caps srv)) now g). covers d1 (b_lineage_id (fc_body x)) (b_ctx_id (fc_body x)))"
    by (rule passes_settle[OF truthful inv env _ search df]) (simp add: settled_def)
  obtain pass where "pass \<in> set search_passes"
    "x \<in> set (search_matches env (revocation_search agent pass) ?df requester (cap_anonymous_public_reads (srv_caps srv)) now g)"
    using searchable_hit[OF x(2) anon] x(1) unfolding set_search_matches[OF inv(2)] by blast
  then have "b_lineage_id (fc_body x) \<in> fst ` set (ds_lineages d1)" using found by (auto simp: covers_def)
  then obtain expected where l: "(b_lineage_id (fc_body x), expected) \<in> set (ds_lineages d1)" by force
  let ?Q = "\<lambda>(l, expected) d. \<forall>y\<in>set (server_lineage srv l requester now g).
      \<forall>r. listed_revocation E resolve y r \<and> keep r \<longrightarrow> r \<in> set (ds_revocations d)"
  have "settled E resolve srv g requester now keep d2 \<and> extends d1 d2 \<and> (\<forall>le\<in>set (ds_lineages d1). ?Q le d2)"
  proof (rule cfold_all[where J = "settled E resolve srv g requester now keep" and R = extends, OF walk])
    show "settled E resolve srv g requester now keep b \<and> extends a b \<and> ?Q le b"
      if "settled E resolve srv g requester now keep a" "walk_lineage E N resolve keep le a s = (Inr b, s')" for le a s b s'
      using walk_settles[OF truthful inv(1) that(1)] that(2) by (cases le) simp
    show "?Q le b" if "?Q le a" "extends a b" for le a b
      using that by (cases le) (auto simp: extends_def)
  qed (use found in \<open>auto intro: extends_trans\<close>)
  then show ?thesis using l y rs by fastforce
qed

lemma lookup_complete:
  assumes "truthful E N env srv g requester now" "reachable sha256 g" "texts_ok g" "b64_roundtrip env"
    and "requester \<noteq> None \<or> cap_anonymous_public_reads (srv_caps srv)"
    and "ctx_at g c = Some x" "searchable agent now x"
    and "y \<in> set (server_lineage srv (b_lineage_id (fc_body x)) requester now g)" "listed_revocation E resolve y r" "keeps_signed agent r"
    and "marker_lookup N agent ProducerSigned s = None" "find_revocations_lookup E N resolve agent s = (Inr l, s')"
  shows "r \<in> set (lk_revocations l)"
proof -
  have "agent_did_parse agent = Inr agent"
    using assms(12) by (auto simp: find_revocations_lookup_def cbind_ok clift_ok dest: agent_did_parse_same)
  then obtain rs ds s1 where "discover_revocations E N resolve agent (keeps_signed agent) s = (Inr (rs, ds), s1)" "lk_revocations l = rs"
    using assms(11,12) by (auto simp: find_revocations_lookup_def cbind_ok clift_ok cret_ok lookup_live_def)
  then show ?thesis
    using discover_complete[where keep = "keeps_signed agent", OF assms(1) reachable_inv[OF assms(2)] reachable_keys[OF assms(2)]
        assms(3-10)] by simp
qed

lemma signed_speaks: "keeps_signed agent r \<Longrightarrow> speaks_for (sourced r src) agent"
  by (simp add: keeps_signed_def speaks_for_def sourced_def)

text \<open>
  A revocation a registry lists binds every consumer that consults this registry. Take any
  revocation of a lineage with a searchable member in the store of a registry that answers
  truthfully, though it may refuse or fail at will. If a consumer whose policy discovers and fails
  closed accepts a context signed by the revoked key, then a receipt places that context strictly
  before the compromise. Superseded, retracted and expired members of the lineage bind alike.
\<close>

theorem stored_revocation_enforced:
  assumes registry: "truthful E N env srv g requester now" "reachable sha256 g" "texts_ok g" "b64_roundtrip env"
      "requester \<noteq> None \<or> cap_anonymous_public_reads (srv_caps srv)"
    and listed: "ctx_at g c = Some x" "searchable agent now x"
    and revocation: "y \<in> set (server_lineage srv (b_lineage_id (fc_body x)) requester now g)"
      "listed_revocation E resolve y r" "keeps_signed agent r"
    and policy: "rp_discover policy = Some d" "rd_on_failure d = FailClosed"
    and consulted: "marker_lookup N agent ProducerSigned s = None"
      "run = Inl e \<or> (run = Inr (l, attested) \<and> find_revocations_lookup E N resolve agent s = (Inr l, s'))"
    and passed: "is_ok (enforce (decide (gather E cache vantage agent policy run) (Some (kr_fingerprint r)) pl accept))"
  shows "placed_before pl accept (kr_compromised_since r)"
proof -
  let ?g = "gather E cache vantage agent policy run"
  note ok = passed[unfolded enforce_ok[OF gather_typed] gather_undecided gather_on_failure]
  then have "run \<noteq> Inl e" using policy by auto
  then have run: "run = Inr (l, attested)" and "find_revocations_lookup E N resolve agent s = (Inr l, s')"
    using consulted(2) by auto
  then have "r \<in> set (lk_revocations l)"
    using lookup_complete[OF registry listed revocation consulted(1)] by blast
  then have "sourced r (Discovered (case vantage of None \<Rightarrow> [] | Some v \<Rightarrow> v)) \<in> set (ga_in_scope ?g)"
    using run policy(1) signed_speaks[OF revocation(3)] by (auto simp: gather_scope discovered_revocations_def)
  moreover have "sr_revoked_key_fingerprint (sourced r src) = kr_fingerprint r" "sr_compromised_since (sourced r src) = kr_compromised_since r" for src
    by (simp_all add: sourced_def)
  ultimately show ?thesis using ok unfolding decide_refusal by metis
qed

section \<open>A gap: expired revocations\<close>

lemma charged_unbudgeted: "charged s s' \<Longrightarrow> cl_budget s = None \<Longrightarrow> cl_budget s' = None"
  by (auto simp: charged_def check_discovery_budget_def)

definition only_expired :: "inner \<Rightarrow> agent_did \<Rightarrow> instant \<Rightarrow> bool" where
  "only_expired g agent now \<longleftrightarrow>
     (\<forall>c x. ctx_at g c = Some x \<and> b_agent_id (fc_body x) = agent \<and>
        context_type_serialize (b_context_type (fc_body x)) \<in> {''key-revocation'', ''acdp:key-revocation''} \<longrightarrow>
        project_status (fc_registry_state x) (fc_body x) now = Expired)"

lemma pass_finds_nothing:
  assumes truthful: "truthful E N env srv g requester now" and keys: "keys_ok g" and expired: "only_expired g agent now"
    and pass: "pass \<in> set search_passes" and search: "client_search N (revocation_search agent pass) s = (Inr resp, s')"
  shows "sresp_matches resp = [] \<and> sresp_next_cursor resp = None"
proof -
  let ?df = "\<lparr>df_created_after = None, df_created_before = None, df_dp_start_after = None, df_dp_end_before = None,
     df_expires_after = None, df_expires_before = None\<rparr>"
  have df: "parse_date_filters env (revocation_search agent pass) = Inr ?df"
    by (cases pass) (simp add: parse_date_filters_def parse_opt_rfc3339_def revocation_search_def)
  have "\<not> search_hit env (revocation_search agent pass) ?df requester anon now x" if "ctx_at g c = Some x" for c x anon
    using expired that pass
    by (auto simp: only_expired_def search_hit_def matches_text_def revocation_search_def opt_all_def search_passes_def)
  then have empty: "search_matches env (revocation_search agent pass) ?df requester anon now g = []" for anon
    using set_search_matches[OF keys, of env "revocation_search agent pass" ?df requester anon now] by (simp flip: set_empty) blast
  obtain dec minted where "server_search env srv (revocation_search agent pass) requester (now, dec, minted) g = Inr resp"
    using truthful search unfolding truthful_def by blast
  moreover have "sp_cursor (revocation_search agent pass) = None" by (cases pass) (simp add: revocation_search_def)
  ultimately show ?thesis by (auto simp: server_search_def rbind_eq_Inr store_search_def df empty Let_def)
qed

text \<open>
  C40. Expired revocations fall out of discovery. The searches ask for active, superseded and retracted
  contexts only, so when every revocation of a producer in the store has expired, a lookup at a
  registry that answers every search truthfully succeeds and is empty, as if no key were revoked. Nothing in publishing or parsing keeps a revocation from carrying an expiry,
  although revocations are meant to be permanent.
\<close>

theorem expired_revocations_undiscovered:
  assumes truthful: "truthful E N env srv g requester now" and store: "reachable sha256 g" and expired: "only_expired g agent now"
    and answers: "\<And>pass s. pass \<in> set search_passes \<Longrightarrow> cl_budget s = None \<Longrightarrow> is_ok (fst (client_search N (revocation_search agent pass) s))"
    and agent: "agent_did_parse agent = Inr agent" and client: "cl_budget s = None" "marker_lookup N agent ProducerSigned s = None"
  shows "fst (find_revocations_lookup E N resolve agent s) = Inr (lookup_live [] [])"
proof -
  let ?keep = "keeps_signed agent"
  have one: "\<exists>s1. search_pages (Suc n) E N resolve ?keep (revocation_search agent pass) d s = (Inr d, s1) \<and> cl_budget s1 = None"
    if pass: "pass \<in> set search_passes" "cl_budget s = None" for pass d s n
  proof -
    obtain resp s1 where search: "client_search N (revocation_search agent pass) s = (Inr resp, s1)"
      using answers[OF pass] by (cases "client_search N (revocation_search agent pass) s") (auto simp: is_ok_iff)
    moreover note pass_finds_nothing[OF truthful reachable_keys[OF store] expired pass(1) search]
    moreover have "cl_budget s1 = None"
      using charged_unbudgeted[OF search_charged pass(2), of N "revocation_search agent pass"] search by simp
    ultimately show ?thesis by (simp add: cbind_def cret_def)
  qed
  have "\<exists>s1. cfold (\<lambda>pass. search_pages (Suc n) E N resolve ?keep (revocation_search agent pass)) ps d s = (Inr d, s1)"
    if "set ps \<subseteq> set search_passes" "cl_budget s = None" for ps d s n
    using that
  proof (induction ps arbitrary: s)
    case (Cons p ps)
    then show ?case using one[of p s n d] by (auto simp: cbind_def simp del: search_pages.simps)
  qed (simp add: cret_def)
  from this[OF subset_refl client(1), of 9] obtain s1 where
    "cfold (\<lambda>pass. search_pages MAX_SEARCH_PAGES E N resolve ?keep (revocation_search agent pass)) search_passes
       \<lparr>ds_revocations = [], ds_deferred = [], ds_seen = {}, ds_lineages = []\<rparr> s =
       (Inr \<lparr>ds_revocations = [], ds_deferred = [], ds_seen = {}, ds_lineages = []\<rparr>, s1)"
    by (auto simp: MAX_SEARCH_PAGES_def eval_nat_numeral simp del: search_pages.simps)
  then have "discover_revocations E N resolve agent ?keep s = (Inr ([], []), s1)"
    by (simp add: discover_revocations_def cbind_def clift_def cret_def)
  then show ?thesis using agent client(2) by (simp add: find_revocations_lookup_def cbind_def clift_def cret_def record_lookup_def)
qed

section \<open>Witnesses\<close>

text \<open>A registry holding one revocation, with or without an expiry, and a network that serves it.\<close>

text \<open>Two keys with different fingerprints: the one in \<open>did:key:zA\<close> and the revoked one in \<open>did:key:zB\<close>.\<close>

definition rv_ext :: ext where
  "rv_ext = sample_ext\<lparr>x_sha256 := \<lambda>bs. if bs = replicate 32 1 then replicate 32 0xaa else replicate 32 0,
     x_bs58_decode := \<lambda>s. Some ([0xed, 0x01] @ replicate 32 (if s = ''B'' then 1 else 0))\<rparr>"

lemma rv_ext_same [simp]:
  "x_sci rv_ext = x_sci sample_ext" "length (x_sha256 rv_ext bs) = 32"
  by (simp_all add: rv_ext_def)

definition rv_request :: "instant option \<Rightarrow> publish_request" where
  "rv_request e = (sample_revocation None 1)\<lparr>pr_expires_at := e\<rparr>"

definition rv_lineage :: lineage_id where
  "rv_lineage = derive_lineage_id (x_sha256 rv_ext) sample_ctx"

definition rv_context :: "instant option \<Rightarrow> full_context" where
  "rv_context e = fresh_context (from_publish_request (rv_request e) sample_ctx rv_lineage ''r.example'' 0) None"

definition rv_store :: "instant option \<Rightarrow> inner" where
  "rv_store e = push_lineage rv_lineage sample_ctx (insert_ctx sample_ctx (rv_context e) new_store)"

definition rv_served :: "instant option \<Rightarrow> full_context" where
  "rv_served e = project_context (rv_context e) 0"

definition rv_agent :: agent_did where
  "rv_agent = ''did:key:zA''"

definition rv_page :: "full_context list \<Rightarrow> search_response" where
  "rv_page xs = \<lparr>sresp_matches = map (project_result 0) xs, sresp_total_estimate = Some (word_of_nat (length xs)), sresp_next_cursor = None\<rparr>"

definition rv_ok :: "u8 \<Rightarrow> http_response acdp_result" where
  "rv_ok b = Inr \<lparr>hr_status = 200, hr_content_length = None, hr_chunks = [Inr [b]], hr_retry_after = None, hr_cache_control = None,
     hr_etag = None, hr_last_modified = None\<rparr>"

definition rv_answer :: "instant option \<Rightarrow> request \<Rightarrow> http_response acdp_result" where
  "rv_answer e req =
     (case req of
        GetSearch p \<Rightarrow>
          if p = revocation_search rv_agent (''key-revocation'', ''active'') \<and> e = None then rv_ok 1
          else if p \<in> revocation_search rv_agent ` set search_passes then rv_ok 0 else Inl Http
      | GetContext c m \<Rightarrow> if c = sample_ctx then rv_ok 1 else Inl Http
      | GetLineage l \<Rightarrow> if l = rv_lineage then rv_ok 1 else Inl Http
      | _ \<Rightarrow> Inl Http)"

definition rv_net :: "instant option \<Rightarrow> net" where
  "rv_net e =
     \<lparr>nt_send = \<lambda>_ req _. rv_answer e req, nt_authority = \<lambda>_. Some ''r.example'', nt_bearer_token = \<lambda>_ _. Inr None,
      nt_now = \<lambda>_. 0, nt_wall = \<lambda>_. 0, nt_value = \<lambda>_. Some (JArray [context_json rv_ext (rv_served e)]),
      nt_context = \<lambda>_. Some (received rv_ext (rv_served e)), nt_body = \<lambda>_. None,
      nt_search_response = \<lambda>bs. Some (rv_page (if bs = [1] then [rv_context e] else [])),
      nt_capabilities = \<lambda>_. None, nt_publish_response = \<lambda>_. None, nt_wire_error = \<lambda>_. None,
      nt_rfc2822 = \<lambda>_. None, nt_naive_date = \<lambda>_ _. None\<rparr>"

definition rv_client :: client where
  "rv_client = \<lparr>cl_base = ''https://r.example'', cl_change_limits = None, cl_budget = None, cl_cache = None, cl_freshness = 0, cl_auth = False, cl_trace = []\<rparr>"

lemma rv_simps [simp]:
  "b_agent_id (fc_body (rv_context e)) = rv_agent" "b_visibility (fc_body (rv_context e)) = Public"
  "b_context_type (fc_body (rv_context e)) = KeyRevocation" "b_ctx_id (fc_body (rv_context e)) = sample_ctx"
  "b_lineage_id (fc_body (rv_context e)) = rv_lineage" "b_expires_at (fc_body (rv_context e)) = e"
  "b_created_at (fc_body (rv_context e)) = 0" "fc_body (rv_served e) = fc_body (rv_context e)"
  "fc_registry_state (rv_context e) = active_state"
  by (simp_all add: rv_context_def rv_request_def rv_agent_def from_publish_request_def fresh_context_def rv_served_def project_context_def
      trunc_ms_def timestamp_millis_def)

lemma rv_status: "project_status active_state (fc_body (rv_context e)) 0 = (case e of Some t \<Rightarrow> if t \<le> 0 then Expired else Active | None \<Rightarrow> Active)"
  by (simp add: project_status_def active_state_def is_retracted_def)

lemma rv_store_at: "ctx_at (rv_store e) c = (if c = sample_ctx then Some (rv_context e) else None)"
  "lineage_at (rv_store e) rv_lineage = Some [sample_ctx]" "by_ctx (rv_store e) = [(sample_ctx, rv_context e)]"
  by (simp_all add: rv_store_def new_store_def push_lineage_def insert_ctx_def)

lemma rv_reachable: "reachable (x_sha256 rv_ext) (rv_store e)"
proof -
  let ?c = "\<lparr>pc_req = rv_request e, pc_authority = ''r.example'', pc_idempotency = None, pc_receipt_minter = None, pc_predecessor_admission = None\<rparr>"
  have "trunc_ms 0 = 0" by code_simp
  then have "\<exists>r. commit_publish (x_sha256 rv_ext) sample_uuid ?c 0 new_store = (r, rv_store e)"
    by (simp add: commit_publish_def idempotency_answer_def prepare_publish_def supersession_check_def assign_identifiers_def
        Let_def new_store_def rv_store_def rv_context_def rv_request_def rv_lineage_def sample_ctx_def)
  moreover have "lineage_fresh (x_sha256 rv_ext) sample_uuid ?c new_store"
    by (simp add: lineage_fresh_def new_store_def)
  ultimately have "any_step (x_sha256 rv_ext) new_store (rv_store e)"
    unfolding any_step_def using store_step.publish by blast
  then show ?thesis unfolding reachable_def by (rule r_into_rtranclp)
qed

lemma rv_texts: "texts_ok (rv_store e)"
proof -
  have "utf8_valid sample_ctx" by code_simp
  then show ?thesis by (simp add: texts_ok_def rv_store_at timestamp_millis_def in_i64_def)
qed

lemma rv_search:
  "server_search demo_env sample_server (revocation_search rv_agent pass) None (0, 0, 0) (rv_store e) =
     Inr (rv_page (if pass = (''key-revocation'', status_as_str (project_status active_state (fc_body (rv_context e)) 0)) then [rv_context e] else []))"
  apply (cases pass)
  apply (simp add: server_search_def store_search_def parse_date_filters_def parse_opt_rfc3339_def revocation_search_def
      search_matches_def rv_store_at search_hit_def can_surface_in_search_def matches_text_def matches_dates_def opt_all_def
      rv_page_def effective_limit_def Let_def sample_caps_def)
  done

lemma rv_net_simps [simp]:
  "nt_send (rv_net e) tr req tok = rv_answer e req" "nt_authority (rv_net e) b = Some ''r.example''"
  "nt_bearer_token (rv_net e) tr a = Inr None" "nt_value (rv_net e) bs = Some (JArray [context_json rv_ext (rv_served e)])"
  "nt_context (rv_net e) bs = Some (received rv_ext (rv_served e))"
  "nt_search_response (rv_net e) bs = Some (rv_page (if bs = [1] then [rv_context e] else []))"
  by (simp_all add: rv_net_def)

lemma rv_send: "send_read (rv_net e) req s = transmit (rv_net e) req None s"
  by (cases "cl_auth s") (simp_all add: send_read_def client_authority_def)

lemma rv_parsed:
  assumes "send_read (rv_net e) req s = (Inr resp, s1)" "parse_response (rv_net e) decode cap resp s1 = (Inr (v, n), s2)"
  shows "\<exists>b. rv_answer e req = rv_ok b \<and> decode [b] = Some v"
proof -
  have "rv_answer e req = Inr resp" using assms(1) by (simp add: rv_send transmit_def)
  moreover from this obtain b where "Inr resp = rv_ok b" by (cases req) (auto simp: rv_answer_def split: if_splits dest: sym)
  ultimately show ?thesis
    using assms(2) by (auto simp: parse_response_def parse_success_def rv_ok_def read_body_capped_def rbind_eq_Inr ok_or_eq_Inr split: if_splits)
qed

lemma rv_search_answer:
  assumes "client_search (rv_net e) p s = (Inr resp, s')" and e: "e = None \<or> e = Some 0"
  shows "server_search demo_env sample_server p None (0, 0, 0) (rv_store e) = Inr resp"
proof -
  obtain b where b: "rv_answer e (GetSearch p) = rv_ok b" "resp = rv_page (if [b] = [1] then [rv_context e] else [])"
    using assms(1) by (auto simp: client_search_def cbind_ok cret_ok dest: rv_parsed)
  have status: "status_as_str (project_status active_state (fc_body (rv_context e)) 0) = (if e = None then ''active'' else ''expired'')"
    using e by (auto simp: rv_status)
  show ?thesis
  proof (cases "p = revocation_search rv_agent (''key-revocation'', ''active'') \<and> e = None")
    case True
    then show ?thesis using b status by (simp add: rv_answer_def rv_ok_def rv_search)
  next
    case False
    then obtain pass where pass: "pass \<in> set search_passes" "p = revocation_search rv_agent pass"
      and "b = 0" using b(1) by (auto simp: rv_answer_def rv_ok_def split: if_splits)
    moreover have "pass \<noteq> (''key-revocation'', if e = None then ''active'' else ''expired'')"
      using False pass by (auto simp: search_passes_def)
    ultimately show ?thesis using b(2) status by (simp add: rv_search)
  qed
qed

lemma rv_wire: "e = None \<or> e = Some 0 \<Longrightarrow> context_wire_ok rv_ext (rv_served e)"
proof (elim disjE; hypsubst)
  show "context_wire_ok rv_ext (rv_served None)" by code_simp
  show "context_wire_ok rv_ext (rv_served (Some 0))" by code_simp
qed

lemma rv_truthful:
  assumes e: "e = None \<or> e = Some 0"
  shows "truthful rv_ext (rv_net e) demo_env sample_server (rv_store e) None 0"
  unfolding truthful_def
proof (intro conjI allI impI)
  fix p s resp s' assume "client_search (rv_net e) p s = (Inr resp, s')"
  moreover have "in_window 0 0" by (simp add: in_window_def in_i64_def timestamp_millis_def CURSOR_TTL_MS_def)
  ultimately show "\<exists>dec minted. in_window 0 dec \<and> in_window 0 minted \<and>
      server_search demo_env sample_server p None (0, dec, minted) (rv_store e) = Inr resp"
    using rv_search_answer[OF _ e] by blast
next
  fix c s x s' assume run: "client_retrieve (rv_net e) c s = (Inr x, s')"
  then have "c = sample_ctx \<and> x = received rv_ext (rv_served e)"
    by (auto simp: client_retrieve_def cbind_ok cret_ok rv_answer_def rv_ok_def dest!: rv_parsed split: if_splits)
  then show "\<exists>y. retrieve sample_server c None 0 (rv_store e) = Some y \<and> x = received rv_ext y"
    by (simp add: retrieve_def store_get_def rv_store_at can_retrieve_def project_context_def rv_served_def sample_caps_def)
next
  fix l s xs s' assume run: "client_lineage rv_ext (rv_net e) l s = (Inr xs, s')"
  then have "l = rv_lineage \<and> de_list (context_deserialize rv_ext) (JArray [context_json rv_ext (rv_served e)]) = Some xs"
    by (auto simp: client_lineage_def cbind_ok clift_ok ok_or_eq_Inr rv_answer_def rv_ok_def dest!: rv_parsed split: if_splits)
  then show "xs = map (received rv_ext) (server_lineage sample_server l None 0 (rv_store e))"
    using context_read[OF rv_wire[OF e]]
    by (auto simp: de_list_def server_lineage_def store_lineage_def rv_store_at map_filter_def can_retrieve_def rv_served_def
        project_context_def sample_caps_def)
qed

definition rv_revocation :: key_revocation where
  "rv_revocation = \<lparr>kr_fingerprint = ''sha256:'' @ replicate 64 CHR ''a'', kr_compromised_since = 0, kr_reason = None, kr_key_id = None,
     kr_controller = rv_agent, kr_publisher = rv_agent, kr_trust_class = ProducerSigned, kr_ctx_id = Some sample_ctx\<rparr>"

lemma rv_keeps: "keeps_signed rv_agent rv_revocation"
  by (simp add: keeps_signed_def rv_revocation_def)

lemma rv_checked:
  assumes "e = None \<or> e = Some 0"
  shows "checked_revocation rv_ext sample_resolver (fc_body (rv_context e)) = Inr rv_revocation"
    "is_ok (verify_body_signature rv_ext sample_resolver (fc_body (rv_context e)))"
    "depth (producer_content (object_members (body_json rv_ext (fc_body (rv_context e))))) \<le> MAX_JCS_DEPTH"
proof -
  have "parses_to (checked_revocation rv_ext sample_resolver (fc_body (rv_context None))) rv_revocation"
    "parses_to (checked_revocation rv_ext sample_resolver (fc_body (rv_context (Some 0)))) rv_revocation" by code_simp+
  then show "checked_revocation rv_ext sample_resolver (fc_body (rv_context e)) = Inr rv_revocation" using assms by auto
  have "is_ok (verify_body_signature rv_ext sample_resolver (fc_body (rv_context None)))"
    "is_ok (verify_body_signature rv_ext sample_resolver (fc_body (rv_context (Some 0))))" by code_simp+
  then show "is_ok (verify_body_signature rv_ext sample_resolver (fc_body (rv_context e)))" using assms by auto
  have "depth (producer_content (object_members (body_json rv_ext (fc_body (rv_context None))))) \<le> MAX_JCS_DEPTH"
    "depth (producer_content (object_members (body_json rv_ext (fc_body (rv_context (Some 0)))))) \<le> MAX_JCS_DEPTH" by code_simp+
  then show "depth (producer_content (object_members (body_json rv_ext (fc_body (rv_context e))))) \<le> MAX_JCS_DEPTH"
    using assms by auto
qed

lemma rv_ext_text: "x_sha256 rv_ext (string_bytes (CHR ''{'' # t)) = replicate 32 0"
proof -
  have "char_byte CHR ''{'' \<noteq> 1" by code_simp
  then show ?thesis by (simp add: rv_ext_def string_bytes_def numeral_eq_Suc)
qed

lemma rv_any_raw_hash:
  assumes "depth (producer_content ms) \<le> MAX_JCS_DEPTH"
  shows "verify_content_hash (x_sci rv_ext) (x_sha256 rv_ext) (JObject ms) sample_hash = Inr ()"
proof -
  have "hex_encode (replicate 32 0) = replicate 64 CHR ''0''" by code_simp
  then have "compute_content_hash (x_sci rv_ext) (x_sha256 rv_ext) (JObject ms) = Inr sample_hash"
    using assms unfolding compute_content_hash_object
    by (simp add: try_canonicalize_value_def write_value_render sample_hash_def producer_content_def rv_ext_text del: rv_ext_same)
  then show ?thesis by (simp add: verify_content_hash_def)
qed

lemma rv_ext_validates: "validate_publish_request rv_ext (sample_revocation None 1) = Inr ()"
proof -
  have base: "validate_publish_request sample_ext (sample_revocation None 1) = Inr ()"
    by (rule sample_revocation_ok) (simp_all add: version_coherent_def)
  have "is_ok (validate_agent_did rv_ext ''did:key:zA'' True)" "is_ok (validate_did_key_key_id_form rv_ext ''did:key:zA#zA'')"
    by code_simp+
  moreover have "validate_metadata rv_ext = validate_metadata sample_ext"
    by (rule ext) (simp add: validate_metadata_def validate_json_object_limits_def)
  ultimately show ?thesis
    using base unfolding validate_publish_request_def checks_Cons_ok
    by (intro conjI) (simp_all add: is_ok_iff sample_revocation_def sample_request_def)
qed

lemma rv_listed:
  assumes e: "e = None \<or> e = Some 0"
  shows "listed_revocation rv_ext sample_resolver (rv_served e) rv_revocation"
proof -
  have "validate_publish_request rv_ext (rv_request e) = Inr ()"
    using rv_ext_validates
    by (simp add: rv_request_def validate_publish_request_def)
  moreover have "ctx_id_parse sample_ctx = Inr sample_ctx" using sample_ctx_ok by (simp add: sample_ctx_def)
  moreover have "lineage_id_parse rv_lineage = Inr rv_lineage"
    unfolding rv_lineage_def by (rule derived_lineage_ok) simp
  moreover have "is_valid_dns_authority ''r.example''" by code_simp
  ultimately have valid: "validate_body rv_ext (fc_body (rv_context e)) = Inr ()"
    using accepted_body_valid[of rv_ext "rv_request e" sample_ctx rv_lineage "''r.example''" 0]
    by (simp add: rv_context_def fresh_context_def)
  have "b_content_hash (fc_body (rv_context e)) = sample_hash"
    by (simp add: rv_context_def fresh_context_def from_publish_request_def rv_request_def)
  then have "verify_context_hash rv_ext (received rv_ext (rv_served e)) = Inr ()"
    using received_hash[OF rv_wire[OF e]] rv_any_raw_hash[OF rv_checked(3)[OF e]]
    by (simp add: body_json_def object_members_def)
  then have "verify_context rv_ext sample_resolver (received rv_ext (rv_served e)) = Inr ()"
    using valid rv_checked(2)[OF e] by (simp add: verify_context_def is_ok_iff)
  moreover have "\<not> is_keyless_key_id (sig_key_id (b_signature (fc_body (rv_context e))))"
    by (simp add: rv_context_def fresh_context_def from_publish_request_def rv_request_def) code_simp
  ultimately show ?thesis
    using rv_checked(1)[OF e] by (simp add: listed_revocation_def verify_revocation_context_def)
qed

lemma rv_run:
  assumes "cl_budget s = None" "rv_answer e req = rv_ok b" "decode [b] = Some v" "1 \<le> cap"
  shows "cbind check_discovery_budget (\<lambda>_. cbind (send_read (rv_net e) req) (\<lambda>resp.
      cbind (parse_response (rv_net e) decode cap resp) k)) s = k (v, 1) (emit (Sent req None) s)"
  using assms by (simp add: cbind_def check_discovery_budget_def rv_send transmit_def rv_ok_def parse_response_def parse_success_def
      read_body_capped_def)

lemma rv_emit [simp]: "cl_budget (emit ev s) = cl_budget s"
  by (simp add: emit_def)

lemma rv_no_bytes: "cl_budget s = None \<Longrightarrow> record_discovery_bytes n s = (Inr (), s)"
  by (simp add: record_discovery_bytes_def)

lemma rv_searched:
  assumes "cl_budget s = None" "pass \<in> set search_passes"
  shows "client_search (rv_net e) (revocation_search rv_agent pass) s =
    (Inr (rv_page (if pass = (''key-revocation'', ''active'') \<and> e = None then [rv_context e] else [])),
     emit (Sent (GetSearch (revocation_search rv_agent pass)) None) s)"
proof -
  have same: "revocation_search rv_agent pass = revocation_search rv_agent (''key-revocation'', ''active'') \<longleftrightarrow>
      pass = (''key-revocation'', ''active'')"
    by (cases pass) (auto simp: revocation_search_def)
  obtain b where "rv_answer e (GetSearch (revocation_search rv_agent pass)) = rv_ok b"
    "b = 1 \<longleftrightarrow> pass = (''key-revocation'', ''active'') \<and> e = None"
    using assms(2) by (cases "pass = (''key-revocation'', ''active'') \<and> e = None") (auto simp: rv_answer_def same)
  then show ?thesis
    unfolding client_search_def using assms(1)
    by (subst rv_run[where b = b and v = "rv_page (if b = 1 then [rv_context e] else [])"])
      (simp_all add: MAX_METADATA_BYTES_def cbind_def rv_no_bytes cret_def)
qed

lemma rv_retrieved:
  "cl_budget s = None \<Longrightarrow> client_retrieve (rv_net e) sample_ctx s =
     (Inr (received rv_ext (rv_served e)), emit (Sent (GetContext sample_ctx None) None) s)"
  unfolding client_retrieve_def
  by (subst rv_run[where v = "received rv_ext (rv_served e)" and b = 1])
    (simp_all add: rv_answer_def MAX_CONTEXT_BYTES_def cbind_def rv_no_bytes cret_def)

lemma rv_lineage_run:
  assumes "cl_budget s = None" "e = None \<or> e = Some 0"
  shows "client_lineage rv_ext (rv_net e) rv_lineage s =
     (Inr [received rv_ext (rv_served e)], emit (Sent (GetLineage rv_lineage) None) s)"
  unfolding client_lineage_def using assms(1) context_read[OF rv_wire[OF assms(2)]]
  by (subst rv_run[where v = "JArray [context_json rv_ext (rv_served e)]" and b = 1])
    (simp_all add: rv_answer_def MAX_CONTEXT_BYTES_def cbind_def rv_no_bytes clift_def de_list_def)

lemma rv_pass_empty:
  assumes "cl_budget s = None" "pass \<in> set search_passes" "pass \<noteq> (''key-revocation'', ''active'')"
  shows "search_pages (Suc n) rv_ext (rv_net e) resolve keep (revocation_search rv_agent pass) d s =
    (Inr d, emit (Sent (GetSearch (revocation_search rv_agent pass)) None) s)"
  using rv_searched[OF assms(1,2)] assms(3) by (simp add: cbind_def rv_page_def cret_def)

lemma rv_ten_empty:
  "cl_budget s = None \<Longrightarrow> pass \<in> set search_passes \<Longrightarrow> pass \<noteq> (''key-revocation'', ''active'') \<Longrightarrow>
     search_pages 10 rv_ext (rv_net e) resolve keep (revocation_search rv_agent pass) d s =
       (Inr d, emit (Sent (GetSearch (revocation_search rv_agent pass)) None) s)"
  using rv_pass_empty[of s pass 9 e resolve keep d] by (simp del: search_pages.simps)

lemma rv_discovered:
  "\<exists>s'. discover_revocations rv_ext (rv_net None) sample_resolver rv_agent (keeps_signed rv_agent) rv_client =
     (Inr ([rv_revocation], []), s')"
proof -
  let ?keep = "keeps_signed rv_agent" and ?N = "rv_net None"
  let ?d0 = "\<lparr>ds_revocations = [], ds_deferred = [], ds_seen = {}, ds_lineages = []\<rparr>"
  let ?d1 = "\<lparr>ds_revocations = [rv_revocation], ds_deferred = [], ds_seen = {sample_ctx}, ds_lineages = [(rv_lineage, sample_ctx)]\<rparr>"
  have keyless: "\<not> is_keyless_key_id (sig_key_id (b_signature (fc_body (rv_context None))))"
    and judged: "judge_candidate rv_ext ?N sample_resolver (received rv_ext (rv_served None)) s = (Inr (Some rv_revocation), s)" for s
    using rv_listed[of None] judge_listed by (auto simp: listed_revocation_def)
  have first: "\<exists>s'. search_pages (Suc n) rv_ext ?N sample_resolver ?keep (revocation_search rv_agent (''key-revocation'', ''active'')) ?d0 s =
      (Inr ?d1, s') \<and> cl_budget s' = None" if "cl_budget s = None" for s n
    using that keyless
    by (simp add: rv_searched search_passes_def cbind_def rv_page_def visit_match_def note_lineage_def project_result_def rv_retrieved
        judged cret_def keep_revocation_def rv_keeps Let_def)
  have "\<exists>s'. cfold (\<lambda>pass. search_pages MAX_SEARCH_PAGES rv_ext ?N sample_resolver ?keep (revocation_search rv_agent pass)) search_passes ?d0 rv_client =
      (Inr ?d1, s') \<and> cl_budget s' = None"
  proof -
    have budget: "cl_budget rv_client = None" by (simp add: rv_client_def)
    have ten: "MAX_SEARCH_PAGES = Suc 9" by (simp add: MAX_SEARCH_PAGES_def)
    show ?thesis
      using first[OF budget, of 9] unfolding ten search_passes_def
      by (auto simp: cbind_def rv_ten_empty search_passes_def cret_def simp del: search_pages.simps)
  qed
  then obtain s1 where search: "cfold (\<lambda>pass. search_pages MAX_SEARCH_PAGES rv_ext ?N sample_resolver ?keep (revocation_search rv_agent pass))
      search_passes ?d0 rv_client = (Inr ?d1, s1)" "cl_budget s1 = None"
    by blast
  then show ?thesis
    by (simp add: discover_revocations_def cbind_def clift_def cret_def MAX_LINEAGE_WALKS_def walk_lineage_def walk_revocation_lineage_def
        rv_lineage_run walk_member_def keyless judged absorb_verified_def)
qed

lemma rv_agent_ok: "agent_did_parse rv_agent = Inr rv_agent"
  using sample_did_ok by (simp add: rv_agent_def)

lemma rv_budget: "cl_budget rv_client = None"
  by (simp add: rv_client_def)

lemma rv_unmarked: "marker_lookup (rv_net e) rv_agent ProducerSigned rv_client = None"
  by (simp add: marker_lookup_def rv_client_def)

lemma rv_looked_up:
  "\<exists>s'. find_revocations_lookup rv_ext (rv_net None) sample_resolver rv_agent rv_client = (Inr (lookup_live [rv_revocation] []), s')"
  using rv_discovered by (auto simp: find_revocations_lookup_def rv_agent_ok clift_def cbind_def rv_unmarked record_lookup_def cret_def)

theorem discovered_revocations_genuine_witness:
  "kr_trust_class rv_revocation = ProducerSigned \<and> kr_publisher rv_revocation = rv_agent \<and>
   (\<exists>ctx. genuine rv_ext sample_resolver (client_authority (rv_net None) rv_client) ctx rv_revocation \<and>
      b_agent_id (fc_body ctx) = rv_agent)"
proof -
  obtain s' where "find_revocations_lookup rv_ext (rv_net None) sample_resolver rv_agent rv_client =
      (Inr (lookup_live [rv_revocation] []), s')" using rv_looked_up by blast
  from discovered_revocations_genuine[OF this] show ?thesis by (simp add: lookup_live_def)
qed

definition rv_policy :: revocation_policy where
  "rv_policy = \<lparr>rp_known = [], rp_discover = Some producer_signed_only, rp_accept_historical_receipt_key_for_pre_t = False\<rparr>"

lemma rv_passes:
  "is_ok (enforce (decide (gather rv_ext None None rv_agent rv_policy (Inr (lookup_live [rv_revocation] [], None)))
     (Some (kr_fingerprint rv_revocation)) (Some (-1, Current)) False))"
  unfolding enforce_ok[OF gather_typed] gather_undecided gather_on_failure decide_refusal gather_scope
  by (auto simp: rv_policy_def known_revocations_def discovered_revocations_def lookup_live_def sourced_def rv_revocation_def
      placed_before_def evaluate_revocations_def map_filter_simps)

theorem stored_revocation_enforced_witness:
  "placed_before (Some (-1, Current)) False (kr_compromised_since rv_revocation)"
proof -
  obtain s' where run: "find_revocations_lookup rv_ext (rv_net None) sample_resolver rv_agent rv_client =
      (Inr (lookup_live [rv_revocation] []), s')" using rv_looked_up by blast
  have "b64_roundtrip demo_env" by (simp add: b64_roundtrip_def demo_env_def)
  moreover have "searchable rv_agent 0 (rv_context None)" by (simp add: searchable_def rv_status)
  moreover have "rv_served None \<in> set (server_lineage sample_server (b_lineage_id (fc_body (rv_context None))) None 0 (rv_store None))"
    by (simp add: server_lineage_def store_lineage_def rv_store_at map_filter_simps can_retrieve_def rv_served_def project_context_def sample_caps_def)
  ultimately show ?thesis
    by (intro stored_revocation_enforced[where d = producer_signed_only and policy = rv_policy and
          run = "Inr (lookup_live [rv_revocation] [], None)" and c = sample_ctx and x = "rv_context None" and y = "rv_served None" and
          resolve = sample_resolver and s = rv_client and s' = s' and
          l = "lookup_live [rv_revocation] []" and attested = None, OF rv_truthful rv_reachable rv_texts _ _ _ _ _ rv_listed rv_keeps
          _ _ rv_unmarked _ rv_passes])
      (use run in \<open>simp_all add: rv_store_at rv_policy_def producer_signed_only_def sample_caps_def\<close>)
qed

theorem expired_revocations_undiscovered_witness:
  "fst (find_revocations_lookup rv_ext (rv_net (Some 0)) sample_resolver rv_agent rv_client) = Inr (lookup_live [] []) \<and>
   ctx_at (rv_store (Some 0)) sample_ctx = Some (rv_context (Some 0)) \<and>
   listed_revocation rv_ext sample_resolver (project_context (rv_context (Some 0)) 0) rv_revocation"
proof (intro conjI)
  show "fst (find_revocations_lookup rv_ext (rv_net (Some 0)) sample_resolver rv_agent rv_client) = Inr (lookup_live [] [])"
    by (rule expired_revocations_undiscovered[OF rv_truthful rv_reachable])
      (auto simp: only_expired_def rv_store_at rv_status rv_searched rv_agent_ok rv_unmarked rv_budget split: if_splits)
  show "listed_revocation rv_ext sample_resolver (project_context (rv_context (Some 0)) 0) rv_revocation"
    using rv_listed[of "Some 0"] by (simp add: rv_served_def)
qed (simp add: rv_store_at)

end
