(* ===== verification/Acdp_Fetch.thy ===== *)
theory Acdp_Fetch
  imports Acdp_Discovery Acdp_Witness
begin

text \<open>
  Retrieve and verify in one call (\<open>crates/acdp-client/src/verified.rs\<close>): the policy of a consumer, the
  phases over a served context (identifiers, schema, hash, receipt, revocation, signature, status,
  transparency), the fetch operations and the two kinds of report; the client side of \<open>gather\<close>
  (\<open>revocation_verdict.rs\<close>) and the verification of data references (\<open>data_ref.rs\<close>).

  The build is the one without the \<open>keyless\<close> feature. The two lookups that \<open>gather\<close> joins run one
  after the other; the timeout is read off the monotonic clock when a lookup ends.
\<close>

section \<open>Policies\<close>

datatype receipt_policy = RP_Ignore | RP_VerifyIfPresent | RP_Require | RP_VerifyAndReport

datatype historical_key_policy = HK_Reject | HK_AcceptWithReceipt

record lineage_head_policy =
  lh_receipts :: receipt_policy
  lh_max_clock_skew_seconds :: u32
  lh_max_age_seconds :: "u32 option"

definition default_lineage_head_policy :: lineage_head_policy where
  "default_lineage_head_policy =
     \<lparr>lh_receipts = RP_VerifyIfPresent, lh_max_clock_skew_seconds = 120, lh_max_age_seconds = Some 300\<rparr>"

definition default_revocation_policy :: revocation_policy where
  "default_revocation_policy =
     \<lparr>rp_known = [], rp_discover = None, rp_accept_historical_receipt_key_for_pre_t = False\<rparr>"

definition revocation_policy_new :: "key_revocation list \<Rightarrow> revocation_policy" where
  "revocation_policy_new known = default_revocation_policy\<lparr>rp_known := known\<rparr>"

definition accept_historical_receipt_key_for_pre_t :: "revocation_policy \<Rightarrow> revocation_policy" where
  "accept_historical_receipt_key_for_pre_t p = p\<lparr>rp_accept_historical_receipt_key_for_pre_t := True\<rparr>"

definition with_discovery :: "revocation_discovery \<Rightarrow> revocation_policy \<Rightarrow> revocation_policy" where
  "with_discovery d p = p\<lparr>rp_discover := Some d\<rparr>"

record verification_policy =
  vp_validate_body_schema :: bool
  vp_allow_unknown_status :: bool
  vp_receipts :: receipt_policy
  vp_historical_keys :: historical_key_policy
  vp_lineage_head :: lineage_head_policy
  vp_revocations :: revocation_policy
  vp_require_did_web_for_v0_1_0 :: bool
  vp_log_inclusion :: log_inclusion_policy
  vp_witness_quorum :: "witness_quorum_policy option"

definition default_verification_policy :: verification_policy where
  "default_verification_policy =
     \<lparr>vp_validate_body_schema = True, vp_allow_unknown_status = True, vp_receipts = RP_VerifyIfPresent,
      vp_historical_keys = HK_AcceptWithReceipt, vp_lineage_head = default_lineage_head_policy,
      vp_revocations = default_revocation_policy, vp_require_did_web_for_v0_1_0 = True,
      vp_log_inclusion = LP_Ignore, vp_witness_quorum = None\<rparr>"

definition strict_v0_1_0 :: verification_policy where
  "strict_v0_1_0 =
     \<lparr>vp_validate_body_schema = True, vp_allow_unknown_status = True, vp_receipts = RP_Ignore,
      vp_historical_keys = HK_Reject, vp_lineage_head = default_lineage_head_policy\<lparr>lh_receipts := RP_Ignore\<rparr>,
      vp_revocations = default_revocation_policy, vp_require_did_web_for_v0_1_0 = True,
      vp_log_inclusion = LP_Ignore, vp_witness_quorum = None\<rparr>"

definition derived_for_report :: "verification_policy \<Rightarrow> verification_policy" where
  "derived_for_report policy = policy\<lparr>vp_validate_body_schema := False\<rparr>"

definition require_did_web_for_v0_1_0 :: "body \<Rightarrow> unit acdp_result" where
  "require_did_web_for_v0_1_0 b =
     (if b_acdp_version b \<in> {None, Some ''0.1.0''} then
        let key_did = (case split_once CHR ''#'' (sig_key_id (b_signature b)) of
                         Some (d, _) \<Rightarrow> d | None \<Rightarrow> sig_key_id (b_signature b)) in
        each (\<lambda>did. require (starts_with ''did:web:'' did) SchemaViolation) [b_agent_id b, key_did]
      else Inr ())"

section \<open>The revocation phase\<close>

text \<open>A lookup still running at the deadline is dropped, with what it would have recorded in the cache.\<close>

definition by_deadline :: "net \<Rightarrow> int \<Rightarrow> 'a client_op \<Rightarrow> 'a client_op" where
  "by_deadline N deadline op s =
     (let (r, s') = op s in
      if deadline < nt_now N (cl_trace s') then (Inl CrossRegistryResolutionFailed, s'\<lparr>cl_cache := cl_cache s\<rparr>)
      else (r, s'))"

text \<open>
  The source runs the two lookups concurrently under \<open>tokio::try_join!\<close>; here they run one after the
  other, which is one of the schedules. What depends on the schedule, the use of the shared budget,
  is treated for all of them in \<open>Acdp_Discovery_Correct\<close>.
\<close>

definition joined_lookups ::
  "ext \<Rightarrow> net \<Rightarrow> web_resolver \<Rightarrow> agent_did \<Rightarrow> bool \<Rightarrow> int \<Rightarrow> (lookup \<times> lookup option) client_op" where
  "joined_lookups E N resolve agent_id include_attested deadline =
     cbind (by_deadline N deadline (find_revocations_lookup E N resolve agent_id)) (\<lambda>producer_signed.
     cbind (if include_attested
            then cbind (by_deadline N deadline (find_registry_attested_lookup E N resolve agent_id)) (\<lambda>l. cret (Some l))
            else cret None) (\<lambda>attested.
     cret (producer_signed, attested)))"

text \<open>
  The lookups run on a clone of the client, which shares its cache and its trace with the original. A policy
  without discovery runs nothing and \<open>gather\<close> ignores the outcome.
\<close>

definition run_discovery ::
  "ext \<Rightarrow> net \<Rightarrow> web_resolver \<Rightarrow> agent_did \<Rightarrow> revocation_discovery \<Rightarrow> (lookup \<times> lookup option) client_op" where
  "run_discovery E N resolve agent_id d s =
     (let dclient = with_revocation_freshness (rd_freshness d)
            (with_discovery_budget (budget_new (rd_max_requests d) (rd_max_bytes d)) s);
          (r, s') = joined_lookups E N resolve agent_id (rd_include_registry_attested d)
            (nt_now N (cl_trace s) + rd_total_timeout d) dclient in
      (r, s'\<lparr>cl_budget := cl_budget s, cl_freshness := cl_freshness s\<rparr>))"

definition policy_discovery ::
  "ext \<Rightarrow> net \<Rightarrow> web_resolver \<Rightarrow> agent_did \<Rightarrow> revocation_policy \<Rightarrow> (lookup \<times> lookup option) client_op" where
  "policy_discovery E N resolve agent_id policy =
     (case rp_discover policy of None \<Rightarrow> clift (Inl NotImplemented) | Some d \<Rightarrow> run_discovery E N resolve agent_id d)"

definition gather_with_client ::
  "ext \<Rightarrow> net \<Rightarrow> web_resolver \<Rightarrow> agent_did \<Rightarrow> revocation_policy \<Rightarrow> gathered client_op" where
  "gather_with_client E N resolve agent_id policy s =
     (let (run, s') = policy_discovery E N resolve agent_id policy s in
      (Inr (gather E (cl_cache s) (client_authority N s) agent_id policy run), s'))"

definition signing_fingerprint :: "ext \<Rightarrow> web_resolver \<Rightarrow> body \<Rightarrow> string acdp_result" where
  "signing_fingerprint E resolve b =
     fingerprint_for_key_id E resolve (sig_key_id (b_signature b)) (sig_algorithm (b_signature b))"

definition placement :: "placed_receipt option \<Rightarrow> (instant \<times> receipt_key_status) option" where
  "placement = map_option (\<lambda>p. (rr_created_at (pp_receipt p), pp_key_status p))"

definition revocation_phase ::
  "ext \<Rightarrow> net \<Rightarrow> web_resolver \<Rightarrow> body \<Rightarrow> placed_receipt option \<Rightarrow> revocation_policy \<Rightarrow> revocation_assessment client_op" where
  "revocation_phase E N resolve b placed policy =
     cbind (gather_with_client E N resolve (b_agent_id b) policy) (\<lambda>g.
     cbind (clift (if has_in_scope g then rbind (signing_fingerprint E resolve b) (\<lambda>fp. Inr (Some fp)) else Inr None)) (\<lambda>fp.
     clift (enforce (decide g fp (placement placed) (rp_accept_historical_receipt_key_for_pre_t policy)))))"

section \<open>The other phases\<close>

definition receipt_phase ::
  "ext \<Rightarrow> web_resolver \<Rightarrow> receipt_policy \<Rightarrow> full_context \<Rightarrow> ctx_id \<Rightarrow> string \<Rightarrow> placed_receipt acdp_result option acdp_result" where
  "receipt_phase E resolve policy ctx expected_ctx_id serving_authority =
     (case (policy, fc_registry_receipt ctx) of
        (RP_Ignore, _) \<Rightarrow> Inr None
      | (RP_Require, None) \<Rightarrow> Inl InvalidReceipt
      | (_, None) \<Rightarrow> Inr None
      | (_, Some v) \<Rightarrow>
          rbind (signing_fingerprint E resolve (fc_body ctx)) (\<lambda>fp.
          case verify_receipt_placed E resolve v expected_ctx_id (fc_body ctx) (b_content_hash (fc_body ctx)) fp serving_authority of
            Inr p \<Rightarrow> Inr (Some (Inr p))
          | Inl e \<Rightarrow> if policy = RP_VerifyAndReport then Inr (Some (Inl e)) else Inl e))"

definition verified_placement :: "placed_receipt acdp_result option \<Rightarrow> placed_receipt option" where
  "verified_placement outcome = (case outcome of Some (Inr p) \<Rightarrow> Some p | _ \<Rightarrow> None)"

definition signature_phase ::
  "ext \<Rightarrow> web_resolver \<Rightarrow> body \<Rightarrow> bool \<Rightarrow> bool \<Rightarrow> historical_key_policy \<Rightarrow> key_authorization acdp_result" where
  "signature_phase E resolve b pre_compromise receipt_verified policy =
     (if pre_compromise then
        rbind (if starts_with ''did:key:'' (b_agent_id b) then verify_body_signature E resolve b
               else verify_body_signature_historical E resolve b) (\<lambda>_. Inr HistoricallyAuthorizedPreCompromise)
      else case verify_body_signature E resolve b of
        Inr _ \<Rightarrow> Inr CurrentlyAuthorized
      | Inl KeyNotAuthorized \<Rightarrow>
          if policy = HK_AcceptWithReceipt \<and> receipt_verified
          then rbind (verify_body_signature_historical E resolve b) (\<lambda>_. Inr HistoricallyAuthorized)
          else Inl KeyNotAuthorized
      | Inl e \<Rightarrow> Inl e)"

definition status_phase :: "verification_policy \<Rightarrow> full_context \<Rightarrow> unit acdp_result" where
  "status_phase policy ctx =
     (case rs_status (fc_registry_state ctx) of
        Other _ \<Rightarrow> require (vp_allow_unknown_status policy) SchemaViolation
      | _ \<Rightarrow> Inr ())"

definition leaf_material_of ::
  "full_context \<Rightarrow> placed_receipt acdp_result option \<Rightarrow> cannot_verify_reason + leaf_material" where
  "leaf_material_of ctx outcome =
     (case fc_registry_receipt ctx of
        None \<Rightarrow> Inl ReceiptAbsent
      | Some v \<Rightarrow>
          (case outcome of
             Some (Inr p) \<Rightarrow> Inr \<lparr>lm_receipt = pp_receipt p, lm_receipt_value = v\<rparr>
           | Some (Inl _) \<Rightarrow> Inl ReceiptInvalid
           | None \<Rightarrow> Inl ReceiptNotVerified))"

text \<open>The capabilities are fetched only for a proof that parses and a checkpoint that is wanted.\<close>

definition wants_capabilities ::
  "ext \<Rightarrow> full_context \<Rightarrow> cannot_verify_reason + leaf_material \<Rightarrow> log_inclusion_policy \<Rightarrow> bool \<Rightarrow> bool" where
  "wants_capabilities E ctx material log_policy need_checkpoint \<longleftrightarrow>
     (log_policy \<noteq> LP_Ignore \<or> need_checkpoint) \<and>
     (case fc_log_inclusion ctx of
        None \<Rightarrow> False
      | Some v \<Rightarrow> (is_ok material \<or> need_checkpoint) \<and> is_ok (inclusion_from_value E v) \<and> json_get v ''log_checkpoint'' \<noteq> None)"

definition transparency_phase ::
  "ext \<Rightarrow> net \<Rightarrow> web_resolver \<Rightarrow> full_context \<Rightarrow> cannot_verify_reason + leaf_material \<Rightarrow> string \<Rightarrow> verification_policy \<Rightarrow>
     transparency_verdicts client_op" where
  "transparency_phase E N resolve ctx material serving_authority policy s =
     (let (caps, s') = (if wants_capabilities E ctx material (vp_log_inclusion policy) (vp_witness_quorum policy \<noteq> None)
                        then client_capabilities N s else (Inl NotImplemented, s)) in
      (evaluate E resolve (rbind caps (\<lambda>c. Inr (cap_registry_did c))) ctx material serving_authority
         (vp_log_inclusion policy) (vp_witness_quorum policy) (nt_wall N (cl_trace s')), s'))"

section \<open>Verification of a retrieved context\<close>

text \<open>
  \<open>rt_placed\<close> holds the fields \<open>verified_receipt\<close>, \<open>receipt_key_status\<close> and
  \<open>receipt_registry_key_fingerprint\<close>, which are set together.
\<close>

record retrieved =
  rt_key_status :: key_authorization
  rt_placed :: "placed_receipt option"
  rt_receipt_verdict :: "unit acdp_result option"
  rt_lineage_binding :: lineage_binding
  rt_revocation :: revocation_assessment
  rt_transparency :: transparency_verdicts

definition serving_authority_of :: "net \<Rightarrow> client \<Rightarrow> ctx_id \<Rightarrow> string" where
  "serving_authority_of N s c = (case client_authority N s of Some a \<Rightarrow> a | None \<Rightarrow> ctx_id_authority c)"

definition offline_phase :: "ext \<Rightarrow> full_context \<Rightarrow> ctx_id \<Rightarrow> verification_policy \<Rightarrow> unit acdp_result" where
  "offline_phase E ctx expected_ctx_id policy =
     (let b = fc_body ctx in
      checks [require (b_ctx_id b = expected_ctx_id) (ContextIdMismatch expected_ctx_id (b_ctx_id b)),
              verify_registry_assigned_bindings E b,
              (if vp_validate_body_schema policy then validate_body E b else Inr ()),
              (if vp_require_did_web_for_v0_1_0 policy then require_did_web_for_v0_1_0 b else Inr ()),
              verify_context_hash E ctx,
              require (\<not> is_keyless_key_id (sig_key_id (b_signature b))) KeyResolution])"

definition verify_retrieved ::
  "ext \<Rightarrow> net \<Rightarrow> web_resolver \<Rightarrow> full_context \<Rightarrow> ctx_id \<Rightarrow> verification_policy \<Rightarrow> retrieved client_op" where
  "verify_retrieved E N resolve ctx expected_ctx_id policy s =
     (let b = fc_body ctx; serving_authority = serving_authority_of N s expected_ctx_id in
      cbind (clift (offline_phase E ctx expected_ctx_id policy)) (\<lambda>_.
      cbind (clift (receipt_phase E resolve (vp_receipts policy) ctx expected_ctx_id serving_authority)) (\<lambda>outcome.
      let placed = verified_placement outcome in
      cbind (revocation_phase E N resolve b placed (vp_revocations policy)) (\<lambda>revocation.
      cbind (clift (signature_phase E resolve b (ra_pre_compromise revocation) (placed \<noteq> None) (vp_historical_keys policy))) (\<lambda>key_status.
      cbind (clift (status_phase policy ctx)) (\<lambda>_.
      cbind (transparency_phase E N resolve ctx (leaf_material_of ctx outcome) serving_authority policy) (\<lambda>transparency.
      cret \<lparr>rt_key_status = key_status, rt_placed = placed, rt_receipt_verdict = map_option void outcome,
            rt_lineage_binding = lineage_binding_of b (placed \<noteq> None), rt_revocation = revocation,
            rt_transparency = transparency\<rparr>)))))) s)"

section \<open>Fetching\<close>

record verified_context =
  vc_inner :: full_context
  vc_key_status :: key_authorization
  vc_placed :: "placed_receipt option"
  vc_receipt_verdict :: "unit acdp_result option"
  vc_lineage_binding :: lineage_binding
  vc_verified_head_receipt :: "lineage_head_receipt option"
  vc_head_receipt_stale :: "bool option"
  vc_head_receipt_verdict :: "unit acdp_result option"
  vc_revocation_discovery_failure :: "acdp_error option"
  vc_revocation_verdict :: revocation_verdict
  vc_revocation_hints :: "sourced_revocation list"
  vc_transparency :: transparency_verdicts

definition into_context :: "retrieved \<Rightarrow> full_context \<Rightarrow> verified_context" where
  "into_context r inner =
     \<lparr>vc_inner = inner, vc_key_status = rt_key_status r, vc_placed = rt_placed r, vc_receipt_verdict = rt_receipt_verdict r,
      vc_lineage_binding = rt_lineage_binding r, vc_verified_head_receipt = None, vc_head_receipt_stale = None,
      vc_head_receipt_verdict = None,
      vc_revocation_discovery_failure = (case ra_discovery (rt_revocation r) of Some (Inl e) \<Rightarrow> Some e | _ \<Rightarrow> None),
      vc_revocation_verdict = ra_verdict (rt_revocation r), vc_revocation_hints = ra_hints (rt_revocation r),
      vc_transparency = rt_transparency r\<rparr>"

definition fetch_with_policy ::
  "ext \<Rightarrow> net \<Rightarrow> web_resolver \<Rightarrow> ctx_id \<Rightarrow> verification_policy \<Rightarrow> verified_context client_op" where
  "fetch_with_policy E N resolve c policy =
     cbind (client_retrieve N c) (\<lambda>ctx.
     cbind (verify_retrieved E N resolve ctx c policy) (\<lambda>r.
     cret (into_context r ctx)))"

definition fetch :: "ext \<Rightarrow> net \<Rightarrow> web_resolver \<Rightarrow> ctx_id \<Rightarrow> verified_context client_op" where
  "fetch E N resolve c = fetch_with_policy E N resolve c default_verification_policy"

definition head_phase ::
  "ext \<Rightarrow> net \<Rightarrow> web_resolver \<Rightarrow> full_context \<Rightarrow> lineage_id \<Rightarrow> lineage_head_policy \<Rightarrow> lineage_head_receipt acdp_result option client_op" where
  "head_phase E N resolve ctx l policy s =
     (case (lh_receipts policy, fc_lineage_head_receipt ctx) of
        (RP_Ignore, _) \<Rightarrow> (Inr None, s)
      | (RP_Require, None) \<Rightarrow> (Inl InvalidReceipt, s)
      | (_, None) \<Rightarrow> (Inr None, s)
      | (_, Some v) \<Rightarrow>
          cbind (client_capabilities N) (\<lambda>caps s'.
            (case verify_lineage_head_receipt_value E resolve v l (b_ctx_id (fc_body ctx)) (b_version (fc_body ctx))
                    (rs_status (fc_registry_state ctx)) True (serving_authority_of N s (b_ctx_id (fc_body ctx)))
                    (cap_registry_did caps) (seconds (lh_max_clock_skew_seconds policy)) (nt_wall N (cl_trace s')) of
               Inr r \<Rightarrow> Inr (Some (Inr r))
             | Inl e \<Rightarrow> if lh_receipts policy = RP_VerifyAndReport then Inr (Some (Inl e)) else Inl e, s')) s)"

definition head_stale :: "lineage_head_policy \<Rightarrow> lineage_head_receipt option \<Rightarrow> instant \<Rightarrow> bool option" where
  "head_stale policy receipt now =
     Option.bind receipt (\<lambda>r. map_option (\<lambda>m. seconds m < now - lr_as_of r) (lh_max_age_seconds policy))"

definition fetch_current_with_policy ::
  "ext \<Rightarrow> net \<Rightarrow> web_resolver \<Rightarrow> lineage_id \<Rightarrow> verification_policy \<Rightarrow> verified_context client_op" where
  "fetch_current_with_policy E N resolve l policy =
     cbind (client_current N l) (\<lambda>ctx.
     cbind (verify_retrieved E N resolve ctx (b_ctx_id (fc_body ctx)) policy) (\<lambda>r.
     cbind (head_phase E N resolve ctx l (vp_lineage_head policy)) (\<lambda>head s.
     let receipt = (case head of Some (Inr h) \<Rightarrow> Some h | _ \<Rightarrow> None) in
     (Inr ((into_context r ctx)\<lparr>vc_verified_head_receipt := receipt,
             vc_head_receipt_stale := head_stale (vp_lineage_head policy) receipt (nt_wall N (cl_trace s)),
             vc_head_receipt_verdict := map_option void head\<rparr>), s))))"

definition fetch_current :: "ext \<Rightarrow> net \<Rightarrow> web_resolver \<Rightarrow> lineage_id \<Rightarrow> verified_context client_op" where
  "fetch_current E N resolve l = fetch_current_with_policy E N resolve l default_verification_policy"


section \<open>After the fetch\<close>

definition vc_verify_receipt :: "ext \<Rightarrow> web_resolver \<Rightarrow> verified_context \<Rightarrow> registry_receipt option acdp_result" where
  "vc_verify_receipt E resolve v =
     (let b = fc_body (vc_inner v) in
      case fc_registry_receipt (vc_inner v) of
        None \<Rightarrow> Inr None
      | Some r \<Rightarrow>
          rbind (signing_fingerprint E resolve b) (\<lambda>fp.
          rbind (verify_receipt_value E resolve r (b_ctx_id b) b (b_content_hash b) fp (ctx_id_authority (b_ctx_id b))) (\<lambda>receipt.
          Inr (Some receipt))))"

definition recheck_revocation ::
  "ext \<Rightarrow> net \<Rightarrow> web_resolver \<Rightarrow> verified_context \<Rightarrow> revocation_policy \<Rightarrow> revocation_assessment client_op" where
  "recheck_revocation E N resolve v policy =
     (let b = fc_body (vc_inner v) in
      cbind (clift (signing_fingerprint E resolve b)) (\<lambda>fp.
      cbind (clift (agent_did_parse (b_agent_id b))) (\<lambda>agent.
      cbind (gather_with_client E N resolve agent policy) (\<lambda>g.
      cret (decide g (Some fp) (placement (vc_placed v)) (rp_accept_historical_receipt_key_for_pre_t policy))))))"

section \<open>Data references\<close>

type_synonym data_ref_fetcher = "location \<Rightarrow> bytes acdp_result"

definition check_sha256 :: "ext \<Rightarrow> bytes \<Rightarrow> content_hash \<Rightarrow> unit acdp_result" where
  "check_sha256 E bs declared =
     rbind (ok_or (strip_prefix ''sha256:'' declared) SchemaViolation) (\<lambda>declared_hex.
     require (hex_encode (x_sha256 E bs) = declared_hex) DataRefHashMismatch)"

definition fetch_and_verify_data_ref :: "ext \<Rightarrow> data_ref \<Rightarrow> data_ref_fetcher \<Rightarrow> bytes acdp_result" where
  "fetch_and_verify_data_ref E dr fetcher =
     (case dr_embedded dr of
        Some emb \<Rightarrow>
          rbind (embedded_decoded_bytes E emb) (\<lambda>bs.
          rbind (if dr_content_hash dr \<noteq> None \<or> em_content_hash emb \<noteq> None then verify_embedded_hash E dr else Inr ()) (\<lambda>_.
          Inr bs))
      | None \<Rightarrow>
          rbind (ok_or (dr_location dr) SchemaViolation) (\<lambda>location.
          rbind (fetcher location) (\<lambda>bs.
          rbind (opt_check (dr_content_hash dr) (check_sha256 E bs)) (\<lambda>_. Inr bs))))"

section \<open>Reports\<close>

record verification_report =
  vr_body_hash_ok :: bool
  vr_signature_ok :: bool
  vr_schema_ok :: bool
  vr_data_ref_embedded :: "nat acdp_result list"
  vr_data_ref_external :: "nat acdp_result option list"
  vr_ctx_id_ok :: bool
  vr_key_status :: "key_authorization option"
  vr_policy_phase_error :: "acdp_error option"
  vr_revocation_discovery :: "discovery_outcome acdp_result option"
  vr_receipt_key_status :: "receipt_key_status option"
  vr_receipt_verdict :: "unit acdp_result option"
  vr_lineage_binding :: "lineage_binding option"
  vr_revocation_verdict :: "revocation_verdict option"
  vr_revocation_hints :: "sourced_revocation list"
  vr_log_inclusion_verdict :: "log_inclusion_verdict option"
  vr_witness_quorum :: "witness_quorum_report acdp_result option"

definition blank_report :: "bool \<Rightarrow> verification_report" where
  "blank_report ctx_id_ok =
     \<lparr>vr_body_hash_ok = False, vr_signature_ok = False, vr_schema_ok = False, vr_data_ref_embedded = [],
      vr_data_ref_external = [], vr_ctx_id_ok = ctx_id_ok, vr_key_status = None, vr_policy_phase_error = None,
      vr_revocation_discovery = None, vr_receipt_key_status = None, vr_receipt_verdict = None, vr_lineage_binding = None,
      vr_revocation_verdict = None, vr_revocation_hints = [], vr_log_inclusion_verdict = None, vr_witness_quorum = None\<rparr>"

definition record_retrieved :: "retrieved \<Rightarrow> verification_report \<Rightarrow> verification_report" where
  "record_retrieved r report = report
     \<lparr>vr_key_status := Some (rt_key_status r), vr_receipt_key_status := map_option pp_key_status (rt_placed r),
      vr_receipt_verdict := rt_receipt_verdict r, vr_lineage_binding := Some (rt_lineage_binding r),
      vr_revocation_discovery := ra_discovery (rt_revocation r), vr_revocation_verdict := Some (ra_verdict (rt_revocation r)),
      vr_revocation_hints := ra_hints (rt_revocation r), vr_log_inclusion_verdict := tv_log (rt_transparency r),
      vr_witness_quorum := tv_witness (rt_transparency r)\<rparr>"

definition embedded_outcome :: "ext \<Rightarrow> data_ref \<Rightarrow> nat acdp_result" where
  "embedded_outcome E dr =
     (case dr_embedded dr of
        Some emb \<Rightarrow>
          if dr_content_hash dr \<noteq> None \<or> em_content_hash emb \<noteq> None then
            rbind (verify_embedded_hash E dr) (\<lambda>_. rbind (embedded_decoded_bytes E emb) (\<lambda>bs. Inr (length bs)))
          else Inr 0
      | None \<Rightarrow> Inr 0)"

definition external_outcome :: "ext \<Rightarrow> data_ref_fetcher option \<Rightarrow> data_ref \<Rightarrow> nat acdp_result option" where
  "external_outcome E fetcher dr =
     (case (fetcher, dr_location dr) of
        (Some f, Some _) \<Rightarrow> Some (rbind (fetch_and_verify_data_ref E dr f) (\<lambda>bs. Inr (length bs)))
      | _ \<Rightarrow> None)"

definition fetch_report_inner ::
  "ext \<Rightarrow> net \<Rightarrow> web_resolver \<Rightarrow> ctx_id \<Rightarrow> verification_policy \<Rightarrow> data_ref_fetcher option \<Rightarrow>
     (verified_context \<times> verification_report) client_op" where
  "fetch_report_inner E N resolve c policy fetcher =
     cbind (client_retrieve N c) (\<lambda>ctx.
     let b = fc_body ctx in
     cbind (clift (require (b_ctx_id b = c) (ContextIdMismatch c (b_ctx_id b)))) (\<lambda>_.
     cbind (clift (if vp_validate_body_schema policy then validate_body_structural E b else Inr ())) (\<lambda>_.
     cbind (verify_retrieved E N resolve ctx c (derived_for_report policy)) (\<lambda>r.
     cret (into_context r ctx,
       record_retrieved r (blank_report True)
         \<lparr>vr_schema_ok := True, vr_data_ref_embedded := map (embedded_outcome E) (b_data_refs b),
          vr_body_hash_ok := True, vr_signature_ok := True,
          vr_data_ref_external := map (external_outcome E fetcher) (b_data_refs b)\<rparr>)))))"

definition fetch_report ::
  "ext \<Rightarrow> net \<Rightarrow> web_resolver \<Rightarrow> ctx_id \<Rightarrow> verification_policy \<Rightarrow> (verified_context \<times> verification_report) client_op" where
  "fetch_report E N resolve c policy = fetch_report_inner E N resolve c policy None"

definition fetch_report_with_fetcher ::
  "ext \<Rightarrow> net \<Rightarrow> web_resolver \<Rightarrow> ctx_id \<Rightarrow> verification_policy \<Rightarrow> data_ref_fetcher \<Rightarrow>
     (verified_context \<times> verification_report) client_op" where
  "fetch_report_with_fetcher E N resolve c policy fetcher = fetch_report_inner E N resolve c policy (Some fetcher)"

definition probes :: "ext \<Rightarrow> web_resolver \<Rightarrow> full_context \<Rightarrow> ctx_id \<Rightarrow> verification_policy \<Rightarrow> verification_report" where
  "probes E resolve ctx c policy =
     (let b = fc_body ctx in
      (blank_report (b_ctx_id b = c))
        \<lparr>vr_schema_ok := (\<not> vp_validate_body_schema policy \<or> is_ok (validate_body_structural E b)),
         vr_data_ref_embedded := map (embedded_outcome E) (b_data_refs b),
         vr_body_hash_ok := is_ok (verify_context_hash E ctx),
         vr_signature_ok := is_ok (verify_body_signature E resolve b),
         vr_data_ref_external := map (\<lambda>_. None) (b_data_refs b)\<rparr>)"

definition all_top_level_pass :: "verification_report \<Rightarrow> bool" where
  "all_top_level_pass report \<longleftrightarrow>
     vr_schema_ok report \<and> vr_body_hash_ok report \<and> vr_signature_ok report \<and> vr_ctx_id_ok report"

definition fetch_report_diagnose ::
  "ext \<Rightarrow> net \<Rightarrow> web_resolver \<Rightarrow> ctx_id \<Rightarrow> verification_policy \<Rightarrow> (verified_context option \<times> verification_report) client_op" where
  "fetch_report_diagnose E N resolve c policy =
     cbind (client_retrieve N c) (\<lambda>ctx s.
       let report = probes E resolve ctx c policy in
       if all_top_level_pass report then
         (case verify_retrieved E N resolve ctx c (derived_for_report policy) s of
            (Inr r, s') \<Rightarrow> (Inr (Some (into_context r ctx), record_retrieved r report), s')
          | (Inl e, s') \<Rightarrow> (Inr (None, report\<lparr>vr_policy_phase_error := Some e\<rparr>), s'))
       else (Inr (None, report), s))"

end
