(* ===== verification/Acdp_Fetch_Correct.thy ===== *)
theory Acdp_Fetch_Correct
  imports Acdp_Fetch Acdp_Discovery_Complete
begin

text \<open>
  What a consumer may conclude from a context that a fetch returned: against any registry, against a
  registry that serves its store, and how the fetch operations and reports relate.
\<close>

section \<open>The phases\<close>

lemma verify_retrieved_ok:
  "verify_retrieved E N resolve ctx c policy s = (Inr r, s') \<longleftrightarrow>
     (\<exists>outcome s1. offline_phase E ctx c policy = Inr () \<and>
        receipt_phase E resolve (vp_receipts policy) ctx c (serving_authority_of N s c) = Inr outcome \<and>
        rt_placed r = verified_placement outcome \<and> rt_receipt_verdict r = map_option void outcome \<and>
        rt_lineage_binding r = lineage_binding_of (fc_body ctx) (rt_placed r \<noteq> None) \<and>
        revocation_phase E N resolve (fc_body ctx) (rt_placed r) (vp_revocations policy) s = (Inr (rt_revocation r), s1) \<and>
        signature_phase E resolve (fc_body ctx) (ra_pre_compromise (rt_revocation r)) (rt_placed r \<noteq> None)
          (vp_historical_keys policy) = Inr (rt_key_status r) \<and>
        status_phase policy ctx = Inr () \<and>
        transparency_phase E N resolve ctx (leaf_material_of ctx outcome) (serving_authority_of N s c) policy s1 =
          (Inr (rt_transparency r), s'))"
  by (cases r) (auto simp: verify_retrieved_def Let_def cbind_ok clift_ok cret_ok)

lemma fetch_ok:
  "fetch_with_policy E N resolve c policy s = (Inr v, s') \<longleftrightarrow>
     (\<exists>ctx s1 r. client_retrieve N c s = (Inr ctx, s1) \<and> verify_retrieved E N resolve ctx c policy s1 = (Inr r, s') \<and>
        v = into_context r ctx)"
  by (auto simp: fetch_with_policy_def cbind_ok cret_ok)

lemma into_context_simps [simp]:
  "vc_inner (into_context r ctx) = ctx" "vc_key_status (into_context r ctx) = rt_key_status r"
  "vc_placed (into_context r ctx) = rt_placed r" "vc_revocation_verdict (into_context r ctx) = ra_verdict (rt_revocation r)"
  "vc_transparency (into_context r ctx) = rt_transparency r" "vc_lineage_binding (into_context r ctx) = rt_lineage_binding r"
  by (simp_all add: into_context_def)

lemma offline_ok:
  "offline_phase E ctx c policy = Inr () \<longleftrightarrow>
     b_ctx_id (fc_body ctx) = c \<and> verify_registry_assigned_bindings E (fc_body ctx) = Inr () \<and>
     (vp_validate_body_schema policy \<longrightarrow> validate_body E (fc_body ctx) = Inr ()) \<and>
     (vp_require_did_web_for_v0_1_0 policy \<longrightarrow> require_did_web_for_v0_1_0 (fc_body ctx) = Inr ()) \<and>
     verify_context_hash E ctx = Inr () \<and> \<not> is_keyless_key_id (sig_key_id (b_signature (fc_body ctx)))"
  by (auto simp: offline_phase_def Let_def rbind_eq_Inr)

lemma receipt_phase_verified:
  assumes "receipt_phase E resolve policy ctx c authority = Inr outcome" and "verified_placement outcome = Some p"
  shows "\<exists>v fp. fc_registry_receipt ctx = Some v \<and> signing_fingerprint E resolve (fc_body ctx) = Inr fp \<and>
    verify_receipt_placed E resolve v c (fc_body ctx) (b_content_hash (fc_body ctx)) fp authority = Inr p"
  using assms
  by (auto simp: receipt_phase_def verified_placement_def rbind_eq_Inr split: receipt_policy.splits option.splits sum.splits if_splits)

lemma receipt_phase_required:
  assumes "receipt_phase E resolve RP_Require ctx c authority = Inr outcome"
  shows "\<exists>p. verified_placement outcome = Some p"
proof (cases "fc_registry_receipt ctx")
  case (Some v)
  then obtain fp where "signing_fingerprint E resolve (fc_body ctx) = Inr fp"
    using assms by (auto simp: receipt_phase_def rbind_eq_Inr)
  then show ?thesis
    using Some assms
    by (cases "verify_receipt_placed E resolve v c (fc_body ctx) (b_content_hash (fc_body ctx)) fp authority")
      (auto simp: receipt_phase_def verified_placement_def)
qed (use assms in \<open>simp add: receipt_phase_def\<close>)

lemma signature_phase_ok:
  assumes "signature_phase E resolve b pre_compromise receipt policy = Inr status"
  shows "(status = CurrentlyAuthorized \<and> \<not> pre_compromise \<and> verify_body_signature E resolve b = Inr ()) \<or>
    (status = HistoricallyAuthorized \<and> \<not> pre_compromise \<and> receipt \<and> policy = HK_AcceptWithReceipt \<and>
       verify_body_signature_historical E resolve b = Inr ()) \<or>
    (status = HistoricallyAuthorizedPreCompromise \<and> pre_compromise \<and>
       (verify_body_signature E resolve b = Inr () \<or> verify_body_signature_historical E resolve b = Inr ()))"
  using assms
  by (auto simp: signature_phase_def rbind_eq_Inr split: if_splits sum.splits acdp_error.splits)

section \<open>The revocation phase\<close>

lemma revocation_phase_ok:
  "revocation_phase E N resolve b placed policy s = (Inr a, s') \<longleftrightarrow>
     (\<exists>run fp. policy_discovery E N resolve (b_agent_id b) policy s = (run, s') \<and>
        (let g = gather E (cl_cache s) (client_authority N s) (b_agent_id b) policy run in
         (if has_in_scope g then rbind (signing_fingerprint E resolve b) (\<lambda>fp. Inr (Some fp)) else Inr None) = Inr fp \<and>
         enforce (decide g fp (placement placed) (rp_accept_historical_receipt_key_for_pre_t policy)) = Inr a))"
  unfolding revocation_phase_def cbind_ok clift_ok gather_with_client_def Let_def
  by (cases "policy_discovery E N resolve (b_agent_id b) policy s") auto

lemma revocation_phase_enforces:
  assumes "revocation_phase E N resolve b placed policy s = (Inr a, s')"
    and "policy_discovery E N resolve (b_agent_id b) policy s = (run, s')"
    and "r \<in> set (ga_in_scope (gather E (cl_cache s) (client_authority N s) (b_agent_id b) policy run))"
    and "signing_fingerprint E resolve b = Inr (sr_revoked_key_fingerprint r)"
  shows "placed_before (placement placed) (rp_accept_historical_receipt_key_for_pre_t policy) (sr_compromised_since r)"
proof -
  let ?g = "gather E (cl_cache s) (client_authority N s) (b_agent_id b) policy run"
  have "has_in_scope ?g" using assms(3) by (auto simp: has_in_scope_def)
  then have "is_ok (enforce (decide ?g (Some (sr_revoked_key_fingerprint r)) (placement placed)
      (rp_accept_historical_receipt_key_for_pre_t policy)))"
    using assms(1,2,4) by (auto simp: revocation_phase_ok Let_def)
  then show ?thesis using assms(3) unfolding enforce_ok[OF gather_typed] decide_refusal by blast
qed


lemma failed_closed:
  assumes "is_ok (enforce (decide (gather E cache vantage agent policy run) fp pl accept))"
    and "rp_discover policy = Some d" "rd_on_failure d = FailClosed"
  shows "\<exists>l attested. run = Inr (l, attested)"
proof (cases run)
  case (Inl e)
  then have g: "ga_discovery (gather E cache vantage agent policy run) = Some (Inl (RevocationUnknown (error_unknown_reason e) e))"
    "ga_on_failure (gather E cache vantage agent policy run) = FailClosed"
    using assms(2,3) by (simp_all add: gather_def Let_def case_prod_beta)
  then show ?thesis
    using assms(1) by (auto simp: enforce_def decide_def Let_def final_discovery_def split: option.splits if_splits revocation_verdict.splits)
qed auto

lemma pre_compromise_placed:
  assumes "enforce (decide g fp pl accept) = Inr a" "ra_pre_compromise a"
  shows "\<exists>T. placed_before pl accept T"
proof -
  have a: "a = decide g fp pl accept"
    using assms(1) by (auto simp: enforce_def split: revocation_verdict.splits if_splits option.splits sum.splits)
  obtain r where "named_verdict r pl accept = RV_Revoked PreCompromise (sr_compromised_since r) r (map_option fst pl)"
    using assms(2) unfolding a by (auto simp: decide_def Let_def named_verdict_def split: option.splits if_splits prod.splits)
  then show ?thesis using named_shape[of r pl accept] by auto
qed

lemma named_is_pre_compromise:
  assumes "r \<in> set (ga_in_scope g)" and "is_ok (enforce (decide g (Some (sr_revoked_key_fingerprint r)) pl accept))"
    and "discovery_typed g"
  shows "ra_pre_compromise (decide g (Some (sr_revoked_key_fingerprint r)) pl accept)"
proof -
  obtain q where q: "fixing_revocation (ga_in_scope g) (sr_revoked_key_fingerprint r) = Some q"
    using assms(1) fixing_None[of "ga_in_scope g" "sr_revoked_key_fingerprint r"] by auto
  then have "placed_before pl accept (sr_compromised_since q)"
    using assms(2) fixingD[OF q] unfolding enforce_ok[OF assms(3)] decide_refusal by blast
  then obtain pl' where "named_verdict q pl accept = RV_Revoked PreCompromise (sr_compromised_since q) q pl'"
    using named_shape[of q pl accept] by auto
  then show ?thesis using q by (simp add: decide_def Let_def)
qed

section \<open>What a fetched context rests on\<close>

text \<open>A receipt that names this body, its hash and its signing key, issued by the serving registry.\<close>

definition receipt_attests :: "ext \<Rightarrow> web_resolver \<Rightarrow> string \<Rightarrow> body \<Rightarrow> placed_receipt \<Rightarrow> bool" where
  "receipt_attests E resolve authority b p \<longleftrightarrow>
     (let r = pp_receipt p in
      rr_ctx_id r = b_ctx_id b \<and> rr_content_hash r = b_content_hash b \<and> rr_created_at r = b_created_at b \<and>
      signing_fingerprint E resolve b = Inr (rr_key_fingerprint r) \<and> rr_registry_did r = authority_to_did_web authority \<and>
      rr_lineage_id r = b_lineage_id b)"

lemma placed_attests:
  assumes "verify_receipt_placed E resolve v (b_ctx_id b) b (b_content_hash b) fp authority = Inr p"
    and "signing_fingerprint E resolve b = Inr fp"
  shows "receipt_attests E resolve authority b p"
  using assms
  by (auto simp: verify_receipt_placed_def rbind_eq_Inr cross_check_def cross_check_body_def receipt_attests_def Let_def)

lemma retrieved_attested:
  assumes "verify_retrieved E N resolve ctx c policy s = (Inr r, s')" and "rt_placed r = Some p"
  shows "receipt_attests E resolve (serving_authority_of N s c) (fc_body ctx) p"
proof -
  obtain outcome where "receipt_phase E resolve (vp_receipts policy) ctx c (serving_authority_of N s c) = Inr outcome"
    "verified_placement outcome = Some p" "b_ctx_id (fc_body ctx) = c"
    using assms by (auto simp: verify_retrieved_ok offline_ok)
  then show ?thesis using receipt_phase_verified placed_attests by metis
qed

lemma retrieved_signed:
  assumes "verify_retrieved E N resolve ctx c policy s = (Inr r, s')"
  shows "verify_body_signature E resolve (fc_body ctx) = Inr () \<and> (rt_key_status r = CurrentlyAuthorized \<or> rt_placed r \<noteq> None) \<or>
    verify_body_signature_historical E resolve (fc_body ctx) = Inr () \<and> rt_key_status r \<noteq> CurrentlyAuthorized \<and> rt_placed r \<noteq> None"
proof -
  obtain s1 where revocation: "revocation_phase E N resolve (fc_body ctx) (rt_placed r) (vp_revocations policy) s = (Inr (rt_revocation r), s1)"
    and sig: "signature_phase E resolve (fc_body ctx) (ra_pre_compromise (rt_revocation r)) (rt_placed r \<noteq> None)
          (vp_historical_keys policy) = Inr (rt_key_status r)"
    using assms by (auto simp: verify_retrieved_ok)
  have "rt_placed r \<noteq> None" if pre: "ra_pre_compromise (rt_revocation r)"
    using revocation pre_compromise_placed[OF _ pre]
    by (fastforce simp: revocation_phase_ok Let_def placed_before_def placement_def)
  then show ?thesis using signature_phase_ok[OF sig] by auto
qed


lemma charged_cache: "charged s s' \<Longrightarrow> cl_cache s' = cl_cache s"
  by (auto simp: charged_def check_discovery_budget_def split: option.splits prod.splits)

lemma retrieve_fields:
  assumes "client_retrieve N c s = (r, s1)"
  shows "cl_cache s1 = cl_cache s" "client_authority N s1 = client_authority N s" "serving_authority_of N s1 = serving_authority_of N s"
proof -
  have "charged s s1" using retrieve_charged[of s N c] assms by simp
  then show "cl_cache s1 = cl_cache s" "client_authority N s1 = client_authority N s" "serving_authority_of N s1 = serving_authority_of N s"
    by (auto simp: charged_cache charged_authority serving_authority_of_def)
qed

lemma fetched_facts:
  assumes fetched: "fetch_with_policy E N resolve c policy s = (Inr v, s')" and b: "b = fc_body (vc_inner v)"
  shows "b_ctx_id b = c \<and> verify_registry_assigned_bindings E b = Inr () \<and> verify_context_hash E (vc_inner v) = Inr ()"
    and "verify_body_signature E resolve b = Inr () \<and> (vc_key_status v = CurrentlyAuthorized \<or> vc_placed v \<noteq> None) \<or>
      verify_body_signature_historical E resolve b = Inr () \<and> vc_key_status v \<noteq> CurrentlyAuthorized \<and> vc_placed v \<noteq> None"
    and "vc_placed v = Some p \<Longrightarrow> receipt_attests E resolve (serving_authority_of N s c) b p"
    and "r \<in> set (known_revocations (cl_cache s) (client_authority N s) (b_agent_id b) (vp_revocations policy)) \<Longrightarrow>
      speaks_for r (b_agent_id b) \<Longrightarrow> signing_fingerprint E resolve b = Inr (sr_revoked_key_fingerprint r) \<Longrightarrow>
      \<exists>p. vc_placed v = Some p \<and> rr_created_at (pp_receipt p) < sr_compromised_since r"
proof -
  obtain ctx s1 t where run: "client_retrieve N c s = (Inr ctx, s1)" "verify_retrieved E N resolve ctx c policy s1 = (Inr t, s')"
    and v: "v = into_context t ctx" using fetched by (auto simp: fetch_ok)
  show "b_ctx_id b = c \<and> verify_registry_assigned_bindings E b = Inr () \<and> verify_context_hash E (vc_inner v) = Inr ()"
    using run(2) by (auto simp: b v verify_retrieved_ok offline_ok)
  show "verify_body_signature E resolve b = Inr () \<and> (vc_key_status v = CurrentlyAuthorized \<or> vc_placed v \<noteq> None) \<or>
      verify_body_signature_historical E resolve b = Inr () \<and> vc_key_status v \<noteq> CurrentlyAuthorized \<and> vc_placed v \<noteq> None"
    using retrieved_signed[OF run(2)] by (simp add: b v)
  show "receipt_attests E resolve (serving_authority_of N s c) b p" if "vc_placed v = Some p"
    using retrieved_attested[OF run(2), of p] that retrieve_fields[OF run(1)] by (simp add: b v)
  show "\<exists>p. vc_placed v = Some p \<and> rr_created_at (pp_receipt p) < sr_compromised_since r"
    if "r \<in> set (known_revocations (cl_cache s) (client_authority N s) (b_agent_id b) (vp_revocations policy))"
      "speaks_for r (b_agent_id b)" "signing_fingerprint E resolve b = Inr (sr_revoked_key_fingerprint r)"
  proof -
    obtain found s2 where phase: "revocation_phase E N resolve b (vc_placed v) (vp_revocations policy) s1 = (Inr (rt_revocation t), s2)"
      and found: "policy_discovery E N resolve (b_agent_id b) (vp_revocations policy) s1 = (found, s2)"
      using run(2) by (auto simp: b v verify_retrieved_ok revocation_phase_ok)
    have "r \<in> set (ga_in_scope (gather E (cl_cache s1) (client_authority N s1) (b_agent_id b) (vp_revocations policy) found))"
      using that(1,2) retrieve_fields[OF run(1)] by (simp add: gather_scope)
    then show ?thesis
      using revocation_phase_enforces[OF phase found _ that(3)] by (auto simp: placed_before_def placement_def)
  qed
qed

text \<open>
  C5. A fetch returns a context only after verification, whatever the registry answers. The body is the
  one asked for and its registry-assigned fields fit it; its hash is the hash of what was received; its
  signature verifies under a key the producer authorizes now, or under one the producer still lists
  and a verified receipt attests, and the reported key status says which. A reported receipt names this
  body, its hash, its time and its signing key and comes from the serving registry. Every revocation
  the consumer knew or had cached that speaks for the producer and names the signing key begins
  strictly after the time that receipt gives.
\<close>

theorem fetched_context_verified:
  assumes "fetch_with_policy E N resolve c policy s = (Inr v, s')" and "b = fc_body (vc_inner v)"
  shows "b_ctx_id b = c \<and> verify_registry_assigned_bindings E b = Inr () \<and> verify_context_hash E (vc_inner v) = Inr () \<and>
    (verify_body_signature E resolve b = Inr () \<and> (vc_key_status v = CurrentlyAuthorized \<or> vc_placed v \<noteq> None) \<or>
     verify_body_signature_historical E resolve b = Inr () \<and> vc_key_status v \<noteq> CurrentlyAuthorized \<and> vc_placed v \<noteq> None) \<and>
    (\<forall>p. vc_placed v = Some p \<longrightarrow> receipt_attests E resolve (serving_authority_of N s c) b p) \<and>
    (\<forall>r\<in>set (known_revocations (cl_cache s) (client_authority N s) (b_agent_id b) (vp_revocations policy)).
       speaks_for r (b_agent_id b) \<and> signing_fingerprint E resolve b = Inr (sr_revoked_key_fingerprint r) \<longrightarrow>
       (\<exists>p. vc_placed v = Some p \<and> rr_created_at (pp_receipt p) < sr_compromised_since r))"
  using fetched_facts[OF assms] by blast

section \<open>Revocations stored on the registry\<close>

lemma discovery_looks_up:
  assumes "run_discovery E N resolve agent d s = (Inr (l, attested), s')"
  shows "\<exists>q q'. find_revocations_lookup E N resolve agent q = (Inr l, q') \<and> cl_cache q = cl_cache s \<and> cl_freshness q = rd_freshness d"
proof -
  define q where "q = with_revocation_freshness (rd_freshness d) (with_discovery_budget (budget_new (rd_max_requests d) (rd_max_bytes d)) s)"
  let ?by = "nt_now N (cl_trace s) + rd_total_timeout d"
  obtain q2 where "joined_lookups E N resolve agent (rd_include_registry_attested d) ?by q = (Inr (l, attested), q2)"
    using assms unfolding run_discovery_def q_def[symmetric] Let_def by (auto split: prod.splits)
  then obtain q1 where "by_deadline N ?by (find_revocations_lookup E N resolve agent) q = (Inr l, q1)"
    by (auto simp: joined_lookups_def cbind_ok cret_ok)
  then have "find_revocations_lookup E N resolve agent q = (Inr l, q1)"
    by (auto simp: by_deadline_def Let_def case_prod_beta prod_eq_iff split: if_splits)
  then show ?thesis by (auto simp: q_def with_revocation_freshness_def with_discovery_budget_def)
qed


text \<open>A consumer without a cache, or one that asks for no cached negative answer, consults the registry.\<close>

lemma unmarked:
  assumes "cl_cache s = None \<or> cl_freshness s = 0"
  shows "marker_lookup N agent cls s = None"
  using assms by (auto simp: marker_lookup_def fresh_marker_def split: option.splits)

lemma discovery_finds_listed:
  assumes registry: "truthful E N env srv g requester now" "reachable sha256 g" "texts_ok g" "b64_roundtrip env"
      "requester \<noteq> None \<or> cap_anonymous_public_reads (srv_caps srv)"
    and listed: "ctx_at g c = Some x" "searchable agent now x"
    and revocation: "y \<in> set (server_lineage srv (b_lineage_id (fc_body x)) requester now g)"
      "listed_revocation E resolve y r" "keeps_signed agent r"
    and policy: "rp_discover policy = Some d" and fresh: "cl_cache s = None \<or> rd_freshness d = 0"
    and run: "policy_discovery E N resolve agent policy s = (Inr (l, attested), s')"
  shows "sourced r (Discovered (case client_authority N s of None \<Rightarrow> [] | Some v \<Rightarrow> v)) \<in>
    set (ga_in_scope (gather E (cl_cache s) (client_authority N s) agent policy (Inr (l, attested))))"
proof -
  obtain q q' where q: "find_revocations_lookup E N resolve agent q = (Inr l, q')" "cl_cache q = cl_cache s" "cl_freshness q = rd_freshness d"
    using run policy discovery_looks_up[of E N resolve agent d s l attested s'] by (auto simp: policy_discovery_def)
  then have "marker_lookup N agent ProducerSigned q = None" using fresh by (intro unmarked) auto
  then have "r \<in> set (lk_revocations l)" using lookup_complete[OF registry listed revocation _ q(1)] by blast
  then show ?thesis using policy signed_speaks[OF revocation(3)] by (auto simp: gather_scope discovered_revocations_def)
qed

text \<open>
  C6. A context signed with a revoked key is refused wherever it came from. Take a registry that answers
  truthfully, though it may refuse or fail at will, and a revocation of a lineage with a searchable
  member in its store. A consumer that discovers there, without relying on a cached negative
  answer, and fails closed, never verifies a context that the revoked key signed at or after the
  compromise, under any receipt and log policy.
\<close>

theorem revoked_context_refused:
  assumes registry: "truthful E N env srv g requester now" "reachable sha256 g" "texts_ok g" "b64_roundtrip env"
      "requester \<noteq> None \<or> cap_anonymous_public_reads (srv_caps srv)"
    and listed: "ctx_at g c = Some x" "searchable agent now x"
    and revocation: "y \<in> set (server_lineage srv (b_lineage_id (fc_body x)) requester now g)"
      "listed_revocation E resolve y r" "keeps_signed agent r"
    and policy: "rp_discover (vp_revocations policy) = Some d" "rd_on_failure d = FailClosed" "cl_cache s = None \<or> rd_freshness d = 0"
    and presented: "b_agent_id (fc_body ctx) = agent" "signing_fingerprint E resolve (fc_body ctx) = Inr (kr_fingerprint r)"
      "kr_compromised_since r \<le> b_created_at (fc_body ctx)"
  shows "\<exists>e s'. verify_retrieved E N resolve ctx expected policy s = (Inl e, s')"
proof (rule ccontr)
  assume "\<not> ?thesis"
  then obtain t s' where ok: "verify_retrieved E N resolve ctx expected policy s = (Inr t, s')"
    by (metis sum.exhaust surj_pair)
  then obtain found s1 where phase: "revocation_phase E N resolve (fc_body ctx) (rt_placed t) (vp_revocations policy) s = (Inr (rt_revocation t), s1)"
    and found: "policy_discovery E N resolve agent (vp_revocations policy) s = (found, s1)"
    using presented(1) by (auto simp: verify_retrieved_ok revocation_phase_ok Let_def)
  let ?g = "gather E (cl_cache s) (client_authority N s) agent (vp_revocations policy) found"
  obtain fp where "enforce (decide ?g fp (placement (rt_placed t)) (rp_accept_historical_receipt_key_for_pre_t (vp_revocations policy))) =
      Inr (rt_revocation t)"
    using phase found presented(1) by (auto simp: revocation_phase_ok Let_def)
  then have "is_ok (enforce (decide ?g fp (placement (rt_placed t)) (rp_accept_historical_receipt_key_for_pre_t (vp_revocations policy))))"
    by (simp add: is_ok_def)
  then obtain l attested where l: "found = Inr (l, attested)" using failed_closed[OF _ policy(1,2)] by blast
  obtain src where "sourced r src \<in> set (ga_in_scope ?g)"
    using discovery_finds_listed[OF registry listed revocation policy(1,3)] found l by blast
  then have "placed_before (placement (rt_placed t)) (rp_accept_historical_receipt_key_for_pre_t (vp_revocations policy)) (kr_compromised_since r)"
    using revocation_phase_enforces[OF phase, of found "sourced r src"] found presented(1,2) by (simp add: sourced_def)
  then obtain p where p: "rt_placed t = Some p" "rr_created_at (pp_receipt p) < kr_compromised_since r"
    by (auto simp: placed_before_def placement_def)
  then show False using retrieved_attested[OF ok p(1)] presented(3) by (simp add: receipt_attests_def Let_def)
qed


definition rv_stolen :: full_context where
  "rv_stolen = (rv_context None)\<lparr>fc_body := (fc_body (rv_context None))
     \<lparr>b_signature := \<lparr>sig_algorithm = ''ed25519'', sig_key_id = ''did:key:zB#zB'', sig_value = replicate 88 CHR ''A''\<rparr>\<rparr>\<rparr>"

definition rv_consumer :: verification_policy where
  "rv_consumer = default_verification_policy\<lparr>vp_revocations := rv_policy\<rparr>"

theorem revoked_context_refused_witness:
  "\<exists>e s'. verify_retrieved rv_ext (rv_net None) sample_resolver rv_stolen sample_ctx rv_consumer rv_client = (Inl e, s')"
proof -
  have "parses_to (signing_fingerprint rv_ext sample_resolver (fc_body rv_stolen)) (kr_fingerprint rv_revocation)" by code_simp
  moreover have "b64_roundtrip demo_env" by (simp add: b64_roundtrip_def demo_env_def)
  moreover have "searchable rv_agent 0 (rv_context None)" by (simp add: searchable_def rv_status)
  moreover have "rv_served None \<in> set (server_lineage sample_server (b_lineage_id (fc_body (rv_context None))) None 0 (rv_store None))"
    by (simp add: server_lineage_def store_lineage_def rv_store_at map_filter_simps can_retrieve_def rv_served_def project_context_def sample_caps_def)
  ultimately show ?thesis
    by (intro revoked_context_refused[where d = producer_signed_only and c = sample_ctx and x = "rv_context None" and y = "rv_served None",
          OF rv_truthful rv_reachable rv_texts _ _ _ _ _ rv_listed rv_keeps])
      (simp_all add: rv_store_at rv_policy_def rv_consumer_def producer_signed_only_def sample_caps_def rv_stolen_def rv_client_def
        rv_revocation_def)
qed

section \<open>Reports\<close>

lemma no_external [simp]: "external_outcome E None dr = None"
  by (simp add: external_outcome_def)

lemma probe_report:
  assumes "all_top_level_pass (probes E resolve ctx c policy)"
  shows "record_retrieved r (probes E resolve ctx c policy) = record_retrieved r (blank_report True)
     \<lparr>vr_schema_ok := True, vr_data_ref_embedded := map (embedded_outcome E) (b_data_refs (fc_body ctx)),
      vr_body_hash_ok := True, vr_signature_ok := True, vr_data_ref_external := map (external_outcome E None) (b_data_refs (fc_body ctx))\<rparr>"
  using assms by (simp add: all_top_level_pass_def probes_def Let_def record_retrieved_def blank_report_def)

lemma report_ok:
  "fetch_report E N resolve c policy s = (Inr (v, report), s') \<longleftrightarrow>
     (\<exists>ctx s1 r. client_retrieve N c s = (Inr ctx, s1) \<and> b_ctx_id (fc_body ctx) = c \<and>
        (vp_validate_body_schema policy \<longrightarrow> validate_body_structural E (fc_body ctx) = Inr ()) \<and>
        verify_retrieved E N resolve ctx c (derived_for_report policy) s1 = (Inr r, s') \<and> v = into_context r ctx \<and>
        report = record_retrieved r (blank_report True)
          \<lparr>vr_schema_ok := True, vr_data_ref_embedded := map (embedded_outcome E) (b_data_refs (fc_body ctx)),
           vr_body_hash_ok := True, vr_signature_ok := True, vr_data_ref_external := map (external_outcome E None) (b_data_refs (fc_body ctx))\<rparr>)"
  unfolding fetch_report_def fetch_report_inner_def Let_def cbind_ok clift_ok cret_ok
  by (cases "vp_validate_body_schema policy") auto

lemma reported_handle:
  "(if p then (case m of (Inr r, s1) \<Rightarrow> (Inr (Some (f r), g r), s1) | (Inl e, s1) \<Rightarrow> (Inr (None, h e), s1)) else (Inr (None, k), s2)) =
     (Inr (Some v, report), s') \<longleftrightarrow> p \<and> (\<exists>r. m = (Inr r, s') \<and> v = f r \<and> report = g r)"
  by (cases m; cases "fst m"; cases p) auto

lemma diagnose_ok:
  "fetch_report_diagnose E N resolve c policy s = (Inr (Some v, report), s') \<longleftrightarrow>
     (\<exists>ctx s1 r. client_retrieve N c s = (Inr ctx, s1) \<and> all_top_level_pass (probes E resolve ctx c policy) \<and>
        verify_retrieved E N resolve ctx c (derived_for_report policy) s1 = (Inr r, s') \<and> v = into_context r ctx \<and>
        report = record_retrieved r (probes E resolve ctx c policy))"
  unfolding fetch_report_diagnose_def Let_def cbind_ok reported_handle by blast

text \<open>
  The diagnostic report hands out a verified context exactly when the plain report does and the
  signing key is authorized right now, and then handle, report and cost are the same. It never hands out
  more, and what it withholds is only what rests on the historical arm.
\<close>

theorem diagnose_agrees_with_report:
  "fetch_report_diagnose E N resolve c policy s = (Inr (Some v, report), s') \<longleftrightarrow>
     fetch_report E N resolve c policy s = (Inr (v, report), s') \<and> verify_body_signature E resolve (fc_body (vc_inner v)) = Inr ()"
proof -
  have "all_top_level_pass (probes E resolve ctx c policy) \<longleftrightarrow> b_ctx_id (fc_body ctx) = c \<and>
      (vp_validate_body_schema policy \<longrightarrow> validate_body_structural E (fc_body ctx) = Inr ()) \<and>
      verify_body_signature E resolve (fc_body ctx) = Inr ()"
    if "verify_retrieved E N resolve ctx c (derived_for_report policy) s1 = (Inr r, s2)" for ctx s1 r s2
    using that by (auto simp: verify_retrieved_ok offline_ok all_top_level_pass_def probes_def Let_def is_ok_iff blank_report_def)
  then show ?thesis unfolding diagnose_ok report_ok by (metis probe_report into_context_simps(1))
qed

lemma structural_of_full: "validate_body E b = Inr () \<Longrightarrow> validate_body_structural E b = Inr ()"
  unfolding validate_body_def validate_body_structural_def validate_body_inner_def checks_Cons_ok if_True if_False each_ok validate_data_ref_def
  by blast

lemma derived_same:
  assumes "verify_retrieved E N resolve ctx c policy s = (Inr r, s')"
  shows "verify_retrieved E N resolve ctx c (derived_for_report policy) s = (Inr r, s')"
proof -
  let ?d = "derived_for_report policy"
  have same: "vp_receipts ?d = vp_receipts policy" "vp_revocations ?d = vp_revocations policy"
    "vp_historical_keys ?d = vp_historical_keys policy" "status_phase ?d ctx = status_phase policy ctx"
    "transparency_phase E N resolve ctx m a ?d = transparency_phase E N resolve ctx m a policy" for m a
    by (simp_all add: derived_for_report_def status_phase_def transparency_phase_def fun_eq_iff split: status.split)
  have "offline_phase E ctx c policy = Inr () \<Longrightarrow> offline_phase E ctx c ?d = Inr ()"
    by (simp add: offline_ok derived_for_report_def)
  then show ?thesis using assms unfolding verify_retrieved_ok same by metis
qed

text \<open>What a fetch accepts, the report accepts with the same handle; the report is lenient on embedded data only.\<close>

lemma report_follows_fetch:
  assumes "fetch_with_policy E N resolve c policy s = (Inr v, s')"
  shows "\<exists>report. fetch_report E N resolve c policy s = (Inr (v, report), s')"
proof -
  obtain ctx s1 r where run: "client_retrieve N c s = (Inr ctx, s1)" "verify_retrieved E N resolve ctx c policy s1 = (Inr r, s')"
    "v = into_context r ctx" using assms by (auto simp: fetch_ok)
  then have "b_ctx_id (fc_body ctx) = c" "vp_validate_body_schema policy \<longrightarrow> validate_body_structural E (fc_body ctx) = Inr ()"
    using structural_of_full by (auto simp: verify_retrieved_ok offline_ok)
  then show ?thesis unfolding report_ok using run derived_same[OF run(2)] by blast
qed


section \<open>What an honest registry serves is accepted\<close>

lemma default_revocation_passes:
  assumes "cl_cache s = None"
  shows "\<exists>a. revocation_phase E N resolve b placed default_revocation_policy s = (Inr a, s) \<and> \<not> ra_pre_compromise a"
proof -
  let ?g = "gather E None (client_authority N s) (b_agent_id b) default_revocation_policy (Inl NotImplemented)"
  have g: "ga_in_scope ?g = []" "ga_unevaluated ?g = []" "ga_discovery ?g = None"
    by (simp_all add: gather_def default_revocation_policy_def known_revocations_def scope_def Let_def)
  then have "ra_verdict (decide ?g None pl accept) = RV_NotRevoked (ga_complete ?g) (ga_registry_attested_checked ?g) (ga_observed_at ?g) \<and>
      \<not> ra_pre_compromise (decide ?g None pl accept)" for pl accept
    by (simp add: decide_def final_discovery_def Let_def)
  then have "enforce (decide ?g None pl accept) = Inr (decide ?g None pl accept) \<and> \<not> ra_pre_compromise (decide ?g None pl accept)" for pl accept
    by (simp add: enforce_def)
  then show ?thesis
    using g assms by (auto simp: revocation_phase_ok Let_def has_in_scope_def policy_discovery_def default_revocation_policy_def clift_def)
qed

lemma signed_not_keyless:
  "verify_body_signature E resolve b = Inr () \<Longrightarrow> \<not> is_keyless_key_id (sig_key_id (b_signature b))"
  by (auto simp: verify_body_signature_def verify_signature_envelope_def rbind_eq_Inr ok_or_eq_Inr refuse_keyless_fragment_def
      is_keyless_key_id_def)

lemma default_fields [simp]:
  "vp_validate_body_schema default_verification_policy" "vp_allow_unknown_status default_verification_policy"
  "vp_receipts default_verification_policy = RP_VerifyIfPresent" "vp_historical_keys default_verification_policy = HK_AcceptWithReceipt"
  "vp_revocations default_verification_policy = default_revocation_policy" "vp_require_did_web_for_v0_1_0 default_verification_policy"
  "vp_log_inclusion default_verification_policy = LP_Ignore" "vp_witness_quorum default_verification_policy = None"
  by (simp_all add: default_verification_policy_def)

text \<open>
  The rule on old bodies: a body that declares no version, or 0.1.0, names \<open>did:web\<close> identifiers only.
  A signed body's key belongs to its agent, so the agent decides.
\<close>

definition version_admitted :: "body \<Rightarrow> bool" where
  "version_admitted b \<longleftrightarrow> b_acdp_version b \<notin> {None, Some ''0.1.0''} \<or> starts_with ''did:web:'' (b_agent_id b)"

lemma version_admitted_passes:
  assumes "version_admitted b" "verify_body_signature E resolve b = Inr ()"
  shows "require_did_web_for_v0_1_0 b = Inr ()"
proof -
  have "\<exists>f. split_once CHR ''#'' (sig_key_id (b_signature b)) = Some (b_agent_id b, f)"
    using assms(2) by (auto simp: verify_body_signature_def verify_signature_envelope_def rbind_eq_Inr ok_or_eq_Inr)
  then show ?thesis
    using assms(1) by (auto simp: version_admitted_def require_did_web_for_v0_1_0_def Let_def)
qed

lemma default_accepts:
  assumes "b_ctx_id (fc_body ctx) = c" "verify_registry_assigned_bindings E (fc_body ctx) = Inr ()" "validate_body E (fc_body ctx) = Inr ()"
    and "version_admitted (fc_body ctx)" "verify_context_hash E ctx = Inr ()"
    and "verify_body_signature E resolve (fc_body ctx) = Inr ()" "cl_cache s = None"
    and "fc_registry_receipt ctx = Some v" "signing_fingerprint E resolve (fc_body ctx) = Inr fp"
    and "verify_receipt_placed E resolve v c (fc_body ctx) (b_content_hash (fc_body ctx)) fp (serving_authority_of N s c) = Inr p"
  shows "\<exists>r. verify_retrieved E N resolve ctx c default_verification_policy s = (Inr r, s) \<and>
    rt_key_status r = CurrentlyAuthorized \<and> rt_placed r = Some p"
proof -
  have offline: "offline_phase E ctx c default_verification_policy = Inr ()"
    using assms(1-6) signed_not_keyless[OF assms(6)] version_admitted_passes[OF assms(4,6)] by (simp add: offline_ok)
  have receipt: "receipt_phase E resolve RP_VerifyIfPresent ctx c (serving_authority_of N s c) = Inr (Some (Inr p))"
    using assms(8-10) by (simp add: receipt_phase_def)
  obtain a where a: "revocation_phase E N resolve (fc_body ctx) (Some p) default_revocation_policy s = (Inr a, s)" "\<not> ra_pre_compromise a"
    using default_revocation_passes[OF assms(7)] by blast
  have sig: "signature_phase E resolve (fc_body ctx) (ra_pre_compromise a) True HK_AcceptWithReceipt = Inr CurrentlyAuthorized"
    using assms(6) a(2) by (simp add: signature_phase_def)
  have status: "status_phase default_verification_policy ctx = Inr ()"
    by (simp add: status_phase_def split: status.split)
  have transparency: "transparency_phase E N resolve ctx m authority default_verification_policy s = (Inr \<lparr>tv_log = None, tv_witness = None\<rparr>, s)"
    for m authority by (simp add: transparency_phase_def wants_capabilities_def evaluate_def evaluate_log_def)
  show ?thesis
    by (simp add: verify_retrieved_def Let_def cbind_def clift_def offline receipt verified_placement_def a(1) sig status
        transparency cret_def)
qed


text \<open>The registry fingerprinted the key that the consumer resolves for this body.\<close>

definition same_key_known :: "ext \<Rightarrow> registry_server \<Rightarrow> web_resolver \<Rightarrow> body \<Rightarrow> bool" where
  "same_key_known E srv resolve b \<longleftrightarrow>
     (\<forall>req p fp. proves E srv req p \<and> pr_signature req = b_signature b \<and> pv_fingerprint p = Some fp \<longrightarrow>
        signing_fingerprint E resolve b = Inr fp)"

lemma honest_accepted:
  assumes server: "server_ok E srv" "receipts_configured srv signer" "served E srv g" "signer_published E resolve signer"
    and held: "retrieve srv c requester now g = Some ctx"
    and wire: "context_wire_ok E ctx" "time_roundtrip E (b_created_at (fc_body ctx))"
      "verify_content_hash (x_sci E) (x_sha256 E) (body_json E (fc_body ctx)) (b_content_hash (fc_body ctx)) = Inr ()"
    and net: "client_retrieve N c s = (Inr (received E ctx), s1)" "client_authority N s = Some (srv_authority srv)" "cl_cache s = None"
    and producer: "verify_body_signature E resolve (fc_body ctx) = Inr ()" "version_admitted (fc_body ctx)"
      "same_key_known E srv resolve (fc_body ctx)"
  shows "\<exists>v p. fetch_with_policy E N resolve c default_verification_policy s = (Inr v, s1) \<and> vc_inner v = received E ctx \<and> vc_key_status v = CurrentlyAuthorized \<and>
    vc_placed v = Some p"
proof -
  obtain x where x: "ctx_at g c = Some x" "ctx = project_context x now" using held by (rule retrieveD)
  have good: "context_good E srv c x" using served_inv[OF server(1,3)] x(1) by (simp add: server_inv_def)
  obtain v fp p where v: "fc_registry_receipt ctx = Some v" "signing_fingerprint E resolve (fc_body ctx) = Inr fp"
    "verify_receipt_placed E resolve v c (fc_body ctx) (b_content_hash (fc_body ctx)) fp (srv_authority srv) = Inr p"
    using served_receipt_accepted[OF server(1-3) held server(4) wire(2)] producer(3) unfolding same_key_known_def by blast
  have s1: "cl_cache s1 = None" "serving_authority_of N s1 c = srv_authority srv"
    using retrieve_fields[OF net(1)] net(2,3) by (simp_all add: serving_authority_of_def)
  have "\<exists>r. verify_retrieved E N resolve (received E ctx) c default_verification_policy s1 = (Inr r, s1) \<and>
    rt_key_status r = CurrentlyAuthorized \<and> rt_placed r = Some p"
    by (rule default_accepts[where v = v and fp = fp])
      (use good x(2) producer v s1 wire received_hash[OF wire(1)] in
        \<open>simp_all add: context_good_def project_context_def received_def\<close>)
  then show ?thesis
    unfolding fetch_ok using net(1) by fastforce
qed

text \<open>
  C11. An honest registry's contexts are accepted. On a registry that signs receipts with a published key,
  take any context it serves that is signed by a key its producer authorizes, whose declared hash is
  that of its canonical rendering, and which declares a version after 0.1.0 or has a \<open>did:web\<close> producer.
  When the network delivers it, a consumer's fetch under the default policy succeeds: the context is
  the stored one, reported as currently authorized and with a verified receipt. Both conditions on
  the body are needed: a registry also stores bodies whose hash only fits the older spelling of
  timestamps, and the default policy refuses a \<open>did:key\<close> body that declares no version.
\<close>

theorem honest_context_fetched:
  assumes server: "server_ok E srv" "receipts_configured srv signer" "served E srv g" "signer_published E resolve signer"
    and held: "retrieve srv c requester now g = Some ctx"
    and wire: "context_wire_ok E ctx" "time_roundtrip E (b_created_at (fc_body ctx))"
      "verify_content_hash (x_sci E) (x_sha256 E) (body_json E (fc_body ctx)) (b_content_hash (fc_body ctx)) = Inr ()"
    and net: "client_retrieve N c s = (Inr (received E ctx), s1)" "client_authority N s = Some (srv_authority srv)" "cl_cache s = None"
    and producer: "verify_body_signature E resolve (fc_body ctx) = Inr ()" "version_admitted (fc_body ctx)"
      "same_key_known E srv resolve (fc_body ctx)"
  shows "\<exists>v p. fetch_with_policy E N resolve c default_verification_policy s = (Inr v, s1) \<and> vc_inner v = received E ctx \<and> vc_key_status v = CurrentlyAuthorized \<and>
    vc_placed v = Some p"
  by (rule honest_accepted[OF assms])

text \<open>The registry of the receipt witnesses, with a network that delivers its one context.\<close>

definition sample_delivery :: "full_context \<Rightarrow> net" where
  "sample_delivery ctx = (rv_net None)\<lparr>nt_context := \<lambda>_. Some (received sample_ext ctx)\<rparr>"

lemma sample_delivered:
  "client_retrieve (sample_delivery ctx) sample_ctx rv_client =
     (Inr (received sample_ext ctx), emit (Sent (GetContext sample_ctx None) None) rv_client)"
  by (simp add: client_retrieve_def cbind_def check_discovery_budget_def send_read_def transmit_def rv_answer_def rv_ok_def
      parse_response_def parse_success_def read_body_capped_def rv_client_def sample_delivery_def rv_net_def MAX_CONTEXT_BYTES_def
      record_discovery_bytes_def emit_def cret_def)

lemma sample_delivery_authority: "client_authority (sample_delivery ctx) rv_client = Some ''r.example''"
  by (simp add: client_authority_def sample_delivery_def)

lemma sample_fingerprints:
  "fingerprint_p256_sec1 sample_ext k = Inl KeyResolution" "fingerprint_pinned_key sample_ext b64 a = Inr fp \<Longrightarrow> False"
  "fingerprint_did_key_material sample_ext m = Inr fp \<Longrightarrow> fp = sample_fp"
proof -
  show p256: "fingerprint_p256_sec1 sample_ext k = Inl KeyResolution" for k
    by (simp add: fingerprint_p256_sec1_def sample_ext_def)
  have "x_b64_decode sample_ext b64 = Some []" by (simp add: sample_ext_def)
  then show "fingerprint_pinned_key sample_ext b64 a = Inr fp \<Longrightarrow> False"
    by (simp add: fingerprint_pinned_key_def p256 split: if_splits)
  show "fingerprint_did_key_material sample_ext m = Inr fp \<Longrightarrow> fp = sample_fp"
    by (cases m) (simp_all add: p256 fingerprint_ed25519_def sample_fp_def)
qed

text \<open>The sample request, declaring a version that admits \<open>did:key\<close> producers.\<close>

definition modern_request :: publish_request where
  "modern_request = sample_request\<lparr>pr_acdp_version := Some ''0.2.0''\<rparr>"

definition modern_body :: body where
  "modern_body = attested_body modern_request"

lemma modern_request_simps [simp]:
  "pr_data_refs modern_request = []" "pr_agent_id modern_request = ''did:key:zA''" "pr_supersedes modern_request = None"
  "pr_context_type modern_request = Analysis" "pr_content_hash modern_request = sample_hash"
  "pr_signature modern_request = pr_signature sample_request"
  by (simp_all add: modern_request_def sample_request_def)

lemma modern_hash: "verify_typed_publish_request_hash sample_ext modern_request = Inr ()"
proof -
  have "publish_request_json sample_ext modern_request = JObject
    [(''version'', json_nat 1), (''supersedes'', JNull), (''agent_id'', JString ''did:key:zA''),
     (''contributors'', JArray []), (''title'', JString ''t''), (''type'', JString ''analysis''),
     (''data_refs'', JArray []), (''derived_from'', JArray []), (''visibility'', JString ''public''),
     (''content_hash'', JString sample_hash), (''signature'', signature_json (pr_signature sample_request)),
     (''acdp_version'', JString ''0.2.0'')]"
    by (simp add: publish_request_json_def modern_request_def sample_request_def to_map_def opt_member_def json_strings_def)
  then show ?thesis unfolding verify_typed_publish_request_hash_def modern_request_simps
    by (simp only:) (rule sample_any_hash, simp add: producer_content_def EXCLUDE_def MAX_JCS_DEPTH_def json_nat_def)
qed

lemma modern_valid: "validate_for_server sample_ext (\<lambda>_. Inr ()) sample_attesting modern_request = Inr ()"
proof -
  have caps: "cap_supported_signature_algorithms sample_caps = [''ed25519'']"
    "cap_supported_did_methods sample_caps = [''did:web'', ''did:key'']"
    "lm_max_payload_bytes (cap_limits sample_caps) = 2048"
    by (simp_all add: sample_caps_def)
  have "validate_registry_limits_and_crypto sample_ext sample_caps (Some ''r.example'') modern_request 0 = Inr ()"
    unfolding validate_registry_limits_and_crypto_def checks_Cons_ok modern_hash
    by (simp add: supports_algorithm_def supports_did_method_def caps did_method_of_def check_key_binding_def
        check_same_registry_def is_interim_key_revocation_form_def)
  moreover have "validate_publish_request sample_ext modern_request = Inr ()"
  proof -
    have "is_ok (validate_semver_pattern ''0.2.0'')" by code_simp
    then have version: "validate_semver_pattern ''0.2.0'' = Inr ()" by (simp add: is_ok_iff)
    note base = sample_request_ok[unfolded validate_publish_request_def checks_Cons_ok]
    show ?thesis
      unfolding validate_publish_request_def checks_Cons_ok
      by (intro conjI) (use base version in \<open>simp_all add: modern_request_def\<close>)
  qed
  moreover have "x_json_len sample_ext v = 0" for v by (simp add: sample_ext_def)
  ultimately show ?thesis by (simp add: validate_for_server_def validate_post_schema_def)
qed

lemma modern_served: "served sample_ext sample_attesting (attested_store modern_request)"
proof -
  have "verify_publish_request_signature_offline sample_ext modern_request = Inr ()"
    using sample_request_signature by (simp add: verify_publish_request_signature_offline_def sample_request_def)
  then show ?thesis using modern_valid by (intro attested_store_served) simp_all
qed

lemma modern_signing: "signing_fingerprint sample_ext resolve modern_body = Inr sample_fp"
proof -
  have "parses_to (signing_fingerprint sample_ext (\<lambda>_. Inl KeyResolution) modern_body) sample_fp" by code_simp
  moreover have "starts_with ''did:key:'' ''did:key:zA''" by code_simp
  ultimately show ?thesis
    by (simp add: signing_fingerprint_def fingerprint_for_key_id_def modern_body_def attested_body_def from_publish_request_def sample_request_def)
qed

lemma modern_key_known: "same_key_known sample_ext sample_attesting sample_resolver modern_body"
proof -
  have "fp = sample_fp" if "proves sample_ext sample_attesting req p" "pr_signature req = b_signature modern_body" "pv_fingerprint p = Some fp" for req p fp
  proof -
    have key: "fingerprint_for_key_id sample_ext resolve (sig_key_id (pr_signature req)) (sig_algorithm (pr_signature req)) = Inr sample_fp" for resolve
      using modern_signing[of resolve] that(2) by (simp add: signing_fingerprint_def)
    show ?thesis
      using that(1,3) unfolding proves_def
      by (auto simp: prove_publish_identity_def prove_publish_identity_did_key_def prove_publish_identity_pinned_def prove_with_fingerprint_def
          key rbind_eq_Inr dest: sample_fingerprints(2,3) split: if_splits)
  qed
  then show ?thesis unfolding same_key_known_def modern_signing by blast
qed

lemma modern_delivered_context:
  obtains v ctx where "ctx = project_context (fresh_context modern_body (Some v)) 0"
    "retrieve sample_attesting sample_ctx None 0 (attested_store modern_request) = Some ctx" "context_wire_ok sample_ext ctx"
proof -
  obtain v where at: "ctx_at (attested_store modern_request) sample_ctx = Some (fresh_context modern_body (Some v))"
    using attested_store_state[of modern_request] by (auto simp: modern_body_def)
  then have "retrieve sample_attesting sample_ctx None 0 (attested_store modern_request) =
      Some (project_context (fresh_context modern_body (Some v)) 0)"
    by (auto simp: retrieve_def store_get_def can_retrieve_def modern_body_def attested_body_def from_publish_request_def
        modern_request_def sample_request_def sample_caps_def project_context_def)
  moreover have "v \<noteq> JNull"
    using served_receipts[OF sample_attesting_ok(1) modern_served at]
    by (auto simp: receipt_good_def receipt_json_def fresh_context_def)
  moreover have "context_wire_ok sample_ext (project_context (fresh_context modern_body None) 0)" by code_simp
  ultimately have "context_wire_ok sample_ext (project_context (fresh_context modern_body (Some v)) 0)"
    by (simp add: context_wire_ok_def project_context_def fresh_context_def)
  with \<open>retrieve _ _ _ _ _ = _\<close> that show thesis by blast
qed

lemma modern_signed_hashed:
  "verify_content_hash (x_sci sample_ext) (x_sha256 sample_ext) (body_json sample_ext modern_body) sample_hash = Inr ()"
  "verify_body_signature sample_ext sample_resolver modern_body = Inr ()" "b_content_hash modern_body = sample_hash" "b_created_at modern_body = 0"
  "version_admitted modern_body"
proof -
  have "is_ok (verify_content_hash (x_sci sample_ext) (x_sha256 sample_ext) (body_json sample_ext modern_body) sample_hash)"
    "is_ok (verify_body_signature sample_ext sample_resolver modern_body)"
    by code_simp+
  then show "verify_content_hash (x_sci sample_ext) (x_sha256 sample_ext) (body_json sample_ext modern_body) sample_hash = Inr ()"
    "verify_body_signature sample_ext sample_resolver modern_body = Inr ()" by (simp_all add: is_ok_iff)
qed (simp_all add: modern_body_def attested_body_def from_publish_request_def modern_request_def sample_request_def trunc_ms_def
    timestamp_millis_def version_admitted_def)

lemmas modern_fetch_conditions = sample_time modern_signed_hashed modern_key_known sample_delivery_authority

lemma rv_uncached: "cl_cache rv_client = None"
  by (simp add: rv_client_def)

theorem honest_context_fetched_witness:
  "\<exists>ctx v p s1. fetch_with_policy sample_ext (sample_delivery ctx) sample_resolver sample_ctx default_verification_policy rv_client = (Inr v, s1) \<and>
     vc_inner v = received sample_ext ctx \<and> vc_key_status v = CurrentlyAuthorized \<and> vc_placed v = Some p"
proof -
  obtain v ctx where ctx: "ctx = project_context (fresh_context modern_body (Some v)) 0"
    "retrieve sample_attesting sample_ctx None 0 (attested_store modern_request) = Some ctx" "context_wire_ok sample_ext ctx"
    by (rule modern_delivered_context)
  have body: "fc_body ctx = modern_body" by (simp add: ctx(1) project_context_def)
  have "\<exists>w p. fetch_with_policy sample_ext (sample_delivery ctx) sample_resolver sample_ctx default_verification_policy rv_client =
      (Inr w, emit (Sent (GetContext sample_ctx None) None) rv_client) \<and>
      vc_inner w = received sample_ext ctx \<and> vc_key_status w = CurrentlyAuthorized \<and> vc_placed w = Some p"
    by (rule honest_context_fetched[OF sample_attesting_ok modern_served sample_published ctx(2,3) _ _ sample_delivered])
      (simp_all add: body modern_fetch_conditions rv_uncached)
  then show ?thesis by blast
qed

theorem fetched_context_verified_witness:
  "\<exists>ctx v p s1. fetch_with_policy sample_ext (sample_delivery ctx) sample_resolver sample_ctx default_verification_policy rv_client = (Inr v, s1) \<and>
     vc_placed v = Some p \<and> verify_context_hash sample_ext (vc_inner v) = Inr () \<and>
     receipt_attests sample_ext sample_resolver (serving_authority_of (sample_delivery ctx) rv_client sample_ctx) (fc_body (vc_inner v)) p"
proof -
  obtain v ctx where ctx: "ctx = project_context (fresh_context modern_body (Some v)) 0"
    "retrieve sample_attesting sample_ctx None 0 (attested_store modern_request) = Some ctx" "context_wire_ok sample_ext ctx"
    by (rule modern_delivered_context)
  have body: "fc_body ctx = modern_body" by (simp add: ctx(1) project_context_def)
  have "\<exists>w p. fetch_with_policy sample_ext (sample_delivery ctx) sample_resolver sample_ctx default_verification_policy rv_client =
      (Inr w, emit (Sent (GetContext sample_ctx None) None) rv_client) \<and>
      vc_inner w = received sample_ext ctx \<and> vc_key_status w = CurrentlyAuthorized \<and> vc_placed w = Some p"
    by (rule honest_accepted[OF sample_attesting_ok modern_served sample_published ctx(2,3) _ _ sample_delivered])
      (simp_all add: body modern_fetch_conditions rv_uncached)
  then obtain w p where w: "fetch_with_policy sample_ext (sample_delivery ctx) sample_resolver sample_ctx default_verification_policy rv_client =
      (Inr w, emit (Sent (GetContext sample_ctx None) None) rv_client)" "vc_placed w = Some p" by blast
  from fetched_context_verified[OF w(1) refl] w show ?thesis by blast
qed

end
