(* ===== verification/Acdp_Retry.thy ===== *)
theory Acdp_Retry
  imports Acdp_Discovery_Correct
begin

text \<open>
  Publishing with retries (\<open>publish_with_retry\<close> in \<open>crates/acdp-client/src/registry.rs\<close>) against the
  registry server: requests and answers may be lost, other clients act in between, and still the
  context is stored at most once. The server's side is the idempotency record of the store.
\<close>

section \<open>Idempotency records name stored contexts\<close>

definition stored_as :: "inner \<Rightarrow> ctx_id \<Rightarrow> agent_did \<Rightarrow> content_hash \<Rightarrow> bool" where
  "stored_as g c agent h \<longleftrightarrow> (\<exists>x. ctx_at g c = Some x \<and> b_agent_id (fc_body x) = agent \<and> b_content_hash (fc_body x) = h)"

lemma stored_as_grows: "stored_as g c agent h \<Longrightarrow> store_grows g g' \<Longrightarrow> stored_as g' c agent h"
  unfolding stored_as_def store_grows_def evolves_def by metis

definition records_ok :: "inner \<Rightarrow> bool" where
  "records_ok g \<longleftrightarrow> (\<forall>k rec. (k, rec) \<in> set (idempotency g) \<longrightarrow>
     stored_as g (resp_ctx_id (ir_response rec)) (fst k) (ir_content_hash rec))"

lemma records_ok_mono:
  assumes "records_ok g" "store_grows g g'" "set (idempotency g') \<subseteq> set (idempotency g)"
  shows "records_ok g'"
  using assms stored_as_grows unfolding records_ok_def by blast

lemma set_update_subset: "set (AList.update k v xs) \<subseteq> insert (k, v) (set xs)"
  by (induction xs) auto

lemma commit_publish_records:
  assumes "commit_publish sha256 uuid commit now g = (r, g')" "records_ok g"
  shows "records_ok g'"
proof (cases rule: commit_publish_cases[OF assms(1)])
  case (2 b receipt)
  note grows = commit_publish_grows[OF assms(1)]
  have b: "b_agent_id b = pr_agent_id (pc_req commit)" "b_content_hash b = pr_content_hash (pc_req commit)"
    by (rule prepare_publishD[OF 2(2)]; simp add: from_publish_request_def)+
  have new: "\<exists>x. ctx_at g' (b_ctx_id b) = Some x \<and> fc_body x = b"
    using 2(3) by (auto simp: ctx_at_published fresh_context_def supersede_def split: option.split)
  have sub: "idempotency g' = idempotency g \<or> (\<exists>(idem :: pending_idempotency) e. set (idempotency g') \<subseteq> insert ((pr_agent_id (pc_req commit), pi_key idem),
      \<lparr>ir_content_hash = pr_content_hash (pc_req commit), ir_response = publish_response_of (pc_req commit) b receipt, ir_expires_at = e\<rparr>)
      (set (idempotency g)))"
  proof (cases "pc_idempotency commit")
    case None
    then show ?thesis using assms(1) 2(1,2) by (auto simp: commit_publish_def Let_def split: option.splits)
  next
    case (Some idem)
    have "idempotency g' = AList.update (pr_agent_id (pc_req commit), pi_key idem)
        \<lparr>ir_content_hash = pr_content_hash (pc_req commit), ir_response = publish_response_of (pc_req commit) b receipt,
         ir_expires_at = now + pi_ttl idem\<rparr> (idempotency g)"
      using Some assms(1) 2(1,2) by (auto simp: commit_publish_def Let_def store_idempotency_record_def split: option.splits)
    from order_trans[OF equalityD1[OF arg_cong[OF this, of set]] set_update_subset] show ?thesis by blast
  qed
  show ?thesis
    using sub
  proof (elim disjE exE)
    fix idem :: pending_idempotency and e assume *: "set (idempotency g') \<subseteq> insert ((pr_agent_id (pc_req commit), pi_key idem),
      \<lparr>ir_content_hash = pr_content_hash (pc_req commit), ir_response = publish_response_of (pc_req commit) b receipt, ir_expires_at = e\<rparr>)
      (set (idempotency g))"
    have old: "stored_as g' (resp_ctx_id (ir_response rec)) (fst k) (ir_content_hash rec)" if "(k, rec) \<in> set (idempotency g)" for k rec
      using assms(2) stored_as_grows[OF _ grows] that unfolding records_ok_def by blast
    have "stored_as g' (b_ctx_id b) (pr_agent_id (pc_req commit)) (pr_content_hash (pc_req commit))"
      using new b by (auto simp: stored_as_def)
    then show ?thesis
      unfolding records_ok_def using * old by (auto simp: publish_response_of_def)
  qed (rule records_ok_mono[OF assms(2) grows], simp)
qed (use assms in simp)

lemma step_records:
  assumes "records_ok g" "store_step sha256 now g g'"
  shows "records_ok g'"
  using assms(2)
proof (cases rule: store_step.cases)
  case publish
  then show ?thesis using commit_publish_records assms(1) by blast
next
  case lifecycle
  then have "idempotency g' = idempotency g" by (auto elim!: lifecycle_cases)
  then show ?thesis using records_ok_mono[OF assms(1) step_store_grows[OF assms(2)]] by simp
next
  case idempotency_read
  then have "set (idempotency g') \<subseteq> set (idempotency g)" by (auto simp: idempotency_lookup_def Let_def idempotency_evict_expired_def)
  then show ?thesis using records_ok_mono[OF assms(1) step_store_grows[OF assms(2)]] by simp
next
  case evict
  then have "set (idempotency g') \<subseteq> set (idempotency g)" by (auto simp: idempotency_evict_expired_def)
  then show ?thesis using records_ok_mono[OF assms(1) step_store_grows[OF assms(2)]] by simp
qed

interpretation records: transition_system "any_step sha256" records_ok for sha256
  by unfold_locales (auto simp: any_step_def intro: step_records)

lemma steps_before_any: "steps_before sha256 t g g' \<Longrightarrow> (any_step sha256)\<^sup>*\<^sup>* g g'"
  unfolding steps_before_def by (erule rtranclp_mono[THEN predicate2D, rotated]) (auto simp: any_step_def)

lemma rtranclp_grows: "(any_step sha256)\<^sup>*\<^sup>* g g' \<Longrightarrow> store_grows g g'"
  by (induction rule: rtranclp_induct) (auto simp: any_step_def intro: store_grows_refl store_grows_trans step_store_grows)


section \<open>A registry behind a lossy network\<close>

text \<open>
  What happens on the registry's side, as functions of what the client has done so far: whether the
  request sent next arrives, what the identity proof of the endpoint gives, the clock, the fresh UUID
  and the store at that moment.
\<close>

record world =
  wd_srv :: registry_server
  wd_arrives :: "client_event list \<Rightarrow> bool"
  wd_prove :: "client_event list \<Rightarrow> proven acdp_result"
  wd_uuid :: "client_event list \<Rightarrow> string"
  wd_now :: "client_event list \<Rightarrow> instant"
  wd_store :: "client_event list \<Rightarrow> inner"

definition wd_handle :: "ext \<Rightarrow> world \<Rightarrow> string \<Rightarrow> client_event list \<Rightarrow> publish_outcome acdp_result \<times> inner" where
  "wd_handle E W key tr = commit_if_proven E (wd_srv W) (wd_uuid W tr) (wd_now W tr) (wd_prove W tr) (Some key) (wd_store W tr)"

definition wd_after :: "ext \<Rightarrow> world \<Rightarrow> string \<Rightarrow> client_event list \<Rightarrow> inner" where
  "wd_after E W key tr = (if wd_arrives W tr then snd (wd_handle E W key tr) else wd_store W tr)"

definition key_ttl :: "world \<Rightarrow> int" where
  "key_ttl W = 1000000000 * int (unat (unwrap_or (lm_idempotency_key_ttl_seconds (cap_limits (srv_caps (wd_srv W)))) 86400))"

text \<open>
  The network and the registry fit together for one request and key until \<open>deadline\<close>: the registry
  proves identity by one of its endpoints and keeps idempotency keys beyond the deadline; between two
  moments other operations may run on the store; a client that gets a response got the one the server
  gave to this very attempt. Nothing is said of attempts that fail.
\<close>

definition linked :: "ext \<Rightarrow> net \<Rightarrow> world \<Rightarrow> publish_request \<Rightarrow> string \<Rightarrow> instant \<Rightarrow> bool" where
  "linked E N W req key deadline \<longleftrightarrow>
     cap_supports_idempotency_key (srv_caps (wd_srv W)) \<and>
     (\<forall>tr. wd_now W tr < deadline \<and> deadline \<le> wd_now W tr + key_ttl W \<and>
        (\<forall>p. wd_prove W tr = Inr p \<longrightarrow> proves E (wd_srv W) req p) \<and>
        steps_before (x_sha256 E) deadline (wd_after E W key tr) (wd_store W (tr @ [Sent (PostContext req (Some key)) None])) \<and>
        (\<forall>w. steps_before (x_sha256 E) deadline (wd_store W tr) (wd_store W (tr @ [Slept w])))) \<and>
     (\<forall>s resp s'. publish_idempotent N req key s = (Inr resp, s') \<longrightarrow>
        wd_arrives W (cl_trace s) \<and> (\<exists>out. fst (wd_handle E W key (cl_trace s)) = Inr out \<and> into_response out = resp))"

definition live_record :: "publish_request \<Rightarrow> string \<Rightarrow> instant \<Rightarrow> inner \<Rightarrow> idempotency_record \<Rightarrow> bool" where
  "live_record req key deadline g rec \<longleftrightarrow>
     map_of (idempotency g) (pr_agent_id req, key) = Some rec \<and> deadline \<le> ir_expires_at rec"

lemma commit_keyed:
  assumes "commit_publish sha256 uuid commit now g = (r, g')" "pc_idempotency commit = Some idem"
    and k: "k = (pr_agent_id (pc_req commit), pi_key idem)"
  shows "g' = g \<and> (\<forall>out. r = Inr out \<longrightarrow> (\<exists>rec. map_of (idempotency g) k = Some rec \<and>
        ir_content_hash rec = pr_content_hash (pc_req commit) \<and> out = IdempotentReplay (ir_response rec))) \<or>
    (\<exists>rec. map_of (idempotency g') k = Some rec \<and> ir_content_hash rec = pr_content_hash (pc_req commit) \<and>
        ir_expires_at rec = now + pi_ttl idem \<and> r = Inr (Inserted (ir_response rec)) \<and> idempotency_answer commit now g = None)"
proof (cases "idempotency_answer commit now g")
  case None
  then show ?thesis
    using assms by (auto simp: commit_publish_def Let_def store_idempotency_record_def update_conv' split: sum.splits prod.splits)
next
  case (Some answer)
  then show ?thesis
    using assms by (auto simp: commit_publish_def idempotency_answer_def split: option.splits if_splits)
qed


lemma handle_cases:
  assumes linked: "linked E N W req key deadline" and run: "wd_handle E W key tr = (r, g')"
  shows "g' = wd_store W tr \<and> (\<forall>out. r = Inr out \<longrightarrow> (\<exists>rec. map_of (idempotency g') (pr_agent_id req, key) = Some rec \<and>
        ir_content_hash rec = pr_content_hash req \<and> into_response out = ir_response rec)) \<or>
    (\<exists>rec. live_record req key deadline g' rec \<and> ir_content_hash rec = pr_content_hash req \<and>
        (\<forall>out. r = Inr out \<longrightarrow> into_response out = ir_response rec) \<and> (\<nexists>rec. live_record req key deadline (wd_store W tr) rec))"
proof (cases "wd_prove W tr")
  case (Inl e)
  then show ?thesis using run by (auto simp: wd_handle_def commit_if_proven_def)
next
  case (Inr p)
  have "proves E (wd_srv W) req p" using linked Inr unfolding linked_def by blast
  then have p: "pv_req p = req" by (rule provesD(1))
  have run': "commit_proven E (wd_srv W) (wd_uuid W tr) (wd_now W tr) p (Some key) (wd_store W tr) = (r, g')"
    using run Inr by (simp add: wd_handle_def commit_if_proven_def)
  let ?c = "pending_commit E (wd_srv W) req (Some key) (pv_fingerprint p)"
  have c: "pc_req ?c = req" "pc_idempotency ?c = Some \<lparr>pi_key = key, pi_ttl = key_ttl W\<rparr>"
    using linked by (simp_all add: pending_commit_def linked_def key_ttl_def)
  have times: "wd_now W tr < deadline" "deadline \<le> wd_now W tr + key_ttl W" using linked by (auto simp: linked_def)
  consider "g' = wd_store W tr" "\<exists>e. r = Inl e"
    | r0 where "commit_publish (x_sha256 E) (wd_uuid W tr) ?c (wd_now W tr) (wd_store W tr) = (r0, g')" "r = r0 \<or> (\<exists>e. r = Inl e)"
    using run' p by (auto simp: commit_proven_def commit_via_store_def split: if_splits prod.splits sum.splits)
  then show ?thesis
  proof cases
    case 2
    have dead: "\<nexists>rec. live_record req key deadline (wd_store W tr) rec" if "idempotency_answer ?c (wd_now W tr) (wd_store W tr) = None"
      using that times(1) c by (auto simp: idempotency_answer_def live_record_def)
    show ?thesis
      using commit_keyed[OF 2(1) c(2) refl] 2(2) c times(2) dead by (auto simp: live_record_def)
  qed auto
qed

section \<open>At most once\<close>

text \<open>The \<open>i\<close>-th event of the trace is an attempt that changed the set of stored contexts.\<close>

definition stores_at :: "ext \<Rightarrow> world \<Rightarrow> publish_request \<Rightarrow> string \<Rightarrow> client_event list \<Rightarrow> nat \<Rightarrow> bool" where
  "stores_at E W req key T i \<longleftrightarrow> i < length T \<and> T ! i = Sent (PostContext req (Some key)) None \<and> wd_arrives W (take i T) \<and>
     by_ctx (snd (wd_handle E W key (take i T))) \<noteq> by_ctx (wd_store W (take i T))"

lemma attempt_effect:
  assumes linked: "linked E N W req key deadline"
    and tr': "tr' = tr @ [Sent (PostContext req (Some key)) None]"
  shows "live_record req key deadline (wd_store W tr) rec \<Longrightarrow> live_record req key deadline (wd_store W tr') rec"
    and "live_record req key deadline (wd_store W tr) rec \<Longrightarrow> \<not> stores_at E W req key (tr' @ evs) (length tr)"
    and "stores_at E W req key (tr' @ evs) (length tr) \<Longrightarrow> \<exists>rec. live_record req key deadline (wd_store W tr') rec"
proof -
  obtain r g' where h: "wd_handle E W key tr = (r, g')" by (cases "wd_handle E W key tr")
  have steps: "steps_before (x_sha256 E) deadline (wd_after E W key tr) (wd_store W tr')"
    using linked tr' by (simp add: linked_def)
  have keep: "live_record req key deadline (wd_store W tr') rec" if "live_record req key deadline (wd_after E W key tr) rec" for rec
    using steps_keep_live[OF steps] that by (auto simp: live_record_def)
  have after: "wd_after E W key tr = (if wd_arrives W tr then g' else wd_store W tr)" by (simp add: wd_after_def h)
  show "live_record req key deadline (wd_store W tr') rec" if "live_record req key deadline (wd_store W tr) rec"
    using handle_cases[OF linked h] that keep after by (auto split: if_splits)
  show "\<not> stores_at E W req key (tr' @ evs) (length tr)" if "live_record req key deadline (wd_store W tr) rec"
    using handle_cases[OF linked h] that by (auto simp: stores_at_def tr' h)
  show "\<exists>rec. live_record req key deadline (wd_store W tr') rec" if "stores_at E W req key (tr' @ evs) (length tr)"
  proof -
    have "wd_arrives W tr" "by_ctx g' \<noteq> by_ctx (wd_store W tr)" using that by (auto simp: stores_at_def tr' h)
    then show ?thesis using handle_cases[OF linked h] keep after by auto
  qed
qed

lemma sleep_keeps:
  "linked E N W req key deadline \<Longrightarrow> live_record req key deadline (wd_store W tr) rec \<Longrightarrow>
     live_record req key deadline (wd_store W (tr @ [Slept w])) rec"
  using steps_keep_live unfolding linked_def live_record_def by blast

lemma publish_trace: "publish_idempotent N req key s = (r, s') \<Longrightarrow> cl_trace s' = cl_trace s @ [Sent (PostContext req (Some key)) None]"
  by (auto simp: publish_idempotent_def post_context_def cbind_def transmit_def emit_def parse_response_def cret_def split: sum.splits)

lemma attempts_once:
  assumes linked: "linked E N W req key deadline" and "publish_attempts N req key left a le s = (r, s')"
  shows "\<exists>evs. cl_trace s' = cl_trace s @ evs \<and> sent_count evs \<le> left \<and>
    ((\<exists>rec. live_record req key deadline (wd_store W (cl_trace s)) rec) \<longrightarrow>
       (\<forall>i\<ge>length (cl_trace s). \<not> stores_at E W req key (cl_trace s') i)) \<and>
    (\<forall>i\<ge>length (cl_trace s). \<forall>j\<ge>length (cl_trace s). stores_at E W req key (cl_trace s') i \<longrightarrow> stores_at E W req key (cl_trace s') j \<longrightarrow> i = j)"
  using assms(2)
proof (induction left arbitrary: a le s)
  case 0
  then show ?case by (auto simp: stores_at_def)
next
  case (Suc left)
  let ?tr = "cl_trace s" and ?tr1 = "cl_trace s @ [Sent (PostContext req (Some key)) None]"
  obtain r1 s1 where one: "publish_idempotent N req key s = (r1, s1)" by (cases "publish_idempotent N req key s")
  note tr1 = publish_trace[OF one]
  note effect = attempt_effect[OF linked refl, of ?tr]
  show ?case
  proof (cases "s' = s1")
    case True
    have "i = length ?tr" if "i \<ge> length ?tr" "stores_at E W req key ?tr1 i" for i using that by (auto simp: stores_at_def)
    then show ?thesis
      using True tr1 effect(2)[of _ "[]"] by (intro exI[of _ "[Sent (PostContext req (Some key)) None]"]) auto
  next
    case False
    then obtain e w where rest: "publish_attempts N req key left (a + 1) (Some e) (emit (Slept w) s1) = (r, s')"
      using Suc.prems one by (auto split: sum.splits if_splits option.splits)
    let ?s2 = "emit (Slept w) s1"
    have tr2: "cl_trace ?s2 = ?tr1 @ [Slept w]" by (simp add: emit_def tr1)
    obtain evs where IH: "cl_trace s' = cl_trace ?s2 @ evs" "sent_count evs \<le> left"
      "(\<exists>rec. live_record req key deadline (wd_store W (cl_trace ?s2)) rec) \<Longrightarrow> (\<forall>i\<ge>length (cl_trace ?s2). \<not> stores_at E W req key (cl_trace s') i)"
      "\<forall>i\<ge>length (cl_trace ?s2). \<forall>j\<ge>length (cl_trace ?s2). stores_at E W req key (cl_trace s') i \<longrightarrow> stores_at E W req key (cl_trace s') j \<longrightarrow> i = j"
      using Suc.IH[OF rest] by blast
    have T: "cl_trace s' = ?tr1 @ (Slept w # evs)" using IH(1) tr2 by simp
    have slept: "\<not> stores_at E W req key (cl_trace s') (Suc (length ?tr))" by (simp add: stores_at_def T nth_append)
    have range: "i = length ?tr \<or> i = Suc (length ?tr) \<or> i \<ge> length (cl_trace ?s2)" if "i \<ge> length ?tr" for i
      using that tr2 by auto
    have later: "\<forall>i\<ge>length (cl_trace ?s2). \<not> stores_at E W req key (cl_trace s') i"
      if "live_record req key deadline (wd_store W ?tr1) rec" for rec
      using IH(3) sleep_keeps[OF linked that, of w] tr2 by auto
    have first: "\<not> stores_at E W req key (cl_trace s') (length ?tr)" if "live_record req key deadline (wd_store W ?tr) rec" for rec
      using effect(2)[OF that, of "Slept w # evs"] T by simp
    have blocks: "\<forall>i\<ge>length (cl_trace ?s2). \<not> stores_at E W req key (cl_trace s') i" if "stores_at E W req key (cl_trace s') (length ?tr)"
      using effect(3)[of "Slept w # evs"] that T later by auto
    show ?thesis
    proof (intro exI[of _ "Sent (PostContext req (Some key)) None # Slept w # evs"] conjI impI allI)
      fix i assume "\<exists>rec. live_record req key deadline (wd_store W ?tr) rec" "i \<ge> length ?tr"
      then show "\<not> stores_at E W req key (cl_trace s') i"
        using range[of i] first later effect(1) slept by blast
    next
      fix i j assume "i \<ge> length ?tr" "j \<ge> length ?tr" "stores_at E W req key (cl_trace s') i" "stores_at E W req key (cl_trace s') j"
      then show "i = j" using range[of i] range[of j] slept blocks IH(4) by metis
    qed (use T IH(2) in auto)
  qed
qed


section \<open>What a response means\<close>

lemma handle_records:
  assumes linked: "linked E N W req key deadline" and ok: "records_ok (wd_store W tr)"
  shows "records_ok (snd (wd_handle E W key tr))"
proof (cases "wd_prove W tr")
  case (Inr p)
  obtain r g' where run: "commit_proven E (wd_srv W) (wd_uuid W tr) (wd_now W tr) p (Some key) (wd_store W tr) = (r, g')"
    by (cases "commit_proven E (wd_srv W) (wd_uuid W tr) (wd_now W tr) p (Some key) (wd_store W tr)")
  then have "records_ok g'" using ok commit_publish_records by (cases rule: commit_proven_cases) blast+
  then show ?thesis using Inr run by (simp add: wd_handle_def commit_if_proven_def)
qed (use ok in \<open>simp add: wd_handle_def commit_if_proven_def\<close>)

lemma attempt_records:
  assumes linked: "linked E N W req key deadline" and ok: "records_ok (wd_store W tr)"
  shows "records_ok (wd_store W (tr @ [Sent (PostContext req (Some key)) None]))" "records_ok (wd_store W (tr @ [Slept w]))"
proof -
  have steps: "steps_before (x_sha256 E) deadline (wd_after E W key tr) (wd_store W (tr @ [Sent (PostContext req (Some key)) None]))"
    "steps_before (x_sha256 E) deadline (wd_store W tr) (wd_store W (tr @ [Slept w]))"
    using linked unfolding linked_def by blast+
  show "records_ok (wd_store W (tr @ [Sent (PostContext req (Some key)) None]))"
    using records.steps_inv[OF steps_before_any[OF steps(1)]] handle_records[OF linked ok] ok by (simp add: wd_after_def)
  show "records_ok (wd_store W (tr @ [Slept w]))"
    using records.steps_inv[OF steps_before_any[OF steps(2)] ok] .
qed

lemma answered_stored:
  assumes linked: "linked E N W req key deadline" and ok: "records_ok (wd_store W (cl_trace s))"
    and run: "publish_idempotent N req key s = (Inr resp, s')"
  shows "stored_as (wd_store W (cl_trace s')) (resp_ctx_id resp) (pr_agent_id req) (pr_content_hash req)"
proof -
  let ?tr = "cl_trace s"
  obtain r g' where h: "wd_handle E W key ?tr = (r, g')" by (cases "wd_handle E W key ?tr")
  obtain out where out: "wd_arrives W ?tr" "r = Inr out" "into_response out = resp"
  proof -
    have "wd_arrives W ?tr \<and> (\<exists>out. fst (wd_handle E W key ?tr) = Inr out \<and> into_response out = resp)"
      using linked run unfolding linked_def by blast
    then show ?thesis using that h by auto
  qed
  obtain rec where rec: "map_of (idempotency g') (pr_agent_id req, key) = Some rec" "ir_content_hash rec = pr_content_hash req"
    "ir_response rec = resp"
    using handle_cases[OF linked h] out by (auto simp: live_record_def)
  have "records_ok g'" using handle_records[OF linked ok] h by simp
  then have stored: "stored_as g' (resp_ctx_id resp) (pr_agent_id req) (pr_content_hash req)"
    using map_of_SomeD[OF rec(1)] rec(2,3) unfolding records_ok_def by force
  have "steps_before (x_sha256 E) deadline (wd_after E W key ?tr) (wd_store W (cl_trace s'))"
    using linked publish_trace[OF run] by (simp add: linked_def)
  then have "store_grows g' (wd_store W (cl_trace s'))"
    using rtranclp_grows[OF steps_before_any] out(1) h by (simp add: wd_after_def)
  then show ?thesis by (rule stored_as_grows[OF stored])
qed

lemma attempts_answer:
  assumes linked: "linked E N W req key deadline" and "publish_attempts N req key left a le s = (Inr resp, s')"
    and "records_ok (wd_store W (cl_trace s))"
  shows "stored_as (wd_store W (cl_trace s')) (resp_ctx_id resp) (pr_agent_id req) (pr_content_hash req)"
  using assms(2,3)
proof (induction left arbitrary: a le s)
  case (Suc left)
  obtain r1 s1 where one: "publish_idempotent N req key s = (r1, s1)" by (cases "publish_idempotent N req key s")
  have ok: "records_ok (wd_store W (cl_trace (emit (Slept w) s1)))" for w
    using attempt_records(2)[OF linked attempt_records(1)[OF linked Suc.prems(2)], of w] publish_trace[OF one] by (simp add: emit_def)
  show ?case
  proof (cases r1)
    case (Inr resp')
    then show ?thesis using Suc.prems one answered_stored[OF linked] by simp
  next
    case (Inl e)
    then obtain w where "publish_attempts N req key left (a + 1) (Some e) (emit (Slept w) s1) = (Inr resp, s')"
      using Suc.prems one by (auto split: if_splits option.splits)
    from Suc.IH[OF this ok] show ?thesis .
  qed
qed simp

lemma retry_wait_bounds: "retry_wait e a = Some w \<Longrightarrow> w \<le> MAX_RETRY_AFTER_WAIT \<and> (\<forall>ra. retry_after e = Some ra \<longrightarrow> ra \<le> w)"
proof -
  have "(2 :: nat) ^ min a 3 \<le> 2 ^ 3" by (rule power_increasing) auto
  then have "backoff a \<le> MAX_RETRY_AFTER_WAIT" by (simp add: backoff_def MAX_RETRY_AFTER_WAIT_def)
  then show "retry_wait e a = Some w \<Longrightarrow> ?thesis" by (auto simp: retry_wait_def split: option.splits if_splits)
qed

lemma attempts_waits:
  assumes "publish_attempts N req key left a le s = (r, s')" "Slept w \<in> set (cl_trace s')"
  shows "Slept w \<in> set (cl_trace s) \<or> w \<le> MAX_RETRY_AFTER_WAIT"
  using assms(1)
proof (induction left arbitrary: a le s)
  case 0
  then show ?case using assms(2) by simp
next
  case (Suc left)
  obtain r1 s1 where one: "publish_idempotent N req key s = (r1, s1)" by (cases "publish_idempotent N req key s")
  show ?case
  proof (cases "s' = s1")
    case True
    then show ?thesis using assms(2) publish_trace[OF one] by simp
  next
    case False
    then obtain e v where rest: "publish_attempts N req key left (a + 1) (Some e) (emit (Slept v) s1) = (r, s')" "retry_wait e a = Some v"
      using Suc.prems one by (auto split: sum.splits if_splits option.splits)
    then show ?thesis using Suc.IH[OF rest(1)] retry_wait_bounds[OF rest(2)] publish_trace[OF one] by (auto simp: emit_def)
  qed
qed

text \<open>
  C16. Publishing with retries stores the context at most once. Take a registry that supports idempotency
  keys, a network that may lose requests and answers, and other clients acting in between. Among all
  attempts of one call, at most one changes the set of stored contexts, so long as the key has not
  expired. A call that succeeds returns a context of the producer with the requested content hash that
  is in the store. The call makes at most the given number of attempts, and never sleeps longer than a
  minute at a time.
\<close>

theorem retried_publish_stores_once:
  assumes "linked E N W req key deadline" and "reachable (x_sha256 E) (wd_store W (cl_trace s))"
    and "publish_with_retry N req key n s = (r, s')"
  shows "(\<forall>i\<ge>length (cl_trace s). \<forall>j\<ge>length (cl_trace s).
      stores_at E W req key (cl_trace s') i \<and> stores_at E W req key (cl_trace s') j \<longrightarrow> i = j) \<and>
    (\<forall>resp. r = Inr resp \<longrightarrow> stored_as (wd_store W (cl_trace s')) (resp_ctx_id resp) (pr_agent_id req) (pr_content_hash req)) \<and>
    sent_count (cl_trace s') \<le> sent_count (cl_trace s) + max (unat n) 1 \<and>
    (\<forall>w. Slept w \<in> set (cl_trace s') \<longrightarrow> Slept w \<in> set (cl_trace s) \<or> w \<le> MAX_RETRY_AFTER_WAIT)"
proof -
  note run = assms(3)[unfolded publish_with_retry_def]
  have "records_ok new_store" by (simp add: records_ok_def new_store_def)
  then have ok: "records_ok (wd_store W (cl_trace s))" using records.steps_inv assms(2) unfolding reachable_def by blast
  have answer: "stored_as (wd_store W (cl_trace s')) (resp_ctx_id resp) (pr_agent_id req) (pr_content_hash req)" if "r = Inr resp" for resp
    using attempts_answer[OF assms(1) run[unfolded that] ok] .
  show ?thesis
  proof (intro conjI)
    show "sent_count (cl_trace s') \<le> sent_count (cl_trace s) + max (unat n) 1"
      using attempts_once[OF assms(1) run] by auto
  qed (use attempts_once[OF assms(1) run] answer attempts_waits[OF run] in blast)+
qed

section \<open>Witness\<close>

text \<open>The first attempt is stored but its answer is lost; the second gets the recorded answer.\<close>

definition once_store :: inner where
  "once_store = snd (commit_if_proven sample_ext sample_server sample_uuid 0 (Inr sample_proof) (Some ''k'') new_store)"

definition once_response :: publish_response where
  "once_response = publish_response_of sample_request sample_body None"

definition once_world :: world where
  "once_world = \<lparr>wd_srv = sample_server, wd_arrives = \<lambda>_. True, wd_prove = \<lambda>_. Inr sample_proof, wd_uuid = \<lambda>_. sample_uuid,
     wd_now = \<lambda>_. 0, wd_store = \<lambda>tr. if sent_count tr = 0 then new_store else once_store\<rparr>"

definition once_net :: net where
  "once_net =
     \<lparr>nt_send = \<lambda>tr req _. if sent_count tr = 0 then Inl Http
        else Inr \<lparr>hr_status = 201, hr_content_length = None, hr_chunks = [], hr_retry_after = None, hr_cache_control = None,
                  hr_etag = None, hr_last_modified = None\<rparr>,
      nt_authority = \<lambda>_. Some ''r.example'', nt_bearer_token = \<lambda>_ _. Inr None, nt_now = \<lambda>_. 0, nt_wall = \<lambda>_. 0,
      nt_value = \<lambda>_. None, nt_context = \<lambda>_. None, nt_body = \<lambda>_. None, nt_search_response = \<lambda>_. None,
      nt_capabilities = \<lambda>_. None, nt_publish_response = \<lambda>_. Some once_response, nt_wire_error = \<lambda>_. None,
      nt_rfc2822 = \<lambda>_. None, nt_naive_date = \<lambda>_ _. None\<rparr>"

definition once_client :: client where
  "once_client = \<lparr>cl_base = ''https://r.example'', cl_change_limits = None, cl_budget = None, cl_cache = None, cl_freshness = 0, cl_auth = False, cl_trace = []\<rparr>"

lemma once_commit:
  "commit_if_proven sample_ext sample_server sample_uuid 0 (Inr sample_proof) (Some ''k'') new_store = (Inr (Inserted once_response), once_store)"
  "commit_if_proven sample_ext sample_server sample_uuid 0 (Inr sample_proof) (Some ''k'') once_store = (Inr (IdempotentReplay once_response), once_store)"
proof -
  have req: "pr_supersedes sample_request = None" by (simp add: sample_request_def)
  let ?ttl = "1000000000 * int (unat (unwrap_or (lm_idempotency_key_ttl_seconds (cap_limits sample_caps)) 86400))"
  have commit: "pending_commit sample_ext sample_server sample_request (Some ''k'') None =
      \<lparr>pc_req = sample_request, pc_authority = ''r.example'', pc_idempotency = Some \<lparr>pi_key = ''k'', pi_ttl = ?ttl\<rparr>,
       pc_receipt_minter = None, pc_predecessor_admission = None\<rparr>"
    by (simp add: pending_commit_def req sample_caps_def)
  have ttl: "0 < ?ttl" by (simp add: sample_caps_def unwrap_or_def)
  have run: "commit_if_proven sample_ext sample_server sample_uuid 0 (Inr sample_proof) (Some ''k'') new_store =
     (Inr (Inserted once_response), store_idempotency_record (pr_agent_id sample_request) ''k'' (pr_content_hash sample_request) once_response ?ttl
       (push_lineage (b_lineage_id sample_body) sample_ctx (insert_ctx sample_ctx (fresh_context sample_body None) new_store)))"
    unfolding commit_if_proven_def commit_proven_def commit_via_store_def
    by (simp add: sample_proof_def commit commit_publish_def idempotency_answer_def prepare_publish_def once_response_def
        supersession_check_def assign_identifiers_def req Let_def new_store_def sample_body_def sample_ctx_def)
  then show "commit_if_proven sample_ext sample_server sample_uuid 0 (Inr sample_proof) (Some ''k'') new_store = (Inr (Inserted once_response), once_store)"
    by (simp add: once_store_def)
  have rec: "map_of (idempotency once_store) (pr_agent_id sample_request, ''k'') =
      Some \<lparr>ir_content_hash = pr_content_hash sample_request, ir_response = once_response, ir_expires_at = ?ttl\<rparr>"
    unfolding once_store_def run snd_conv by (simp add: store_idempotency_record_def update_conv')
  show "commit_if_proven sample_ext sample_server sample_uuid 0 (Inr sample_proof) (Some ''k'') once_store = (Inr (IdempotentReplay once_response), once_store)"
    using rec ttl by (simp add: commit_if_proven_def commit_proven_def commit_via_store_def sample_proof_def commit commit_publish_def
        idempotency_answer_def)
qed


lemma once_handle:
  "wd_handle sample_ext once_world ''k'' tr =
     (Inr (if sent_count tr = 0 then Inserted once_response else IdempotentReplay once_response), once_store)"
  by (simp add: wd_handle_def once_world_def once_commit)

lemma once_published:
  "publish_idempotent once_net sample_request ''k'' s =
     (if sent_count (cl_trace s) = 0 then Inl Http else Inr once_response, emit (Sent (PostContext sample_request (Some ''k'')) None) s)"
  by (simp add: publish_idempotent_def post_context_def cbind_def transmit_def once_net_def parse_response_def parse_success_def
      read_body_capped_def cret_def)

lemma once_linked: "linked sample_ext once_net once_world sample_request ''k'' 1"
proof -
  have "proves sample_ext sample_server sample_request sample_proof" using sample_proves by (auto simp: proves_def)
  moreover have "1 \<le> key_ttl once_world"
    by (simp add: key_ttl_def once_world_def sample_caps_def unwrap_or_def)
  moreover have "steps_before sha256 t g g" for sha256 t g by (simp add: steps_before_def)
  ultimately show ?thesis
    unfolding linked_def
    by (auto simp: once_handle wd_after_def once_published split: if_splits) (auto simp: once_world_def sample_caps_def)
qed

theorem retried_publish_stores_once_witness:
  "\<exists>s'. publish_with_retry once_net sample_request ''k'' 3 once_client = (Inr once_response, s') \<and> sent_count (cl_trace s') \<le> 3 \<and>
     stored_as once_store (resp_ctx_id once_response) (pr_agent_id sample_request) (pr_content_hash sample_request)"
proof -
  have three: "max (unat (3 :: u32)) 1 = Suc (Suc (Suc 0))" by simp
  have "retry_wait Http 0 = Some (backoff 0)" by (simp add: retry_wait_def)
  then have run: "publish_with_retry once_net sample_request ''k'' 3 once_client =
      (Inr once_response, emit (Sent (PostContext sample_request (Some ''k'')) None) (emit (Slept (backoff 0))
         (emit (Sent (PostContext sample_request (Some ''k'')) None) once_client)))" (is "_ = (_, ?s)")
    unfolding publish_with_retry_def three by (simp add: once_published once_client_def emit_def)
  have trace: "cl_trace once_client = []" "cl_trace ?s \<noteq> []" "sent_count (cl_trace ?s) \<noteq> 0" by (simp_all add: once_client_def emit_def)
  have "reachable (x_sha256 sample_ext) (wd_store once_world (cl_trace once_client))"
    by (simp add: once_world_def trace(1) reachable_new)
  note once = retried_publish_stores_once[OF once_linked this run]
  have store: "wd_store once_world (cl_trace ?s) = once_store" using trace(3) by (simp add: once_world_def)
  have "stored_as once_store (resp_ctx_id once_response) (pr_agent_id sample_request) (pr_content_hash sample_request)"
    using once unfolding store by blast
  moreover have "sent_count (cl_trace ?s) \<le> sent_count (cl_trace once_client) + max (unat (3 :: u32)) 1" using once by blast
  ultimately show ?thesis using run unfolding three trace(1) by (intro exI[of _ ?s]) (simp add: eval_nat_numeral)
qed

end
