(* ===== verification/Acdp_DataRef.thy ===== *)
theory Acdp_DataRef
  imports Acdp_Fetch Acdp_SafeHttp Acdp_Validation_Correct
begin

text \<open>
  The HTTPS fetcher of data references (\<open>crates/acdp-client/src/data_ref.rs\<close>): the address policy, the
  status and the cap on the bytes read, and what a consumer knows of the bytes it gets.
\<close>

section \<open>The fetcher\<close>

definition DEFAULT_MAX_BYTES :: u64 where
  "DEFAULT_MAX_BYTES = 16 * 1024 * 1024"

text \<open>
  \<open>HttpsDataRefFetcher\<close>: \<open>get\<close> sends the request and stands for the HTTP client with its redirect
  policy and its name resolver; a failed chunk carries the error it is converted to. The sum of the
  lengths saturates at \<open>u64::MAX\<close>.
\<close>

fun capped_chunks :: "u64 \<Rightarrow> bytes \<Rightarrow> bytes acdp_result list \<Rightarrow> bytes acdp_result" where
  "capped_chunks max_bytes buf [] = Inr buf"
| "capped_chunks max_bytes buf (Inl e # cs) = Inl e"
| "capped_chunks max_bytes buf (Inr chunk # cs) =
     (if unat max_bytes < min (length buf + length chunk) (2 ^ 64 - 1) then Inl PayloadTooLarge
      else capped_chunks max_bytes (buf @ chunk) cs)"

definition https_fetch ::
  "(string \<Rightarrow> url option) \<Rightarrow> (string \<Rightarrow> http_response acdp_result) \<Rightarrow> ssrf_policy \<Rightarrow> u64 \<Rightarrow> data_ref_fetcher" where
  "https_fetch parse_url get policy max_bytes location =
     (case location of
        Structured _ \<Rightarrow> Inl NotImplemented
      | Uri uri \<Rightarrow>
          rbind (check_url parse_url policy uri) (\<lambda>_.
          rbind (get uri) (\<lambda>resp.
          if 200 \<le> hr_status resp \<and> hr_status resp < 300 then capped_chunks max_bytes [] (hr_chunks resp) else Inl Http)))"

section \<open>What a consumer knows of the bytes\<close>

lemma capped_chunks_ok:
  assumes "unat cap < 2 ^ 64 - 1" "length buf \<le> unat cap"
  shows "capped_chunks cap buf cs = Inr bs \<longleftrightarrow> (\<exists>parts. cs = map Inr parts \<and> bs = buf @ concat parts \<and> length bs \<le> unat cap)"
  using assms(2)
proof (induction cs arbitrary: buf)
  case (Cons c cs)
  show ?case
  proof (cases c)
    case (Inr chunk)
    show ?thesis
    proof (cases "length buf + length chunk \<le> unat cap")
      case True
      then have "capped_chunks cap buf (c # cs) = capped_chunks cap (buf @ chunk) cs" using Inr by (simp add: min_def)
      then show ?thesis using Cons.IH[of "buf @ chunk"] True Inr by (auto simp: Cons_eq_map_conv)
    next
      case False
      then have "capped_chunks cap buf (c # cs) = Inl PayloadTooLarge" using Inr assms(1) by (simp add: min_def)
      then show ?thesis using False Inr by (auto simp: Cons_eq_map_conv)
    qed
  qed (auto simp: Cons_eq_map_conv)
qed auto

lemma check_sha256_ok: "check_sha256 E bs h = Inr () \<longleftrightarrow> h = ''sha256:'' @ hex_encode (x_sha256 E bs)"
  by (auto simp: check_sha256_def rbind_eq_Inr ok_or_eq_Inr strip_prefix_Some)

text \<open>
  C32. Bytes fetched for a data reference, exactly: a consumer gets bytes for a reference to a location iff
  the location is an address the policy permits, the answer is a success, the bytes are its whole body
  within the cap, and they have the hash the producer signed, if the reference declares one.
\<close>

theorem external_bytes_exact:
  assumes "dr_embedded dr = None" "unat cap < 2 ^ 64 - 1"
  shows "fetch_and_verify_data_ref E dr (https_fetch parse_url get policy cap) = Inr bs \<longleftrightarrow>
    (\<exists>uri resp parts. dr_location dr = Some (Uri uri) \<and> check_url parse_url policy uri = Inr () \<and> get uri = Inr resp \<and>
       hr_status resp \<in> {200..<300} \<and> hr_chunks resp = map Inr parts \<and> bs = concat parts \<and> length bs \<le> unat cap \<and>
       dr_content_hash dr \<in> {None, Some (''sha256:'' @ hex_encode (x_sha256 E bs))})"
proof -
  have "opt_check (dr_content_hash dr) (check_sha256 E bs) = Inr () \<longleftrightarrow>
      dr_content_hash dr \<in> {None, Some (''sha256:'' @ hex_encode (x_sha256 E bs))}" for bs
    by (cases "dr_content_hash dr") (auto simp: opt_check_def check_sha256_ok)
  moreover have "https_fetch parse_url get policy cap location = Inr bs \<longleftrightarrow> (\<exists>uri resp parts. location = Uri uri \<and>
       check_url parse_url policy uri = Inr () \<and> get uri = Inr resp \<and> hr_status resp \<in> {200..<300} \<and> hr_chunks resp = map Inr parts \<and>
       bs = concat parts \<and> length bs \<le> unat cap)" for location bs
    using capped_chunks_ok[OF assms(2), of "[]"] by (auto simp: https_fetch_def rbind_eq_Inr split: location.splits if_splits)
  ultimately show ?thesis
    using assms(1) by (auto simp: fetch_and_verify_data_ref_def rbind_eq_Inr ok_or_eq_Inr)
qed

definition sample_ref :: data_ref where
  "sample_ref = \<lparr>dr_ref_type = RawData, dr_description = None, dr_size_bytes = None, dr_format = None, dr_schema_version = None,
     dr_content_hash = Some sample_hash, dr_location = Some (Uri ''https://d.example/x''), dr_embedded = None, dr_extensions = []\<rparr>"

definition sample_download :: "string \<Rightarrow> http_response acdp_result" where
  "sample_download uri = Inr \<lparr>hr_status = 200, hr_content_length = None, hr_chunks = [Inr [1], Inr [2, 3]], hr_retry_after = None,
     hr_cache_control = None, hr_etag = None, hr_last_modified = None\<rparr>"

definition sample_url :: "string \<Rightarrow> url option" where
  "sample_url u = Some \<lparr>url_scheme = ''https'', url_host = Some (HostDomain ''d.example''), url_host_str = Some ''d.example'', url_port = Some 443\<rparr>"

theorem external_bytes_exact_witness:
  "fetch_and_verify_data_ref sample_ext sample_ref (https_fetch sample_url sample_download default_policy 3) = Inr [1, 2, 3] \<and>
   fetch_and_verify_data_ref sample_ext sample_ref (https_fetch sample_url sample_download default_policy 2) \<noteq> Inr [1, 2, 3]"
proof
  have "hex_encode (replicate 32 0) = replicate 64 CHR ''0''" by code_simp
  then have hash: "sample_hash = ''sha256:'' @ hex_encode (x_sha256 sample_ext bs)" for bs
    by (simp add: sample_hash_def sample_ext_def)
  have "check_url sample_url default_policy u = Inr ()" for u
    by (simp add: check_url_def as_schema_violation_def classify_url_def sample_url_def default_policy_def)
  then have "\<exists>uri resp parts. dr_location sample_ref = Some (Uri uri) \<and> check_url sample_url default_policy uri = Inr () \<and>
      sample_download uri = Inr resp \<and> hr_status resp \<in> {200..<300} \<and> hr_chunks resp = map Inr parts \<and> [1, 2, 3] = concat parts \<and>
      length ([1, 2, 3] :: bytes) \<le> unat (3 :: u64) \<and> dr_content_hash sample_ref \<in> {None, Some (''sha256:'' @ hex_encode (x_sha256 sample_ext [1, 2, 3]))}"
    using hash[of "[1, 2, 3]"]
    by (intro exI[of _ "''https://d.example/x''"] exI[of _ "projr (sample_download [])"] exI[of _ "[[1], [2, 3]]"])
      (simp add: sample_ref_def sample_download_def)
  then show "fetch_and_verify_data_ref sample_ext sample_ref (https_fetch sample_url sample_download default_policy 3) = Inr [1, 2, 3]"
    using external_bytes_exact[of sample_ref 3 sample_ext sample_url sample_download default_policy "[1, 2, 3]"] by (simp add: sample_ref_def)
  show "fetch_and_verify_data_ref sample_ext sample_ref (https_fetch sample_url sample_download default_policy 2) \<noteq> Inr [1, 2, 3]"
    using external_bytes_exact[of sample_ref 2 sample_ext sample_url sample_download default_policy "[1, 2, 3]"] by (simp add: sample_ref_def)
qed

end
