(* ===== verification/Acdp_Change.thy ===== *)
theory Acdp_Change
  imports Acdp_Wire
begin

text \<open>
  The change feed on the wire (\<open>crates/acdp-types/src/change.rs\<close>): change entries and their evidence,
  pages of the feed, watch filters, subscriptions, and change hints with their signature.
\<close>

section \<open>Kinds and evidence\<close>

definition CHANGE_VERSION :: string where
  "CHANGE_VERSION = ''acdp-change/1''"

definition CHANGE_HINT_VERSION :: string where
  "CHANGE_HINT_VERSION = ''acdp-change-hint/1''"

definition HINT_MAX_SKEW_SECONDS :: int where
  "HINT_MAX_SKEW_SECONDS = 300"

definition MAX_CURSOR_LEN :: nat where
  "MAX_CURSOR_LEN = 2048"

definition MAX_CHANGE_BUCKET_LENGTH :: u16 where
  "MAX_CHANGE_BUCKET_LENGTH = 16"

datatype change_kind = CK_Lifecycle | CK_Superseded | CK_KeyRevocation

definition all_change_kinds :: "change_kind list" where
  "all_change_kinds = [CK_Lifecycle, CK_Superseded, CK_KeyRevocation]"

fun change_kind_as_str :: "change_kind \<Rightarrow> string" where
  "change_kind_as_str CK_Lifecycle = ''lifecycle''"
| "change_kind_as_str CK_Superseded = ''superseded''"
| "change_kind_as_str CK_KeyRevocation = ''key_revocation''"

definition change_kind_parse :: "string \<Rightarrow> change_kind acdp_result" where
  "change_kind_parse s = ok_or (find (\<lambda>k. change_kind_as_str k = s) all_change_kinds) SchemaViolation"

text \<open>The signed objects are kept as the JSON that was served.\<close>

datatype change_evidence =
    CE_Lifecycle json json
  | CE_Superseded ctx_id json
  | CE_KeyRevocation json

fun evidence_kind :: "change_evidence \<Rightarrow> change_kind" where
  "evidence_kind (CE_Lifecycle _ _) = CK_Lifecycle"
| "evidence_kind (CE_Superseded _ _) = CK_Superseded"
| "evidence_kind (CE_KeyRevocation _) = CK_KeyRevocation"

section \<open>Change entries\<close>

record change =
  cg_seq :: u64
  cg_ctx_id :: ctx_id
  cg_lineage_id :: lineage_id
  cg_agent_id :: agent_did
  cg_recorded_at :: instant
  cg_evidence :: change_evidence

definition cg_kind :: "change \<Rightarrow> change_kind" where
  "cg_kind c = evidence_kind (cg_evidence c)"

definition change_validate :: "ext \<Rightarrow> change \<Rightarrow> unit acdp_result" where
  "change_validate E c =
     checks [void (ctx_id_parse (cg_ctx_id c)), void (lineage_id_parse (cg_lineage_id c)), void (agent_did_parse (cg_agent_id c)),
       (case cg_evidence c of
          CE_Lifecycle event event_receipt \<Rightarrow>
            checks [void (event_from_value E event), void (event_receipt_from_value E event_receipt)]
        | CE_Superseded superseded_by registry_receipt \<Rightarrow>
            checks [void (ctx_id_parse superseded_by), void (receipt_from_value E registry_receipt)]
        | CE_KeyRevocation registry_receipt \<Rightarrow> void (receipt_from_value E registry_receipt))]"

definition checked_change :: "ext \<Rightarrow> change \<Rightarrow> change acdp_result" where
  "checked_change E c = rbind (change_validate E c) (\<lambda>_. Inr c)"

definition change_lifecycle :: "ext \<Rightarrow> u64 \<Rightarrow> lineage_id \<Rightarrow> agent_did \<Rightarrow> json \<Rightarrow> event_receipt \<Rightarrow> change acdp_result" where
  "change_lifecycle E seq l agent raw_event r =
     checked_change E \<lparr>cg_seq = seq, cg_ctx_id = er_ctx_id r, cg_lineage_id = l, cg_agent_id = agent,
       cg_recorded_at = er_accepted_at r, cg_evidence = CE_Lifecycle raw_event (event_receipt_json E r)\<rparr>"

definition change_superseded :: "ext \<Rightarrow> u64 \<Rightarrow> ctx_id \<Rightarrow> agent_did \<Rightarrow> registry_receipt \<Rightarrow> change acdp_result" where
  "change_superseded E seq c agent r =
     checked_change E \<lparr>cg_seq = seq, cg_ctx_id = c, cg_lineage_id = rr_lineage_id r, cg_agent_id = agent,
       cg_recorded_at = rr_created_at r, cg_evidence = CE_Superseded (rr_ctx_id r) (receipt_json E r)\<rparr>"

definition change_key_revocation :: "ext \<Rightarrow> u64 \<Rightarrow> agent_did \<Rightarrow> registry_receipt \<Rightarrow> change acdp_result" where
  "change_key_revocation E seq agent r =
     checked_change E \<lparr>cg_seq = seq, cg_ctx_id = rr_ctx_id r, cg_lineage_id = rr_lineage_id r, cg_agent_id = agent,
       cg_recorded_at = rr_created_at r, cg_evidence = CE_KeyRevocation (receipt_json E r)\<rparr>"

datatype envelope_reason = RecordedAtMismatch | CtxIdMismatch | SelfSupersession | LineageIdMismatch | EvidenceMismatch

fun envelope_reason_as_str :: "envelope_reason \<Rightarrow> string" where
  "envelope_reason_as_str RecordedAtMismatch = ''recorded_at_mismatch''"
| "envelope_reason_as_str CtxIdMismatch = ''ctx_id_mismatch''"
| "envelope_reason_as_str SelfSupersession = ''self_supersession''"
| "envelope_reason_as_str LineageIdMismatch = ''lineage_id_mismatch''"
| "envelope_reason_as_str EvidenceMismatch = ''evidence_mismatch''"

text \<open>The time stamp of the evidence, and what a served copy is compared with.\<close>

fun evidence_stamp :: "change_evidence \<Rightarrow> string" where
  "evidence_stamp (CE_Lifecycle _ event_receipt) = unwrap_or (get_str event_receipt ''accepted_at'') []"
| "evidence_stamp (CE_Superseded _ registry_receipt) = unwrap_or (get_str registry_receipt ''created_at'') []"
| "evidence_stamp (CE_KeyRevocation registry_receipt) = unwrap_or (get_str registry_receipt ''created_at'') []"

fun evidence_value :: "change_evidence \<Rightarrow> json" where
  "evidence_value (CE_Lifecycle event _) = event"
| "evidence_value (CE_Superseded _ registry_receipt) = registry_receipt"
| "evidence_value (CE_KeyRevocation registry_receipt) = registry_receipt"

definition jcs_same :: "ext \<Rightarrow> json \<Rightarrow> json \<Rightarrow> bool" where
  "jcs_same E a b =
     (case (try_canonicalize_value (x_sci E) a, try_canonicalize_value (x_sci E) b) of
        (Inr x, Inr y) \<Rightarrow> x = y | _ \<Rightarrow> False)"

definition check_naming :: "change \<Rightarrow> (envelope_reason, unit) result" where
  "check_naming c =
     (case cg_evidence c of
        CE_Lifecycle event event_receipt \<Rightarrow>
          require (get_str event ''ctx_id'' = Some (cg_ctx_id c) \<and> get_str event_receipt ''ctx_id'' = Some (cg_ctx_id c)) CtxIdMismatch
      | CE_Superseded superseded_by registry_receipt \<Rightarrow>
          checks [require (get_str registry_receipt ''ctx_id'' = Some superseded_by) CtxIdMismatch,
                  require (superseded_by \<noteq> cg_ctx_id c) SelfSupersession,
                  require (get_str registry_receipt ''lineage_id'' = Some (cg_lineage_id c)) LineageIdMismatch]
      | CE_KeyRevocation registry_receipt \<Rightarrow>
          checks [require (get_str registry_receipt ''ctx_id'' = Some (cg_ctx_id c)) CtxIdMismatch,
                  require (get_str registry_receipt ''lineage_id'' = Some (cg_lineage_id c)) LineageIdMismatch])"

definition check_envelope :: "ext \<Rightarrow> change \<Rightarrow> json option \<Rightarrow> (envelope_reason, unit) result" where
  "check_envelope E c served =
     checks [require (evidence_stamp (cg_evidence c) = x_fmt_ms E (cg_recorded_at c)) RecordedAtMismatch,
             check_naming c,
             opt_check served (\<lambda>v. require (jcs_same E (evidence_value (cg_evidence c)) v) EvidenceMismatch)]"

definition check_consistency :: "ext \<Rightarrow> change \<Rightarrow> unit acdp_result" where
  "check_consistency E c = (case check_envelope E c None of Inl _ \<Rightarrow> Inl SchemaViolation | Inr u \<Rightarrow> Inr u)"

section \<open>Entries on the wire\<close>

definition change_json :: "ext \<Rightarrow> change \<Rightarrow> json" where
  "change_json E c = JObject
     ([(''change_version'', JString CHANGE_VERSION), (''seq'', JNumber (PosInt (cg_seq c))),
       (''kind'', JString (change_kind_as_str (cg_kind c))), (''ctx_id'', JString (cg_ctx_id c)),
       (''lineage_id'', JString (cg_lineage_id c)), (''agent_id'', JString (cg_agent_id c)),
       (''recorded_at'', JString (x_fmt_ms E (cg_recorded_at c)))] @
      (case cg_evidence c of
         CE_Lifecycle event event_receipt \<Rightarrow> [(''event'', event), (''event_receipt'', event_receipt)]
       | CE_Superseded superseded_by registry_receipt \<Rightarrow>
           [(''superseded_by'', JString superseded_by), (''registry_receipt'', registry_receipt)]
       | CE_KeyRevocation registry_receipt \<Rightarrow> [(''registry_receipt'', registry_receipt)]))"

definition change_kind_deserialize :: "json \<Rightarrow> change_kind option" where
  "change_kind_deserialize v = Option.bind (unit_variant v)
     (\<lambda>s. map_of [(''lifecycle'', CK_Lifecycle), (''superseded'', CK_Superseded), (''key_revocation'', CK_KeyRevocation)] s)"

fun evidence_of_wire ::
  "change_kind \<Rightarrow> json option \<Rightarrow> json option \<Rightarrow> ctx_id option \<Rightarrow> json option \<Rightarrow> change_evidence option" where
  "evidence_of_wire CK_Lifecycle (Some event) (Some event_receipt) None None = Some (CE_Lifecycle event event_receipt)"
| "evidence_of_wire CK_Superseded None None (Some superseded_by) (Some registry_receipt) =
     Some (CE_Superseded superseded_by registry_receipt)"
| "evidence_of_wire CK_KeyRevocation None None None (Some registry_receipt) = Some (CE_KeyRevocation registry_receipt)"
| "evidence_of_wire _ _ _ _ _ = None"

definition change_deserialize :: "ext \<Rightarrow> json \<Rightarrow> change option" where
  "change_deserialize E v =
     Option.bind (struct_members [''change_version'', ''seq'', ''kind'', ''ctx_id'', ''lineage_id'', ''agent_id'', ''recorded_at'',
         ''event'', ''event_receipt'', ''superseded_by'', ''registry_receipt''] v) (\<lambda>ms.
     Option.bind (member_str ms ''change_version'') (\<lambda>version.
     Option.bind (Option.bind (map_of ms ''seq'') as_u64) (\<lambda>seq.
     Option.bind (Option.bind (map_of ms ''kind'') change_kind_deserialize) (\<lambda>kind.
     Option.bind (member_str ms ''ctx_id'') (\<lambda>c.
     Option.bind (member_str ms ''lineage_id'') (\<lambda>l.
     Option.bind (member_str ms ''agent_id'') (\<lambda>a.
     Option.bind (Option.bind (member_str ms ''recorded_at'') (strict_ms_deserialize E)) (\<lambda>t.
     Option.bind (de_present as_str (map_of ms ''superseded_by'')) (\<lambda>by.
     Option.bind (if version = CHANGE_VERSION
                  then evidence_of_wire kind (map_of ms ''event'') (map_of ms ''event_receipt'') by (map_of ms ''registry_receipt'')
                  else None) (\<lambda>e.
     let ch = \<lparr>cg_seq = seq, cg_ctx_id = c, cg_lineage_id = l, cg_agent_id = a, cg_recorded_at = t, cg_evidence = e\<rparr> in
     if is_ok (change_validate E ch) then Some ch else None))))))))))"

definition change_from_value :: "ext \<Rightarrow> json \<Rightarrow> change acdp_result" where
  "change_from_value E v = ok_or (change_deserialize E v) SchemaViolation"

section \<open>Pages of the feed\<close>

record changes_response =
  fr_changes :: "change list"
  fr_next_cursor :: string
  fr_has_more :: bool

definition check_cursor :: "string \<Rightarrow> unit acdp_result" where
  "check_cursor c = require (\<not> (c = [] \<or> MAX_CURSOR_LEN < char_count c)) SchemaViolation"

definition changes_response_validate :: "changes_response \<Rightarrow> unit acdp_result" where
  "changes_response_validate r =
     checks [check_cursor (fr_next_cursor r),
             require (list_all (\<lambda>(a, b). cg_seq a < cg_seq b) (zip (fr_changes r) (tl (fr_changes r)))) SchemaViolation]"

fun as_bool :: "json \<Rightarrow> bool option" where
  "as_bool (JBool b) = Some b"
| "as_bool _ = None"

definition changes_response_deserialize :: "ext \<Rightarrow> json \<Rightarrow> changes_response option" where
  "changes_response_deserialize E v =
     Option.bind (struct_members [''changes'', ''next_cursor'', ''has_more''] v) (\<lambda>ms.
     Option.bind (Option.bind (map_of ms ''changes'') (de_list (change_deserialize E))) (\<lambda>cs.
     Option.bind (member_str ms ''next_cursor'') (\<lambda>c.
     Option.bind (Option.bind (map_of ms ''has_more'') as_bool) (\<lambda>more.
     Some \<lparr>fr_changes = cs, fr_next_cursor = c, fr_has_more = more\<rparr>))))"

definition changes_response_json :: "ext \<Rightarrow> changes_response \<Rightarrow> json" where
  "changes_response_json E r = JObject
     [(''changes'', JArray (map (change_json E) (fr_changes r))), (''next_cursor'', JString (fr_next_cursor r)),
      (''has_more'', JBool (fr_has_more r))]"

definition changes_response_from_value :: "ext \<Rightarrow> json \<Rightarrow> changes_response acdp_result" where
  "changes_response_from_value E v =
     rbind (ok_or (changes_response_deserialize E v) SchemaViolation) (\<lambda>r.
     rbind (changes_response_validate r) (\<lambda>_. Inr r))"

section \<open>Watch filters\<close>

definition bucket :: "ext \<Rightarrow> string \<Rightarrow> nat \<Rightarrow> string" where
  "bucket E value n = take n (hex_encode (x_sha256 E (string_bytes value)))"

record watch_filter =
  wf_ctx_id :: "ctx_id list"
  wf_lineage_id :: "lineage_id list"
  wf_agent_id :: "agent_did list"
  wf_kind :: "change_kind list"
  wf_lineage_bucket :: "string list"
  wf_agent_bucket :: "string list"

definition watch_filter_new :: watch_filter where
  "watch_filter_new =
     \<lparr>wf_ctx_id = [], wf_lineage_id = [], wf_agent_id = [], wf_kind = [], wf_lineage_bucket = [], wf_agent_bucket = []\<rparr>"

definition watch_ctx_id :: "ctx_id \<Rightarrow> watch_filter \<Rightarrow> watch_filter" where
  "watch_ctx_id c f = f\<lparr>wf_ctx_id := wf_ctx_id f @ [c]\<rparr>"

definition watch_lineage_id :: "lineage_id \<Rightarrow> watch_filter \<Rightarrow> watch_filter" where
  "watch_lineage_id l f = f\<lparr>wf_lineage_id := wf_lineage_id f @ [l]\<rparr>"

definition watch_agent_id :: "agent_did \<Rightarrow> watch_filter \<Rightarrow> watch_filter" where
  "watch_agent_id a f = f\<lparr>wf_agent_id := wf_agent_id f @ [a]\<rparr>"

definition watch_kind :: "change_kind \<Rightarrow> watch_filter \<Rightarrow> watch_filter" where
  "watch_kind k f = f\<lparr>wf_kind := wf_kind f @ [k]\<rparr>"

definition watch_lineage_bucket :: "string \<Rightarrow> watch_filter \<Rightarrow> watch_filter" where
  "watch_lineage_bucket b f = f\<lparr>wf_lineage_bucket := wf_lineage_bucket f @ [b]\<rparr>"

definition watch_agent_bucket :: "string \<Rightarrow> watch_filter \<Rightarrow> watch_filter" where
  "watch_agent_bucket b f = f\<lparr>wf_agent_bucket := wf_agent_bucket f @ [b]\<rparr>"

definition has_buckets :: "watch_filter \<Rightarrow> bool" where
  "has_buckets f \<longleftrightarrow> wf_lineage_bucket f \<noteq> [] \<or> wf_agent_bucket f \<noteq> []"

definition total_values :: "watch_filter \<Rightarrow> nat" where
  "total_values f = length (wf_ctx_id f) + length (wf_lineage_id f) + length (wf_agent_id f) + length (wf_kind f) +
     length (wf_lineage_bucket f) + length (wf_agent_bucket f)"

definition filter_is_empty :: "watch_filter \<Rightarrow> bool" where
  "filter_is_empty f \<longleftrightarrow> total_values f = 0"

definition validate_buckets :: "watch_filter \<Rightarrow> u16 option \<Rightarrow> unit acdp_result" where
  "validate_buckets f max_length =
     (if \<not> has_buckets f then Inr ()
      else rbind (ok_or max_length SchemaViolation) (\<lambda>m.
        each (\<lambda>b. require (list_all is_lower_hex b \<and> b \<noteq> [] \<and> length b \<le> unat m) SchemaViolation)
          (wf_lineage_bucket f @ wf_agent_bucket f)))"

definition filter_validate :: "watch_filter \<Rightarrow> u64 option \<Rightarrow> unit acdp_result" where
  "filter_validate f max_filters =
     checks [each (\<lambda>c. void (ctx_id_parse c)) (wf_ctx_id f), each (\<lambda>l. void (lineage_id_parse l)) (wf_lineage_id f),
             each (\<lambda>a. void (agent_did_parse a)) (wf_agent_id f),
             validate_buckets f (Some MAX_CHANGE_BUCKET_LENGTH),
             opt_check max_filters (\<lambda>m. require (total_values f \<le> unat m) SchemaViolation)]"

definition validate_for_subscription :: "watch_filter \<Rightarrow> u64 option \<Rightarrow> unit acdp_result" where
  "validate_for_subscription f max_filters =
     checks [filter_validate f max_filters,
             require (\<not> has_buckets f) SchemaViolation,
             require (\<not> filter_is_empty f) SchemaViolation,
             require (distinct (wf_ctx_id f) \<and> distinct (wf_lineage_id f) \<and> distinct (wf_agent_id f) \<and> distinct (wf_kind f))
               SchemaViolation]"

definition query_pairs :: "watch_filter \<Rightarrow> (string \<times> string) list" where
  "query_pairs f =
     map (Pair ''ctx_id'') (wf_ctx_id f) @ map (Pair ''lineage_id'') (wf_lineage_id f) @ map (Pair ''agent_id'') (wf_agent_id f) @
     map (\<lambda>k. (''kind'', change_kind_as_str k)) (wf_kind f) @ map (Pair ''lineage_bucket'') (wf_lineage_bucket f) @
     map (Pair ''agent_bucket'') (wf_agent_bucket f)"

definition matches_exact_ids :: "watch_filter \<Rightarrow> change \<Rightarrow> (ctx_id \<Rightarrow> agent_did option) \<Rightarrow> bool" where
  "matches_exact_ids f c producer_of \<longleftrightarrow>
     cg_ctx_id c \<in> set (wf_ctx_id f) \<or> cg_lineage_id c \<in> set (wf_lineage_id f) \<or> cg_agent_id c \<in> set (wf_agent_id f) \<or>
     (cg_kind c = CK_KeyRevocation \<and> list_ex (\<lambda>x. producer_of x = Some (cg_agent_id c)) (wf_ctx_id f))"

definition in_bucket :: "ext \<Rightarrow> string list \<Rightarrow> string \<Rightarrow> bool" where
  "in_bucket E buckets value \<longleftrightarrow> buckets \<noteq> [] \<and> list_ex (\<lambda>b. starts_with b (bucket E value 64)) buckets"

definition filter_matches :: "ext \<Rightarrow> watch_filter \<Rightarrow> change \<Rightarrow> (ctx_id \<Rightarrow> agent_did option) \<Rightarrow> bool" where
  "filter_matches E f c producer_of =
     (if wf_kind f \<noteq> [] \<and> cg_kind c \<notin> set (wf_kind f) then False
      else if wf_ctx_id f = [] \<and> wf_lineage_id f = [] \<and> wf_agent_id f = [] \<and> \<not> has_buckets f then True
      else matches_exact_ids f c producer_of \<or> in_bucket E (wf_lineage_bucket f) (cg_lineage_id c) \<or>
           in_bucket E (wf_agent_bucket f) (cg_agent_id c))"

definition matches_exact :: "watch_filter \<Rightarrow> change \<Rightarrow> (ctx_id \<Rightarrow> agent_did option) \<Rightarrow> bool" where
  "matches_exact f c producer_of \<longleftrightarrow>
     (wf_kind f = [] \<or> cg_kind c \<in> set (wf_kind f)) \<and> matches_exact_ids f c producer_of"

section \<open>Subscriptions\<close>

definition watch_filter_deserialize :: "json \<Rightarrow> watch_filter option" where
  "watch_filter_deserialize v =
     Option.bind (struct_members [''ctx_id'', ''lineage_id'', ''agent_id'', ''kind'', ''lineage_bucket'', ''agent_bucket''] v) (\<lambda>ms.
     (let strs = (\<lambda>k. case map_of ms k of None \<Rightarrow> Some [] | Some x \<Rightarrow> de_list as_str x) in
      Option.bind (strs ''ctx_id'') (\<lambda>cs.
      Option.bind (strs ''lineage_id'') (\<lambda>ls.
      Option.bind (strs ''agent_id'') (\<lambda>as.
      Option.bind (case map_of ms ''kind'' of None \<Rightarrow> Some [] | Some x \<Rightarrow> de_list change_kind_deserialize x) (\<lambda>ks.
      Option.bind (strs ''lineage_bucket'') (\<lambda>lb.
      Option.bind (strs ''agent_bucket'') (\<lambda>ab.
      Some \<lparr>wf_ctx_id = cs, wf_lineage_id = ls, wf_agent_id = as, wf_kind = ks, wf_lineage_bucket = lb, wf_agent_bucket = ab\<rparr>))))))))"

definition check_filter_arrays :: "json option \<Rightarrow> unit acdp_result" where
  "check_filter_arrays v =
     (case Option.bind v as_object of
        None \<Rightarrow> Inr ()
      | Some ms \<Rightarrow> each (\<lambda>(_, x). require (x \<noteq> JArray []) SchemaViolation) ms)"

text \<open>
  The encodings of the white space and of the control characters of Unicode. In valid UTF-8 an encoding
  occurs at a position exactly when its character stands there.
\<close>

definition WHITESPACE :: "string list" where
  "WHITESPACE =
     map (\<lambda>n. [char_of n]) ([9..<14] @ [32 :: nat]) @ [[CHR 0xC2, CHR 0x85], [CHR 0xC2, CHR 0xA0], [CHR 0xE1, CHR 0x9A, CHR 0x80]] @
     map (\<lambda>n. [CHR 0xE2, CHR 0x80, char_of n]) ([0x80..<0x8B] @ [0xA8, 0xA9, 0xAF :: nat]) @
     [[CHR 0xE2, CHR 0x81, CHR 0x9F], [CHR 0xE3, CHR 0x80, CHR 0x80]]"

definition CONTROL :: "string list" where
  "CONTROL = map (\<lambda>n. [char_of n]) ([0..<32] @ [127 :: nat]) @ map (\<lambda>n. [CHR 0xC2, char_of n]) [0x80..<0xA0 :: nat]"

fun occurs_any :: "string list \<Rightarrow> string \<Rightarrow> bool" where
  "occurs_any ws [] = False"
| "occurs_any ws (c # s) = (list_ex (\<lambda>w. starts_with w (c # s)) ws \<or> occurs_any ws s)"

definition check_callback_url :: "string \<Rightarrow> unit acdp_result" where
  "check_callback_url url =
     (let host = map_option (\<lambda>r. rev (takeWhile (\<lambda>c. c \<noteq> CHR ''@'') (rev (takeWhile (\<lambda>c. c \<notin> set ''/?#'') r))))
                   (strip_prefix ''https://'' url) in
      require (\<not> (2048 < length url \<or> occurs_any (WHITESPACE @ CONTROL) url \<or> (case host of None \<Rightarrow> True | Some h \<Rightarrow> h = [])))
        SchemaViolation)"

record subscription_request =
  sq_filter :: watch_filter
  sq_callback_url :: string

definition subscription_request_validate :: "subscription_request \<Rightarrow> u64 option \<Rightarrow> unit acdp_result" where
  "subscription_request_validate r max_filters =
     checks [validate_for_subscription (sq_filter r) max_filters, check_callback_url (sq_callback_url r)]"

definition subscription_request_deserialize :: "json \<Rightarrow> subscription_request option" where
  "subscription_request_deserialize v =
     Option.bind (struct_members [''filter'', ''callback_url''] v) (\<lambda>ms.
     Option.bind (Option.bind (map_of ms ''filter'') watch_filter_deserialize) (\<lambda>f.
     Option.bind (member_str ms ''callback_url'') (\<lambda>u.
     Some \<lparr>sq_filter = f, sq_callback_url = u\<rparr>)))"

definition subscription_request_from_value :: "json \<Rightarrow> subscription_request acdp_result" where
  "subscription_request_from_value v =
     rbind (check_filter_arrays (json_get v ''filter'')) (\<lambda>_.
     rbind (ok_or (subscription_request_deserialize v) SchemaViolation) (\<lambda>r.
     rbind (subscription_request_validate r None) (\<lambda>_. Inr r)))"

datatype subscription_status = SubscriptionActive | SubscriptionDisabled

record subscription =
  sb_subscription_id :: string
  sb_filter :: watch_filter
  sb_callback_url :: string
  sb_created_at :: instant
  sb_status :: subscription_status
  sb_secret :: "string option"

definition is_secret_form :: "string \<Rightarrow> bool" where
  "is_secret_form s \<longleftrightarrow>
     (let b = rev (dropWhile (\<lambda>c. c = CHR ''='') (rev s)) in
      length s - length b \<le> 2 \<and> 43 \<le> length b \<and>
      list_all (\<lambda>c. is_ascii_alphanumeric c \<or> c = CHR ''+'' \<or> c = CHR ''/'') b)"

definition is_uuid_v4 :: "string \<Rightarrow> bool" where
  "is_uuid_v4 s \<longleftrightarrow> length s = 36 \<and>
     list_all (\<lambda>(i, c).
       if i \<in> {8, 13, 18, 23} then c = CHR ''-'' else if i = 14 then c = CHR ''4''
       else if i = 19 then c \<in> set ''89ab'' else is_ascii_digit c \<or> in_range CHR ''a'' CHR ''f'' c) (enumerate 0 s)"

definition subscription_validate :: "subscription \<Rightarrow> unit acdp_result" where
  "subscription_validate s =
     checks [require (is_uuid_v4 (sb_subscription_id s)) SchemaViolation, validate_for_subscription (sb_filter s) None,
             check_callback_url (sb_callback_url s),
             opt_check (sb_secret s) (\<lambda>x. require (is_secret_form x) SchemaViolation)]"

definition subscription_deserialize :: "ext \<Rightarrow> json \<Rightarrow> subscription option" where
  "subscription_deserialize E v =
     Option.bind (struct_members [''subscription_id'', ''filter'', ''callback_url'', ''created_at'', ''status'', ''secret''] v) (\<lambda>ms.
     Option.bind (member_str ms ''subscription_id'') (\<lambda>i.
     Option.bind (Option.bind (map_of ms ''filter'') watch_filter_deserialize) (\<lambda>f.
     Option.bind (member_str ms ''callback_url'') (\<lambda>u.
     Option.bind (member_ms E ms ''created_at'') (\<lambda>t.
     Option.bind (Option.bind (map_of ms ''status'') (\<lambda>x. Option.bind (unit_variant x)
         (map_of [(''active'', SubscriptionActive), (''disabled'', SubscriptionDisabled)]))) (\<lambda>st.
     Option.bind (de_present as_str (map_of ms ''secret'')) (\<lambda>secret.
     Some \<lparr>sb_subscription_id = i, sb_filter = f, sb_callback_url = u, sb_created_at = t, sb_status = st, sb_secret = secret\<rparr>)))))))"

definition subscription_from_value :: "ext \<Rightarrow> json \<Rightarrow> subscription acdp_result" where
  "subscription_from_value E v =
     rbind (check_filter_arrays (json_get v ''filter'')) (\<lambda>_.
     rbind (opt_check (get_str v ''created_at'') (\<lambda>raw. require (is_canonical_ms_utc E raw) SchemaViolation)) (\<lambda>_.
     rbind (ok_or (subscription_deserialize E v) SchemaViolation) (\<lambda>s.
     rbind (subscription_validate s) (\<lambda>_. Inr s))))"

definition without_secret :: "subscription \<Rightarrow> subscription" where
  "without_secret s = s\<lparr>sb_secret := None\<rparr>"

section \<open>Change hints\<close>

record change_hint =
  hn_hint_version :: string
  hn_subscription_id :: string
  hn_registry_authority :: string
  hn_head_cursor :: string

definition change_hint_new :: "string \<Rightarrow> string \<Rightarrow> string \<Rightarrow> change_hint" where
  "change_hint_new i authority cursor =
     \<lparr>hn_hint_version = CHANGE_HINT_VERSION, hn_subscription_id = i, hn_registry_authority = authority, hn_head_cursor = cursor\<rparr>"

definition change_hint_validate :: "change_hint \<Rightarrow> unit acdp_result" where
  "change_hint_validate h =
     checks [require (hn_hint_version h = CHANGE_HINT_VERSION) SchemaViolation,
             require (is_uuid_v4 (hn_subscription_id h)) SchemaViolation,
             require (is_valid_dns_authority (hn_registry_authority h)) SchemaViolation,
             check_cursor (hn_head_cursor h)]"

definition change_hint_from_value :: "json \<Rightarrow> change_hint acdp_result" where
  "change_hint_from_value v =
     rbind (ok_or (Option.bind (struct_members [''hint_version'', ''subscription_id'', ''registry_authority'', ''head_cursor''] v) (\<lambda>ms.
        Option.bind (member_str ms ''hint_version'') (\<lambda>hv.
        Option.bind (member_str ms ''subscription_id'') (\<lambda>i.
        Option.bind (member_str ms ''registry_authority'') (\<lambda>a.
        Option.bind (member_str ms ''head_cursor'') (\<lambda>c.
        Some \<lparr>hn_hint_version = hv, hn_subscription_id = i, hn_registry_authority = a, hn_head_cursor = c\<rparr>)))))) SchemaViolation) (\<lambda>h.
     rbind (change_hint_validate h) (\<lambda>_. Inr h))"

text \<open>
  The signature of a hint. \<open>hmac\<close> is HMAC-SHA-256 on key and message. \<open>trim\<close> drops white space at both
  ends, and \<open>hex::decode\<close> takes pairs of digits in either case.
\<close>

fun trim_start_of :: "string list \<Rightarrow> string \<Rightarrow> string" where
  "trim_start_of ws [] = []"
| "trim_start_of ws (c # s) =
     (case find (\<lambda>w. w \<noteq> [] \<and> starts_with w (c # s)) ws of
        None \<Rightarrow> c # s
      | Some w \<Rightarrow> trim_start_of ws (drop (length w - 1) s))"

definition str_trim :: "string \<Rightarrow> string" where
  "str_trim s = rev (trim_start_of (map rev WHITESPACE) (rev (trim_start_of WHITESPACE s)))"

definition hex_nibble :: "char \<Rightarrow> nat option" where
  "hex_nibble c =
     (if is_ascii_digit c then Some (of_char c - 48)
      else if in_range CHR ''a'' CHR ''f'' c then Some (of_char c - 87)
      else if in_range CHR ''A'' CHR ''F'' c then Some (of_char c - 55) else None)"

fun hex_decode_any :: "string \<Rightarrow> bytes option" where
  "hex_decode_any [] = Some []"
| "hex_decode_any [_] = None"
| "hex_decode_any (a # b # s) =
     Option.bind (hex_nibble a) (\<lambda>x. Option.bind (hex_nibble b) (\<lambda>y.
     map_option (\<lambda>bs. word_of_nat (16 * x + y) # bs) (hex_decode_any s)))"

definition hint_mac :: "(bytes \<Rightarrow> bytes \<Rightarrow> bytes) \<Rightarrow> string \<Rightarrow> int \<Rightarrow> bytes \<Rightarrow> bytes" where
  "hint_mac hmac secret t body = hmac (string_bytes secret) (string_bytes (show_int t) @ string_bytes ''.'' @ body)"

definition sign_hint :: "(bytes \<Rightarrow> bytes \<Rightarrow> bytes) \<Rightarrow> string \<Rightarrow> int \<Rightarrow> bytes \<Rightarrow> string" where
  "sign_hint hmac secret t body = ''t='' @ show_int t @ '',v1='' @ hex_encode (hint_mac hmac secret t body)"

definition read_hint_part :: "string \<Rightarrow> int option \<times> bytes list \<Rightarrow> (int option \<times> bytes list) acdp_result" where
  "read_hint_part part acc =
     rbind (ok_or (split_once CHR ''='' (str_trim part)) NotAuthorized) (\<lambda>(k, v).
     if k = ''t'' then
       rbind (require (fst acc = None \<and> v \<noteq> [] \<and> list_all is_ascii_digit v) NotAuthorized) (\<lambda>_.
       rbind (ok_or (Option.bind (parse_digits v) (\<lambda>n. if n < 2 ^ 63 then Some n else None)) NotAuthorized) (\<lambda>n.
       Inr (Some (int n), snd acc)))
     else if k = ''v1'' then
       rbind (ok_or (hex_decode_any v) NotAuthorized) (\<lambda>tag. Inr (fst acc, snd acc @ [tag]))
     else Inr acc)"

primrec read_hint_parts :: "string list \<Rightarrow> int option \<times> bytes list \<Rightarrow> (int option \<times> bytes list) acdp_result" where
  "read_hint_parts [] acc = Inr acc"
| "read_hint_parts (p # ps) acc = rbind (read_hint_part p acc) (read_hint_parts ps)"

definition verify_hint_signature ::
  "(bytes \<Rightarrow> bytes \<Rightarrow> bytes) \<Rightarrow> string \<Rightarrow> string \<Rightarrow> bytes \<Rightarrow> instant \<Rightarrow> unit acdp_result" where
  "verify_hint_signature hmac secret header body now =
     rbind (read_hint_parts (split_on CHR '','' header) (None, [])) (\<lambda>(t_member, v1).
     rbind (ok_or t_member NotAuthorized) (\<lambda>t.
     rbind (require (v1 \<noteq> []) NotAuthorized) (\<lambda>_.
     rbind (require (\<bar>now div 1000000000 - t\<bar> \<le> HINT_MAX_SKEW_SECONDS) NotAuthorized) (\<lambda>_.
     require (hint_mac hmac secret t body \<in> set v1) NotAuthorized))))"

end
