(* ===== verification/Acdp_Recall.thy ===== *)
theory Acdp_Recall
  imports Acdp_Change Acdp_Fetch
begin

text \<open>
  Recall on the consumer side (\<open>crates/acdp-client/src/recall.rs\<close> and \<open>changes\<close> in \<open>registry.rs\<close>): reading
  the change feed from a cursor, remembering what was processed, and turning an entry into a verdict.
\<close>

section \<open>Reading the feed\<close>

datatype since = Start | Head | Cursor string

fun as_query :: "since \<Rightarrow> string option" where
  "as_query Start = None"
| "as_query Head = Some ''head''"
| "as_query (Cursor c) = Some c"

definition DEFAULT_CHANGES_LIMIT :: u32 where
  "DEFAULT_CHANGES_LIMIT = 100"

definition changes_query :: "since \<Rightarrow> watch_filter \<Rightarrow> u32 option \<Rightarrow> (string \<times> string) list" where
  "changes_query since f limit =
     query_pairs f @ (case as_query since of None \<Rightarrow> [] | Some c \<Rightarrow> [(''since'', c)]) @
     (case limit of None \<Rightarrow> [] | Some l \<Rightarrow> [(''limit'', show_nat (unat l))])"

definition changes_page :: "ext \<Rightarrow> net \<Rightarrow> since \<Rightarrow> watch_filter \<Rightarrow> u32 option \<Rightarrow> changes_response client_op" where
  "changes_page E N since f limit =
     cbind (send_read N (GetChanges (changes_query since f limit))) (\<lambda>resp.
     cbind (parse_response N (nt_value N) MAX_CHANGES_PAGE_BYTES resp) (\<lambda>(v, _).
     clift (changes_response_from_value E v)))"

definition effective_change_limit :: "u32 option \<Rightarrow> u32" where
  "effective_change_limit limit = unwrap_or limit DEFAULT_CHANGES_LIMIT"

lemma effective_change_limit_Some [simp]: "effective_change_limit (Some l) = l"
  by (simp add: effective_change_limit_def unwrap_or_def)

lemma halved_limit: "\<not> effective_change_limit limit \<le> 1 \<Longrightarrow> unat (effective_change_limit limit div 2) < unat (effective_change_limit limit)"
  by (simp add: unat_div unat_gt_0 word_le_nat_alt)

function changes_loop :: "ext \<Rightarrow> net \<Rightarrow> since \<Rightarrow> watch_filter \<Rightarrow> u32 option \<Rightarrow> changes_response client_op" where
  "changes_loop E N since f limit s =
     (case changes_page E N since f limit s of
        (Inl PayloadTooLarge, s') \<Rightarrow>
          (let l = effective_change_limit limit in
           if l \<le> 1 then (Inl PayloadTooLarge, s') else changes_loop E N since f (Some (l div 2)) s')
      | result \<Rightarrow> result)"
  by pat_completeness auto

termination
  by (relation "measure (\<lambda>(_, _, _, _, limit, _). unat (effective_change_limit limit))")
    (auto simp: halved_limit)

definition refreshed_change_limits :: "net \<Rightarrow> change_filter_limits client_op" where
  "refreshed_change_limits N =
     cbind (capabilities_with_ttl N) (\<lambda>(caps, ttl) s.
     (let limits = \<lparr>cf_max_bucket_length = lm_max_change_bucket_length (cap_limits caps), cf_max_filters = lm_max_change_filters (cap_limits caps),
                   cf_expires = nt_now N (cl_trace s) + int ttl * 1000000000\<rparr> in
      (Inr limits, s\<lparr>cl_change_limits := Some limits\<rparr>)))"

definition check_bucket_filter :: "net \<Rightarrow> watch_filter \<Rightarrow> unit client_op" where
  "check_bucket_filter N f =
     cbind (clift (filter_validate f None)) (\<lambda>_.
     cbind (\<lambda>s. case cl_change_limits s of
              Some limits \<Rightarrow> if nt_now N (cl_trace s) < cf_expires limits then (Inr limits, s) else refreshed_change_limits N s
            | None \<Rightarrow> refreshed_change_limits N s) (\<lambda>limits.
     cbind (clift (validate_buckets f (cf_max_bucket_length limits))) (\<lambda>_.
     clift (filter_validate f (cf_max_filters limits)))))"

definition client_changes :: "ext \<Rightarrow> net \<Rightarrow> since \<Rightarrow> watch_filter \<Rightarrow> u32 option \<Rightarrow> changes_response client_op" where
  "client_changes E N since f limit =
     cbind (if has_buckets f then check_bucket_filter N f else cret ()) (\<lambda>_ s.
     (let (result, s') = changes_loop E N since f limit s in
      (result, if has_buckets f \<and> result = Inl SchemaViolation then s'\<lparr>cl_change_limits := None\<rparr> else s')))"

section \<open>The position of a consumer\<close>

record change_feed =
  fd_filter :: watch_filter
  fd_limit :: "u32 option"
  fd_since :: since

definition feed_new :: "watch_filter \<Rightarrow> change_feed" where
  "feed_new f = \<lparr>fd_filter = f, fd_limit = None, fd_since = Start\<rparr>"

definition feed_since :: "since \<Rightarrow> change_feed \<Rightarrow> change_feed" where
  "feed_since since d = d\<lparr>fd_since := since\<rparr>"

definition feed_limit :: "u32 \<Rightarrow> change_feed \<Rightarrow> change_feed" where
  "feed_limit l d = d\<lparr>fd_limit := Some l\<rparr>"

definition feed_fetch :: "ext \<Rightarrow> net \<Rightarrow> change_feed \<Rightarrow> changes_response client_op" where
  "feed_fetch E N d = client_changes E N (fd_since d) (fd_filter d) (fd_limit d)"

definition feed_advance :: "changes_response \<Rightarrow> change_feed \<Rightarrow> change_feed" where
  "feed_advance page d = d\<lparr>fd_since := Cursor (fr_next_cursor page)\<rparr>"

definition reset_to_head :: "change_feed \<Rightarrow> change_feed" where
  "reset_to_head d = d\<lparr>fd_since := Head\<rparr>"

definition needs_resync :: "change_feed \<Rightarrow> acdp_error \<Rightarrow> bool" where
  "needs_resync d e =
     (case e of CursorExpired \<Rightarrow> True | InvalidCursor \<Rightarrow> (case fd_since d of Cursor _ \<Rightarrow> True | _ \<Rightarrow> False) | _ \<Rightarrow> False)"

definition on_hint :: "ext \<Rightarrow> net \<Rightarrow> change_feed \<Rightarrow> change_hint \<Rightarrow> changes_response client_op" where
  "on_hint E N d h s =
     (if client_authority N s \<noteq> Some (hn_registry_authority h) then (Inl SchemaViolation, s) else feed_fetch E N d s)"

text \<open>The highest sequence number processed, per registry.\<close>

type_synonym seen_changes = "string \<rightharpoonup> u64"

definition seen_is_new :: "seen_changes \<Rightarrow> string \<Rightarrow> u64 \<Rightarrow> bool" where
  "seen_is_new seen authority seq = (case seen authority of None \<Rightarrow> True | Some hw \<Rightarrow> hw < seq)"

definition seen_mark :: "string \<Rightarrow> u64 \<Rightarrow> seen_changes \<Rightarrow> seen_changes" where
  "seen_mark authority seq seen = seen(authority \<mapsto> max (unwrap_or (seen authority) seq) seq)"

definition seen_forget :: "string \<Rightarrow> seen_changes \<Rightarrow> seen_changes" where
  "seen_forget authority seen = seen(authority := None)"

definition first_time :: "string \<Rightarrow> u64 \<Rightarrow> seen_changes \<Rightarrow> bool \<times> seen_changes" where
  "first_time authority seq seen =
     (let new = seen_is_new seen authority seq in (new, if new then seen_mark authority seq seen else seen))"

definition feed_resync :: "net \<Rightarrow> client \<Rightarrow> change_feed \<times> seen_changes \<Rightarrow> change_feed \<times> seen_changes" where
  "feed_resync N s = (\<lambda>(d, seen).
     (reset_to_head d, case client_authority N s of Some authority \<Rightarrow> seen_forget authority seen | None \<Rightarrow> seen))"

section \<open>Verifying entries\<close>

record held_context =
  hc_body :: body
  hc_events :: "json list"

datatype lifecycle_source = Held | Retrieved

datatype change_effect =
    Eff_Lifecycle lifecycle_event bool lifecycle_source
  | Eff_Superseded verified_context
  | Eff_KeyRevocation sourced_revocation

datatype change_verdict = Verified change_effect | Rejected acdp_error

definition verdict_effect :: "change_verdict \<Rightarrow> change_effect option" where
  "verdict_effect v = (case v of Verified e \<Rightarrow> Some e | Rejected _ \<Rightarrow> None)"

definition verdict_rejection :: "change_verdict \<Rightarrow> acdp_error option" where
  "verdict_rejection v = (case v of Verified _ \<Rightarrow> None | Rejected e \<Rightarrow> Some e)"

definition recall_authority :: "net \<Rightarrow> string client_op" where
  "recall_authority N s = (ok_or (client_authority N s) SchemaViolation, s)"

definition check_body_binding :: "change \<Rightarrow> body \<Rightarrow> string \<Rightarrow> unit acdp_result" where
  "check_body_binding c b authority =
     checks [require (b_ctx_id b = cg_ctx_id c) (ContextIdMismatch (cg_ctx_id c) (b_ctx_id b)),
             require (b_agent_id b = cg_agent_id c) SchemaViolation,
             require (b_lineage_id b = cg_lineage_id c) SchemaViolation,
             require (b_origin_registry b = authority) SchemaViolation]"

definition jcs_equal :: "ext \<Rightarrow> json \<Rightarrow> json \<Rightarrow> bool acdp_result" where
  "jcs_equal E a b =
     rbind (event_hash_of_value E a) (\<lambda>x. rbind (event_hash_of_value E b) (\<lambda>y. Inr (x = y)))"

definition held_material :: "ext \<Rightarrow> held_context \<Rightarrow> nat \<Rightarrow> json \<Rightarrow> (body \<times> json list \<times> lifecycle_source) acdp_result" where
  "held_material E h i raw_event =
     (if i < length (hc_events h) then
        rbind (jcs_equal E (hc_events h ! i) raw_event) (\<lambda>same.
        rbind (require same SchemaViolation) (\<lambda>_. Inr (hc_body h, hc_events h, Held)))
      else Inr (hc_body h, hc_events h @ [raw_event], Held))"

definition retrieved_material ::
  "ext \<Rightarrow> net \<Rightarrow> web_resolver \<Rightarrow> change \<Rightarrow> verification_policy \<Rightarrow> nat \<Rightarrow> json \<Rightarrow> (body \<times> json list \<times> lifecycle_source) client_op" where
  "retrieved_material E N resolve c policy i raw_event =
     cbind (fetch_with_policy E N resolve (cg_ctx_id c) policy) (\<lambda>v.
     clift (let events = map (event_json E) (unwrap_or (rs_lifecycle_events (fc_registry_state (vc_inner v))) []) in
       if i < length events then
         rbind (jcs_equal E (events ! i) raw_event) (\<lambda>same.
         rbind (require same SchemaViolation) (\<lambda>_. Inr (fc_body (vc_inner v), events, Retrieved)))
       else Inl SchemaViolation))"

text \<open>The event list that decides the state: the entry's event is the one at its index.\<close>

definition decided_event ::
  "ext \<Rightarrow> web_resolver \<Rightarrow> change \<Rightarrow> body \<Rightarrow> string \<Rightarrow> lifecycle_source \<Rightarrow> nat \<Rightarrow> lifecycle_event \<Rightarrow> nat \<times> json \<Rightarrow>
     lifecycle_event acdp_result" where
  "decided_event E resolve c b registry_did source i event = (\<lambda>(j, raw).
     if j = i then Inr event
     else rbind (event_from_value E raw) (\<lambda>parsed.
       if source = Retrieved \<and> le_event_type parsed \<in> {EvRetracted, EvRepublished}
       then verify_lifecycle_event E resolve raw (cg_ctx_id c) (b_agent_id b) (Some registry_did)
       else Inr parsed))"

primrec collect :: "('a \<Rightarrow> 'b acdp_result) \<Rightarrow> 'a list \<Rightarrow> 'b list acdp_result" where
  "collect f [] = Inr []"
| "collect f (x # xs) = rbind (f x) (\<lambda>y. rbind (collect f xs) (\<lambda>ys. Inr (y # ys)))"

definition verify_lifecycle ::
  "ext \<Rightarrow> net \<Rightarrow> web_resolver \<Rightarrow> change \<Rightarrow> json \<Rightarrow> json \<Rightarrow> held_context option \<Rightarrow> verification_policy \<Rightarrow> change_effect client_op" where
  "verify_lifecycle E N resolve c raw_event raw_receipt held policy =
     cbind (recall_authority N) (\<lambda>authority.
     cbind (clift (event_receipt_from_value E raw_receipt)) (\<lambda>r.
     let i = unat (er_index r); registry_did = authority_to_did_web authority in
     cbind (case held of
              Some h \<Rightarrow> if i \<le> length (hc_events h) then clift (held_material E h i raw_event)
                        else retrieved_material E N resolve c policy i raw_event
            | None \<Rightarrow> retrieved_material E N resolve c policy i raw_event) (\<lambda>(b, events, source).
     clift (rbind (check_body_binding c b authority) (\<lambda>_.
       rbind (verify_lifecycle_event E resolve raw_event (cg_ctx_id c) (b_agent_id b) (Some registry_did)) (\<lambda>event.
       rbind (verify_event_receipt_value E resolve raw_receipt authority (cg_ctx_id c) raw_event (er_index r) (b_created_at b)) (\<lambda>_.
       rbind (collect (decided_event E resolve c b registry_did source i event) (enumerate 0 events)) (\<lambda>decided.
       Inr (Eff_Lifecycle event (retraction_state decided) source)))))))))"

definition verify_superseded ::
  "ext \<Rightarrow> net \<Rightarrow> web_resolver \<Rightarrow> change \<Rightarrow> ctx_id \<Rightarrow> json \<Rightarrow> verification_policy \<Rightarrow> change_effect client_op" where
  "verify_superseded E N resolve c superseded_by raw_receipt policy =
     cbind (recall_authority N) (\<lambda>authority.
     cbind (fetch_with_policy E N resolve superseded_by (policy\<lparr>vp_receipts := RP_Require\<rparr>)) (\<lambda>v.
     let b = fc_body (vc_inner v) in
     clift (rbind (require (b_origin_registry b = authority) SchemaViolation) (\<lambda>_.
       rbind (require (b_supersedes b = Some (cg_ctx_id c)) SchemaViolation) (\<lambda>_.
       rbind (require (b_lineage_id b = cg_lineage_id c) SchemaViolation) (\<lambda>_.
       rbind (require (b_agent_id b = cg_agent_id c) SchemaViolation) (\<lambda>_.
       rbind (case (vc_placed v, fc_registry_receipt (vc_inner v)) of
                (Some _, Some served) \<Rightarrow> jcs_equal E served raw_receipt | _ \<Rightarrow> Inr False) (\<lambda>same.
       rbind (require same SchemaViolation) (\<lambda>_. Inr (Eff_Superseded v))))))))))"

definition attested_here :: "net \<Rightarrow> string \<Rightarrow> key_revocation \<Rightarrow> unit client_op" where
  "attested_here N authority r =
     (if kr_trust_class r = RegistryAttested
      then cbind (client_capabilities N) (\<lambda>caps. clift (cross_check_registry_binding r authority (cap_registry_did caps)))
      else cret ())"

definition served_receipt_check :: "ext \<Rightarrow> web_resolver \<Rightarrow> full_context \<Rightarrow> json \<Rightarrow> string \<Rightarrow> unit acdp_result" where
  "served_receipt_check E resolve ctx raw_receipt authority =
     rbind (receipt_from_value E raw_receipt) (\<lambda>_.
     rbind (ok_or (fc_registry_receipt ctx) SchemaViolation) (\<lambda>served.
     rbind (jcs_equal E served raw_receipt) (\<lambda>same.
     rbind (require same SchemaViolation) (\<lambda>_.
     rbind (signing_fingerprint E resolve (fc_body ctx)) (\<lambda>fp.
     void (verify_receipt_value E resolve served (b_ctx_id (fc_body ctx)) (fc_body ctx) (b_content_hash (fc_body ctx)) fp authority))))))"

definition verify_key_revocation ::
  "ext \<Rightarrow> net \<Rightarrow> web_resolver \<Rightarrow> change \<Rightarrow> json \<Rightarrow> change_effect client_op" where
  "verify_key_revocation E N resolve c raw_receipt =
     cbind (recall_authority N) (\<lambda>authority.
     cbind (client_retrieve N (cg_ctx_id c)) (\<lambda>ctx.
     let b = fc_body ctx in
     cbind (clift (require (b_ctx_id b = cg_ctx_id c) (ContextIdMismatch (cg_ctx_id c) (b_ctx_id b)))) (\<lambda>_.
     cbind (clift (require (b_lineage_id b = cg_lineage_id c) SchemaViolation)) (\<lambda>_.
     cbind (verify_revocation_candidate E N resolve ctx) (\<lambda>r.
     cbind (attested_here N authority r) (\<lambda>_.
     cbind (clift (served_receipt_check E resolve ctx raw_receipt authority)) (\<lambda>_.
     clift (rbind (require (speaks_for (sourced r (Discovered authority)) (cg_agent_id c)) SchemaViolation) (\<lambda>_.
       Inr (Eff_KeyRevocation (sourced r (Discovered authority))))))))))))"

definition verify_evidence ::
  "ext \<Rightarrow> net \<Rightarrow> web_resolver \<Rightarrow> change \<Rightarrow> held_context option \<Rightarrow> verification_policy \<Rightarrow> change_effect client_op" where
  "verify_evidence E N resolve c held policy =
     cbind (clift (check_consistency E c)) (\<lambda>_.
     case cg_evidence c of
       CE_Lifecycle event event_receipt \<Rightarrow> verify_lifecycle E N resolve c event event_receipt held policy
     | CE_Superseded superseded_by registry_receipt \<Rightarrow> verify_superseded E N resolve c superseded_by registry_receipt policy
     | CE_KeyRevocation registry_receipt \<Rightarrow> verify_key_revocation E N resolve c registry_receipt)"

definition verify_change ::
  "ext \<Rightarrow> net \<Rightarrow> web_resolver \<Rightarrow> change \<Rightarrow> held_context option \<Rightarrow> verification_policy \<Rightarrow> change_verdict client_op" where
  "verify_change E N resolve c held policy s =
     (if (case held of Some h \<Rightarrow> b_ctx_id (hc_body h) \<noteq> cg_ctx_id c | None \<Rightarrow> False) then (Inl SchemaViolation, s)
      else case verify_evidence E N resolve c held policy s of
        (Inr effect, s') \<Rightarrow> (Inr (Verified effect), s')
      | (Inl e, s') \<Rightarrow> if is_transient e then (Inl e, s') else (Inr (Rejected e), s'))"

end
