(* ===== verification/Acdp_Recall_Correct.thy ===== *)
theory Acdp_Recall_Correct
  imports Acdp_Recall Acdp_Fetch_Correct "HOL-Library.Sublist"
begin

text \<open>
  What a consumer may conclude from the change feed: a verified entry is backed by the evidence its kind
  calls for, and a consumer that follows the feed processes every entry it watches once and in order.
\<close>

section \<open>Verified entries\<close>

lemma collect_ok:
  "collect f xs = Inr ys \<longleftrightarrow> length ys = length xs \<and> (\<forall>i<length xs. f (xs ! i) = Inr (ys ! i))"
proof (induction xs arbitrary: ys)
  case (Cons x xs)
  then show ?case by (cases ys) (auto simp: rbind_eq_Inr All_less_Suc2)
qed auto

lemma verified_event_parses: "verify_lifecycle_event E resolve raw c a did = Inr e \<Longrightarrow> event_from_value E raw = Inr e"
  by (auto simp: verify_lifecycle_event_def lifecycle_event_prechecks_def rbind_eq_Inr)

text \<open>
  The list that decides the retraction state. At the entry's index it has the entry's event; every other
  event parses, and one that was retrieved and changes the state is verified.
\<close>

definition list_decides ::
  "ext \<Rightarrow> web_resolver \<Rightarrow> change \<Rightarrow> string \<Rightarrow> lifecycle_source \<Rightarrow> nat \<Rightarrow> json \<Rightarrow> json list \<Rightarrow> lifecycle_event list \<Rightarrow> bool" where
  "list_decides E resolve c registry_did source i raw raws decided \<longleftrightarrow>
     length decided = length raws \<and> i < length raws \<and> jcs_equal E (raws ! i) raw = Inr True \<and>
     verify_lifecycle_event E resolve raw (cg_ctx_id c) (cg_agent_id c) (Some registry_did) = Inr (decided ! i) \<and>
     (\<forall>j<length raws. j \<noteq> i \<longrightarrow> event_from_value E (raws ! j) = Inr (decided ! j) \<and>
        (source = Retrieved \<and> le_event_type (decided ! j) \<in> {EvRetracted, EvRepublished} \<longrightarrow>
           verify_lifecycle_event E resolve (raws ! j) (cg_ctx_id c) (cg_agent_id c) (Some registry_did) = Inr (decided ! j)))"

text \<open>Where the list and the body come from: what the consumer holds, or a verified retrieval.\<close>

definition material_from ::
  "ext \<Rightarrow> net \<Rightarrow> web_resolver \<Rightarrow> client \<Rightarrow> change \<Rightarrow> held_context option \<Rightarrow> verification_policy \<Rightarrow> json \<Rightarrow>
     lifecycle_source \<Rightarrow> body \<Rightarrow> json list \<Rightarrow> bool" where
  "material_from E N resolve s c held policy raw source b raws \<longleftrightarrow>
     (case source of
        Held \<Rightarrow> \<exists>h. held = Some h \<and> b = hc_body h \<and> (raws = hc_events h \<or> raws = hc_events h @ [raw])
      | Retrieved \<Rightarrow> \<exists>v s1. fetch_with_policy E N resolve (cg_ctx_id c) policy s = (Inr v, s1) \<and> b = fc_body (vc_inner v) \<and>
          raws = map (event_json E) (unwrap_or (rs_lifecycle_events (fc_registry_state (vc_inner v))) []))"

definition lifecycle_backed ::
  "ext \<Rightarrow> net \<Rightarrow> web_resolver \<Rightarrow> client \<Rightarrow> string \<Rightarrow> change \<Rightarrow> held_context option \<Rightarrow> verification_policy \<Rightarrow>
     lifecycle_event \<Rightarrow> bool \<Rightarrow> lifecycle_source \<Rightarrow> bool" where
  "lifecycle_backed E N resolve s authority c held policy event retracted source \<longleftrightarrow>
     (\<exists>raw receipt r st b raws decided. cg_evidence c = CE_Lifecycle raw receipt \<and>
        check_body_binding c b authority = Inr () \<and> material_from E N resolve s c held policy raw source b raws \<and>
        verify_event_receipt_value E resolve receipt authority (cg_ctx_id c) raw (er_index r) (b_created_at b) = Inr (r, st) \<and>
        list_decides E resolve c (authority_to_did_web authority) source (unat (er_index r)) raw raws decided \<and>
        event = decided ! unat (er_index r) \<and> retracted = retraction_state decided)"

definition superseded_backed ::
  "ext \<Rightarrow> net \<Rightarrow> web_resolver \<Rightarrow> client \<Rightarrow> string \<Rightarrow> change \<Rightarrow> verification_policy \<Rightarrow> verified_context \<Rightarrow> bool" where
  "superseded_backed E N resolve s authority c policy v \<longleftrightarrow>
     (\<exists>by receipt s1 p copy. cg_evidence c = CE_Superseded by receipt \<and>
        fetch_with_policy E N resolve by (policy\<lparr>vp_receipts := RP_Require\<rparr>) s = (Inr v, s1) \<and>
        (let b = fc_body (vc_inner v) in
         b_supersedes b = Some (cg_ctx_id c) \<and> b_lineage_id b = cg_lineage_id c \<and> b_agent_id b = cg_agent_id c \<and>
         b_origin_registry b = authority \<and> vc_placed v = Some p \<and> receipt_attests E resolve authority b p \<and>
         fc_registry_receipt (vc_inner v) = Some copy \<and> jcs_equal E copy receipt = Inr True))"

definition revocation_backed ::
  "ext \<Rightarrow> web_resolver \<Rightarrow> string \<Rightarrow> change \<Rightarrow> sourced_revocation \<Rightarrow> bool" where
  "revocation_backed E resolve authority c r \<longleftrightarrow>
     (\<exists>receipt ctx k fp copy placed. cg_evidence c = CE_KeyRevocation receipt \<and> r = sourced k (Discovered authority) \<and>
        speaks_for r (cg_agent_id c) \<and> genuine E resolve (Some authority) ctx k \<and>
        b_ctx_id (fc_body ctx) = cg_ctx_id c \<and> b_lineage_id (fc_body ctx) = cg_lineage_id c \<and>
        fc_registry_receipt ctx = Some copy \<and> jcs_equal E copy receipt = Inr True \<and>
        verify_receipt_value E resolve copy (cg_ctx_id c) (fc_body ctx) (b_content_hash (fc_body ctx)) fp authority = Inr placed)"

definition effect_backed ::
  "ext \<Rightarrow> net \<Rightarrow> web_resolver \<Rightarrow> client \<Rightarrow> string \<Rightarrow> change \<Rightarrow> held_context option \<Rightarrow> verification_policy \<Rightarrow> change_effect \<Rightarrow> bool" where
  "effect_backed E N resolve s authority c held policy effect \<longleftrightarrow>
     (case effect of
        Eff_Lifecycle event retracted source \<Rightarrow> lifecycle_backed E N resolve s authority c held policy event retracted source
      | Eff_Superseded v \<Rightarrow> superseded_backed E N resolve s authority c policy v
      | Eff_KeyRevocation r \<Rightarrow> revocation_backed E resolve authority c r)"

lemma jcs_equal_self: "event_hash_of_value E raw = Inr h \<Longrightarrow> jcs_equal E raw raw = Inr True"
  by (simp add: jcs_equal_def)

lemma receipt_hashes: "verify_event_receipt_value E resolve v a c raw i t = Inr x \<Longrightarrow> \<exists>h. event_hash_of_value E raw = Inr h"
  by (auto simp: verify_event_receipt_value_def check_binding_def rbind_eq_Inr)

lemma held_materialD:
  assumes "held_material E h i raw = Inr (b, raws, source)" "i \<le> length (hc_events h)"
  shows "source = Held \<and> b = hc_body h \<and> (raws = hc_events h \<and> i < length raws \<and> jcs_equal E (raws ! i) raw = Inr True \<or>
    raws = hc_events h @ [raw] \<and> i < length raws \<and> raws ! i = raw)"
  using assms by (auto simp: held_material_def rbind_eq_Inr nth_append split: if_splits)

lemma retrieved_materialD:
  assumes "retrieved_material E N resolve c policy i raw s = (Inr (b, raws, source), s')"
  shows "source = Retrieved \<and> i < length raws \<and> jcs_equal E (raws ! i) raw = Inr True \<and>
    material_from E N resolve s c held policy raw Retrieved b raws"
  using assms unfolding retrieved_material_def cbind_ok clift_ok Let_def
  by (fastforce simp: rbind_eq_Inr material_from_def split: if_splits)

lemma decided_list:
  assumes "collect (decided_event E resolve c b did source i event) (enumerate 0 raws) = Inr decided"
    and "i < length raws" "jcs_equal E (raws ! i) raw = Inr True" "b_agent_id b = cg_agent_id c"
    and "verify_lifecycle_event E resolve raw (cg_ctx_id c) (b_agent_id b) (Some did) = Inr event"
  shows "list_decides E resolve c did source i raw raws decided \<and> decided ! i = event"
proof -
  have all: "decided_event E resolve c b did source i event (j, raws ! j) = Inr (decided ! j)" if "j < length raws" for j
    using assms(1) that by (auto simp: collect_ok nth_enumerate_eq)
  have "decided ! i = event" using all[OF assms(2)] by (simp add: decided_event_def)
  moreover have "event_from_value E (raws ! j) = Inr (decided ! j) \<and>
      (source = Retrieved \<and> le_event_type (decided ! j) \<in> {EvRetracted, EvRepublished} \<longrightarrow>
         verify_lifecycle_event E resolve (raws ! j) (cg_ctx_id c) (cg_agent_id c) (Some did) = Inr (decided ! j))"
    if "j < length raws" "j \<noteq> i" for j
    using all[OF that(1)] that(2) assms(4) verified_event_parses
    by (auto simp: decided_event_def rbind_eq_Inr split: if_splits)
  moreover have "length decided = length raws" using assms(1) by (simp add: collect_ok)
  ultimately show ?thesis using assms(2,3,4,5) by (auto simp: list_decides_def)
qed

lemma lifecycle_entry:
  assumes run: "verify_lifecycle E N resolve c raw receipt held policy s = (Inr effect, s')"
    and authority: "client_authority N s = Some authority" and evidence: "cg_evidence c = CE_Lifecycle raw receipt"
  shows "effect_backed E N resolve s authority c held policy effect"
proof -
  let ?did = "authority_to_did_web authority"
  obtain r b raws source s1 where parsed: "event_receipt_from_value E receipt = Inr r"
    and material: "(case held of
              Some h \<Rightarrow> if unat (er_index r) \<le> length (hc_events h) then clift (held_material E h (unat (er_index r)) raw)
                        else retrieved_material E N resolve c policy (unat (er_index r)) raw
            | None \<Rightarrow> retrieved_material E N resolve c policy (unat (er_index r)) raw) s = (Inr (b, raws, source), s1)"
    and rest: "rbind (check_body_binding c b authority) (\<lambda>_.
       rbind (verify_lifecycle_event E resolve raw (cg_ctx_id c) (b_agent_id b) (Some ?did)) (\<lambda>event.
       rbind (verify_event_receipt_value E resolve receipt authority (cg_ctx_id c) raw (er_index r) (b_created_at b)) (\<lambda>_.
       rbind (collect (decided_event E resolve c b ?did source (unat (er_index r)) event) (enumerate 0 raws)) (\<lambda>decided.
       Inr (Eff_Lifecycle event (retraction_state decided) source))))) = Inr effect"
    using run authority by (auto simp: verify_lifecycle_def cbind_ok clift_ok recall_authority_def Let_def)
  obtain event x st decided where binding: "check_body_binding c b authority = Inr ()"
    and event: "verify_lifecycle_event E resolve raw (cg_ctx_id c) (b_agent_id b) (Some ?did) = Inr event"
    and checked: "verify_event_receipt_value E resolve receipt authority (cg_ctx_id c) raw (er_index r) (b_created_at b) = Inr (x, st)"
    and decided: "collect (decided_event E resolve c b ?did source (unat (er_index r)) event) (enumerate 0 raws) = Inr decided"
    and effect: "effect = Eff_Lifecycle event (retraction_state decided) source"
    using rest by (auto simp: rbind_eq_Inr)
  have x: "x = r" using checked parsed by (auto simp: verify_event_receipt_value_def rbind_eq_Inr)
  have "unat (er_index r) < length raws \<and> jcs_equal E (raws ! unat (er_index r)) raw = Inr True \<and>
      material_from E N resolve s c held policy raw source b raws"
  proof (cases "\<exists>h. held = Some h \<and> unat (er_index r) \<le> length (hc_events h)")
    case True
    then obtain h where h: "held = Some h" "unat (er_index r) \<le> length (hc_events h)" by blast
    then have "held_material E h (unat (er_index r)) raw = Inr (b, raws, source)" using material by (simp add: clift_ok)
    from held_materialD[OF this h(2)] receipt_hashes[OF checked] show ?thesis
      using h(1) jcs_equal_self by (auto simp: material_from_def)
  next
    case False
    then have "retrieved_material E N resolve c policy (unat (er_index r)) raw s = (Inr (b, raws, source), s1)"
      using material by (auto split: option.splits)
    from retrieved_materialD[OF this] show ?thesis by blast
  qed
  moreover have "b_agent_id b = cg_agent_id c" using binding by (simp add: check_body_binding_def rbind_eq_Inr)
  ultimately have "list_decides E resolve c ?did source (unat (er_index r)) raw raws decided \<and> decided ! unat (er_index r) = event"
    and "material_from E N resolve s c held policy raw source b raws"
    using decided_list[OF decided _ _ _ event] by blast+
  then have "lifecycle_backed E N resolve s authority c held policy event (retraction_state decided) source"
    unfolding lifecycle_backed_def using evidence binding checked[unfolded x] by blast
  then show ?thesis by (simp add: effect effect_backed_def)
qed

lemma superseded_entry:
  assumes run: "verify_superseded E N resolve c by receipt policy s = (Inr effect, s')"
    and authority: "client_authority N s = Some authority" and evidence: "cg_evidence c = CE_Superseded by receipt"
  shows "effect_backed E N resolve s authority c held policy effect"
proof -
  let ?policy = "policy\<lparr>vp_receipts := RP_Require\<rparr>"
  obtain v s1 where v: "fetch_with_policy E N resolve by ?policy s = (Inr v, s1)" "effect = Eff_Superseded v"
    and bound: "b_origin_registry (fc_body (vc_inner v)) = authority" "b_supersedes (fc_body (vc_inner v)) = Some (cg_ctx_id c)"
      "b_lineage_id (fc_body (vc_inner v)) = cg_lineage_id c" "b_agent_id (fc_body (vc_inner v)) = cg_agent_id c"
    and same: "(case (vc_placed v, fc_registry_receipt (vc_inner v)) of
                (Some _, Some copy) \<Rightarrow> jcs_equal E copy receipt | _ \<Rightarrow> Inr False) = Inr True"
    using run authority by (auto simp: verify_superseded_def cbind_ok clift_ok recall_authority_def Let_def rbind_eq_Inr)
  obtain p copy where p: "vc_placed v = Some p" "fc_registry_receipt (vc_inner v) = Some copy" "jcs_equal E copy receipt = Inr True"
    using same by (auto split: option.splits)
  have "serving_authority_of N s by = authority" using authority by (simp add: serving_authority_of_def)
  then have "receipt_attests E resolve authority (fc_body (vc_inner v)) p"
    using fetched_facts(3)[OF v(1) refl p(1)] by simp
  then show ?thesis
    unfolding effect_backed_def v(2) using evidence v(1) bound p by (auto simp: superseded_backed_def Let_def)
qed

lemma revocation_entry:
  assumes run: "verify_key_revocation E N resolve c receipt s = (Inr effect, s')"
    and authority: "client_authority N s = Some authority" and evidence: "cg_evidence c = CE_KeyRevocation receipt"
  shows "effect_backed E N resolve s authority c held policy effect"
proof -
  obtain ctx s1 k s2 where ctx: "client_retrieve N (cg_ctx_id c) s = (Inr ctx, s1)"
      "b_ctx_id (fc_body ctx) = cg_ctx_id c" "b_lineage_id (fc_body ctx) = cg_lineage_id c"
    and k: "verify_revocation_candidate E N resolve ctx s1 = (Inr k, s2)"
    and receipt: "served_receipt_check E resolve ctx receipt authority = Inr ()"
    and effect: "effect = Eff_KeyRevocation (sourced k (Discovered authority))" "speaks_for (sourced k (Discovered authority)) (cg_agent_id c)"
    using run authority by (auto simp: verify_key_revocation_def cbind_ok clift_ok recall_authority_def Let_def rbind_eq_Inr)
  have "genuine E resolve (Some authority) ctx k"
    using candidate_genuine[of E N resolve ctx s1 k] k retrieve_fields(2)[OF ctx(1)] authority by simp
  moreover obtain copy fp placed where "fc_registry_receipt ctx = Some copy" "jcs_equal E copy receipt = Inr True"
    "verify_receipt_value E resolve copy (b_ctx_id (fc_body ctx)) (fc_body ctx) (b_content_hash (fc_body ctx)) fp authority = Inr placed"
    using receipt by (auto simp: served_receipt_check_def rbind_eq_Inr ok_or_eq_Inr void_def)
  ultimately have "revocation_backed E resolve authority c (sourced k (Discovered authority))"
    unfolding revocation_backed_def using evidence effect(2) ctx(2,3) by metis
  then show ?thesis by (simp add: effect(1) effect_backed_def)
qed

text \<open>
  C17. A verified change entry is backed by evidence, whatever the registry answers. Its time is the
  evidence's. A lifecycle entry has an event and an event receipt that verify for its context and
  producer at this registry, and the reported state is the state of a full event list, held or
  retrieved with a verified context, with that event at the index its receipt gives. A supersession
  has a verified successor in the same lineage of the same producer whose receipt is the entry's. A
  revocation is genuine, carries the entry's receipt, and speaks for the entry's producer.
\<close>

theorem verified_change_backed:
  assumes "verify_change E N resolve c held policy s = (Inr (Verified effect), s')"
    and "client_authority N s = Some authority"
  shows "effect_backed E N resolve s authority c held policy effect \<and>
    evidence_stamp (cg_evidence c) = x_fmt_ms E (cg_recorded_at c)"
proof -
  obtain s1 where run: "verify_evidence E N resolve c held policy s = (Inr effect, s1)"
    using assms(1) by (auto simp: verify_change_def split: if_splits prod.splits sum.splits)
  then have "check_consistency E c = Inr ()" by (auto simp: verify_evidence_def cbind_ok clift_ok)
  then have "evidence_stamp (cg_evidence c) = x_fmt_ms E (cg_recorded_at c)"
    by (auto simp: check_consistency_def check_envelope_def rbind_eq_Inr split: sum.splits)
  moreover have "effect_backed E N resolve s authority c held policy effect"
    using run lifecycle_entry[OF _ assms(2)] superseded_entry[OF _ assms(2)] revocation_entry[OF _ assms(2)]
    by (auto simp: verify_evidence_def cbind_ok clift_ok split: change_evidence.splits)
  ultimately show ?thesis by blast
qed

section \<open>Pages survive the wire\<close>

lemma change_roundtrip:
  assumes "change_validate E c = Inr ()" "time_roundtrip E (cg_recorded_at c)"
  shows "change_deserialize E (change_json E c) = Some c"
  using assms
  by (cases c; cases "cg_evidence c")
    (simp_all add: change_deserialize_def change_json_def struct_members_def member_str_def cg_kind_def change_kind_deserialize_def
      strict_ms_deserialize_def time_roundtrip_def de_present_def Let_def is_ok_def)

lemma those_map_Some: "(\<forall>x\<in>set xs. f x = Some (g x)) \<Longrightarrow> those (map f xs) = Some (map g xs)"
  by (induction xs) auto

lemma page_reads_back:
  assumes "\<forall>c\<in>set (fr_changes r). change_validate E c = Inr () \<and> time_roundtrip E (cg_recorded_at c)"
    and "changes_response_validate r = Inr ()"
  shows "changes_response_from_value E (changes_response_json E r) = Inr r"
proof -
  have "those (map (change_deserialize E) (map (change_json E) (fr_changes r))) = Some (map id (fr_changes r))"
    unfolding map_map comp_def using assms(1) change_roundtrip by (intro those_map_Some) auto
  then show ?thesis
    using assms(2)
    by (cases r) (simp add: changes_response_from_value_def changes_response_deserialize_def changes_response_json_def struct_members_def
        member_str_def de_list_def)
qed

text \<open>
  C31. The pages a registry writes are read back as they were: entries built by the constructors of the
  three kinds, in ascending order and with a cursor of permitted length, pass the closed parser and
  give the same page, so no entry is lost or altered between registry and consumer.
\<close>

theorem change_page_roundtrip:
  assumes "\<forall>c\<in>set (fr_changes r). change_validate E c = Inr () \<and> time_roundtrip E (cg_recorded_at c)"
    and "changes_response_validate r = Inr ()"
  shows "changes_response_from_value E (changes_response_json E r) = Inr r"
  by (rule page_reads_back[OF assms])

section \<open>Following the feed\<close>

text \<open>
  The loop a consumer is told to run (the example of the module documentation of
  acdp-client/src/recall.rs, over the operations of \<open>SeenChanges\<close> and \<open>ChangeFeed\<close>): an entry at or
  below the mark is skipped, any other is processed and marked.
\<close>

primrec process_entries :: "string \<Rightarrow> change list \<Rightarrow> seen_changes \<times> change list \<Rightarrow> seen_changes \<times> change list" where
  "process_entries a [] st = st"
| "process_entries a (c # cs) st =
     process_entries a cs (if seen_is_new (fst st) a (cg_seq c) then (seen_mark a (cg_seq c) (fst st), snd st @ [c]) else st)"

text \<open>
  A page is processed whole and the position moves on, or the consumer stops inside the page and starts
  again from the position it had. It keeps its marks, which are in memory only: the stop is an
  error or a cancelled page, not a restart of the process.
\<close>

inductive recall_step ::
  "ext \<Rightarrow> net \<Rightarrow> string \<Rightarrow> change_feed \<times> seen_changes \<times> change list \<Rightarrow> change_feed \<times> seen_changes \<times> change list \<Rightarrow> bool"
  for E N a where
  follow: "feed_fetch E N d s = (Inr page, s') \<Longrightarrow>
     recall_step E N a (d, st) (feed_advance page d, process_entries a (fr_changes page) st)"
| interrupted: "feed_fetch E N d s = (Inr page, s') \<Longrightarrow>
     recall_step E N a (d, st) (d, process_entries a (take k (fr_changes page)) st)"

text \<open>
  A feed over the entries \<open>L\<close>: a page holds the watched entries between its position and the position
  of its next cursor.
\<close>

definition feed_serves ::
  "ext \<Rightarrow> net \<Rightarrow> watch_filter \<Rightarrow> (change \<Rightarrow> bool) \<Rightarrow> change list \<Rightarrow> (since \<Rightarrow> nat) \<Rightarrow> bool" where
  "feed_serves E N f watched L pos \<longleftrightarrow>
     sorted_wrt (\<lambda>x y. cg_seq x < cg_seq y) L \<and> pos Start = 0 \<and>
     (\<forall>since limit s page s'. client_changes E N since f limit s = (Inr page, s') \<longrightarrow>
        (let i = pos since; j = pos (Cursor (fr_next_cursor page)) in
         i \<le> j \<and> j \<le> length L \<and> fr_changes page = filter watched (take (j - i) (drop i L))))"

definition mark_of :: "change list \<Rightarrow> nat \<Rightarrow> u64 option" where
  "mark_of M m = (if m = 0 then None else Some (cg_seq (M ! (m - 1))))"

lemma process_segment:
  assumes sorted: "sorted_wrt (\<lambda>x y. cg_seq x < cg_seq y) M"
    and "i \<le> m" "m \<le> length M" "i + q \<le> length M" "seen a = mark_of M m"
  shows "\<exists>seen'. process_entries a (take q (drop i M)) (seen, take m M) = (seen', take (max m (i + q)) M) \<and>
    seen' a = mark_of M (max m (i + q))"
  using assms(2-)
proof (induction q arbitrary: i m seen)
  case (Suc q)
  have split: "take (Suc q) (drop i M) = M ! i # take q (drop (Suc i) M)"
    using Suc.prems(3) by (metis Cons_nth_drop_Suc add_Suc_right le_add1 le_less_trans less_eq_Suc_le take_Suc_Cons)
  show ?case
  proof (cases "i < m")
    case True
    then have "cg_seq (M ! i) \<le> cg_seq (M ! (m - 1))"
      using sorted Suc.prems(2) by (cases "i = m - 1") (auto simp: sorted_wrt_iff_nth_less intro: less_imp_le)
    then have "\<not> seen_is_new seen a (cg_seq (M ! i))"
      using Suc.prems(4) True by (simp add: seen_is_new_def mark_of_def)
    then show ?thesis
      using Suc.IH[of "Suc i" m seen] True Suc.prems unfolding split by simp
  next
    case False
    then have i: "i = m" using Suc.prems(1) by simp
    have m: "m < length M" using Suc.prems(3) i by simp
    have "seen_is_new seen a (cg_seq (M ! m))"
      using Suc.prems(4) sorted m by (auto simp: seen_is_new_def mark_of_def sorted_wrt_iff_nth_less)
    then have step: "process_entries a (take (Suc q) (drop i M)) (seen, take m M) =
        process_entries a (take q (drop (Suc m) M)) (seen_mark a (cg_seq (M ! m)) seen, take (Suc m) M)"
      unfolding split by (simp add: i take_Suc_conv_app_nth[OF m])
    have "seen_mark a (cg_seq (M ! m)) seen a = mark_of M (Suc m)"
      using Suc.prems(4) sorted m
      by (auto simp: seen_mark_def mark_of_def unwrap_or_def sorted_wrt_iff_nth_less max_def intro: less_imp_le split: option.split)
    from Suc.IH[of "Suc m" "Suc m" "seen_mark a (cg_seq (M ! m)) seen", OF _ _ _ this] show ?thesis
      using Suc.prems(3) m step unfolding i by (simp del: process_entries.simps)
  qed
qed (auto simp: max_def)

lemma filter_segment:
  assumes "i \<le> j"
  shows "filter P (take (j - i) (drop i L)) =
    take (length (filter P (take j L)) - length (filter P (take i L))) (drop (length (filter P (take i L))) (filter P L))"
proof -
  have "take j L = take i L @ take (j - i) (drop i L)" using assms by (metis le_add_diff_inverse take_add)
  then have j: "filter P (take j L) = filter P (take i L) @ filter P (take (j - i) (drop i L))" by simp
  have "filter P L = filter P (take j L) @ filter P (drop j L)" by (metis append_take_drop_id filter_append)
  then show ?thesis unfolding j by simp
qed

text \<open>What is processed is a beginning of the watched entries, up to the position at least.\<close>

definition recall_inv ::
  "ext \<Rightarrow> net \<Rightarrow> string \<Rightarrow> watch_filter \<Rightarrow> (change \<Rightarrow> bool) \<Rightarrow> change list \<Rightarrow> (since \<Rightarrow> nat) \<Rightarrow>
     change_feed \<times> seen_changes \<times> change list \<Rightarrow> bool" where
  "recall_inv E N a f watched L pos = (\<lambda>(d, seen, processed).
     feed_serves E N f watched L pos \<and> fd_filter d = f \<and> pos (fd_since d) \<le> length L \<and>
     (\<exists>m. processed = take m (filter watched L) \<and> m \<le> length (filter watched L) \<and> seen a = mark_of (filter watched L) m \<and>
        length (filter watched (take (pos (fd_since d)) L)) \<le> m))"

lemma feed_servesD:
  assumes "feed_serves E N f watched L pos" "client_changes E N since f limit s = (Inr page, s')"
  shows "pos since \<le> pos (Cursor (fr_next_cursor page)) \<and> pos (Cursor (fr_next_cursor page)) \<le> length L \<and>
    fr_changes page = filter watched (take (pos (Cursor (fr_next_cursor page)) - pos since) (drop (pos since) L))"
  using assms unfolding feed_serves_def Let_def by blast

lemma recall_page:
  assumes inv: "recall_inv E N a f watched L pos (d, seen, processed)" and page: "feed_fetch E N d s = (Inr page, s')"
  shows "pos (fd_since (feed_advance page d)) \<le> length L"
    and "\<exists>m seen'. process_entries a (take k (fr_changes page)) (seen, processed) = (seen', take m (filter watched L)) \<and>
      m \<le> length (filter watched L) \<and> seen' a = mark_of (filter watched L) m \<and>
      length (filter watched (take (pos (fd_since d)) L)) \<le> m \<and>
      (length (fr_changes page) \<le> k \<longrightarrow> length (filter watched (take (pos (fd_since (feed_advance page d))) L)) \<le> m)"
proof -
  let ?M = "filter watched L" and ?i = "pos (fd_since d)" and ?j = "pos (Cursor (fr_next_cursor page))"
  let ?a = "length (filter watched (take ?i L))" and ?b = "length (filter watched (take ?j L))"
  obtain m where m: "processed = take m ?M" "m \<le> length ?M" "seen a = mark_of ?M m" "?a \<le> m"
    using inv by (auto simp: recall_inv_def)
  have serves: "feed_serves E N f watched L pos" and f: "fd_filter d = f" using inv by (simp_all add: recall_inv_def)
  then have seg: "?i \<le> ?j" "?j \<le> length L" "fr_changes page = filter watched (take (?j - ?i) (drop ?i L))"
    using feed_servesD page unfolding feed_fetch_def by blast+
  then show "pos (fd_since (feed_advance page d)) \<le> length L" by (simp add: feed_advance_def)
  have es: "fr_changes page = take (?b - ?a) (drop ?a ?M)" using seg(3) filter_segment[OF seg(1)] by simp
  have sorted: "sorted_wrt (\<lambda>x y. cg_seq x < cg_seq y) ?M" using serves by (auto simp: feed_serves_def sorted_wrt_filter)
  have "filter watched L = filter watched (take ?j L) @ filter watched (drop ?j L)" by (metis append_take_drop_id filter_append)
  then have bM: "?b \<le> length ?M" by (metis length_append le_add1)
  have "filter watched (take ?j L) = filter watched (take ?i L) @ filter watched (drop ?i (take ?j L))"
    using seg(1) by (metis append_take_drop_id filter_append min_def take_take)
  then have ab: "?a \<le> ?b" by simp
  let ?q = "min k (?b - ?a)"
  have take: "take k (fr_changes page) = take ?q (drop ?a ?M)" by (simp add: es)
  have "\<exists>seen'. process_entries a (take ?q (drop ?a ?M)) (seen, take m ?M) = (seen', take (max m (?a + ?q)) ?M) \<and>
      seen' a = mark_of ?M (max m (?a + ?q))"
    by (rule process_segment[OF sorted m(4) m(2)]) (use ab bM m(3) in simp_all)
  then obtain seen' where run: "process_entries a (take k (fr_changes page)) (seen, processed) = (seen', take (max m (?a + ?q)) ?M)"
    "seen' a = mark_of ?M (max m (?a + ?q))" unfolding take m(1) by blast
  have "length (fr_changes page) = ?b - ?a" using bM ab unfolding es length_take length_drop by linarith
  then have reached: "length (fr_changes page) \<le> k \<longrightarrow> ?b \<le> max m (?a + ?q)" using ab by linarith
  have "max m (?a + ?q) \<le> length ?M" "?a \<le> max m (?a + ?q)" using m(2,4) ab bM by linarith+
  moreover have "pos (fd_since (feed_advance page d)) = ?j" by (simp add: feed_advance_def)
  ultimately show "\<exists>m seen'. process_entries a (take k (fr_changes page)) (seen, processed) = (seen', take m ?M) \<and>
      m \<le> length ?M \<and> seen' a = mark_of ?M m \<and> ?a \<le> m \<and>
      (length (fr_changes page) \<le> k \<longrightarrow> length (filter watched (take (pos (fd_since (feed_advance page d))) L)) \<le> m)"
    using run reached by (intro exI[of _ "max m (?a + ?q)"] exI[of _ seen']) (simp only: simp_thms)
qed

lemma recall_step_inv:
  assumes "recall_inv E N a f watched L pos x" "recall_step E N a x y"
  shows "recall_inv E N a f watched L pos y"
  using assms(2,1)
proof (cases rule: recall_step.cases)
  case (follow d s page s' st)
  obtain seen processed where st: "st = (seen, processed)" by (cases st)
  note inv = assms(1)[unfolded follow st]
  show ?thesis
    using recall_page(1)[OF inv follow(3)] recall_page(2)[OF inv follow(3), of "length (fr_changes page)"] inv
    unfolding follow st by (auto simp: recall_inv_def feed_advance_def)
next
  case (interrupted d s page s' st k)
  obtain seen processed where st: "st = (seen, processed)" by (cases st)
  note inv = assms(1)[unfolded interrupted st]
  show ?thesis
    using recall_page(2)[OF inv interrupted(3), of k] inv unfolding interrupted st by (auto simp: recall_inv_def)
qed

interpretation recall: transition_system "recall_step E N a" "recall_inv E N a f watched L pos" for E N a f watched L pos
  by unfold_locales (rule recall_step_inv)

text \<open>
  C18. A consumer processes every watched entry exactly once and in order. Over a feed that serves its log
  from any cursor it gave out, in pages of any size, a consumer that deduplicates by the highest
  number it has seen, and that may stop inside a page and start again from its last position,
  has at any time processed a beginning of the watched entries, without gap or repetition; at the end
  of the log it has processed them all.
\<close>

theorem recall_exactly_once:
  assumes "feed_serves E N f watched L pos"
    and "(recall_step E N a)\<^sup>*\<^sup>* (feed_new f, Map.empty, []) (d, seen, processed)"
  shows "prefix processed (filter watched L) \<and> (pos (fd_since d) = length L \<longrightarrow> processed = filter watched L)"
proof -
  have "recall_inv E N a f watched L pos (feed_new f, Map.empty, [])"
    using assms(1) by (auto simp: recall_inv_def feed_new_def mark_of_def feed_serves_def)
  then have "recall_inv E N a f watched L pos (d, seen, processed)" using recall.steps_inv[OF assms(2)] by blast
  then show ?thesis by (auto simp: recall_inv_def take_is_prefix)
qed

section \<open>Witnesses\<close>

text \<open>A retraction of the sample context, as an entry of the feed of its registry.\<close>

definition recall_event :: json where
  "recall_event = event_json sample_ext \<lparr>le_event_id = sample_uuid, le_ctx_id = sample_ctx, le_event_type = EvRetracted, le_occurred_at = 0,
     le_actor = ''did:key:zA'', le_reason = None,
     le_signature = Some \<lparr>sig_algorithm = ''ed25519'', sig_key_id = ''did:key:zA#zA'', sig_value = replicate 88 CHR ''A''\<rparr>\<rparr>"

definition recall_receipt :: json where
  "recall_receipt =
     (case mint_event_receipt sample_ext sample_signer sample_ctx recall_event 0 0 of Inr r \<Rightarrow> event_receipt_json sample_ext r | Inl _ \<Rightarrow> JNull)"

definition recall_entry :: change where
  "recall_entry = \<lparr>cg_seq = 1, cg_ctx_id = sample_ctx, cg_lineage_id = b_lineage_id sample_body, cg_agent_id = ''did:key:zA'',
     cg_recorded_at = 0, cg_evidence = CE_Lifecycle recall_event recall_receipt\<rparr>"

definition recall_held :: held_context where
  "recall_held = \<lparr>hc_body = sample_body, hc_events = []\<rparr>"

definition is_retraction :: "change_verdict acdp_result \<Rightarrow> bool" where
  "is_retraction r = (case r of Inr (Verified (Eff_Lifecycle _ True Held)) \<Rightarrow> True | _ \<Rightarrow> False)"

lemma recall_entry_verified:
  "is_retraction (fst (verify_change sample_ext (rv_net None) sample_resolver recall_entry (Some recall_held) default_verification_policy rv_client))"
  by code_simp

theorem verified_change_backed_witness:
  "\<exists>event. effect_backed sample_ext (rv_net None) sample_resolver rv_client ''r.example'' recall_entry (Some recall_held)
     default_verification_policy (Eff_Lifecycle event True Held)"
proof -
  obtain event s' where run: "verify_change sample_ext (rv_net None) sample_resolver recall_entry (Some recall_held) default_verification_policy rv_client =
      (Inr (Verified (Eff_Lifecycle event True Held)), s')"
    using recall_entry_verified by (auto simp: is_retraction_def prod_eq_iff split: sum.splits change_verdict.splits change_effect.splits bool.splits lifecycle_source.splits)
  have "client_authority (rv_net None) rv_client = Some ''r.example''" by (simp add: client_authority_def)
  from verified_change_backed[OF run this] show ?thesis by blast
qed

definition recall_page_of :: "change list \<Rightarrow> changes_response" where
  "recall_page_of cs = \<lparr>fr_changes = cs, fr_next_cursor = ''1'', fr_has_more = False\<rparr>"

lemma recall_entry_ok: "change_validate sample_ext recall_entry = Inr ()"
proof -
  have "is_ok (change_validate sample_ext recall_entry)" by code_simp
  then show ?thesis by (simp add: is_ok_iff)
qed

lemma recall_page_ok: "changes_response_validate (recall_page_of cs) = Inr ()" if "length cs \<le> 1"
proof -
  have "char_count ''1'' \<le> MAX_CURSOR_LEN" by code_simp
  then show ?thesis
    using that by (cases cs) (simp_all add: changes_response_validate_def recall_page_of_def check_cursor_def)
qed

theorem change_page_roundtrip_witness:
  "changes_response_from_value sample_ext (changes_response_json sample_ext (recall_page_of [recall_entry])) = Inr (recall_page_of [recall_entry])"
  by (rule change_page_roundtrip)
    (use recall_entry_ok sample_time recall_page_ok[of "[recall_entry]"] in \<open>simp_all add: recall_page_of_def recall_entry_def\<close>)

text \<open>A feed with this one entry.\<close>

definition recall_net :: net where
  "recall_net = (rv_net None)
     \<lparr>nt_send := \<lambda>_ req _. case req of
        GetChanges q \<Rightarrow> (case map_of q ''since'' of None \<Rightarrow> rv_ok 1 | Some c \<Rightarrow> if c = ''1'' then rv_ok 0 else Inl Http)
      | _ \<Rightarrow> Inl Http,
      nt_value := \<lambda>bs. Some (changes_response_json sample_ext (recall_page_of (if bs = [1] then [recall_entry] else [])))\<rparr>"

definition recall_pos :: "since \<Rightarrow> nat" where
  "recall_pos since = (if since = Start then 0 else 1)"

definition recall_answer :: "since \<Rightarrow> changes_response acdp_result" where
  "recall_answer since =
     (if since = Start then Inr (recall_page_of [recall_entry]) else if since = Cursor ''1'' then Inr (recall_page_of []) else Inl Http)"

lemma recall_reads_back:
  "changes_response_from_value sample_ext (changes_response_json sample_ext (recall_page_of (if b then [recall_entry] else []))) =
     Inr (recall_page_of (if b then [recall_entry] else []))"
  using recall_entry_ok sample_time recall_page_ok[of "if b then [recall_entry] else []"]
  by (intro page_reads_back) (auto simp: recall_page_of_def recall_entry_def split: if_splits)

lemma recall_page_read: "fst (changes_page sample_ext recall_net since watch_filter_new limit s) = recall_answer since"
proof -
  have send: "send_read recall_net req s = (nt_send recall_net (cl_trace s) req None, emit (Sent req None) s)" for req
    by (cases "cl_auth s") (simp_all add: send_read_def transmit_def client_authority_def recall_net_def rv_net_def)
  have q: "map_of (changes_query from watch_filter_new limit) ''since'' = as_query from" for "from"
    by (cases "from"; cases limit) (simp_all add: changes_query_def query_pairs_def watch_filter_new_def)
  have net: "nt_send recall_net t (GetChanges q) None = (case map_of q ''since'' of None \<Rightarrow> rv_ok 1 | Some c \<Rightarrow> if c = ''1'' then rv_ok 0 else Inl Http)"
    "nt_value recall_net [b] = Some (changes_response_json sample_ext (recall_page_of (if b = 1 then [recall_entry] else [])))" for t q b
    by (simp_all add: recall_net_def)
  show ?thesis
    using recall_reads_back[of True] recall_reads_back[of False]
    by (cases since)
      (auto simp: changes_page_def cbind_def clift_def send net q recall_answer_def rv_ok_def parse_response_def parse_success_def
        read_body_capped_def MAX_CHANGES_PAGE_BYTES_def)
qed

lemma recall_fetched: "\<exists>s'. client_changes sample_ext recall_net since watch_filter_new limit s = (recall_answer since, s')"
proof -
  have "\<exists>s'. changes_loop sample_ext recall_net since watch_filter_new limit s = (recall_answer since, s')"
    using recall_page_read[of since limit s]
    by (subst changes_loop.simps) (auto simp: recall_answer_def prod_eq_iff split: prod.splits sum.splits)
  then show ?thesis by (auto simp: client_changes_def cbind_def cret_def has_buckets_def watch_filter_new_def)
qed

lemma recall_served: "feed_serves sample_ext recall_net watch_filter_new (\<lambda>_. True) [recall_entry] recall_pos"
  unfolding feed_serves_def
proof (intro conjI allI impI)
  fix since limit s page s'
  assume "client_changes sample_ext recall_net since watch_filter_new limit s = (Inr page, s')"
  then have "recall_answer since = Inr page" using recall_fetched[of since limit s] by auto
  then show "let i = recall_pos since; j = recall_pos (Cursor (fr_next_cursor page)) in
      i \<le> j \<and> j \<le> length [recall_entry] \<and> fr_changes page = filter (\<lambda>_. True) (take (j - i) (drop i [recall_entry]))"
    by (auto simp: recall_answer_def recall_pos_def recall_page_of_def split: if_splits)
qed (simp_all add: recall_pos_def)

theorem recall_exactly_once_witness:
  "\<exists>d seen. (recall_step sample_ext recall_net ''r.example'')\<^sup>*\<^sup>* (feed_new watch_filter_new, Map.empty, []) (d, seen, [recall_entry]) \<and>
     [recall_entry] = filter (\<lambda>_. True) [recall_entry]"
proof -
  let ?d = "feed_new watch_filter_new" and ?page = "recall_page_of [recall_entry]"
  define step where "step = recall_step sample_ext recall_net ''r.example''"
  define mark where "mark = seen_mark ''r.example'' 1 Map.empty"
  obtain s' where fetch: "feed_fetch sample_ext recall_net ?d rv_client = (Inr ?page, s')"
    using recall_fetched[of Start None rv_client] by (auto simp: feed_fetch_def feed_new_def recall_answer_def)
  have entry: "cg_seq recall_entry = 1" "fr_changes ?page = [recall_entry]" by (simp_all add: recall_entry_def recall_page_of_def)
  have first: "process_entries ''r.example'' (take 1 (fr_changes ?page)) (Map.empty, []) = (mark, [recall_entry])"
    and again: "process_entries ''r.example'' (fr_changes ?page) (mark, [recall_entry]) = (mark, [recall_entry])"
    by (simp_all add: entry seen_is_new_def seen_mark_def unwrap_or_def mark_def)
  have "step (?d, Map.empty, []) (?d, mark, [recall_entry])"
    using recall_step.interrupted[OF fetch, of "''r.example''" "(Map.empty, [])" 1] unfolding first step_def .
  moreover have "step (?d, mark, [recall_entry]) (feed_advance ?page ?d, mark, [recall_entry])"
    using recall_step.follow[OF fetch, of "''r.example''" "(mark, [recall_entry])"] unfolding again step_def .
  ultimately have steps: "step\<^sup>*\<^sup>* (?d, Map.empty, []) (feed_advance ?page ?d, mark, [recall_entry])"
    by (rule converse_rtranclp_into_rtranclp[OF _ r_into_rtranclp])
  have "recall_pos (fd_since (feed_advance ?page ?d)) = length [recall_entry]"
    by (simp add: feed_advance_def recall_pos_def)
  then have "[recall_entry] = filter (\<lambda>_. True) [recall_entry]"
    using recall_exactly_once[OF recall_served steps[unfolded step_def]] by blast
  then show ?thesis using steps unfolding step_def by blast
qed

end
