(* ===== verification/Acdp_Change_Correct.thy ===== *)
theory Acdp_Change_Correct
  imports Acdp_Change Acdp_Search_Correct Acdp_Server_Correct
begin

text \<open>
  Watching by bucket loses nothing that an exact watch would have matched, and the signature of a change
  hint is accepted for the bytes it was made for, within the time window, and for nothing else.
\<close>

section \<open>Buckets\<close>

lemma bucket_prefix: "n \<le> 64 \<Longrightarrow> starts_with (bucket E v n) (bucket E v 64)"
  unfolding starts_with_iff bucket_def by (metis append_take_drop_id min.absorb1 take_take)

lemma in_bucket_of: "n \<le> 64 \<Longrightarrow> v \<in> set vs \<Longrightarrow> in_bucket E (map (\<lambda>x. bucket E x n) vs) v"
  using bucket_prefix by (auto simp: in_bucket_def list_ex_iff)

text \<open>
  The bucket filter for an exact one: the buckets of the watched lineages and producers, and of the
  lineage and the producer of every watched context.
\<close>

definition bucketed ::
  "ext \<Rightarrow> nat \<Rightarrow> (ctx_id \<Rightarrow> lineage_id option) \<Rightarrow> (ctx_id \<Rightarrow> agent_did option) \<Rightarrow> watch_filter \<Rightarrow> watch_filter" where
  "bucketed E n lineage_of producer_of f = watch_filter_new
     \<lparr>wf_kind := wf_kind f,
      wf_lineage_bucket := map (\<lambda>l. bucket E l n) (wf_lineage_id f @ List.map_filter lineage_of (wf_ctx_id f)),
      wf_agent_bucket := map (\<lambda>a. bucket E a n) (wf_agent_id f @ List.map_filter producer_of (wf_ctx_id f))\<rparr>"

text \<open>
  A bucket filter covers the exact filter it was made from: every entry the exact filter matches is in the
  answer to the bucket filter, provided the consumer knows the lineage of the contexts it watches.
\<close>

theorem buckets_cover_exact:
  assumes "matches_exact f c producer_of" "n \<le> 64"
    and "cg_ctx_id c \<in> set (wf_ctx_id f) \<Longrightarrow> lineage_of (cg_ctx_id c) = Some (cg_lineage_id c)"
  shows "filter_matches E (bucketed E n lineage_of producer_of f) c producer'"
proof -
  let ?b = "bucketed E n lineage_of producer_of f"
  have kind: "wf_kind f = [] \<or> cg_kind c \<in> set (wf_kind f)" and ids: "matches_exact_ids f c producer_of"
    using assms(1) by (simp_all add: matches_exact_def)
  from ids have "cg_lineage_id c \<in> set (wf_lineage_id f @ List.map_filter lineage_of (wf_ctx_id f)) \<or>
      cg_agent_id c \<in> set (wf_agent_id f @ List.map_filter producer_of (wf_ctx_id f))"
    using assms(3) unfolding matches_exact_ids_def list_ex_iff by (force simp: map_filter_def)
  moreover have "wf_lineage_bucket ?b = map (\<lambda>l. bucket E l n) (wf_lineage_id f @ List.map_filter lineage_of (wf_ctx_id f))"
    "wf_agent_bucket ?b = map (\<lambda>a. bucket E a n) (wf_agent_id f @ List.map_filter producer_of (wf_ctx_id f))"
    by (simp_all add: bucketed_def watch_filter_new_def)
  ultimately have "in_bucket E (wf_lineage_bucket ?b) (cg_lineage_id c) \<or> in_bucket E (wf_agent_bucket ?b) (cg_agent_id c)"
    using in_bucket_of[OF assms(2)] by metis
  then show ?thesis using kind by (auto simp: filter_matches_def has_buckets_def in_bucket_def bucketed_def watch_filter_new_def)
qed

section \<open>Signatures of hints\<close>

definition plain :: "char \<Rightarrow> bool" where
  "plain c \<longleftrightarrow> (33 :: nat) \<le> of_char c \<and> of_char c < (127 :: nat)"

lemma whitespace_not_plain: "w \<in> set WHITESPACE \<Longrightarrow> \<not> plain (hd w) \<and> \<not> plain (hd (rev w))"
proof -
  have "list_all (\<lambda>w. \<not> plain (hd w) \<and> \<not> plain (hd (rev w))) WHITESPACE" by code_simp
  then show "w \<in> set WHITESPACE \<Longrightarrow> \<not> plain (hd w) \<and> \<not> plain (hd (rev w))" by (simp add: list_all_iff)
qed

lemma trim_start_plain:
  assumes "\<forall>w\<in>set ws. \<not> plain (hd w)" "s \<noteq> [] \<Longrightarrow> plain (hd s)"
  shows "trim_start_of ws s = s"
proof (cases s)
  case (Cons c cs)
  have "find (\<lambda>w. w \<noteq> [] \<and> starts_with w (c # cs)) ws = None"
    using assms Cons by (auto simp: find_None_iff starts_with_iff Cons_eq_append_conv)
  then show ?thesis using Cons by simp
qed simp

lemma str_trim_plain:
  assumes "s \<noteq> [] \<Longrightarrow> plain (hd s) \<and> plain (last s)"
  shows "str_trim s = s"
proof -
  have "trim_start_of WHITESPACE s = s" using assms whitespace_not_plain by (intro trim_start_plain) auto
  moreover have "trim_start_of (map rev WHITESPACE) (rev s) = rev s"
    using assms whitespace_not_plain by (intro trim_start_plain) (auto simp: hd_rev)
  ultimately show ?thesis by (simp add: str_trim_def)
qed

lemma plain_digits: "is_lower_hex c \<Longrightarrow> plain c" "is_ascii_digit c \<Longrightarrow> plain c"
  by (auto simp: plain_def is_lower_hex_def char_class_defs less_eq_char_def)

lemma hex_nibble_digit: "n < 16 \<Longrightarrow> hex_nibble (hex_digit n) = Some n"
proof -
  have "\<forall>n<16. hex_nibble (hex_digit n) = Some n" by code_simp
  then show "n < 16 \<Longrightarrow> hex_nibble (hex_digit n) = Some n" by blast
qed

lemma hex_decode_any_encode: "hex_decode_any (hex_encode bs) = Some bs"
proof (induction bs)
  case (Cons b bs)
  have "unat b < 256" using unsigned_less[of b] by simp
  then have "unat b div 16 < 16" by simp
  moreover have "word_of_nat (16 * (unat b div 16) + unat b mod 16) = b" by (simp only: mult_div_mod_eq) simp
  ultimately show ?case by (simp add: Cons hex_byte_def hex_nibble_digit del: of_nat_add of_nat_mult)
qed simp

lemma split_on_none: "c \<notin> set s \<Longrightarrow> split_on c s = [s]"
  by (induction s) auto

lemma split_on_cons: "c \<notin> set s \<Longrightarrow> split_on c (s @ c # r) = s # split_on c r"
  by (induction s) auto

lemma hint_parts:
  assumes "0 \<le> t" "t < 2 ^ 63"
  shows "read_hint_parts (split_on CHR '','' (sign_hint hmac secret t body)) (None, []) = Inr (Some t, [hint_mac hmac secret t body])"
proof -
  let ?n = "show_nat (nat t)" and ?h = "hex_encode (hint_mac hmac secret t body)"
  have digits: "?n \<noteq> []" "list_all is_ascii_digit ?n" using all_digits_show_nat[of "nat t"] by (auto simp: all_digits_def list_all_iff)
  have hex: "list_all is_lower_hex ?h" using hex_encode_ok by (simp add: is_lowercase_hex_def)
  have ends: "plain CHR ''t''" "plain CHR ''v''" "plain CHR ''=''" "\<not> is_lower_hex CHR '',''" "\<not> is_ascii_digit CHR '',''" by code_simp+
  have "sign_hint hmac secret t body = (''t='' @ ?n) @ CHR '','' # (''v1='' @ ?h)"
    using assms(1) by (simp add: sign_hint_def show_int_def)
  moreover have "CHR '','' \<notin> set (''t='' @ ?n)" "CHR '','' \<notin> set (''v1='' @ ?h)"
    using digits hex ends by (auto simp: list_all_iff)
  ultimately have split: "split_on CHR '','' (sign_hint hmac secret t body) = [''t='' @ ?n, ''v1='' @ ?h]"
    using split_on_cons[of "CHR '',''" "''t='' @ ?n" "''v1='' @ ?h"] split_on_none[of "CHR '',''" "''v1='' @ ?h"] by metis
  have "plain (last (''t='' @ ?n))" "plain (last (''v1='' @ ?h))"
    using digits hex ends plain_digits by (auto simp: list_all_iff last_append)
  then have trim: "str_trim (''t='' @ ?n) = ''t='' @ ?n" "str_trim (''v1='' @ ?h) = ''v1='' @ ?h"
    using ends by (auto intro!: str_trim_plain)
  have "read_hint_part (''t='' @ ?n) (None, []) = Inr (Some t, [])"
    unfolding read_hint_part_def trim using digits assms by (simp add: nat_less_iff)
  moreover have "read_hint_part (''v1='' @ ?h) (Some t, []) = Inr (Some t, [hint_mac hmac secret t body])"
    unfolding read_hint_part_def trim by (simp add: hex_decode_any_encode)
  ultimately show ?thesis unfolding split by simp
qed

text \<open>
  A signed hint is accepted exactly for what was signed: the header a registry makes for a time and
  some bytes passes for received bytes iff these have the same MAC at that time under the
  subscription's secret, and the receiver's clock is within 300 seconds of the time.
\<close>

theorem hint_accepted_exact:
  assumes "0 \<le> t" "t < 2 ^ 63"
  shows "verify_hint_signature hmac secret (sign_hint hmac secret' t body') body now = Inr () \<longleftrightarrow>
    \<bar>now div 1000000000 - t\<bar> \<le> 300 \<and> hint_mac hmac secret t body = hint_mac hmac secret' t body'"
  unfolding verify_hint_signature_def hint_parts[OF assms]
  by (auto simp: rbind_eq_Inr HINT_MAX_SKEW_SECONDS_def)

theorem hint_accepted_exact_witness:
  "verify_hint_signature (\<lambda>k m. k @ m) ''s'' (sign_hint (\<lambda>k m. k @ m) ''s'' 7 [1, 2]) [1, 2] 300000000000 = Inr () \<and>
   verify_hint_signature (\<lambda>k m. k @ m) ''s'' (sign_hint (\<lambda>k m. k @ m) ''s'' 7 [1, 2]) [1, 3] 300000000000 \<noteq> Inr ()"
  using hint_accepted_exact[of 7 "\<lambda>k m. k @ m" "''s''" "''s''" "[1, 2]" "[1, 2]" 300000000000]
    hint_accepted_exact[of 7 "\<lambda>k m. k @ m" "''s''" "''s''" "[1, 2]" "[1, 3]" 300000000000]
  by (simp add: hint_mac_def)

end
