(* ===== verification/Acdp_Producer.thy ===== *)
theory Acdp_Producer
  imports Acdp_Receipt
begin

text \<open>
  The producer's side of publishing (\<open>crates/acdp-producer/src/builder.rs\<close>): a signing key with its
  identity, the builder of publish requests with one function per setter, and \<open>build\<close>, which checks the
  required fields, hashes the producer content, signs the hash and validates the finished request.

  Deriving a public key from the secret one is curve arithmetic of the signature crates, so the
  constructors for \<open>did:key\<close> identities take it as the argument \<open>verifying_key\<close>. A request for a new
  version numbers it in \<open>u32\<close>, where the addition of the model wraps as the release build does.
\<close>

section \<open>Producers\<close>

record producer =
  pd_signing_key :: signing_key
  pd_agent_id :: agent_did
  pd_key_id :: string
  pd_key_attestation :: "key_attestation_ref option"

definition producer_new_ed25519 :: "bytes \<Rightarrow> agent_did \<Rightarrow> string \<Rightarrow> producer" where
  "producer_new_ed25519 signing_key agent key_id =
     \<lparr>pd_signing_key = SigningKey signing_key, pd_agent_id = agent, pd_key_id = key_id, pd_key_attestation = None\<rparr>"

definition producer_new :: "bytes \<Rightarrow> agent_did \<Rightarrow> string \<Rightarrow> producer" where
  "producer_new signing_key agent key_id = producer_new_ed25519 signing_key agent key_id"

definition producer_new_p256 :: "bytes \<Rightarrow> agent_did \<Rightarrow> string \<Rightarrow> producer" where
  "producer_new_p256 signing_key agent key_id =
     \<lparr>pd_signing_key = P256SigningKey signing_key, pd_agent_id = agent, pd_key_id = key_id, pd_key_attestation = None\<rparr>"

text \<open>The \<open>expect\<close> of the source is the error branch of \<open>did_key_url\<close>.\<close>

definition new_did_key :: "ext \<Rightarrow> (bytes \<Rightarrow> bytes) \<Rightarrow> bytes \<Rightarrow> producer acdp_result" where
  "new_did_key E verifying_key signing_key =
     (let did = did_key_from_ed25519 E (verifying_key signing_key) in
      rbind (did_key_url did) (\<lambda>key_id.
      Inr \<lparr>pd_signing_key = SigningKey signing_key, pd_agent_id = did, pd_key_id = key_id, pd_key_attestation = None\<rparr>))"

definition new_did_key_p256 :: "ext \<Rightarrow> (bytes \<Rightarrow> bytes) \<Rightarrow> bytes \<Rightarrow> producer acdp_result" where
  "new_did_key_p256 E verifying_key_sec1 signing_key =
     rbind (did_key_from_p256_sec1 E (verifying_key_sec1 signing_key)) (\<lambda>did.
     rbind (did_key_url did) (\<lambda>key_id.
     Inr \<lparr>pd_signing_key = P256SigningKey signing_key, pd_agent_id = did, pd_key_id = key_id, pd_key_attestation = None\<rparr>))"

section \<open>The request builder\<close>

record request_builder =
  rb_producer :: producer
  rb_title :: "string option"
  rb_context_type :: "context_type option"
  rb_supersedes :: "ctx_id option"
  rb_visibility :: visibility
  rb_contributors :: "agent_did list"
  rb_data_refs :: "data_ref list"
  rb_derived_from :: "ctx_id list"
  rb_version :: "u32 option"
  rb_expected_lineage_id :: "lineage_id option"
  rb_audience :: "agent_did list option"
  rb_description :: "string option"
  rb_summary :: "string option"
  rb_tags :: "string list option"
  rb_domain :: "string option"
  rb_expires_at :: "instant option"
  rb_data_period :: "data_period option"
  rb_metadata :: "json option"
  rb_schema_uri :: "string option"
  rb_acdp_version :: "string option"
  rb_anchors :: "anchor_entry list option"

definition ACDP_VERSION :: string where
  "ACDP_VERSION = ''0.4.0''"

definition builder_new :: "producer \<Rightarrow> request_builder" where
  "builder_new p =
     \<lparr>rb_producer = p, rb_title = None, rb_context_type = None, rb_supersedes = None, rb_visibility = Public,
      rb_contributors = [], rb_data_refs = [], rb_derived_from = [], rb_version = None,
      rb_expected_lineage_id = None, rb_audience = None, rb_description = None, rb_summary = None, rb_tags = None,
      rb_domain = None, rb_expires_at = None, rb_data_period = None, rb_metadata = None, rb_schema_uri = None,
      rb_acdp_version = Some ACDP_VERSION, rb_anchors = None\<rparr>"

definition publish_request_builder :: "producer \<Rightarrow> request_builder" where
  "publish_request_builder p = builder_new p"

definition producer_supersede :: "producer \<Rightarrow> ctx_id \<Rightarrow> request_builder" where
  "producer_supersede p previous = (builder_new p)\<lparr>rb_supersedes := Some previous\<rparr>"

definition supersede_body :: "producer \<Rightarrow> body \<Rightarrow> request_builder" where
  "supersede_body p previous =
     (builder_new p)\<lparr>rb_supersedes := Some (b_ctx_id previous), rb_version := Some (b_version previous + 1),
        rb_expected_lineage_id := Some (b_lineage_id previous)\<rparr>"

definition new_version_from :: "producer \<Rightarrow> body \<Rightarrow> request_builder" where
  "new_version_from p previous =
     (supersede_body p previous)\<lparr>
        rb_title := Some (b_title previous),
        rb_context_type := Some (b_context_type previous),
        rb_contributors := b_contributors previous,
        rb_data_refs := b_data_refs previous,
        rb_anchors := b_anchors previous,
        rb_derived_from := b_derived_from previous,
        rb_visibility := b_visibility previous,
        rb_audience := b_audience previous,
        rb_description := b_description previous,
        rb_summary := b_summary previous,
        rb_tags := b_tags previous,
        rb_domain := b_domain previous,
        rb_expires_at := b_expires_at previous,
        rb_data_period := b_data_period previous,
        rb_metadata := b_metadata previous,
        rb_schema_uri := b_schema_uri previous,
        rb_acdp_version := b_acdp_version previous\<rparr>"

section \<open>Setters\<close>

definition builder_title :: "string \<Rightarrow> request_builder \<Rightarrow> request_builder" where
  "builder_title t b = b\<lparr>rb_title := Some t\<rparr>"

definition builder_context_type :: "context_type \<Rightarrow> request_builder \<Rightarrow> request_builder" where
  "builder_context_type t b = b\<lparr>rb_context_type := Some t\<rparr>"

definition builder_visibility :: "visibility \<Rightarrow> request_builder \<Rightarrow> request_builder" where
  "builder_visibility v b = b\<lparr>rb_visibility := v\<rparr>"

definition builder_audience :: "agent_did list \<Rightarrow> request_builder \<Rightarrow> request_builder" where
  "builder_audience a b = b\<lparr>rb_audience := Some a\<rparr>"

definition builder_contributors :: "agent_did list \<Rightarrow> request_builder \<Rightarrow> request_builder" where
  "builder_contributors c b = b\<lparr>rb_contributors := c\<rparr>"

definition builder_data_refs :: "data_ref list \<Rightarrow> request_builder \<Rightarrow> request_builder" where
  "builder_data_refs d b = b\<lparr>rb_data_refs := d\<rparr>"

definition builder_derived_from :: "ctx_id list \<Rightarrow> request_builder \<Rightarrow> request_builder" where
  "builder_derived_from d b = b\<lparr>rb_derived_from := d\<rparr>"

definition builder_description :: "string \<Rightarrow> request_builder \<Rightarrow> request_builder" where
  "builder_description s b = b\<lparr>rb_description := Some s\<rparr>"

definition builder_summary :: "string \<Rightarrow> request_builder \<Rightarrow> request_builder" where
  "builder_summary s b = b\<lparr>rb_summary := Some s\<rparr>"

definition builder_tags :: "string list \<Rightarrow> request_builder \<Rightarrow> request_builder" where
  "builder_tags t b = b\<lparr>rb_tags := Some t\<rparr>"

definition builder_domain :: "string \<Rightarrow> request_builder \<Rightarrow> request_builder" where
  "builder_domain d b = b\<lparr>rb_domain := Some d\<rparr>"

definition builder_expires_at :: "instant \<Rightarrow> request_builder \<Rightarrow> request_builder" where
  "builder_expires_at e b = b\<lparr>rb_expires_at := Some (trunc_ms e)\<rparr>"

definition builder_data_period :: "data_period \<Rightarrow> request_builder \<Rightarrow> request_builder" where
  "builder_data_period dp b =
     b\<lparr>rb_data_period := Some \<lparr>dp_start = trunc_ms (dp_start dp), dp_end = trunc_ms (dp_end dp)\<rparr>\<rparr>"

definition builder_metadata :: "json \<Rightarrow> request_builder \<Rightarrow> request_builder" where
  "builder_metadata m b = b\<lparr>rb_metadata := Some m\<rparr>"

definition builder_schema_uri :: "string \<Rightarrow> request_builder \<Rightarrow> request_builder" where
  "builder_schema_uri u b = b\<lparr>rb_schema_uri := Some u\<rparr>"

definition builder_anchors :: "anchor_entry list \<Rightarrow> request_builder \<Rightarrow> request_builder" where
  "builder_anchors a b = b\<lparr>rb_anchors := Some a\<rparr>"

definition clear_anchors :: "request_builder \<Rightarrow> request_builder" where
  "clear_anchors b = b\<lparr>rb_anchors := None\<rparr>"

definition builder_version :: "u32 \<Rightarrow> request_builder \<Rightarrow> request_builder" where
  "builder_version v b = b\<lparr>rb_version := Some v\<rparr>"

definition builder_expected_lineage_id :: "lineage_id \<Rightarrow> request_builder \<Rightarrow> request_builder" where
  "builder_expected_lineage_id l b = b\<lparr>rb_expected_lineage_id := Some l\<rparr>"

definition builder_acdp_version :: "string \<Rightarrow> request_builder \<Rightarrow> request_builder" where
  "builder_acdp_version v b = b\<lparr>rb_acdp_version := Some v\<rparr>"

definition omit_acdp_version :: "request_builder \<Rightarrow> request_builder" where
  "omit_acdp_version b = b\<lparr>rb_acdp_version := None\<rparr>"

section \<open>Building\<close>

definition resolve_version :: "ctx_id option \<Rightarrow> u32 option \<Rightarrow> u32 acdp_result" where
  "resolve_version supersedes version =
     (case (supersedes, version) of
        (None, None) \<Rightarrow> Inr 1
      | (None, Some v) \<Rightarrow> if v = 1 then Inr 1 else Inl SchemaViolation
      | (Some _, None) \<Rightarrow> Inl (MissingField ''version'')
      | (Some _, Some v) \<Rightarrow> if v < 2 then Inl SchemaViolation else Inr v)"

definition producer_content_value :: "ext \<Rightarrow> request_builder \<Rightarrow> string \<Rightarrow> context_type \<Rightarrow> u32 \<Rightarrow> json" where
  "producer_content_value E b title context_type version = JObject (to_map
     ([(''version'', json_nat (unat version)),
       (''supersedes'', case rb_supersedes b of None \<Rightarrow> JNull | Some c \<Rightarrow> JString c),
       (''agent_id'', JString (pd_agent_id (rb_producer b))),
       (''contributors'', json_strings (rb_contributors b)),
       (''title'', JString title), (''type'', JString (context_type_serialize context_type)),
       (''data_refs'', JArray (map data_ref_json (rb_data_refs b))),
       (''derived_from'', json_strings (rb_derived_from b)),
       (''visibility'', JString (visibility_as_str (rb_visibility b)))] @
      opt_member ''audience'' json_strings (rb_audience b) @
      opt_member ''acdp_version'' JString (rb_acdp_version b) @
      opt_member ''description'' JString (rb_description b) @
      opt_member ''summary'' JString (rb_summary b) @
      opt_member ''tags'' json_strings (rb_tags b) @
      opt_member ''domain'' JString (rb_domain b) @
      opt_member ''expires_at'' (\<lambda>t. JString (fmt_rfc3339_canonical E t)) (rb_expires_at b) @
      opt_member ''data_period'' (data_period_json E) (rb_data_period b) @
      opt_member ''metadata'' (\<lambda>m. m) (rb_metadata b) @
      opt_member ''schema_uri'' JString (rb_schema_uri b) @
      opt_member ''anchors'' (\<lambda>as. JArray (map anchor_json as)) (rb_anchors b) @
      opt_member ''key_attestation'' key_attestation_json (pd_key_attestation (rb_producer b))))"

definition request_of_builder ::
  "request_builder \<Rightarrow> string \<Rightarrow> context_type \<Rightarrow> u32 \<Rightarrow> content_hash \<Rightarrow> signature \<Rightarrow> publish_request" where
  "request_of_builder b title context_type version h s =
     \<lparr>pr_version = version, pr_supersedes = rb_supersedes b, pr_agent_id = pd_agent_id (rb_producer b),
      pr_contributors = rb_contributors b, pr_title = title, pr_context_type = context_type,
      pr_data_refs = rb_data_refs b, pr_derived_from = rb_derived_from b, pr_visibility = rb_visibility b,
      pr_content_hash = h, pr_signature = s, pr_audience = rb_audience b, pr_acdp_version = rb_acdp_version b,
      pr_description = rb_description b, pr_summary = rb_summary b, pr_lineage_id = rb_expected_lineage_id b,
      pr_tags = rb_tags b, pr_domain = rb_domain b, pr_expires_at = rb_expires_at b,
      pr_data_period = rb_data_period b, pr_metadata = rb_metadata b, pr_schema_uri = rb_schema_uri b,
      pr_anchors = rb_anchors b, pr_key_attestation = pd_key_attestation (rb_producer b)\<rparr>"

text \<open>The envelope over a content hash, with the algorithm of the key's variant.\<close>

definition producer_signature :: "ext \<Rightarrow> producer \<Rightarrow> content_hash \<Rightarrow> signature" where
  "producer_signature E p h =
     (let (algorithm, sig_value) = sign_content_hash E (pd_signing_key p) h in
      \<lparr>sig_algorithm = algorithm, sig_key_id = pd_key_id p, sig_value = sig_value\<rparr>)"

definition build :: "ext \<Rightarrow> request_builder \<Rightarrow> publish_request acdp_result" where
  "build E b =
     rbind (ok_or (rb_title b) (MissingField ''title'')) (\<lambda>title.
     rbind (ok_or (rb_context_type b) (MissingField ''context_type'')) (\<lambda>context_type.
     rbind (resolve_version (rb_supersedes b) (rb_version b)) (\<lambda>version.
     rbind (require (\<not> (version = 1 \<and> rb_expected_lineage_id b \<noteq> None)) SchemaViolation) (\<lambda>_.
     rbind (require (\<not> (rb_visibility b = Restricted \<and> rb_audience b \<in> {None, Some []})) SchemaViolation) (\<lambda>_.
     rbind (compute_content_hash (x_sci E) (x_sha256 E) (producer_content_value E b title context_type version))
       (\<lambda>content_hash.
     let req = request_of_builder b title context_type version content_hash
                 (producer_signature E (rb_producer b) content_hash) in
     rbind (validate_publish_request E req) (\<lambda>_. Inr req)))))))"

end
