(* ===== verification/Acdp_Producer_Correct.thy ===== *)
theory Acdp_Producer_Correct
  imports Acdp_Producer Acdp_Receipt_Correct
begin

text \<open>
  From the producer to the consumer: what the request builder finishes is accepted by the registry and
  verified by whoever retrieves it, and a new version built from a retrieved body extends its lineage.

  Of the signature scheme and of base58 the theorems use that a producer is recognized: its key signs
  for the public key in its \<open>did:key\<close> identifier, or for a verification method that its \<open>did:web\<close>
  document lists for assertions.
\<close>

section \<open>Chains of setters\<close>

text \<open>One call of a setter other than those for the version and the lineage.\<close>

inductive content_edit :: "request_builder \<Rightarrow> request_builder \<Rightarrow> bool" for b where
  "content_edit b (builder_title t b)"
| "content_edit b (builder_context_type ct b)"
| "content_edit b (builder_visibility v b)"
| "content_edit b (builder_audience a b)"
| "content_edit b (builder_contributors a b)"
| "content_edit b (builder_data_refs d b)"
| "content_edit b (builder_derived_from c b)"
| "content_edit b (builder_description t b)"
| "content_edit b (builder_summary t b)"
| "content_edit b (builder_tags ts b)"
| "content_edit b (builder_domain t b)"
| "content_edit b (builder_expires_at e b)"
| "content_edit b (builder_data_period dp b)"
| "content_edit b (builder_metadata m b)"
| "content_edit b (builder_schema_uri t b)"
| "content_edit b (builder_anchors as b)"
| "content_edit b (clear_anchors b)"
| "content_edit b (builder_acdp_version t b)"
| "content_edit b (omit_acdp_version b)"

lemmas setter_defs = builder_title_def builder_context_type_def builder_visibility_def builder_audience_def
  builder_contributors_def builder_data_refs_def builder_derived_from_def builder_description_def builder_summary_def
  builder_tags_def builder_domain_def builder_expires_at_def builder_data_period_def builder_metadata_def
  builder_schema_uri_def builder_anchors_def clear_anchors_def builder_acdp_version_def omit_acdp_version_def

definition same_target :: "request_builder \<Rightarrow> request_builder \<Rightarrow> bool" where
  "same_target b b' \<longleftrightarrow> rb_producer b' = rb_producer b \<and> rb_supersedes b' = rb_supersedes b \<and>
     rb_version b' = rb_version b \<and> rb_expected_lineage_id b' = rb_expected_lineage_id b"

lemma edits_keep_target: "content_edit\<^sup>*\<^sup>* b b' \<Longrightarrow> same_target b b'"
proof (induction rule: rtranclp_induct)
  case (step b' b'')
  have "same_target b' b''" using step(2) by cases (simp_all add: same_target_def setter_defs)
  then show ?case using step(3) by (simp add: same_target_def)
qed (simp add: same_target_def)

section \<open>What a build yields\<close>

lemma build_cases:
  assumes "build E b = Inr req"
  obtains title ct v h where "rb_title b = Some title" "rb_context_type b = Some ct"
    "resolve_version (rb_supersedes b) (rb_version b) = Inr v"
    "compute_content_hash (x_sci E) (x_sha256 E) (producer_content_value E b title ct v) = Inr h"
    "req = request_of_builder b title ct v h (producer_signature E (rb_producer b) h)"
    "validate_publish_request E req = Inr ()"
proof -
  from assms obtain title ct v h where "rb_title b = Some title" "rb_context_type b = Some ct"
    "resolve_version (rb_supersedes b) (rb_version b) = Inr v"
    "compute_content_hash (x_sci E) (x_sha256 E) (producer_content_value E b title ct v) = Inr h"
    "rbind (validate_publish_request E (request_of_builder b title ct v h (producer_signature E (rb_producer b) h)))
       (\<lambda>_. Inr (request_of_builder b title ct v h (producer_signature E (rb_producer b) h))) = Inr req"
    unfolding build_def Let_def rbind_eq_Inr ok_or_eq_Inr require_eq_Inr by blast
  then show ?thesis using that by (auto simp: rbind_eq_Inr)
qed

lemma request_of_builder_simps [simp]:
  "pr_content_hash (request_of_builder b title ct v h s) = h" "pr_signature (request_of_builder b title ct v h s) = s"
  "pr_agent_id (request_of_builder b title ct v h s) = pd_agent_id (rb_producer b)"
  "pr_supersedes (request_of_builder b title ct v h s) = rb_supersedes b"
  "pr_version (request_of_builder b title ct v h s) = v" "pr_title (request_of_builder b title ct v h s) = title"
  "pr_context_type (request_of_builder b title ct v h s) = ct"
  "pr_lineage_id (request_of_builder b title ct v h s) = rb_expected_lineage_id b"
  "pr_data_refs (request_of_builder b title ct v h s) = rb_data_refs b"
  "pr_metadata (request_of_builder b title ct v h s) = rb_metadata b"
  by (simp_all add: request_of_builder_def)

text \<open>The hashed object is the wire form of the request without the members a hash leaves out.\<close>

lemma built_members:
  "producer_members (object_members (publish_request_json E (request_of_builder b title ct v h s))) =
   producer_members (object_members (producer_content_value E b title ct v))"
  unfolding publish_request_json_def producer_content_value_def object_members_def json.case producer_members_to_map
    request_of_builder_def publish_request.select_convs filter_append producer_members_opt
  by (simp add: EXCLUDE_def json_time_def[abs_def])

lemma built_hash:
  assumes "build E b = Inr req"
  shows "verify_typed_publish_request_hash E req = Inr ()"
  using assms
proof (cases rule: build_cases)
  case (1 title ct v h)
  have "publish_request_json E req = JObject (object_members (publish_request_json E req))"
    "producer_content_value E b title ct v = JObject (object_members (producer_content_value E b title ct v))"
    by (simp_all add: publish_request_json_def producer_content_value_def object_members_def)
  then have "verify_content_hash (x_sci E) (x_sha256 E) (publish_request_json E req) h =
      verify_content_hash (x_sci E) (x_sha256 E) (producer_content_value E b title ct v) h"
    using content_hash_cong built_members 1(5) by metis
  then show ?thesis using 1(4,5) by (simp add: verify_typed_publish_request_hash_def verify_typed_content_hash_def verify_content_hash_def)
qed

section \<open>Recognized producers\<close>

definition did_key_pair :: "ext \<Rightarrow> (bytes \<Rightarrow> bytes) \<Rightarrow> bytes \<Rightarrow> bool" where
  "did_key_pair E verifying_key k \<longleftrightarrow>
     (let code = x_bs58_encode E (MULTICODEC_ED25519 @ verifying_key k) in
      length (verifying_key k) = 32 \<and> CHR ''#'' \<notin> set code \<and>
      x_bs58_decode E code = Some (MULTICODEC_ED25519 @ verifying_key k) \<and>
      (\<forall>h. verify_ed25519 E (verifying_key k) (snd (sign_content_hash E (SigningKey k) h)) h = Inr ()))"

definition web_key_listed :: "ext \<Rightarrow> web_resolver \<Rightarrow> producer \<Rightarrow> bool" where
  "web_key_listed E resolve p \<longleftrightarrow>
     (\<exists>fragment doc fresh m. split_once CHR ''#'' (pd_key_id p) = Some (pd_agent_id p, fragment) \<and> fragment \<noteq> [] \<and>
        starts_with ''did:web:'' (pd_agent_id p) \<and> resolve (pd_agent_id p) = Inr (doc, fresh) \<and>
        find_by_fragment doc fragment = Some m \<and> is_assertion_method doc (vm_id m) \<and>
        declared_algorithm E m \<in> {None, Some (key_algorithm (pd_signing_key p))} \<and> key_published E (pd_signing_key p) m)"

definition recognized :: "ext \<Rightarrow> (bytes \<Rightarrow> bytes) \<Rightarrow> web_resolver \<Rightarrow> producer \<Rightarrow> bool" where
  "recognized E verifying_key resolve p \<longleftrightarrow>
     (\<exists>k. new_did_key E verifying_key k = Inr p \<and> did_key_pair E verifying_key k) \<or> web_key_listed E resolve p"

lemma producer_signature_simps [simp]:
  "sig_key_id (producer_signature E p h) = pd_key_id p"
  "sig_algorithm (producer_signature E p h) = key_algorithm (pd_signing_key p)"
  "sig_value (producer_signature E p h) = snd (sign_content_hash E (pd_signing_key p) h)"
  by (cases "pd_signing_key p"; simp add: producer_signature_def)+

lemma did_key_producer:
  assumes "new_did_key E verifying_key k = Inr p" "did_key_pair E verifying_key k"
  obtains msi where "pd_agent_id p = ''did:key:'' @ msi" "pd_key_id p = ''did:key:'' @ msi @ ''#'' @ msi"
    "split_once CHR ''#'' (pd_key_id p) = Some (''did:key:'' @ msi, msi)" "msi \<noteq> []" "hd msi = CHR ''z''"
    "resolve_did_key_url E (pd_key_id p) = Inr (Ed25519 (verifying_key k))" "pd_signing_key p = SigningKey k"
proof -
  define code where "code = x_bs58_encode E (MULTICODEC_ED25519 @ verifying_key k)"
  have pair: "length (verifying_key k) = 32" "CHR ''#'' \<notin> set code" "x_bs58_decode E code = Some (MULTICODEC_ED25519 @ verifying_key k)"
    using assms(2) by (simp_all add: did_key_pair_def Let_def code_def)
  have p: "pd_agent_id p = ''did:key:'' @ ''z'' @ code" "pd_key_id p = ''did:key:'' @ (''z'' @ code) @ ''#'' @ ''z'' @ code"
    "pd_signing_key p = SigningKey k"
    using assms(1) by (auto simp: new_did_key_def Let_def did_key_from_ed25519_def did_key_url_def strip_prefix_def code_def)
  have s: "split_once CHR ''#'' (pd_key_id p) = Some (''did:key:'' @ ''z'' @ code, ''z'' @ code)"
    using split_once_append[of "CHR ''#''" "''did:key:z'' @ code" "''z'' @ code"] pair(2) p(2) by simp
  have "resolve_did_key_url E (pd_key_id p) = Inr (Ed25519 (verifying_key k))"
    unfolding resolve_did_key_url_def s
    using pair by (simp add: strip_prefix_def decode_multibase_key_def MULTICODEC_ED25519_def)
  then show ?thesis using that[of "''z'' @ code"] p s by simp
qed

lemma did_methods_differ: "starts_with ''did:web:'' s \<Longrightarrow> \<not> starts_with ''did:key:'' s"
  by (auto simp: starts_with_def strip_prefix_Some)

lemma web_key_envelope:
  assumes "web_key_listed E resolve p"
  shows "verify_signature_envelope E resolve (pd_agent_id p) (producer_signature E p h) h = Inr ()"
    and "is_ok (fingerprint_for_key_id E resolve (pd_key_id p) (key_algorithm (pd_signing_key p)))"
proof -
  from assms obtain fragment doc fresh m where
    split: "split_once CHR ''#'' (pd_key_id p) = Some (pd_agent_id p, fragment)" "fragment \<noteq> []"
    and did: "starts_with ''did:web:'' (pd_agent_id p)" "\<not> starts_with ''did:key:'' (pd_agent_id p)"
    and doc: "resolve (pd_agent_id p) = Inr (doc, fresh)" "find_by_fragment doc fragment = Some m"
      "is_assertion_method doc (vm_id m)"
    and alg: "declared_algorithm E m \<in> {None, Some (key_algorithm (pd_signing_key p))}"
    and pub: "key_published E (pd_signing_key p) m"
    unfolding web_key_listed_def using did_methods_differ by blast
  have kl: "\<not> starts_with KEYLESS_FRAGMENT_PREFIX fragment" using doc(2) by (auto simp: find_by_fragment_def split: if_splits)
  have "verify_signature_with_method E m (producer_signature E p h) h = Inr ()"
    using pub alg by (cases "pd_signing_key p")
      (auto simp: verify_signature_with_method_def key_published_def simp del: sign_content_hash.simps)
  then show "verify_signature_envelope E resolve (pd_agent_id p) (producer_signature E p h) h = Inr ()"
    using split did doc kl by (simp add: verify_signature_envelope_def refuse_keyless_fragment_def document_key_def)
  show "is_ok (fingerprint_for_key_id E resolve (pd_key_id p) (key_algorithm (pd_signing_key p)))"
    using method_verifies(2)[OF pub, of "producer_signature E p h" h] split did doc
    by (simp add: fingerprint_for_key_id_def resolve_with_fragment_def)
qed

lemma did_key_envelope:
  assumes "new_did_key E verifying_key k = Inr p" "did_key_pair E verifying_key k"
  shows "verify_signature_envelope E resolve (pd_agent_id p) (producer_signature E p h) h = Inr ()"
    and "is_ok (fingerprint_for_key_id E resolve (pd_key_id p) (key_algorithm (pd_signing_key p)))"
proof -
  from assms obtain msi where p: "pd_agent_id p = ''did:key:'' @ msi" "pd_signing_key p = SigningKey k"
    and s: "split_once CHR ''#'' (pd_key_id p) = Some (''did:key:'' @ msi, msi)" "msi \<noteq> []" "hd msi = CHR ''z''"
    and key: "resolve_did_key_url E (pd_key_id p) = Inr (Ed25519 (verifying_key k))"
    by (rule did_key_producer)
  have kl: "\<not> starts_with KEYLESS_FRAGMENT_PREFIX msi"
    using s(2,3) by (cases msi) (auto simp: starts_with_def strip_prefix_def KEYLESS_FRAGMENT_PREFIX_def)
  have "verify_ed25519 E (verifying_key k) (snd (sign_content_hash E (SigningKey k) h)) h = Inr ()"
    using assms(2) by (simp add: did_key_pair_def Let_def del: sign_content_hash.simps)
  then show "verify_signature_envelope E resolve (pd_agent_id p) (producer_signature E p h) h = Inr ()"
    using s kl key p
    by (simp add: verify_signature_envelope_def refuse_keyless_fragment_def verify_did_key_envelope_def starts_with_def strip_prefix_def
        del: sign_content_hash.simps)
  show "is_ok (fingerprint_for_key_id E resolve (pd_key_id p) (key_algorithm (pd_signing_key p)))"
    using s(1) key by (simp add: fingerprint_for_key_id_def starts_with_def strip_prefix_def)
qed

lemma recognized_envelope:
  assumes "recognized E verifying_key resolve p"
  shows "verify_signature_envelope E resolve (pd_agent_id p) (producer_signature E p h) h = Inr ()"
    and "\<exists>fp. fingerprint_for_key_id E resolve (pd_key_id p) (key_algorithm (pd_signing_key p)) = Inr fp"
    and "\<exists>fragment. split_once CHR ''#'' (pd_key_id p) = Some (pd_agent_id p, fragment)"
  using assms did_key_envelope web_key_envelope unfolding recognized_def is_ok_iff
  by (blast, blast, metis did_key_producer web_key_listed_def)

section \<open>Acceptance by the registry\<close>

text \<open>What a registry asks of a request besides its validity: its own limits, algorithms and methods, and
  that it is no key revocation, which has further rules.\<close>

definition admits :: "ext \<Rightarrow> registry_server \<Rightarrow> publish_request \<Rightarrow> bool" where
  "admits E srv req \<longleftrightarrow>
     x_json_len E (publish_request_json E req) \<le> unat (lm_max_payload_bytes (cap_limits (srv_caps srv))) \<and>
     each (check_embedded_limit E (srv_caps srv)) (pr_data_refs req) = Inr () \<and>
     supports_algorithm (srv_caps srv) (sig_algorithm (pr_signature req)) \<and>
     supports_did_method (srv_caps srv) (did_method_of (pr_agent_id req)) \<and>
     check_same_registry (Some (srv_authority srv)) req = Inr () \<and>
     \<not> is_key_revocation (pr_context_type req)"

lemma built_agent:
  assumes "build E b = Inr req"
  shows "pr_agent_id req = pd_agent_id (rb_producer b)" "sig_key_id (pr_signature req) = pd_key_id (rb_producer b)"
    "sig_algorithm (pr_signature req) = key_algorithm (pd_signing_key (rb_producer b))"
    "pr_supersedes req = rb_supersedes b" "pr_lineage_id req = rb_expected_lineage_id b"
    "resolve_version (rb_supersedes b) (rb_version b) = Inr (pr_version req)"
  using assms by (cases rule: build_cases; simp)+

lemma built_valid:
  assumes "build E b = Inr req" "recognized E verifying_key resolve (rb_producer b)" "admits E srv req"
    and "limiter (pr_agent_id req) = Inr ()"
  shows "validate_for_server E limiter srv req = Inr ()"
proof -
  note agent = built_agent[OF assms(1)]
  have "\<not> is_interim_key_revocation_form (pr_context_type req)" "pr_context_type req \<noteq> KeyRevocation"
    using assms(3) by (auto simp: admits_def is_interim_key_revocation_form_def)
  moreover have "check_key_binding req = Inr ()"
    using recognized_envelope(3)[OF assms(2)] agent by (auto simp: check_key_binding_def)
  ultimately have "validate_registry_limits_and_crypto E (srv_caps srv) (Some (srv_authority srv)) req
      (x_json_len E (publish_request_json E req)) = Inr ()"
    using assms(3) built_hash[OF assms(1)]
    by (simp add: validate_registry_limits_and_crypto_def admits_def)
  moreover have "validate_publish_request E req = Inr ()" by (rule build_cases[OF assms(1)])
  ultimately show ?thesis using assms(4) by (simp add: validate_for_server_def validate_post_schema_def)
qed

lemma built_proven:
  assumes "build E b = Inr req" "recognized E verifying_key resolve (rb_producer b)" "admits E srv req"
    and "limiter (pr_agent_id req) = Inr ()"
  obtains fp where "prove_publish_identity E limiter resolve resolve srv req =
      Inr \<lparr>pv_req = req, pv_fingerprint = fp, pv_authority = srv_authority srv\<rparr>"
    "srv_receipt_signer srv \<noteq> None \<longrightarrow> fp \<noteq> None"
    "verify_publish_request_signature E resolve req = Inr ()"
proof -
  note agent = built_agent[OF assms(1)]
  have signed: "verify_publish_request_signature E resolve req = Inr ()"
    using assms(1) by (cases rule: build_cases)
      (simp add: verify_publish_request_signature_def recognized_envelope(1)[OF assms(2)])
  have "\<not> revocation_check_needed srv req" using assms(3) by (simp add: revocation_check_needed_def admits_def)
  moreover obtain f where "fingerprint_for_key_id E resolve (sig_key_id (pr_signature req)) (sig_algorithm (pr_signature req)) = Inr f"
    using recognized_envelope(2)[OF assms(2)] agent by auto
  ultimately have "\<exists>fp. prove_with_fingerprint srv req (fingerprint_for_key_id E resolve (sig_key_id (pr_signature req)) (sig_algorithm (pr_signature req))) =
      Inr \<lparr>pv_req = req, pv_fingerprint = fp, pv_authority = srv_authority srv\<rparr> \<and> (srv_receipt_signer srv \<noteq> None \<longrightarrow> fp \<noteq> None)"
    by (simp add: prove_with_fingerprint_def)
  then show ?thesis using that signed built_valid[OF assms(1,2,3), of limiter, OF assms(4)]
    by (auto simp: prove_publish_identity_def)
qed

text \<open>A proven request whose supersession check passes and whose identifier is new is inserted.\<close>

lemma proven_inserted:
  fixes E srv req and fp :: "string option"
  defines "commit \<equiv> pending_commit E srv req None fp"
  assumes fp: "srv_receipt_signer srv \<noteq> None \<longrightarrow> fp \<noteq> None"
    and check: "supersession_check commit g = Inr v" and v: "pr_supersedes req \<noteq> None \<Longrightarrow> v \<noteq> None"
    and new: "ctx_at g (new_ctx_id uuid commit) = None"
  obtains l b receipt where
    "assign_identifiers (x_sha256 E) uuid (srv_authority srv) (pr_supersedes req) v = Inr (new_ctx_id uuid commit, l)"
    "b = from_publish_request req (new_ctx_id uuid commit) l (srv_authority srv) now"
    "commit_proven E srv uuid now \<lparr>pv_req = req, pv_fingerprint = fp, pv_authority = srv_authority srv\<rparr> None g =
       (Inr (Inserted (publish_response_of req b receipt)), published commit b receipt g)"
proof -
  have pc: "pc_req commit = req" "pc_authority commit = srv_authority srv" "pc_idempotency commit = None"
    by (simp_all add: commit_def pending_commit_def)
  obtain l where l: "assign_identifiers (x_sha256 E) uuid (srv_authority srv) (pr_supersedes req) v = Inr (new_ctx_id uuid commit, l)"
    using v by (cases "pr_supersedes req"; cases v) (auto simp: assign_identifiers_def new_ctx_id_def pc Let_def)
  define b where "b = from_publish_request req (new_ctx_id uuid commit) l (srv_authority srv) now"
  have "\<exists>receipt. (case pc_receipt_minter commit of None \<Rightarrow> Inr None | Some minter \<Rightarrow> rbind (minter b) (\<lambda>r. Inr (Some r))) = Inr receipt \<and>
      (srv_receipt_signer srv \<noteq> None \<longrightarrow> receipt \<noteq> None)"
  proof (cases "srv_receipt_signer srv")
    case None
    then show ?thesis by (simp add: commit_def pending_commit_def)
  next
    case (Some signer)
    then obtain f where f: "fp = Some f" using fp by auto
    obtain r where "mint E signer (b_ctx_id b) (b_lineage_id b) (b_origin_registry b) (b_created_at b) (b_content_hash b) f = Inr r"
      using mint_total by blast
    then show ?thesis using Some f by (simp add: commit_def pending_commit_def)
  qed
  then obtain receipt where minted: "(case pc_receipt_minter commit of None \<Rightarrow> Inr None | Some minter \<Rightarrow> rbind (minter b) (\<lambda>r. Inr (Some r))) = Inr receipt"
    "srv_receipt_signer srv \<noteq> None \<Longrightarrow> receipt \<noteq> None" by blast
  have "b_ctx_id b = new_ctx_id uuid commit" by (simp add: b_def)
  then have "prepare_publish (x_sha256 E) uuid commit now g = Inr (b, receipt)"
    using minted(1) check l new unfolding prepare_publish_def pc
    by (cases "pc_receipt_minter commit") (simp_all add: Let_def b_def[symmetric])
  then have "commit_publish (x_sha256 E) uuid commit now g =
      (Inr (Inserted (publish_response_of req b receipt)), published commit b receipt g)"
    by (simp add: commit_publish_def idempotency_answer_def pc Let_def published_def)
  then have "commit_proven E srv uuid now \<lparr>pv_req = req, pv_fingerprint = fp, pv_authority = srv_authority srv\<rparr> None g =
       (Inr (Inserted (publish_response_of req b receipt)), published commit b receipt g)"
    using fp minted(2) by (cases "srv_receipt_signer srv")
      (auto simp: commit_proven_def commit_via_store_def commit_def publish_response_of_def)
  then show ?thesis using that l b_def by blast
qed

section \<open>Publish to consumer\<close>

lemma built_content:
  assumes "build E b = Inr req"
  shows "rb_title b = Some (pr_title req)" "rb_context_type b = Some (pr_context_type req)"
    "pr_data_refs req = rb_data_refs b" "pr_metadata req = rb_metadata b"
  using assms by (cases rule: build_cases; simp)+

text \<open>The body stored for a proven request verifies for as long as the producer's key is the one recognized.\<close>

lemma inserted_verifies:
  assumes "server_ok E srv" "served E srv g" "is_valid_uuid_v4 uuid" "proves E srv req p"
    and commit: "commit_proven E srv uuid now p key g = (Inr (Inserted resp), g')"
    and signed: "verify_publish_request_signature E resolve req = Inr ()" and later: "(server_step E srv)\<^sup>*\<^sup>* g' g''"
  shows "\<exists>ctx. retrieve srv (resp_ctx_id resp) (Some (pr_agent_id req)) now' g'' = Some ctx \<and>
    verify_body E resolve (fc_body ctx) = Inr () \<and> b_title (fc_body ctx) = pr_title req \<and>
    b_data_refs (fc_body ctx) = pr_data_refs req \<and> b_metadata (fc_body ctx) = pr_metadata req"
proof -
  have g': "served E srv g'" using served_step[OF assms(2)] server_step.publish[OF assms(4,3) commit] by blast
  from assms(4) commit obtain y l where y: "ctx_at g' (resp_ctx_id resp) = Some y"
    "fc_body y = from_publish_request req (resp_ctx_id resp) l (srv_authority srv) now"
    by (rule inserted_context)
  from server_steps_grow[OF later] y(1) obtain z where z: "ctx_at g'' (resp_ctx_id resp) = Some z" "evolves y z"
    using store_growsD by blast
  have body: "fc_body z = from_publish_request req (resp_ctx_id resp) l (srv_authority srv) now"
    using y(2) evolves_body[OF z(2)] by simp
  have "context_good E srv (resp_ctx_id resp) z"
    using served_inv[OF assms(1) served_steps[OF g' later]] z(1) by (simp add: server_inv_def)
  then have "verify_body E resolve (fc_body z) = Inr ()"
    using signed body
    by (simp add: context_good_def verify_body_def verify_body_signature_def verify_publish_request_signature_def from_publish_request_def)
  moreover have "can_retrieve (fc_body z) (Some (pr_agent_id req)) (srv_caps srv)"
    by (simp add: can_retrieve_def body)
  ultimately have "retrieve srv (resp_ctx_id resp) (Some (pr_agent_id req)) now' g'' = Some (project_context z now')"
    "verify_body E resolve (fc_body (project_context z now')) = Inr ()"
    using z(1) by (simp_all add: retrieve_def store_get_def project_context_def)
  then show ?thesis using body by (auto simp: project_context_def from_publish_request_def)
qed

lemma built_first_inserted:
  assumes new: "ctx_at g (''acdp://'' @ srv_authority srv @ ''/'' @ uuid) = None"
    and p: "recognized E verifying_key resolve (rb_producer b)" "rb_supersedes b = None" "build E b = Inr req"
    and srv: "admits E srv req" "limiter (pr_agent_id req) = Inr ()"
  obtains fp resp g' where "proves E srv req \<lparr>pv_req = req, pv_fingerprint = fp, pv_authority = srv_authority srv\<rparr>"
    "commit_proven E srv uuid now \<lparr>pv_req = req, pv_fingerprint = fp, pv_authority = srv_authority srv\<rparr> None g = (Inr (Inserted resp), g')"
    "publish_verified E limiter resolve resolve srv uuid now req None g = (Inr (Inserted resp), g')"
    "verify_publish_request_signature E resolve req = Inr ()"
proof -
  obtain fp where fp: "prove_publish_identity E limiter resolve resolve srv req =
      Inr \<lparr>pv_req = req, pv_fingerprint = fp, pv_authority = srv_authority srv\<rparr>" "srv_receipt_signer srv \<noteq> None \<longrightarrow> fp \<noteq> None"
      "verify_publish_request_signature E resolve req = Inr ()"
    using built_proven[OF p(3,1) srv(1), of limiter, OF srv(2)] by blast
  have none: "pr_supersedes req = None" using built_agent(4)[OF p(3)] p(2) by simp
  then have "supersession_check (pending_commit E srv req None fp) g = Inr None"
    by (simp add: supersession_check_def pending_commit_def)
  moreover have "ctx_at g (new_ctx_id uuid (pending_commit E srv req None fp)) = None"
    using new by (simp add: new_ctx_id_def pending_commit_def)
  ultimately have "\<exists>resp g'. commit_proven E srv uuid now \<lparr>pv_req = req, pv_fingerprint = fp, pv_authority = srv_authority srv\<rparr> None g = (Inr (Inserted resp), g')"
    using none by (elim proven_inserted[OF fp(2)]) auto
  then obtain resp g' where run: "commit_proven E srv uuid now \<lparr>pv_req = req, pv_fingerprint = fp, pv_authority = srv_authority srv\<rparr> None g = (Inr (Inserted resp), g')"
    by blast
  show ?thesis
    by (rule that[OF _ run _ fp(3)]) (use fp(1) run in \<open>auto simp: proves_def publish_verified_def commit_if_proven_def\<close>)
qed

text \<open>A \<open>did:key\<close> producer and two requests it builds, for the witnesses.\<close>

definition made_ext :: ext where
  "made_ext = sample_ext\<lparr>x_b64_encode := \<lambda>_. replicate 88 CHR ''A''\<rparr>"

definition made_producer :: producer where
  "made_producer = \<lparr>pd_signing_key = SigningKey [], pd_agent_id = ''did:key:zA'', pd_key_id = ''did:key:zA#zA'',
     pd_key_attestation = None\<rparr>"

definition made_builder :: "ctx_id option \<Rightarrow> u32 option \<Rightarrow> lineage_id option \<Rightarrow> request_builder" where
  "made_builder prev v l =
     (omit_acdp_version (builder_context_type Analysis (builder_title ''t'' (publish_request_builder made_producer))))
       \<lparr>rb_supersedes := prev, rb_version := v, rb_expected_lineage_id := l\<rparr>"

definition made_request :: "ctx_id option \<Rightarrow> u32 \<Rightarrow> lineage_id option \<Rightarrow> publish_request" where
  "made_request prev v l = sample_request\<lparr>pr_supersedes := prev, pr_version := v, pr_lineage_id := l\<rparr>"

lemmas made_defs = made_builder_def made_producer_def publish_request_builder_def builder_new_def setter_defs

lemma made_recognized: "recognized made_ext (\<lambda>_. replicate 32 0) resolve made_producer"
proof -
  have "new_did_key made_ext (\<lambda>_. replicate 32 0) [] = Inr made_producer"
    by (simp add: new_did_key_def Let_def did_key_from_ed25519_def did_key_url_def strip_prefix_def made_ext_def
        sample_ext_def made_producer_def)
  moreover have "did_key_pair made_ext (\<lambda>_. replicate 32 0) []"
    by (simp add: did_key_pair_def Let_def made_ext_def sample_ext_def MULTICODEC_ED25519_def verify_ed25519_def)
  ultimately show ?thesis unfolding recognized_def by blast
qed

lemma made_request_ok:
  assumes "version_coherent prev v = Inr ()" "opt_check prev (\<lambda>c. void (ctx_id_parse c)) = Inr ()"
    and "opt_check l (\<lambda>l. void (lineage_id_parse l)) = Inr ()" "v = 1 \<Longrightarrow> l = None"
  shows "validate_publish_request made_ext (made_request prev v l) = Inr ()"
proof -
  note base = sample_request_ok[unfolded validate_publish_request_def checks_Cons_ok]
  have "is_ok (validate_agent_did made_ext ''did:key:zA'' True)" "is_ok (validate_did_key_key_id_form made_ext ''did:key:zA#zA'')"
    by code_simp+
  then show ?thesis
    unfolding validate_publish_request_def checks_Cons_ok
    by (intro conjI) (use base assms in \<open>simp_all add: made_request_def sample_request_def is_ok_iff\<close>)
qed

lemma made_hash:
  "compute_content_hash (x_sci made_ext) (x_sha256 made_ext) (producer_content_value made_ext (made_builder prev v' l) ''t'' Analysis v) = Inr sample_hash"
proof -
  define ms where "ms = object_members (producer_content_value made_ext (made_builder prev v' l) ''t'' Analysis v)"
  have "producer_content_value made_ext (made_builder prev v' l) ''t'' Analysis v = JObject ms"
    by (simp add: producer_content_value_def object_members_def ms_def)
  moreover have "depth (producer_content ms) \<le> MAX_JCS_DEPTH"
    by (simp add: ms_def object_members_def producer_content_value_def made_defs to_map_def opt_member_def json_strings_def
        producer_content_def EXCLUDE_def MAX_JCS_DEPTH_def json_nat_def split: option.split)
  moreover have "hex_encode (replicate 32 0) = replicate 64 CHR ''0''" by code_simp
  ultimately show ?thesis
    unfolding compute_content_hash_object
    by (simp add: compute_content_hash_object try_canonicalize_value_def write_value_render sample_hash_def made_ext_def)
qed

lemma made_built:
  assumes "resolve_version prev v' = Inr v" "validate_publish_request made_ext (made_request prev v l) = Inr ()"
    and "v = 1 \<Longrightarrow> l = None"
  shows "build made_ext (made_builder prev v' l) = Inr (made_request prev v l)"
proof -
  have f: "rb_title (made_builder prev v' l) = Some ''t''" "rb_context_type (made_builder prev v' l) = Some Analysis"
    "rb_supersedes (made_builder prev v' l) = prev" "rb_version (made_builder prev v' l) = v'"
    "rb_expected_lineage_id (made_builder prev v' l) = l" "rb_visibility (made_builder prev v' l) = Public"
    "rb_producer (made_builder prev v' l) = made_producer"
    by (simp_all add: made_defs)
  have "request_of_builder (made_builder prev v' l) ''t'' Analysis v sample_hash (producer_signature made_ext made_producer sample_hash) =
      made_request prev v l"
    by (simp add: request_of_builder_def made_request_def sample_request_def made_defs producer_signature_def made_ext_def)
  then show ?thesis using assms unfolding build_def f Let_def by (simp add: made_hash)
qed

lemma made_admitted: "check_same_registry (Some ''r.example'') (made_request prev v l) = Inr () \<Longrightarrow>
  admits made_ext sample_server (made_request prev v l)"
  by (simp add: admits_def made_request_def sample_request_def supports_algorithm_def supports_did_method_def did_method_of_def)
    (simp add: sample_caps_def made_ext_def sample_ext_def)

text \<open>
  C8. What a producer builds reaches its consumers. Take a producer whose key is recognized through its
  \<open>did:key\<close> identifier or its DID document, and any chain of content setters on a first-version request
  that builds. A registry that admits the request inserts it, and ever after the producer retrieves a
  context with the title, data references and metadata it set, whose schema, content hash and
  signature verify.
\<close>

theorem built_context_reaches_consumer:
  assumes "server_ok E srv" "served E srv g" "is_valid_uuid_v4 uuid"
    and "ctx_at g (''acdp://'' @ srv_authority srv @ ''/'' @ uuid) = None"
    and "recognized E verifying_key resolve p" "content_edit\<^sup>*\<^sup>* (publish_request_builder p) b" "build E b = Inr req"
    and "admits E srv req" "limiter (pd_agent_id p) = Inr ()"
  shows "\<exists>resp g'. publish_verified E limiter resolve resolve srv uuid now req None g = (Inr (Inserted resp), g') \<and>
    (\<forall>g'' now'. (server_step E srv)\<^sup>*\<^sup>* g' g'' \<longrightarrow>
       (\<exists>ctx. retrieve srv (resp_ctx_id resp) (Some (pd_agent_id p)) now' g'' = Some ctx \<and>
          verify_body E resolve (fc_body ctx) = Inr () \<and> rb_title b = Some (b_title (fc_body ctx)) \<and>
          b_data_refs (fc_body ctx) = rb_data_refs b \<and> b_metadata (fc_body ctx) = rb_metadata b))"
proof -
  have "same_target (publish_request_builder p) b" by (rule edits_keep_target[OF assms(6)])
  then have b: "rb_producer b = p" "rb_supersedes b = None"
    by (simp_all add: same_target_def publish_request_builder_def builder_new_def)
  have agent: "pr_agent_id req = pd_agent_id p" using built_agent(1)[OF assms(7)] b by simp
  have "recognized E verifying_key resolve (rb_producer b)" "limiter (pr_agent_id req) = Inr ()" using assms b agent by simp_all
  then obtain fp resp g' where
    run: "proves E srv req \<lparr>pv_req = req, pv_fingerprint = fp, pv_authority = srv_authority srv\<rparr>"
    "commit_proven E srv uuid now \<lparr>pv_req = req, pv_fingerprint = fp, pv_authority = srv_authority srv\<rparr> None g = (Inr (Inserted resp), g')"
    and pub: "publish_verified E limiter resolve resolve srv uuid now req None g = (Inr (Inserted resp), g')"
    and signed: "verify_publish_request_signature E resolve req = Inr ()"
    using built_first_inserted[OF assms(4) _ b(2) assms(7,8), where limiter = limiter] by blast
  show ?thesis
    using pub inserted_verifies[OF assms(1,2,3) run signed] built_content[OF assms(7)] agent by (metis (no_types, lifting))
qed

lemma made_first: "content_edit\<^sup>*\<^sup>* (publish_request_builder made_producer) (made_builder None None None)"
proof -
  let ?b = "publish_request_builder made_producer"
  have "made_builder None None None = omit_acdp_version (builder_context_type Analysis (builder_title ''t'' ?b))"
    by (simp add: made_defs)
  then show ?thesis
    using content_edit.intros(1)[of ?b "''t''"] content_edit.intros(2)[of "builder_title ''t'' ?b" Analysis]
      content_edit.intros(19)[of "builder_context_type Analysis (builder_title ''t'' ?b)"]
    by (metis converse_rtranclp_into_rtranclp rtranclp.rtrancl_refl)
qed

lemma built_context_reaches_consumer_witness:
  "\<exists>resp g' ctx. publish_verified made_ext (\<lambda>_. Inr ()) sample_resolver sample_resolver sample_server sample_uuid 0
      (made_request None 1 None) None new_store = (Inr (Inserted resp), g') \<and>
    retrieve sample_server (resp_ctx_id resp) (Some ''did:key:zA'') 7 g' = Some ctx \<and>
    verify_body made_ext sample_resolver (fc_body ctx) = Inr () \<and> b_title (fc_body ctx) = ''t''"
proof -
  have ok: "server_ok made_ext sample_server" "served made_ext sample_server new_store" "is_valid_uuid_v4 sample_uuid"
    using sample_server_ok by (simp_all add: server_ok_def served_def made_ext_def) code_simp
  have built: "build made_ext (made_builder None None None) = Inr (made_request None 1 None)"
    by (rule made_built[OF _ made_request_ok]) (simp_all add: resolve_version_def version_coherent_def)
  have admitted: "admits made_ext sample_server (made_request None 1 None)"
    by (rule made_admitted) (simp add: check_same_registry_def made_request_def)
  have title: "rb_title (made_builder None None None) = Some ''t''" "pd_agent_id made_producer = ''did:key:zA''"
    by (simp_all add: made_defs)
  have new: "ctx_at new_store (''acdp://'' @ srv_authority sample_server @ ''/'' @ sample_uuid) = None" by (simp add: new_store_def)
  obtain resp g' where pub: "publish_verified made_ext (\<lambda>_. Inr ()) sample_resolver sample_resolver sample_server sample_uuid 0
      (made_request None 1 None) None new_store = (Inr (Inserted resp), g')"
    and later: "\<forall>g'' now'. (server_step made_ext sample_server)\<^sup>*\<^sup>* g' g'' \<longrightarrow>
       (\<exists>ctx. retrieve sample_server (resp_ctx_id resp) (Some ''did:key:zA'') now' g'' = Some ctx \<and>
          verify_body made_ext sample_resolver (fc_body ctx) = Inr () \<and> Some ''t'' = Some (b_title (fc_body ctx)) \<and>
          b_data_refs (fc_body ctx) = rb_data_refs (made_builder None None None) \<and> b_metadata (fc_body ctx) = rb_metadata (made_builder None None None))"
    using built_context_reaches_consumer[where limiter = "\<lambda>_. Inr ()" and now = 0, OF ok new made_recognized made_first built admitted refl]
    unfolding title by blast
  from later[rule_format, OF rtranclp.rtrancl_refl, of 7] show ?thesis
    by (elim exE conjE) (intro exI conjI, rule pub, assumption, assumption, simp)
qed

text \<open>
  C9. A new version extends the lineage. Let a producer start from a stored body of its own that no
  version supersedes yet, with \<open>supersede_body\<close> or \<open>new_version_from\<close>, and edit the content in any way. When
  the request builds and the registry admits it, the registry inserts it with the next version number
  under the same lineage identifier; the lineage is the old one with the new context at its end, and
  the previous version is marked superseded.
\<close>

theorem built_version_extends_lineage:
  assumes "reachable (x_sha256 E) g" "ctx_at g c = Some x" "rs_status (fc_registry_state x) \<noteq> Superseded"
    and "pd_agent_id p = b_agent_id (fc_body x)" "\<not> is_key_revocation (b_context_type (fc_body x))"
    and "ctx_at g (''acdp://'' @ srv_authority srv @ ''/'' @ uuid) = None"
    and "recognized E verifying_key resolve p"
    and "b0 \<in> {supersede_body p (fc_body x), new_version_from p (fc_body x)}" "content_edit\<^sup>*\<^sup>* b0 b" "build E b = Inr req"
    and "admits E srv req" "limiter (pd_agent_id p) = Inr ()"
  shows "\<exists>resp g' ids y. publish_verified E limiter resolve resolve srv uuid now req None g = (Inr (Inserted resp), g') \<and>
    resp_version resp = b_version (fc_body x) + 1 \<and> resp_lineage_id resp = b_lineage_id (fc_body x) \<and>
    lineage_at g (b_lineage_id (fc_body x)) = Some ids \<and> last ids = c \<and>
    lineage_at g' (b_lineage_id (fc_body x)) = Some (ids @ [resp_ctx_id resp]) \<and>
    ctx_at g' c = Some y \<and> rs_status (fc_registry_state y) = Superseded"
proof -
  note inv = reachable_inv[OF assms(1)]
  have c: "b_ctx_id (fc_body x) = c" using store_inv_contextD[OF inv assms(2)] by (simp add: context_ok_def)
  have "same_target b0 b" by (rule edits_keep_target[OF assms(9)])
  then have b: "rb_producer b = p" "rb_supersedes b = Some c" "rb_version b = Some (b_version (fc_body x) + 1)"
    "rb_expected_lineage_id b = Some (b_lineage_id (fc_body x))"
    using assms(8) c by (auto simp: same_target_def new_version_from_def supersede_body_def builder_new_def)
  note agent = built_agent[OF assms(10), unfolded b]
  have v: "pr_version req = b_version (fc_body x) + 1" using agent(6) by (simp add: resolve_version_def split: if_splits)
  have "recognized E verifying_key resolve (rb_producer b)" "limiter (pr_agent_id req) = Inr ()" using assms b agent by simp_all
  then obtain fp where fp: "prove_publish_identity E limiter resolve resolve srv req =
      Inr \<lparr>pv_req = req, pv_fingerprint = fp, pv_authority = srv_authority srv\<rparr>" "srv_receipt_signer srv \<noteq> None \<longrightarrow> fp \<noteq> None"
    using built_proven[OF assms(10) _ assms(11), of verifying_key resolve limiter] by blast
  define commit where "commit = pending_commit E srv req None fp"
  have pc: "pc_req commit = req" "pc_authority commit = srv_authority srv" by (simp_all add: commit_def pending_commit_def)
  from inv assms(2,3) obtain ids where ids: "lineage_at g (b_lineage_id (fc_body x)) = Some ids" "last ids = c"
    "first_version_ctx_id (b_lineage_id (fc_body x)) g = Some (hd ids)" "derive_lineage_id (x_sha256 E) (hd ids) = b_lineage_id (fc_body x)"
    by (rule predecessor_is_last)
  have check: "supersession_check commit g = Inr (Some (hd ids))"
    using assms(2,3,4,5) agent v ids(3) unfolding supersession_check_def pc
    by (simp add: commit_def pending_commit_def check_revocation_supersession_def)
  have new: "ctx_at g (new_ctx_id uuid commit) = None" using assms(6) by (simp add: new_ctx_id_def pc)
  then have neq: "new_ctx_id uuid commit \<noteq> c" using assms(2) by auto
  obtain l body receipt where l: "assign_identifiers (x_sha256 E) uuid (srv_authority srv) (pr_supersedes req) (Some (hd ids)) = Inr (new_ctx_id uuid commit, l)"
    and body: "body = from_publish_request req (new_ctx_id uuid commit) l (srv_authority srv) now"
    and run: "commit_proven E srv uuid now \<lparr>pv_req = req, pv_fingerprint = fp, pv_authority = srv_authority srv\<rparr> None g =
       (Inr (Inserted (publish_response_of req body receipt)), published commit body receipt g)"
    by (rule proven_inserted[OF fp(2) check[unfolded commit_def] option.simps(3) new[unfolded commit_def], folded commit_def]) (erule (2) that)
  have "l = b_lineage_id (fc_body x)" using l agent(4) ids(4) by (simp add: assign_identifiers_def Let_def)
  then have "lineage_at (published commit body receipt g) (b_lineage_id (fc_body x)) = Some (ids @ [b_ctx_id body])"
    "\<exists>y. ctx_at (published commit body receipt g) c = Some y \<and> rs_status (fc_registry_state y) = Superseded"
    using ids(1) body agent(4) assms(2) neq by (simp_all add: lineage_at_published ctx_at_published pc)
  moreover have "publish_verified E limiter resolve resolve srv uuid now req None g =
      (Inr (Inserted (publish_response_of req body receipt)), published commit body receipt g)"
    by (simp add: publish_verified_def commit_if_proven_def fp(1) run)
  ultimately show ?thesis
    using v \<open>l = _\<close> body ids(1,2) by (auto simp: publish_response_of_def)
qed

definition made_uuid :: string where
  "made_uuid = ''00000000-0000-4000-8000-000000000001''"

lemma made_store:
  "reachable (x_sha256 made_ext) sample_state" "lineage_at sample_state (b_lineage_id sample_body) = Some [sample_ctx]"
    "c \<noteq> sample_ctx \<Longrightarrow> ctx_at sample_state c = None"
proof -
  let ?c = "pending_commit sample_ext sample_server sample_request None None"
  have run: "commit_publish (x_sha256 sample_ext) sample_uuid ?c 0 new_store =
      (Inr (Inserted (publish_response_of sample_request sample_body None)), sample_state)"
    using sample_commit(1) by (simp add: commit_proven_def commit_via_store_def sample_proof_def split: prod.splits sum.splits)
  have "lineage_fresh (x_sha256 sample_ext) sample_uuid ?c new_store" by (simp add: lineage_fresh_def new_store_def)
  then have "any_step (x_sha256 sample_ext) new_store sample_state"
    unfolding any_step_def using run store_step.publish by blast
  then show "reachable (x_sha256 made_ext) sample_state"
    unfolding reachable_def by (simp add: made_ext_def r_into_rtranclp)
  have none: "pr_supersedes (pc_req ?c) = None" by (simp add: pending_commit_def sample_request_def)
  from run have "lineage_at sample_state (b_lineage_id sample_body) = Some [sample_ctx] \<and> (c \<noteq> sample_ctx \<longrightarrow> ctx_at sample_state c = None)"
  proof (cases rule: commit_publish_cases)
    case (2 b receipt)
    then have b: "b_ctx_id b = sample_ctx" "b_lineage_id b = b_lineage_id sample_body"
      by (auto simp: publish_response_of_def sample_body_def)
    show ?thesis
      using lineage_at_published[of ?c b receipt new_store] fun_cong[OF ctx_at_published[of ?c b receipt new_store, unfolded none], of c] 2(3,4) b
      by (simp add: new_store_def)
  qed simp
  then show "lineage_at sample_state (b_lineage_id sample_body) = Some [sample_ctx]" "c \<noteq> sample_ctx \<Longrightarrow> ctx_at sample_state c = None"
    by blast+
qed

lemma built_version_extends_lineage_witness:
  "\<exists>resp g'. publish_verified made_ext (\<lambda>_. Inr ()) sample_resolver sample_resolver sample_server made_uuid 1
      (made_request (Some sample_ctx) 2 (Some (b_lineage_id sample_body))) None sample_state = (Inr (Inserted resp), g') \<and>
    resp_version resp = 2 \<and> lineage_at g' (b_lineage_id sample_body) = Some [sample_ctx, resp_ctx_id resp]"
proof -
  let ?x = "fresh_context sample_body None"
  have body: "b_version sample_body = 1" "b_agent_id sample_body = ''did:key:zA''" "b_context_type sample_body = Analysis"
    by (simp_all add: sample_body_def from_publish_request_def sample_request_def)
  have parse: "ctx_id_parse sample_ctx = Inr sample_ctx" using sample_ctx_ok by (simp add: sample_ctx_def)
  have lin: "lineage_id_parse (b_lineage_id sample_body) = Inr (b_lineage_id sample_body)"
    by (simp add: sample_body_def derived_lineage_ok)
  have built: "build made_ext (made_builder (Some sample_ctx) (Some 2) (Some (b_lineage_id sample_body))) =
      Inr (made_request (Some sample_ctx) 2 (Some (b_lineage_id sample_body)))"
    by (rule made_built[OF _ made_request_ok]) (simp_all add: resolve_version_def version_coherent_def parse lin void_def)
  have "ctx_id_authority sample_ctx = ''r.example''" by code_simp
  then have admitted: "admits made_ext sample_server (made_request (Some sample_ctx) 2 (Some (b_lineage_id sample_body)))"
    by (intro made_admitted) (simp add: check_same_registry_def made_request_def)
  have start: "new_version_from made_producer (fc_body ?x) = made_builder (Some sample_ctx) (Some 2) (Some (b_lineage_id sample_body))"
    by (simp add: new_version_from_def supersede_body_def made_defs sample_body_def from_publish_request_def sample_request_def)
  have "sample_ctx \<noteq> ''acdp://r.example/'' @ made_uuid" by code_simp
  then have new: "ctx_at sample_state (''acdp://'' @ srv_authority sample_server @ ''/'' @ made_uuid) = None"
    by (intro made_store(3)) (simp add: eq_commute)
  obtain resp g' ids where "publish_verified made_ext (\<lambda>_. Inr ()) sample_resolver sample_resolver sample_server made_uuid 1
      (made_request (Some sample_ctx) 2 (Some (b_lineage_id sample_body))) None sample_state = (Inr (Inserted resp), g')"
    "resp_version resp = b_version (fc_body ?x) + 1" "lineage_at sample_state (b_lineage_id (fc_body ?x)) = Some ids"
    "lineage_at g' (b_lineage_id (fc_body ?x)) = Some (ids @ [resp_ctx_id resp])"
    using built_version_extends_lineage[where limiter = "\<lambda>_. Inr ()" and now = 1 and resolve = sample_resolver, OF made_store(1) sample_commit(2) _ _ _ new made_recognized
        insertI2[OF singletonI] _ built[folded start] admitted refl] body by (auto simp: made_producer_def)
  then show ?thesis using made_store(2) body by auto
qed

end
