(* ===== verification/Spec2Isabelle.thy ===== *)
theory Spec2Isabelle
  imports Acdp_Merkle_Correct Acdp_Jcs_Correct Acdp_SafeHttp Acdp_Witness_Correct Acdp_Discovery_Complete
    Acdp_Fetch_Correct Acdp_Retry Acdp_DataRef Acdp_Recall_Correct Acdp_Change_Correct
    Acdp_Producer_Correct
begin

text \<open>
  \<^bold>\<open>Verification of acdp-rs, the Rust implementation of the Agent Context Distribution Protocol.\<close>

  \<^bold>\<open>The program.\<close> Producers sign contexts (metadata plus references to data) and publish them to a
  registry. A registry validates a publish request, proves the producer's identity, assigns
  identifiers, stores the resulting body, signs a receipt for it, appends it to a transparency log
  and serves it to readers who may see it. Contexts form lineages by supersession; they can be
  retracted and republished; keys can be revoked by special contexts. Consumers retrieve contexts
  over HTTP, discover revocations and verify identifiers, hash, receipt, revocations, signature and
  log inclusion of what they get, each under a policy. Witnesses cosign the checkpoints of a log.
  Outgoing requests are filtered against server-side request forgery.

  \<^bold>\<open>Layout.\<close> Each theory follows one part of the sources under src/crates.

  \<^item> \<open>Acdp_Prelude\<close>, \<open>Acdp_Strings\<close>: results as sums (\<open>rbind\<close>, \<open>require\<close>, \<open>checks\<close>, \<open>each\<close>), the Rust string
    operations the code uses, and the locales for step systems.
  \<^item> \<open>Acdp_Errors\<close>: acdp-primitives/src/error.rs, wire_error.rs, revocation.rs. The error vocabulary, wire
    codes, the transience of errors and the decoding of error envelopes.
  \<^item> \<open>Acdp_Primitives\<close>: acdp-primitives/src/primitives.rs and time.rs. Identifiers, their parsers,
    enumerations and their wire forms, truncation of times.
  \<^item> \<open>Acdp_Jcs\<close>, \<open>Acdp_Jcs_Correct\<close>, \<open>Acdp_Jcs_Numbers\<close>: acdp-jcs. Canonical JSON: string escaping, key order,
    number rendering, depth limit. \<open>Acdp_Jcs_Numbers\<close> reads a printed numeral as a real number and
    shows that, away from decimal ties, canonical texts agree exactly for equal documents.
  \<^item> \<open>Acdp_Merkle\<close>, \<open>Acdp_Merkle_Correct\<close>: acdp-crypto/src/merkle.rs. Roots, inclusion and consistency proofs, with
    completeness and soundness up to hash collisions.
  \<^item> \<open>Acdp_SafeHttp\<close>: acdp-safe-http. Classification of addresses, host and URL policy, pinned answers.
  \<^item> \<open>Acdp_Hash\<close>: acdp-crypto/src/hash.rs. Preimages, content hashes, lineage identifiers.
  \<^item> \<open>Acdp_Types\<close>: acdp-types/src/body.rs, publish.rs, data_ref.rs, anchor.rs, lifecycle.rs, search.rs. Records of
    the wire types, bodies made from requests, lifecycle events and the retraction state.
  \<^item> \<open>Acdp_Keys\<close>: acdp-did/src/key.rs, document.rs, acdp-crypto/src/fingerprint.rs, verify.rs and the signature
    envelope of acdp-verify/src/lib.rs. The record \<open>ext\<close> collects the external functions.
  \<^item> \<open>Acdp_Validation\<close>, \<open>Acdp_Validation_Correct\<close>: acdp-validation/src/lib.rs with capabilities and profiles.
  \<^item> \<open>Acdp_Verify\<close>, \<open>Acdp_Verify_Correct\<close>: acdp-verify/src/lib.rs, raw_hash.rs, binding.rs, with the serialized
    forms the hashes are computed over.
  \<^item> \<open>Acdp_Revocation\<close>: acdp-types/src/revocation.rs and the gates of acdp-server/src/registry/validator.rs.
  \<^item> \<open>Acdp_Store\<close>, \<open>Acdp_Store_Correct\<close>: acdp-server/src/registry/store.rs. The store's state is the record
    \<open>inner\<close>; each trait method is a function on it. Reachable stores are closed under the operations the
    server performs (idempotency lookup, commit of a publish, lifecycle events, eviction); \<open>put\<close>, \<open>mark_superseded\<close> and the
    standalone \<open>idempotency_record\<close>, which only tests call, are modelled but are no such steps.
  \<^item> \<open>Acdp_Search\<close>, \<open>Acdp_Search_Correct\<close>: search and cursors of the same file.
  \<^item> \<open>Acdp_Server\<close>, \<open>Acdp_Server_Correct\<close>, \<open>Acdp_Registry_Rules\<close>: acdp-server/src/registry/server.rs, validator.rs and
    lifecycle.rs. Prove and commit are separate steps as in the code: \<open>server_step\<close> lets other
    operations run between a lifecycle proof and its commit.
  \<^item> \<open>Acdp_Receipt\<close>, \<open>Acdp_Receipt_Correct\<close>: acdp-types/src/receipt.rs and acdp-client/src/receipt.rs. Minting and
    verification of publish receipts and of receipts for the head of a lineage.
  \<^item> \<open>Acdp_Log\<close>, \<open>Acdp_Log_Correct\<close>: acdp-types/src/log.rs, acdp-server/src/registry/log.rs, acdp-client/src/log.rs. The
    transparency log, its checkpoints and proofs, and what a client checks of them.
  \<^item> \<open>Acdp_Witness\<close>, \<open>Acdp_Witness_Correct\<close>: acdp-types/src/cosignature.rs, acdp-client/src/witness.rs, transparency.rs.
    Cosignatures, the quorum, the consistency a witness demands, and the transparency verdicts.
  \<^item> \<open>Acdp_Verdict\<close>, \<open>Acdp_Verdict_Correct\<close>: acdp-client/src/revocation_verdict.rs, revocation_cache.rs. The cache of
    seen revocations, gathering by scope, the verdict and its enforcement.
  \<^item> \<open>Acdp_Wire\<close>, \<open>Acdp_Wire_Correct\<close>: acdp-types/src/event_receipt.rs and the wire forms of contexts; raw-JSON hashes.
  \<^item> \<open>Acdp_Client\<close>: acdp-client/src/registry.rs. The client as a record passed through every operation
    (\<open>client_op\<close>), with the trace of its requests and waits.
  \<^item> \<open>Acdp_Discovery\<close>, \<open>Acdp_Discovery_Correct\<close>, \<open>Acdp_Discovery_Complete\<close>: acdp-client/src/revocation.rs. Search and
    walks for revocations: sound against any registry, within budget, complete against a truthful one.
  \<^item> \<open>Acdp_Fetch\<close>, \<open>Acdp_Fetch_Correct\<close>: acdp-client/src/verified.rs. Policies, the phases of a verified fetch, reports.
  \<^item> \<open>Acdp_DataRef\<close>: acdp-client/src/data_ref.rs. Fetching referenced data under the address policy and the cap.
  \<^item> \<open>Acdp_Change\<close>, \<open>Acdp_Change_Correct\<close>: acdp-types/src/change.rs. Entries of the change feed, pages, watch filters,
    subscriptions and signed hints.
  \<^item> \<open>Acdp_Recall\<close>, \<open>Acdp_Recall_Correct\<close>: acdp-client/src/recall.rs. Following the feed and verifying its entries.
  \<^item> \<open>Acdp_Producer\<close>, \<open>Acdp_Producer_Correct\<close>: acdp-producer/src/builder.rs. Producers, the setters of a request
    and \<open>build\<close>, composed with the registry and with verification.
  \<^item> \<open>Acdp_Retry\<close>: \<open>publish_with_retry\<close> against the store, over a network that loses requests and answers.

  \<^bold>\<open>Results.\<close>

  \<^item> The store: lineages are chains of custody, a predecessor has one successor, bodies never change,
    retries are idempotent, lifecycle events alternate, and the whole store refines an append-only
    ledger. Crawling by cursor terminates and returns every match once.
  \<^item> The server: only contexts that verify are served; what a \<open>did:key\<close> producer publishes stays
    retrievable and verifies offline; from version 0.3.0 on stored revocations of the standard type are
    genuine and keep their signer class under supersession; only the producer or the registry changes lifecycle state.
  \<^item> The producer: a request it builds, with whatever content, carries the hash and signature the registry
    recomputes, so it is inserted and verifies for consumers ever after; a version built from a stored
    body extends its lineage by one.
  \<^item> Receipts and logs: the receipts a registry serves verify; its log only grows and the proofs it
    gives are accepted; an accepted inclusion proof means that the leaf is in the log, or exhibits a
    hash collision; a witness cosigns only extensions of what it has retained, and a quorum counts
    distinct trusted witnesses.
  \<^item> Revocations: the verdict fails closed, a revocation once seen is never forgotten, discovery returns
    genuine revocations only, stays within its budget however its two lookups interleave, and finds every listed revocation of a truthful
    registry, so a context signed with a revoked key is refused.
  \<^item> The fetch: a fetched context has passed every check, whatever the registry answered; contexts of an
    honest registry pass the default policy if their hash is that of the canonical rendering and they
    are not old bodies of a \<open>did:key\<close> producer; the three reports agree; retried publishes store once.
  \<^item> Recall: a verified entry of the change feed is backed by verified evidence; a consumer that follows
    the feed processes each watched entry once and in order, through interruptions; pages are read back
    as written; bucket filters cover the exact filters they stand for; hints are accepted exactly for
    the signed bytes.
  \<^item> Foundations: canonical JSON, content hashes, Merkle proofs, the wire form of contexts and the
    address policy have exact characterizations against definitions of their own: numbers as reals,
    member names, CIDR blocks.
  \<^item> Divergences, stated as theorems: the half-even step of the number printer writes \<open>2^-24\<close> as the
    numeral of the double below it, so two documents share their canonical bytes; discovery never asks
    for expired revocations; a request hashed in the older spelling of timestamps is accepted but cannot
    be verified after retrieval; two string escapes, the address \<open>::ffff:0.0.0.0\<close> and the NAT64 block are
    handled otherwise than documented.

  \<^bold>\<open>Interfaces.\<close> \<open>transition_system\<close> and \<open>growing_system\<close> (invariants and growth along runs) are interpreted
  on the steps of the store, the server, the registry rules, the receipts, the log, the revocation
  cache, the idempotency records, the follower of a feed and the two interleaved lookups of a discovery, so that the server inherits what the store keeps;
  \<open>client_invariant\<close> (what every client operation keeps) on what discovery returns and on its runs.

  \<^bold>\<open>Parameters.\<close> SHA-256, base58, base64, curve operations and signing, RFC 3339 formatting and parsing, the
  scientific digits of doubles, Unicode case folding, DID resolution, rate limiting, clocks and
  fresh UUIDs are arguments. The record \<open>net\<close> holds what a client sees of the outside: HTTP answers,
  decoders, clocks and bearer tokens, all functions of the trace so far. Hypotheses on them are
  stated in the theorems: digests have 32 bytes (\<open>server_ok\<close>), fresh UUIDs are version 4, canonical
  times read back, the formatter of doubles reads back (\<open>sci_reads_back\<close>), a published key verifies what it signed, a truthful registry answers from its
  store.

  \<^bold>\<open>Numbers and fuel.\<close> Machine integers are words where the width matters (versions, sizes, limits,
  address bits), naturals elsewhere. Instants and durations are integers of nanoseconds. Following
  cursors uses fuel, the number of matches plus one, and \<open>crawl_complete\<close> shows it is enough; the page
  loop of discovery is bounded by \<open>MAX_SEARCH_PAGES\<close> in the code; the page size of the feed is halved until
  it fits; every other loop is a total recursive
  function.

  \<^bold>\<open>Schedules.\<close> Each critical section of the store is one step. In the definitions the two lookups of a
  discovery run one after the other, and the deadline is read when a lookup ends; what they may send
  and read is proved of every interleaving (\<open>joint_step\<close>), of which the sequential run is one. DID
  resolution gives one answer per run. The model is the build without the \<open>keyless\<close> feature.

  \<^bold>\<open>Not modelled.\<close> Network and file input and output, asynchronous scheduling, HTTP framing, redirects
  inside the HTTP client, error message texts, serde-derived code beyond the forms that are hashed or
  decoded here, validation of a publish against a raw request document (\<open>validate_post_schema_raw\<close>, which
  a front-end may call; the server itself hashes the typed request), the registry's side of the change feed, keyless attestations, trust lists, the chain auditor,
  cross-registry resolution, the command line tool, the proxies and the language bindings.
\<close>

end
